(* ===== verification/Prelude.thy ===== *)
theory Prelude
  imports Main "HOL-Library.Word" "HOL-Library.Sublist" "HOL-Library.List_Lexorder"
    "HOL-Library.Product_Lexorder" "HOL-Library.Char_ord" "HOL-Library.Option_ord"
begin

text \<open>
  Shared vocabulary of the development.
  \<^item> Results: Rust's \<open>Result<T, E>\<close> is the sum type \<open>'e + 'a\<close> with the error on the left; the
    \<open>?\<close> operator is \<open>and_then\<close>.
  \<^item> Strings: a Rust \<open>String\<close> is its UTF-8 byte sequence, a HOL \<open>string\<close> (a list of bytes).
    The operations of \<open>str\<close> that the source uses (\<open>trim\<close>, \<open>strip_prefix\<close>, \<open>split\<close>, ASCII case
    folding, \<open>char::is_control\<close>) are defined on the bytes.
  \<^item> Tables: a SQLite table is the list of its rows; \<open>UPDATE\<close>, \<open>DELETE\<close>, \<open>COUNT\<close> and
    \<open>SELECT .. LIMIT 1\<close> are list functions.
  \<^item> Reachability: the locale \<open>transition_system\<close> lifts a one-step preservation fact to every
    reachable state.
\<close>

named_theorems result_simps \<open>decomposition of successful results\<close>
named_theorems table_simps \<open>facts on the table operations\<close>

section \<open>Results\<close>

definition and_then :: "'e + 'a \<Rightarrow> ('a \<Rightarrow> 'e + 'b) \<Rightarrow> 'e + 'b" where
  "and_then m f = (case m of Inl e \<Rightarrow> Inl e | Inr x \<Rightarrow> f x)"

definition ensure :: "bool \<Rightarrow> 'e \<Rightarrow> 'e + unit" where
  "ensure b e = (if b then Inr () else Inl e)"

definition ok_or :: "'a option \<Rightarrow> 'e \<Rightarrow> 'e + 'a" where
  "ok_or x e = (case x of None \<Rightarrow> Inl e | Some y \<Rightarrow> Inr y)"

definition map_err :: "('e \<Rightarrow> 'f) \<Rightarrow> 'e + 'a \<Rightarrow> 'f + 'a" where
  "map_err f m = (case m of Inl e \<Rightarrow> Inl (f e) | Inr x \<Rightarrow> Inr x)"

definition is_ok :: "'e + 'a \<Rightarrow> bool" where
  "is_ok r = (case r of Inl _ \<Rightarrow> False | Inr _ \<Rightarrow> True)"

fun try_map :: "('a \<Rightarrow> 'e + 'b) \<Rightarrow> 'a list \<Rightarrow> 'e + 'b list" where
  "try_map f [] = Inr []"
| "try_map f (x # xs) = and_then (f x) (\<lambda>y. and_then (try_map f xs) (\<lambda>ys. Inr (y # ys)))"

lemma and_then_simps [simp]:
  "and_then (Inl e) f = Inl e"
  "and_then (Inr x) f = f x"
  by (simp_all add: and_then_def)

lemma and_then_Inr_iff [result_simps]:
  "and_then m f = Inr y \<longleftrightarrow> (\<exists>x. m = Inr x \<and> f x = Inr y)"
  by (cases m) auto

lemma ensure_Inr_iff [result_simps]: "ensure b e = Inr u \<longleftrightarrow> b"
  by (auto simp: ensure_def)

lemma ensure_simps [simp]: "ensure True e = Inr ()" "ensure False e = Inl e"
  by (simp_all add: ensure_def)

lemma ok_or_Inr_iff [result_simps]: "ok_or x e = Inr y \<longleftrightarrow> x = Some y"
  by (auto simp: ok_or_def split: option.splits)

lemma ok_or_simps [simp]: "ok_or None e = Inl e" "ok_or (Some y) e = Inr y"
  by (simp_all add: ok_or_def)

lemma map_err_Inr_iff [result_simps]: "map_err f m = Inr y \<longleftrightarrow> m = Inr y"
  by (cases m) (auto simp: map_err_def)

lemma map_err_simps [simp]: "map_err f (Inl e) = Inl (f e)" "map_err f (Inr x) = Inr x"
  by (simp_all add: map_err_def)

lemma is_ok_simps [simp]: "is_ok (Inr x)" "\<not> is_ok (Inl e)"
  by (simp_all add: is_ok_def)

lemma if_Inl_Inr_iff [result_simps]:
  "(if b then Inl e else m) = Inr y \<longleftrightarrow> \<not> b \<and> m = Inr y"
  "(if b then m else Inl e) = Inr y \<longleftrightarrow> b \<and> m = Inr y"
  by auto

lemma try_map_length: "try_map f xs = Inr ys \<Longrightarrow> length ys = length xs"
  by (induction xs arbitrary: ys) (auto simp: result_simps)

lemma try_map_Inr: "\<forall>x \<in> set xs. f x = Inr (g x) \<Longrightarrow> try_map f xs = Inr (map g xs)"
  by (induction xs) auto

section \<open>Rust strings as UTF-8 bytes\<close>

definition byte :: "char \<Rightarrow> nat" where
  "byte c = of_char c"

definition bytes :: "nat list \<Rightarrow> string" where
  "bytes = map char_of"

text \<open>The Unicode \<open>White_Space\<close> code points that \<open>str::trim\<close> strips, in UTF-8.\<close>

definition white_space :: "string list" where
  "white_space = map bytes
     [[32], [9], [10], [11], [12], [13], [0xC2, 0x85], [0xC2, 0xA0], [0xE1, 0x9A, 0x80],
      [0xE2, 0x80, 0x80], [0xE2, 0x80, 0x81], [0xE2, 0x80, 0x82], [0xE2, 0x80, 0x83],
      [0xE2, 0x80, 0x84], [0xE2, 0x80, 0x85], [0xE2, 0x80, 0x86], [0xE2, 0x80, 0x87],
      [0xE2, 0x80, 0x88], [0xE2, 0x80, 0x89], [0xE2, 0x80, 0x8A], [0xE2, 0x80, 0xA8],
      [0xE2, 0x80, 0xA9], [0xE2, 0x80, 0xAF], [0xE2, 0x81, 0x9F], [0xE3, 0x80, 0x80]]"

fun strip_prefix :: "string \<Rightarrow> string \<Rightarrow> string option" where
  "strip_prefix [] s = Some s"
| "strip_prefix (p # ps) [] = None"
| "strip_prefix (p # ps) (c # cs) = (if p = c then strip_prefix ps cs else None)"

fun strip_any :: "string list \<Rightarrow> string \<Rightarrow> string option" where
  "strip_any [] s = None"
| "strip_any (w # ws) s = (case strip_prefix w s of Some r \<Rightarrow> Some r | None \<Rightarrow> strip_any ws s)"

lemma strip_prefix_Some: "strip_prefix p s = Some r \<longleftrightarrow> s = p @ r"
  by (induction p s rule: strip_prefix.induct) auto

lemma strip_prefix_append [simp]: "strip_prefix p (p @ r) = Some r"
  by (simp add: strip_prefix_Some)

lemma strip_any_Some: "strip_any ws s = Some r \<Longrightarrow> \<exists>w \<in> set ws. s = w @ r"
  by (induction ws) (auto simp: strip_prefix_Some split: option.splits)

text \<open>
  Strips pieces while one matches; the fuel is the number of bytes, and every piece has at least
  one, so the loop always ends before the fuel does (\<open>strip_while_stops\<close>).
\<close>

fun strip_while :: "string list \<Rightarrow> nat \<Rightarrow> string \<Rightarrow> string" where
  "strip_while ws 0 s = s"
| "strip_while ws (Suc n) s =
     (case strip_any ws s of None \<Rightarrow> s | Some r \<Rightarrow> strip_while ws n r)"

definition trim_start :: "string \<Rightarrow> string" where
  "trim_start s = strip_while white_space (length s) s"

definition trim_end :: "string \<Rightarrow> string" where
  "trim_end s = rev (strip_while (map rev white_space) (length s) (rev s))"

definition trim :: "string \<Rightarrow> string" where
  "trim s = trim_end (trim_start s)"

lemma strip_while_stops:
  assumes "[] \<notin> set ws" and "length s \<le> n"
  shows "strip_any ws (strip_while ws n s) = None"
  using assms
proof (induction n arbitrary: s)
  case 0
  then have "s = []" by simp
  have "strip_any ws [] = None"
    using 0(1) strip_any_Some [of ws "[]"] by (cases "strip_any ws []") auto
  with \<open>s = []\<close> show ?case by simp
next
  case (Suc n)
  show ?case
  proof (cases "strip_any ws s")
    case None
    then show ?thesis by simp
  next
    case (Some r)
    then obtain w where "w \<in> set ws" "s = w @ r" using strip_any_Some by blast
    with Suc.prems have "length r \<le> n" by (cases w) auto
    with Suc Some show ?thesis by simp
  qed
qed

lemma strip_while_id: "strip_any ws s = None \<Longrightarrow> strip_while ws n s = s"
  by (cases n) auto

lemma strip_while_suffix: "suffix (strip_while ws n s) s"
proof (induction n arbitrary: s)
  case (Suc n)
  then show ?case
    by (auto split: option.splits dest!: strip_any_Some simp: suffix_def)
      (metis append.assoc)
qed simp

definition is_blank :: "string \<Rightarrow> bool" where
  "is_blank s \<longleftrightarrow> trim s = []"

text \<open>A visible ASCII character is never stripped; it decides \<open>is_blank\<close> at once.\<close>

definition visible :: "char \<Rightarrow> bool" where
  "visible c \<longleftrightarrow> 33 \<le> byte c \<and> byte c \<le> 126"

lemma white_space_not_visible: "w \<in> set white_space \<Longrightarrow> c \<in> set w \<Longrightarrow> \<not> visible c"
  by (auto simp: white_space_def bytes_def visible_def byte_def)

lemma strip_while_keeps:
  "c \<in> set s \<Longrightarrow> \<forall>w \<in> set ws. c \<notin> set w \<Longrightarrow> c \<in> set (strip_while ws n s)"
proof (induction n arbitrary: s)
  case (Suc n)
  show ?case
  proof (cases "strip_any ws s")
    case (Some r)
    then obtain w where "w \<in> set ws" "s = w @ r" using strip_any_Some by blast
    with Suc Some show ?thesis by auto
  qed (use Suc.prems in simp)
qed simp

lemma trim_keeps_visible: "c \<in> set s \<Longrightarrow> visible c \<Longrightarrow> c \<in> set (trim s)"
  unfolding trim_def trim_end_def trim_start_def
  using white_space_not_visible by (auto intro!: strip_while_keeps)

lemma not_blank_visible: "c \<in> set s \<Longrightarrow> visible c \<Longrightarrow> \<not> is_blank s"
  using trim_keeps_visible by (fastforce simp: is_blank_def)

lemma is_blank_code [code]:
  "is_blank s \<longleftrightarrow> \<not> list_ex visible s \<and> trim s = []"
  using not_blank_visible by (auto simp: is_blank_def list_ex_iff)

lemma white_space_nonempty: "[] \<notin> set white_space"
  by (simp add: white_space_def bytes_def)

lemma strip_any_visible:
  assumes "s \<noteq> []" and "visible (hd s)"
  shows "strip_any white_space s = None" and "strip_any (map rev white_space) s = None"
proof -
  have first: "w \<noteq> [] \<and> \<not> visible (hd w)" if "w \<in> set white_space \<union> rev ` set white_space" for w
    using that white_space_nonempty white_space_not_visible by (metis (no_types, lifting) UnE hd_in_set imageE rev_is_Nil_conv set_rev)
  have "strip_any ws s = None" if "set ws \<subseteq> set white_space \<union> rev ` set white_space" for ws
  proof (rule ccontr)
    assume "strip_any ws s \<noteq> None"
    then obtain r w where "w \<in> set ws" "s = w @ r" using strip_any_Some by fastforce
    with first [of w] that assms show False by (auto simp: hd_append)
  qed
  then show "strip_any white_space s = None" "strip_any (map rev white_space) s = None" by auto
qed

lemma trim_visible:
  assumes "s \<noteq> []" and "visible (hd s)" and "visible (last s)"
  shows "trim s = s"
proof -
  have "trim_start s = s" using assms by (simp add: trim_start_def strip_while_id strip_any_visible)
  moreover have "trim_end s = s"
    using assms strip_any_visible(2) [of "rev s"] by (simp add: trim_end_def strip_while_id hd_rev)
  ultimately show ?thesis by (simp add: trim_def)
qed

lemma trim_code [code]:
  "trim s = (if s \<noteq> [] \<and> visible (hd s) \<and> visible (last s) then s else trim_end (trim_start s))"
  using trim_visible by (simp add: trim_def)

definition starts_with :: "string \<Rightarrow> string \<Rightarrow> bool" where
  "starts_with s p \<longleftrightarrow> strip_prefix p s \<noteq> None"

definition ends_with_char :: "string \<Rightarrow> char \<Rightarrow> bool" where
  "ends_with_char s c \<longleftrightarrow> s \<noteq> [] \<and> last s = c"

fun split_on :: "char \<Rightarrow> string \<Rightarrow> string list" where
  "split_on d [] = [[]]"
| "split_on d (c # cs) =
     (if c = d then [] # split_on d cs
      else (case split_on d cs of [] \<Rightarrow> [[c]] | p # ps \<Rightarrow> (c # p) # ps))"

fun join_with :: "char \<Rightarrow> string list \<Rightarrow> string" where
  "join_with d [] = []"
| "join_with d [x] = x"
| "join_with d (x # y # xs) = x @ d # join_with d (y # xs)"

definition ascii_lower :: "char \<Rightarrow> char" where
  "ascii_lower c = (if 65 \<le> byte c \<and> byte c \<le> 90 then char_of (byte c + 32) else c)"

definition ascii_upper :: "char \<Rightarrow> char" where
  "ascii_upper c = (if 97 \<le> byte c \<and> byte c \<le> 122 then char_of (byte c - 32) else c)"

definition eq_ignore_ascii_case :: "string \<Rightarrow> string \<Rightarrow> bool" where
  "eq_ignore_ascii_case a b \<longleftrightarrow> map ascii_lower a = map ascii_lower b"

definition is_ascii_alphanumeric :: "char \<Rightarrow> bool" where
  "is_ascii_alphanumeric c \<longleftrightarrow>
     48 \<le> byte c \<and> byte c \<le> 57 \<or> 65 \<le> byte c \<and> byte c \<le> 90 \<or> 97 \<le> byte c \<and> byte c \<le> 122"

text \<open>\<open>is_ascii_hexdigit\<close> and not \<open>is_ascii_uppercase\<close>.\<close>

definition is_lower_hexdigit :: "char \<Rightarrow> bool" where
  "is_lower_hexdigit c \<longleftrightarrow> 48 \<le> byte c \<and> byte c \<le> 57 \<or> 97 \<le> byte c \<and> byte c \<le> 102"

text \<open>\<open>char::is_control\<close>: U+0000..U+001F, U+007F, and U+0080..U+009F (two bytes in UTF-8).\<close>

fun has_control :: "string \<Rightarrow> bool" where
  "has_control [] = False"
| "has_control (c # cs) =
     (byte c < 32 \<or> byte c = 127
      \<or> (byte c = 0xC2 \<and> (case cs of [] \<Rightarrow> False | d # _ \<Rightarrow> 0x80 \<le> byte d \<and> byte d \<le> 0x9F))
      \<or> has_control cs)"

text \<open>The number of characters of a UTF-8 string: the bytes that are not continuation bytes.\<close>

definition char_count :: "string \<Rightarrow> nat" where
  "char_count s = length (filter (\<lambda>c. \<not> (0x80 \<le> byte c \<and> byte c < 0xC0)) s)"

fun dec_digits :: "nat \<Rightarrow> string" where
  "dec_digits n =
     (if n < 10 then [char_of (48 + n)] else dec_digits (n div 10) @ [char_of (48 + n mod 10)])"

declare dec_digits.simps [simp del]

definition dec :: "int \<Rightarrow> string" where
  "dec i = (if i < 0 then CHR ''-'' # dec_digits (nat (- i)) else dec_digits (nat i))"

lemma split_on_not_Nil [simp]: "split_on d s \<noteq> []"
  by (induction s) (auto split: list.splits)

lemma join_split_on: "join_with d (split_on d s) = s"
proof (induction s)
  case (Cons c cs)
  show ?case
  proof (cases "split_on d cs")
    case Nil
    then show ?thesis using split_on_not_Nil [of d cs] by contradiction
  next
    case (Cons p ps)
    with Cons.IH show ?thesis by (cases ps) auto
  qed
qed simp

lemma split_on_no_sep: "p \<in> set (split_on d s) \<Longrightarrow> d \<notin> set p"
  by (induction s arbitrary: p) (auto split: if_splits list.splits)

lemma split_on_join:
  "ps \<noteq> [] \<Longrightarrow> \<forall>p \<in> set ps. d \<notin> set p \<Longrightarrow> split_on d (join_with d ps) = ps"
proof (induction d ps rule: join_with.induct)
  case (2 d x)
  then show ?case by (induction x) auto
next
  case (3 d x y xs)
  then have "split_on d (join_with d (y # xs)) = y # xs" by simp
  moreover have "d \<notin> set x" using 3 by simp
  ultimately show ?case by (induction x) auto
qed simp

lemma starts_with_append [simp]: "starts_with (p @ r) p"
  by (simp add: starts_with_def)

lemma starts_with_iff: "starts_with s p \<longleftrightarrow> (\<exists>r. s = p @ r)"
  by (cases "strip_prefix p s") (auto simp: starts_with_def strip_prefix_Some)

section \<open>Checked unsigned arithmetic\<close>

type_synonym u64 = "64 word"

text \<open>\<open>u64::checked_add\<close> and \<open>u64::saturating_sub\<close>.\<close>

definition checked_add_u64 :: "u64 \<Rightarrow> u64 \<Rightarrow> u64 option" where
  "checked_add_u64 a b = (if unat a + unat b < 2 ^ 64 then Some (a + b) else None)"

definition saturating_sub_u64 :: "u64 \<Rightarrow> u64 \<Rightarrow> u64" where
  "saturating_sub_u64 a b = (if b \<le> a then a - b else 0)"

lemma checked_add_u64_Some:
  "checked_add_u64 a b = Some c \<Longrightarrow> unat c = unat a + unat b"
  by (auto simp: checked_add_u64_def unat_word_ariths split: if_splits)

lemma unat_saturating_sub_u64: "unat (saturating_sub_u64 a b) = unat a - unat b"
  by (auto simp: saturating_sub_u64_def unat_sub word_le_nat_alt)

section \<open>Tables\<close>

definition sql_update :: "('r \<Rightarrow> bool) \<Rightarrow> ('r \<Rightarrow> 'r) \<Rightarrow> 'r list \<Rightarrow> 'r list" where
  "sql_update P f rows = map (\<lambda>r. if P r then f r else r) rows"

definition sql_delete :: "('r \<Rightarrow> bool) \<Rightarrow> 'r list \<Rightarrow> 'r list" where
  "sql_delete P rows = filter (\<lambda>r. \<not> P r) rows"

definition sql_count :: "('r \<Rightarrow> bool) \<Rightarrow> 'r list \<Rightarrow> nat" where
  "sql_count P rows = length (filter P rows)"

text \<open>\<open>query_row\<close>: the first row of the result set, if any.\<close>

definition sql_find :: "('r \<Rightarrow> bool) \<Rightarrow> 'r list \<Rightarrow> 'r option" where
  "sql_find P rows = List.find P rows"

text \<open>\<open>INSERT .. ON CONFLICT(key) DO UPDATE\<close>: update the conflicting row, else append.\<close>

definition sql_upsert :: "('r \<Rightarrow> bool) \<Rightarrow> 'r \<Rightarrow> ('r \<Rightarrow> 'r) \<Rightarrow> 'r list \<Rightarrow> 'r list" where
  "sql_upsert P new upd rows =
     (if list_ex P rows then sql_update P upd rows else rows @ [new])"

lemma set_sql_update [table_simps]:
  "set (sql_update P f rows) = (\<lambda>r. if P r then f r else r) ` set rows"
  by (simp add: sql_update_def)

lemma set_sql_delete [table_simps]: "set (sql_delete P rows) = {r \<in> set rows. \<not> P r}"
  by (auto simp: sql_delete_def)

lemma sql_update_Nil [simp]: "sql_update P f [] = []"
  by (simp add: sql_update_def)

lemma sql_update_Cons [simp]:
  "sql_update P f (r # rs) = (if P r then f r else r) # sql_update P f rs"
  by (simp add: sql_update_def)

lemma length_sql_update [simp]: "length (sql_update P f rows) = length rows"
  by (simp add: sql_update_def)

lemma map_sql_update [table_simps]:
  "(\<And>r. P r \<Longrightarrow> g (f r) = g r) \<Longrightarrow> map g (sql_update P f rows) = map g rows"
  by (auto simp: sql_update_def)

lemma sql_update_unmatched: "(\<And>r. r \<in> set rows \<Longrightarrow> \<not> P r) \<Longrightarrow> sql_update P f rows = rows"
  by (induction rows) auto

lemma map_key_sql_upsert:
  assumes "\<And>r. P r \<Longrightarrow> key (upd r) = key r"
  shows "map key (sql_upsert P new upd rows) = (if list_ex P rows then map key rows else map key rows @ [key new])"
  using assms by (simp add: sql_upsert_def map_sql_update)

lemma set_sql_upsert:
  "set (sql_upsert P new upd rows)
   = (if list_ex P rows then (\<lambda>r. if P r then upd r else r) ` set rows else insert new (set rows))"
  by (auto simp: sql_upsert_def set_sql_update)

lemma sql_count_pos: "0 < sql_count P rows \<longleftrightarrow> (\<exists>r \<in> set rows. P r)"
  by (auto simp: sql_count_def filter_empty_conv)

lemma sql_count_eq_0: "sql_count P rows = 0 \<longleftrightarrow> (\<forall>r \<in> set rows. \<not> P r)"
  by (auto simp: sql_count_def filter_empty_conv)

lemma sql_find_Some: "sql_find P rows = Some r \<Longrightarrow> r \<in> set rows \<and> P r"
  by (auto simp: sql_find_def find_Some_iff)

lemma sql_find_None: "sql_find P rows = None \<longleftrightarrow> (\<forall>r \<in> set rows. \<not> P r)"
  by (auto simp: sql_find_def find_None_iff)

lemma sql_find_Nil [simp]: "sql_find P [] = None"
  by (simp add: sql_find_def)

lemma sql_find_Cons [simp]: "sql_find P (r # rs) = (if P r then Some r else sql_find P rs)"
  by (simp add: sql_find_def)

lemma sql_find_update:
  assumes "\<And>r. P r \<Longrightarrow> Q (f r) = Q r"
  shows "sql_find Q (sql_update P f rows)
       = map_option (\<lambda>r. if P r then f r else r) (sql_find Q rows)"
  using assms by (induction rows) auto

lemma sql_find_unique:
  assumes "distinct (map key rows)" and "r \<in> set rows"
  shows "sql_find (\<lambda>x. key x = key r) rows = Some r"
  using assms by (induction rows) force+

lemma sql_count_unique:
  assumes "distinct (map key rows)" and "r \<in> set rows" and "P r"
  shows "sql_count (\<lambda>x. key x = key r \<and> P x) rows = 1"
  using assms
proof (induction rows)
  case (Cons a rows)
  show ?case
  proof (cases "a = r")
    case True
    with Cons.prems(1) have "\<forall>x \<in> set rows. key x \<noteq> key r" by (auto simp: image_iff)
    then have "filter (\<lambda>x. key x = key r \<and> P x) rows = []" by (auto simp: filter_empty_conv)
    with True Cons.prems show ?thesis by (simp add: sql_count_def)
  next
    case False
    with Cons.prems have "key a \<noteq> key r" by force
    with Cons False show ?thesis by (simp add: sql_count_def)
  qed
qed simp

lemma same_key_same_row:
  "distinct (map key rows) \<Longrightarrow> r \<in> set rows \<Longrightarrow> s \<in> set rows \<Longrightarrow> key r = key s \<Longrightarrow> r = s"
  by (metis distinct_map inj_on_def)

lemma distinct_map_sql_delete: "distinct (map g rows) \<Longrightarrow> distinct (map g (sql_delete P rows))"
  by (simp add: sql_delete_def distinct_map_filter)

section \<open>Invariants of transition systems\<close>

text \<open>
  The shared shape of the safety arguments: an operation performs one step of a store; an
  invariant that every step keeps holds in every state a sequence of steps can reach. A step that
  returns an error leaves the store as it was.
\<close>

primrec run_steps :: "('op \<Rightarrow> 's \<Rightarrow> 'e + 's) \<Rightarrow> 'op list \<Rightarrow> 's \<Rightarrow> 's" where
  "run_steps step [] s = s"
| "run_steps step (op # ops) s = run_steps step ops (case step op s of Inl _ \<Rightarrow> s | Inr t \<Rightarrow> t)"

locale transition_system =
  fixes step :: "'op \<Rightarrow> 's \<Rightarrow> 'e + 's"
    and inv :: "'s \<Rightarrow> bool"
  assumes step_inv: "inv s \<Longrightarrow> step op s = Inr t \<Longrightarrow> inv t"
begin

lemma run_inv: "inv s \<Longrightarrow> inv (run_steps step ops s)"
proof (induction ops arbitrary: s)
  case (Cons op ops)
  then show ?case by (cases "step op s") (auto dest: step_inv)
qed simp

end

end
