(* ===== verification/Paths.thy ===== *)
theory Paths
  imports Prelude
begin

text \<open>
  \<open>std::path\<close> on Unix, as far as the source uses it. A \<open>PathBuf\<close> is its byte sequence;
  \<open>components\<close> splits it the way \<open>Path::components\<close> does (repeated separators and inner \<open>.\<close>
  segments are dropped, a leading \<open>.\<close> of a relative path is kept), and paths are compared by
  their components. Windows prefixes are outside the model: the development fixes the Unix target
  of the source's \<open>cfg\<close> switches.
\<close>

type_synonym path = string

datatype component = RootDir | CurDir | ParentDir | Normal string

definition segment_component :: "string \<Rightarrow> component list" where
  "segment_component seg =
     (if seg = [] \<or> seg = ''.'' then [] else if seg = ''..'' then [ParentDir] else [Normal seg])"

definition is_absolute :: "path \<Rightarrow> bool" where
  "is_absolute p \<longleftrightarrow> (case p of [] \<Rightarrow> False | c # _ \<Rightarrow> c = CHR ''/'')"

definition components :: "path \<Rightarrow> component list" where
  "components p =
     (let segs = split_on (CHR ''/'') p; body = concat (map segment_component segs) in
      if is_absolute p then RootDir # body
      else if hd segs = ''.'' then CurDir # body else body)"

definition path_eq :: "path \<Rightarrow> path \<Rightarrow> bool" where
  "path_eq p q \<longleftrightarrow> components p = components q"

text \<open>\<open>Path::parent\<close>, as components: \<open>None\<close> for the root and for the empty path.\<close>

definition parent :: "path \<Rightarrow> component list option" where
  "parent p =
     (let cs = components p in
      if cs = [] \<or> last cs = RootDir then None else Some (butlast cs))"

definition path_join :: "path \<Rightarrow> path \<Rightarrow> path" where
  "path_join root p =
     (if is_absolute p then p
      else if root = [] \<or> last root = CHR ''/'' then root @ p
      else root @ CHR ''/'' # p)"

text \<open>\<open>Path::to_str\<close> succeeds on well-formed UTF-8 (Unicode table 3-7).\<close>

definition cont_byte :: "char \<Rightarrow> bool" where
  "cont_byte c \<longleftrightarrow> 0x80 \<le> byte c \<and> byte c < 0xC0"

definition second_ok :: "nat \<Rightarrow> nat \<Rightarrow> bool" where
  "second_ok b d \<longleftrightarrow>
     (if b = 0xE0 then 0xA0 \<le> d \<and> d < 0xC0
      else if b = 0xED then 0x80 \<le> d \<and> d < 0xA0
      else if b = 0xF0 then 0x90 \<le> d \<and> d < 0xC0
      else if b = 0xF4 then 0x80 \<le> d \<and> d < 0x90
      else 0x80 \<le> d \<and> d < 0xC0)"

text \<open>The length of the first scalar value, 0 when the string does not start with one.\<close>

definition scalar_len :: "string \<Rightarrow> nat" where
  "scalar_len s =
     (case s of [] \<Rightarrow> 0
      | c # cs \<Rightarrow>
          let b = byte c;
              n = (if b < 0x80 then 1 else if 0xC2 \<le> b \<and> b \<le> 0xDF then 2
                   else if 0xE0 \<le> b \<and> b \<le> 0xEF then 3
                   else if 0xF0 \<le> b \<and> b \<le> 0xF4 then 4 else 0)
          in if n \<le> 1 then n
             else if n - 1 \<le> length cs \<and> second_ok b (byte (hd cs)) \<and> list_all cont_byte (take (n - 1) cs)
             then n else 0)"

fun valid_utf8_upto :: "nat \<Rightarrow> string \<Rightarrow> bool" where
  "valid_utf8_upto n [] = True"
| "valid_utf8_upto 0 (c # cs) = False"
| "valid_utf8_upto (Suc n) (c # cs) =
     (let k = scalar_len (c # cs) in k \<noteq> 0 \<and> valid_utf8_upto n (drop k (c # cs)))"

definition valid_utf8 :: "string \<Rightarrow> bool" where
  "valid_utf8 s \<longleftrightarrow> valid_utf8_upto (length s) s"

lemma valid_utf8_upto_mono:
  "valid_utf8_upto n s \<Longrightarrow> n \<le> m \<Longrightarrow> valid_utf8_upto m s"
proof (induction n s arbitrary: m rule: valid_utf8_upto.induct)
  case (1 n)
  then show ?case by (cases m) auto
next
  case (3 n c cs)
  then show ?case by (cases m) (auto simp: Let_def)
qed simp

text \<open>ASCII strings are well-formed, so the identifiers the code builds always convert.\<close>

lemma valid_utf8_ascii: "list_all (\<lambda>c. byte c < 0x80) s \<Longrightarrow> valid_utf8 s"
  unfolding valid_utf8_def by (induction s) (auto simp: scalar_len_def)

lemma valid_utf8_code [code]:
  "valid_utf8 s \<longleftrightarrow> list_all (\<lambda>c. byte c < 0x80) s \<or> valid_utf8_upto (length s) s"
  using valid_utf8_ascii by (auto simp: valid_utf8_def)

lemma segment_component_no_root [simp]: "RootDir \<notin> set (segment_component s)"
  by (simp add: segment_component_def)

lemma components_absolute:
  "is_absolute p \<Longrightarrow> components p = RootDir # concat (map segment_component (split_on (CHR ''/'') p))"
  by (simp add: components_def Let_def)

lemma split_on_append:
  "split_on d (x @ d # y) = split_on d x @ split_on d y"
proof (induction x)
  case (Cons c cs)
  then show ?case
    by (cases "split_on d cs") (auto simp: split_on_not_Nil split: list.splits)
qed simp

lemma split_on_no_sep_id: "d \<notin> set x \<Longrightarrow> split_on d x = [x]"
  by (induction x) auto

text \<open>Joining a plain name to an absolute directory appends exactly one component.\<close>

lemma components_join:
  assumes "is_absolute root" and "CHR ''/'' \<notin> set name" and "name \<noteq> []" and "name \<noteq> ''.''" and "name \<noteq> ''..''"
  shows "components (path_join root name) = components root @ [Normal name]"
proof -
  have rel: "\<not> is_absolute name" using assms(2,3) by (cases name) (auto simp: is_absolute_def)
  have one: "segment_component name = [Normal name]" using assms by (simp add: segment_component_def)
  have root: "root \<noteq> []" using assms(1) by (auto simp: is_absolute_def)
  show ?thesis
  proof (cases "last root = CHR ''/''")
    case True
    then obtain pre where pre: "root = pre @ [CHR ''/'']" using root by (metis append_butlast_last_id)
    have "path_join root name = pre @ CHR ''/'' # name" using rel True by (simp add: path_join_def pre)
    moreover have "is_absolute (pre @ CHR ''/'' # name)" using assms(1) pre by (cases pre) (auto simp: is_absolute_def)
    moreover have "split_on (CHR ''/'') root = split_on (CHR ''/'') pre @ [[]]"
      using split_on_append [of "CHR ''/''" pre "[]"] by (simp add: pre)
    ultimately show ?thesis using assms(1,2) one
      by (simp add: components_absolute split_on_append split_on_no_sep_id) (simp add: segment_component_def)
  next
    case False
    then have "path_join root name = root @ CHR ''/'' # name" using rel root by (simp add: path_join_def)
    moreover have "is_absolute (root @ CHR ''/'' # name)" using assms(1) by (cases root) (auto simp: is_absolute_def)
    ultimately show ?thesis using assms(1,2) one
      by (simp add: components_absolute split_on_append split_on_no_sep_id)
  qed
qed

lemma parent_join:
  assumes "is_absolute root" and "CHR ''/'' \<notin> set name" and "name \<noteq> []" and "name \<noteq> ''.''" and "name \<noteq> ''..''"
  shows "parent (path_join root name) = Some (components root)"
  using components_join [OF assms] by (simp add: parent_def)

end
