(* ===== verification/Local_Store.thy ===== *)
theory Local_Store
  imports Paths
begin

text \<open>
  The data model of \<open>local_store.rs\<close>: the state enums with their database spelling, the rows of
  the SQLite tables of \<open>migrations.rs\<close> (schema version 6), the store as a record of tables, and
  \<open>exec\<close>, one SQL statement under the schema's constraints.

  A row keeps its state columns as the enum the \<open>CHECK\<close> constraint admits; \<open>from_db_str\<close> and
  the spelling are inverse to each other (\<open>sync_state_db_roundtrip\<close> and its siblings), so no
  persisted value falls outside. Timestamps written by \<open>CURRENT_TIMESTAMP\<close> are seconds (\<open>int\<close>),
  in the order of their text form. A transaction is the composition of its statements; an error
  returns no store, which is the rollback.
\<close>

section \<open>State enums\<close>

datatype skill_sync_state =
  RemoteOnly | Synced | Dirty | Uploading | Conflict | SyncError | AccessRevoked | Corrupted

datatype mutation_operation = Create | Update | Delete

datatype mutation_state =
  Pending | InFlight | Acked | RetryableError | MutationConflict | PermissionDenied | PermanentError

datatype deployment_state =
  Installing | Installed | Updating | Removing | Modified | Missing | Failed | Revoked

datatype db_error = ConstraintViolation | InvalidColumnType string | QueryReturnedNoRows | SqliteFailure

datatype store_error =
  Database db_error
| Io string
| LockPoisoned
| UnsupportedSchema int int
| InvalidPersistedState string
| InvalidInput string
| SkillNotFound string
| AgentProfileNotFound string
| AgentProfileRootInUse string path path nat
| DeploymentCatalogChanged string string
| OutboxClaimLost string
| NonUtf8Path path

fun sync_state_db :: "skill_sync_state \<Rightarrow> string" where
  "sync_state_db RemoteOnly = ''remote_only''"
| "sync_state_db Synced = ''synced''"
| "sync_state_db Dirty = ''dirty''"
| "sync_state_db Uploading = ''uploading''"
| "sync_state_db Conflict = ''conflict''"
| "sync_state_db SyncError = ''sync_error''"
| "sync_state_db AccessRevoked = ''access_revoked''"
| "sync_state_db Corrupted = ''corrupted''"

definition sync_state_from_db_str :: "string \<Rightarrow> store_error + skill_sync_state" where
  "sync_state_from_db_str s =
     (if s = ''remote_only'' then Inr RemoteOnly
      else if s = ''synced'' then Inr Synced
      else if s = ''dirty'' then Inr Dirty
      else if s = ''uploading'' then Inr Uploading
      else if s = ''conflict'' then Inr Conflict
      else if s = ''sync_error'' then Inr SyncError
      else if s = ''access_revoked'' then Inr AccessRevoked
      else if s = ''corrupted'' then Inr Corrupted
      else Inl (InvalidPersistedState s))"

fun operation_as_db_str :: "mutation_operation \<Rightarrow> string" where
  "operation_as_db_str Create = ''create''"
| "operation_as_db_str Update = ''update''"
| "operation_as_db_str Delete = ''delete''"

definition operation_from_db_str :: "string \<Rightarrow> store_error + mutation_operation" where
  "operation_from_db_str s =
     (if s = ''create'' then Inr Create
      else if s = ''update'' then Inr Update
      else if s = ''delete'' then Inr Delete
      else Inl (InvalidPersistedState s))"

fun mutation_state_db :: "mutation_state \<Rightarrow> string" where
  "mutation_state_db Pending = ''pending''"
| "mutation_state_db InFlight = ''in_flight''"
| "mutation_state_db Acked = ''acked''"
| "mutation_state_db RetryableError = ''retryable_error''"
| "mutation_state_db MutationConflict = ''conflict''"
| "mutation_state_db PermissionDenied = ''permission_denied''"
| "mutation_state_db PermanentError = ''permanent_error''"

definition mutation_state_from_db_str :: "string \<Rightarrow> store_error + mutation_state" where
  "mutation_state_from_db_str s =
     (if s = ''pending'' then Inr Pending
      else if s = ''in_flight'' then Inr InFlight
      else if s = ''acked'' then Inr Acked
      else if s = ''retryable_error'' then Inr RetryableError
      else if s = ''conflict'' then Inr MutationConflict
      else if s = ''permission_denied'' then Inr PermissionDenied
      else if s = ''permanent_error'' then Inr PermanentError
      else Inl (InvalidPersistedState s))"

fun deployment_as_db_str :: "deployment_state \<Rightarrow> string" where
  "deployment_as_db_str Installing = ''installing''"
| "deployment_as_db_str Installed = ''installed''"
| "deployment_as_db_str Updating = ''updating''"
| "deployment_as_db_str Removing = ''removing''"
| "deployment_as_db_str Modified = ''modified''"
| "deployment_as_db_str Missing = ''missing''"
| "deployment_as_db_str Failed = ''failed''"
| "deployment_as_db_str Revoked = ''revoked''"

definition deployment_from_db_str :: "string \<Rightarrow> store_error + deployment_state" where
  "deployment_from_db_str s =
     (if s = ''installing'' then Inr Installing
      else if s = ''installed'' then Inr Installed
      else if s = ''updating'' then Inr Updating
      else if s = ''removing'' then Inr Removing
      else if s = ''modified'' then Inr Modified
      else if s = ''missing'' then Inr Missing
      else if s = ''failed'' then Inr Failed
      else if s = ''revoked'' then Inr Revoked
      else Inl (InvalidPersistedState s))"

lemma sync_state_db_roundtrip:
  "sync_state_from_db_str s = Inr x \<longleftrightarrow> s = sync_state_db x"
  by (cases x) (auto simp: sync_state_from_db_str_def)

lemma operation_db_roundtrip:
  "operation_from_db_str s = Inr x \<longleftrightarrow> s = operation_as_db_str x"
  by (cases x) (auto simp: operation_from_db_str_def)

lemma mutation_state_db_roundtrip:
  "mutation_state_from_db_str s = Inr x \<longleftrightarrow> s = mutation_state_db x"
  by (cases x) (auto simp: mutation_state_from_db_str_def)

lemma deployment_db_roundtrip:
  "deployment_from_db_str s = Inr x \<longleftrightarrow> s = deployment_as_db_str x"
  by (cases x) (auto simp: deployment_from_db_str_def)

section \<open>Rows and the store\<close>

text \<open>\<open>local_skills\<close>\<close>

record skill_row =
  sk_id :: string
  sk_remote_id :: "string option"
  sk_name :: string
  sk_slug :: string
  sk_workspace_path :: path
  sk_current_blob_hash :: string
  sk_remote_blob_hash :: "string option"
  sk_remote_revision :: "int option"
  sk_sync_state :: skill_sync_state
  sk_pinned :: bool
  sk_created_at :: int
  sk_updated_at :: int
  sk_last_accessed_at :: "int option"

text \<open>\<open>local_mutations\<close>, the durable outbox\<close>

record mutation_row =
  mu_id :: string
  mu_skill_id :: string
  mu_local_sequence :: int
  mu_operation :: mutation_operation
  mu_base_revision :: "int option"
  mu_payload_hash :: string
  mu_state :: mutation_state
  mu_retry_count :: int
  mu_next_attempt_at :: "int option"
  mu_last_attempt_at :: "int option"
  mu_server_error_code :: "string option"
  mu_server_error_details :: "string option"
  mu_ack_remote_revision :: "int option"
  mu_ack_remote_id :: "string option"
  mu_last_error :: "string option"
  mu_created_at :: int
  mu_updated_at :: int

text \<open>\<open>agent_profiles\<close> and \<open>skill_deployments\<close>\<close>

record profile_row =
  pr_id :: string
  pr_descriptor_id :: string
  pr_display_name :: string
  pr_skill_root :: path
  pr_enabled :: bool
  pr_is_custom :: bool

record deployment_row =
  de_skill_id :: string
  de_profile_id :: string
  de_blob_hash :: string
  de_target_path :: path
  de_state :: deployment_state
  de_last_error :: "string option"

text \<open>\<open>local_entitlements\<close>; the issue and expiry instants are stored as RFC 3339 text.\<close>

record entitlement_row =
  en_skill_id :: string
  en_lease :: string
  en_permission_level :: string
  en_offline_policy :: string
  en_offline_ttl_hours :: "int option"
  en_issued_at :: "string option"
  en_expires_at :: "string option"

text \<open>\<open>deployment_prefs\<close> and the single row of \<open>local_sync_state\<close>\<close>

record pref_row =
  pf_skill_id :: string
  pf_profile_ids :: string

record sync_row =
  sy_protocol_version :: int
  sy_client_instance_id :: "string option"
  sy_device_id :: "string option"
  sy_server_user_id :: "string option"
  sy_server_url :: "string option"
  sy_login_identity :: "string option"
  sy_server_cursor :: "string option"
  sy_last_push_at :: "int option"
  sy_last_pull_at :: "int option"
  sy_last_server_error :: "string option"

record store =
  skills :: "skill_row list"
  mutations :: "mutation_row list"
  profiles :: "profile_row list"
  deployments :: "deployment_row list"
  entitlements :: "entitlement_row list"
  prefs :: "pref_row list"
  cache_max_bytes :: int
  sync :: sync_row
  schema_versions :: "int list"

section \<open>Schema constraints\<close>

definition non_negative :: "int option \<Rightarrow> bool" where
  "non_negative x \<longleftrightarrow> (case x of None \<Rightarrow> True | Some v \<Rightarrow> 0 \<le> v)"

definition skill_check :: "skill_row \<Rightarrow> bool" where
  "skill_check r \<longleftrightarrow> non_negative (sk_remote_revision r)"

definition mutation_check :: "mutation_row \<Rightarrow> bool" where
  "mutation_check m \<longleftrightarrow> 0 < mu_local_sequence m \<and> non_negative (mu_base_revision m)
     \<and> 0 \<le> mu_retry_count m \<and> non_negative (mu_ack_remote_revision m)"

definition entitlement_check :: "entitlement_row \<Rightarrow> bool" where
  "entitlement_check e \<longleftrightarrow>
     en_offline_policy e \<in> {''unlimited'', ''ttl'', ''disabled''}
     \<and> (case en_offline_ttl_hours e of None \<Rightarrow> True | Some h \<Rightarrow> 1 \<le> h)"

fun some_list :: "'a option list \<Rightarrow> 'a list" where
  "some_list [] = []"
| "some_list (None # xs) = some_list xs"
| "some_list (Some x # xs) = x # some_list xs"

lemma set_some_list [simp]: "x \<in> set (some_list xs) \<longleftrightarrow> Some x \<in> set xs"
  by (induction xs rule: some_list.induct) auto

lemma some_list_sublist:
  "distinct (some_list (map g rs)) \<Longrightarrow> distinct (some_list (map g (sql_delete P rs)))"
proof (induction rs)
  case (Cons r rs)
  then show ?case by (cases "g r") (auto simp: sql_delete_def)
qed (simp add: sql_delete_def)

lemma some_list_unique:
  "distinct (some_list (map g rs)) \<Longrightarrow> r \<in> set rs \<Longrightarrow> s \<in> set rs \<Longrightarrow> g r = Some x \<Longrightarrow> g s = Some x
   \<Longrightarrow> r = s"
proof (induction rs)
  case (Cons a rs)
  then show ?case by (cases "g a") (auto simp: image_iff)
qed simp

text \<open>
  \<open>PRIMARY KEY\<close>, \<open>UNIQUE\<close> (several \<open>NULL\<close>s are allowed), \<open>CHECK\<close> and \<open>FOREIGN KEY\<close> of every
  table. \<open>length(skill_id)\<close> counts characters.
\<close>

definition skills_ok :: "store \<Rightarrow> bool" where
  "skills_ok d \<longleftrightarrow> distinct (map sk_id (skills d))
     \<and> distinct (some_list (map sk_remote_id (skills d))) \<and> list_all skill_check (skills d)"

definition mutations_ok :: "store \<Rightarrow> bool" where
  "mutations_ok d \<longleftrightarrow> distinct (map mu_id (mutations d))
     \<and> distinct (map (\<lambda>m. (mu_skill_id m, mu_local_sequence m)) (mutations d))
     \<and> list_all mutation_check (mutations d)
     \<and> list_all (\<lambda>m. mu_skill_id m \<in> set (map sk_id (skills d))) (mutations d)"

definition deployments_ok :: "store \<Rightarrow> bool" where
  "deployments_ok d \<longleftrightarrow>
     distinct (map pr_id (profiles d)) \<and> distinct (map pr_skill_root (profiles d))
     \<and> distinct (map (\<lambda>x. (de_skill_id x, de_profile_id x)) (deployments d))
     \<and> list_all (\<lambda>x. de_skill_id x \<in> set (map sk_id (skills d))
                   \<and> de_profile_id x \<in> set (map pr_id (profiles d))) (deployments d)"

definition entitlements_ok :: "store \<Rightarrow> bool" where
  "entitlements_ok d \<longleftrightarrow> distinct (map en_skill_id (entitlements d))
     \<and> list_all entitlement_check (entitlements d)
     \<and> list_all (\<lambda>e. en_skill_id e \<in> set (map sk_id (skills d))) (entitlements d)"

definition prefs_ok :: "store \<Rightarrow> bool" where
  "prefs_ok d \<longleftrightarrow> distinct (map pf_skill_id (prefs d))
     \<and> list_all (\<lambda>p. char_count (pf_skill_id p) \<le> 64) (prefs d)"

definition schema_ok :: "store \<Rightarrow> bool" where
  "schema_ok d \<longleftrightarrow> skills_ok d \<and> mutations_ok d \<and> deployments_ok d \<and> entitlements_ok d
     \<and> prefs_ok d \<and> 0 < cache_max_bytes d \<and> 1 \<le> sy_protocol_version (sync d)"

text \<open>One statement: it takes effect only when the constraints hold afterwards.\<close>

definition exec :: "(store \<Rightarrow> store) \<Rightarrow> store \<Rightarrow> store_error + store" where
  "exec f d = (let d' = f d in if schema_ok d' then Inr d' else Inl (Database ConstraintViolation))"

lemma exec_Inr_iff [result_simps]: "exec f d = Inr d' \<longleftrightarrow> d' = f d \<and> schema_ok d'"
  by (auto simp: exec_def Let_def)

lemma exec_Inr: "schema_ok (f d) \<Longrightarrow> exec f d = Inr (f d)"
  by (simp add: exec_def)

definition validate_non_empty :: "string \<Rightarrow> string \<Rightarrow> store_error + unit" where
  "validate_non_empty field value =
     ensure (\<not> is_blank value) (InvalidInput (field @ '' must not be empty''))"

fun validate_all :: "(string \<times> string) list \<Rightarrow> store_error + unit" where
  "validate_all [] = Inr ()"
| "validate_all ((field, value) # rest) =
     and_then (validate_non_empty field value) (\<lambda>_. validate_all rest)"

definition path_to_string :: "path \<Rightarrow> store_error + string" where
  "path_to_string p = (if valid_utf8 p then Inr p else Inl (NonUtf8Path p))"

lemma validate_non_empty_Inr [result_simps]:
  "validate_non_empty field value = Inr u \<longleftrightarrow> \<not> is_blank value"
  by (simp add: validate_non_empty_def ensure_Inr_iff)

lemma validate_all_Inr [result_simps]:
  "validate_all fs = Inr u \<longleftrightarrow> (\<forall>(f, v) \<in> set fs. \<not> is_blank v)"
  by (induction fs rule: validate_all.induct) (auto simp: result_simps)

lemma path_to_string_Inr [result_simps]: "path_to_string p = Inr s \<longleftrightarrow> s = p \<and> valid_utf8 p"
  by (auto simp: path_to_string_def)

text \<open>\<open>DELETE FROM local_skills\<close> cascades to the tables that reference the row.\<close>

definition delete_skill :: "string \<Rightarrow> store \<Rightarrow> store" where
  "delete_skill key d = d\<lparr>
     skills := sql_delete (\<lambda>r. sk_id r = key) (skills d),
     mutations := sql_delete (\<lambda>m. mu_skill_id m = key) (mutations d),
     deployments := sql_delete (\<lambda>x. de_skill_id x = key) (deployments d),
     entitlements := sql_delete (\<lambda>e. en_skill_id e = key) (entitlements d)\<rparr>"

record health_report =
  he_schema_version :: int
  he_pending_mutations :: nat

definition health :: "store \<Rightarrow> health_report" where
  "health d = \<lparr>he_schema_version = foldr max (schema_versions d) 0,
     he_pending_mutations = sql_count (\<lambda>m. mu_state m \<in> {Pending, RetryableError}) (mutations d)\<rparr>"

definition empty_sync :: sync_row where
  "empty_sync = \<lparr>sy_protocol_version = 1, sy_client_instance_id = None, sy_device_id = None,
     sy_server_user_id = None, sy_server_url = None, sy_login_identity = None,
     sy_server_cursor = None, sy_last_push_at = None, sy_last_pull_at = None,
     sy_last_server_error = None\<rparr>"

text \<open>A fresh installation: all migrations applied to empty tables.\<close>

definition fresh_store :: store where
  "fresh_store = \<lparr>skills = [], mutations = [], profiles = [], deployments = [], entitlements = [],
     prefs = [], cache_max_bytes = 2147483648, sync = empty_sync, schema_versions = [1,2,3,4,5,6]\<rparr>"

lemma fresh_store_ok: "schema_ok fresh_store"
  by (simp add: schema_ok_def skills_ok_def mutations_ok_def deployments_ok_def entitlements_ok_def
      prefs_ok_def fresh_store_def empty_sync_def)

text \<open>The two tables most statements update.\<close>

definition update_skills :: "(skill_row \<Rightarrow> bool) \<Rightarrow> (skill_row \<Rightarrow> skill_row) \<Rightarrow> store \<Rightarrow> store" where
  "update_skills P f d = d\<lparr>skills := sql_update P f (skills d)\<rparr>"

definition update_mutations :: "(mutation_row \<Rightarrow> bool) \<Rightarrow> (mutation_row \<Rightarrow> mutation_row) \<Rightarrow> store \<Rightarrow> store" where
  "update_mutations P f d = d\<lparr>mutations := sql_update P f (mutations d)\<rparr>"

lemma update_skills_simps [simp]:
  "skills (update_skills P f d) = sql_update P f (skills d)"
  "mutations (update_skills P f d) = mutations d"
  "deployments (update_skills P f d) = deployments d"
  "entitlements (update_skills P f d) = entitlements d"
  "profiles (update_skills P f d) = profiles d"
  "prefs (update_skills P f d) = prefs d"
  "cache_max_bytes (update_skills P f d) = cache_max_bytes d"
  "sync (update_skills P f d) = sync d"
  by (simp_all add: update_skills_def)

lemma update_mutations_simps [simp]:
  "mutations (update_mutations P f d) = sql_update P f (mutations d)"
  "skills (update_mutations P f d) = skills d"
  "deployments (update_mutations P f d) = deployments d"
  "entitlements (update_mutations P f d) = entitlements d"
  "profiles (update_mutations P f d) = profiles d"
  "prefs (update_mutations P f d) = prefs d"
  "cache_max_bytes (update_mutations P f d) = cache_max_bytes d"
  "sync (update_mutations P f d) = sync d"
  by (simp_all add: update_mutations_def)

text \<open>\<open>COALESCE(a, b)\<close> on a nullable column.\<close>

definition coalesce :: "'a option \<Rightarrow> 'a option \<Rightarrow> 'a option" where
  "coalesce a b = (case a of None \<Rightarrow> b | Some _ \<Rightarrow> a)"

definition or_else :: "'a option \<Rightarrow> 'a \<Rightarrow> 'a" where
  "or_else a b = (case a of None \<Rightarrow> b | Some x \<Rightarrow> x)"

lemma coalesce_simps [simp]: "coalesce None b = b" "coalesce (Some x) b = Some x"
  by (simp_all add: coalesce_def)

lemma or_else_simps [simp]: "or_else None b = b" "or_else (Some x) b = x"
  by (simp_all add: or_else_def)

subsection \<open>Consequences of the constraints\<close>

lemma schema_skill_unique:
  "schema_ok d \<Longrightarrow> r \<in> set (skills d) \<Longrightarrow> s \<in> set (skills d) \<Longrightarrow> sk_id r = sk_id s \<Longrightarrow> r = s"
  unfolding schema_ok_def skills_ok_def using same_key_same_row by metis

lemma schema_mutation_unique:
  "schema_ok d \<Longrightarrow> m \<in> set (mutations d) \<Longrightarrow> n \<in> set (mutations d) \<Longrightarrow> mu_id m = mu_id n \<Longrightarrow> m = n"
  unfolding schema_ok_def mutations_ok_def using same_key_same_row by metis

lemma schema_sequence_unique:
  "schema_ok d \<Longrightarrow> m \<in> set (mutations d) \<Longrightarrow> n \<in> set (mutations d) \<Longrightarrow>
   mu_skill_id m = mu_skill_id n \<Longrightarrow> mu_local_sequence m = mu_local_sequence n \<Longrightarrow> m = n"
  unfolding schema_ok_def mutations_ok_def
  using same_key_same_row [where key = "\<lambda>m. (mu_skill_id m, mu_local_sequence m)"] by blast

lemma schema_mutation_skill:
  "schema_ok d \<Longrightarrow> m \<in> set (mutations d) \<Longrightarrow> \<exists>r \<in> set (skills d). sk_id r = mu_skill_id m"
  unfolding schema_ok_def mutations_ok_def list_all_iff by (metis (no_types, lifting) image_iff list.set_map)

lemma schema_mutation_check: "schema_ok d \<Longrightarrow> m \<in> set (mutations d) \<Longrightarrow> mutation_check m"
  by (auto simp: schema_ok_def mutations_ok_def list_all_iff)

lemma schema_find_skill:
  "schema_ok d \<Longrightarrow> r \<in> set (skills d) \<Longrightarrow> sql_find (\<lambda>x. sk_id x = sk_id r) (skills d) = Some r"
  by (simp add: schema_ok_def skills_ok_def sql_find_unique)

lemma schema_find_mutation:
  "schema_ok d \<Longrightarrow> m \<in> set (mutations d) \<Longrightarrow> sql_find (\<lambda>x. mu_id x = mu_id m) (mutations d) = Some m"
  by (simp add: schema_ok_def mutations_ok_def sql_find_unique)

lemma mutations_ok_update:
  assumes "mutations_ok d"
    and "\<And>m. P m \<Longrightarrow> mu_id (f m) = mu_id m \<and> mu_skill_id (f m) = mu_skill_id m
               \<and> mu_local_sequence (f m) = mu_local_sequence m"
    and "\<And>m. P m \<Longrightarrow> mutation_check m \<Longrightarrow> mutation_check (f m)"
  shows "mutations_ok (d\<lparr>mutations := sql_update P f (mutations d)\<rparr>)"
  using assms by (auto simp: mutations_ok_def map_sql_update list_all_iff set_sql_update)

lemma schema_ok_update_mutations:
  assumes "schema_ok d"
    and "\<And>m. P m \<Longrightarrow> mu_id (f m) = mu_id m \<and> mu_skill_id (f m) = mu_skill_id m
               \<and> mu_local_sequence (f m) = mu_local_sequence m"
    and "\<And>m. P m \<Longrightarrow> mutation_check m \<Longrightarrow> mutation_check (f m)"
  shows "schema_ok (update_mutations P f d)"
  unfolding update_mutations_def
  using mutations_ok_update [OF _ assms(2,3), of d] assms(1)
  by (auto simp: schema_ok_def skills_ok_def deployments_ok_def entitlements_ok_def prefs_ok_def)

lemma schema_ok_update_skills:
  assumes "schema_ok d"
    and "\<And>r. P r \<Longrightarrow> sk_id (f r) = sk_id r \<and> sk_remote_id (f r) = sk_remote_id r"
    and "\<And>r. P r \<Longrightarrow> skill_check r \<Longrightarrow> skill_check (f r)"
  shows "schema_ok (update_skills P f d)"
  using assms
  by (auto simp: schema_ok_def skills_ok_def mutations_ok_def deployments_ok_def entitlements_ok_def
      prefs_ok_def map_sql_update list_all_iff set_sql_update)

lemma schema_ok_sync:
  "schema_ok d \<Longrightarrow> 1 \<le> sy_protocol_version s \<Longrightarrow> schema_ok (d\<lparr>sync := s\<rparr>)"
  by (auto simp: schema_ok_def skills_ok_def mutations_ok_def deployments_ok_def entitlements_ok_def
      prefs_ok_def)

lemma schema_ok_delete_skill: "schema_ok d \<Longrightarrow> schema_ok (delete_skill key d)"
proof -
  assume ok: "schema_ok d"
  then show ?thesis
    by (auto simp: schema_ok_def skills_ok_def mutations_ok_def deployments_ok_def
        entitlements_ok_def prefs_ok_def delete_skill_def distinct_map_sql_delete some_list_sublist list_all_iff set_sql_delete)
qed

lemma distinct_some_list_iff:
  assumes "distinct (map key rows)"
  shows "distinct (some_list (map g rows)) \<longleftrightarrow>
    (\<forall>r \<in> set rows. \<forall>s \<in> set rows. g r = g s \<longrightarrow> g r \<noteq> None \<longrightarrow> r = s)"
  using assms
proof (induction rows)
  case (Cons a rows)
  then show ?case
  proof (cases "g a")
    case None
    with Cons show ?thesis by auto
  next
    case (Some x)
    have "a \<notin> set rows" using Cons.prems by (auto simp: image_iff)
    with Some Cons show ?thesis by (auto simp: image_iff)
  qed
qed simp

lemma skills_ok_iff:
  "skills_ok d \<longleftrightarrow> distinct (map sk_id (skills d)) \<and> (\<forall>r \<in> set (skills d). skill_check r)
     \<and> (\<forall>r \<in> set (skills d). \<forall>s \<in> set (skills d). sk_remote_id r = sk_remote_id s \<longrightarrow> sk_remote_id r \<noteq> None \<longrightarrow> r = s)"
  unfolding skills_ok_def list_all_iff using distinct_some_list_iff by blast

lemma schema_ok_skills_upsert:
  assumes ok: "schema_ok d" and ids: "\<And>r. sk_id (upd r) = sk_id r" "sk_id new = i"
    and checks: "\<And>r. skill_check r \<Longrightarrow> skill_check (upd r)" "skill_check new"
    and remote: "\<And>r. sk_remote_id (upd r) = coalesce rid (sk_remote_id r)" "sk_remote_id new = rid"
  shows "schema_ok (d\<lparr>skills := sql_upsert (\<lambda>r. sk_id r = i) new upd (skills d)\<rparr>)
    \<longleftrightarrow> (\<forall>r \<in> set (skills d). rid \<noteq> None \<longrightarrow> sk_remote_id r = rid \<longrightarrow> sk_id r = i)"
    (is "schema_ok ?d' \<longleftrightarrow> ?free")
proof -
  let ?P = "\<lambda>r. sk_id r = i"
  have keys: "map sk_id (skills ?d') = (if list_ex ?P (skills d) then map sk_id (skills d) else map sk_id (skills d) @ [i])"
    using map_key_sql_upsert [of ?P sk_id upd new "skills d"] ids by simp
  have dist: "distinct (map sk_id (skills ?d'))"
    using ok unfolding keys by (auto simp: schema_ok_def skills_ok_def list_ex_iff)
  have sub: "set (map sk_id (skills d)) \<subseteq> set (map sk_id (skills ?d'))" unfolding keys by auto
  have rest: "schema_ok ?d' \<longleftrightarrow> skills_ok ?d'"
    using ok sub by (auto simp: schema_ok_def mutations_ok_def deployments_ok_def entitlements_ok_def
        prefs_ok_def list_all_iff)
  have ok': "skills_ok d" using ok by (simp add: schema_ok_def)
  have check: "\<forall>r \<in> set (skills ?d'). skill_check r"
    using ok' checks by (auto simp: set_sql_upsert skills_ok_iff)
  have uniq: "r = s" if "r \<in> set (skills d)" "s \<in> set (skills d)" "sk_id r = sk_id s" for r s
    using schema_skill_unique [OF ok that] .
  have uniq2: "r = s" if "r \<in> set (skills d)" "s \<in> set (skills d)" "sk_remote_id r = sk_remote_id s" "sk_remote_id r \<noteq> None" for r s
    using ok' that unfolding skills_ok_iff by blast
  have "skills_ok ?d' \<longleftrightarrow> ?free"
  proof (cases "list_ex ?P (skills d)")
    case True
    then obtain r0 where r0: "r0 \<in> set (skills d)" "sk_id r0 = i" by (auto simp: list_ex_iff)
    have P: "?P x \<longleftrightarrow> x = r0" if "x \<in> set (skills d)" for x using uniq [OF that r0(1)] r0(2) by auto
    have "set (skills ?d') = (\<lambda>r. if ?P r then upd r else r) ` set (skills d)"
      using True by (simp add: set_sql_upsert)
    also have "\<dots> = (\<lambda>r. if r = r0 then upd r0 else r) ` set (skills d)"
      by (rule image_cong) (simp_all add: P)
    finally have set': "set (skills ?d') = (\<lambda>r. if r = r0 then upd r0 else r) ` set (skills d)" .
    show ?thesis
    proof
      assume ok'': "skills_ok ?d'"
      show ?free
      proof (intro ballI impI)
        fix r assume r: "r \<in> set (skills d)" "rid \<noteq> None" "sk_remote_id r = rid"
        show "sk_id r = i"
        proof (rule ccontr)
          assume ne: "sk_id r \<noteq> i"
          then have "r \<in> set (skills ?d')" "upd r0 \<in> set (skills ?d')" using r(1) r0 set' by auto
          moreover have "sk_remote_id (upd r0) = rid" using r(2) remote(1) by (cases rid) auto
          ultimately have "r = upd r0" using ok'' r unfolding skills_ok_iff by metis
          with ne r0(2) ids(1) show False by simp
        qed
      qed
    next
      assume free: ?free
      have "r = s" if "r \<in> set (skills ?d')" "s \<in> set (skills ?d')" "sk_remote_id r = sk_remote_id s" "sk_remote_id r \<noteq> None" for r s
      proof -
        have other: "False" if "x \<in> set (skills d)" "x \<noteq> r0" "sk_remote_id x = sk_remote_id (upd r0)" "sk_remote_id x \<noteq> None" for x
          using that free P remote(1) [of r0] uniq2 [OF that(1) r0(1)] by (cases rid) auto
        have cases: "x = upd r0 \<or> x \<in> set (skills d) \<and> x \<noteq> r0" if "x \<in> set (skills ?d')" for x
          using that unfolding set' by (auto split: if_splits)
        show ?thesis
          using cases [OF that(1)] cases [OF that(2)] that(3,4) other [of r] other [of s] uniq2 [of r s] by metis
      qed
      then show "skills_ok ?d'" unfolding skills_ok_iff using dist check by blast
    qed
  next
    case False
    then have set': "set (skills ?d') = insert new (set (skills d))" by (simp add: set_sql_upsert)
    have fresh: "sk_id r \<noteq> i" if "r \<in> set (skills d)" for r using False that by (auto simp: list_ex_iff)
    show ?thesis
    proof
      assume "skills_ok ?d'"
      then have "r = new" if "r \<in> set (skills d)" "rid \<noteq> None" "sk_remote_id r = rid" for r
        using that remote(2) unfolding skills_ok_iff set' by (metis insertCI)
      then show ?free using ids(2) by blast
    next
      assume free: ?free
      have "r = s" if "r \<in> insert new (set (skills d))" "s \<in> insert new (set (skills d))"
        "sk_remote_id r = sk_remote_id s" "sk_remote_id r \<noteq> None" for r s
        using that free fresh remote(2) uniq2 [of r s] by (metis insertE)
      then show "skills_ok ?d'" unfolding skills_ok_iff set' using dist check set' by blast
    qed
  qed
  then show ?thesis using rest by simp
qed

end
