(* ===== verification/Mutations.thy ===== *)
theory Mutations
  imports Local_Store
begin

text \<open>
  The durable outbox (\<open>local_store/mutations.rs\<close>): committing an edit together with its mutation,
  queueing a delete, listing and claiming dispatchable work, releasing and recovering claims.
  The lemmas give the effect of each operation on the tables, the per-skill sequence order, and
  the causality of the outbox: whatever is in flight has every earlier mutation of its skill acked.
  The uuid of a new mutation and the clock are arguments.
\<close>

record skill_edit =
  ed_skill_id :: string
  ed_remote_id :: "string option"
  ed_name :: string
  ed_slug :: string
  ed_workspace_path :: path
  ed_blob_hash :: string
  ed_base_revision :: "int option"
  ed_operation :: mutation_operation

record local_mutation =
  lm_id :: string
  lm_skill_id :: string
  lm_local_sequence :: nat
  lm_operation :: mutation_operation
  lm_base_revision :: "int option"
  lm_payload_hash :: string
  lm_state :: mutation_state
  lm_retry_count :: nat
  lm_next_attempt_at :: "int option"
  lm_last_attempt_at :: "int option"
  lm_server_error_code :: "string option"
  lm_server_error_details :: "string option"
  lm_ack_remote_revision :: "int option"
  lm_ack_remote_id :: "string option"
  lm_last_error :: "string option"

definition negative :: "int option \<Rightarrow> bool" where
  "negative r \<longleftrightarrow> (case r of None \<Rightarrow> False | Some v \<Rightarrow> v < 0)"

definition validate_edit :: "skill_edit \<Rightarrow> store_error + unit" where
  "validate_edit e =
     and_then (validate_all [(''skill_id'', ed_skill_id e), (''name'', ed_name e),
                             (''slug'', ed_slug e), (''blob_hash'', ed_blob_hash e)]) (\<lambda>_.
     and_then (ensure (is_absolute (ed_workspace_path e))
                (InvalidInput ''workspace_path must be absolute'')) (\<lambda>_.
     and_then (path_to_string (ed_workspace_path e)) (\<lambda>_.
     ensure (\<not> negative (ed_base_revision e))
       (InvalidInput ''base_revision must not be negative''))))"

text \<open>\<open>SELECT MAX(..)\<close> is \<open>NULL\<close> on no rows.\<close>

definition sql_max :: "int list \<Rightarrow> int option" where
  "sql_max xs = (case xs of [] \<Rightarrow> None | y # ys \<Rightarrow> Some (foldr max ys y))"

definition next_local_sequence :: "store \<Rightarrow> string \<Rightarrow> int" where
  "next_local_sequence d skill =
     or_else (sql_max (map mu_local_sequence (filter (\<lambda>m. mu_skill_id m = skill) (mutations d)))) 0 + 1"

definition checked_local_sequence :: "int \<Rightarrow> string \<Rightarrow> store_error + nat" where
  "checked_local_sequence v mutation_id =
     (if 0 \<le> v then Inr (nat v)
      else Inl (InvalidPersistedState
             (''invalid mutation local_sequence '' @ dec v @ '' for '' @ mutation_id)))"

text \<open>A freshly queued row: the columns the \<open>INSERT\<close> does not name take their defaults.\<close>

definition queued_row ::
  "string \<Rightarrow> string \<Rightarrow> int \<Rightarrow> mutation_operation \<Rightarrow> int option \<Rightarrow> string \<Rightarrow> int \<Rightarrow> mutation_row" where
  "queued_row mutation_id skill seq oper base payload now =
     \<lparr>mu_id = mutation_id, mu_skill_id = skill, mu_local_sequence = seq, mu_operation = oper,
      mu_base_revision = base, mu_payload_hash = payload, mu_state = Pending, mu_retry_count = 0,
      mu_next_attempt_at = None, mu_last_attempt_at = None, mu_server_error_code = None,
      mu_server_error_details = None, mu_ack_remote_revision = None, mu_ack_remote_id = None,
      mu_last_error = None, mu_created_at = now, mu_updated_at = now\<rparr>"

definition queued_mutation ::
  "string \<Rightarrow> string \<Rightarrow> nat \<Rightarrow> mutation_operation \<Rightarrow> int option \<Rightarrow> string \<Rightarrow> local_mutation" where
  "queued_mutation mutation_id skill seq oper base payload =
     \<lparr>lm_id = mutation_id, lm_skill_id = skill, lm_local_sequence = seq, lm_operation = oper,
      lm_base_revision = base, lm_payload_hash = payload, lm_state = Pending, lm_retry_count = 0,
      lm_next_attempt_at = None, lm_last_attempt_at = None, lm_server_error_code = None,
      lm_server_error_details = None, lm_ack_remote_revision = None, lm_ack_remote_id = None,
      lm_last_error = None\<rparr>"

definition insert_mutation :: "mutation_row \<Rightarrow> store \<Rightarrow> store" where
  "insert_mutation m d = d\<lparr>mutations := mutations d @ [m]\<rparr>"

text \<open>The \<open>INSERT INTO local_skills .. ON CONFLICT(id) DO UPDATE\<close> of an edit.\<close>

definition new_skill_row :: "skill_edit \<Rightarrow> int \<Rightarrow> skill_row" where
  "new_skill_row e now =
     \<lparr>sk_id = ed_skill_id e, sk_remote_id = ed_remote_id e, sk_name = ed_name e,
      sk_slug = ed_slug e, sk_workspace_path = ed_workspace_path e,
      sk_current_blob_hash = ed_blob_hash e, sk_remote_blob_hash = None,
      sk_remote_revision = ed_base_revision e, sk_sync_state = Dirty, sk_pinned = False,
      sk_created_at = now, sk_updated_at = now, sk_last_accessed_at = None\<rparr>"

definition edited_skill_row :: "skill_edit \<Rightarrow> int \<Rightarrow> skill_row \<Rightarrow> skill_row" where
  "edited_skill_row e now r = r\<lparr>
      sk_remote_id := coalesce (ed_remote_id e) (sk_remote_id r), sk_name := ed_name e,
      sk_slug := ed_slug e, sk_workspace_path := ed_workspace_path e,
      sk_current_blob_hash := ed_blob_hash e,
      sk_remote_revision := coalesce (ed_base_revision e) (sk_remote_revision r),
      sk_sync_state := Dirty, sk_updated_at := now\<rparr>"

definition upsert_edited_skill :: "skill_edit \<Rightarrow> int \<Rightarrow> store \<Rightarrow> store" where
  "upsert_edited_skill e now d = d\<lparr>skills :=
     sql_upsert (\<lambda>r. sk_id r = ed_skill_id e) (new_skill_row e now) (edited_skill_row e now) (skills d)\<rparr>"

definition commit_skill_edit ::
  "skill_edit \<Rightarrow> string \<Rightarrow> int \<Rightarrow> store \<Rightarrow> store_error + (store \<times> local_mutation)" where
  "commit_skill_edit e mutation_id now d =
     and_then (validate_edit e) (\<lambda>_.
     and_then (ensure (ed_operation e \<noteq> Delete)
                (InvalidInput ''delete mutations must use queue_skill_delete'')) (\<lambda>_.
     and_then (exec (upsert_edited_skill e now) d) (\<lambda>d1.
     let seq = next_local_sequence d1 (ed_skill_id e) in
     and_then (checked_local_sequence seq mutation_id) (\<lambda>seq_value.
     and_then (exec (insert_mutation (queued_row mutation_id (ed_skill_id e) seq (ed_operation e)
                       (ed_base_revision e) (ed_blob_hash e) now)) d1) (\<lambda>d2.
     Inr (d2, queued_mutation mutation_id (ed_skill_id e) seq_value (ed_operation e)
                (ed_base_revision e) (ed_blob_hash e)))))))"

definition queue_skill_delete ::
  "string \<Rightarrow> int option \<Rightarrow> string \<Rightarrow> int \<Rightarrow> store \<Rightarrow> store_error + (store \<times> local_mutation)" where
  "queue_skill_delete skill base mutation_id now d =
     and_then (validate_non_empty ''skill_id'' skill) (\<lambda>_.
     and_then (ensure (\<not> negative base) (InvalidInput ''base_revision must not be negative'')) (\<lambda>_.
     and_then (ok_or (map_option sk_current_blob_hash (sql_find (\<lambda>r. sk_id r = skill) (skills d)))
                (SkillNotFound skill)) (\<lambda>payload.
     and_then (exec (update_skills (\<lambda>r. sk_id r = skill)
                       (\<lambda>r. r\<lparr>sk_sync_state := Dirty, sk_updated_at := now\<rparr>)) d) (\<lambda>d1.
     let seq = next_local_sequence d1 skill in
     and_then (checked_local_sequence seq mutation_id) (\<lambda>seq_value.
     and_then (exec (insert_mutation (queued_row mutation_id skill seq Delete base payload now)) d1) (\<lambda>d2.
     Inr (d2, queued_mutation mutation_id skill seq_value Delete base payload)))))))"

definition read_u32 :: "int \<Rightarrow> string \<Rightarrow> store_error + nat" where
  "read_u32 v column =
     (if 0 \<le> v \<and> v < 2 ^ 32 then Inr (nat v) else Inl (Database (InvalidColumnType column)))"

text \<open>\<open>raw_mutation_from_row\<close> and \<open>RawMutation::into_local\<close>\<close>

definition into_local :: "mutation_row \<Rightarrow> store_error + local_mutation" where
  "into_local m =
     and_then (read_u32 (mu_retry_count m) ''retry_count'') (\<lambda>retries.
     and_then (checked_local_sequence (mu_local_sequence m) (mu_id m)) (\<lambda>seq.
     Inr \<lparr>lm_id = mu_id m, lm_skill_id = mu_skill_id m, lm_local_sequence = seq,
          lm_operation = mu_operation m, lm_base_revision = mu_base_revision m,
          lm_payload_hash = mu_payload_hash m, lm_state = mu_state m, lm_retry_count = retries,
          lm_next_attempt_at = mu_next_attempt_at m, lm_last_attempt_at = mu_last_attempt_at m,
          lm_server_error_code = mu_server_error_code m,
          lm_server_error_details = mu_server_error_details m,
          lm_ack_remote_revision = mu_ack_remote_revision m,
          lm_ack_remote_id = mu_ack_remote_id m, lm_last_error = mu_last_error m\<rparr>))"

definition queued_state :: "mutation_state \<Rightarrow> bool" where
  "queued_state s \<longleftrightarrow> s = Pending \<or> s = RetryableError"

text \<open>Every earlier mutation of the same skill is acked.\<close>

definition earlier_acked :: "store \<Rightarrow> mutation_row \<Rightarrow> bool" where
  "earlier_acked d m \<longleftrightarrow>
     \<not> list_ex (\<lambda>e. mu_skill_id e = mu_skill_id m \<and> mu_local_sequence e < mu_local_sequence m
                   \<and> mu_state e \<noteq> Acked) (mutations d)"

definition dispatchable :: "int \<Rightarrow> store \<Rightarrow> mutation_row \<Rightarrow> bool" where
  "dispatchable now d m \<longleftrightarrow>
     queued_state (mu_state m)
     \<and> (case mu_next_attempt_at m of None \<Rightarrow> True | Some t \<Rightarrow> t \<le> now)
     \<and> earlier_acked d m"

definition dispatchable_rows :: "nat \<Rightarrow> int \<Rightarrow> store \<Rightarrow> mutation_row list" where
  "dispatchable_rows limit now d =
     take limit (sort_key (\<lambda>m. (mu_created_at m, mu_id m)) (filter (dispatchable now d) (mutations d)))"

definition read_dispatchable :: "nat \<Rightarrow> int \<Rightarrow> store \<Rightarrow> store_error + local_mutation list" where
  "read_dispatchable limit now d = try_map into_local (dispatchable_rows limit now d)"

definition list_dispatchable_mutations :: "nat \<Rightarrow> int \<Rightarrow> store \<Rightarrow> store_error + local_mutation list" where
  "list_dispatchable_mutations limit now d =
     (if limit = 0 then Inr [] else read_dispatchable limit now d)"

definition read_mutation :: "store \<Rightarrow> string \<Rightarrow> store_error + local_mutation" where
  "read_mutation d mutation_id =
     and_then (ok_or (sql_find (\<lambda>m. mu_id m = mutation_id) (mutations d)) (Database QueryReturnedNoRows))
       into_local"

definition claimed_row :: "int \<Rightarrow> mutation_row \<Rightarrow> mutation_row" where
  "claimed_row now m = m\<lparr>mu_state := InFlight, mu_last_attempt_at := Some now,
     mu_next_attempt_at := None, mu_updated_at := now\<rparr>"

fun claim_loop ::
  "int \<Rightarrow> local_mutation list \<Rightarrow> store \<Rightarrow> store_error + (store \<times> local_mutation list)" where
  "claim_loop now [] d = Inr (d, [])"
| "claim_loop now (c # cs) d =
     (let claims = (\<lambda>m. mu_id m = lm_id c \<and> queued_state (mu_state m));
          changed = sql_count claims (mutations d) in
      and_then (exec (update_mutations claims (claimed_row now)) d) (\<lambda>d1.
      and_then (ensure (changed = 1) (OutboxClaimLost (lm_id c))) (\<lambda>_.
      and_then (read_mutation d1 (lm_id c)) (\<lambda>m.
      and_then (claim_loop now cs d1) (\<lambda>(d2, ms). Inr (d2, m # ms))))))"

definition claim_dispatchable_mutations ::
  "nat \<Rightarrow> int \<Rightarrow> store \<Rightarrow> store_error + (store \<times> local_mutation list)" where
  "claim_dispatchable_mutations limit now d =
     (if limit = 0 then Inr (d, [])
      else and_then (read_dispatchable limit now d) (\<lambda>candidates. claim_loop now candidates d))"

definition released_row :: "int \<Rightarrow> mutation_row \<Rightarrow> mutation_row" where
  "released_row now m = m\<lparr>mu_state := RetryableError, mu_next_attempt_at := None, mu_updated_at := now\<rparr>"

fun release_loop :: "int \<Rightarrow> string list \<Rightarrow> store \<Rightarrow> store_error + (store \<times> nat)" where
  "release_loop now [] d = Inr (d, 0)"
| "release_loop now (i # is) d =
     (let releases = (\<lambda>m. mu_id m = i \<and> mu_state m = InFlight);
          changed = sql_count releases (mutations d) in
      and_then (exec (update_mutations releases (released_row now)) d) (\<lambda>d1.
      and_then (release_loop now is d1) (\<lambda>(d2, n).
      Inr (d2, (if changed = 1 then 1 else 0) + n))))"

definition release_in_flight_mutations ::
  "string list \<Rightarrow> int \<Rightarrow> store \<Rightarrow> store_error + (store \<times> nat)" where
  "release_in_flight_mutations ids now d = (if ids = [] then Inr (d, 0) else release_loop now ids d)"

definition recovered_row :: "int \<Rightarrow> mutation_row \<Rightarrow> mutation_row" where
  "recovered_row now m = m\<lparr>mu_state := RetryableError, mu_next_attempt_at := None,
     mu_last_error := Some ''recovered after client restart with unknown remote outcome'',
     mu_updated_at := now\<rparr>"

definition recover_in_flight_mutations :: "int \<Rightarrow> store \<Rightarrow> store_error + (store \<times> nat)" where
  "recover_in_flight_mutations now d =
     and_then (exec (update_mutations (\<lambda>m. mu_state m = InFlight) (recovered_row now)) d) (\<lambda>d1.
     Inr (d1, sql_count (\<lambda>m. mu_state m = InFlight) (mutations d)))"

end
