(* ===== verification/Outbox.thy ===== *)
theory Outbox
  imports Mutations
begin

text \<open>
  The contract of the outbox that every store operation keeps, stated once as the locale
  \<open>outbox_operation\<close>: the schema constraints and the causality of claims (\<open>outbox_inv\<close>), and that
  queued work is never altered or lost (\<open>kept\<close>): a mutation keeps its identity, order and payload,
  \<open>acked\<close> is final, and only an acked row may disappear. The operations of \<open>mutations.rs\<close> are
  interpreted here, those of the other store modules in their own theories.
\<close>

definition causal :: "store \<Rightarrow> bool" where
  "causal d \<longleftrightarrow> (\<forall>m \<in> set (mutations d). mu_state m = InFlight \<longrightarrow> earlier_acked d m)"

definition outbox_inv :: "store \<Rightarrow> bool" where
  "outbox_inv d \<longleftrightarrow> schema_ok d \<and> causal d"

definition same_work :: "mutation_row \<Rightarrow> mutation_row \<Rightarrow> bool" where
  "same_work m n \<longleftrightarrow> mu_id n = mu_id m \<and> mu_skill_id n = mu_skill_id m
     \<and> mu_local_sequence n = mu_local_sequence m \<and> mu_operation n = mu_operation m
     \<and> mu_base_revision n = mu_base_revision m \<and> mu_payload_hash n = mu_payload_hash m
     \<and> mu_created_at n = mu_created_at m"

text \<open>\<open>n\<close> continues the mutation \<open>m\<close>: the same work, and still acked if \<open>m\<close> was.\<close>

definition continues :: "mutation_row \<Rightarrow> mutation_row \<Rightarrow> bool" where
  "continues m n \<longleftrightarrow> same_work m n \<and> (mu_state m = Acked \<longrightarrow> mu_state n = Acked)"

definition kept :: "store \<Rightarrow> store \<Rightarrow> bool" where
  "kept d d' \<longleftrightarrow> (\<forall>m \<in> set (mutations d).
     (\<exists>n \<in> set (mutations d'). continues m n)
     \<or> (mu_state m = Acked \<and> mu_id m \<notin> mu_id ` set (mutations d')))"

lemma same_work_refl [simp]: "same_work m m" and continues_refl [simp]: "continues m m"
  by (simp_all add: same_work_def continues_def)

lemma same_work_trans: "same_work a b \<Longrightarrow> same_work b c \<Longrightarrow> same_work a c"
  by (simp add: same_work_def)

lemma kept_same_mutations: "mutations d' = mutations d \<Longrightarrow> kept d d'"
  unfolding kept_def using continues_refl by metis

lemma kept_refl [simp]: "kept d d"
  by (simp add: kept_same_mutations)

lemma causal_same_mutations: "mutations d' = mutations d \<Longrightarrow> causal d' = causal d"
  by (simp add: causal_def earlier_acked_def)

lemma earlier_acked_iff:
  "earlier_acked d m \<longleftrightarrow> (\<forall>e \<in> set (mutations d). mu_skill_id e = mu_skill_id m
     \<longrightarrow> mu_local_sequence e < mu_local_sequence m \<longrightarrow> mu_state e = Acked)"
  by (auto simp: earlier_acked_def list_ex_iff)

text \<open>
  Updates that keep every row's work and its acked state. Steps of a transaction before the last
  keep all rows, so \<open>continued\<close>, the part of \<open>kept\<close> without disappearance, composes.
\<close>

definition continued :: "store \<Rightarrow> store \<Rightarrow> bool" where
  "continued d d' \<longleftrightarrow> (\<forall>m \<in> set (mutations d). \<exists>n \<in> set (mutations d'). continues m n)"

lemma continued_kept: "continued d d' \<Longrightarrow> kept d d'"
  by (auto simp: continued_def kept_def)

lemma continued_same_mutations: "mutations d' = mutations d \<Longrightarrow> continued d d'"
  unfolding continued_def using continues_refl by metis

lemma continued_refl [simp]: "continued d d"
  by (simp add: continued_same_mutations)

lemma continued_trans: "continued a b \<Longrightarrow> continued b c \<Longrightarrow> continued a c"
  unfolding continued_def continues_def using same_work_trans by blast

lemma continued_update:
  assumes "\<And>m. P m \<Longrightarrow> same_work m (f m)"
    and "\<And>m. m \<in> set (mutations d) \<Longrightarrow> P m \<Longrightarrow> mu_state m = Acked \<Longrightarrow> mu_state (f m) = Acked"
  shows "continued d (update_mutations P f d)"
  unfolding continued_def
proof
  fix m assume m: "m \<in> set (mutations d)"
  then have "(if P m then f m else m) \<in> set (mutations (update_mutations P f d))"
    by (simp add: set_sql_update)
  moreover have "continues m (if P m then f m else m)" using assms m by (simp add: continues_def)
  ultimately show "\<exists>n \<in> set (mutations (update_mutations P f d)). continues m n" by blast
qed

lemma continued_insert: "continued d (insert_mutation m d)"
  unfolding continued_def insert_mutation_def using continues_refl by fastforce

lemma causal_update:
  assumes "causal d"
    and "\<And>m. P m \<Longrightarrow> same_work m (f m)"
    and "\<And>m. m \<in> set (mutations d) \<Longrightarrow> P m \<Longrightarrow> mu_state m = Acked \<Longrightarrow> mu_state (f m) = Acked"
    and "\<And>m. m \<in> set (mutations d) \<Longrightarrow> P m \<Longrightarrow> mu_state (f m) = InFlight \<Longrightarrow> earlier_acked d m"
  shows "causal (update_mutations P f d)"
proof -
  let ?g = "\<lambda>m. if P m then f m else m"
  have sw: "same_work m (?g m)" and ack: "m \<in> set (mutations d) \<Longrightarrow> mu_state m = Acked \<Longrightarrow> mu_state (?g m) = Acked" for m
    using assms(2,3) by auto
  have "earlier_acked (update_mutations P f d) (?g m)"
    if m: "m \<in> set (mutations d)" and fl: "mu_state (?g m) = InFlight" for m
  proof -
    have "earlier_acked d m"
      using m fl assms(1,4) by (cases "P m") (auto simp: causal_def)
    then have ea: "mu_state e = Acked" if "e \<in> set (mutations d)" "mu_skill_id e = mu_skill_id m"
        "mu_local_sequence e < mu_local_sequence m" for e
      using that by (simp add: earlier_acked_iff)
    show ?thesis unfolding earlier_acked_iff
    proof (intro ballI impI)
      fix e' assume "e' \<in> set (mutations (update_mutations P f d))" and k: "mu_skill_id e' = mu_skill_id (?g m)"
        and q: "mu_local_sequence e' < mu_local_sequence (?g m)"
      then obtain e where e: "e \<in> set (mutations d)" "e' = ?g e" by (auto simp: set_sql_update)
      then have "mu_state e = Acked" using k q sw [of e] sw [of m] ea [OF e(1)] by (simp add: same_work_def)
      then show "mu_state e' = Acked" using ack [of e] e by simp
    qed
  qed
  then show ?thesis unfolding causal_def update_mutations_simps set_sql_update by blast
qed

lemma causal_delete_skill: "causal d \<Longrightarrow> causal (delete_skill key d)"
  by (auto simp: causal_def earlier_acked_iff delete_skill_def set_sql_delete)

text \<open>
  One or several statements of a transaction that keep the schema, the causality and every row's
  work. \<open>outbox_step\<close> composes, so an operation is a chain of the two kinds of step below.
\<close>

definition outbox_step :: "store \<Rightarrow> store \<Rightarrow> bool" where
  "outbox_step d d' \<longleftrightarrow> outbox_inv d' \<and> continued d d'"

lemma outbox_step_refl: "outbox_inv d \<Longrightarrow> outbox_step d d"
  by (simp add: outbox_step_def)

lemma outbox_step_trans: "outbox_step a b \<Longrightarrow> outbox_step b c \<Longrightarrow> outbox_step a c"
  by (auto simp: outbox_step_def intro: continued_trans)

lemma outbox_step_inv: "outbox_step d d' \<Longrightarrow> outbox_inv d'"
  and outbox_step_kept: "outbox_step d d' \<Longrightarrow> kept d d'"
  by (simp_all add: outbox_step_def continued_kept)

lemma outbox_step_other_table:
  "outbox_inv d \<Longrightarrow> schema_ok d' \<Longrightarrow> mutations d' = mutations d \<Longrightarrow> outbox_step d d'"
  by (simp add: outbox_step_def outbox_inv_def continued_same_mutations causal_same_mutations [of d' d])

lemma outbox_step_mutations:
  assumes "outbox_inv d" and "\<And>m. P m \<Longrightarrow> same_work m (f m)"
    and "\<And>m. m \<in> set (mutations d) \<Longrightarrow> P m \<Longrightarrow> mu_state m = Acked \<Longrightarrow> mu_state (f m) = Acked"
    and "\<And>m. m \<in> set (mutations d) \<Longrightarrow> P m \<Longrightarrow> mu_state (f m) = InFlight \<Longrightarrow> earlier_acked d m"
    and "schema_ok (update_mutations P f d)"
  shows "outbox_step d (update_mutations P f d)"
  using assms causal_update [of d P f] continued_update [of P f d]
  by (simp add: outbox_step_def outbox_inv_def)

section \<open>The contract\<close>

locale outbox_operation =
  fixes run :: "'a \<Rightarrow> store \<Rightarrow> store_error + (store \<times> 'r)"
  assumes run_inv: "outbox_inv d \<Longrightarrow> run a d = Inr (d', r) \<Longrightarrow> outbox_inv d'"
    and run_kept: "outbox_inv d \<Longrightarrow> run a d = Inr (d', r) \<Longrightarrow> kept d d'"
begin

text \<open>Unacked work survives an operation with its payload, whatever the operation was.\<close>

lemma unacked_survives:
  assumes "outbox_inv d" and "run a d = Inr (d', r)" and "m \<in> set (mutations d)" and "mu_state m \<noteq> Acked"
  shows "\<exists>n \<in> set (mutations d'). same_work m n"
  using run_kept [OF assms(1,2)] assms(3,4) by (auto simp: kept_def continues_def)

lemma acked_is_final:
  assumes "outbox_inv d" and "run a d = Inr (d', r)" and "m \<in> set (mutations d)" and "mu_state m = Acked"
    and "n \<in> set (mutations d')" and "mu_id n = mu_id m"
  shows "mu_state n = Acked \<and> same_work m n"
proof -
  obtain n' where "n' \<in> set (mutations d')" "continues m n'"
    using run_kept [OF assms(1,2)] assms(3,5,6) by (auto simp: kept_def image_iff) metis
  moreover from this have "n' = n"
    using run_inv [OF assms(1,2)] assms(5,6)
    by (auto simp: outbox_inv_def continues_def same_work_def intro: schema_mutation_unique)
  ultimately show ?thesis using assms(4) by (simp add: continues_def)
qed

end

section \<open>The sequence order\<close>

lemma sql_max_ge: "x \<in> set xs \<Longrightarrow> x \<le> or_else (sql_max xs) 0"
proof (cases xs)
  case (Cons y ys)
  have "y \<le> foldr max ys y \<and> (\<forall>z \<in> set ys. z \<le> foldr max ys y)"
    by (induction ys) (auto simp: le_max_iff_disj)
  moreover assume "x \<in> set xs"
  ultimately show ?thesis using Cons by (auto simp: sql_max_def)
qed simp

lemma next_local_sequence_greater:
  "m \<in> set (mutations d) \<Longrightarrow> mu_skill_id m = skill \<Longrightarrow> mu_local_sequence m < next_local_sequence d skill"
  unfolding next_local_sequence_def using sql_max_ge by fastforce

lemma next_local_sequence_pos:
  assumes "schema_ok d" shows "0 < next_local_sequence d skill"
proof (cases "filter (\<lambda>m. mu_skill_id m = skill) (mutations d)")
  case Nil
  then show ?thesis by (simp add: next_local_sequence_def sql_max_def)
next
  case (Cons m ms)
  then have "m \<in> set (mutations d)" "mu_skill_id m = skill"
    by (metis (mono_tags, lifting) list.set_intros(1) mem_Collect_eq set_filter)+
  then show ?thesis
    using next_local_sequence_greater [of m d skill] schema_mutation_check [OF assms, of m]
    by (simp add: mutation_check_def)
qed

lemma schema_ok_insert_mutation:
  assumes "schema_ok d"
  shows "schema_ok (insert_mutation m d) \<longleftrightarrow> mutation_check m \<and> mu_id m \<notin> mu_id ` set (mutations d)
    \<and> (mu_skill_id m, mu_local_sequence m) \<notin> (\<lambda>n. (mu_skill_id n, mu_local_sequence n)) ` set (mutations d)
    \<and> mu_skill_id m \<in> sk_id ` set (skills d)"
  using assms
  by (auto simp: schema_ok_def insert_mutation_def mutations_ok_def skills_ok_def deployments_ok_def
      entitlements_ok_def prefs_ok_def)

lemma next_sequence_fresh:
  "(i, next_local_sequence d i) \<notin> (\<lambda>n. (mu_skill_id n, mu_local_sequence n)) ` set (mutations d)"
  using next_local_sequence_greater [of _ d i] by fastforce

lemma causal_insert:
  assumes "causal d" and "mu_state m \<noteq> InFlight"
    and "mu_local_sequence m = next_local_sequence d (mu_skill_id m)"
  shows "causal (insert_mutation m d)"
  using assms next_local_sequence_greater [of _ d "mu_skill_id m"]
  by (fastforce simp: causal_def earlier_acked_iff insert_mutation_def)

section \<open>Committing edits and deletes\<close>

lemma queued_row_simps [simp]:
  "mu_state (queued_row i s q op b p now) = Pending" "mu_skill_id (queued_row i s q op b p now) = s"
  "mu_local_sequence (queued_row i s q op b p now) = q" "mu_id (queued_row i s q op b p now) = i"
  "mu_payload_hash (queued_row i s q op b p now) = p" "mu_operation (queued_row i s q op b p now) = op"
  "mu_base_revision (queued_row i s q op b p now) = b" "mu_next_attempt_at (queued_row i s q op b p now) = None"
  by (simp_all add: queued_row_def)

lemma mutations_upsert_edited [simp]: "mutations (upsert_edited_skill e now d) = mutations d"
  by (simp add: upsert_edited_skill_def)

lemma next_local_sequence_cong: "mutations d' = mutations d \<Longrightarrow> next_local_sequence d' = next_local_sequence d"
  by (simp add: next_local_sequence_def fun_eq_iff)

text \<open>What a successful commit writes, the shape both its contract and its properties rest on.\<close>

lemma commit_skill_edit_Inr:
  assumes "commit_skill_edit e mid now d = Inr (d', lm)"
  shows "d' = insert_mutation (queued_row mid (ed_skill_id e) (next_local_sequence d (ed_skill_id e))
                 (ed_operation e) (ed_base_revision e) (ed_blob_hash e) now) (upsert_edited_skill e now d)"
    and "lm = queued_mutation mid (ed_skill_id e) (nat (next_local_sequence d (ed_skill_id e)))
                 (ed_operation e) (ed_base_revision e) (ed_blob_hash e)"
    and "schema_ok d'" and "ed_operation e \<noteq> Delete" and "validate_edit e = Inr ()"
  using assms next_local_sequence_cong [OF mutations_upsert_edited, of e now d]
  by (auto simp: commit_skill_edit_def result_simps Let_def checked_local_sequence_def split: if_splits)

lemma queue_skill_delete_Inr:
  assumes "queue_skill_delete skill base mid now d = Inr (d', lm)"
  shows "\<exists>r \<in> set (skills d). sk_id r = skill \<and>
           d' = insert_mutation (queued_row mid skill (next_local_sequence d skill) Delete base
                   (sk_current_blob_hash r) now)
                 (update_skills (\<lambda>r. sk_id r = skill) (\<lambda>r. r\<lparr>sk_sync_state := Dirty, sk_updated_at := now\<rparr>) d)"
    and "schema_ok d'"
proof -
  let ?d1 = "update_skills (\<lambda>r. sk_id r = skill) (\<lambda>r. r\<lparr>sk_sync_state := Dirty, sk_updated_at := now\<rparr>) d"
  have "next_local_sequence ?d1 = next_local_sequence d" by (rule next_local_sequence_cong) simp
  with assms show "\<exists>r \<in> set (skills d). sk_id r = skill \<and>
           d' = insert_mutation (queued_row mid skill (next_local_sequence d skill) Delete base
                   (sk_current_blob_hash r) now) ?d1" and "schema_ok d'"
    by (auto simp: queue_skill_delete_def result_simps Let_def dest: sql_find_Some)
qed

interpretation commit_op: outbox_operation "\<lambda>(e, mid, now). commit_skill_edit e mid now"
proof
  fix a :: "skill_edit \<times> string \<times> int" and d d' r
  obtain e mid now where a: "a = (e, mid, now)" by (cases a)
  assume inv: "outbox_inv d" and "(case a of (e, mid, now) \<Rightarrow> commit_skill_edit e mid now) d = Inr (d', r)"
  then have run: "commit_skill_edit e mid now d = Inr (d', r)" by (simp add: a)
  note eff = commit_skill_edit_Inr [OF run]
  let ?d1 = "upsert_edited_skill e now d"
  have "causal ?d1" using inv causal_same_mutations [of ?d1 d] by (simp add: outbox_inv_def)
  then have "causal d'" unfolding eff(1)
    by (rule causal_insert) (simp_all add: next_local_sequence_cong [OF mutations_upsert_edited])
  with eff(3) show "outbox_inv d'" by (simp add: outbox_inv_def)
  show "kept d d'" unfolding eff(1)
    by (rule continued_kept, rule continued_trans [OF continued_same_mutations continued_insert]) simp
qed

interpretation delete_op: outbox_operation "\<lambda>(skill, base, mid, now). queue_skill_delete skill base mid now"
proof
  fix a :: "string \<times> int option \<times> string \<times> int" and d d' r
  obtain skill base mid now where a: "a = (skill, base, mid, now)" by (cases a)
  let ?d1 = "update_skills (\<lambda>r. sk_id r = skill) (\<lambda>r. r\<lparr>sk_sync_state := Dirty, sk_updated_at := now\<rparr>) d"
  assume inv: "outbox_inv d"
    and "(case a of (skill, base, mid, now) \<Rightarrow> queue_skill_delete skill base mid now) d = Inr (d', r)"
  then have run: "queue_skill_delete skill base mid now d = Inr (d', r)" by (simp add: a)
  obtain p where d': "d' = insert_mutation (queued_row mid skill (next_local_sequence d skill) Delete base p now) ?d1"
    using queue_skill_delete_Inr(1) [OF run] by blast
  have "causal ?d1" using inv causal_same_mutations [of ?d1 d] by (simp add: outbox_inv_def)
  then have "causal d'" unfolding d'
    by (rule causal_insert) (simp_all add: next_local_sequence_cong [of ?d1 d])
  with queue_skill_delete_Inr(2) [OF run] show "outbox_inv d'" by (simp add: outbox_inv_def)
  show "kept d d'" unfolding d'
    by (rule continued_kept, rule continued_trans [OF continued_same_mutations continued_insert]) simp
qed

section \<open>Claiming, releasing and recovering\<close>

text \<open>The \<open>local_mutation\<close> a row reads as; reading fails only on a retry count beyond \<open>u32\<close>.\<close>

definition local_of :: "mutation_row \<Rightarrow> local_mutation" where
  "local_of m =
     \<lparr>lm_id = mu_id m, lm_skill_id = mu_skill_id m, lm_local_sequence = nat (mu_local_sequence m),
      lm_operation = mu_operation m, lm_base_revision = mu_base_revision m,
      lm_payload_hash = mu_payload_hash m, lm_state = mu_state m,
      lm_retry_count = nat (mu_retry_count m), lm_next_attempt_at = mu_next_attempt_at m,
      lm_last_attempt_at = mu_last_attempt_at m, lm_server_error_code = mu_server_error_code m,
      lm_server_error_details = mu_server_error_details m,
      lm_ack_remote_revision = mu_ack_remote_revision m,
      lm_ack_remote_id = mu_ack_remote_id m, lm_last_error = mu_last_error m\<rparr>"

definition readable :: "mutation_row \<Rightarrow> bool" where
  "readable m \<longleftrightarrow> mutation_check m \<and> mu_retry_count m < 2 ^ 32"

lemma into_local_Inr: "into_local m = Inr l \<Longrightarrow> l = local_of m"
  by (auto simp: into_local_def local_of_def result_simps read_u32_def checked_local_sequence_def
      split: if_splits)

lemma into_local_readable: "readable m \<Longrightarrow> into_local m = Inr (local_of m)"
  by (simp add: into_local_def local_of_def readable_def mutation_check_def read_u32_def
      checked_local_sequence_def)

lemma local_of_simps [simp]:
  "lm_id (local_of m) = mu_id m" "lm_skill_id (local_of m) = mu_skill_id m"
  "lm_state (local_of m) = mu_state m" "lm_payload_hash (local_of m) = mu_payload_hash m"
  by (simp_all add: local_of_def)

lemma read_mutation_Inr:
  assumes "read_mutation d i = Inr l"
  shows "\<exists>m \<in> set (mutations d). mu_id m = i \<and> l = local_of m"
proof -
  obtain m where "sql_find (\<lambda>m. mu_id m = i) (mutations d) = Some m" "into_local m = Inr l"
    using assms by (auto simp: read_mutation_def result_simps)
  then show ?thesis using sql_find_Some into_local_Inr by fast
qed

lemma mutation_id_iff:
  "schema_ok d \<Longrightarrow> m \<in> set (mutations d) \<Longrightarrow> x \<in> set (mutations d) \<Longrightarrow> mu_id x = mu_id m \<longleftrightarrow> x = m"
  using schema_mutation_unique by blast

lemma claimed_row_simps [simp]:
  "mu_id (claimed_row now m) = mu_id m" "mu_skill_id (claimed_row now m) = mu_skill_id m"
  "mu_local_sequence (claimed_row now m) = mu_local_sequence m" "mu_state (claimed_row now m) = InFlight"
  "mutation_check (claimed_row now m) = mutation_check m" "readable (claimed_row now m) = readable m"
  "same_work m (claimed_row now m)"
  by (simp_all add: claimed_row_def mutation_check_def readable_def same_work_def)

lemma try_map_into_local: "try_map into_local rows = Inr ls \<Longrightarrow> ls = map local_of rows"
  by (induction rows arbitrary: ls) (auto simp: result_simps dest: into_local_Inr)

lemma set_dispatchable_rows: "m \<in> set (dispatchable_rows limit now d) \<Longrightarrow> m \<in> set (mutations d) \<and> dispatchable now d m"
  using set_take_subset [of limit] by (fastforce simp: dispatchable_rows_def)

lemma distinct_dispatchable_rows:
  assumes "schema_ok d" shows "distinct (map mu_id (dispatchable_rows limit now d))"
proof -
  have "distinct (map mu_id (mutations d))" using assms by (simp add: schema_ok_def mutations_ok_def)
  then have "distinct (map mu_id (sort_key (\<lambda>m. (mu_created_at m, mu_id m)) (filter (dispatchable now d) (mutations d))))"
    using distinct_map_filter [of mu_id "mutations d"] by (simp add: distinct_map)
  then show ?thesis unfolding dispatchable_rows_def take_map [symmetric] by (rule distinct_take)
qed

text \<open>One round of the claim loop on a row that is still queued.\<close>

definition claim_ids :: "string set \<Rightarrow> int \<Rightarrow> store \<Rightarrow> store" where
  "claim_ids ids now = update_mutations (\<lambda>m. mu_id m \<in> ids) (claimed_row now)"

lemma schema_ok_claim_ids: "schema_ok d \<Longrightarrow> schema_ok (claim_ids ids now d)"
  unfolding claim_ids_def by (rule schema_ok_update_mutations) auto

lemma mutations_claim_ids:
  "mutations (claim_ids ids now d) = map (\<lambda>m. if mu_id m \<in> ids then claimed_row now m else m) (mutations d)"
  by (simp add: claim_ids_def sql_update_def)

lemma claim_ids_insert: "claim_ids (insert i ids) now d = claim_ids ids now (claim_ids {i} now d)"
  by (auto simp: claim_ids_def update_mutations_def sql_update_def claimed_row_def)

lemma claim_loop_exact:
  assumes "schema_ok d" and "distinct (map mu_id rows)"
    and "\<And>m. m \<in> set rows \<Longrightarrow> m \<in> set (mutations d) \<and> queued_state (mu_state m) \<and> readable m"
  shows "claim_loop now (map local_of rows) d
         = Inr (claim_ids (mu_id ` set rows) now d, map (local_of \<circ> claimed_row now) rows)"
  using assms
proof (induction rows arbitrary: d)
  case Nil
  then show ?case by (simp add: claim_ids_def update_mutations_def sql_update_def)
next
  case (Cons m rows)
  let ?P = "\<lambda>x. mu_id x = mu_id m \<and> queued_state (mu_state x)"
  let ?d1 = "claim_ids {mu_id m} now d"
  from Cons.prems have m: "m \<in> set (mutations d)" "queued_state (mu_state m)" "readable m" by auto
  have ids: "mu_id x = mu_id m \<longleftrightarrow> x = m" if "x \<in> set (mutations d)" for x
    by (rule mutation_id_iff [OF Cons.prems(1) m(1) that])
  have count: "sql_count ?P (mutations d) = 1"
    using sql_count_unique [of mu_id "mutations d" m "\<lambda>x. queued_state (mu_state x)"] m Cons.prems(1)
    by (simp add: schema_ok_def mutations_ok_def)
  have upd: "update_mutations ?P (claimed_row now) d = ?d1"
    using ids m(2) by (auto simp: claim_ids_def update_mutations_def sql_update_def)
  have ok1: "schema_ok ?d1" using Cons.prems(1) by (rule schema_ok_claim_ids)
  have "claimed_row now m \<in> set (mutations ?d1)" using m by (auto simp: mutations_claim_ids)
  from schema_find_mutation [OF ok1 this] have "read_mutation ?d1 (mu_id m) = Inr (local_of (claimed_row now m))"
    using m(3) by (simp add: read_mutation_def into_local_readable)
  moreover have rest: "x \<in> set (mutations ?d1) \<and> queued_state (mu_state x) \<and> readable x"
    if "x \<in> set rows" for x
  proof -
    have "mu_id x \<noteq> mu_id m" using Cons.prems(2) that by (auto simp: image_iff)
    moreover have "x \<in> set (mutations d) \<and> queued_state (mu_state x) \<and> readable x"
      using Cons.prems(3) that by simp
    ultimately show ?thesis by (auto simp: mutations_claim_ids intro!: image_eqI [of _ _ x])
  qed
  moreover have "claim_loop now (map local_of rows) ?d1
      = Inr (claim_ids (mu_id ` set rows) now ?d1, map (local_of \<circ> claimed_row now) rows)"
    using Cons.prems(2) by (intro Cons.IH [OF ok1 _ rest]) simp_all
  moreover have "claim_ids (mu_id ` set rows) now ?d1 = claim_ids (mu_id ` set (m # rows)) now d"
    using claim_ids_insert [of "mu_id m" "mu_id ` set rows" now d] by simp
  ultimately show ?case
    using ok1 by (simp add: count upd exec_def Let_def del: One_nat_def)
qed

lemma claim_exact:
  assumes "schema_ok d" and "list_all readable (mutations d)"
  shows "claim_dispatchable_mutations limit now d
         = Inr (claim_ids (mu_id ` set (dispatchable_rows limit now d)) now d,
                map (local_of \<circ> claimed_row now) (dispatchable_rows limit now d))"
proof (cases "limit = 0")
  case True
  then show ?thesis
    by (simp add: claim_dispatchable_mutations_def dispatchable_rows_def claim_ids_def
        update_mutations_def sql_update_def)
next
  case False
  let ?rows = "dispatchable_rows limit now d"
  have rows: "m \<in> set (mutations d) \<and> queued_state (mu_state m) \<and> readable m" if "m \<in> set ?rows" for m
    using set_dispatchable_rows [OF that] assms(2) by (simp add: dispatchable_def list_all_iff)
  have "read_dispatchable limit now d = Inr (map local_of ?rows)"
    unfolding read_dispatchable_def using rows by (intro try_map_Inr) (simp add: into_local_readable)
  with False show ?thesis
    using claim_loop_exact [OF assms(1) distinct_dispatchable_rows [OF assms(1)] rows]
    by (simp add: claim_dispatchable_mutations_def)
qed

text \<open>A successful claim is the exact one: the loop reads what it lists.\<close>

lemma claim_loop_Inr:
  "claim_loop now cs d = Inr (d', ms) \<Longrightarrow> schema_ok d \<Longrightarrow>
   d' = claim_ids (lm_id ` set cs) now d \<and> schema_ok d' \<and> map lm_id ms = map lm_id cs"
proof (induction cs arbitrary: d ms)
  case Nil
  then show ?case by (simp add: claim_ids_def update_mutations_def sql_update_def)
next
  case (Cons c cs)
  let ?P = "\<lambda>m. mu_id m = lm_id c \<and> queued_state (mu_state m)"
  let ?d1 = "update_mutations ?P (claimed_row now) d"
  obtain m ms' where eff: "schema_ok ?d1" "sql_count ?P (mutations d) = 1"
      "read_mutation ?d1 (lm_id c) = Inr m" "claim_loop now cs ?d1 = Inr (d', ms')" "ms = m # ms'"
    using Cons.prems(1) by (auto simp: result_simps Let_def)
  have "0 < sql_count ?P (mutations d)" using eff(2) by simp
  then obtain r where r: "r \<in> set (mutations d)" "mu_id r = lm_id c" "queued_state (mu_state r)"
    unfolding sql_count_pos by blast
  have "?P x \<longleftrightarrow> mu_id x = lm_id c" if "x \<in> set (mutations d)" for x
    using r mutation_id_iff [OF Cons.prems(2) r(1) that] by auto
  then have d1: "?d1 = claim_ids {lm_id c} now d"
    by (auto simp: claim_ids_def update_mutations_def sql_update_def)
  have "lm_id m = lm_id c"
    using read_mutation_Inr [OF eff(3)] by auto
  moreover have "claim_ids (lm_id ` set cs) now ?d1 = claim_ids (lm_id ` set (c # cs)) now d"
    using claim_ids_insert [of "lm_id c" "lm_id ` set cs" now d] by (simp add: d1)
  ultimately show ?case using Cons.IH [OF eff(4,1)] eff(5) by auto
qed

lemma claim_Inr:
  assumes "schema_ok d" and "claim_dispatchable_mutations limit now d = Inr (d', ms)"
  shows "d' = claim_ids (mu_id ` set (dispatchable_rows limit now d)) now d" and "schema_ok d'"
    and "map lm_id ms = map mu_id (dispatchable_rows limit now d)"
proof -
  let ?rows = "dispatchable_rows limit now d"
  have "d' = claim_ids (mu_id ` set ?rows) now d \<and> schema_ok d' \<and> map lm_id ms = map mu_id ?rows"
  proof (cases "limit = 0")
    case True
    with assms show ?thesis
      by (simp add: claim_dispatchable_mutations_def dispatchable_rows_def claim_ids_def
          update_mutations_def sql_update_def)
  next
    case False
    with assms(2) obtain cs where "try_map into_local ?rows = Inr cs" "claim_loop now cs d = Inr (d', ms)"
      by (auto simp: claim_dispatchable_mutations_def read_dispatchable_def result_simps)
    moreover from this(1) have "cs = map local_of ?rows" by (rule try_map_into_local)
    ultimately show ?thesis using claim_loop_Inr [OF _ assms(1)]
      by (fastforce simp: image_image comp_def)
  qed
  then show "d' = claim_ids (mu_id ` set ?rows) now d" "schema_ok d'" "map lm_id ms = map mu_id ?rows"
    by auto
qed

lemma continued_claim_ids:
  assumes "\<And>m. m \<in> set (mutations d) \<Longrightarrow> mu_id m \<in> ids \<Longrightarrow> mu_state m \<noteq> Acked"
  shows "continued d (claim_ids ids now d)"
  unfolding continued_def
proof
  fix m assume m: "m \<in> set (mutations d)"
  let ?n = "if mu_id m \<in> ids then claimed_row now m else m"
  have "?n \<in> set (mutations (claim_ids ids now d))" using m by (auto simp: mutations_claim_ids)
  moreover have "continues m ?n" using assms [OF m] by (simp add: continues_def)
  ultimately show "\<exists>n \<in> set (mutations (claim_ids ids now d)). continues m n" by blast
qed

lemma causal_claim_ids:
  assumes "causal d" and "\<And>m. m \<in> set (mutations d) \<Longrightarrow> mu_id m \<in> ids \<Longrightarrow> mu_state m \<noteq> Acked \<and> earlier_acked d m"
  shows "causal (claim_ids ids now d)"
proof -
  have "claim_ids ids now d = update_mutations (\<lambda>m. m \<in> set (mutations d) \<and> mu_id m \<in> ids) (claimed_row now) d"
    by (auto simp: claim_ids_def update_mutations_def sql_update_def)
  moreover have "causal \<dots>"
    using assms by (intro causal_update) auto
  ultimately show ?thesis by simp
qed

lemma claimed_is_dispatchable:
  assumes "schema_ok d" and "m \<in> set (mutations d)"
    and "mu_id m \<in> mu_id ` set (dispatchable_rows limit now d)"
  shows "dispatchable now d m"
  using assms set_dispatchable_rows schema_mutation_unique by (metis (no_types, lifting) imageE)

interpretation claim_op: outbox_operation "\<lambda>(limit, now). claim_dispatchable_mutations limit now"
proof
  fix a :: "nat \<times> int" and d d' r
  obtain limit now where a: "a = (limit, now)" by (cases a)
  assume inv: "outbox_inv d" and "(case a of (limit, now) \<Rightarrow> claim_dispatchable_mutations limit now) d = Inr (d', r)"
  then have run: "claim_dispatchable_mutations limit now d = Inr (d', r)" and ok: "schema_ok d"
    by (simp_all add: a outbox_inv_def)
  note eff = claim_Inr [OF ok run]
  have "mu_state m \<noteq> Acked \<and> earlier_acked d m"
    if "m \<in> set (mutations d)" "mu_id m \<in> mu_id ` set (dispatchable_rows limit now d)" for m
    using claimed_is_dispatchable [OF ok that] by (auto simp: dispatchable_def queued_state_def)
  then show "outbox_inv d'" and "kept d d'"
    using eff inv causal_claim_ids [of d] continued_kept [OF continued_claim_ids [of d]]
    by (auto simp: outbox_inv_def)
qed

text \<open>Releasing and recovering only move rows that are in flight to \<open>retryable_error\<close>.\<close>

lemma requeue_step:
  assumes "outbox_inv d" and "\<And>m. P m \<Longrightarrow> mu_state m \<noteq> Acked"
    and "\<And>m. P m \<Longrightarrow> same_work m (f m) \<and> mu_state (f m) \<noteq> InFlight"
    and "\<And>m. P m \<Longrightarrow> mutation_check m \<Longrightarrow> mutation_check (f m)"
  shows "outbox_step d (update_mutations P f d)"
proof (rule outbox_step_mutations)
  show "schema_ok (update_mutations P f d)"
    using assms by (intro schema_ok_update_mutations) (auto simp: outbox_inv_def same_work_def)
qed (use assms in auto)

lemma release_requeued: "outbox_inv d \<Longrightarrow> outbox_step d (update_mutations (\<lambda>m. mu_id m = i \<and> mu_state m = InFlight) (released_row now) d)"
  by (rule requeue_step) (auto simp: released_row_def same_work_def mutation_check_def)

lemma recover_requeued: "outbox_inv d \<Longrightarrow> outbox_step d (update_mutations (\<lambda>m. mu_state m = InFlight) (recovered_row now) d)"
  by (rule requeue_step) (auto simp: recovered_row_def same_work_def mutation_check_def)

lemma release_loop_total:
  "outbox_inv d \<Longrightarrow> \<exists>d' n. release_loop now is d = Inr (d', n) \<and> outbox_step d d' \<and> n \<le> length is"
proof (induction "is" arbitrary: d)
  case Nil
  then show ?case by (simp add: outbox_step_def)
next
  case (Cons i "is")
  let ?d1 = "update_mutations (\<lambda>m. mu_id m = i \<and> mu_state m = InFlight) (released_row now) d"
  have r1: "outbox_step d ?d1" using Cons.prems by (rule release_requeued)
  then obtain d' n where "release_loop now is ?d1 = Inr (d', n)" "outbox_step ?d1 d'" "n \<le> length is"
    using Cons.IH [of ?d1] by (auto simp: outbox_step_def)
  moreover from this(2) r1 have "outbox_step d d'" by (auto simp: outbox_step_def intro: continued_trans)
  ultimately show ?case using r1 by (auto simp: outbox_step_def outbox_inv_def exec_def Let_def)
qed

lemma release_total:
  "outbox_inv d \<Longrightarrow> \<exists>d' n. release_in_flight_mutations is now d = Inr (d', n) \<and> outbox_step d d' \<and> n \<le> length is"
  using release_loop_total [of d now "is"]
  by (auto simp: release_in_flight_mutations_def outbox_step_def)

lemma recover_exact:
  "outbox_inv d \<Longrightarrow> recover_in_flight_mutations now d =
     Inr (update_mutations (\<lambda>m. mu_state m = InFlight) (recovered_row now) d,
          sql_count (\<lambda>m. mu_state m = InFlight) (mutations d))"
  using recover_requeued [of d now]
  by (simp add: recover_in_flight_mutations_def exec_def outbox_step_def outbox_inv_def)

interpretation release_op: outbox_operation "\<lambda>(is, now). release_in_flight_mutations is now"
proof
  fix a :: "string list \<times> int" and d d' r
  obtain "is" now where a: "a = (is, now)" by (cases a)
  assume inv: "outbox_inv d" and "(case a of (is, now) \<Rightarrow> release_in_flight_mutations is now) d = Inr (d', r)"
  then have "outbox_step d d'" using release_total [OF inv, of "is" now] by (auto simp: a)
  then show "outbox_inv d'" and "kept d d'" by (auto simp: outbox_step_def continued_kept)
qed

interpretation recover_op: outbox_operation recover_in_flight_mutations
proof
  fix now d d' r
  assume inv: "outbox_inv d" and "recover_in_flight_mutations now d = Inr (d', r)"
  then have "outbox_step d d'" using recover_requeued [OF inv] recover_exact [OF inv] by auto
  then show "outbox_inv d'" and "kept d d'" by (auto simp: outbox_step_def continued_kept)
qed

end
