(* ===== verification/Samples.thy ===== *)
theory Samples
  imports Local_Store
begin

text \<open>
  Small concrete stores. The witnesses of the properties evaluate the model on them, so each one is
  built from the rows the properties talk about: a skill \<open>s1\<close> with a chain of mutations, a second
  skill \<open>s2\<close>, a deployment of each and a lease.
\<close>

definition hash_a :: string where "hash_a = ''aa''"
definition hash_b :: string where "hash_b = ''bb''"

definition sample_skill :: "string \<Rightarrow> string option \<Rightarrow> skill_sync_state \<Rightarrow> int option \<Rightarrow> skill_row" where
  "sample_skill i remote st revision =
     \<lparr>sk_id = i, sk_remote_id = remote, sk_name = ''Name'', sk_slug = ''slug'',
      sk_workspace_path = ''/w'', sk_current_blob_hash = hash_a, sk_remote_blob_hash = None,
      sk_remote_revision = revision, sk_sync_state = st, sk_pinned = False, sk_created_at = 10,
      sk_updated_at = 10, sk_last_accessed_at = None\<rparr>"

definition sample_mutation :: "string \<Rightarrow> string \<Rightarrow> int \<Rightarrow> mutation_state \<Rightarrow> mutation_row" where
  "sample_mutation i s q st =
     \<lparr>mu_id = i, mu_skill_id = s, mu_local_sequence = q, mu_operation = Update,
      mu_base_revision = None, mu_payload_hash = hash_a, mu_state = st, mu_retry_count = 0,
      mu_next_attempt_at = None, mu_last_attempt_at = None, mu_server_error_code = None,
      mu_server_error_details = None, mu_ack_remote_revision = None, mu_ack_remote_id = None,
      mu_last_error = None, mu_created_at = 10, mu_updated_at = 10\<rparr>"

text \<open>\<open>s1\<close> has an acked, an unacked and a later mutation, \<open>s2\<close> a single one.\<close>

definition sample_store :: "mutation_state \<Rightarrow> store" where
  "sample_store st = fresh_store\<lparr>
     skills := [sample_skill ''s1'' (Some ''r1'') Dirty (Some 4), sample_skill ''s2'' None Dirty None],
     mutations := [sample_mutation ''m1'' ''s1'' 1 Acked, sample_mutation ''m2'' ''s1'' 2 st,
                   sample_mutation ''m3'' ''s1'' 3 Pending, sample_mutation ''m4'' ''s2'' 1 Pending]\<rparr>"

end
