(* ===== verification/Outbox_Properties.thy ===== *)
theory Outbox_Properties
  imports Outbox Samples
begin

text \<open>
  The properties of \<open>mutations.rs\<close>: what a commit, a queued delete, a claim and a recovery do to
  the tables, on success and on every refusal, and the order claims respect.
\<close>

section \<open>Claims\<close>

lemma earlier_acked_blocks:
  assumes "earlier_acked d m" and "e \<in> set (mutations d)" and "mu_skill_id e = mu_skill_id m"
    and "mu_state e \<noteq> Acked"
  shows "mu_local_sequence m \<le> mu_local_sequence e"
  using assms by (metis earlier_acked_iff not_le)

lemma unacked_with_earlier_acked_unique:
  assumes "schema_ok d" and "m \<in> set (mutations d)" and "n \<in> set (mutations d)"
    and "earlier_acked d m" and "earlier_acked d n" and "mu_state m \<noteq> Acked" and "mu_state n \<noteq> Acked"
    and "mu_skill_id m = mu_skill_id n"
  shows "m = n"
proof -
  have "mu_local_sequence m = mu_local_sequence n"
    using earlier_acked_blocks [OF assms(4,3)] earlier_acked_blocks [OF assms(5,2)] assms(6-8) by auto
  then show ?thesis using schema_sequence_unique assms(1-3,8) by blast
qed

lemma dispatchable_rows_one_per_skill:
  assumes "schema_ok d" shows "distinct (map mu_skill_id (dispatchable_rows limit now d))"
proof -
  let ?rows = "dispatchable_rows limit now d"
  have "inj_on mu_skill_id (set ?rows)"
  proof (rule inj_onI)
    fix m n assume "m \<in> set ?rows" "n \<in> set ?rows" "mu_skill_id m = mu_skill_id n"
    then show "m = n"
      using set_dispatchable_rows unacked_with_earlier_acked_unique [OF assms, of m n]
      by (force simp: dispatchable_def queued_state_def)
  qed
  moreover have "distinct ?rows" using distinct_dispatchable_rows [OF assms] by (simp add: distinct_map)
  ultimately show ?thesis by (simp add: distinct_map)
qed

text \<open>C18: A claim is exact. When the retry counts are within \<open>u32\<close> it cannot fail: it hands out the
  first \<open>limit\<close> dispatchable mutations by creation time and id, each marked in flight, at most one
  per skill, and changes no other row and no other table.\<close>

theorem claim_hands_out_the_oldest_work:
  assumes "schema_ok d" and "list_all readable (mutations d)"
  shows "claim_dispatchable_mutations limit now d
         = Inr (d\<lparr>mutations := map (\<lambda>m. if m \<in> set (dispatchable_rows limit now d) then claimed_row now m else m) (mutations d)\<rparr>,
                map (local_of \<circ> claimed_row now) (dispatchable_rows limit now d))
         \<and> distinct (map mu_skill_id (dispatchable_rows limit now d))"
proof -
  let ?rows = "dispatchable_rows limit now d"
  have "mu_id m \<in> mu_id ` set ?rows \<longleftrightarrow> m \<in> set ?rows" if "m \<in> set (mutations d)" for m
    using that set_dispatchable_rows mutation_id_iff [OF assms(1)] by (metis (no_types, lifting) imageE imageI)
  then show ?thesis
    using claim_exact [OF assms] dispatchable_rows_one_per_skill [OF assms(1)]
    by (auto simp: claim_ids_def update_mutations_def sql_update_def)
qed

theorem claim_hands_out_the_oldest_work_witness:
  "map lm_id (snd (projr (claim_dispatchable_mutations 10 20 (sample_store Pending)))) = [''m2'', ''m4'']
   \<and> map mu_state (mutations (fst (projr (claim_dispatchable_mutations 10 20 (sample_store Pending)))))
     = [Acked, InFlight, Pending, InFlight]"
proof -
  have "schema_ok (sample_store Pending)" "list_all readable (mutations (sample_store Pending))" by code_simp+
  from claim_hands_out_the_oldest_work [OF this, of 10 20] show ?thesis by simp code_simp
qed

text \<open>C17: Claims respect causality: after a claim, and in every state the outbox contract reaches,
  a mutation in flight has every earlier mutation of its skill acked, so each skill has at most one
  mutation in flight.\<close>

theorem in_flight_is_causal:
  assumes "outbox_inv d" and "claim_dispatchable_mutations limit now d = Inr (d', claimed)"
    and "m \<in> set (mutations d')" and "mu_state m = InFlight"
  shows "(\<forall>e \<in> set (mutations d'). mu_skill_id e = mu_skill_id m \<and> mu_local_sequence e < mu_local_sequence m
            \<longrightarrow> mu_state e = Acked)
         \<and> (\<forall>n \<in> set (mutations d'). mu_skill_id n = mu_skill_id m \<and> mu_state n = InFlight \<longrightarrow> n = m)"
proof -
  have inv: "outbox_inv d'" using claim_op.run_inv [of d "(limit, now)" d' claimed] assms(1,2) by simp
  then have ok: "schema_ok d'" and ea: "n \<in> set (mutations d') \<Longrightarrow> mu_state n = InFlight \<Longrightarrow> earlier_acked d' n" for n
    by (auto simp: outbox_inv_def causal_def)
  show ?thesis
    using ea [OF assms(3,4)] unacked_with_earlier_acked_unique [OF ok _ assms(3) ea ea [OF assms(3,4)]] assms(4)
    by (auto simp: earlier_acked_iff)
qed

theorem in_flight_is_causal_witness:
  "let d' = fst (projr (claim_dispatchable_mutations 10 20 (sample_store Pending)));
       m = claimed_row 20 (sample_mutation ''m2'' ''s1'' 2 Pending) in
   (\<forall>e \<in> set (mutations d'). mu_skill_id e = mu_skill_id m \<and> mu_local_sequence e < mu_local_sequence m
       \<longrightarrow> mu_state e = Acked)
   \<and> (\<forall>n \<in> set (mutations d'). mu_skill_id n = mu_skill_id m \<and> mu_state n = InFlight \<longrightarrow> n = m)"
  unfolding Let_def
proof (rule in_flight_is_causal [where limit = 10 and now = 20])
  show "outbox_inv (sample_store Pending)" by code_simp
  show "claim_dispatchable_mutations 10 20 (sample_store Pending)
    = Inr (fst (projr (claim_dispatchable_mutations 10 20 (sample_store Pending))),
           snd (projr (claim_dispatchable_mutations 10 20 (sample_store Pending))))" by code_simp
  show "claimed_row 20 (sample_mutation ''m2'' ''s1'' 2 Pending)
    \<in> set (mutations (fst (projr (claim_dispatchable_mutations 10 20 (sample_store Pending)))))" by code_simp
qed (simp add: claimed_row_def)

section \<open>Commits and queued deletes\<close>

lemma validate_edit_Inr:
  "validate_edit e = Inr () \<longleftrightarrow> \<not> is_blank (ed_skill_id e) \<and> \<not> is_blank (ed_name e) \<and> \<not> is_blank (ed_slug e)
     \<and> \<not> is_blank (ed_blob_hash e) \<and> is_absolute (ed_workspace_path e) \<and> valid_utf8 (ed_workspace_path e)
     \<and> \<not> negative (ed_base_revision e)"
  by (auto simp: validate_edit_def result_simps)

lemma negative_iff: "negative r = (\<not> non_negative r)"
  by (auto simp: negative_def non_negative_def split: option.splits)

lemma schema_ok_upsert_edited:
  assumes "schema_ok d" and "\<not> negative (ed_base_revision e)"
  shows "schema_ok (upsert_edited_skill e now d) \<longleftrightarrow>
    (\<forall>r \<in> set (skills d). ed_remote_id e \<noteq> None \<longrightarrow> sk_remote_id r = ed_remote_id e \<longrightarrow> sk_id r = ed_skill_id e)"
  unfolding upsert_edited_skill_def
  by (rule schema_ok_skills_upsert [OF assms(1)])
    (use assms(2) in \<open>auto simp: edited_skill_row_def new_skill_row_def skill_check_def negative_iff coalesce_def split: option.splits\<close>)

lemma upserted_skill_exists: "ed_skill_id e \<in> sk_id ` set (skills (upsert_edited_skill e now d))"
proof -
  have "ed_skill_id e \<in> set (map sk_id (skills (upsert_edited_skill e now d)))"
    using map_key_sql_upsert [of "\<lambda>r. sk_id r = ed_skill_id e" sk_id "edited_skill_row e now" "new_skill_row e now" "skills d"]
    by (auto simp: upsert_edited_skill_def list_ex_iff new_skill_row_def edited_skill_row_def intro: rev_image_eqI)
  then show ?thesis by simp
qed

lemma next_local_sequence_upsert [simp]: "next_local_sequence (upsert_edited_skill e now d) = next_local_sequence d"
  by (rule next_local_sequence_cong) simp

text \<open>Committing an edit is atomic and fails exactly on an invalid edit, a delete operation, a
  reused mutation id, or a remote id that another local skill owns. Otherwise the skill row becomes
  dirty with the edited content and one pending mutation is appended whose sequence is greater
  than every earlier one of the skill; no other mutation and no other skill changes.\<close>

theorem commit_skill_edit_spec:
  assumes "schema_ok d"
  shows "commit_skill_edit e i now d =
    (case validate_edit e of Inl err \<Rightarrow> Inl err | Inr _ \<Rightarrow>
     if ed_operation e = Delete then Inl (InvalidInput ''delete mutations must use queue_skill_delete'')
     else if (\<exists>r \<in> set (skills d). ed_remote_id e \<noteq> None \<and> sk_remote_id r = ed_remote_id e \<and> sk_id r \<noteq> ed_skill_id e)
             \<or> i \<in> mu_id ` set (mutations d)
       then Inl (Database ConstraintViolation)
     else Inr (d\<lparr>skills := sql_upsert (\<lambda>r. sk_id r = ed_skill_id e) (new_skill_row e now) (edited_skill_row e now) (skills d),
                 mutations := mutations d @ [queued_row i (ed_skill_id e) (next_local_sequence d (ed_skill_id e))
                   (ed_operation e) (ed_base_revision e) (ed_blob_hash e) now]\<rparr>,
               queued_mutation i (ed_skill_id e) (nat (next_local_sequence d (ed_skill_id e)))
                 (ed_operation e) (ed_base_revision e) (ed_blob_hash e)))
    \<and> (\<forall>m \<in> set (mutations d). mu_skill_id m = ed_skill_id e \<longrightarrow>
         mu_local_sequence m < next_local_sequence d (ed_skill_id e))"
proof -
  let ?d1 = "upsert_edited_skill e now d" and ?q = "next_local_sequence d (ed_skill_id e)"
  let ?m = "queued_row i (ed_skill_id e) ?q (ed_operation e) (ed_base_revision e) (ed_blob_hash e) now"
  have pos: "0 < ?q" using assms by (rule next_local_sequence_pos)
  show ?thesis
  proof (cases "validate_edit e = Inr () \<and> ed_operation e \<noteq> Delete")
    case False
    then show ?thesis
      using next_local_sequence_greater by (cases "validate_edit e") (auto simp: commit_skill_edit_def)
  next
    case True
    then have base: "\<not> negative (ed_base_revision e)" by (simp add: validate_edit_Inr)
    note up = schema_ok_upsert_edited [OF assms base, of now]
    have ins: "schema_ok (insert_mutation ?m ?d1) \<longleftrightarrow> i \<notin> mu_id ` set (mutations d)" if "schema_ok ?d1"
      using pos base next_sequence_fresh [of "ed_skill_id e" d] upserted_skill_exists [of e now d]
      unfolding schema_ok_insert_mutation [OF that]
      by (simp add: mutation_check_def queued_row_def negative_iff non_negative_def)
    have eq: "insert_mutation ?m ?d1 = d\<lparr>skills := sql_upsert (\<lambda>r. sk_id r = ed_skill_id e) (new_skill_row e now) (edited_skill_row e now) (skills d),
                 mutations := mutations d @ [?m]\<rparr>"
      by (simp add: insert_mutation_def upsert_edited_skill_def)
    show ?thesis
    proof (cases "schema_ok ?d1")
      case False
      with up True show ?thesis
        using next_local_sequence_greater by (auto simp: commit_skill_edit_def exec_def)
    next
      case ok1: True
      show ?thesis
        using True ok1 up ins [OF ok1] eq next_local_sequence_greater pos
        by (auto simp: commit_skill_edit_def exec_def Let_def checked_local_sequence_def)
    qed
  qed
qed

definition sample_edit :: skill_edit where
  "sample_edit = \<lparr>ed_skill_id = ''s1'', ed_remote_id = Some ''r1'', ed_name = ''New'', ed_slug = ''new'',
     ed_workspace_path = ''/w/s1'', ed_blob_hash = ''cc'', ed_base_revision = Some 4, ed_operation = Update\<rparr>"

theorem commit_skill_edit_spec_witness:
  "map mu_id (mutations (fst (projr (commit_skill_edit sample_edit ''m9'' 30 (sample_store Pending)))))
     = [''m1'', ''m2'', ''m3'', ''m4'', ''m9'']
   \<and> lm_local_sequence (snd (projr (commit_skill_edit sample_edit ''m9'' 30 (sample_store Pending)))) = 4"
proof -
  have "schema_ok (sample_store Pending)" by code_simp
  note spec = conjunct1 [OF commit_skill_edit_spec [OF this, of sample_edit "''m9''" 30]]
  show ?thesis unfolding spec by code_simp
qed

text \<open>Queueing a delete fails exactly on a blank id, a negative base revision, an unknown skill or a
  reused mutation id. Otherwise the skill row stays, with its content, marked dirty, and one
  pending delete carrying the current content hash is appended after all earlier mutations.\<close>

theorem queue_skill_delete_spec:
  assumes "schema_ok d"
  shows "queue_skill_delete skill base i now d =
    (if is_blank skill then Inl (InvalidInput ''skill_id must not be empty'')
     else if negative base then Inl (InvalidInput ''base_revision must not be negative'')
     else case sql_find (\<lambda>r. sk_id r = skill) (skills d) of
       None \<Rightarrow> Inl (SkillNotFound skill)
     | Some r \<Rightarrow>
         if i \<in> mu_id ` set (mutations d) then Inl (Database ConstraintViolation)
         else Inr (d\<lparr>skills := map (\<lambda>x. if x = r then r\<lparr>sk_sync_state := Dirty, sk_updated_at := now\<rparr> else x) (skills d),
                      mutations := mutations d @ [queued_row i skill (next_local_sequence d skill) Delete base
                        (sk_current_blob_hash r) now]\<rparr>,
                   queued_mutation i skill (nat (next_local_sequence d skill)) Delete base (sk_current_blob_hash r)))"
proof (cases "sql_find (\<lambda>r. sk_id r = skill) (skills d)")
  case None
  then show ?thesis by (simp add: queue_skill_delete_def validate_non_empty_def ensure_def)
next
  case (Some r)
  let ?P = "\<lambda>r. sk_id r = skill" and ?f = "\<lambda>r. r\<lparr>sk_sync_state := Dirty, sk_updated_at := now\<rparr>"
  let ?d1 = "update_skills ?P ?f d" and ?q = "next_local_sequence d skill"
  let ?m = "queued_row i skill ?q Delete base (sk_current_blob_hash r) now"
  have r: "r \<in> set (skills d)" "sk_id r = skill" using sql_find_Some [OF Some] by auto
  have P: "?P x \<longleftrightarrow> x = r" if "x \<in> set (skills d)" for x
    using schema_skill_unique [OF assms that r(1)] r(2) by auto
  have skills1: "skills ?d1 = map (\<lambda>x. if x = r then ?f r else x) (skills d)"
    using P by (auto simp: sql_update_def)
  have ok1: "schema_ok ?d1" using assms by (rule schema_ok_update_skills) (simp_all add: skill_check_def)
  have q: "next_local_sequence ?d1 skill = ?q" "0 < ?q"
    using next_local_sequence_cong [of ?d1 d] next_local_sequence_pos [OF assms] by auto
  have "skill \<in> sk_id ` set (skills ?d1)" using r P by (force simp: set_sql_update image_iff)
  then have ins: "schema_ok (insert_mutation ?m ?d1) \<longleftrightarrow> i \<notin> mu_id ` set (mutations d)" if "\<not> negative base"
    unfolding schema_ok_insert_mutation [OF ok1] using that q next_sequence_fresh [of skill d]
    by (simp add: mutation_check_def queued_row_def negative_iff non_negative_def)
  have eq: "insert_mutation ?m ?d1 = d\<lparr>skills := map (\<lambda>x. if x = r then ?f r else x) (skills d), mutations := mutations d @ [?m]\<rparr>"
    using skills1 by (simp add: insert_mutation_def update_skills_def)
  show ?thesis
    using Some ok1 q ins eq
    by (auto simp: queue_skill_delete_def validate_non_empty_def ensure_def exec_def Let_def checked_local_sequence_def)
qed

theorem queue_skill_delete_spec_witness:
  "map mu_operation (mutations (fst (projr (queue_skill_delete ''s1'' (Some 4) ''m9'' 30 (sample_store Pending)))))
     = [Update, Update, Update, Update, Delete]
   \<and> queue_skill_delete ''s3'' (Some 4) ''m9'' 30 (sample_store Pending) = Inl (SkillNotFound ''s3'')"
proof -
  have "schema_ok (sample_store Pending)" by code_simp
  note spec = queue_skill_delete_spec [OF this, of _ "Some 4" "''m9''" 30]
  show ?thesis unfolding spec by code_simp
qed

section \<open>Recovery\<close>

text \<open>Recovery after a crash always succeeds; nothing stays in flight, every mutation that was in
  flight is queued again with the same work and dispatchable at any time, every other row is left
  alone, and a second recovery changes nothing.\<close>

theorem recovery_requeues_in_flight:
  assumes "outbox_inv d"
  shows "\<exists>d'. recover_in_flight_mutations now d = Inr (d', sql_count (\<lambda>m. mu_state m = InFlight) (mutations d))
    \<and> outbox_inv d' \<and> (\<forall>m \<in> set (mutations d'). mu_state m \<noteq> InFlight)
    \<and> (\<forall>m \<in> set (mutations d). mu_state m = InFlight \<longrightarrow>
         (\<exists>n \<in> set (mutations d'). same_work m n \<and> dispatchable t d' n))
    \<and> (\<forall>m \<in> set (mutations d). mu_state m \<noteq> InFlight \<longrightarrow> m \<in> set (mutations d'))
    \<and> recover_in_flight_mutations later d' = Inr (d', 0)"
proof -
  let ?d' = "update_mutations (\<lambda>m. mu_state m = InFlight) (recovered_row now) d"
  have inv: "outbox_inv ?d'" using recover_requeued [OF assms] by (simp add: outbox_step_def)
  have none: "\<forall>m \<in> set (mutations ?d'). mu_state m \<noteq> InFlight"
    by (auto simp: set_sql_update recovered_row_def)
  have "dispatchable t ?d' (recovered_row now m)" if "m \<in> set (mutations d)" "mu_state m = InFlight" for m
  proof -
    have "earlier_acked d m" using that assms by (simp add: outbox_inv_def causal_def)
    then have "earlier_acked ?d' (recovered_row now m)"
      unfolding earlier_acked_iff by (auto simp: set_sql_update recovered_row_def)
    then show ?thesis by (simp add: dispatchable_def queued_state_def recovered_row_def)
  qed
  moreover have "same_work m (recovered_row now m)" for m by (simp add: same_work_def recovered_row_def)
  moreover have "recover_in_flight_mutations later ?d' = Inr (?d', 0)"
    using recover_exact [OF inv] none sql_update_unmatched [of "mutations ?d'" "\<lambda>m. mu_state m = InFlight"]
    by (simp add: sql_count_eq_0 update_mutations_def)
  moreover have "recovered_row now m \<in> set (mutations ?d')" if "m \<in> set (mutations d)" "mu_state m = InFlight" for m
    using that by (auto simp: set_sql_update)
  moreover have "m \<in> set (mutations ?d')" if "m \<in> set (mutations d)" "mu_state m \<noteq> InFlight" for m
    using that by (auto simp: set_sql_update)
  ultimately show ?thesis
    using recover_exact [OF assms, of now] inv none by blast
qed

theorem recovery_requeues_in_flight_witness:
  "\<exists>d'. recover_in_flight_mutations 40 (sample_store InFlight) = Inr (d', 1)
     \<and> recover_in_flight_mutations 50 d' = Inr (d', 0)"
proof -
  have "outbox_inv (sample_store InFlight)" by code_simp
  moreover have "sql_count (\<lambda>m. mu_state m = InFlight) (mutations (sample_store InFlight)) = 1" by code_simp
  ultimately show ?thesis using recovery_requeues_in_flight [of "sample_store InFlight" 40 0 50] by auto
qed

end
