(* ===== verification/Outcomes.thy ===== *)
theory Outcomes
  imports Outbox Samples
begin

text \<open>
  Applying the server's answer to a mutation (\<open>local_store/outcomes.rs\<close>): the acknowledgement
  transaction, the definitive errors, and the transport failure with its bounded exponential
  backoff. A \<open>MutationOutcome\<close> carries its status as the string the protocol sends, so an unknown
  status is a case of the model.
\<close>

record outcome =
  oc_mutation_id :: string
  oc_status :: string
  oc_remote_skill_id :: "string option"
  oc_revision :: "int option"
  oc_conflict_head_revision :: "int option"
  oc_conflict_manifest_hash :: "string option"
  oc_error_code :: "string option"
  oc_message :: "string option"

record outcome_applied =
  oa_mutation_state :: mutation_state
  oa_skill_state :: "skill_sync_state option"

definition transport_error :: "string \<Rightarrow> string \<Rightarrow> string \<Rightarrow> outcome" where
  "transport_error mutation_id error_code message =
     \<lparr>oc_mutation_id = mutation_id, oc_status = ''transport_error'', oc_remote_skill_id = None,
      oc_revision = None, oc_conflict_head_revision = None, oc_conflict_manifest_hash = None,
      oc_error_code = Some error_code, oc_message = Some message\<rparr>"

text \<open>\<open>2.saturating_pow(min(retry_count, 6)).min(64)\<close> on \<open>u64\<close>\<close>

definition saturating_pow_u64 :: "nat \<Rightarrow> nat \<Rightarrow> nat" where
  "saturating_pow_u64 base e = min (base ^ e) (2 ^ 64 - 1)"

definition backoff_seconds :: "nat \<Rightarrow> nat" where
  "backoff_seconds retry_count = min (saturating_pow_u64 2 (min retry_count 6)) 64"

definition mutation_state_str :: "string \<Rightarrow> string" where
  "mutation_state_str status =
     (if status = ''acked'' then ''acked''
      else if status = ''conflict'' then ''conflict''
      else if status = ''permission_denied'' then ''permission_denied''
      else if status = ''validation_error'' then ''permanent_error''
      else ''retryable_error'')"

definition read_skill_state :: "store \<Rightarrow> string \<Rightarrow> skill_sync_state option" where
  "read_skill_state d skill = map_option sk_sync_state (sql_find (\<lambda>r. sk_id r = skill) (skills d))"

text \<open>\<open>mutation_row\<close>: the skill, the state and the retry count of a mutation\<close>

definition outcome_target :: "store \<Rightarrow> string \<Rightarrow> store_error + (mutation_row \<times> nat) option" where
  "outcome_target d i =
     (case sql_find (\<lambda>m. mu_id m = i) (mutations d) of
        None \<Rightarrow> Inr None
      | Some m \<Rightarrow> and_then (read_u32 (mu_retry_count m) ''retry_count'') (\<lambda>n. Inr (Some (m, n))))"

definition acked_row :: "outcome \<Rightarrow> int \<Rightarrow> int \<Rightarrow> mutation_row \<Rightarrow> mutation_row" where
  "acked_row oc revision now m = m\<lparr>mu_state := Acked, mu_ack_remote_revision := Some revision,
     mu_ack_remote_id := coalesce (oc_remote_skill_id oc) (mu_ack_remote_id m),
     mu_next_attempt_at := None, mu_server_error_code := None, mu_server_error_details := None,
     mu_last_error := None, mu_updated_at := now\<rparr>"

definition acked_skill_row :: "outcome \<Rightarrow> int \<Rightarrow> int \<Rightarrow> skill_row \<Rightarrow> skill_row" where
  "acked_skill_row oc revision now r = r\<lparr>sk_remote_id := coalesce (oc_remote_skill_id oc) (sk_remote_id r),
     sk_remote_revision := Some revision, sk_remote_blob_hash := None, sk_updated_at := now\<rparr>"

definition all_acked :: "store \<Rightarrow> string \<Rightarrow> bool" where
  "all_acked d skill \<longleftrightarrow> \<not> list_ex (\<lambda>m. mu_skill_id m = skill \<and> mu_state m \<noteq> Acked) (mutations d)"

definition apply_acked :: "string \<Rightarrow> outcome \<Rightarrow> int \<Rightarrow> int \<Rightarrow> store \<Rightarrow> store_error + store" where
  "apply_acked skill oc revision now d =
     and_then (exec (update_mutations (\<lambda>m. mu_id m = oc_mutation_id oc) (acked_row oc revision now)) d) (\<lambda>d1.
     and_then (exec (update_skills (\<lambda>r. sk_id r = skill) (acked_skill_row oc revision now)) d1) (\<lambda>d2.
     exec (update_skills (\<lambda>r. sk_id r = skill \<and> sk_sync_state r \<in> {Dirty, Uploading, SyncError, Conflict}
                            \<and> all_acked d2 (sk_id r))
             (\<lambda>r. r\<lparr>sk_sync_state := Synced, sk_updated_at := now\<rparr>)) d2))"

definition failed_row :: "outcome \<Rightarrow> mutation_state \<Rightarrow> int \<Rightarrow> mutation_row \<Rightarrow> mutation_row" where
  "failed_row oc st now m = m\<lparr>mu_state := st, mu_next_attempt_at := None,
     mu_server_error_code := oc_error_code oc, mu_server_error_details := oc_message oc,
     mu_last_error := oc_message oc, mu_updated_at := now\<rparr>"

definition failed_skill_row :: "outcome \<Rightarrow> skill_sync_state \<Rightarrow> int \<Rightarrow> skill_row \<Rightarrow> skill_row" where
  "failed_skill_row oc st now r = r\<lparr>
     sk_remote_revision := coalesce (oc_conflict_head_revision oc) (sk_remote_revision r),
     sk_remote_blob_hash := (if st = Conflict
        then coalesce (oc_conflict_manifest_hash oc) (sk_remote_blob_hash r) else sk_remote_blob_hash r),
     sk_sync_state := st, sk_updated_at := now\<rparr>"

definition apply_definitive_error ::
  "string \<Rightarrow> outcome \<Rightarrow> mutation_state \<Rightarrow> skill_sync_state \<Rightarrow> int \<Rightarrow> store \<Rightarrow> store_error + store" where
  "apply_definitive_error skill oc mutation_state skill_state now d =
     and_then (exec (update_mutations (\<lambda>m. mu_id m = oc_mutation_id oc) (failed_row oc mutation_state now)) d) (\<lambda>d1.
     exec (update_skills (\<lambda>r. sk_id r = skill) (failed_skill_row oc skill_state now)) d1)"

definition backed_off_row :: "outcome \<Rightarrow> nat \<Rightarrow> int \<Rightarrow> mutation_row \<Rightarrow> mutation_row" where
  "backed_off_row oc seconds now m = m\<lparr>mu_state := RetryableError, mu_retry_count := mu_retry_count m + 1,
     mu_next_attempt_at := Some (now + int seconds), mu_server_error_code := oc_error_code oc,
     mu_server_error_details := oc_message oc, mu_last_error := oc_message oc, mu_updated_at := now\<rparr>"

definition apply_status :: "mutation_row \<Rightarrow> nat \<Rightarrow> outcome \<Rightarrow> int \<Rightarrow> store \<Rightarrow> store_error + store" where
  "apply_status raw retry_count oc now d =
     (let status = oc_status oc; skill = mu_skill_id raw in
      if status = ''acked'' then
        and_then (ok_or (oc_revision oc)
            (InvalidPersistedState (''acked outcome for '' @ oc_mutation_id oc @ '' has no revision'')))
          (\<lambda>revision. apply_acked skill oc revision now d)
      else if status = ''conflict'' then apply_definitive_error skill oc MutationConflict Conflict now d
      else if status = ''permission_denied'' then
        apply_definitive_error skill oc PermissionDenied AccessRevoked now d
      else if status = ''validation_error'' then
        apply_definitive_error skill oc PermanentError SyncError now d
      else if status = ''transport_error'' then
        exec (update_mutations (\<lambda>m. mu_id m = oc_mutation_id oc)
                (backed_off_row oc (backoff_seconds retry_count) now)) d
      else Inl (InvalidPersistedState
        (''unknown mutation outcome status '' @ [CHR 0x27] @ status @ [CHR 0x27] @ '' for '' @ oc_mutation_id oc)))"

definition apply_mutation_outcome ::
  "outcome \<Rightarrow> int \<Rightarrow> store \<Rightarrow> store_error + (store \<times> outcome_applied)" where
  "apply_mutation_outcome oc now d =
     and_then (outcome_target d (oc_mutation_id oc)) (\<lambda>target.
     and_then (ok_or target (OutboxClaimLost (oc_mutation_id oc))) (\<lambda>(raw, retry_count).
     if mu_state raw = Acked then
       Inr (d, \<lparr>oa_mutation_state = Acked, oa_skill_state = read_skill_state d (mu_skill_id raw)\<rparr>)
     else
       and_then (apply_status raw retry_count oc now d) (\<lambda>d'.
       and_then (mutation_state_from_db_str (mutation_state_str (oc_status oc))) (\<lambda>st.
       Inr (d', \<lparr>oa_mutation_state = st, oa_skill_state = read_skill_state d' (mu_skill_id raw)\<rparr>)))))"

section \<open>Backoff\<close>

lemma backoff_seconds_eq [code]: "backoff_seconds n = 2 ^ min n 6"
proof -
  have "(2::nat) ^ min n 6 \<le> 2 ^ 6" by (rule power_increasing) auto
  then show ?thesis by (simp add: backoff_seconds_def saturating_pow_u64_def min_def)
qed

section \<open>The outbox contract\<close>

lemma outcome_rows_same_work [simp]:
  "same_work m (acked_row oc revision now m)" "same_work m (failed_row oc st now m)"
  "same_work m (backed_off_row oc n now m)"
  by (simp_all add: same_work_def acked_row_def failed_row_def backed_off_row_def)

lemma outcome_rows_state [simp]:
  "mu_state (acked_row oc revision now m) = Acked" "mu_state (failed_row oc st now m) = st"
  "mu_state (backed_off_row oc n now m) = RetryableError"
  by (simp_all add: acked_row_def failed_row_def backed_off_row_def)

lemma exec_mutations_step:
  assumes "outbox_inv d" and "exec (update_mutations P f) d = Inr d'" and "\<And>m. P m \<Longrightarrow> same_work m (f m)"
    and "\<And>m. m \<in> set (mutations d) \<Longrightarrow> P m \<Longrightarrow> mu_state m = Acked \<Longrightarrow> mu_state (f m) = Acked"
    and "\<And>m. P m \<Longrightarrow> mu_state (f m) \<noteq> InFlight"
  shows "outbox_step d d'"
  using outbox_step_mutations [of d P f] assms by (auto simp: exec_Inr_iff)

lemma exec_skills_step:
  "outbox_inv d \<Longrightarrow> exec (update_skills P f) d = Inr d' \<Longrightarrow> outbox_step d d'"
  by (auto simp: exec_Inr_iff intro: outbox_step_other_table)

lemma apply_acked_step:
  assumes "outbox_inv d" and "apply_acked skill oc revision now d = Inr d'"
  shows "outbox_step d d'"
proof -
  obtain d1 d2 where d1: "exec (update_mutations (\<lambda>m. mu_id m = oc_mutation_id oc) (acked_row oc revision now)) d = Inr d1"
    and d2: "exec (update_skills (\<lambda>r. sk_id r = skill) (acked_skill_row oc revision now)) d1 = Inr d2"
    and d3: "exec (update_skills (\<lambda>r. sk_id r = skill \<and> sk_sync_state r \<in> {Dirty, Uploading, SyncError, Conflict}
                            \<and> all_acked d2 (sk_id r))
             (\<lambda>r. r\<lparr>sk_sync_state := Synced, sk_updated_at := now\<rparr>)) d2 = Inr d'"
    using assms(2) unfolding apply_acked_def and_then_Inr_iff by blast
  have s1: "outbox_step d d1" by (rule exec_mutations_step [OF assms(1) d1]) auto
  have s2: "outbox_step d1 d2" using exec_skills_step [OF outbox_step_inv [OF s1] d2] .
  have s3: "outbox_step d2 d'" using exec_skills_step [OF outbox_step_inv [OF s2] d3] .
  show ?thesis using s1 s2 s3 by (blast intro: outbox_step_trans)
qed

lemma apply_definitive_error_step:
  assumes "outbox_inv d" and "apply_definitive_error skill oc st sst now d = Inr d'" and "st \<noteq> InFlight"
    and "\<And>m. m \<in> set (mutations d) \<Longrightarrow> mu_id m = oc_mutation_id oc \<Longrightarrow> mu_state m \<noteq> Acked"
  shows "outbox_step d d'"
proof -
  obtain d1 where d1: "exec (update_mutations (\<lambda>m. mu_id m = oc_mutation_id oc) (failed_row oc st now)) d = Inr d1"
    and d2: "exec (update_skills (\<lambda>r. sk_id r = skill) (failed_skill_row oc sst now)) d1 = Inr d'"
    using assms(2) unfolding apply_definitive_error_def and_then_Inr_iff by blast
  have s1: "outbox_step d d1" by (rule exec_mutations_step [OF assms(1) d1]) (use assms(3,4) in auto)
  then show ?thesis using exec_skills_step [OF outbox_step_inv [OF s1] d2] by (blast intro: outbox_step_trans)
qed

lemma apply_status_step:
  assumes "outbox_inv d" and "apply_status raw n oc now d = Inr d'"
    and "\<And>m. m \<in> set (mutations d) \<Longrightarrow> mu_id m = oc_mutation_id oc \<Longrightarrow> mu_state m \<noteq> Acked"
  shows "outbox_step d d'"
  using assms(2) apply_acked_step [OF assms(1)] apply_definitive_error_step [OF assms(1) _ _ assms(3)]
    exec_mutations_step [OF assms(1), of "\<lambda>m. mu_id m = oc_mutation_id oc" "backed_off_row oc (backoff_seconds n) now" d'] assms(3)
  by (auto simp: apply_status_def Let_def result_simps split: if_splits)

text \<open>What a successful outcome did: nothing to an acked mutation, one status otherwise.\<close>

lemma apply_mutation_outcome_Inr:
  assumes "apply_mutation_outcome oc now d = Inr (d', r)"
  obtains m where "m \<in> set (mutations d)" "mu_id m = oc_mutation_id oc" "mu_state m = Acked" "d' = d"
  | m n where "m \<in> set (mutations d)" "mu_id m = oc_mutation_id oc" "mu_state m \<noteq> Acked"
      "n = nat (mu_retry_count m)" "apply_status m n oc now d = Inr d'"
proof -
  obtain m where m: "sql_find (\<lambda>m. mu_id m = oc_mutation_id oc) (mutations d) = Some m"
    and n: "read_u32 (mu_retry_count m) ''retry_count'' = Inr (nat (mu_retry_count m))"
    and "if mu_state m = Acked then d' = d else apply_status m (nat (mu_retry_count m)) oc now d = Inr d'"
    using assms by (auto simp: apply_mutation_outcome_def outcome_target_def result_simps read_u32_def split: option.splits if_splits)
  then show ?thesis using that sql_find_Some [OF m] by (auto split: if_splits)
qed

interpretation outcome_op: outbox_operation "\<lambda>(oc, now). apply_mutation_outcome oc now"
proof
  fix a :: "outcome \<times> int" and d d' r
  obtain oc now where a: "a = (oc, now)" by (cases a)
  assume inv: "outbox_inv d" and "(case a of (oc, now) \<Rightarrow> apply_mutation_outcome oc now) d = Inr (d', r)"
  then have run: "apply_mutation_outcome oc now d = Inr (d', r)" and ok: "schema_ok d"
    by (simp_all add: a outbox_inv_def)
  have "outbox_step d d'"
    using run
  proof (cases rule: apply_mutation_outcome_Inr)
    case 1
    then show ?thesis using inv by (simp add: outbox_step_refl)
  next
    case (2 m n)
    then show ?thesis using apply_status_step [OF inv] mutation_id_iff [OF ok] by metis
  qed
  then show "outbox_inv d'" and "kept d d'" by (auto intro: outbox_step_inv outbox_step_kept)
qed

section \<open>Outcomes on every status\<close>

lemma update_mutation_by_id:
  assumes "schema_ok d" and "m \<in> set (mutations d)"
  shows "update_mutations (\<lambda>x. mu_id x = mu_id m) f d = d\<lparr>mutations := map (\<lambda>x. if x = m then f m else x) (mutations d)\<rparr>"
  using mutation_id_iff [OF assms] by (auto simp: update_mutations_def sql_update_def)

lemma outcome_target_readable:
  assumes "schema_ok d" and "m \<in> set (mutations d)" and "readable m" and "oc_mutation_id oc = mu_id m"
  shows "outcome_target d (oc_mutation_id oc) = Inr (Some (m, nat (mu_retry_count m)))"
  using assms schema_find_mutation [OF assms(1,2)]
  by (simp add: outcome_target_def read_u32_def readable_def mutation_check_def)

lemma apply_outcome_readable:
  assumes "schema_ok d" and "m \<in> set (mutations d)" and "readable m" and "oc_mutation_id oc = mu_id m" and "mu_state m \<noteq> Acked"
  shows "apply_mutation_outcome oc now d =
     and_then (apply_status m (nat (mu_retry_count m)) oc now d) (\<lambda>d'.
     and_then (mutation_state_from_db_str (mutation_state_str (oc_status oc))) (\<lambda>st.
     Inr (d', \<lparr>oa_mutation_state = st, oa_skill_state = read_skill_state d' (mu_skill_id m)\<rparr>)))"
  using outcome_target_readable [OF assms(1-4)] assms(4,5) by (simp add: apply_mutation_outcome_def)








definition ack_of_m4 :: outcome where
  "ack_of_m4 = \<lparr>oc_mutation_id = ''m4'', oc_status = ''acked'', oc_remote_skill_id = Some ''r2'',
     oc_revision = Some 1, oc_conflict_head_revision = None, oc_conflict_manifest_hash = None,
     oc_error_code = None, oc_message = None\<rparr>"


text \<open>A conflict, a denied permission and a validation error are final for the mutation and are
  shown on the skill as conflict, access revoked or sync error. The local content of the skill is
  kept, a conflict records the server's head revision and package hash, and no other row changes.\<close>

theorem definitive_errors_keep_local_content:
  assumes "schema_ok d" and "m \<in> set (mutations d)" and "readable m" and "mu_state m \<noteq> Acked"
    and "oc_mutation_id oc = mu_id m" and "non_negative (oc_conflict_head_revision oc)"
    and "(oc_status oc, st, sst) \<in> {(''conflict'', MutationConflict, Conflict),
           (''permission_denied'', PermissionDenied, AccessRevoked), (''validation_error'', PermanentError, SyncError)}"
  shows "\<exists>d'. apply_mutation_outcome oc now d
         = Inr (d', \<lparr>oa_mutation_state = st, oa_skill_state = Some sst\<rparr>)
       \<and> d' = d\<lparr>mutations := map (\<lambda>x. if x = m then failed_row oc st now m else x) (mutations d),
               skills := map (\<lambda>r. if sk_id r = mu_skill_id m then failed_skill_row oc sst now r else r) (skills d)\<rparr>
       \<and> map sk_current_blob_hash (skills d') = map sk_current_blob_hash (skills d)
       \<and> (\<forall>t. \<forall>x \<in> set (mutations d'). mu_id x = mu_id m \<longrightarrow> \<not> dispatchable t d' x)"
proof -
  let ?s = "mu_skill_id m"
  let ?d1 = "update_mutations (\<lambda>x. mu_id x = oc_mutation_id oc) (failed_row oc st now) d"
  let ?d2 = "update_skills (\<lambda>r. sk_id r = ?s) (failed_skill_row oc sst now) ?d1"
  have ok1: "schema_ok ?d1"
    using assms(1) by (intro schema_ok_update_mutations) (auto simp: failed_row_def mutation_check_def)
  have ok2: "schema_ok ?d2" using ok1 assms(6)
    by (intro schema_ok_update_skills) (auto simp: failed_skill_row_def skill_check_def coalesce_def split: option.splits)
  have d1: "mutations ?d1 = map (\<lambda>x. if x = m then failed_row oc st now m else x) (mutations d)"
    using update_mutation_by_id [OF assms(1,2), of "failed_row oc st now"] by (simp add: assms(5))
  have d2: "?d2 = d\<lparr>mutations := map (\<lambda>x. if x = m then failed_row oc st now m else x) (mutations d),
               skills := map (\<lambda>r. if sk_id r = ?s then failed_skill_row oc sst now r else r) (skills d)\<rparr>"
    unfolding d1 [symmetric] by (simp add: update_skills_def update_mutations_def sql_update_def)
  obtain r where r: "r \<in> set (skills d)" "sk_id r = ?s" using schema_mutation_skill [OF assms(1,2)] by auto
  then have "failed_skill_row oc sst now r \<in> set (skills ?d2)" by (auto simp: set_sql_update)
  from schema_find_skill [OF ok2 this] have "read_skill_state ?d2 ?s = Some sst"
    by (simp add: read_skill_state_def failed_skill_row_def r(2))
  moreover have "apply_definitive_error ?s oc st sst now d = Inr ?d2"
    using ok1 ok2 by (simp add: apply_definitive_error_def exec_def)
  ultimately have run: "apply_mutation_outcome oc now d = Inr (?d2, \<lparr>oa_mutation_state = st, oa_skill_state = Some sst\<rparr>)"
    using assms(7)
    by (auto simp: apply_outcome_readable [OF assms(1-3,5,4)] apply_status_def Let_def mutation_state_str_def
        mutation_state_from_db_str_def)
  have "\<not> dispatchable t ?d2 x" if "x \<in> set (mutations ?d2)" "mu_id x = mu_id m" for t x
    using that assms(7) mutation_id_iff [OF assms(1,2)] unfolding d2
    by (auto simp: failed_row_def dispatchable_def queued_state_def)
  moreover have "map sk_current_blob_hash (skills ?d2) = map sk_current_blob_hash (skills d)"
    by (simp add: d2 failed_skill_row_def)
  ultimately show ?thesis using run d2 by blast
qed

definition conflict_of_m4 :: outcome where
  "conflict_of_m4 = \<lparr>oc_mutation_id = ''m4'', oc_status = ''conflict'', oc_remote_skill_id = None,
     oc_revision = None, oc_conflict_head_revision = Some 7, oc_conflict_manifest_hash = Some hash_b,
     oc_error_code = Some ''revision_conflict'', oc_message = None\<rparr>"

theorem definitive_errors_keep_local_content_witness:
  "\<exists>d'. apply_mutation_outcome conflict_of_m4 50 (sample_store Pending)
         = Inr (d', \<lparr>oa_mutation_state = MutationConflict, oa_skill_state = Some Conflict\<rparr>)
       \<and> map sk_current_blob_hash (skills d') = map sk_current_blob_hash (skills (sample_store Pending))"
proof -
  let ?d = "sample_store Pending" and ?m = "sample_mutation ''m4'' ''s2'' 1 Pending"
  have "schema_ok ?d" "?m \<in> set (mutations ?d)" "readable ?m" "mu_state ?m \<noteq> Acked"
    "oc_mutation_id conflict_of_m4 = mu_id ?m" "non_negative (oc_conflict_head_revision conflict_of_m4)"
    "(oc_status conflict_of_m4, MutationConflict, Conflict) \<in> {(''conflict'', MutationConflict, Conflict),
           (''permission_denied'', PermissionDenied, AccessRevoked), (''validation_error'', PermanentError, SyncError)}"
    by code_simp+
  from definitive_errors_keep_local_content [OF this] show ?thesis by blast
qed

text \<open>C38: A transport failure never loses work. The mutation it answers becomes retryable: its retry count is raised
  by one, its next attempt lies 1, 2, 4 and so on up to 64 seconds ahead, and the error is recorded; every other column
  of it, every other mutation, the skills and all other tables stay as they are. A claim passes the mutation over before that
  instant and may take it from then on.\<close>

theorem transport_failure_backs_off:
  assumes "outbox_inv d" and "m \<in> set (mutations d)" and "readable m" and "mu_state m = InFlight"
    and "oc_mutation_id oc = mu_id m" and "oc_status oc = ''transport_error''"
  shows "let next_attempt = now + 2 ^ min (nat (mu_retry_count m)) 6;
             m' = m\<lparr>mu_state := RetryableError, mu_retry_count := mu_retry_count m + 1, mu_next_attempt_at := Some next_attempt,
               mu_server_error_code := oc_error_code oc, mu_server_error_details := oc_message oc, mu_last_error := oc_message oc,
               mu_updated_at := now\<rparr>;
             d' = d\<lparr>mutations := map (\<lambda>x. if x = m then m' else x) (mutations d)\<rparr> in
         apply_mutation_outcome oc now d = Inr (d', \<lparr>oa_mutation_state = RetryableError, oa_skill_state = read_skill_state d' (mu_skill_id m)\<rparr>)
       \<and> (\<forall>t. dispatchable t d' m' \<longleftrightarrow> next_attempt \<le> t)"
proof -
  have ok: "schema_ok d" and ea: "earlier_acked d m"
    using assms(1,2,4) by (auto simp: outbox_inv_def causal_def)
  let ?n = "nat (mu_retry_count m)"
  let ?m' = "backed_off_row oc (backoff_seconds ?n) now m"
  let ?d' = "update_mutations (\<lambda>x. mu_id x = oc_mutation_id oc) (backed_off_row oc (backoff_seconds ?n) now) d"
  have ok': "schema_ok ?d'"
    using ok by (intro schema_ok_update_mutations) (auto simp: backed_off_row_def mutation_check_def)
  have d': "mutations ?d' = map (\<lambda>x. if x = m then ?m' else x) (mutations d)"
    using update_mutation_by_id [OF ok assms(2), of "backed_off_row oc (backoff_seconds ?n) now"]
    by (simp add: assms(5))
  have run: "apply_mutation_outcome oc now d
      = Inr (?d', \<lparr>oa_mutation_state = RetryableError, oa_skill_state = read_skill_state ?d' (mu_skill_id m)\<rparr>)"
    using ok' assms(4,6)
    by (simp add: apply_outcome_readable [OF ok assms(2,3,5)] apply_status_def Let_def exec_def
        mutation_state_str_def mutation_state_from_db_str_def)
  have "earlier_acked ?d' ?m'"
    using ea unfolding earlier_acked_iff d' by (auto simp: backed_off_row_def)
  then have "dispatchable t ?d' ?m' \<longleftrightarrow> now + 2 ^ min ?n 6 \<le> t" for t
    by (simp add: dispatchable_def backed_off_row_def queued_state_def backoff_seconds_eq)
  moreover have m': "?m' = m\<lparr>mu_state := RetryableError, mu_retry_count := mu_retry_count m + 1, mu_next_attempt_at := Some (now + 2 ^ min ?n 6),
      mu_server_error_code := oc_error_code oc, mu_server_error_details := oc_message oc, mu_last_error := oc_message oc, mu_updated_at := now\<rparr>"
    by (simp add: backed_off_row_def backoff_seconds_eq)
  moreover have "?d' = d\<lparr>mutations := map (\<lambda>x. if x = m then ?m' else x) (mutations d)\<rparr>"
    using d' by (simp add: update_mutations_def)
  ultimately show ?thesis using run unfolding Let_def by (simp only: m') simp
qed

theorem transport_failure_backs_off_witness:
  "\<exists>d' sst m'. apply_mutation_outcome (transport_error ''m2'' ''network'' ''down'') 100 (sample_store InFlight)
       = Inr (d', \<lparr>oa_mutation_state = RetryableError, oa_skill_state = sst\<rparr>)
     \<and> m' \<in> set (mutations d') \<and> mu_id m' = ''m2'' \<and> mu_next_attempt_at m' = Some 101 \<and> \<not> dispatchable 100 d' m' \<and> dispatchable 101 d' m'
     \<and> skills d' = skills (sample_store InFlight)"
proof -
  let ?m = "sample_mutation ''m2'' ''s1'' 2 InFlight" and ?oc = "transport_error ''m2'' ''network'' ''down''"
  have at: "outbox_inv (sample_store InFlight)" "?m \<in> set (mutations (sample_store InFlight))" "readable ?m"
    "mu_state ?m = InFlight" "oc_mutation_id ?oc = mu_id ?m" "oc_status ?oc = ''transport_error''"
    by code_simp+
  have first: "mu_retry_count ?m = 0" "mu_id ?m = ''m2''" by (simp_all add: sample_mutation_def)
  let ?m' = "?m\<lparr>mu_state := RetryableError, mu_retry_count := 1, mu_next_attempt_at := Some 101, mu_server_error_code := oc_error_code ?oc,
      mu_server_error_details := oc_message ?oc, mu_last_error := oc_message ?oc, mu_updated_at := 100\<rparr>"
  let ?d' = "(sample_store InFlight)\<lparr>mutations := map (\<lambda>x. if x = ?m then ?m' else x) (mutations (sample_store InFlight))\<rparr>"
  have "apply_mutation_outcome ?oc 100 (sample_store InFlight)
      = Inr (?d', \<lparr>oa_mutation_state = RetryableError, oa_skill_state = read_skill_state ?d' (mu_skill_id ?m)\<rparr>)"
    "dispatchable t ?d' ?m' \<longleftrightarrow> 101 \<le> t" for t
    using transport_failure_backs_off [OF at, of 100] by (simp_all add: Let_def first)
  moreover have "?m' \<in> set (mutations ?d')" using at(2) by force
  moreover have "mu_id ?m' = ''m2''" "mu_next_attempt_at ?m' = Some 101" "skills ?d' = skills (sample_store InFlight)" by (simp_all add: first)
  moreover have "\<not> (101 :: int) \<le> 100" "(101 :: int) \<le> 101" by simp_all
  ultimately show ?thesis by (intro exI [of _ ?d'] exI [of _ "read_skill_state ?d' (mu_skill_id ?m)"] exI [of _ ?m'] conjI) (simp_all only: not_le)
qed

text \<open>An answer for an unknown mutation, with an unknown status, or an acknowledgement without a
  revision is refused with an error of its own, and nothing is written.\<close>

theorem malformed_outcomes_are_refused:
  assumes "schema_ok d" and "m \<in> set (mutations d)" and "readable m" and "mu_state m \<noteq> Acked"
    and "oc_mutation_id oc = mu_id m"
    and "oc_status oc = ''acked'' \<and> oc_revision oc = None
      \<or> oc_status oc \<notin> {''acked'', ''conflict'', ''permission_denied'', ''validation_error'', ''transport_error''}"
  shows "(\<exists>reason. apply_mutation_outcome oc now d = Inl (InvalidPersistedState reason))
       \<and> (\<forall>i. i \<notin> mu_id ` set (mutations d) \<longrightarrow>
            apply_mutation_outcome (oc\<lparr>oc_mutation_id := i\<rparr>) now d = Inl (OutboxClaimLost i))"
proof -
  have "sql_find (\<lambda>x. mu_id x = i) (mutations d) = None" if "i \<notin> mu_id ` set (mutations d)" for i
    using that by (auto simp: sql_find_None)
  then have "apply_mutation_outcome (oc\<lparr>oc_mutation_id := i\<rparr>) now d = Inl (OutboxClaimLost i)"
    if "i \<notin> mu_id ` set (mutations d)" for i
    using that by (simp add: apply_mutation_outcome_def outcome_target_def)
  moreover have "\<exists>reason. apply_mutation_outcome oc now d = Inl (InvalidPersistedState reason)"
    using assms(6) by (auto simp: apply_outcome_readable [OF assms(1-3,5,4)] apply_status_def Let_def)
  ultimately show ?thesis by blast
qed

theorem malformed_outcomes_are_refused_witness:
  "\<exists>reason. apply_mutation_outcome (ack_of_m4\<lparr>oc_revision := None\<rparr>) 50 (sample_store Pending)
     = Inl (InvalidPersistedState reason)"
proof -
  let ?d = "sample_store Pending" and ?m = "sample_mutation ''m4'' ''s2'' 1 Pending"
  let ?oc = "ack_of_m4\<lparr>oc_revision := None\<rparr>"
  have "schema_ok ?d" "?m \<in> set (mutations ?d)" "readable ?m" "mu_state ?m \<noteq> Acked" "oc_mutation_id ?oc = mu_id ?m"
    "oc_status ?oc = ''acked'' \<and> oc_revision ?oc = None
      \<or> oc_status ?oc \<notin> {''acked'', ''conflict'', ''permission_denied'', ''validation_error'', ''transport_error''}"
    by code_simp+
  from malformed_outcomes_are_refused [OF this] show ?thesis by blast
qed

end
