(* ===== verification/Entitlements.thy ===== *)
theory Entitlements
  imports Outcomes
begin

text \<open>
  Entitlement leases (\<open>local_store/entitlements.rs\<close>): storing a pulled lease with its immediate
  effect on the skill, expiring due leases at startup, and the deployability question. Instants are
  integers; \<open>chrono\<close>'s RFC 3339 reader and writer are not part of the repository, so they are the
  arguments \<open>parse\<close> and \<open>display\<close> of the operations. What the code relies on is named in
  \<open>rfc3339_clock\<close>: reading back what was written, and text order being time order, which
  \<open>expire_due_entitlements\<close> uses by comparing the stored text in SQL.
\<close>

type_synonym parse_instant = "string \<Rightarrow> string + int"
type_synonym display_instant = "int \<Rightarrow> string"

definition rfc3339_clock :: "parse_instant \<Rightarrow> display_instant \<Rightarrow> bool" where
  "rfc3339_clock parse display \<longleftrightarrow>
     (\<forall>a \<ge> 0. parse (display a) = Inr a) \<and> (\<forall>a \<ge> 0. \<forall>b \<ge> 0. display a \<le> display b \<longleftrightarrow> a \<le> b)"

record entitlement_payload =
  ep_lease :: string
  ep_permission_level :: string
  ep_offline_policy :: string
  ep_offline_ttl_hours :: "int option"
  ep_issued_at :: "string option"
  ep_expires_at :: "string option"

record entitlement_reconciled =
  er_skill_id :: string
  er_offline_policy :: string
  er_expired :: bool

definition parse_field ::
  "parse_instant \<Rightarrow> string \<Rightarrow> string \<Rightarrow> string option \<Rightarrow> store_error + int option" where
  "parse_field parse skill field value =
     (case value of
        None \<Rightarrow> Inr None
      | Some text \<Rightarrow>
          (case parse text of
             Inl error \<Rightarrow> Inl (InvalidPersistedState
               (''entitlement for '' @ skill @ '' carries a malformed '' @ field @ '': '' @ error))
           | Inr t \<Rightarrow> Inr (Some t)))"

definition lease_row ::
  "display_instant \<Rightarrow> string \<Rightarrow> entitlement_payload \<Rightarrow> int option \<Rightarrow> int option \<Rightarrow> entitlement_row" where
  "lease_row display skill payload issued_at expires_at =
     \<lparr>en_skill_id = skill, en_lease = ep_lease payload, en_permission_level = ep_permission_level payload,
      en_offline_policy = ep_offline_policy payload, en_offline_ttl_hours = ep_offline_ttl_hours payload,
      en_issued_at = map_option display issued_at, en_expires_at = map_option display expires_at\<rparr>"

definition upsert_lease :: "entitlement_row \<Rightarrow> store \<Rightarrow> store" where
  "upsert_lease e d = d\<lparr>entitlements :=
     sql_upsert (\<lambda>x. en_skill_id x = en_skill_id e) e (\<lambda>_. e) (entitlements d)\<rparr>"

definition is_expired :: "int \<Rightarrow> int option \<Rightarrow> bool" where
  "is_expired instant expires_at \<longleftrightarrow> (case expires_at of None \<Rightarrow> False | Some limit \<Rightarrow> limit \<le> instant)"

definition reconcile_lease :: "bool \<Rightarrow> string \<Rightarrow> int \<Rightarrow> store \<Rightarrow> store_error + store" where
  "reconcile_lease expired skill now d =
     (if expired then
        exec (update_skills (\<lambda>r. sk_id r = skill \<and> sk_sync_state r \<in> {RemoteOnly, Synced})
               (\<lambda>r. r\<lparr>sk_sync_state := AccessRevoked, sk_updated_at := now\<rparr>)) d
      else
        exec (update_skills (\<lambda>r. sk_id r = skill \<and> sk_sync_state r = AccessRevoked \<and> sk_remote_id r \<noteq> None)
               (\<lambda>r. r\<lparr>sk_sync_state := RemoteOnly, sk_updated_at := now\<rparr>)) d)"

definition apply_entitlement ::
  "parse_instant \<Rightarrow> display_instant \<Rightarrow> string \<Rightarrow> entitlement_payload \<Rightarrow> int \<Rightarrow> int \<Rightarrow> store
   \<Rightarrow> store_error + (store \<times> entitlement_reconciled)" where
  "apply_entitlement parse display skill payload instant now d =
     and_then (parse_field parse skill ''expires_at'' (ep_expires_at payload)) (\<lambda>expires_at.
     and_then (parse_field parse skill ''issued_at'' (ep_issued_at payload)) (\<lambda>issued_at.
     let expired = is_expired instant expires_at in
     and_then (exec (upsert_lease (lease_row display skill payload issued_at expires_at)) d) (\<lambda>d1.
     and_then (reconcile_lease expired skill now d1) (\<lambda>d2.
     Inr (d2, \<lparr>er_skill_id = skill, er_offline_policy = ep_offline_policy payload, er_expired = expired\<rparr>)))))"

text \<open>The states a lease expiry takes down, of skills and of deployments.\<close>

definition expirable :: "skill_sync_state \<Rightarrow> bool" where
  "expirable s \<longleftrightarrow> s \<in> {RemoteOnly, Synced, SyncError}"

definition deployment_active :: "deployment_state \<Rightarrow> bool" where
  "deployment_active s \<longleftrightarrow> s \<in> {Installing, Installed, Updating, Modified}"

definition due :: "string \<Rightarrow> store \<Rightarrow> entitlement_row \<Rightarrow> bool" where
  "due now_text d e \<longleftrightarrow> (case en_expires_at e of None \<Rightarrow> False | Some t \<Rightarrow> t \<le> now_text)
     \<and> list_ex (\<lambda>s. sk_id s = en_skill_id e \<and> expirable (sk_sync_state s)) (skills d)"

definition update_deployments ::
  "(deployment_row \<Rightarrow> bool) \<Rightarrow> (deployment_row \<Rightarrow> deployment_row) \<Rightarrow> store \<Rightarrow> store" where
  "update_deployments P f d = d\<lparr>deployments := sql_update P f (deployments d)\<rparr>"

definition expired_deployment :: "deployment_row \<Rightarrow> deployment_row" where
  "expired_deployment x = x\<lparr>de_state := Revoked,
     de_last_error := Some ''entitlement expired; deployment revoked by offline policy''\<rparr>"

definition revoked_skill :: "int \<Rightarrow> skill_row \<Rightarrow> skill_row" where
  "revoked_skill now r = r\<lparr>sk_sync_state := AccessRevoked, sk_updated_at := now\<rparr>"

fun expire_loop :: "int \<Rightarrow> string list \<Rightarrow> store \<Rightarrow> store_error + store" where
  "expire_loop now [] d = Inr d"
| "expire_loop now (i # is) d =
     and_then (exec (update_skills (\<lambda>r. sk_id r = i \<and> expirable (sk_sync_state r)) (revoked_skill now)) d) (\<lambda>d1.
     and_then (exec (update_deployments (\<lambda>x. de_skill_id x = i \<and> deployment_active (de_state x)) expired_deployment) d1) (\<lambda>d2.
     expire_loop now is d2))"

definition expire_due_entitlements ::
  "display_instant \<Rightarrow> int \<Rightarrow> int \<Rightarrow> store \<Rightarrow> store_error + (store \<times> string list)" where
  "expire_due_entitlements display instant now d =
     (let ids = map en_skill_id (filter (due (display instant) d) (entitlements d)) in
      and_then (expire_loop now ids d) (\<lambda>d'. Inr (d', ids)))"

definition get_entitlement :: "string \<Rightarrow> store \<Rightarrow> entitlement_row option" where
  "get_entitlement skill d = sql_find (\<lambda>e. en_skill_id e = skill) (entitlements d)"

definition entitlement_allows_offline_use :: "parse_instant \<Rightarrow> entitlement_row option \<Rightarrow> int \<Rightarrow> bool" where
  "entitlement_allows_offline_use parse e instant =
     (case e of
        None \<Rightarrow> False
      | Some lease \<Rightarrow>
          (case en_expires_at lease of
             None \<Rightarrow> False
           | Some text \<Rightarrow> (case parse text of Inl _ \<Rightarrow> False | Inr limit \<Rightarrow> instant < limit)))"

section \<open>The outbox contract\<close>

lemma upsert_lease_simps [simp]:
  "skills (upsert_lease e d) = skills d" "mutations (upsert_lease e d) = mutations d"
  by (simp_all add: upsert_lease_def)

lemma update_deployments_simps [simp]:
  "skills (update_deployments P f d) = skills d" "mutations (update_deployments P f d) = mutations d"
  "deployments (update_deployments P f d) = sql_update P f (deployments d)"
  "entitlements (update_deployments P f d) = entitlements d"
  by (simp_all add: update_deployments_def)

lemma schema_ok_update_deployments:
  assumes "schema_ok d" and "\<And>x. de_skill_id (f x) = de_skill_id x \<and> de_profile_id (f x) = de_profile_id x"
  shows "schema_ok (update_deployments P f d)"
  using assms
  by (auto simp: update_deployments_def schema_ok_def skills_ok_def mutations_ok_def deployments_ok_def
      entitlements_ok_def prefs_ok_def map_sql_update list_all_iff set_sql_update)

lemma reconcile_lease_step: "outbox_inv d \<Longrightarrow> reconcile_lease expired skill now d = Inr d' \<Longrightarrow> outbox_step d d'"
  by (auto simp: reconcile_lease_def split: if_splits intro: exec_skills_step)

lemma apply_entitlement_step:
  assumes "outbox_inv d" and "apply_entitlement parse display skill payload instant now d = Inr (d', r)"
  shows "outbox_step d d'"
proof -
  obtain e expired d1 where "exec (upsert_lease e) d = Inr d1" and d2: "reconcile_lease expired skill now d1 = Inr d'"
    using assms(2) by (auto simp: apply_entitlement_def result_simps Let_def)
  then have "outbox_step d d1" using assms(1) by (auto simp: exec_Inr_iff intro: outbox_step_other_table)
  then show ?thesis using reconcile_lease_step [OF outbox_step_inv d2] by (blast intro: outbox_step_trans)
qed

text \<open>Expiring a list of skills is one update of each table, and cannot fail.\<close>

definition expire_ids :: "int \<Rightarrow> string set \<Rightarrow> store \<Rightarrow> store" where
  "expire_ids now ids d =
     update_deployments (\<lambda>x. de_skill_id x \<in> ids \<and> deployment_active (de_state x)) expired_deployment
       (update_skills (\<lambda>r. sk_id r \<in> ids \<and> expirable (sk_sync_state r)) (revoked_skill now) d)"

lemma schema_ok_expire_ids: "schema_ok d \<Longrightarrow> schema_ok (expire_ids now ids d)"
  unfolding expire_ids_def
  by (intro schema_ok_update_deployments schema_ok_update_skills) (auto simp: expired_deployment_def revoked_skill_def skill_check_def)

lemma expire_ids_empty: "expire_ids now {} d = d"
  by (simp add: expire_ids_def update_deployments_def update_skills_def sql_update_def)

lemma expire_ids_insert: "expire_ids now ids (expire_ids now {i} d) = expire_ids now (insert i ids) d"
proof -
  have "skills (expire_ids now ids (expire_ids now {i} d)) = skills (expire_ids now (insert i ids) d)"
    by (auto simp: expire_ids_def sql_update_def revoked_skill_def expirable_def)
  moreover have "deployments (expire_ids now ids (expire_ids now {i} d)) = deployments (expire_ids now (insert i ids) d)"
    by (auto simp: expire_ids_def sql_update_def expired_deployment_def deployment_active_def)
  ultimately show ?thesis by (simp add: expire_ids_def update_deployments_def update_skills_def)
qed

lemma expire_loop_exact: "schema_ok d \<Longrightarrow> expire_loop now is d = Inr (expire_ids now (set is) d)"
proof (induction "is" arbitrary: d)
  case Nil
  then show ?case by (simp add: expire_ids_empty)
next
  case (Cons i "is")
  let ?d1 = "update_skills (\<lambda>r. sk_id r = i \<and> expirable (sk_sync_state r)) (revoked_skill now) d"
  let ?d2 = "update_deployments (\<lambda>x. de_skill_id x = i \<and> deployment_active (de_state x)) expired_deployment ?d1"
  have "schema_ok ?d1" using Cons.prems by (rule schema_ok_update_skills) (auto simp: revoked_skill_def skill_check_def)
  moreover have "?d2 = expire_ids now {i} d" by (simp add: expire_ids_def)
  moreover have "schema_ok (expire_ids now {i} d)" using Cons.prems by (rule schema_ok_expire_ids)
  ultimately show ?case
    using Cons.IH [of "expire_ids now {i} d"] expire_ids_insert [of now "set is" i d]
    by (simp add: exec_def)
qed

lemma expire_due_exact:
  "schema_ok d \<Longrightarrow> expire_due_entitlements display instant now d =
     (let ids = map en_skill_id (filter (due (display instant) d) (entitlements d)) in
      Inr (expire_ids now (set ids) d, ids))"
  by (simp add: expire_due_entitlements_def expire_loop_exact Let_def)

interpretation expire_op: outbox_operation "\<lambda>(display, instant, now). expire_due_entitlements display instant now"
proof
  fix a :: "display_instant \<times> int \<times> int" and d d' r
  assume inv: "outbox_inv d" and "(case a of (display, instant, now) \<Rightarrow> expire_due_entitlements display instant now) d = Inr (d', r)"
  then obtain now ids where "d' = expire_ids now ids d"
    by (cases a) (auto simp: outbox_inv_def expire_due_exact Let_def)
  then have "outbox_step d d'"
    using inv schema_ok_expire_ids by (auto simp: outbox_inv_def expire_ids_def intro!: outbox_step_other_table)
  then show "outbox_inv d'" and "kept d d'" by (auto intro: outbox_step_inv outbox_step_kept)
qed

end
