(* ===== verification/Sync_Scope.thy ===== *)
theory Sync_Scope
  imports Outbox Samples
begin

text \<open>
  The server and account scope of the store (\<open>local_store/sync_state.rs\<close>): the single row of
  \<open>local_sync_state\<close>, its operations, the guard every sync cycle runs first, and the safety of
  the scope: local data never moves to another server or account while the scope is established.
\<close>

definition sync_state :: "store \<Rightarrow> sync_row" where
  "sync_state d = sync d"

definition update_sync :: "(sync_row \<Rightarrow> sync_row) \<Rightarrow> store \<Rightarrow> store" where
  "update_sync f d = d\<lparr>sync := f (sync d)\<rparr>"

definition local_rows :: "store \<Rightarrow> nat" where
  "local_rows d = length (skills d) + length (mutations d)"

definition set_client_instance_id :: "string \<Rightarrow> store \<Rightarrow> store_error + store" where
  "set_client_instance_id client d =
     and_then (validate_non_empty ''client_instance_id'' client) (\<lambda>_.
     exec (update_sync (\<lambda>s. s\<lparr>sy_client_instance_id := Some client\<rparr>)) d)"

definition record_device_registration :: "string \<Rightarrow> string \<Rightarrow> string \<Rightarrow> store \<Rightarrow> store_error + store" where
  "record_device_registration client device user d =
     and_then (validate_all [(''client_instance_id'', client), (''device_id'', device), (''server_user_id'', user)]) (\<lambda>_.
     exec (update_sync (\<lambda>s. s\<lparr>sy_client_instance_id := Some client, sy_device_id := Some device,
       sy_server_user_id := Some user, sy_last_server_error := None\<rparr>)) d)"

definition established :: "sync_row \<Rightarrow> bool" where
  "established s \<longleftrightarrow> sy_server_url s \<noteq> None \<and> sy_server_user_id s \<noteq> None"

definition scope_complete :: "sync_row \<Rightarrow> bool" where
  "scope_complete s \<longleftrightarrow> sy_server_url s \<noteq> None \<and> sy_login_identity s \<noteq> None \<and> sy_server_user_id s \<noteq> None"

definition prepare_login_scope :: "string \<Rightarrow> string \<Rightarrow> store \<Rightarrow> store_error + store" where
  "prepare_login_scope url login d =
     and_then (validate_non_empty ''server_url'' url) (\<lambda>_.
     and_then (validate_non_empty ''login_identity'' login) (\<lambda>_.
     let s = sync d;
         url_matches = (case sy_server_url s of None \<Rightarrow> True | Some u \<Rightarrow> u = url);
         identity_matches = (case sy_login_identity s of None \<Rightarrow> True | Some i \<Rightarrow> eq_ignore_ascii_case i (trim login)) in
     if 0 < local_rows d \<and> established s \<and> \<not> url_matches then
       Inl (InvalidInput ''local data belongs to another SkillHive server/account; export or clear it before switching'')
     else if scope_complete s \<and> url_matches \<and> identity_matches then Inr d
     else
       let preserve_pending_user = url_matches \<and> established s in
       exec (update_sync (\<lambda>s. s\<lparr>sy_server_url := Some url, sy_login_identity := None,
         sy_server_user_id := (if preserve_pending_user then sy_server_user_id s else None),
         sy_device_id := None, sy_server_cursor := None, sy_last_server_error := None\<rparr>)) d))"

definition record_authenticated_device ::
  "string \<Rightarrow> string \<Rightarrow> string \<Rightarrow> string \<Rightarrow> string \<Rightarrow> store \<Rightarrow> store_error + store" where
  "record_authenticated_device url login client device user d =
     and_then (validate_all [(''server_url'', url), (''login_identity'', login), (''client_instance_id'', client),
                             (''device_id'', device), (''server_user_id'', user)]) (\<lambda>_.
     let s = sync d;
         expected_user = (if sy_server_url s = None then None else sy_server_user_id s) in
     if (case sy_server_url s of None \<Rightarrow> False | Some u \<Rightarrow> u \<noteq> url)
        \<or> 0 < local_rows d \<and> (case expected_user of None \<Rightarrow> False | Some u \<Rightarrow> u \<noteq> user) then
       Inl (InvalidInput ''authenticated server/account does not match the durable local scope'')
     else
       let adopting = \<not> scope_complete s in
       exec (update_sync (\<lambda>s. s\<lparr>sy_server_url := Some url, sy_login_identity := Some (trim login),
         sy_client_instance_id := Some client, sy_device_id := Some device, sy_server_user_id := Some user,
         sy_server_cursor := (if adopting then None else sy_server_cursor s),
         sy_last_push_at := (if adopting then None else sy_last_push_at s),
         sy_last_pull_at := (if adopting then None else sy_last_pull_at s),
         sy_last_server_error := None\<rparr>)) d)"

definition assert_server_scope :: "string \<Rightarrow> store \<Rightarrow> store_error + unit" where
  "assert_server_scope url d =
     and_then (validate_non_empty ''server_url'' url) (\<lambda>_.
     let s = sync_state d;
         started = (sy_server_url s \<noteq> None \<or> sy_login_identity s \<noteq> None
                    \<or> sy_server_user_id s \<noteq> None \<or> sy_server_cursor s \<noteq> None) in
     if (case sy_server_url s of None \<Rightarrow> False | Some u \<Rightarrow> u \<noteq> url)
        \<or> started \<and> (sy_server_url s = None \<or> sy_login_identity s = None \<or> sy_server_user_id s = None)
        \<or> 0 < local_rows d \<and> (sy_server_url s = None \<or> sy_server_user_id s = None) then
       Inl (InvalidInput ''local sync state is bound to a different or incomplete server/account scope'')
     else Inr ())"

definition prepare_server_switch :: "string \<Rightarrow> store \<Rightarrow> store_error + store" where
  "prepare_server_switch url d =
     and_then (validate_non_empty ''server_url'' url) (\<lambda>_.
     let s = sync d in
     if 0 < local_rows d \<and> established s \<and> (case sy_server_url s of None \<Rightarrow> False | Some u \<Rightarrow> u \<noteq> url) then
       Inl (InvalidInput ''local data belongs to another server; synchronize or clear it before switching'')
     else if sy_server_url s \<noteq> Some url \<or> \<not> scope_complete s then
       exec (update_sync (\<lambda>s. s\<lparr>sy_server_url := Some url, sy_login_identity := None,
         sy_server_user_id := None, sy_device_id := None, sy_server_cursor := None,
         sy_last_server_error := None\<rparr>)) d
     else Inr d)"

definition invalidate_authenticated_scope :: "store \<Rightarrow> store_error + store" where
  "invalidate_authenticated_scope =
     exec (update_sync (\<lambda>s. s\<lparr>sy_login_identity := None, sy_server_user_id := None, sy_device_id := None,
       sy_server_cursor := None, sy_last_push_at := None, sy_last_pull_at := None,
       sy_last_server_error := Some ''desktop logout pending''\<rparr>))"

definition update_sync_cursor :: "string \<Rightarrow> int \<Rightarrow> store \<Rightarrow> store_error + store" where
  "update_sync_cursor cursor now d =
     and_then (validate_non_empty ''server_cursor'' cursor) (\<lambda>_.
     exec (update_sync (\<lambda>s. s\<lparr>sy_server_cursor := Some cursor, sy_last_pull_at := Some now,
       sy_last_server_error := None\<rparr>)) d)"

definition record_sync_error :: "string \<Rightarrow> store \<Rightarrow> store_error + store" where
  "record_sync_error error d =
     and_then (validate_non_empty ''last_server_error'' error) (\<lambda>_.
     exec (update_sync (\<lambda>s. s\<lparr>sy_last_server_error := Some error\<rparr>)) d)"

definition record_push_success :: "int \<Rightarrow> store \<Rightarrow> store_error + store" where
  "record_push_success now =
     exec (update_sync (\<lambda>s. s\<lparr>sy_last_push_at := Some now, sy_last_server_error := None\<rparr>))"

definition ensure_client_instance_id :: "string \<Rightarrow> store \<Rightarrow> store_error + (store \<times> string)" where
  "ensure_client_instance_id uuid d =
     (case sy_client_instance_id (sync d) of
        Some existing \<Rightarrow> Inr (d, existing)
      | None \<Rightarrow>
          and_then (exec (update_sync (\<lambda>s. if sy_client_instance_id s = None
                                           then s\<lparr>sy_client_instance_id := Some uuid\<rparr> else s)) d) (\<lambda>d'.
          Inr (d', uuid)))"

definition record_pull_cursor :: "string \<Rightarrow> int \<Rightarrow> store \<Rightarrow> store_error + store" where
  "record_pull_cursor cursor now d =
     and_then (validate_non_empty ''server_cursor'' cursor) (\<lambda>_.
     exec (update_sync (\<lambda>s. s\<lparr>sy_server_cursor := Some cursor, sy_last_pull_at := Some now,
       sy_last_server_error := None\<rparr>)) d)"

section \<open>Scope operations as a transition system\<close>

text \<open>
  The scope operations the agent performs, in one datatype, so that a history of a session is a
  list of them. \<open>Logout\<close> and \<open>Switch\<close> are the two commands that may take the scope down.
\<close>

datatype scope_op =
  PrepareLogin string string
| RecordDevice string string string string string
| Cursor string int
| SyncFailed string
| PushDone int
| Switch string
| Logout

fun scope_step :: "scope_op \<Rightarrow> store \<Rightarrow> store_error + store" where
  "scope_step (PrepareLogin url login) d = prepare_login_scope url login d"
| "scope_step (RecordDevice url login client device user) d =
     record_authenticated_device url login client device user d"
| "scope_step (Cursor cursor now) d = update_sync_cursor cursor now d"
| "scope_step (SyncFailed error) d = record_sync_error error d"
| "scope_step (PushDone now) d = record_push_success now d"
| "scope_step (Switch url) d = prepare_server_switch url d"
| "scope_step Logout d = invalidate_authenticated_scope d"

lemma update_sync_simps [simp]:
  "sync (update_sync f d) = f (sync d)" "mutations (update_sync f d) = mutations d"
  "skills (update_sync f d) = skills d" "deployments (update_sync f d) = deployments d"
  "entitlements (update_sync f d) = entitlements d" "local_rows (update_sync f d) = local_rows d"
  by (simp_all add: update_sync_def local_rows_def)

lemma schema_protocol: "schema_ok d \<Longrightarrow> 1 \<le> sy_protocol_version (sync d)"
  by (simp add: schema_ok_def)

lemma exec_update_sync:
  "schema_ok d \<Longrightarrow> (\<And>s. 1 \<le> sy_protocol_version s \<Longrightarrow> 1 \<le> sy_protocol_version (f s)) \<Longrightarrow>
   exec (update_sync f) d = Inr (update_sync f d)"
  unfolding update_sync_def by (intro exec_Inr schema_ok_sync) (simp_all add: schema_protocol)

lemmas scope_defs = prepare_login_scope_def record_authenticated_device_def update_sync_cursor_def
  record_sync_error_def record_push_success_def prepare_server_switch_def invalidate_authenticated_scope_def

text \<open>Every scope operation that succeeds changes the scope row alone.\<close>

lemma scope_step_sync_only:
  "scope_step op d = Inr d' \<Longrightarrow> schema_ok d \<Longrightarrow> schema_ok d' \<and> (\<exists>s. d' = d\<lparr>sync := s\<rparr>)"
  by (cases op) (auto simp: scope_defs Let_def result_simps update_sync_def split: if_splits
      intro: exI [of _ "sync d"])

interpretation scope_op: outbox_operation "\<lambda>op d. map_sum id (\<lambda>d'. (d', ())) (scope_step op d)"
proof
  fix op d d' and r :: unit
  assume inv: "outbox_inv d" and "map_sum id (\<lambda>d'. (d', ())) (scope_step op d) = Inr (d', r)"
  then have "scope_step op d = Inr d'" by (cases "scope_step op d") auto
  then have "outbox_step d d'"
    using scope_step_sync_only [of op d d'] inv by (auto simp: outbox_inv_def intro!: outbox_step_other_table)
  then show "outbox_inv d'" and "kept d d'" by (auto intro: outbox_step_inv outbox_step_kept)
qed

section \<open>Local data stays with its server and account\<close>

definition keeps_session :: "scope_op \<Rightarrow> bool" where
  "keeps_session op \<longleftrightarrow> (case op of Logout \<Rightarrow> False | Switch _ \<Rightarrow> False | _ \<Rightarrow> True)"

definition pinned :: "string \<Rightarrow> string \<Rightarrow> store \<Rightarrow> bool" where
  "pinned url user d \<longleftrightarrow> schema_ok d \<and> 0 < local_rows d
     \<and> sy_server_url (sync d) = Some url \<and> sy_server_user_id (sync d) = Some user"

definition session_step :: "scope_op \<Rightarrow> store \<Rightarrow> store_error + store" where
  "session_step op d = (if keeps_session op then scope_step op d else Inr d)"

interpretation pinned_scope: transition_system session_step "pinned url user" for url user
proof
  fix d op d'
  assume p: "pinned url user d" and st: "session_step op d = Inr d'"
  have "schema_ok d' \<and> local_rows d' = local_rows d"
    using p st scope_step_sync_only [of op d d']
    by (auto simp: pinned_def session_step_def local_rows_def split: if_splits)
  then show "pinned url user d'"
    using p st by (cases op) (auto simp: pinned_def session_step_def keeps_session_def scope_defs Let_def
        result_simps established_def scope_complete_def split: if_splits)
qed

lemma run_session: "list_all keeps_session ops \<Longrightarrow> run_steps session_step ops d = run_steps scope_step ops d"
  by (induction ops arbitrary: d) (simp_all add: session_step_def)

text \<open>C21: While local skills or mutations exist and the scope is established, no sequence of logins
  (attempted or completed), cursor updates, push records and errors, whatever server, identity or
  user they name, changes the server or the account the local data belongs to.\<close>

theorem local_data_stays_with_its_account:
  assumes "schema_ok d" and "0 < local_rows d" and "sy_server_url (sync d) = Some url"
    and "sy_server_user_id (sync d) = Some user" and "list_all keeps_session ops"
  shows "sy_server_url (sync (run_steps scope_step ops d)) = Some url
       \<and> sy_server_user_id (sync (run_steps scope_step ops d)) = Some user
       \<and> local_rows (run_steps scope_step ops d) > 0"
  using pinned_scope.run_inv [of url user d ops] assms by (simp add: run_session pinned_def)

definition bound_store :: store where
  "bound_store = (sample_store Pending)\<lparr>sync := empty_sync\<lparr>sy_client_instance_id := Some ''c1'',
     sy_device_id := Some ''d1'', sy_server_user_id := Some ''u1'', sy_server_url := Some ''https://one'',
     sy_login_identity := Some ''ann'', sy_server_cursor := Some ''v1.A''\<rparr>\<rparr>"

theorem local_data_stays_with_its_account_witness:
  "sy_server_user_id (sync (run_steps scope_step
     [PrepareLogin ''https://two'' ''bob'', PrepareLogin ''https://one'' ''bob'',
      RecordDevice ''https://one'' ''bob'' ''c1'' ''d2'' ''u2''] bound_store)) = Some ''u1''"
proof -
  let ?ops = "[PrepareLogin ''https://two'' ''bob'', PrepareLogin ''https://one'' ''bob'',
      RecordDevice ''https://one'' ''bob'' ''c1'' ''d2'' ''u2'']"
  have "schema_ok bound_store" "0 < local_rows bound_store" "sy_server_url (sync bound_store) = Some ''https://one''"
    "sy_server_user_id (sync bound_store) = Some ''u1''" "list_all keeps_session ?ops"
    by code_simp+
  from local_data_stays_with_its_account [OF this] show ?thesis by simp
qed

text \<open>The guard of every sync cycle lets a cycle run exactly when the store is blank (nothing bound
  and no local rows) or is completely bound to the server the cycle will talk to.\<close>

theorem cycle_guard_exact:
  "assert_server_scope url d = Inr () \<longleftrightarrow> \<not> is_blank url \<and>
     ((sy_server_url (sync d) = None \<and> sy_login_identity (sync d) = None \<and> sy_server_user_id (sync d) = None
         \<and> sy_server_cursor (sync d) = None \<and> local_rows d = 0)
      \<or> (sy_server_url (sync d) = Some url \<and> sy_login_identity (sync d) \<noteq> None \<and> sy_server_user_id (sync d) \<noteq> None))"
  by (cases "sy_server_url (sync d)")
    (auto simp: assert_server_scope_def sync_state_def Let_def result_simps)

definition no_device :: "scope_op \<Rightarrow> bool" where
  "no_device op \<longleftrightarrow> (case op of RecordDevice _ _ _ _ _ \<Rightarrow> False | _ \<Rightarrow> True)"

definition unbound :: "store \<Rightarrow> bool" where
  "unbound d \<longleftrightarrow> schema_ok d \<and> sy_server_url (sync d) \<noteq> None \<and> sy_login_identity (sync d) = None
     \<and> sy_server_user_id (sync d) = None"

lemma unbound_step:
  assumes "unbound d" and "scope_step op d = Inr d'" and "no_device op"
  shows "unbound d'"
proof -
  have "schema_ok d'" using assms(1) scope_step_sync_only [OF assms(2)] unfolding unbound_def by blast
  moreover have "sy_server_url (sync d') \<noteq> None \<and> sy_login_identity (sync d') = None \<and> sy_server_user_id (sync d') = None"
    using assms unfolding unbound_def
    by (cases op) (auto simp: no_device_def scope_defs Let_def result_simps split: if_splits)
  ultimately show ?thesis by (simp add: unbound_def)
qed

text \<open>After a logout every cycle fails closed, whatever server it names, and stays failing through
  cursor updates, errors and further login attempts, until a device is recorded again.\<close>

theorem logout_fails_closed:
  assumes "schema_ok d" and "sy_server_url (sync d) \<noteq> None"
    and "list_all no_device ops"
  shows "\<not> is_ok (assert_server_scope url (run_steps scope_step (Logout # ops) d))"
proof -
  have "unbound (run_steps scope_step ops e)" if "unbound e" "list_all no_device ops" for e
    using that
  proof (induction ops arbitrary: e)
    case (Cons op ops)
    then have "no_device op" "list_all no_device ops" by simp_all
    then show ?case
      using unbound_step [OF Cons.prems(1), of op] Cons by (cases "scope_step op e") simp_all
  qed simp
  moreover obtain d' where "scope_step Logout d = Inr d'" "unbound d'"
    using assms(1,2) by (auto simp: invalidate_authenticated_scope_def exec_update_sync unbound_def
        update_sync_def schema_ok_sync schema_protocol)
  ultimately have "unbound (run_steps scope_step (Logout # ops) d)"
    using assms(3) by simp
  then show ?thesis
    by (auto simp: unbound_def assert_server_scope_def sync_state_def Let_def validate_non_empty_def ensure_def)
qed

theorem logout_fails_closed_witness:
  "\<not> is_ok (assert_server_scope ''https://one'' (run_steps scope_step
     [Logout, PrepareLogin ''https://one'' ''ann'', Cursor ''v1.B'' 70] bound_store))"
  by (rule logout_fails_closed) code_simp+

text \<open>A login round trip: preparing the scope and then recording the authenticated device leaves a
  scope the cycle guard accepts, bound to that server and user; when the account or the login
  identity is new to the store, the old cursor is dropped.\<close>

theorem login_binds_the_scope:
  assumes "schema_ok d" and "prepare_login_scope url login d = Inr d1"
    and "record_authenticated_device url login client device user d1 = Inr d2"
  shows "is_ok (assert_server_scope url d2) \<and> sy_server_url (sync d2) = Some url
    \<and> sy_server_user_id (sync d2) = Some user \<and> sy_device_id (sync d2) = Some device
    \<and> (\<not> (scope_complete (sync d) \<and> sy_server_url (sync d) = Some url
          \<and> eq_ignore_ascii_case (the (sy_login_identity (sync d))) (trim login))
       \<longrightarrow> sy_server_cursor (sync d2) = None)"
proof -
  have url: "\<not> is_blank url" using assms(2) by (auto simp: prepare_login_scope_def result_simps)
  have d2: "sy_server_url (sync d2) = Some url \<and> sy_server_user_id (sync d2) = Some user
      \<and> sy_device_id (sync d2) = Some device \<and> sy_login_identity (sync d2) \<noteq> None
      \<and> (\<not> scope_complete (sync d1) \<longrightarrow> sy_server_cursor (sync d2) = None)"
    using assms(3) by (auto simp: record_authenticated_device_def Let_def result_simps split: if_splits)
  have "scope_complete (sync d1) \<Longrightarrow> scope_complete (sync d) \<and> sy_server_url (sync d) = Some url
          \<and> eq_ignore_ascii_case (the (sy_login_identity (sync d))) (trim login)"
    using assms(2)
    by (auto simp: prepare_login_scope_def Let_def result_simps scope_complete_def split: if_splits option.splits)
  moreover have "is_ok (assert_server_scope url d2)"
    using d2 url by (auto simp: assert_server_scope_def sync_state_def Let_def validate_non_empty_def ensure_def)
  ultimately show ?thesis using d2 by blast
qed

theorem login_binds_the_scope_witness:
  "is_ok (assert_server_scope ''https://one'' (run_steps scope_step
     [PrepareLogin ''https://one'' ''ann'', RecordDevice ''https://one'' ''ann'' ''c1'' ''d9'' ''u1''] (sample_store Pending)))"
proof -
  let ?p = "prepare_login_scope ''https://one'' ''ann'' (sample_store Pending)"
  let ?r = "record_authenticated_device ''https://one'' ''ann'' ''c1'' ''d9'' ''u1'' (projr ?p)"
  have 1: "schema_ok (sample_store Pending)" by code_simp
  have 2: "?p = Inr (projr ?p)" by code_simp
  have 3: "?r = Inr (projr ?r)" by code_simp
  have "run_steps scope_step [PrepareLogin ''https://one'' ''ann'', RecordDevice ''https://one'' ''ann'' ''c1'' ''d9'' ''u1'']
      (sample_store Pending) = projr ?r"
    by (simp only: run_steps.simps scope_step.simps) (subst 2, simp only: sum.case, subst 3, simp only: sum.case)
  moreover have "is_ok (assert_server_scope ''https://one'' (projr ?r))"
    using login_binds_the_scope [OF 1 2 3] by blast
  ultimately show ?thesis by (simp only:)
qed

text \<open>Logging out unpins local data: with skills and unsent mutations in the store, a logout
  followed by a login to another server and another account is accepted, and the next cycle
  against that server passes the guard with the old account's outbox still queued.\<close>

theorem logout_unpins_local_data:
  "let d' = run_steps scope_step [Logout, PrepareLogin ''https://two'' ''bob'',
           RecordDevice ''https://two'' ''bob'' ''c1'' ''d2'' ''u2''] bound_store in
   sy_server_url (sync bound_store) = Some ''https://one'' \<and> sy_server_user_id (sync bound_store) = Some ''u1''
   \<and> sy_server_url (sync d') = Some ''https://two'' \<and> sy_server_user_id (sync d') = Some ''u2''
   \<and> is_ok (assert_server_scope ''https://two'' d')
   \<and> map mu_id (dispatchable_rows 10 100 d') = [''m2'', ''m4'']"
  by code_simp

end
