(* ===== verification/Pull_Apply.thy ===== *)
theory Pull_Apply
  imports Entitlements Sync_Scope
begin

text \<open>
  Applying a page of the server's change feed (\<open>local_store/pull_apply.rs\<close>): upserts with conflict
  detection, tombstones, shipped leases and the cursor, in one transaction. A change's metadata is
  a JSON value; decoding a lease from it (\<open>serde_json::from_value\<close>) and the RFC 3339 clock are
  arguments, gathered in the record \<open>pull_env\<close>. The lookup by either key takes the first matching
  row, as \<open>query_row\<close> does.
\<close>

datatype json =
  JNull | JBool bool | JNumber string | JString string | JArray "json list" | JObject "(string \<times> json) list"

record change_item =
  ch_sequence :: int
  ch_resource_type :: string
  ch_resource_id :: string
  ch_resource_revision :: int
  ch_operation :: string
  ch_package_manifest_hash :: "string option"
  ch_metadata :: json

record changes_page =
  pg_changes :: "change_item list"
  pg_next_cursor :: string
  pg_has_more :: bool

record page_applied =
  pa_upserts :: nat
  pa_tombstones :: nat
  pa_conflicts :: nat
  pa_entitlements :: nat

record pull_env =
  decode_lease :: "json \<Rightarrow> string + entitlement_payload"
  parse_rfc3339 :: parse_instant
  to_rfc3339 :: display_instant
  temp_dir :: path

fun json_get :: "json \<Rightarrow> string \<Rightarrow> json option" where
  "json_get (JObject obj) key = map_of obj key"
| "json_get _ key = None"

fun json_as_str :: "json \<Rightarrow> string option" where
  "json_as_str (JString s) = Some s"
| "json_as_str _ = None"

definition metadata_string :: "change_item \<Rightarrow> string \<Rightarrow> string option" where
  "metadata_string ch key = Option.bind (json_get (ch_metadata ch) key) json_as_str"

text \<open>\<open>WHERE id = ?1 OR remote_id = ?1\<close>\<close>

definition by_either_id :: "string \<Rightarrow> skill_row \<Rightarrow> bool" where
  "by_either_id i r \<longleftrightarrow> sk_id r = i \<or> sk_remote_id r = Some i"

definition stale :: "int option \<Rightarrow> change_item \<Rightarrow> bool" where
  "stale existing_revision ch \<longleftrightarrow>
     (case existing_revision of None \<Rightarrow> False | Some v \<Rightarrow> ch_resource_revision ch \<le> v)"

definition locally_held :: "skill_sync_state \<Rightarrow> bool" where
  "locally_held s \<longleftrightarrow> s \<in> {Dirty, Conflict, Uploading}"

definition hash_changed :: "change_item \<Rightarrow> skill_row option \<Rightarrow> bool" where
  "hash_changed ch existing \<longleftrightarrow>
     (case (ch_package_manifest_hash ch, existing) of
        (Some h, Some r) \<Rightarrow> sk_current_blob_hash r \<noteq> [] \<and> sk_current_blob_hash r \<noteq> h
      | _ \<Rightarrow> False)"

definition pulled_state :: "change_item \<Rightarrow> skill_row option \<Rightarrow> skill_sync_state" where
  "pulled_state ch existing =
     (case existing of
        None \<Rightarrow> RemoteOnly
      | Some r \<Rightarrow> if locally_held (sk_sync_state r) then Conflict
                  else if hash_changed ch existing then RemoteOnly else Synced)"

definition mirrored_row :: "pull_env \<Rightarrow> change_item \<Rightarrow> string \<Rightarrow> skill_sync_state \<Rightarrow> bool \<Rightarrow> int \<Rightarrow> skill_row" where
  "mirrored_row env ch key st conflict now =
     \<lparr>sk_id = key, sk_remote_id = Some key, sk_name = or_else (metadata_string ch ''name'') key,
      sk_slug = or_else (metadata_string ch ''slug'') key,
      sk_workspace_path = temp_dir env @ CHR 0x5C # ch_resource_id ch,
      sk_current_blob_hash = or_else (if conflict then None else ch_package_manifest_hash ch) [],
      sk_remote_blob_hash = ch_package_manifest_hash ch,
      sk_remote_revision = Some (ch_resource_revision ch), sk_sync_state = st, sk_pinned = False,
      sk_created_at = now, sk_updated_at = now, sk_last_accessed_at = None\<rparr>"

definition refreshed_row :: "change_item \<Rightarrow> string \<Rightarrow> skill_sync_state \<Rightarrow> bool \<Rightarrow> int \<Rightarrow> skill_row \<Rightarrow> skill_row" where
  "refreshed_row ch key st conflict now r = r\<lparr>
     sk_remote_id := coalesce (sk_remote_id r) (Some key),
     sk_remote_revision := Some (ch_resource_revision ch),
     sk_remote_blob_hash := coalesce (ch_package_manifest_hash ch) (sk_remote_blob_hash r),
     sk_current_blob_hash := (if conflict then sk_current_blob_hash r
        else or_else (ch_package_manifest_hash ch) (sk_current_blob_hash r)),
     sk_name := (if conflict then sk_name r else or_else (metadata_string ch ''name'') (sk_name r)),
     sk_slug := (if conflict then sk_slug r else or_else (metadata_string ch ''slug'') (sk_slug r)),
     sk_sync_state := st, sk_updated_at := now\<rparr>"

definition apply_upsert :: "pull_env \<Rightarrow> int \<Rightarrow> change_item \<Rightarrow> store \<Rightarrow> store_error + (store \<times> nat)" where
  "apply_upsert env now ch d =
     (let existing = sql_find (by_either_id (ch_resource_id ch)) (skills d) in
      if stale (Option.bind existing sk_remote_revision) ch then Inr (d, 0)
      else
        let conflict = (case existing of None \<Rightarrow> False | Some r \<Rightarrow> locally_held (sk_sync_state r));
            st = pulled_state ch existing;
            key = (case existing of None \<Rightarrow> ch_resource_id ch | Some r \<Rightarrow> sk_id r) in
        and_then (exec (\<lambda>d. d\<lparr>skills := sql_upsert (\<lambda>r. sk_id r = key) (mirrored_row env ch key st conflict now)
                               (refreshed_row ch key st conflict now) (skills d)\<rparr>) d) (\<lambda>d'.
        Inr (d', if conflict then 1 else 0)))"

definition has_unacked :: "store \<Rightarrow> string \<Rightarrow> bool" where
  "has_unacked d skill \<longleftrightarrow> 0 < sql_count (\<lambda>m. mu_skill_id m = skill \<and> mu_state m \<noteq> Acked) (mutations d)"

definition apply_tombstone :: "int \<Rightarrow> change_item \<Rightarrow> store \<Rightarrow> store_error + store" where
  "apply_tombstone now ch d =
     (case sql_find (by_either_id (ch_resource_id ch)) (skills d) of
        None \<Rightarrow> Inr d
      | Some r \<Rightarrow>
          if stale (sk_remote_revision r) ch then Inr d
          else if has_unacked d (sk_id r) then
            exec (update_skills (\<lambda>x. sk_id x = sk_id r)
                   (\<lambda>x. x\<lparr>sk_remote_revision := Some (ch_resource_revision ch), sk_sync_state := Conflict,
                          sk_updated_at := now\<rparr>)) d
          else exec (delete_skill (sk_id r)) d)"

definition apply_change_entitlement ::
  "pull_env \<Rightarrow> int \<Rightarrow> int \<Rightarrow> change_item \<Rightarrow> store \<Rightarrow> store_error + (store \<times> nat)" where
  "apply_change_entitlement env instant now ch d =
     (if ch_operation ch = ''delete'' then Inr (d, 0)
      else case json_get (ch_metadata ch) ''entitlement'' of
        None \<Rightarrow> Inr (d, 0)
      | Some v \<Rightarrow>
          if v = JNull then Inr (d, 0)
          else case decode_lease env v of
            Inl error \<Rightarrow> Inl (InvalidPersistedState
              (''change '' @ ch_resource_id ch @ '' carries a malformed entitlement: '' @ error))
          | Inr payload \<Rightarrow>
              (case sql_find (by_either_id (ch_resource_id ch)) (skills d) of
                 None \<Rightarrow> Inr (d, 0)
               | Some r \<Rightarrow>
                   and_then (apply_entitlement (parse_rfc3339 env) (to_rfc3339 env) (sk_id r) payload instant now d)
                     (\<lambda>(d', _). Inr (d', 1))))"

definition apply_change ::
  "pull_env \<Rightarrow> int \<Rightarrow> int \<Rightarrow> change_item \<Rightarrow> store \<times> page_applied \<Rightarrow> store_error + (store \<times> page_applied)" where
  "apply_change env instant now ch = (\<lambda>(d, p).
     and_then (if ch_operation ch = ''delete''
               then and_then (apply_tombstone now ch d) (\<lambda>d1. Inr (d1, p\<lparr>pa_tombstones := pa_tombstones p + 1\<rparr>))
               else and_then (apply_upsert env now ch d) (\<lambda>(d1, c). Inr (d1, p\<lparr>pa_conflicts := pa_conflicts p + c,
                      pa_upserts := pa_upserts p + 1\<rparr>))) (\<lambda>(d1, p1).
     and_then (apply_change_entitlement env instant now ch d1) (\<lambda>(d2, e).
     Inr (d2, p1\<lparr>pa_entitlements := pa_entitlements p1 + e\<rparr>))))"

fun apply_changes ::
  "pull_env \<Rightarrow> int \<Rightarrow> int \<Rightarrow> change_item list \<Rightarrow> store \<times> page_applied \<Rightarrow> store_error + (store \<times> page_applied)" where
  "apply_changes env instant now [] s = Inr s"
| "apply_changes env instant now (ch # chs) s =
     and_then (apply_change env instant now ch s) (apply_changes env instant now chs)"

definition apply_changes_page ::
  "pull_env \<Rightarrow> int \<Rightarrow> int \<Rightarrow> changes_page \<Rightarrow> store \<Rightarrow> store_error + (store \<times> page_applied)" where
  "apply_changes_page env instant now page d =
     and_then (apply_changes env instant now (pg_changes page)
                (d, \<lparr>pa_upserts = 0, pa_tombstones = 0, pa_conflicts = 0, pa_entitlements = 0\<rparr>)) (\<lambda>(d1, p).
     and_then (record_pull_cursor (pg_next_cursor page) now d1) (\<lambda>d2. Inr (d2, p)))"

definition sync_cursor :: "store \<Rightarrow> string option" where
  "sync_cursor d = sy_server_cursor (sync_state d)"

section \<open>The outbox contract\<close>

lemma by_either_id_find: "sql_find (by_either_id i) rows = Some r \<Longrightarrow> r \<in> set rows \<and> by_either_id i r"
  by (rule sql_find_Some)

definition retained :: "store \<Rightarrow> store \<Rightarrow> bool" where
  "retained d d' \<longleftrightarrow> outbox_inv d' \<and> kept d d'
     \<and> (\<forall>m \<in> set (mutations d'). m \<in> set (mutations d))
     \<and> (\<forall>m \<in> set (mutations d). mu_state m \<noteq> Acked \<longrightarrow> m \<in> set (mutations d'))"

lemma retainedI:
  assumes "outbox_inv d" and "outbox_inv d'" and "set (mutations d') \<subseteq> set (mutations d)"
    and "\<And>m. m \<in> set (mutations d) \<Longrightarrow> mu_state m \<noteq> Acked \<Longrightarrow> m \<in> set (mutations d')"
  shows "retained d d'"
proof -
  have "kept d d'" unfolding kept_def
  proof
    fix m assume m: "m \<in> set (mutations d)"
    show "(\<exists>n \<in> set (mutations d'). continues m n) \<or> (mu_state m = Acked \<and> mu_id m \<notin> mu_id ` set (mutations d'))"
    proof (cases "m \<in> set (mutations d')")
      case True
      then show ?thesis using continues_refl by blast
    next
      case False
      have "mu_id m \<noteq> mu_id n" if "n \<in> set (mutations d')" for n
        using that assms(1,3) m False schema_mutation_unique [of d m n] by (auto simp: outbox_inv_def)
      then show ?thesis using assms(4) [OF m] False by auto
    qed
  qed
  with assms show ?thesis by (auto simp: retained_def)
qed

lemma retained_same_mutations:
  "outbox_inv d \<Longrightarrow> schema_ok d' \<Longrightarrow> mutations d' = mutations d \<Longrightarrow> retained d d'"
  using outbox_step_other_table [of d d'] by (simp add: retained_def outbox_step_inv outbox_step_kept)

text \<open>Pages only ever remove acked rows, so the effect on the outbox composes.\<close>

lemma retained_trans:
  assumes "outbox_inv a" and ab: "retained a b" and bc: "retained b c"
  shows "retained a c"
proof (rule retainedI [OF assms(1)])
  show "outbox_inv c" using bc by (simp add: retained_def)
  show "set (mutations c) \<subseteq> set (mutations a)" using ab bc unfolding retained_def by blast
  show "m \<in> set (mutations c)" if "m \<in> set (mutations a)" "mu_state m \<noteq> Acked" for m
    using that ab bc unfolding retained_def by blast
qed

lemma retained_refl: "outbox_inv d \<Longrightarrow> retained d d"
  by (simp add: retained_same_mutations outbox_inv_def)

lemma retained_inv: "retained d d' \<Longrightarrow> outbox_inv d'"
  by (simp add: retained_def)

lemma apply_upsert_retained:
  assumes "outbox_inv d" and "apply_upsert env now ch d = Inr (d', c)"
  shows "retained d d'"
proof -
  have "d' = d \<or> schema_ok d' \<and> mutations d' = mutations d"
    using assms(2) by (auto simp: apply_upsert_def Let_def result_simps split: if_splits)
  then show ?thesis using assms(1) retained_refl retained_same_mutations by blast
qed

lemma delete_skill_retained:
  assumes "outbox_inv d" and "\<not> has_unacked d key"
  shows "retained d (delete_skill key d)"
proof (rule retainedI [OF assms(1)])
  show "outbox_inv (delete_skill key d)"
    using assms(1) schema_ok_delete_skill causal_delete_skill by (simp add: outbox_inv_def)
  have "mutations (delete_skill key d) = filter (\<lambda>m. mu_skill_id m \<noteq> key) (mutations d)"
    by (simp add: delete_skill_def sql_delete_def)
  then show "set (mutations (delete_skill key d)) \<subseteq> set (mutations d)"
    and "m \<in> set (mutations d) \<Longrightarrow> mu_state m \<noteq> Acked \<Longrightarrow> m \<in> set (mutations (delete_skill key d))" for m
    using assms(2) unfolding has_unacked_def sql_count_pos by auto
qed

lemma apply_tombstone_retained:
  assumes "outbox_inv d" and "apply_tombstone now ch d = Inr d'"
  shows "retained d d'"
proof -
  show ?thesis
  proof (cases "sql_find (by_either_id (ch_resource_id ch)) (skills d)")
    case None
    then show ?thesis using assms retained_refl by (simp add: apply_tombstone_def)
  next
    case (Some r)
    show ?thesis
    proof (cases "stale (sk_remote_revision r) ch")
      case True
      then show ?thesis using Some assms retained_refl by (simp add: apply_tombstone_def)
    next
      case False
      then show ?thesis
        using Some assms delete_skill_retained [OF assms(1), of "sk_id r"]
        by (cases "has_unacked d (sk_id r)") (auto simp: apply_tombstone_def exec_Inr_iff intro: retained_same_mutations)
    qed
  qed
qed

lemma apply_entitlement_mutations:
  assumes "outbox_inv d" and "apply_entitlement parse display skill payload instant now d = Inr (d', r)"
  shows "retained d d'"
proof -
  have "schema_ok d' \<and> mutations d' = mutations d"
    using assms(2) by (auto simp: apply_entitlement_def reconcile_lease_def result_simps Let_def split: if_splits)
  then show ?thesis using assms(1) retained_same_mutations by blast
qed

lemma apply_change_entitlement_retained:
  assumes "outbox_inv d" and "apply_change_entitlement env instant now ch d = Inr (d', n)"
  shows "retained d d'"
  using assms apply_entitlement_mutations [OF assms(1)] retained_refl [OF assms(1)]
  by (auto simp: apply_change_entitlement_def result_simps split: if_splits option.splits sum.splits)

lemma apply_change_retained:
  assumes "outbox_inv d" and "apply_change env instant now ch (d, p) = Inr (d', p')"
  shows "retained d d'"
proof -
  obtain d1 e where d1: "apply_tombstone now ch d = Inr d1 \<or> (\<exists>c. apply_upsert env now ch d = Inr (d1, c))"
      and e: "apply_change_entitlement env instant now ch d1 = Inr (d', e)"
    using assms(2) by (auto simp: apply_change_def result_simps split: if_splits)
  have "retained d d1" using d1 apply_tombstone_retained [OF assms(1)] apply_upsert_retained [OF assms(1)] by blast
  then show ?thesis
    using apply_change_entitlement_retained [OF retained_inv e] retained_trans [OF assms(1)] by blast
qed

lemma apply_changes_retained:
  "outbox_inv d \<Longrightarrow> apply_changes env instant now chs (d, p) = Inr (d', p') \<Longrightarrow> retained d d'"
proof (induction chs arbitrary: d p)
  case Nil
  then show ?case by (simp add: retained_refl)
next
  case (Cons ch chs)
  then obtain d1 p1 where d1: "apply_change env instant now ch (d, p) = Inr (d1, p1)"
      "apply_changes env instant now chs (d1, p1) = Inr (d', p')"
    by (auto simp: result_simps)
  have "retained d d1" using apply_change_retained [OF Cons.prems(1) d1(1)] .
  then show ?case using Cons.IH [OF _ d1(2)] retained_inv retained_trans [OF Cons.prems(1)] by blast
qed

lemma apply_changes_page_retained:
  assumes "outbox_inv d" and "apply_changes_page env instant now page d = Inr (d', p)"
  shows "retained d d'"
proof -
  obtain d1 p0 p1 where d1: "apply_changes env instant now (pg_changes page) (d, p0) = Inr (d1, p1)"
      and c: "record_pull_cursor (pg_next_cursor page) now d1 = Inr d'"
    using assms(2) by (auto simp: apply_changes_page_def result_simps)
  have r1: "retained d d1" using apply_changes_retained [OF assms(1) d1] .
  have "schema_ok d'" "mutations d' = mutations d1"
    using c by (auto simp: record_pull_cursor_def result_simps)
  then show ?thesis using retained_trans [OF assms(1) r1 retained_same_mutations [OF retained_inv [OF r1]]] by blast
qed

interpretation pull_op: outbox_operation "\<lambda>(env, instant, now, page). apply_changes_page env instant now page"
proof
  fix a :: "pull_env \<times> int \<times> int \<times> changes_page" and d d' r
  assume inv: "outbox_inv d"
    and "(case a of (env, instant, now, page) \<Rightarrow> apply_changes_page env instant now page) d = Inr (d', r)"
  then have "retained d d'" by (cases a) (auto intro: apply_changes_page_retained)
  then show "outbox_inv d'" and "kept d d'" by (simp_all add: retained_def)
qed

end
