(* ===== verification/Pull_Properties.thy ===== *)
theory Pull_Properties
  imports Pull_Apply
begin

text \<open>
  Properties of the entitlement leases and of the pull: expiry reaches exactly the due skills and
  leaves none behind, a page never loses unsent work nor the content of a skill edited locally,
  revisions only grow, and two places where the code departs from its documentation.
\<close>

section \<open>A clock for the witnesses\<close>

text \<open>Instants written in unary: text order is time order and reading back is exact.\<close>

definition tally_parse :: parse_instant where
  "tally_parse s = (if list_all (\<lambda>c. c = CHR ''i'') s then Inr (int (length s)) else Inl ''not an instant'')"

definition tally_display :: display_instant where
  "tally_display a = replicate (nat a) (CHR ''i'')"

lemma replicate_le: "replicate n (c::char) \<le> replicate k c \<longleftrightarrow> n \<le> k"
proof (induction n arbitrary: k)
  case (Suc n)
  then show ?case by (cases k) (simp_all add: Cons_le_Cons)
qed simp

lemma tally_clock: "rfc3339_clock tally_parse tally_display"
  by (auto simp: rfc3339_clock_def tally_parse_def tally_display_def replicate_le list_all_iff)

definition decode_lease_sample :: "json \<Rightarrow> string + entitlement_payload" where
  "decode_lease_sample v =
     (case (Option.bind (json_get v ''lease'') json_as_str, Option.bind (json_get v ''offline_policy'') json_as_str) of
        (Some l, Some p) \<Rightarrow>
          Inr \<lparr>ep_lease = l, ep_permission_level = ''read'', ep_offline_policy = p, ep_offline_ttl_hours = None,
               ep_issued_at = None, ep_expires_at = Option.bind (json_get v ''expires_at'') json_as_str\<rparr>
      | _ \<Rightarrow> Inl ''missing field'')"

definition sample_env :: pull_env where
  "sample_env = \<lparr>decode_lease = decode_lease_sample, parse_rfc3339 = tally_parse,
     to_rfc3339 = tally_display, temp_dir = ''/tmp''\<rparr>"

section \<open>Expiry\<close>

definition stored_leases_readable :: "display_instant \<Rightarrow> store \<Rightarrow> bool" where
  "stored_leases_readable display d \<longleftrightarrow>
     (\<forall>e \<in> set (entitlements d). \<forall>t. en_expires_at e = Some t \<longrightarrow> (\<exists>a \<ge> 0. t = display a))"

lemma expire_ids_simps [simp]:
  "entitlements (expire_ids now ids d) = entitlements d"
  "skills (expire_ids now ids d) = sql_update (\<lambda>r. sk_id r \<in> ids \<and> expirable (sk_sync_state r)) (revoked_skill now) (skills d)"
  "deployments (expire_ids now ids d)
   = sql_update (\<lambda>x. de_skill_id x \<in> ids \<and> deployment_active (de_state x)) expired_deployment (deployments d)"
  by (simp_all add: expire_ids_def)

lemma revoked_not_expirable [simp]: "\<not> expirable (sk_sync_state (revoked_skill now r))" "sk_id (revoked_skill now r) = sk_id r"
  by (simp_all add: expirable_def revoked_skill_def)

lemma expired_lease_is_due:
  assumes "rfc3339_clock parse display" and "stored_leases_readable display d" and "0 \<le> instant"
    and "r \<in> set (skills d)" and "expirable (sk_sync_state r)"
    and "get_entitlement (sk_id r) d = Some e" and "en_expires_at e = Some t"
    and "\<not> entitlement_allows_offline_use parse (Some e) instant"
  shows "e \<in> set (entitlements d) \<and> due (display instant) d e \<and> en_skill_id e = sk_id r"
proof -
  have e: "e \<in> set (entitlements d)" "en_skill_id e = sk_id r"
    using sql_find_Some [OF assms(6) [unfolded get_entitlement_def]] by simp_all
  then obtain a where a: "0 \<le> a" "t = display a" using assms(2,7) by (auto simp: stored_leases_readable_def)
  then have "a \<le> instant"
    using assms(1,7,8) by (auto simp: entitlement_allows_offline_use_def rfc3339_clock_def)
  then have "t \<le> display instant" using assms(1,3) a by (auto simp: rfc3339_clock_def)
  then show ?thesis using e assms(4,5,7) by (auto simp: due_def list_ex_iff)
qed

text \<open>Expiring leases at startup cannot fail and is complete: afterwards no remote-only, synced or
  failing skill has a lease with an expiry that has passed. The skills it reports are revoked with
  their active deployments; every other skill, and all local content, is untouched; a second run
  at the same instant finds nothing.\<close>

theorem expiry_is_complete:
  assumes "schema_ok d" and "rfc3339_clock parse display" and "stored_leases_readable display d" and "0 \<le> instant"
  shows "\<exists>d' ids. expire_due_entitlements display instant now d = Inr (d', ids)
    \<and> (\<forall>r \<in> set (skills d'). expirable (sk_sync_state r) \<longrightarrow>
         (\<forall>e. get_entitlement (sk_id r) d' = Some e \<longrightarrow> en_expires_at e \<noteq> None
            \<longrightarrow> entitlement_allows_offline_use parse (Some e) instant))
    \<and> (\<forall>i \<in> set ids. read_skill_state d' i = Some AccessRevoked)
    \<and> (\<forall>x \<in> set (deployments d'). de_skill_id x \<in> set ids \<longrightarrow> \<not> deployment_active (de_state x))
    \<and> (\<forall>r \<in> set (skills d). sk_id r \<notin> set ids \<or> \<not> expirable (sk_sync_state r) \<longrightarrow> r \<in> set (skills d'))
    \<and> map sk_current_blob_hash (skills d') = map sk_current_blob_hash (skills d)
    \<and> expire_due_entitlements display instant later d' = Inr (d', [])"
proof -
  define ids where "ids = map en_skill_id (filter (due (display instant) d) (entitlements d))"
  let ?d' = "expire_ids now (set ids) d"
  have ok': "schema_ok ?d'" using assms(1) by (rule schema_ok_expire_ids)
  have left: "r \<in> set (skills d)" "sk_id r \<notin> set ids" if "r \<in> set (skills ?d')" "expirable (sk_sync_state r)" for r
    using that by (auto simp: set_sql_update split: if_splits)
  have allowed: "entitlement_allows_offline_use parse (Some e) instant"
    if r: "r \<in> set (skills ?d')" "expirable (sk_sync_state r)" and e: "get_entitlement (sk_id r) ?d' = Some e" "en_expires_at e = Some t" for r e t
  proof (rule ccontr)
    assume "\<not> ?thesis"
    moreover have "get_entitlement (sk_id r) d = Some e" using e by (simp add: get_entitlement_def)
    ultimately have "e \<in> set (entitlements d) \<and> due (display instant) d e \<and> en_skill_id e = sk_id r"
      using expired_lease_is_due [OF assms(2-4) left(1) [OF r] r(2) _ e(2)] by blast
    then have "sk_id r \<in> set ids" by (force simp: ids_def)
    with left(2) [OF r] show False by simp
  qed
  have revoked: "read_skill_state ?d' i = Some AccessRevoked" if i: "i \<in> set ids" for i
  proof -
    obtain s where "s \<in> set (skills d)" "sk_id s = i" "expirable (sk_sync_state s)"
      using i by (auto simp: ids_def due_def list_ex_iff)
    moreover from this have "revoked_skill now s \<in> set (skills ?d')"
      using that by (auto simp: set_sql_update image_iff)
    ultimately show ?thesis
      using schema_find_skill [OF ok', of "revoked_skill now s"] by (simp add: read_skill_state_def revoked_skill_def)
  qed
  have "filter (due (display instant) ?d') (entitlements ?d') = []"
  proof -
    have "\<not> due (display instant) ?d' e" if e: "e \<in> set (entitlements d)" for e
    proof
      assume "due (display instant) ?d' e"
      then obtain s where s: "s \<in> set (skills ?d')" "sk_id s = en_skill_id e" "expirable (sk_sync_state s)"
          and t: "case en_expires_at e of None \<Rightarrow> False | Some t \<Rightarrow> t \<le> display instant"
        unfolding due_def list_ex_iff by blast
      then have "due (display instant) d e" using left(1) by (auto simp: due_def list_ex_iff)
      then have "sk_id s \<in> set ids" using e s(2) by (auto simp: ids_def)
      with left(2) [OF s(1,3)] show False by simp
    qed
    then show ?thesis by (simp add: filter_empty_conv)
  qed
  then have again: "expire_due_entitlements display instant later ?d' = Inr (?d', [])"
    unfolding expire_due_exact [OF ok'] Let_def by (simp only: list.map set_simps expire_ids_empty)
  have kept: "r \<in> set (skills ?d')" if "r \<in> set (skills d)" "sk_id r \<notin> set ids \<or> \<not> expirable (sk_sync_state r)" for r
    using that by (auto simp: set_sql_update)
  have "map sk_current_blob_hash (skills ?d') = map sk_current_blob_hash (skills d)"
    by (simp add: map_sql_update revoked_skill_def)
  moreover have "\<not> deployment_active (de_state x)" if "x \<in> set (deployments ?d')" "de_skill_id x \<in> set ids" for x
    using that by (auto simp: set_sql_update expired_deployment_def deployment_active_def)
  ultimately show ?thesis
    using expire_due_exact [OF assms(1), of display instant now] allowed revoked kept again
    unfolding ids_def [symmetric] Let_def by (intro exI [of _ ?d'] exI [of _ ids]) blast
qed

definition leased_store :: store where
  "leased_store = fresh_store\<lparr>skills := [sample_skill ''s1'' (Some ''r1'') Synced (Some 4), sample_skill ''s2'' None Dirty None],
     entitlements := [\<lparr>en_skill_id = ''s1'', en_lease = ''l'', en_permission_level = ''read'', en_offline_policy = ''ttl'',
       en_offline_ttl_hours = Some 1, en_issued_at = None, en_expires_at = Some (tally_display 5)\<rparr>]\<rparr>"

theorem expiry_is_complete_witness:
  "\<exists>d'. expire_due_entitlements tally_display 7 90 leased_store = Inr (d', [''s1''])
     \<and> read_skill_state d' ''s1'' = Some AccessRevoked"
proof -
  have "schema_ok leased_store" by code_simp
  moreover have "stored_leases_readable tally_display leased_store"
    by (auto simp: stored_leases_readable_def leased_store_def intro: exI [of _ 5])
  ultimately obtain d' ids where *: "expire_due_entitlements tally_display 7 90 leased_store = Inr (d', ids)"
      "\<forall>i \<in> set ids. read_skill_state d' i = Some AccessRevoked"
    using expiry_is_complete [OF _ tally_clock, of leased_store 7 90 0] by fastforce
  moreover have "snd (projr (expire_due_entitlements tally_display 7 90 leased_store)) = [''s1'']" by code_simp
  ultimately show ?thesis by auto
qed

section \<open>The pull keeps local work\<close>

lemma has_unacked_iff: "has_unacked d i \<longleftrightarrow> (\<exists>m \<in> set (mutations d). mu_skill_id m = i \<and> mu_state m \<noteq> Acked)"
  unfolding has_unacked_def sql_count_pos by blast

lemma retained_has_unacked: "retained d d' \<Longrightarrow> has_unacked d i \<Longrightarrow> has_unacked d' i"
  unfolding has_unacked_iff retained_def by blast

text \<open>What a page keeps of a skill with unsent work.\<close>

definition revision_le :: "int option \<Rightarrow> int option \<Rightarrow> bool" where
  "revision_le a b \<longleftrightarrow> (case a of None \<Rightarrow> True | Some v \<Rightarrow> (case b of None \<Rightarrow> False | Some w \<Rightarrow> v \<le> w))"

lemma revision_le_refl [simp]: "revision_le a a"
  and revision_le_trans: "revision_le a b \<Longrightarrow> revision_le b c \<Longrightarrow> revision_le a c"
  by (auto simp: revision_le_def split: option.splits)

definition same_content :: "skill_row \<Rightarrow> skill_row \<Rightarrow> bool" where
  "same_content r s \<longleftrightarrow> sk_id s = sk_id r \<and> sk_current_blob_hash s = sk_current_blob_hash r
     \<and> sk_name s = sk_name r \<and> sk_slug s = sk_slug r \<and> sk_workspace_path s = sk_workspace_path r
     \<and> locally_held (sk_sync_state s) \<and> revision_le (sk_remote_revision r) (sk_remote_revision s)"

definition content_kept :: "store \<Rightarrow> store \<Rightarrow> bool" where
  "content_kept d d' \<longleftrightarrow> (\<forall>r \<in> set (skills d). locally_held (sk_sync_state r) \<longrightarrow> has_unacked d (sk_id r)
     \<longrightarrow> (\<exists>s \<in> set (skills d'). same_content r s))"

lemma content_kept_refl: "content_kept d d"
  by (auto simp: content_kept_def same_content_def)

lemma content_kept_trans:
  assumes "content_kept a b" and "content_kept b c" and "retained a b"
  shows "content_kept a c"
  unfolding content_kept_def
proof (intro ballI impI)
  fix r assume r: "r \<in> set (skills a)" "locally_held (sk_sync_state r)" "has_unacked a (sk_id r)"
  then obtain s where s: "s \<in> set (skills b)" "same_content r s" using assms(1) by (auto simp: content_kept_def)
  moreover have "has_unacked b (sk_id s)" using r(3) s(2) retained_has_unacked [OF assms(3)] by (simp add: same_content_def)
  ultimately obtain t where "t \<in> set (skills c)" "same_content s t"
    using assms(2) by (auto simp: content_kept_def same_content_def)
  with s(2) have "same_content r t" by (auto simp: same_content_def intro: revision_le_trans)
  then show "\<exists>t \<in> set (skills c). same_content r t" using \<open>t \<in> set (skills c)\<close> by blast
qed

lemma content_kept_update:
  assumes "\<And>r. r \<in> set (skills d) \<Longrightarrow> P r \<Longrightarrow> locally_held (sk_sync_state r) \<Longrightarrow> same_content r (f r)"
  shows "content_kept d (d\<lparr>skills := sql_update P f (skills d)\<rparr>)"
  unfolding content_kept_def
proof (intro ballI impI)
  fix r assume r: "r \<in> set (skills d)" "locally_held (sk_sync_state r)"
  then have "(if P r then f r else r) \<in> set (skills (d\<lparr>skills := sql_update P f (skills d)\<rparr>))" by (simp add: set_sql_update)
  moreover have "same_content r (if P r then f r else r)"
    using assms [OF r(1)] r(2) by (auto simp: same_content_def)
  ultimately show "\<exists>s \<in> set (skills (d\<lparr>skills := sql_update P f (skills d)\<rparr>)). same_content r s" by blast
qed

lemmas content_kept_update_skills = content_kept_update [folded update_skills_def]

lemma content_kept_same_skills: "skills d' = skills d \<Longrightarrow> content_kept d d'"
  by (auto simp: content_kept_def same_content_def)

lemma apply_upsert_content:
  assumes "outbox_inv d" and "apply_upsert env now ch d = Inr (d', c)"
  shows "content_kept d d'"
proof (cases "sql_find (by_either_id (ch_resource_id ch)) (skills d)")
  case None
  then have new: "\<not> list_ex (\<lambda>r. sk_id r = ch_resource_id ch) (skills d)"
    unfolding sql_find_None by (auto simp: by_either_id_def list_ex_iff)
  have "set (skills d) \<subseteq> set (skills d')"
    using assms(2) new
    by (auto simp: apply_upsert_def None Let_def stale_def exec_Inr_iff and_then_Inr_iff sql_upsert_def)
  then show ?thesis by (auto simp: content_kept_def same_content_def)
next
  case (Some r)
  then have r: "r \<in> set (skills d)" by (auto dest: sql_find_Some)
  have only: "x = r" if "x \<in> set (skills d)" "sk_id x = sk_id r" for x
    using schema_skill_unique that r assms(1) by (auto simp: outbox_inv_def)
  show ?thesis
  proof (cases "stale (sk_remote_revision r) ch")
    case True
    then show ?thesis using assms(2) Some by (simp add: apply_upsert_def Let_def content_kept_refl)
  next
    case False
    have "list_ex (\<lambda>x. sk_id x = sk_id r) (skills d)" using r by (auto simp: list_ex_iff)
    then have d': "d' = d\<lparr>skills := sql_update (\<lambda>x. sk_id x = sk_id r)
        (refreshed_row ch (sk_id r) (pulled_state ch (Some r)) (locally_held (sk_sync_state r)) now) (skills d)\<rparr>"
      using assms(2) Some False by (auto simp: apply_upsert_def Let_def exec_Inr_iff and_then_Inr_iff sql_upsert_def)
    show ?thesis unfolding d'
    proof (rule content_kept_update)
      fix x assume "x \<in> set (skills d)" "sk_id x = sk_id r" "locally_held (sk_sync_state x)"
      then have "x = r" "locally_held (sk_sync_state r)" using only by auto
      then show "same_content x (refreshed_row ch (sk_id r) (pulled_state ch (Some r)) (locally_held (sk_sync_state r)) now x)"
        using False by (auto simp: same_content_def refreshed_row_def pulled_state_def locally_held_def stale_def revision_le_def split: option.splits)
    qed
  qed
qed

lemma apply_tombstone_content:
  assumes "outbox_inv d" and "apply_tombstone now ch d = Inr d'"
  shows "content_kept d d'"
proof (cases "sql_find (by_either_id (ch_resource_id ch)) (skills d)")
  case None
  then show ?thesis using assms(2) by (simp add: apply_tombstone_def content_kept_refl)
next
  case (Some r)
  let ?f = "\<lambda>x. x\<lparr>sk_remote_revision := Some (ch_resource_revision ch), sk_sync_state := Conflict, sk_updated_at := now\<rparr>"
  have r: "r \<in> set (skills d)" using Some by (auto dest: sql_find_Some)
  have "(if stale (sk_remote_revision r) ch then Inr d
         else if has_unacked d (sk_id r) then exec (update_skills (\<lambda>x. sk_id x = sk_id r) ?f) d
         else exec (delete_skill (sk_id r)) d) = Inr d'"
    using assms(2) Some by (simp add: apply_tombstone_def)
  then consider "d' = d" | "\<not> stale (sk_remote_revision r) ch" "d' = update_skills (\<lambda>x. sk_id x = sk_id r) ?f d"
    | "\<not> has_unacked d (sk_id r)" "d' = delete_skill (sk_id r) d"
    by (metis exec_Inr_iff sum.inject(2))
  then show ?thesis
  proof cases
    case 1
    then show ?thesis by (simp add: content_kept_refl)
  next
    case 2
    show ?thesis unfolding 2(2) update_skills_def
    proof (rule content_kept_update)
      fix x assume "x \<in> set (skills d)" "sk_id x = sk_id r"
      then have "x = r" using schema_skill_unique r assms(1) by (auto simp: outbox_inv_def)
      then show "same_content x (?f x)"
        using 2(1) by (auto simp: same_content_def locally_held_def stale_def revision_le_def split: option.splits)
    qed
  next
    case 3
    have "r' \<in> set (skills d')" if "r' \<in> set (skills d)" "has_unacked d (sk_id r')" for r'
      using that 3 by (auto simp: delete_skill_def set_sql_delete)
    then show ?thesis by (auto simp: content_kept_def same_content_def)
  qed
qed

lemma apply_entitlement_content:
  assumes "apply_entitlement parse display skill payload instant now d = Inr (d', r)"
  shows "content_kept d d'"
proof -
  obtain e expired where "reconcile_lease expired skill now (upsert_lease e d) = Inr d'"
    using assms by (auto simp: apply_entitlement_def result_simps Let_def)
  then have "content_kept (upsert_lease e d) d'"
    by (auto simp: reconcile_lease_def exec_Inr_iff locally_held_def split: if_splits intro!: content_kept_update_skills)
  then show ?thesis by (simp add: content_kept_def has_unacked_def)
qed

lemma apply_change_entitlement_content:
  "apply_change_entitlement env instant now ch d = Inr (d', n) \<Longrightarrow> content_kept d d'"
  by (auto simp: apply_change_entitlement_def result_simps content_kept_refl
      split: if_splits option.splits sum.splits dest: apply_entitlement_content)

lemma apply_change_content:
  assumes "outbox_inv d" and "apply_change env instant now ch (d, p) = Inr (d', p')"
  shows "content_kept d d'"
proof -
  obtain d1 e where d1: "apply_tombstone now ch d = Inr d1 \<or> (\<exists>c. apply_upsert env now ch d = Inr (d1, c))"
      and e: "apply_change_entitlement env instant now ch d1 = Inr (d', e)"
    using assms(2) by (auto simp: apply_change_def result_simps split: if_splits)
  have "retained d d1" using d1 apply_tombstone_retained [OF assms(1)] apply_upsert_retained [OF assms(1)] by blast
  moreover have "content_kept d d1" using d1 apply_tombstone_content [OF assms(1)] apply_upsert_content [OF assms(1)] by blast
  ultimately show ?thesis using apply_change_entitlement_content [OF e] content_kept_trans by blast
qed

lemma apply_changes_content:
  "outbox_inv d \<Longrightarrow> apply_changes env instant now chs (d, p) = Inr (d', p') \<Longrightarrow> content_kept d d'"
proof (induction chs arbitrary: d p)
  case Nil
  then show ?case by (simp add: content_kept_refl)
next
  case (Cons ch chs)
  then obtain d1 p1 where d1: "apply_change env instant now ch (d, p) = Inr (d1, p1)"
      "apply_changes env instant now chs (d1, p1) = Inr (d', p')"
    by (auto simp: result_simps)
  have r: "retained d d1" using apply_change_retained [OF Cons.prems(1) d1(1)] .
  have "content_kept d d1" using apply_change_content [OF Cons.prems(1) d1(1)] .
  then show ?case using Cons.IH [OF retained_inv [OF r] d1(2)] r by (rule content_kept_trans)
qed

lemma apply_changes_page_Inr:
  assumes "apply_changes_page env instant now page d = Inr (d', p)"
  obtains d1 p0 where "apply_changes env instant now (pg_changes page) (d, p0) = Inr (d1, p)"
    and "skills d' = skills d1" "mutations d' = mutations d1" "sync_cursor d' = Some (pg_next_cursor page)"
  using assms that
  by (auto simp: apply_changes_page_def result_simps record_pull_cursor_def sync_cursor_def sync_state_def)

text \<open>C19: Applying a page never loses local work. Every mutation that is not acked stays exactly as it
  was, together with its skill; a skill the user is editing (dirty, uploading or in conflict) that
  still has unsent work keeps its content hash, name, slug and workspace, ends in conflict or as
  it was, and its recorded revision never goes back; and the page's cursor is committed with it.\<close>

theorem pull_keeps_local_work:
  assumes "outbox_inv d" and "apply_changes_page env instant now page d = Inr (d', p)"
  shows "(\<forall>m \<in> set (mutations d). mu_state m \<noteq> Acked \<longrightarrow> m \<in> set (mutations d')
            \<and> (\<exists>s \<in> set (skills d'). sk_id s = mu_skill_id m))
       \<and> (\<forall>r \<in> set (skills d). locally_held (sk_sync_state r) \<and> has_unacked d (sk_id r)
            \<longrightarrow> (\<exists>s \<in> set (skills d'). same_content r s))
       \<and> sync_cursor d' = Some (pg_next_cursor page)"
proof -
  have r: "retained d d'" using apply_changes_page_retained [OF assms] .
  obtain d1 p0 where d1: "apply_changes env instant now (pg_changes page) (d, p0) = Inr (d1, p)"
      "skills d' = skills d1" "sync_cursor d' = Some (pg_next_cursor page)"
    using assms(2) by (rule apply_changes_page_Inr)
  have "content_kept d d'" using apply_changes_content [OF assms(1) d1(1)] d1(2) by (simp add: content_kept_def)
  moreover have "\<exists>s \<in> set (skills d'). sk_id s = mu_skill_id m" if "m \<in> set (mutations d')" for m
    using retained_inv [OF r] that schema_mutation_skill by (auto simp: outbox_inv_def)
  ultimately show ?thesis using r d1(3) by (auto simp: retained_def content_kept_def)
qed

definition change :: "string \<Rightarrow> int \<Rightarrow> string \<Rightarrow> string option \<Rightarrow> json \<Rightarrow> change_item" where
  "change i revision op h meta = \<lparr>ch_sequence = 1, ch_resource_type = ''skill'', ch_resource_id = i,
     ch_resource_revision = revision, ch_operation = op, ch_package_manifest_hash = h, ch_metadata = meta\<rparr>"

definition page_of :: "change_item list \<Rightarrow> changes_page" where
  "page_of chs = \<lparr>pg_changes = chs, pg_next_cursor = ''v1.B'', pg_has_more = False\<rparr>"

definition lease_meta :: json where
  "lease_meta = JObject [(''name'', JString ''Remote''), (''entitlement'', JObject [(''lease'', JString ''l''),
     (''offline_policy'', JString ''ttl''), (''expires_at'', JString (tally_display 9))])]"

theorem pull_keeps_local_work_witness:
  "let d' = fst (projr (apply_changes_page sample_env 7 90 (page_of [change ''r1'' 9 ''update'' (Some hash_b) JNull,
        change ''s2'' 3 ''delete'' None JNull, change ''r9'' 1 ''update'' (Some hash_b) lease_meta]) (sample_store InFlight))) in
   sample_mutation ''m2'' ''s1'' 2 InFlight \<in> set (mutations d')
   \<and> (\<exists>s \<in> set (skills d'). same_content (sample_skill ''s1'' (Some ''r1'') Dirty (Some 4)) s)
   \<and> map sk_sync_state (skills d') = [Conflict, Conflict, RemoteOnly]"
proof -
  let ?p = "page_of [change ''r1'' 9 ''update'' (Some hash_b) JNull,
        change ''s2'' 3 ''delete'' None JNull, change ''r9'' 1 ''update'' (Some hash_b) lease_meta]"
  let ?r = "apply_changes_page sample_env 7 90 ?p (sample_store InFlight)"
  let ?s1 = "sample_skill ''s1'' (Some ''r1'') Dirty (Some 4)" and ?m2 = "sample_mutation ''m2'' ''s1'' 2 InFlight"
  have inv: "outbox_inv (sample_store InFlight)" by code_simp
  have run: "?r = Inr (fst (projr ?r), snd (projr ?r))" by code_simp
  have "?m2 \<in> set (mutations (sample_store InFlight))" "mu_state ?m2 \<noteq> Acked" by code_simp+
  moreover have "?s1 \<in> set (skills (sample_store InFlight))" "locally_held (sk_sync_state ?s1)"
      "has_unacked (sample_store InFlight) (sk_id ?s1)" by code_simp+
  moreover have "map sk_sync_state (skills (fst (projr ?r))) = [Conflict, Conflict, RemoteOnly]" by code_simp
  ultimately show ?thesis using pull_keeps_local_work [OF inv run] unfolding Let_def by blast
qed

text \<open>A change that is not newer than the recorded revision is ignored: a retried or stale page
  moves no skill backwards, whether it is an upsert or a tombstone.\<close>

theorem stale_changes_are_ignored:
  assumes "schema_ok d" and "r \<in> set (skills d)" and "sql_find (by_either_id (ch_resource_id ch)) (skills d) = Some r"
    and "sk_remote_revision r = Some v" and "ch_resource_revision ch \<le> v"
    and "json_get (ch_metadata ch) ''entitlement'' = None"
  shows "\<exists>q. apply_change env instant now ch (d, p) = Inr (d, q) \<and> pa_conflicts q = pa_conflicts p"
  using assms by (auto simp: apply_change_def apply_tombstone_def apply_upsert_def stale_def
      apply_change_entitlement_def Let_def)

theorem stale_changes_are_ignored_witness:
  "\<exists>q. apply_change sample_env 7 90 (change ''r1'' 4 ''delete'' None JNull)
     (sample_store Pending, \<lparr>pa_upserts = 0, pa_tombstones = 0, pa_conflicts = 0, pa_entitlements = 0\<rparr>)
     = Inr (sample_store Pending, q) \<and> pa_conflicts q = 0"
proof -
  let ?s1 = "sample_skill ''s1'' (Some ''r1'') Dirty (Some 4)" and ?ch = "change ''r1'' 4 ''delete'' None JNull"
  have "schema_ok (sample_store Pending)" "?s1 \<in> set (skills (sample_store Pending))"
    "sql_find (by_either_id (ch_resource_id ?ch)) (skills (sample_store Pending)) = Some ?s1"
    "sk_remote_revision ?s1 = Some 4" "ch_resource_revision ?ch \<le> 4" "json_get (ch_metadata ?ch) ''entitlement'' = None"
    by code_simp+
  from stale_changes_are_ignored [OF this, of sample_env 7 90 "\<lparr>pa_upserts = 0, pa_tombstones = 0, pa_conflicts = 0, pa_entitlements = 0\<rparr>"]
  show ?thesis by simp
qed

section \<open>Departures from the documentation\<close>

definition single_store :: "skill_sync_state \<Rightarrow> store" where
  "single_store st = fresh_store\<lparr>skills := [sample_skill ''s1'' (Some ''r1'') st (Some 4)]\<rparr>"

definition ack_delete :: outcome where
  "ack_delete = \<lparr>oc_mutation_id = ''m1'', oc_status = ''acked'', oc_remote_skill_id = Some ''r1'',
     oc_revision = Some 5, oc_conflict_head_revision = None, oc_conflict_manifest_hash = None,
     oc_error_code = None, oc_message = None\<rparr>"

text \<open>A deleted skill comes back. The acknowledgement of a delete records the tombstone's own
  revision on the skill and marks it synced, so the tombstone that the next pull ships is stale by
  the revision test and is ignored: the row stays, synced, after both have been processed.\<close>

theorem acked_delete_survives_its_tombstone:
  "let r1 = queue_skill_delete ''s1'' (Some 4) ''m1'' 20 (single_store Synced);
       r2 = claim_dispatchable_mutations 5 21 (fst (projr r1));
       r3 = apply_mutation_outcome ack_delete 22 (fst (projr r2));
       r4 = apply_changes_page sample_env 7 23 (page_of [change ''r1'' 5 ''delete'' None JNull]) (fst (projr r3)) in
   is_ok r1 \<and> is_ok r2 \<and> is_ok r3 \<and> is_ok r4 \<and> read_skill_state (fst (projr r4)) ''s1'' = Some Synced"
  by code_simp

text \<open>Unsent edits of a skill in sync error are overwritten by a pull: an upsert tests the skill's
  label, not its outbox, so a newer change replaces the current content hash of a skill whose
  mutation is still queued, and no conflict is reported.\<close>

theorem pull_overwrites_unsent_edit:
  "let d = (sample_store Pending)\<lparr>skills := [sample_skill ''s1'' (Some ''r1'') SyncError (Some 4), sample_skill ''s2'' None Dirty None]\<rparr>;
       r = apply_changes_page sample_env 7 90 (page_of [change ''r1'' 9 ''update'' (Some hash_b) JNull]) d in
   outbox_inv d \<and> has_unacked d ''s1'' \<and> is_ok r \<and> pa_conflicts (snd (projr r)) = 0
   \<and> map sk_current_blob_hash (skills (fst (projr r))) = [hash_b, hash_a]"
  by code_simp

text \<open>A fresh lease also clears a revocation that a denied permission caused, although the mutation
  that was denied still stands.\<close>

theorem fresh_lease_clears_a_denied_permission:
  "let d = single_store AccessRevoked\<lparr>mutations := [sample_mutation ''m1'' ''s1'' 1 PermissionDenied]\<rparr>;
       r = apply_entitlement tally_parse tally_display ''s1'' \<lparr>ep_lease = ''l'', ep_permission_level = ''read'',
             ep_offline_policy = ''ttl'', ep_offline_ttl_hours = None, ep_issued_at = None,
             ep_expires_at = Some (tally_display 9)\<rparr> 7 90 d in
   outbox_inv d \<and> is_ok r \<and> read_skill_state (fst (projr r)) ''s1'' = Some RemoteOnly
   \<and> map mu_state (mutations (fst (projr r))) = [PermissionDenied]"
  by code_simp

end
