(* ===== verification/Conflicts.thy ===== *)
theory Conflicts
  imports Outcomes
begin

text \<open>
  Conflict listing and resolution (\<open>local_store/conflicts.rs\<close>). Keep-local retires the conflicted
  mutations and queues the local snapshot again on top of the remote head; keep-remote retires
  them and adopts the remote package.
\<close>

record conflict_record =
  co_skill_id :: string
  co_local_name :: string
  co_local_slug :: string
  co_local_snapshot_hash :: string
  co_local_base_revision :: "int option"
  co_remote_head_revision :: "int option"
  co_remote_manifest_hash :: "string option"
  co_mutation_id :: string
  co_operation :: mutation_operation

record resolution_applied =
  ra_new_mutation_id :: "string option"
  ra_skill_state :: skill_sync_state

definition conflicted :: "string \<Rightarrow> mutation_row \<Rightarrow> bool" where
  "conflicted skill m \<longleftrightarrow> mu_skill_id m = skill \<and> mu_state m = MutationConflict"

definition chain_head :: "store \<Rightarrow> string \<Rightarrow> mutation_row \<Rightarrow> bool" where
  "chain_head d skill m \<longleftrightarrow> conflicted skill m
     \<and> list_all (\<lambda>x. conflicted skill x \<longrightarrow> mu_local_sequence m \<le> mu_local_sequence x) (mutations d)"

definition conflict_record_of :: "skill_row \<Rightarrow> mutation_row \<Rightarrow> conflict_record" where
  "conflict_record_of s m =
     \<lparr>co_skill_id = sk_id s, co_local_name = sk_name s, co_local_slug = sk_slug s,
      co_local_snapshot_hash = sk_current_blob_hash s, co_local_base_revision = mu_base_revision m,
      co_remote_head_revision = sk_remote_revision s, co_remote_manifest_hash = sk_remote_blob_hash s,
      co_mutation_id = mu_id m, co_operation = mu_operation m\<rparr>"

definition list_conflicts :: "store \<Rightarrow> conflict_record list" where
  "list_conflicts d =
     concat (map (\<lambda>s. map (conflict_record_of s) (filter (chain_head d (sk_id s)) (mutations d)))
       (sort_key sk_id (filter (\<lambda>s. sk_sync_state s = Conflict) (skills d))))"

definition read_skill_for_resolution :: "store \<Rightarrow> string \<Rightarrow> store_error + skill_row" where
  "read_skill_for_resolution d skill =
     and_then (ok_or (sql_find (\<lambda>r. sk_id r = skill) (skills d)) (SkillNotFound skill)) (\<lambda>r.
     and_then (ensure (sk_sync_state r = Conflict) (InvalidInput
       (''skill '' @ skill @ '' is not conflicted (state: '' @ sync_state_db (sk_sync_state r) @ '')''))) (\<lambda>_.
     Inr r))"

definition superseded_row :: "int \<Rightarrow> mutation_row \<Rightarrow> mutation_row" where
  "superseded_row now m = m\<lparr>mu_state := Acked, mu_next_attempt_at := None,
     mu_server_error_code := Some ''CONFLICT_RESOLVED'',
     mu_last_error := Some ''superseded by an explicit conflict resolution'', mu_updated_at := now\<rparr>"

definition supersede_conflict_chain :: "string \<Rightarrow> int \<Rightarrow> store \<Rightarrow> store_error + store" where
  "supersede_conflict_chain skill now = exec (update_mutations (conflicted skill) (superseded_row now))"

definition resolve_keep_local ::
  "string \<Rightarrow> bool \<Rightarrow> string \<Rightarrow> int \<Rightarrow> store \<Rightarrow> store_error + (store \<times> resolution_applied)" where
  "resolve_keep_local skill confirmed new_id now d =
     and_then (ensure confirmed (InvalidInput ''keep-local resolution requires explicit user confirmation'')) (\<lambda>_.
     and_then (read_skill_for_resolution d skill) (\<lambda>r.
     and_then (ok_or (sk_remote_revision r) (InvalidInput
       (''cannot keep local for '' @ skill @ '': remote head revision unknown''))) (\<lambda>head.
     let remote_head = max head 1 in
     and_then (supersede_conflict_chain skill now d) (\<lambda>d1.
     let seq = next_local_sequence d1 skill in
     and_then (ensure (0 \<le> seq) (InvalidPersistedState
       (''invalid local_sequence '' @ dec seq @ '' for '' @ skill))) (\<lambda>_.
     and_then (exec (insert_mutation (queued_row new_id skill seq Update (Some remote_head)
                       (sk_current_blob_hash r) now)) d1) (\<lambda>d2.
     and_then (exec (update_skills (\<lambda>x. sk_id x = skill)
                 (\<lambda>x. x\<lparr>sk_sync_state := Dirty, sk_remote_revision := Some remote_head, sk_updated_at := now\<rparr>)) d2) (\<lambda>d3.
     Inr (d3, \<lparr>ra_new_mutation_id = Some new_id, ra_skill_state = Dirty\<rparr>))))))))"

definition resolve_keep_remote ::
  "string \<Rightarrow> bool \<Rightarrow> int \<Rightarrow> store \<Rightarrow> store_error + (store \<times> resolution_applied)" where
  "resolve_keep_remote skill confirmed now d =
     and_then (ensure confirmed (InvalidInput ''keep-remote resolution requires explicit user confirmation'')) (\<lambda>_.
     and_then (read_skill_for_resolution d skill) (\<lambda>r.
     and_then (ok_or (case sk_remote_blob_hash r of None \<Rightarrow> None | Some h \<Rightarrow> if h = [] then None else Some h)
       (InvalidInput (''cannot keep remote for '' @ skill @
          '': remote package hash unknown; pull the remote head first''))) (\<lambda>remote_hash.
     and_then (supersede_conflict_chain skill now d) (\<lambda>d1.
     and_then (exec (update_skills (\<lambda>x. sk_id x = skill)
                 (\<lambda>x. x\<lparr>sk_current_blob_hash := remote_hash, sk_remote_blob_hash := None,
                        sk_sync_state := RemoteOnly, sk_updated_at := now\<rparr>)) d1) (\<lambda>d2.
     Inr (d2, \<lparr>ra_new_mutation_id = None, ra_skill_state = RemoteOnly\<rparr>))))))"

section \<open>The outbox contract\<close>

lemma supersede_step:
  assumes "outbox_inv d" shows "outbox_step d (update_mutations (conflicted skill) (superseded_row now) d)"
    and "supersede_conflict_chain skill now d = Inr (update_mutations (conflicted skill) (superseded_row now) d)"
proof -
  have ok: "schema_ok (update_mutations (conflicted skill) (superseded_row now) d)"
    using assms by (intro schema_ok_update_mutations) (auto simp: outbox_inv_def superseded_row_def mutation_check_def)
  show "outbox_step d (update_mutations (conflicted skill) (superseded_row now) d)"
    by (rule outbox_step_mutations [OF assms _ _ _ ok]) (auto simp: superseded_row_def same_work_def conflicted_def)
  show "supersede_conflict_chain skill now d = Inr (update_mutations (conflicted skill) (superseded_row now) d)"
    using ok by (simp add: supersede_conflict_chain_def exec_def)
qed

lemma insert_step:
  assumes "outbox_inv d" and "schema_ok (insert_mutation m d)" and "mu_state m = Pending"
    and "mu_local_sequence m = next_local_sequence d (mu_skill_id m)"
  shows "outbox_step d (insert_mutation m d)"
  using causal_insert [of d m] continued_insert [of d m] assms by (simp add: outbox_step_def outbox_inv_def)

interpretation keep_local_op: outbox_operation "\<lambda>(skill, confirmed, i, now). resolve_keep_local skill confirmed i now"
proof
  fix a :: "string \<times> bool \<times> string \<times> int" and d d' r
  obtain skill confirmed i now where a: "a = (skill, confirmed, i, now)" by (cases a)
  assume inv: "outbox_inv d"
    and "(case a of (skill, confirmed, i, now) \<Rightarrow> resolve_keep_local skill confirmed i now) d = Inr (d', r)"
  then have run: "resolve_keep_local skill confirmed i now d = Inr (d', r)" by (simp add: a)
  let ?d1 = "update_mutations (conflicted skill) (superseded_row now) d"
  have s1: "outbox_step d ?d1" using supersede_step(1) [OF inv] .
  obtain base h P f where
    ins: "schema_ok (insert_mutation (queued_row i skill (next_local_sequence ?d1 skill) Update base h now) ?d1)" and
    upd: "exec (update_skills P f) (insert_mutation (queued_row i skill (next_local_sequence ?d1 skill) Update base h now) ?d1) = Inr d'"
    using run by (auto simp: resolve_keep_local_def result_simps supersede_step(2) [OF inv] Let_def)
  let ?d2 = "insert_mutation (queued_row i skill (next_local_sequence ?d1 skill) Update base h now) ?d1"
  have s2: "outbox_step ?d1 ?d2" using insert_step [OF outbox_step_inv [OF s1] ins] by simp
  have "outbox_step ?d2 d'" using exec_skills_step [OF outbox_step_inv [OF s2] upd] .
  then have "outbox_step d d'" using s1 s2 by (blast intro: outbox_step_trans)
  then show "outbox_inv d'" and "kept d d'" by (auto intro: outbox_step_inv outbox_step_kept)
qed

interpretation keep_remote_op: outbox_operation "\<lambda>(skill, confirmed, now). resolve_keep_remote skill confirmed now"
proof
  fix a :: "string \<times> bool \<times> int" and d d' r
  obtain skill confirmed now where a: "a = (skill, confirmed, now)" by (cases a)
  assume inv: "outbox_inv d"
    and "(case a of (skill, confirmed, now) \<Rightarrow> resolve_keep_remote skill confirmed now) d = Inr (d', r)"
  then have run: "resolve_keep_remote skill confirmed now d = Inr (d', r)" by (simp add: a)
  let ?d1 = "update_mutations (conflicted skill) (superseded_row now) d"
  have s1: "outbox_step d ?d1" using supersede_step(1) [OF inv] .
  obtain P f where "exec (update_skills P f) ?d1 = Inr d'"
    using run by (auto simp: resolve_keep_remote_def result_simps supersede_step(2) [OF inv])
  then have "outbox_step d d'" using exec_skills_step [OF outbox_step_inv [OF s1]] s1 by (blast intro: outbox_step_trans)
  then show "outbox_inv d'" and "kept d d'" by (auto intro: outbox_step_inv outbox_step_kept)
qed

section \<open>Resolutions\<close>

lemma read_skill_for_resolution_Inr:
  "schema_ok d \<Longrightarrow> r \<in> set (skills d) \<Longrightarrow> sk_sync_state r = Conflict \<Longrightarrow> read_skill_for_resolution d (sk_id r) = Inr r"
  using schema_find_skill [of d r] by (simp add: read_skill_for_resolution_def)

lemma update_skill_by_id:
  assumes "schema_ok d" and "r \<in> set (skills d)"
  shows "update_skills (\<lambda>x. sk_id x = sk_id r) f d = d\<lparr>skills := map (\<lambda>x. if x = r then f r else x) (skills d)\<rparr>"
proof -
  have "sk_id x = sk_id r \<longleftrightarrow> x = r" if "x \<in> set (skills d)" for x using schema_skill_unique assms that by blast
  then show ?thesis by (auto simp: update_skills_def sql_update_def)
qed

text \<open>Keep-local on a confirmed conflict with a known remote head always succeeds. No conflicted
  mutation of the skill is left, the skill is dirty with its local content unchanged, and one new
  update carrying that content on top of the remote head is queued behind everything else of the
  skill; it can be sent at once exactly when no other mutation of the skill is unacked.\<close>

theorem keep_local_requeues_local_content:
  assumes "outbox_inv d" and "r \<in> set (skills d)" and "sk_sync_state r = Conflict"
    and "sk_remote_revision r = Some head" and "new_id \<notin> mu_id ` set (mutations d)"
  shows "\<exists>d' m. resolve_keep_local (sk_id r) True new_id now d
           = Inr (d', \<lparr>ra_new_mutation_id = Some new_id, ra_skill_state = Dirty\<rparr>)
    \<and> skills d' = map (\<lambda>x. if x = r then r\<lparr>sk_sync_state := Dirty, sk_remote_revision := Some (max head 1), sk_updated_at := now\<rparr> else x) (skills d)
    \<and> list_all (\<lambda>x. \<not> conflicted (sk_id r) x) (mutations d')
    \<and> m \<in> set (mutations d') \<and> mu_id m = new_id \<and> mu_operation m = Update \<and> mu_state m = Pending
    \<and> mu_base_revision m = Some (max head 1) \<and> mu_payload_hash m = sk_current_blob_hash r
    \<and> (dispatchable t d' m \<longleftrightarrow> list_all (\<lambda>x. mu_skill_id x = sk_id r \<longrightarrow> mu_state x \<in> {Acked, MutationConflict}) (mutations d))"
proof -
  let ?s = "sk_id r" and ?h = "max head 1"
  let ?d1 = "update_mutations (conflicted ?s) (superseded_row now) d"
  let ?q = "next_local_sequence ?d1 ?s"
  let ?m = "queued_row new_id ?s ?q Update (Some ?h) (sk_current_blob_hash r) now"
  let ?d2 = "insert_mutation ?m ?d1"
  let ?f = "\<lambda>x. x\<lparr>sk_sync_state := Dirty, sk_remote_revision := Some ?h, sk_updated_at := now\<rparr>"
  let ?d3 = "update_skills (\<lambda>x. sk_id x = ?s) ?f ?d2"
  have ok: "schema_ok d" using assms(1) by (simp add: outbox_inv_def)
  have ok1: "schema_ok ?d1" using supersede_step(1) [OF assms(1)] by (simp add: outbox_step_def outbox_inv_def)
  have q: "0 < ?q" using ok1 by (rule next_local_sequence_pos)
  have "map mu_id (mutations ?d1) = map mu_id (mutations d)" by (simp add: map_sql_update superseded_row_def)
  then have ids: "mu_id ` set (mutations ?d1) = mu_id ` set (mutations d)" by (metis list.set_map)
  have fresh: "new_id \<notin> mu_id ` set (mutations ?d1)" unfolding ids by (rule assms(5))
  have seq: "mu_local_sequence x < ?q" if "x \<in> set (mutations ?d1)" "mu_skill_id x = ?s" for x
    using next_local_sequence_greater that by blast
  have ok2: "schema_ok ?d2"
    using q fresh next_sequence_fresh [of ?s ?d1] assms(2) unfolding schema_ok_insert_mutation [OF ok1]
    by (simp add: mutation_check_def queued_row_def non_negative_def)
  have ok3: "schema_ok ?d3" using ok2 by (rule schema_ok_update_skills) (auto simp: skill_check_def non_negative_def)
  have run: "resolve_keep_local ?s True new_id now d = Inr (?d3, \<lparr>ra_new_mutation_id = Some new_id, ra_skill_state = Dirty\<rparr>)"
    using read_skill_for_resolution_Inr [OF ok assms(2,3)] supersede_step(2) [OF assms(1)] assms(4) q ok2 ok3
    by (simp add: resolve_keep_local_def Let_def exec_def)
  have r2: "r \<in> set (skills ?d2)" using assms(2) by (simp add: insert_mutation_def)
  have sk: "skills ?d3 = map (\<lambda>x. if x = r then ?f r else x) (skills d)"
    using update_skill_by_id [OF ok2 r2, of ?f] by (simp add: insert_mutation_def)
  have mu: "set (mutations ?d3) = insert ?m ((\<lambda>x. if conflicted ?s x then superseded_row now x else x) ` set (mutations d))"
    by (auto simp: insert_mutation_def set_sql_update)
  have none: "list_all (\<lambda>x. \<not> conflicted ?s x) (mutations ?d3)"
    unfolding list_all_iff mu by (auto simp: conflicted_def superseded_row_def)
  have gate: "earlier_acked ?d3 ?m \<longleftrightarrow> list_all (\<lambda>x. mu_skill_id x = ?s \<longrightarrow> mu_state x \<in> {Acked, MutationConflict}) (mutations d)"
    (is "_ \<longleftrightarrow> ?all")
  proof -
    have "earlier_acked ?d3 ?m \<longleftrightarrow> (\<forall>x \<in> set (mutations ?d1). mu_skill_id x = ?s \<longrightarrow> mu_state x = Acked)"
      unfolding earlier_acked_iff using seq by (auto simp: insert_mutation_def)
    also have "\<dots> \<longleftrightarrow> ?all"
      by (auto simp: list_all_iff set_sql_update conflicted_def superseded_row_def)
    finally show ?thesis .
  qed
  have "dispatchable t ?d3 ?m \<longleftrightarrow> ?all" for t using gate by (simp add: dispatchable_def queued_state_def)
  moreover have "?m \<in> set (mutations ?d3)" unfolding mu by simp
  ultimately show ?thesis using run sk none by (intro exI [of _ ?d3] exI [of _ ?m]) (simp only: queued_row_simps simp_thms)
qed

definition conflicted_store :: store where
  "conflicted_store = fresh_store\<lparr>
     skills := [(sample_skill ''s1'' (Some ''r1'') Conflict (Some 4))\<lparr>sk_remote_blob_hash := Some hash_b\<rparr>],
     mutations := [sample_mutation ''m1'' ''s1'' 1 MutationConflict, sample_mutation ''m2'' ''s1'' 2 Pending]\<rparr>"

theorem keep_local_requeues_local_content_witness:
  "\<exists>d' m. resolve_keep_local ''s1'' True ''m9'' 50 conflicted_store
     = Inr (d', \<lparr>ra_new_mutation_id = Some ''m9'', ra_skill_state = Dirty\<rparr>)
     \<and> m \<in> set (mutations d') \<and> mu_id m = ''m9'' \<and> mu_payload_hash m = hash_a \<and> mu_base_revision m = Some 4
     \<and> \<not> dispatchable 60 d' m"
proof -
  let ?r = "(sample_skill ''s1'' (Some ''r1'') Conflict (Some 4))\<lparr>sk_remote_blob_hash := Some hash_b\<rparr>"
  have a: "outbox_inv conflicted_store" "?r \<in> set (skills conflicted_store)" "sk_sync_state ?r = Conflict"
    "sk_remote_revision ?r = Some 4" "''m9'' \<notin> mu_id ` set (mutations conflicted_store)"
    by code_simp+
  have b: "\<not> list_all (\<lambda>x. mu_skill_id x = sk_id ?r \<longrightarrow> mu_state x \<in> {Acked, MutationConflict}) (mutations conflicted_store)"
    "sk_id ?r = ''s1''" "sk_current_blob_hash ?r = hash_a" "max (4::int) 1 = 4"
    by code_simp+
  show ?thesis using keep_local_requeues_local_content [OF a, of 50 60] unfolding b(2-4) using b(1) b(2) by metis
qed

text \<open>C22: Keep-remote on a confirmed conflict with a known remote package always succeeds: the skill
  adopts exactly the recorded remote package, becomes remote-only so that it is rebuilt from it,
  and no conflicted mutation is left; without confirmation, outside a conflict or without a known
  package nothing happens.\<close>

theorem keep_remote_adopts_remote_package:
  assumes "outbox_inv d" and "r \<in> set (skills d)"
  shows "resolve_keep_remote (sk_id r) confirmed now d =
    (if \<not> confirmed then Inl (InvalidInput ''keep-remote resolution requires explicit user confirmation'')
     else if sk_sync_state r \<noteq> Conflict then Inl (InvalidInput
       (''skill '' @ sk_id r @ '' is not conflicted (state: '' @ sync_state_db (sk_sync_state r) @ '')''))
     else case sk_remote_blob_hash r of
       None \<Rightarrow> Inl (InvalidInput (''cannot keep remote for '' @ sk_id r @ '': remote package hash unknown; pull the remote head first''))
     | Some h \<Rightarrow>
         if h = [] then Inl (InvalidInput (''cannot keep remote for '' @ sk_id r @ '': remote package hash unknown; pull the remote head first''))
         else Inr (d\<lparr>mutations := map (\<lambda>m. if conflicted (sk_id r) m then superseded_row now m else m) (mutations d),
                     skills := map (\<lambda>x. if x = r then r\<lparr>sk_current_blob_hash := h, sk_remote_blob_hash := None,
                                        sk_sync_state := RemoteOnly, sk_updated_at := now\<rparr> else x) (skills d)\<rparr>,
                   \<lparr>ra_new_mutation_id = None, ra_skill_state = RemoteOnly\<rparr>))"
proof -
  let ?d1 = "update_mutations (conflicted (sk_id r)) (superseded_row now) d"
  have ok: "schema_ok d" and ok1: "schema_ok ?d1"
    using supersede_step(1) [OF assms(1)] assms(1) by (simp_all add: outbox_step_def outbox_inv_def)
  have upd: "exec (update_skills (\<lambda>x. sk_id x = sk_id r) f) ?d1
      = Inr (d\<lparr>mutations := map (\<lambda>m. if conflicted (sk_id r) m then superseded_row now m else m) (mutations d),
             skills := map (\<lambda>x. if x = r then f r else x) (skills d)\<rparr>)"
    if "\<And>x. sk_id (f x) = sk_id x \<and> sk_remote_id (f x) = sk_remote_id x \<and> sk_remote_revision (f x) = sk_remote_revision x" for f
  proof -
    have "schema_ok (update_skills (\<lambda>x. sk_id x = sk_id r) f ?d1)"
      using ok1 that by (intro schema_ok_update_skills) (simp_all add: skill_check_def)
    then show ?thesis
      using update_skill_by_id [OF ok1, of r f] assms(2) by (simp add: exec_def update_mutations_def sql_update_def)
  qed
  show ?thesis
    using schema_find_skill [OF ok assms(2)] supersede_step(2) [OF assms(1)]
    by (auto simp: resolve_keep_remote_def read_skill_for_resolution_def ensure_def upd split: option.splits)
qed

theorem keep_remote_adopts_remote_package_witness:
  "map sk_current_blob_hash (skills (fst (projr (resolve_keep_remote ''s1'' True 50 conflicted_store)))) = [hash_b]"
proof -
  let ?r = "(sample_skill ''s1'' (Some ''r1'') Conflict (Some 4))\<lparr>sk_remote_blob_hash := Some hash_b\<rparr>"
  have a: "outbox_inv conflicted_store" "?r \<in> set (skills conflicted_store)" by code_simp+
  have i: "sk_id ?r = ''s1''" by code_simp
  note spec = keep_remote_adopts_remote_package [OF a, of True 50, unfolded i]
  show ?thesis unfolding spec by code_simp
qed

text \<open>Keep-remote does not drop the local pending chain. A later edit of the skill that was queued
  behind the conflicted one stays pending, and becomes the next mutation a claim hands out: local
  content the user chose to discard is pushed over the remote head.\<close>

theorem keep_remote_leaves_later_edits_queued:
  "let r = resolve_keep_remote ''s1'' True 50 conflicted_store;
       c = claim_dispatchable_mutations 10 60 (fst (projr r)) in
   outbox_inv conflicted_store \<and> map mu_id (dispatchable_rows 10 60 conflicted_store) = []
   \<and> is_ok r \<and> map (\<lambda>l. (lm_id l, lm_payload_hash l)) (snd (projr c)) = [(''m2'', hash_a)]"
  by code_simp

end
