(* ===== verification/Skill_Records.thy ===== *)
theory Skill_Records
  imports Outcomes
begin

text \<open>
  Reading skills and promoting hydrated ones (\<open>local_store/skills.rs\<close>), and the cache queries and
  the eviction claim (\<open>local_store/cache.rs\<close>). Both writers of a skill's state are compare-and-swap
  updates on the content hash.
\<close>

record local_skill =
  ls_id :: string
  ls_remote_id :: "string option"
  ls_name :: string
  ls_slug :: string
  ls_workspace_path :: path
  ls_current_blob_hash :: string
  ls_remote_blob_hash :: "string option"
  ls_remote_revision :: "int option"
  ls_sync_state :: skill_sync_state
  ls_pinned :: bool

definition local_skill_of :: "skill_row \<Rightarrow> local_skill" where
  "local_skill_of r =
     \<lparr>ls_id = sk_id r, ls_remote_id = sk_remote_id r, ls_name = sk_name r, ls_slug = sk_slug r,
      ls_workspace_path = sk_workspace_path r, ls_current_blob_hash = sk_current_blob_hash r,
      ls_remote_blob_hash = sk_remote_blob_hash r, ls_remote_revision = sk_remote_revision r,
      ls_sync_state = sk_sync_state r, ls_pinned = sk_pinned r\<rparr>"

definition get_skill :: "string \<Rightarrow> int \<Rightarrow> store \<Rightarrow> store_error + (store \<times> local_skill option)" where
  "get_skill skill now d =
     (case sql_find (\<lambda>r. sk_id r = skill) (skills d) of
        None \<Rightarrow> Inr (d, None)
      | Some r \<Rightarrow>
          and_then (exec (update_skills (\<lambda>x. sk_id x = skill) (\<lambda>x. x\<lparr>sk_last_accessed_at := Some now\<rparr>)) d) (\<lambda>d'.
          Inr (d', Some (local_skill_of r))))"

definition hydratable :: "string \<Rightarrow> string \<Rightarrow> skill_row \<Rightarrow> bool" where
  "hydratable skill expected r \<longleftrightarrow> sk_id r = skill \<and> sk_sync_state r \<in> {RemoteOnly, Synced}
     \<and> sk_current_blob_hash r = expected"

text \<open>The transaction of \<open>mark_skill_hydrated\<close>; the skill is read again once it is committed.\<close>

definition mark_row_hydrated :: "string \<Rightarrow> string \<Rightarrow> path \<Rightarrow> int \<Rightarrow> store \<Rightarrow> store_error + (store \<times> unit)" where
  "mark_row_hydrated skill expected workspace now d =
     and_then (path_to_string workspace) (\<lambda>workspace_path.
     let changed = sql_count (hydratable skill expected) (skills d) in
     and_then (exec (update_skills (hydratable skill expected)
                 (\<lambda>r. r\<lparr>sk_workspace_path := workspace_path, sk_sync_state := Synced, sk_updated_at := now\<rparr>)) d) (\<lambda>d'.
     if changed = 0 then
       (case sql_find (\<lambda>r. sk_id r = skill) (skills d') of
          None \<Rightarrow> Inl (SkillNotFound skill)
        | Some r \<Rightarrow> Inl (InvalidInput (''skill '' @ skill @ '' in state '' @ sync_state_db (sk_sync_state r)
            @ '' cannot be hydrated'')))
     else Inr (d', ())))"

definition get_skill_by_remote_id :: "string \<Rightarrow> store \<Rightarrow> local_skill option" where
  "get_skill_by_remote_id remote d =
     map_option local_skill_of (sql_find (\<lambda>r. sk_remote_id r = Some remote) (skills d))"

section \<open>Cache records\<close>

record cache_skill =
  cs_skill_id :: string
  cs_remote_id :: "string option"
  cs_workspace_path :: path
  cs_snapshot_hash :: string
  cs_sync_state :: skill_sync_state
  cs_pinned :: bool
  cs_last_accessed_at :: int

definition cache_policy :: "store \<Rightarrow> store_error + nat" where
  "cache_policy d =
     (if 0 \<le> cache_max_bytes d \<and> cache_max_bytes d < 2 ^ 64 then Inr (nat (cache_max_bytes d))
      else Inl (InvalidPersistedState ''local cache max_bytes is negative''))"

definition set_cache_policy :: "nat \<Rightarrow> store \<Rightarrow> store_error + (store \<times> nat)" where
  "set_cache_policy max_bytes d =
     (if max_bytes = 0 \<or> 2 ^ 63 - 1 < max_bytes then
        Inl (InvalidInput ''local cache max_bytes must be between 1 and i64::MAX'')
      else and_then (exec (\<lambda>d. d\<lparr>cache_max_bytes := int max_bytes\<rparr>) d) (\<lambda>d'. Inr (d', max_bytes)))"

definition last_access :: "skill_row \<Rightarrow> int" where
  "last_access r = or_else (sk_last_accessed_at r) (sk_updated_at r)"

definition cache_skill_of :: "skill_row \<Rightarrow> cache_skill" where
  "cache_skill_of r =
     \<lparr>cs_skill_id = sk_id r, cs_remote_id = sk_remote_id r, cs_workspace_path = sk_workspace_path r,
      cs_snapshot_hash = sk_current_blob_hash r, cs_sync_state = sk_sync_state r,
      cs_pinned = sk_pinned r, cs_last_accessed_at = last_access r\<rparr>"

definition list_cache_skills :: "store \<Rightarrow> cache_skill list" where
  "list_cache_skills d = map cache_skill_of (sort_key (\<lambda>r. (last_access r, sk_id r)) (skills d))"

definition list_unacked_mutation_payload_hashes :: "store \<Rightarrow> string list" where
  "list_unacked_mutation_payload_hashes d =
     sort (remdups (map mu_payload_hash (filter (\<lambda>m. mu_state m \<noteq> Acked) (mutations d))))"

definition holds_deployment :: "store \<Rightarrow> string \<Rightarrow> bool" where
  "holds_deployment d skill \<longleftrightarrow> list_ex (\<lambda>x. de_skill_id x = skill
     \<and> de_state x \<in> {Installing, Installed, Updating, Modified, Removing, Revoked}) (deployments d)"

definition evictable_row :: "store \<Rightarrow> string \<Rightarrow> string \<Rightarrow> skill_row \<Rightarrow> bool" where
  "evictable_row d skill expected r \<longleftrightarrow> sk_id r = skill \<and> sk_current_blob_hash r = expected
     \<and> sk_remote_id r \<noteq> None \<and> sk_sync_state r = Synced \<and> \<not> sk_pinned r \<and> \<not> holds_deployment d (sk_id r)"

definition claim_skill_for_eviction :: "string \<Rightarrow> string \<Rightarrow> int \<Rightarrow> store \<Rightarrow> store_error + (store \<times> bool)" where
  "claim_skill_for_eviction skill expected now d =
     (let changed = sql_count (evictable_row d skill expected) (skills d) in
      and_then (exec (update_skills (evictable_row d skill expected)
                  (\<lambda>r. r\<lparr>sk_sync_state := RemoteOnly, sk_updated_at := now\<rparr>)) d) (\<lambda>d'.
      Inr (d', changed = 1)))"

section \<open>The outbox contract\<close>

lemma get_skill_step:
  "outbox_inv d \<Longrightarrow> get_skill skill now d = Inr (d', s) \<Longrightarrow> outbox_step d d'"
  by (auto simp: get_skill_def result_simps outbox_step_refl split: option.splits
      intro!: outbox_step_other_table)

interpretation get_skill_op: outbox_operation "\<lambda>(skill, now). get_skill skill now"
proof
  fix a :: "string \<times> int" and d d' r
  assume "outbox_inv d" and "(case a of (skill, now) \<Rightarrow> get_skill skill now) d = Inr (d', r)"
  then have "outbox_step d d'" by (cases a) (auto intro: get_skill_step)
  then show "outbox_inv d'" and "kept d d'" by (auto intro: outbox_step_inv outbox_step_kept)
qed

lemma mark_row_hydrated_step:
  assumes "outbox_inv d" and "mark_row_hydrated skill expected workspace now d = Inr (d', s)"
  shows "outbox_step d d'"
proof -
  obtain P f where "exec (update_skills P f) d = Inr d'"
    using assms(2) by (auto simp: mark_row_hydrated_def result_simps Let_def split: if_splits option.splits)
  then show ?thesis using assms(1) by (auto intro: exec_skills_step)
qed

interpretation hydrate_op: outbox_operation
  "\<lambda>(skill, expected, workspace, now). mark_row_hydrated skill expected workspace now"
proof
  fix a :: "string \<times> string \<times> path \<times> int" and d d' r
  assume "outbox_inv d" and "(case a of (skill, expected, workspace, now) \<Rightarrow>
    mark_row_hydrated skill expected workspace now) d = Inr (d', r)"
  then have "outbox_step d d'" by (cases a) (auto intro: mark_row_hydrated_step)
  then show "outbox_inv d'" and "kept d d'" by (auto intro: outbox_step_inv outbox_step_kept)
qed

interpretation evict_op: outbox_operation "\<lambda>(skill, expected, now). claim_skill_for_eviction skill expected now"
proof
  fix a :: "string \<times> string \<times> int" and d d' r
  assume "outbox_inv d" and "(case a of (skill, expected, now) \<Rightarrow> claim_skill_for_eviction skill expected now) d = Inr (d', r)"
  then have "outbox_step d d'"
    by (cases a) (auto simp: claim_skill_for_eviction_def result_simps Let_def intro!: outbox_step_other_table)
  then show "outbox_inv d'" and "kept d d'" by (auto intro: outbox_step_inv outbox_step_kept)
qed

interpretation cache_policy_op: outbox_operation set_cache_policy
proof
  fix n d d' r
  assume inv: "outbox_inv d" and "set_cache_policy n d = Inr (d', r)"
  then have "outbox_step d d'"
    by (auto simp: set_cache_policy_def result_simps split: if_splits intro!: outbox_step_other_table)
  then show "outbox_inv d'" and "kept d d'" by (auto intro: outbox_step_inv outbox_step_kept)
qed

section \<open>Compare-and-swap\<close>

lemma exec_update_skills:
  "schema_ok d \<Longrightarrow> (\<And>r. sk_id (f r) = sk_id r \<and> sk_remote_id (f r) = sk_remote_id r
     \<and> sk_remote_revision (f r) = sk_remote_revision r) \<Longrightarrow> exec (update_skills P f) d = Inr (update_skills P f d)"
  by (intro exec_Inr schema_ok_update_skills) (auto simp: skill_check_def)

text \<open>Hydration promotes a skill only if it still has the content that was materialized: with the
  expected hash and no local work it becomes synced at the new workspace; a skill whose hash has
  moved on, or that was edited, conflicted or revoked meanwhile, is refused, and an unknown one is
  reported as such. No content hash ever changes, and no other skill.\<close>

theorem hydration_is_compare_and_swap:
  assumes "schema_ok d" and "r \<in> set (skills d)" and "valid_utf8 workspace"
  shows "if sk_current_blob_hash r = expected \<and> sk_sync_state r \<in> {RemoteOnly, Synced}
     then \<exists>d'. mark_row_hydrated (sk_id r) expected workspace now d = Inr (d', ())
          \<and> skills d' = map (\<lambda>x. if x = r then r\<lparr>sk_workspace_path := workspace, sk_sync_state := Synced,
                                    sk_updated_at := now\<rparr> else x) (skills d)
     else mark_row_hydrated (sk_id r) expected workspace now d
          = Inl (InvalidInput (''skill '' @ sk_id r @ '' in state '' @ sync_state_db (sk_sync_state r) @ '' cannot be hydrated''))"
proof -
  let ?P = "hydratable (sk_id r) expected"
  let ?f = "\<lambda>r. r\<lparr>sk_workspace_path := workspace, sk_sync_state := Synced, sk_updated_at := now\<rparr>"
  let ?d1 = "update_skills ?P ?f d"
  have only: "sk_id x = sk_id r \<longleftrightarrow> x = r" if "x \<in> set (skills d)" for x
    using schema_skill_unique [OF assms(1) that assms(2)] by blast
  have run1: "exec (update_skills ?P ?f) d = Inr ?d1" by (rule exec_update_skills [OF assms(1)]) simp
  show ?thesis
  proof (cases "?P r")
    case True
    then have count: "sql_count ?P (skills d) \<noteq> 0" using assms(2) by (auto simp: sql_count_eq_0)
    have "skills ?d1 = map (\<lambda>x. if x = r then ?f r else x) (skills d)"
      using True only by (auto simp: sql_update_def hydratable_def)
    moreover have "mark_row_hydrated (sk_id r) expected workspace now d = Inr (?d1, ())"
      using run1 count assms(3) by (simp add: mark_row_hydrated_def path_to_string_def Let_def)
    ultimately show ?thesis using True by (auto simp: hydratable_def)
  next
    case False
    then have "\<not> ?P x" if "x \<in> set (skills d)" for x using only [OF that] by (auto simp: hydratable_def)
    then have "sql_count ?P (skills d) = 0" and "?d1 = d"
      by (simp_all add: sql_count_eq_0 update_skills_def sql_update_unmatched)
    then show ?thesis
      using False run1 assms(3) schema_find_skill [OF assms(1,2)]
      by (auto simp: mark_row_hydrated_def path_to_string_def Let_def hydratable_def)
  qed
qed

theorem hydration_is_compare_and_swap_witness:
  "mark_row_hydrated ''s1'' hash_b ''/w2'' 70 (sample_store Pending)
   = Inl (InvalidInput (''skill s1 in state dirty cannot be hydrated''))"
proof -
  let ?r = "sample_skill ''s1'' (Some ''r1'') Dirty (Some 4)"
  have a: "schema_ok (sample_store Pending)" "?r \<in> set (skills (sample_store Pending))" "valid_utf8 ''/w2''" by code_simp+
  have b: "sk_id ?r = ''s1''" "sk_sync_state ?r = Dirty" by code_simp+
  show ?thesis using hydration_is_compare_and_swap [OF a, of hash_b 70] by (simp add: b)
qed

text \<open>The eviction claim takes a skill away only when nothing on this machine needs it: it must
  still have the snapshot that was examined, be synced, unpinned and known to the server, and have
  no deployment in any live state. The claim marks it remote-only and changes nothing else; in
  every other case the store is unchanged and the answer is false.\<close>

theorem eviction_claim_is_safe:
  assumes "schema_ok d" and "r \<in> set (skills d)"
  shows "claim_skill_for_eviction (sk_id r) expected now d =
    (if sk_current_blob_hash r = expected \<and> sk_remote_id r \<noteq> None \<and> sk_sync_state r = Synced \<and> \<not> sk_pinned r
        \<and> list_all (\<lambda>x. de_skill_id x = sk_id r \<longrightarrow> de_state x \<in> {Missing, Failed}) (deployments d)
     then Inr (d\<lparr>skills := map (\<lambda>x. if x = r then r\<lparr>sk_sync_state := RemoteOnly, sk_updated_at := now\<rparr> else x) (skills d)\<rparr>, True)
     else Inr (d, False))"
proof -
  let ?P = "evictable_row d (sk_id r) expected" and ?f = "\<lambda>r. r\<lparr>sk_sync_state := RemoteOnly, sk_updated_at := now\<rparr>"
  have only: "sk_id x = sk_id r \<longleftrightarrow> x = r" if "x \<in> set (skills d)" for x
    using schema_skill_unique [OF assms(1) that assms(2)] by blast
  have free: "\<not> holds_deployment d (sk_id r) \<longleftrightarrow>
      list_all (\<lambda>x. de_skill_id x = sk_id r \<longrightarrow> de_state x \<in> {Missing, Failed}) (deployments d)"
  proof -
    have "(s \<in> {Installing, Installed, Updating, Modified, Removing, Revoked}) = (s \<notin> {Missing, Failed})" for s
      by (cases s) auto
    then show ?thesis by (auto simp: holds_deployment_def list_ex_iff list_all_iff)
  qed
  have run: "exec (update_skills ?P ?f) d = Inr (update_skills ?P ?f d)"
    by (rule exec_update_skills [OF assms(1)]) simp
  show ?thesis
  proof (cases "?P r")
    case True
    have "sql_count (\<lambda>x. sk_id x = sk_id r \<and> ?P x) (skills d) = 1"
      using sql_count_unique [of sk_id "skills d" r ?P] assms True by (simp add: schema_ok_def skills_ok_def)
    moreover have "(\<lambda>x. sk_id x = sk_id r \<and> ?P x) = ?P" by (auto simp: evictable_row_def fun_eq_iff)
    ultimately have "sql_count ?P (skills d) = 1" by (simp only:)
    moreover have "update_skills ?P ?f d = d\<lparr>skills := map (\<lambda>x. if x = r then ?f r else x) (skills d)\<rparr>"
      using True only by (auto simp: update_skills_def sql_update_def evictable_row_def)
    ultimately show ?thesis using True run free by (auto simp: claim_skill_for_eviction_def evictable_row_def Let_def)
  next
    case False
    then have "\<not> ?P x" if "x \<in> set (skills d)" for x using only [OF that] by (auto simp: evictable_row_def)
    then have "sql_count ?P (skills d) = 0" and "update_skills ?P ?f d = d"
      by (simp_all add: sql_count_eq_0 update_skills_def sql_update_unmatched)
    then show ?thesis using False run free by (auto simp: claim_skill_for_eviction_def evictable_row_def Let_def)
  qed
qed

theorem eviction_claim_is_safe_witness:
  "claim_skill_for_eviction ''s1'' hash_a 70 (sample_store Pending) = Inr (sample_store Pending, False)"
proof -
  let ?r = "sample_skill ''s1'' (Some ''r1'') Dirty (Some 4)"
  have a: "schema_ok (sample_store Pending)" "?r \<in> set (skills (sample_store Pending))" by code_simp+
  have b: "sk_id ?r = ''s1''" "sk_sync_state ?r = Dirty" by code_simp+
  show ?thesis using eviction_claim_is_safe [OF a, of hash_a 70] by (simp add: b)
qed

end
