(* ===== verification/Agents.thy ===== *)
theory Agents
  imports Paths
begin

text \<open>
  Agent profiles (\<open>agent.rs\<close>): the built-in adapters and their skill roots, discovery, and the
  identity check a profile passes before it is stored. The environment is an argument: the \<open>HOME\<close>
  variable and \<open>fs::symlink_metadata\<close>, a function from paths to what lies there.
\<close>

datatype agent_error =
  InvalidPath string
| InvalidProfileIdentity string
| Discovery string
| HomeDirectoryUnavailable

fun agent_error_text :: "agent_error \<Rightarrow> string" where
  "agent_error_text (InvalidPath s) = ''agent skill path is invalid: '' @ s"
| "agent_error_text (InvalidProfileIdentity s) = ''agent profile identity is invalid: '' @ s"
| "agent_error_text (Discovery s) = ''agent discovery failed: '' @ s"
| "agent_error_text HomeDirectoryUnavailable = ''home directory is unavailable''"

datatype file_kind = NotFound | Symlink | Directory | OtherFile | StatFailed string

datatype agent_kind = Application | UnifiedAgentSkills | Custom

record agent_descriptor =
  ad_id :: string
  ad_display_name :: string
  ad_kind :: agent_kind

record agent_instance =
  ai_id :: string
  ai_descriptor_id :: string
  ai_display_name :: string
  ai_skill_root :: path
  ai_enabled :: bool
  ai_detected :: bool
  ai_skill_root_exists :: bool

record agent_env =
  ev_home :: "path option"
  ev_stat :: "path \<Rightarrow> file_kind"

record built_in_adapter =
  ba_descriptor :: agent_descriptor
  ba_relative_skill_root :: path
  ba_detection_roots :: "path list"

definition application :: "string \<Rightarrow> string \<Rightarrow> path \<Rightarrow> path list \<Rightarrow> built_in_adapter" where
  "application i name root detection =
     \<lparr>ba_descriptor = \<lparr>ad_id = i, ad_display_name = name, ad_kind = Application\<rparr>,
      ba_relative_skill_root = root, ba_detection_roots = detection\<rparr>"

definition unified :: built_in_adapter where
  "unified = \<lparr>ba_descriptor = \<lparr>ad_id = ''agent-skills'', ad_display_name = ''Agent Skills (~/.agents/skills)'',
       ad_kind = UnifiedAgentSkills\<rparr>,
     ba_relative_skill_root = path_join ''.agents'' ''skills'', ba_detection_roots = [''.agents'']\<rparr>"

definition built_in_adapters :: "built_in_adapter list" where
  "built_in_adapters =
    [application ''claude-code'' ''Claude Code'' (path_join ''.claude'' ''skills'') [''.claude''],
     application ''claude-desktop'' ''Claude Desktop'' (path_join ''.claude-desktop'' ''skills'') [''.claude-desktop''],
     application ''codex'' ''Codex'' (path_join ''.codex'' ''skills'') [''.codex''],
     application ''gemini'' ''Gemini CLI'' (path_join ''.gemini'' ''skills'') [''.gemini''],
     application ''opencode'' ''OpenCode'' (path_join (path_join ''.config'' ''opencode'') ''skills'')
       [path_join ''.config'' ''opencode''],
     application ''openclaw'' ''OpenClaw'' (path_join ''.openclaw'' ''skills'') [''.openclaw''],
     application ''grok-build'' ''Grok Build'' (path_join ''.grok'' ''skills'') [''.grok''],
     application ''cursor'' ''Cursor'' (path_join ''.cursor'' ''skills'') [''.cursor''],
     application ''windsurf'' ''Windsurf'' (path_join ''.windsurf'' ''skills'') [''.windsurf''],
     application ''trae'' ''Trae'' (path_join ''.trae'' ''skills'') [''.trae''],
     application ''zcode'' (''ZCode ('' @ bytes [0xE6, 0x99, 0xBA, 0xE8, 0xB0, 0xB1] @ '')'')
       (path_join ''.zcode'' ''skills'') [''.zcode''],
     unified]"

definition home_dir :: "agent_env \<Rightarrow> agent_error + path" where
  "home_dir env =
     (case ev_home env of
        None \<Rightarrow> Inl HomeDirectoryUnavailable
      | Some p \<Rightarrow>
          if p = [] then Inl HomeDirectoryUnavailable
          else if \<not> is_absolute p then Inl (InvalidPath ''home directory must be absolute'')
          else Inr p)"

definition path_entry_exists :: "agent_env \<Rightarrow> path \<Rightarrow> agent_error + bool" where
  "path_entry_exists env p =
     (case ev_stat env p of
        NotFound \<Rightarrow> Inr False
      | StatFailed e \<Rightarrow> Inl (Discovery e)
      | _ \<Rightarrow> Inr True)"

definition validate_skill_root :: "agent_env \<Rightarrow> path \<Rightarrow> agent_error + unit" where
  "validate_skill_root env p =
     and_then (ensure (p \<noteq> [] \<and> is_absolute p) (InvalidPath ''skill root must be an absolute path'')) (\<lambda>_.
     and_then (ensure (valid_utf8 p) (InvalidPath ''skill root must be valid UTF-8'')) (\<lambda>_.
     and_then (ensure (CurDir \<notin> set (components p) \<and> ParentDir \<notin> set (components p))
       (InvalidPath (''skill root is not lexically normalized: '' @ p))) (\<lambda>_.
     case ev_stat env p of
       Symlink \<Rightarrow> Inl (InvalidPath (''skill root must not be a symbolic link: '' @ p))
     | OtherFile \<Rightarrow> Inl (InvalidPath (p @ '' exists but is not a directory''))
     | Directory \<Rightarrow> Inr ()
     | NotFound \<Rightarrow> Inr ()
     | StatFailed e \<Rightarrow> Inl (Discovery e))))"

definition instance_of :: "agent_descriptor \<Rightarrow> string \<Rightarrow> path \<Rightarrow> bool \<Rightarrow> agent_instance" where
  "instance_of desc tail root root_exists =
     \<lparr>ai_id = ad_id desc @ tail, ai_descriptor_id = ad_id desc, ai_display_name = ad_display_name desc,
      ai_skill_root = root, ai_enabled = True, ai_detected = True, ai_skill_root_exists = root_exists\<rparr>"

definition discover_built_in :: "agent_env \<Rightarrow> built_in_adapter \<Rightarrow> agent_error + agent_instance list" where
  "discover_built_in env a =
     and_then (home_dir env) (\<lambda>home.
     let skill_root = path_join home (ba_relative_skill_root a) in
     and_then (path_entry_exists env skill_root) (\<lambda>root_there.
     and_then (if root_there then Inr True
               else and_then (try_map (\<lambda>c. path_entry_exists env (path_join home c)) (ba_detection_roots a))
                      (\<lambda>found. Inr (list_ex id found))) (\<lambda>detected.
     if \<not> detected then Inr []
     else
       and_then (validate_skill_root env skill_root) (\<lambda>_.
       and_then (path_entry_exists env skill_root) (\<lambda>there.
       Inr [instance_of (ba_descriptor a) '':default'' skill_root there])))))"

definition custom_descriptor :: "string \<Rightarrow> string \<Rightarrow> agent_descriptor" where
  "custom_descriptor i name = \<lparr>ad_id = ''custom:'' @ i, ad_display_name = name, ad_kind = Custom\<rparr>"

definition discover_custom :: "agent_env \<Rightarrow> agent_descriptor \<Rightarrow> path \<Rightarrow> agent_error + agent_instance list" where
  "discover_custom env desc root =
     and_then (validate_skill_root env root) (\<lambda>_.
     and_then (path_entry_exists env root) (\<lambda>there.
     Inr [instance_of desc '':configured'' root there]))"

datatype adapter = BuiltInAdapter built_in_adapter | CustomAdapter agent_descriptor path

record discovery_result =
  dr_descriptor :: agent_descriptor
  dr_instances :: "agent_instance list"
  dr_error :: "string option"

fun adapter_descriptor :: "adapter \<Rightarrow> agent_descriptor" where
  "adapter_descriptor (BuiltInAdapter a) = ba_descriptor a"
| "adapter_descriptor (CustomAdapter desc root) = desc"

fun discover :: "agent_env \<Rightarrow> adapter \<Rightarrow> agent_error + agent_instance list" where
  "discover env (BuiltInAdapter a) = discover_built_in env a"
| "discover env (CustomAdapter desc root) = discover_custom env desc root"

definition builtin_registry :: "adapter list" where
  "builtin_registry = map BuiltInAdapter built_in_adapters"

definition with_custom_profile :: "adapter list \<Rightarrow> string \<Rightarrow> string \<Rightarrow> path \<Rightarrow> adapter list" where
  "with_custom_profile registry i name root = registry @ [CustomAdapter (custom_descriptor i name) root]"

definition discover_all :: "agent_env \<Rightarrow> adapter list \<Rightarrow> discovery_result list" where
  "discover_all env registry = map (\<lambda>a.
     case discover env a of
       Inr instances \<Rightarrow> \<lparr>dr_descriptor = adapter_descriptor a, dr_instances = instances, dr_error = None\<rparr>
     | Inl e \<Rightarrow> \<lparr>dr_descriptor = adapter_descriptor a, dr_instances = [], dr_error = Some (agent_error_text e)\<rparr>) registry"

definition valid_custom_key :: "string \<Rightarrow> bool" where
  "valid_custom_key v \<longleftrightarrow> v \<noteq> [] \<and> length v \<le> 64
     \<and> list_all (\<lambda>c. is_ascii_alphanumeric c \<or> c \<in> {CHR ''-'', CHR ''_'', CHR ''.''}) v"

definition validate_persisted_profile :: "agent_env \<Rightarrow> string \<Rightarrow> string \<Rightarrow> path \<Rightarrow> bool \<Rightarrow> agent_error + unit" where
  "validate_persisted_profile env profile descriptor root is_custom =
     and_then (validate_skill_root env root) (\<lambda>_.
     if is_custom then
       and_then (ok_or (case strip_prefix ''custom:'' descriptor of None \<Rightarrow> None
                        | Some v \<Rightarrow> if valid_custom_key v then Some v else None)
         (InvalidProfileIdentity ''custom descriptor must be custom:<portable-id>'')) (\<lambda>key.
       let expected_id = ''custom:'' @ key @ '':configured'' in
       ensure (profile = expected_id) (InvalidProfileIdentity (''custom profile id must be '' @ expected_id)))
     else
       and_then (ok_or (List.find (\<lambda>a. ad_id (ba_descriptor a) = descriptor) built_in_adapters)
         (InvalidProfileIdentity (''unknown built-in descriptor: '' @ descriptor))) (\<lambda>a.
       let expected_id = ad_id (ba_descriptor a) @ '':default'' in
       and_then (ensure (profile = expected_id)
         (InvalidProfileIdentity (''built-in profile id must be '' @ expected_id))) (\<lambda>_.
       and_then (home_dir env) (\<lambda>home.
       let expected_root = path_join home (ba_relative_skill_root a) in
       ensure (path_eq root expected_root)
         (InvalidProfileIdentity (''built-in profile '' @ profile @ '' must use '' @ expected_root))))))"

section \<open>Identity\<close>

lemma built_in_ids_distinct: "distinct (map (\<lambda>a. ad_id (ba_descriptor a)) built_in_adapters)"
  by (simp add: built_in_adapters_def application_def unified_def)

lemma built_in_roots_relative:
  "a \<in> set built_in_adapters \<Longrightarrow> \<not> is_absolute (ba_relative_skill_root a)"
  by (auto simp: built_in_adapters_def application_def unified_def path_join_def is_absolute_def)

lemma built_in_find: "a \<in> set built_in_adapters \<Longrightarrow>
  List.find (\<lambda>b. ad_id (ba_descriptor b) = ad_id (ba_descriptor a)) built_in_adapters = Some a"
  using sql_find_unique [OF built_in_ids_distinct] by (simp add: sql_find_def)

lemma built_in_not_custom: "a \<in> set built_in_adapters \<Longrightarrow> strip_prefix ''custom:'' (ad_id (ba_descriptor a)) = None"
  by (auto simp: built_in_adapters_def application_def unified_def)

lemma path_eq_refl [simp]: "path_eq p p"
  by (simp add: path_eq_def)

lemma discover_built_in_Inr:
  assumes "discover_built_in env a = Inr instances" and "i \<in> set instances"
  shows "\<exists>home there. home_dir env = Inr home \<and> validate_skill_root env (path_join home (ba_relative_skill_root a)) = Inr ()
    \<and> i = instance_of (ba_descriptor a) '':default'' (path_join home (ba_relative_skill_root a)) there"
proof -
  obtain home where home: "home_dir env = Inr home"
    using assms(1) by (cases "home_dir env") (simp_all add: discover_built_in_def)
  let ?root = "path_join home (ba_relative_skill_root a)"
  obtain detected where "(if \<not> detected then Inr []
     else and_then (validate_skill_root env ?root) (\<lambda>_. and_then (path_entry_exists env ?root) (\<lambda>there.
       Inr [instance_of (ba_descriptor a) '':default'' ?root there]))) = Inr instances"
    using assms(1) unfolding discover_built_in_def home and_then_simps Let_def and_then_Inr_iff [of "path_entry_exists env ?root"]
      and_then_Inr_iff [of "if _ then _ else _"] by blast
  then show ?thesis
    using assms(2) home
    by (cases detected; cases "validate_skill_root env ?root"; cases "path_entry_exists env ?root") auto
qed

lemma validated_root:
  assumes "validate_skill_root env p = Inr ()"
  shows "is_absolute p \<and> CurDir \<notin> set (components p) \<and> ParentDir \<notin> set (components p) \<and> ev_stat env p \<noteq> Symlink"
  using assms unfolding validate_skill_root_def result_simps by auto

text \<open>What discovery reports can be stored: every instance a built-in adapter discovers passes the
  persisted-profile check, under its own descriptor, with an absolute and lexically normalized root
  that is not a symbolic link.\<close>

theorem discovered_profiles_are_valid:
  assumes "a \<in> set built_in_adapters" and "discover_built_in env a = Inr instances" and "i \<in> set instances"
  shows "validate_persisted_profile env (ai_id i) (ai_descriptor_id i) (ai_skill_root i) False = Inr ()
    \<and> ai_descriptor_id i = ad_id (ba_descriptor a) \<and> is_absolute (ai_skill_root i)
    \<and> CurDir \<notin> set (components (ai_skill_root i)) \<and> ParentDir \<notin> set (components (ai_skill_root i))
    \<and> ev_stat env (ai_skill_root i) \<noteq> Symlink"
proof -
  obtain home there where home: "home_dir env = Inr home"
    and ok: "validate_skill_root env (path_join home (ba_relative_skill_root a)) = Inr ()"
    and i: "i = instance_of (ba_descriptor a) '':default'' (path_join home (ba_relative_skill_root a)) there"
    using discover_built_in_Inr [OF assms(2,3)] by blast
  have "validate_persisted_profile env (ad_id (ba_descriptor a) @ '':default'') (ad_id (ba_descriptor a))
      (path_join home (ba_relative_skill_root a)) False = Inr ()"
    using built_in_find [OF assms(1)] home ok by (simp add: validate_persisted_profile_def Let_def)
  then show ?thesis using validated_root [OF ok] by (simp add: i instance_of_def)
qed

definition sample_agents :: agent_env where
  "sample_agents = \<lparr>ev_home = Some ''/h'', ev_stat = (\<lambda>p. if p = ''/h/.codex'' then Directory else NotFound)\<rparr>"

theorem discovered_profiles_are_valid_witness:
  "validate_persisted_profile sample_agents ''codex:default'' ''codex'' ''/h/.codex/skills'' False = Inr ()"
proof -
  let ?a = "application ''codex'' ''Codex'' (path_join ''.codex'' ''skills'') [''.codex'']"
  let ?i = "instance_of (ba_descriptor ?a) '':default'' ''/h/.codex/skills'' False"
  have "?a \<in> set built_in_adapters" by (simp add: built_in_adapters_def)
  moreover have "discover_built_in sample_agents ?a = Inr [?i]" by code_simp
  moreover have "?i \<in> set [?i]" by simp
  ultimately have "validate_persisted_profile sample_agents (ai_id ?i) (ai_descriptor_id ?i) (ai_skill_root ?i) False = Inr ()"
    using discovered_profiles_are_valid by blast
  then show ?thesis by (simp add: instance_of_def application_def)
qed

text \<open>A profile's identity decides its directory: two built-in profiles accepted with the same
  identifier use the same skill root, and no custom profile can take the identifier of a built-in
  one, so a forged record cannot redirect a built-in agent to another directory.\<close>

theorem profile_identity_decides_its_root:
  assumes "validate_persisted_profile env i descriptor root False = Inr ()"
    and "validate_persisted_profile env i descriptor' root' custom = Inr ()"
  shows "\<not> custom \<and> descriptor' = descriptor \<and> path_eq root root'"
proof -
  have found: "\<exists>a \<in> set built_in_adapters. ad_id (ba_descriptor a) = dd \<and> i = dd @ '':default''
      \<and> (\<exists>home. home_dir env = Inr home \<and> path_eq rr (path_join home (ba_relative_skill_root a)))"
    if "validate_persisted_profile env i dd rr False = Inr ()" for dd rr
    using that by (auto simp: validate_persisted_profile_def result_simps Let_def find_Some_iff)
  obtain a where a: "a \<in> set built_in_adapters" "ad_id (ba_descriptor a) = descriptor" "i = descriptor @ '':default''"
    "\<exists>home. home_dir env = Inr home \<and> path_eq root (path_join home (ba_relative_skill_root a))"
    using found [OF assms(1)] by blast
  have "\<not> custom"
  proof
    assume custom
    then obtain key where "i = ''custom:'' @ key @ '':configured''"
      using assms(2) by (auto simp: validate_persisted_profile_def result_simps Let_def)
    then have "last (descriptor @ '':default'') = last (''custom:'' @ key @ '':configured'')" using a(3) by metis
    then show False by simp
  qed
  with assms(2) obtain b where b: "b \<in> set built_in_adapters" "ad_id (ba_descriptor b) = descriptor'" "i = descriptor' @ '':default''"
    "\<exists>home. home_dir env = Inr home \<and> path_eq root' (path_join home (ba_relative_skill_root b))"
    using found by fastforce
  have same: "descriptor' = descriptor" using a(3) b(3) by (metis append_same_eq)
  then have "b = a" using a(1,2) b(1,2) built_in_find by (metis option.inject)
  then show ?thesis using a(4) b(4) same \<open>\<not> custom\<close> by (auto simp: path_eq_def)
qed

theorem profile_identity_decides_its_root_witness:
  "validate_persisted_profile sample_agents ''codex:default'' ''codex'' ''/h//.codex/skills'' False = Inr ()
   \<and> path_eq ''/h/.codex/skills'' ''/h//.codex/skills''"
proof -
  have 1: "validate_persisted_profile sample_agents ''codex:default'' ''codex'' ''/h/.codex/skills'' False = Inr ()" by code_simp
  have 2: "validate_persisted_profile sample_agents ''codex:default'' ''codex'' ''/h//.codex/skills'' False = Inr ()" by code_simp
  show ?thesis using profile_identity_decides_its_root [OF 1 2] 2 by blast
qed

end
