(* ===== verification/Deployments.thy ===== *)
theory Deployments
  imports Agents Entitlements
begin

text \<open>
  The deployment catalog (\<open>local_store/deployments.rs\<close>, \<open>local_store/uninstall.rs\<close>) and the
  deployment preferences (\<open>local_store/prefs.rs\<close>). Profiles and deployments are validated before
  they are stored; the catalog row of an uninstall is removed only if it is still the one the
  uninstall was started against. \<open>serde_json\<close>'s encoding of a list of strings is an argument.
\<close>

record upsert_profile =
  up_id :: string
  up_descriptor_id :: string
  up_display_name :: string
  up_skill_root :: path
  up_enabled :: bool
  up_is_custom :: bool

record deployment_request =
  dq_skill_id :: string
  dq_profile_id :: string
  dq_blob_hash :: string
  dq_target_path :: path
  dq_state :: deployment_state
  dq_last_error :: "string option"

record deployment_record =
  dc_skill_id :: string
  dc_skill_name :: string
  dc_profile_id :: string
  dc_blob_hash :: string
  dc_target_path :: path
  dc_state :: deployment_state
  dc_last_error :: "string option"

definition validate_stable_absolute_path :: "path \<Rightarrow> string \<Rightarrow> store_error + unit" where
  "validate_stable_absolute_path p field =
     and_then (ensure (is_absolute p) (InvalidInput (field @ '' must be absolute''))) (\<lambda>_.
     and_then (path_to_string p) (\<lambda>_.
     ensure (CurDir \<notin> set (components p) \<and> ParentDir \<notin> set (components p))
       (InvalidInput (field @ '' must be lexically normalized: '' @ p))))"

definition validate_agent_profile :: "agent_env \<Rightarrow> upsert_profile \<Rightarrow> store_error + unit" where
  "validate_agent_profile env p =
     and_then (validate_all [(''id'', up_id p), (''descriptor_id'', up_descriptor_id p),
                             (''display_name'', up_display_name p)]) (\<lambda>_.
     and_then (validate_stable_absolute_path (up_skill_root p) ''agent skill_root'') (\<lambda>_.
     case validate_persisted_profile env (up_id p) (up_descriptor_id p) (up_skill_root p) (up_is_custom p) of
       Inl e \<Rightarrow> Inl (InvalidInput (agent_error_text e))
     | Inr _ \<Rightarrow>
         (case ev_stat env (up_skill_root p) of
            Symlink \<Rightarrow> Inl (InvalidInput (''agent skill_root must not be a symbolic link: '' @ up_skill_root p))
          | OtherFile \<Rightarrow> Inl (InvalidInput (''agent skill_root exists but is not a directory: '' @ up_skill_root p))
          | Directory \<Rightarrow> Inr ()
          | NotFound \<Rightarrow> Inr ()
          | StatFailed e \<Rightarrow> Inl (Io e))))"

definition profile_row_of :: "upsert_profile \<Rightarrow> profile_row" where
  "profile_row_of p =
     \<lparr>pr_id = up_id p, pr_descriptor_id = up_descriptor_id p, pr_display_name = up_display_name p,
      pr_skill_root = up_skill_root p, pr_enabled = up_enabled p, pr_is_custom = up_is_custom p\<rparr>"

definition deployment_count :: "store \<Rightarrow> string \<Rightarrow> nat" where
  "deployment_count d profile = sql_count (\<lambda>x. de_profile_id x = profile) (deployments d)"

definition upsert_agent_profile :: "agent_env \<Rightarrow> upsert_profile \<Rightarrow> store \<Rightarrow> store_error + (store \<times> profile_row)" where
  "upsert_agent_profile env p d =
     and_then (validate_agent_profile env p) (\<lambda>_.
     and_then (path_to_string (up_skill_root p)) (\<lambda>root.
     case sql_find (\<lambda>r. pr_id r = up_id p) (profiles d) of
       Some r \<Rightarrow>
         if pr_skill_root r \<noteq> root \<and> 0 < deployment_count d (up_id p) then
           Inl (AgentProfileRootInUse (up_id p) (pr_skill_root r) (up_skill_root p) (deployment_count d (up_id p)))
         else and_then (exec (\<lambda>d. d\<lparr>profiles := sql_upsert (\<lambda>r. pr_id r = up_id p) (profile_row_of p)
                               (\<lambda>_. profile_row_of p) (profiles d)\<rparr>) d) (\<lambda>d'. Inr (d', profile_row_of p))
     | None \<Rightarrow> and_then (exec (\<lambda>d. d\<lparr>profiles := sql_upsert (\<lambda>r. pr_id r = up_id p) (profile_row_of p)
                               (\<lambda>_. profile_row_of p) (profiles d)\<rparr>) d) (\<lambda>d'. Inr (d', profile_row_of p))))"

definition get_agent_profile :: "string \<Rightarrow> store \<Rightarrow> profile_row option" where
  "get_agent_profile profile d = sql_find (\<lambda>r. pr_id r = profile) (profiles d)"

definition list_agent_profiles :: "store \<Rightarrow> profile_row list" where
  "list_agent_profiles d = sort_key (\<lambda>r. (pr_display_name r, pr_id r)) (profiles d)"

definition deployment_row_of :: "deployment_request \<Rightarrow> deployment_row" where
  "deployment_row_of q =
     \<lparr>de_skill_id = dq_skill_id q, de_profile_id = dq_profile_id q, de_blob_hash = dq_blob_hash q,
      de_target_path = dq_target_path q, de_state = dq_state q, de_last_error = dq_last_error q\<rparr>"

definition record_of :: "string \<Rightarrow> deployment_row \<Rightarrow> deployment_record" where
  "record_of name x =
     \<lparr>dc_skill_id = de_skill_id x, dc_skill_name = name, dc_profile_id = de_profile_id x,
      dc_blob_hash = de_blob_hash x, dc_target_path = de_target_path x, dc_state = de_state x,
      dc_last_error = de_last_error x\<rparr>"

definition same_deployment :: "string \<Rightarrow> string \<Rightarrow> deployment_row \<Rightarrow> bool" where
  "same_deployment skill profile x \<longleftrightarrow> de_skill_id x = skill \<and> de_profile_id x = profile"

definition record_deployment :: "deployment_request \<Rightarrow> store \<Rightarrow> store_error + (store \<times> deployment_record)" where
  "record_deployment q d =
     and_then (validate_all [(''skill_id'', dq_skill_id q), (''agent_profile_id'', dq_profile_id q),
                             (''deployed_blob_hash'', dq_blob_hash q)]) (\<lambda>_.
     and_then (validate_stable_absolute_path (dq_target_path q) ''deployment target_path'') (\<lambda>_.
     and_then (path_to_string (dq_target_path q)) (\<lambda>_.
     and_then (ok_or (map_option pr_skill_root (sql_find (\<lambda>r. pr_id r = dq_profile_id q) (profiles d)))
       (AgentProfileNotFound (dq_profile_id q))) (\<lambda>root.
     and_then (ensure (parent (dq_target_path q) = Some (components root))
       (InvalidInput (''deployment target '' @ dq_target_path q
          @ '' is not a direct child of agent profile root '' @ root))) (\<lambda>_.
     and_then (ok_or (map_option sk_name (sql_find (\<lambda>r. sk_id r = dq_skill_id q) (skills d)))
       (SkillNotFound (dq_skill_id q))) (\<lambda>name.
     and_then (exec (\<lambda>d. d\<lparr>deployments := sql_upsert (same_deployment (dq_skill_id q) (dq_profile_id q))
                 (deployment_row_of q) (\<lambda>_. deployment_row_of q) (deployments d)\<rparr>) d) (\<lambda>d'.
     Inr (d', record_of name (deployment_row_of q)))))))))"

definition deployment_name :: "store \<Rightarrow> deployment_row \<Rightarrow> string" where
  "deployment_name d x = or_else (map_option sk_name (sql_find (\<lambda>r. sk_id r = de_skill_id x) (skills d))) (de_skill_id x)"

definition get_deployment :: "string \<Rightarrow> string \<Rightarrow> store \<Rightarrow> deployment_record option" where
  "get_deployment skill profile d =
     map_option (\<lambda>x. record_of (deployment_name d x) x) (sql_find (same_deployment skill profile) (deployments d))"

text \<open>\<open>ORDER BY s.name, d.skill_id, d.agent_profile_id\<close>; a missing name sorts first.\<close>

definition list_deployments :: "store \<Rightarrow> deployment_record list" where
  "list_deployments d = map (\<lambda>x. record_of (deployment_name d x) x)
     (sort_key (\<lambda>x. (map_option sk_name (sql_find (\<lambda>r. sk_id r = de_skill_id x) (skills d)), de_skill_id x, de_profile_id x))
        (deployments d))"

definition remove_deployment_catalog ::
  "string \<Rightarrow> string \<Rightarrow> string \<Rightarrow> path \<Rightarrow> store \<Rightarrow> store_error + (store \<times> bool)" where
  "remove_deployment_catalog skill profile expected_hash expected_target d =
     and_then (path_to_string expected_target) (\<lambda>target.
     case sql_find (same_deployment skill profile) (deployments d) of
       None \<Rightarrow> Inr (d, False)
     | Some x \<Rightarrow>
         if de_blob_hash x \<noteq> expected_hash \<or> de_target_path x \<noteq> target then
           Inl (DeploymentCatalogChanged skill profile)
         else
           let deleted = sql_count (same_deployment skill profile) (deployments d) in
           and_then (exec (\<lambda>d. d\<lparr>deployments := sql_delete (same_deployment skill profile) (deployments d)\<rparr>) d) (\<lambda>d'.
           Inr (d', deleted = 1)))"

section \<open>The outbox contract\<close>

interpretation profile_op: outbox_operation "\<lambda>(env, p). upsert_agent_profile env p"
proof
  fix a :: "agent_env \<times> upsert_profile" and d d' r
  assume "outbox_inv d" and "(case a of (env, p) \<Rightarrow> upsert_agent_profile env p) d = Inr (d', r)"
  then have "outbox_step d d'"
    by (cases a) (auto simp: upsert_agent_profile_def result_simps split: option.splits if_splits
        intro!: outbox_step_other_table)
  then show "outbox_inv d'" and "kept d d'" by (auto intro: outbox_step_inv outbox_step_kept)
qed

interpretation deployment_op: outbox_operation record_deployment
proof
  fix q d d' r
  assume "outbox_inv d" and "record_deployment q d = Inr (d', r)"
  then have "outbox_step d d'"
    by (auto simp: record_deployment_def result_simps intro!: outbox_step_other_table)
  then show "outbox_inv d'" and "kept d d'" by (auto intro: outbox_step_inv outbox_step_kept)
qed

interpretation catalog_op: outbox_operation
  "\<lambda>(skill, profile, hash, target). remove_deployment_catalog skill profile hash target"
proof
  fix a :: "string \<times> string \<times> string \<times> path" and d d' r
  assume inv: "outbox_inv d"
    and "(case a of (skill, profile, hash, target) \<Rightarrow> remove_deployment_catalog skill profile hash target) d = Inr (d', r)"
  then have "d' = d \<or> schema_ok d' \<and> mutations d' = mutations d"
    by (cases a) (auto simp: remove_deployment_catalog_def result_simps Let_def split: option.splits if_splits)
  then have "outbox_step d d'" using inv outbox_step_refl outbox_step_other_table by blast
  then show "outbox_inv d'" and "kept d d'" by (auto intro: outbox_step_inv outbox_step_kept)
qed

section \<open>The catalog invariant\<close>

text \<open>Every deployment lies directly under the root of its profile.\<close>

definition catalog_ok :: "store \<Rightarrow> bool" where
  "catalog_ok d \<longleftrightarrow> list_all (\<lambda>x. list_all (\<lambda>p. pr_id p = de_profile_id x \<longrightarrow>
     parent (de_target_path x) = Some (components (pr_skill_root p))) (profiles d)) (deployments d)"

lemma schema_profile_unique:
  "schema_ok d \<Longrightarrow> p \<in> set (profiles d) \<Longrightarrow> q \<in> set (profiles d) \<Longrightarrow> pr_id p = pr_id q \<Longrightarrow> p = q"
  unfolding schema_ok_def deployments_ok_def using same_key_same_row by metis

lemma catalog_ok_upsert_profile:
  assumes "schema_ok d" and "catalog_ok d" and "upsert_agent_profile env p d = Inr (d', r)"
  shows "catalog_ok d'"
proof -
  let ?new = "sql_upsert (\<lambda>r. pr_id r = up_id p) (profile_row_of p) (\<lambda>_. profile_row_of p) (profiles d)"
  have eff: "d' = d\<lparr>profiles := ?new\<rparr>" and root: "\<And>q. q \<in> set (profiles d) \<Longrightarrow> pr_id q = up_id p \<Longrightarrow>
      sql_find (\<lambda>r. pr_id r = up_id p) (profiles d) = Some q \<Longrightarrow>
      pr_skill_root q = up_skill_root p \<or> deployment_count d (up_id p) = 0"
    using assms(3) by (auto simp: upsert_agent_profile_def result_simps split: option.splits if_splits)
  have "parent (de_target_path x) = Some (components (pr_skill_root q))"
    if x: "x \<in> set (deployments d)" and q: "q \<in> set ?new" "pr_id q = de_profile_id x" for x q
  proof (cases "q = profile_row_of p")
    case False
    then have "q \<in> set (profiles d)" using q(1) by (auto simp: set_sql_upsert split: if_splits)
    then show ?thesis using assms(2) x q(2) by (auto simp: catalog_ok_def list_all_iff)
  next
    case True
    then have px: "de_profile_id x = up_id p" using q(2) by (simp add: profile_row_of_def)
    have "de_profile_id x \<in> set (map pr_id (profiles d))" using assms(1) x by (auto simp: schema_ok_def deployments_ok_def list_all_iff)
    then obtain q0 where q0: "q0 \<in> set (profiles d)" "pr_id q0 = up_id p" using px by auto
    then have "sql_find (\<lambda>r. pr_id r = up_id p) (profiles d) = Some q0"
      using assms(1) sql_find_unique [of pr_id "profiles d" q0] by (simp add: schema_ok_def deployments_ok_def)
    moreover have "deployment_count d (up_id p) \<noteq> 0" using x px by (auto simp: deployment_count_def sql_count_eq_0)
    ultimately have "pr_skill_root q0 = up_skill_root p" using root [OF q0] by auto
    moreover have "parent (de_target_path x) = Some (components (pr_skill_root q0))"
      using assms(2) x q0 px by (auto simp: catalog_ok_def list_all_iff)
    ultimately show ?thesis using True by (simp add: profile_row_of_def)
  qed
  then show ?thesis by (simp add: eff catalog_ok_def list_all_iff)
qed

lemma catalog_ok_record_deployment:
  assumes "schema_ok d" and "catalog_ok d" and "record_deployment q d = Inr (d', r)"
  shows "catalog_ok d'"
proof -
  obtain p where p: "sql_find (\<lambda>r. pr_id r = dq_profile_id q) (profiles d) = Some p"
    "parent (dq_target_path q) = Some (components (pr_skill_root p))"
    and eff: "d' = d\<lparr>deployments := sql_upsert (same_deployment (dq_skill_id q) (dq_profile_id q))
                 (deployment_row_of q) (\<lambda>_. deployment_row_of q) (deployments d)\<rparr>"
    using assms(3) by (auto simp: record_deployment_def result_simps)
  have "parent (dq_target_path q) = Some (components (pr_skill_root p'))" if "p' \<in> set (profiles d)" "pr_id p' = dq_profile_id q" for p'
    using schema_profile_unique [OF assms(1) that(1)] sql_find_Some [OF p(1)] that(2) p(2) by auto
  then show ?thesis
    using assms(2) by (auto simp: eff catalog_ok_def list_all_iff set_sql_upsert deployment_row_of_def split: if_splits)
qed

lemma catalog_ok_remove:
  assumes "catalog_ok d" and "remove_deployment_catalog skill profile hash target d = Inr (d', r)"
  shows "catalog_ok d'"
proof -
  have "profiles d' = profiles d \<and> set (deployments d') \<subseteq> set (deployments d)"
    using assms(2) by (auto simp: remove_deployment_catalog_def result_simps Let_def set_sql_delete split: option.splits if_splits)
  then show ?thesis using assms(1) by (auto simp: catalog_ok_def list_all_iff)
qed

text \<open>The catalog operations as steps, for histories of any length.\<close>

datatype catalog_cmd =
  SaveProfile agent_env upsert_profile
| SaveDeployment deployment_request
| RemoveDeployment string string string path

fun catalog_step :: "catalog_cmd \<Rightarrow> store \<Rightarrow> store_error + store" where
  "catalog_step (SaveProfile env p) d = map_sum id fst (upsert_agent_profile env p d)"
| "catalog_step (SaveDeployment q) d = map_sum id fst (record_deployment q d)"
| "catalog_step (RemoveDeployment skill profile hash target) d =
     map_sum id fst (remove_deployment_catalog skill profile hash target d)"

lemma map_sum_fst_Inr: "map_sum id fst x = Inr d \<longleftrightarrow> (\<exists>r. x = Inr (d, r))"
  by (cases x) auto

interpretation catalog: transition_system catalog_step "\<lambda>d. outbox_inv d \<and> catalog_ok d"
proof
  fix d cmd d'
  assume inv: "outbox_inv d \<and> catalog_ok d" and "catalog_step cmd d = Inr d'"
  show "outbox_inv d' \<and> catalog_ok d'"
  proof (cases cmd)
    case (SaveProfile env p)
    then obtain r where run: "upsert_agent_profile env p d = Inr (d', r)"
      using \<open>catalog_step cmd d = Inr d'\<close> by (auto simp: map_sum_fst_Inr)
    have "outbox_inv d'" using profile_op.run_inv [of d "(env, p)" d' r] run inv by simp
    moreover have "catalog_ok d'" using catalog_ok_upsert_profile [OF _ _ run] inv by (simp add: outbox_inv_def)
    ultimately show ?thesis ..
  next
    case (SaveDeployment q)
    then obtain r where run: "record_deployment q d = Inr (d', r)"
      using \<open>catalog_step cmd d = Inr d'\<close> by (auto simp: map_sum_fst_Inr)
    have "outbox_inv d'" using deployment_op.run_inv [OF _ run] inv by simp
    moreover have "catalog_ok d'" using catalog_ok_record_deployment [OF _ _ run] inv by (simp add: outbox_inv_def)
    ultimately show ?thesis ..
  next
    case (RemoveDeployment skill profile hash target)
    then obtain r where run: "remove_deployment_catalog skill profile hash target d = Inr (d', r)"
      using \<open>catalog_step cmd d = Inr d'\<close> by (auto simp: map_sum_fst_Inr)
    have "outbox_inv d'" using catalog_op.run_inv [of d "(skill, profile, hash, target)" d' r] run inv by simp
    moreover have "catalog_ok d'" using catalog_ok_remove [OF _ run] inv by simp
    ultimately show ?thesis ..
  qed
qed

text \<open>Whatever profiles are saved, deployments recorded and removed, in any order, every deployment
  in the catalog lies directly inside the skill root of its profile: a profile's root cannot move
  while something is deployed under it, and no deployment is recorded anywhere else.\<close>

theorem deployments_stay_under_their_root:
  assumes "outbox_inv d" and "catalog_ok d" and "x \<in> set (deployments (run_steps catalog_step cmds d))"
  shows "\<exists>p \<in> set (profiles (run_steps catalog_step cmds d)). pr_id p = de_profile_id x
    \<and> parent (de_target_path x) = Some (components (pr_skill_root p))"
proof -
  let ?d' = "run_steps catalog_step cmds d"
  have inv: "outbox_inv ?d'" "catalog_ok ?d'" using catalog.run_inv [of d cmds] assms(1,2) by auto
  then obtain p where "p \<in> set (profiles ?d')" "pr_id p = de_profile_id x"
    using assms(3) by (auto simp: outbox_inv_def schema_ok_def deployments_ok_def list_all_iff)
  then show ?thesis using inv(2) assms(3) by (auto simp: catalog_ok_def list_all_iff)
qed

definition codex_profile :: "path \<Rightarrow> upsert_profile" where
  "codex_profile root = \<lparr>up_id = ''codex:default'', up_descriptor_id = ''codex'', up_display_name = ''Codex'',
     up_skill_root = root, up_enabled = True, up_is_custom = False\<rparr>"

definition codex_deployment :: "path \<Rightarrow> deployment_request" where
  "codex_deployment target = \<lparr>dq_skill_id = ''s1'', dq_profile_id = ''codex:default'', dq_blob_hash = hash_a,
     dq_target_path = target, dq_state = Installed, dq_last_error = None\<rparr>"

theorem deployments_stay_under_their_root_witness:
  "let d' = run_steps catalog_step [SaveProfile sample_agents (codex_profile ''/h/.codex/skills''),
       SaveDeployment (codex_deployment ''/etc/x''), SaveDeployment (codex_deployment ''/h/.codex/skills/x'')] (sample_store Pending) in
   map de_target_path (deployments d') = [''/h/.codex/skills/x'']
   \<and> (\<exists>p \<in> set (profiles d'). parent ''/h/.codex/skills/x'' = Some (components (pr_skill_root p)))"
proof -
  let ?cmds = "[SaveProfile sample_agents (codex_profile ''/h/.codex/skills''),
       SaveDeployment (codex_deployment ''/etc/x''), SaveDeployment (codex_deployment ''/h/.codex/skills/x'')]"
  have 1: "outbox_inv (sample_store Pending)" "catalog_ok (sample_store Pending)" by code_simp+
  have 2: "map de_target_path (deployments (run_steps catalog_step ?cmds (sample_store Pending))) = [''/h/.codex/skills/x'']"
    by code_simp
  let ?x = "deployment_row_of (codex_deployment ''/h/.codex/skills/x'')"
  have 3: "?x \<in> set (deployments (run_steps catalog_step ?cmds (sample_store Pending)))" by code_simp
  have "de_target_path ?x = ''/h/.codex/skills/x''" by code_simp
  with deployments_stay_under_their_root [OF 1 3] have
    "\<exists>p \<in> set (profiles (run_steps catalog_step ?cmds (sample_store Pending))).
       parent ''/h/.codex/skills/x'' = Some (components (pr_skill_root p))" by auto
  with 2 show ?thesis unfolding Let_def by blast
qed

text \<open>An uninstall removes from the catalog exactly the row it was started against. If the row now
  names another snapshot or another target the removal is refused and nothing is deleted; if there
  is none the answer is false; otherwise that row and no other is gone.\<close>

theorem catalog_removal_is_exact:
  assumes "schema_ok d" and "x \<in> set (deployments d)" and "valid_utf8 target"
  shows "remove_deployment_catalog (de_skill_id x) (de_profile_id x) hash target d =
    (if de_blob_hash x = hash \<and> de_target_path x = target
     then Inr (d\<lparr>deployments := filter (\<lambda>y. y \<noteq> x) (deployments d)\<rparr>, True)
     else Inl (DeploymentCatalogChanged (de_skill_id x) (de_profile_id x)))"
proof -
  let ?key = "\<lambda>y. (de_skill_id y, de_profile_id y)" and ?P = "same_deployment (de_skill_id x) (de_profile_id x)"
  have dist: "distinct (map ?key (deployments d))" using assms(1) by (simp add: schema_ok_def deployments_ok_def)
  have P: "?P = (\<lambda>y. ?key y = ?key x)" by (auto simp: same_deployment_def fun_eq_iff)
  have find: "sql_find ?P (deployments d) = Some x" unfolding P by (rule sql_find_unique [OF dist assms(2)])
  have count: "sql_count ?P (deployments d) = 1"
    using sql_count_unique [OF dist assms(2), of "\<lambda>_. True"] unfolding P by simp
  have "?P y \<longleftrightarrow> y = x" if "y \<in> set (deployments d)" for y
    using same_key_same_row [OF dist that assms(2)] by (auto simp: P)
  then have del: "sql_delete ?P (deployments d) = filter (\<lambda>y. y \<noteq> x) (deployments d)"
    by (auto simp: sql_delete_def intro: filter_cong)
  have "schema_ok (d\<lparr>deployments := filter (\<lambda>y. y \<noteq> x) (deployments d)\<rparr>)"
    using assms(1) distinct_map_filter [OF dist]
    by (auto simp: schema_ok_def skills_ok_def mutations_ok_def deployments_ok_def entitlements_ok_def prefs_ok_def list_all_iff)
  then show ?thesis
    using find count del assms(3) by (simp add: remove_deployment_catalog_def path_to_string_def Let_def exec_def)
qed

definition deployed_store :: store where
  "deployed_store = run_steps catalog_step [SaveProfile sample_agents (codex_profile ''/h/.codex/skills''),
     SaveDeployment (codex_deployment ''/h/.codex/skills/x'')] (sample_store Pending)"

theorem catalog_removal_is_exact_witness:
  "remove_deployment_catalog ''s1'' ''codex:default'' hash_b ''/h/.codex/skills/x'' deployed_store
   = Inl (DeploymentCatalogChanged ''s1'' ''codex:default'')"
proof -
  let ?x = "deployment_row_of (codex_deployment ''/h/.codex/skills/x'')"
  have a: "schema_ok deployed_store" "?x \<in> set (deployments deployed_store)" "valid_utf8 ''/h/.codex/skills/x''" by code_simp+
  have b: "de_skill_id ?x = ''s1''" "de_profile_id ?x = ''codex:default''" "de_blob_hash ?x = hash_a" "hash_a \<noteq> hash_b" by code_simp+
  show ?thesis using catalog_removal_is_exact [OF a, of hash_b] by (simp add: b)
qed

end
