(* ===== verification/Prefs.thy ===== *)
theory Prefs
  imports Outcomes
begin

text \<open>
  Deployment preferences (\<open>local_store/prefs.rs\<close>): the global default targets and the per-skill
  override, stored as JSON text. \<open>serde_json\<close> is the pair of arguments \<open>encode\<close> and \<open>decode\<close>; what
  the code relies on is that decoding gives back what was encoded (\<open>json_list_codec\<close>).
\<close>

type_synonym encode_list = "string list \<Rightarrow> string + string"
type_synonym decode_list = "string \<Rightarrow> string + string list"

definition json_list_codec :: "encode_list \<Rightarrow> decode_list \<Rightarrow> bool" where
  "json_list_codec encode decode \<longleftrightarrow> (\<forall>xs. \<exists>s. encode xs = Inr s \<and> decode s = Inr xs)"

definition global_pref_key :: string where "global_pref_key = []"
definition max_targets :: nat where "max_targets = 64"
definition max_profile_id_len :: nat where "max_profile_id_len = 128"

definition check_profile_id :: "string \<Rightarrow> store_error + unit" where
  "check_profile_id i =
     and_then (validate_non_empty ''agent profile id'' i) (\<lambda>_.
     ensure (length i \<le> max_profile_id_len) (InvalidInput ''agent profile id exceeds 128 characters''))"

fun normalize_loop :: "string list \<Rightarrow> string list \<Rightarrow> store_error + string list" where
  "normalize_loop acc [] = Inr acc"
| "normalize_loop acc (i # is) =
     and_then (check_profile_id i) (\<lambda>_.
     normalize_loop (if trim i \<in> set acc then acc else acc @ [trim i]) is)"

definition normalize_profile_ids :: "string list \<Rightarrow> store_error + string list" where
  "normalize_profile_ids is =
     and_then (ensure (length is \<le> max_targets) (InvalidInput ''deployment targets exceed the maximum of 64'')) (\<lambda>_.
     normalize_loop [] is)"

fun parse_loop :: "string list \<Rightarrow> string list \<Rightarrow> store_error + string list" where
  "parse_loop acc [] = Inr acc"
| "parse_loop acc (i # is) =
     and_then (check_profile_id i) (\<lambda>_. parse_loop (if i \<in> set acc then acc else acc @ [i]) is)"

definition parse_profile_ids :: "decode_list \<Rightarrow> string \<Rightarrow> store_error + string list" where
  "parse_profile_ids decode raw =
     and_then (map_err InvalidPersistedState (decode raw)) (parse_loop [])"

definition stored_pref :: "store \<Rightarrow> string \<Rightarrow> string option" where
  "stored_pref d key = map_option pf_profile_ids (sql_find (\<lambda>p. pf_skill_id p = key) (prefs d))"

definition read_pref :: "decode_list \<Rightarrow> string \<Rightarrow> store \<Rightarrow> store_error + string list option" where
  "read_pref decode key d =
     (case stored_pref d key of
        None \<Rightarrow> Inr None
      | Some raw \<Rightarrow> and_then (parse_profile_ids decode raw) (\<lambda>is. Inr (Some is)))"

definition default_deployment_targets :: "decode_list \<Rightarrow> store \<Rightarrow> store_error + string list" where
  "default_deployment_targets decode d =
     and_then (read_pref decode global_pref_key d) (\<lambda>v. Inr (or_else v []))"

definition write_pref :: "encode_list \<Rightarrow> string \<Rightarrow> string list \<Rightarrow> store \<Rightarrow> store_error + (store \<times> string list)" where
  "write_pref encode key is d =
     and_then (normalize_profile_ids is) (\<lambda>normalized.
     and_then (map_err InvalidInput (encode normalized)) (\<lambda>encoded.
     and_then (exec (\<lambda>d. d\<lparr>prefs := sql_upsert (\<lambda>p. pf_skill_id p = key)
         \<lparr>pf_skill_id = key, pf_profile_ids = encoded\<rparr> (\<lambda>p. p\<lparr>pf_profile_ids := encoded\<rparr>) (prefs d)\<rparr>) d) (\<lambda>d'.
     Inr (d', normalized))))"

definition set_default_deployment_targets ::
  "encode_list \<Rightarrow> string list \<Rightarrow> store \<Rightarrow> store_error + (store \<times> string list)" where
  "set_default_deployment_targets encode is d = write_pref encode global_pref_key is d"

definition skill_deployment_targets :: "decode_list \<Rightarrow> string \<Rightarrow> store \<Rightarrow> store_error + string list option" where
  "skill_deployment_targets decode skill d =
     and_then (validate_non_empty ''skill_id'' skill) (\<lambda>_. read_pref decode skill d)"

definition set_skill_deployment_targets ::
  "encode_list \<Rightarrow> string \<Rightarrow> string list \<Rightarrow> store \<Rightarrow> store_error + (store \<times> string list)" where
  "set_skill_deployment_targets encode skill is d =
     and_then (validate_non_empty ''skill_id'' skill) (\<lambda>_. write_pref encode skill is d)"

definition clear_skill_deployment_targets :: "string \<Rightarrow> store \<Rightarrow> store_error + store" where
  "clear_skill_deployment_targets skill d =
     and_then (validate_non_empty ''skill_id'' skill) (\<lambda>_.
     exec (\<lambda>d. d\<lparr>prefs := sql_delete (\<lambda>p. pf_skill_id p = skill) (prefs d)\<rparr>) d)"

interpretation pref_op: outbox_operation "\<lambda>(encode, key, is). write_pref encode key is"
proof
  fix a :: "encode_list \<times> string \<times> string list" and d d' r
  assume "outbox_inv d" and "(case a of (encode, key, is) \<Rightarrow> write_pref encode key is) d = Inr (d', r)"
  then have "outbox_step d d'"
    by (cases a) (auto simp: write_pref_def result_simps intro!: outbox_step_other_table)
  then show "outbox_inv d'" and "kept d d'" by (auto intro: outbox_step_inv outbox_step_kept)
qed

interpretation clear_pref_op: outbox_operation "\<lambda>skill d. map_sum id (\<lambda>d'. (d', ())) (clear_skill_deployment_targets skill d)"
proof
  fix skill d d' and r :: unit
  assume inv: "outbox_inv d" and run: "map_sum id (\<lambda>d'. (d', ())) (clear_skill_deployment_targets skill d) = Inr (d', r)"
  from run have "clear_skill_deployment_targets skill d = Inr d'" by (cases "clear_skill_deployment_targets skill d") auto
  then have "outbox_step d d'"
    using inv by (auto simp: clear_skill_deployment_targets_def result_simps intro!: outbox_step_other_table)
  then show "outbox_inv d'" and "kept d d'" by (auto intro: outbox_step_inv outbox_step_kept)
qed

section \<open>Trimming\<close>

lemma strip_any_prefix: "w \<in> set ws \<Longrightarrow> strip_any ws (w @ r) \<noteq> None"
  by (induction ws) (auto split: option.splits)

lemma strip_any_shorter: "strip_any ws (p @ q) = None \<Longrightarrow> strip_any ws p = None"
proof (rule ccontr)
  assume none: "strip_any ws (p @ q) = None" and "strip_any ws p \<noteq> None"
  then obtain r w where "w \<in> set ws" "p = w @ r" using strip_any_Some by fastforce
  with strip_any_prefix [of w ws "r @ q"] none show False by simp
qed

lemma trim_end_prefix: "\<exists>q. s = trim_end s @ q"
proof -
  obtain q where "rev s = q @ strip_while (map rev white_space) (length s) (rev s)"
    using strip_while_suffix [of "map rev white_space" "length s" "rev s"] by (auto simp: suffix_def)
  then have "s = rev (strip_while (map rev white_space) (length s) (rev s)) @ rev q"
    by (metis rev_append rev_rev_ident)
  then show ?thesis by (auto simp: trim_end_def)
qed

lemma trim_idem: "trim (trim s) = trim s"
proof -
  have empty: "[] \<notin> set (map rev white_space)" using white_space_nonempty by auto
  let ?t = "trim_start s"
  have start: "strip_any white_space ?t = None"
    unfolding trim_start_def by (rule strip_while_stops [OF white_space_nonempty order.refl])
  obtain q where "?t = trim ?t @ q \<or> ?t = trim_end ?t @ q" using trim_end_prefix by blast
  moreover obtain q where q: "?t = trim s @ q" using trim_end_prefix [of ?t] by (auto simp: trim_def)
  have "strip_any white_space (trim s) = None" using start q strip_any_shorter by metis
  then have 1: "trim_start (trim s) = trim s" by (simp add: trim_start_def strip_while_id)
  have "strip_any (map rev white_space) (rev (trim s)) = None"
    unfolding trim_def trim_end_def rev_rev_ident by (rule strip_while_stops [OF empty]) simp
  then have "trim_end (trim s) = trim s" by (simp add: trim_end_def strip_while_id)
  then show ?thesis using 1 by (simp add: trim_def [of "trim s"])
qed

lemma length_trim: "length (trim s) \<le> length s"
proof -
  have "length (trim_end t) \<le> length t" for t using trim_end_prefix [of t] by (metis length_append le_add1)
  moreover have "length (trim_start s) \<le> length s"
    unfolding trim_start_def using strip_while_suffix by (auto dest: suffix_length_le)
  ultimately show ?thesis unfolding trim_def using le_trans by blast
qed

section \<open>Round trip\<close>

definition normal_ids :: "string list \<Rightarrow> bool" where
  "normal_ids is \<longleftrightarrow> distinct is \<and> (\<forall>i \<in> set is. trim i = i \<and> check_profile_id i = Inr ())"

lemma check_profile_id_trim: "check_profile_id i = Inr () \<Longrightarrow> check_profile_id (trim i) = Inr ()"
  using length_trim [of i] by (auto simp: check_profile_id_def result_simps is_blank_def trim_idem)

lemma normalize_loop_normal:
  "normalize_loop acc is = Inr r \<Longrightarrow> normal_ids acc \<Longrightarrow>
   normal_ids r \<and> set r = set acc \<union> trim ` set is \<and> length r \<le> length acc + length is"
proof (induction acc "is" rule: normalize_loop.induct)
  case (2 acc i "is")
  let ?acc = "if trim i \<in> set acc then acc else acc @ [trim i]"
  have i: "check_profile_id i = Inr ()" and rest: "normalize_loop ?acc is = Inr r"
    using 2(2) by (auto simp: result_simps)
  have "normal_ids ?acc" using 2(3) check_profile_id_trim [OF i] by (auto simp: normal_ids_def trim_idem)
  then have "normal_ids r \<and> set r = set ?acc \<union> trim ` set is \<and> length r \<le> length ?acc + length is"
    using 2(1) i rest by blast
  then show ?case by auto
qed simp

lemma parse_loop_normal: "normal_ids (acc @ is) \<Longrightarrow> parse_loop acc is = Inr (acc @ is)"
  by (induction acc "is" rule: parse_loop.induct) (auto simp: normal_ids_def)

lemma parse_normal: "json_list_codec encode decode \<Longrightarrow> encode is = Inr s \<Longrightarrow> normal_ids is \<Longrightarrow>
   parse_profile_ids decode s = Inr is"
proof -
  assume codec: "json_list_codec encode decode" and enc: "encode is = Inr s" and norm: "normal_ids is"
  obtain s' where "encode is = Inr s'" "decode s' = Inr is" using codec unfolding json_list_codec_def by blast
  then show ?thesis using enc norm parse_loop_normal [of "[]" "is"] by (simp add: parse_profile_ids_def)
qed

lemma sql_find_append: "sql_find P (xs @ ys) = (case sql_find P xs of None \<Rightarrow> sql_find P ys | Some x \<Rightarrow> Some x)"
  by (induction xs) auto

lemma sql_find_upsert:
  assumes "\<And>p. key (f p) = key p" and "key new = i"
  shows "sql_find (\<lambda>p. key p = j) (sql_upsert (\<lambda>p. key p = i) new f rows)
    = (if j = i then Some (case sql_find (\<lambda>p. key p = i) rows of None \<Rightarrow> new | Some p \<Rightarrow> f p)
       else sql_find (\<lambda>p. key p = j) rows)"
proof (cases "list_ex (\<lambda>p. key p = i) rows")
  case True
  then have found: "sql_find (\<lambda>p. key p = i) rows \<noteq> None" unfolding sql_find_None by (auto simp: list_ex_iff)
  have "sql_find (\<lambda>p. key p = j) (sql_update (\<lambda>p. key p = i) f rows)
      = map_option (\<lambda>p. if key p = i then f p else p) (sql_find (\<lambda>p. key p = j) rows)"
    by (rule sql_find_update) (simp add: assms(1))
  moreover have "key p = j" if "sql_find (\<lambda>p. key p = j) rows = Some p" for p using sql_find_Some [OF that] by simp
  ultimately show ?thesis
    using True found by (cases "sql_find (\<lambda>p. key p = j) rows") (auto simp: sql_upsert_def)
next
  case False
  then have none: "sql_find (\<lambda>p. key p = i) rows = None" unfolding sql_find_None by (auto simp: list_ex_iff)
  then show ?thesis
    using False assms(2) by (auto simp: sql_upsert_def sql_find_append split: option.splits)
qed

text \<open>Saved targets read back exactly: writing a skill's targets stores and returns the trimmed ids
  without repetitions, at most 64 of them and in the order given, and reading the skill afterwards
  returns that very list; the global default and every other skill are unaffected.\<close>

theorem saved_targets_read_back:
  assumes "json_list_codec encode decode" and "set_skill_deployment_targets encode skill is d = Inr (d', saved)"
  shows "skill_deployment_targets decode skill d' = Inr (Some saved)
    \<and> distinct saved \<and> set saved = trim ` set is \<and> length saved \<le> 64
    \<and> (\<forall>other. other \<noteq> skill \<longrightarrow> stored_pref d' other = stored_pref d other)"
proof -
  obtain encoded where blank: "\<not> is_blank skill" and norm: "normalize_loop [] is = Inr saved"
    and len: "length is \<le> 64" and enc: "encode saved = Inr encoded"
    and d': "prefs d' = sql_upsert (\<lambda>p. pf_skill_id p = skill) \<lparr>pf_skill_id = skill, pf_profile_ids = encoded\<rparr>
               (\<lambda>p. p\<lparr>pf_profile_ids := encoded\<rparr>) (prefs d)"
    using assms(2) by (auto simp: set_skill_deployment_targets_def write_pref_def normalize_profile_ids_def
        max_targets_def result_simps)
  have saved: "normal_ids saved \<and> set saved = trim ` set is \<and> length saved \<le> length is"
  proof -
    have "normal_ids []" by (simp add: normal_ids_def)
    from normalize_loop_normal [OF norm this] show ?thesis by simp
  qed
  have find: "sql_find (\<lambda>p. pf_skill_id p = other) (prefs d')
      = (if other = skill then Some (case sql_find (\<lambda>p. pf_skill_id p = skill) (prefs d) of
           None \<Rightarrow> \<lparr>pf_skill_id = skill, pf_profile_ids = encoded\<rparr> | Some p \<Rightarrow> p\<lparr>pf_profile_ids := encoded\<rparr>)
         else sql_find (\<lambda>p. pf_skill_id p = other) (prefs d))" for other
    unfolding d' by (rule sql_find_upsert) simp_all
  have "stored_pref d' skill = Some encoded"
    by (auto simp: stored_pref_def find split: option.splits)
  then have "skill_deployment_targets decode skill d' = Inr (Some saved)"
    using blank parse_normal [OF assms(1) enc] saved
    by (simp add: skill_deployment_targets_def read_pref_def validate_non_empty_def)
  moreover have "stored_pref d' other = stored_pref d other" if "other \<noteq> skill" for other
    using that by (simp add: stored_pref_def find)
  moreover have "distinct saved" using saved by (simp only: normal_ids_def)
  moreover have "set saved = trim ` set is" "length saved \<le> 64" using saved len by linarith+
  ultimately show ?thesis by blast
qed

text \<open>A codec for the witness: every id on a line of its own, a final mark for the empty list.\<close>

definition lines_encode :: encode_list where
  "lines_encode xs = Inr (concat (map (\<lambda>x. concat (map (\<lambda>c. [CHR ''.'', c]) x) @ ''|'') xs))"

fun lines_decode_from :: "string \<Rightarrow> string \<Rightarrow> string + string list" where
  "lines_decode_from acc [] = (if acc = [] then Inr [] else Inl ''unterminated'')"
| "lines_decode_from acc [c] = (if c = CHR ''|'' then Inr [acc] else Inl ''unterminated'')"
| "lines_decode_from acc (c # d # s) =
     (if c = CHR ''|'' then and_then (lines_decode_from [] (d # s)) (\<lambda>xs. Inr (acc # xs))
      else lines_decode_from (acc @ [d]) s)"

definition lines_decode :: decode_list where
  "lines_decode s = lines_decode_from [] s"

lemma lines_decode_item:
  "lines_decode_from acc (concat (map (\<lambda>c. [CHR ''.'', c]) x) @ CHR ''|'' # s)
   = and_then (lines_decode_from [] s) (\<lambda>xs. Inr ((acc @ x) # xs))"
proof (induction x arbitrary: acc)
  case Nil
  then show ?case by (cases s) auto
qed simp

lemma lines_codec: "json_list_codec lines_encode lines_decode"
proof -
  have "lines_decode_from [] (concat (map (\<lambda>x. concat (map (\<lambda>c. [CHR ''.'', c]) x) @ ''|'') xs)) = Inr xs" for xs
    by (induction xs) (simp_all add: lines_decode_item)
  then show ?thesis by (simp add: json_list_codec_def lines_encode_def lines_decode_def)
qed

theorem saved_targets_read_back_witness:
  "\<exists>d'. set_skill_deployment_targets lines_encode ''s1'' [''codex:default'', ''cursor:default'', ''codex:default''] (sample_store Pending)
          = Inr (d', [''codex:default'', ''cursor:default''])
     \<and> skill_deployment_targets lines_decode ''s1'' d' = Inr (Some [''codex:default'', ''cursor:default''])"
proof -
  let ?r = "set_skill_deployment_targets lines_encode ''s1'' [''codex:default'', ''cursor:default'', ''codex:default''] (sample_store Pending)"
  have run: "?r = Inr (fst (projr ?r), [''codex:default'', ''cursor:default''])" by code_simp
  from saved_targets_read_back [OF lines_codec run] run show ?thesis by blast
qed

text \<open>Saving an empty selection does not clear a skill's override: the override then reads back as
  the empty list, not as absent, so the skill no longer falls back to the global default. Only the
  explicit clear operation removes it.\<close>

theorem empty_override_is_not_cleared:
  assumes "json_list_codec encode decode" and "schema_ok d" and "\<not> is_blank skill" and "char_count skill \<le> 64"
  shows "\<exists>d'. set_skill_deployment_targets encode skill [] d = Inr (d', [])
    \<and> skill_deployment_targets decode skill d' = Inr (Some [])
    \<and> (\<exists>d''. clear_skill_deployment_targets skill d' = Inr d''
          \<and> skill_deployment_targets decode skill d'' = Inr None)"
proof -
  obtain encoded where enc: "encode [] = Inr encoded" "decode encoded = Inr []"
    using assms(1) by (auto simp: json_list_codec_def)
  let ?f = "\<lambda>p. p\<lparr>pf_profile_ids := encoded\<rparr>" and ?new = "\<lparr>pf_skill_id = skill, pf_profile_ids = encoded\<rparr>"
  let ?d' = "d\<lparr>prefs := sql_upsert (\<lambda>p. pf_skill_id p = skill) ?new ?f (prefs d)\<rparr>"
  let ?d'' = "?d'\<lparr>prefs := sql_delete (\<lambda>p. pf_skill_id p = skill) (prefs ?d')\<rparr>"
  have ok: "schema_ok (d\<lparr>prefs := ps\<rparr>)" if "distinct (map pf_skill_id ps)" "\<forall>p \<in> set ps. char_count (pf_skill_id p) \<le> 64" for ps
    using assms(2) that
    by (auto simp: schema_ok_def skills_ok_def mutations_ok_def deployments_ok_def entitlements_ok_def prefs_ok_def list_all_iff)
  have keys: "map pf_skill_id (prefs ?d') = (if list_ex (\<lambda>p. pf_skill_id p = skill) (prefs d) then map pf_skill_id (prefs d)
      else map pf_skill_id (prefs d) @ [skill])"
    using map_key_sql_upsert [of "\<lambda>p. pf_skill_id p = skill" pf_skill_id ?f ?new "prefs d"] by simp
  have dist: "distinct (map pf_skill_id (prefs ?d'))"
    using assms(2) unfolding keys by (auto simp: schema_ok_def prefs_ok_def list_ex_iff)
  moreover have "set (map pf_skill_id (prefs ?d')) \<subseteq> insert skill (set (map pf_skill_id (prefs d)))"
    unfolding keys by auto
  then have short: "\<forall>p \<in> set (prefs ?d'). char_count (pf_skill_id p) \<le> 64"
    using assms(2,4) by (auto simp: schema_ok_def prefs_ok_def list_all_iff)
  ultimately have ok': "schema_ok ?d'" using ok [OF dist] by simp
  have ok'': "schema_ok ?d''" using ok [OF distinct_map_sql_delete [OF dist]] short by (simp add: set_sql_delete)
  have run: "set_skill_deployment_targets encode skill [] d = Inr (?d', [])"
    using assms(3) enc ok' by (simp add: set_skill_deployment_targets_def write_pref_def normalize_profile_ids_def
        validate_non_empty_def exec_def)
  moreover have "clear_skill_deployment_targets skill ?d' = Inr ?d''"
    using assms(3) ok'' by (simp add: clear_skill_deployment_targets_def validate_non_empty_def exec_def)
  moreover have "sql_find (\<lambda>p. pf_skill_id p = skill) (prefs ?d'') = None"
    unfolding sql_find_None by (simp add: set_sql_delete)
  then have "skill_deployment_targets decode skill ?d'' = Inr None"
    using assms(3) by (simp add: skill_deployment_targets_def read_pref_def stored_pref_def validate_non_empty_def)
  moreover have "stored_pref ?d' skill = Some encoded"
  proof -
    have "prefs ?d' = sql_upsert (\<lambda>p. pf_skill_id p = skill) ?new ?f (prefs d)" by simp
    then show ?thesis using sql_find_upsert [of pf_skill_id ?f ?new skill skill "prefs d"]
      by (auto simp: stored_pref_def split: option.splits)
  qed
  then have "skill_deployment_targets decode skill ?d' = Inr (Some [])"
    using assms(3) enc by (simp add: skill_deployment_targets_def read_pref_def validate_non_empty_def parse_profile_ids_def)
  ultimately show ?thesis by blast
qed

theorem empty_override_is_not_cleared_witness:
  "\<exists>d'. set_skill_deployment_targets lines_encode ''s1'' [] (sample_store Pending) = Inr (d', [])
     \<and> skill_deployment_targets lines_decode ''s1'' d' = Inr (Some [])"
proof -
  have "schema_ok (sample_store Pending)" "\<not> is_blank ''s1''" "char_count ''s1'' \<le> 64" by code_simp+
  from empty_override_is_not_cleared [OF lines_codec this] show ?thesis by blast
qed

end
