(* ===== verification/Store_Machine.thy ===== *)
theory Store_Machine
  imports Outbox_Properties Pull_Properties Conflicts Skill_Records Deployments Prefs
begin

text \<open>
  Every operation of the local store that writes, as one command type and one step function: the
  store of a running client is reached by a sequence of these commands, issued by the desktop
  commands, the sync cycle and the maintenance tasks in any order, and a command that fails leaves
  the store as it was (its transaction rolls back). The contract of the outbox, proved for each
  operation in its own theory, is lifted here to histories of any length.
\<close>

datatype store_cmd =
  CommitEdit skill_edit string int
| QueueDelete string "int option" string int
| Claim nat int
| Release "string list" int
| Recover int
| Outcome outcome int
| PullPage pull_env int int changes_page
| KeepLocal string bool string int
| KeepRemote string bool int
| GrantLease parse_instant display_instant string entitlement_payload int int
| ExpireLeases display_instant int int
| ReadSkill string int
| Hydrate string string path int
| ClaimEviction string string int
| SetCachePolicy nat
| Catalog catalog_cmd
| SaveDefaultTargets encode_list "string list"
| SaveSkillTargets encode_list string "string list"
| ClearSkillTargets string
| Scope scope_op
| SetClientInstance string
| RegisterDevice string string string
| EnsureClientInstance string

abbreviation without_answer :: "store_error + (store \<times> 'r) \<Rightarrow> store_error + store" where
  "without_answer \<equiv> map_sum id fst"

fun store_step :: "store_cmd \<Rightarrow> store \<Rightarrow> store_error + store" where
  "store_step (CommitEdit e mid now) d = without_answer (commit_skill_edit e mid now d)"
| "store_step (QueueDelete skill base mid now) d = without_answer (queue_skill_delete skill base mid now d)"
| "store_step (Claim limit now) d = without_answer (claim_dispatchable_mutations limit now d)"
| "store_step (Release ids now) d = without_answer (release_in_flight_mutations ids now d)"
| "store_step (Recover now) d = without_answer (recover_in_flight_mutations now d)"
| "store_step (Outcome oc now) d = without_answer (apply_mutation_outcome oc now d)"
| "store_step (PullPage env instant now page) d = without_answer (apply_changes_page env instant now page d)"
| "store_step (KeepLocal skill confirmed mid now) d = without_answer (resolve_keep_local skill confirmed mid now d)"
| "store_step (KeepRemote skill confirmed now) d = without_answer (resolve_keep_remote skill confirmed now d)"
| "store_step (GrantLease parse display skill payload instant now) d =
     without_answer (apply_entitlement parse display skill payload instant now d)"
| "store_step (ExpireLeases display instant now) d = without_answer (expire_due_entitlements display instant now d)"
| "store_step (ReadSkill skill now) d = without_answer (get_skill skill now d)"
| "store_step (Hydrate skill expected workspace now) d =
     without_answer (mark_row_hydrated skill expected workspace now d)"
| "store_step (ClaimEviction skill expected now) d = without_answer (claim_skill_for_eviction skill expected now d)"
| "store_step (SetCachePolicy n) d = without_answer (set_cache_policy n d)"
| "store_step (Catalog cmd) d = catalog_step cmd d"
| "store_step (SaveDefaultTargets encode ids) d = without_answer (set_default_deployment_targets encode ids d)"
| "store_step (SaveSkillTargets encode skill ids) d = without_answer (set_skill_deployment_targets encode skill ids d)"
| "store_step (ClearSkillTargets skill) d = clear_skill_deployment_targets skill d"
| "store_step (Scope op) d = scope_step op d"
| "store_step (SetClientInstance client) d = set_client_instance_id client d"
| "store_step (RegisterDevice client device user) d = record_device_registration client device user d"
| "store_step (EnsureClientInstance uuid) d = without_answer (ensure_client_instance_id uuid d)"

section \<open>Histories of an outbox\<close>

text \<open>A queued mutation that an operation leaves in the queue, whatever its delivery state.\<close>

definition still_queued :: "mutation_row \<Rightarrow> store \<Rightarrow> bool" where
  "still_queued m d \<longleftrightarrow> (\<exists>n \<in> set (mutations d). same_work m n \<and> mu_state n \<noteq> Acked)"

lemma still_queued_self: "m \<in> set (mutations d) \<Longrightarrow> mu_state m \<noteq> Acked \<Longrightarrow> still_queued m d"
  unfolding still_queued_def using same_work_refl by blast

lemma still_queued_trans: "same_work m n \<Longrightarrow> still_queued n d \<Longrightarrow> still_queued m d"
  unfolding still_queued_def using same_work_trans by blast

lemma still_queued_update:
  assumes "m \<in> set (mutations d)" and "same_work m (if P m then f m else m)"
    and "mu_state (if P m then f m else m) \<noteq> Acked"
  shows "still_queued m (update_mutations P f d)"
proof -
  have "(if P m then f m else m) \<in> set (mutations (update_mutations P f d))" using assms(1) by (simp add: set_sql_update)
  then show ?thesis unfolding still_queued_def using assms(2,3) by blast
qed

lemma still_queued_mono: "still_queued m d \<Longrightarrow> set (mutations d) \<subseteq> set (mutations d') \<Longrightarrow> still_queued m d'"
  unfolding still_queued_def by blast

text \<open>
  A transition system whose steps keep the outbox contract, and in which only the steps that
  \<open>settle\<close> a mutation may take it from the queue. Inside it: along any history a queued mutation
  stays queued, with its identity, order and payload, until a step settles it.
\<close>

locale outbox_machine = transition_system step outbox_inv
  for step :: "'op \<Rightarrow> store \<Rightarrow> store_error + store" +
  fixes settles :: "'op \<Rightarrow> mutation_row \<Rightarrow> bool"
  assumes settles_work: "same_work m n \<Longrightarrow> settles op m = settles op n"
    and step_queued: "outbox_inv d \<Longrightarrow> step op d = Inr d' \<Longrightarrow> m \<in> set (mutations d) \<Longrightarrow> mu_state m \<noteq> Acked
      \<Longrightarrow> \<not> settles op m \<Longrightarrow> still_queued m d'"
begin

lemma queued_until_settled:
  "outbox_inv d \<Longrightarrow> m \<in> set (mutations d) \<Longrightarrow> mu_state m \<noteq> Acked \<Longrightarrow> \<forall>op \<in> set ops. \<not> settles op m
   \<Longrightarrow> still_queued m (run_steps step ops d)"
proof (induction ops arbitrary: d m)
  case Nil
  then show ?case by (simp add: still_queued_self)
next
  case (Cons op ops)
  define e where "e = (case step op d of Inl _ \<Rightarrow> d | Inr d' \<Rightarrow> d')"
  have "outbox_inv e" and "still_queued m e"
    using Cons.prems step_inv step_queued still_queued_self by (auto simp: e_def split: sum.split)
  then obtain n where n: "n \<in> set (mutations e)" "same_work m n" "mu_state n \<noteq> Acked"
    by (auto simp: still_queued_def)
  then have "\<forall>op \<in> set ops. \<not> settles op n" using Cons.prems(4) settles_work [OF n(2)] by simp
  then show ?case
    using Cons.IH [OF \<open>outbox_inv e\<close> n(1,3)] still_queued_trans [OF n(2)] by (simp add: e_def)
qed

end

text \<open>What settles a mutation: its acknowledgement by the server, or the user's resolution of a conflict.\<close>

fun settles :: "store_cmd \<Rightarrow> mutation_row \<Rightarrow> bool" where
  "settles (Outcome oc now) m \<longleftrightarrow> oc_status oc = ''acked'' \<and> oc_mutation_id oc = mu_id m"
| "settles (KeepLocal skill confirmed mid now) m \<longleftrightarrow> confirmed \<and> skill = mu_skill_id m"
| "settles (KeepRemote skill confirmed now) m \<longleftrightarrow> confirmed \<and> skill = mu_skill_id m"
| "settles _ m \<longleftrightarrow> False"

lemma without_answer_Inr: "without_answer x = Inr d' \<Longrightarrow> \<exists>r. x = Inr (d', r)"
  by (simp add: map_sum_fst_Inr)

lemma catalog_step_contract:
  assumes "outbox_inv d" and "catalog_step cmd d = Inr d'" shows "outbox_inv d' \<and> kept d d'"
proof (cases cmd)
  case (SaveProfile env p)
  then show ?thesis using assms profile_op.run_inv [of d "(env, p)" d'] profile_op.run_kept [of d "(env, p)" d']
    by (auto dest: without_answer_Inr)
next
  case (SaveDeployment q)
  then show ?thesis using assms deployment_op.run_inv [of d q d'] deployment_op.run_kept [of d q d']
    by (auto dest: without_answer_Inr)
next
  case (RemoveDeployment skill profile hash target)
  then show ?thesis using assms catalog_op.run_inv [of d "(skill, profile, hash, target)" d']
      catalog_op.run_kept [of d "(skill, profile, hash, target)" d']
    by (auto dest: without_answer_Inr)
qed

lemma scope_step_contract:
  assumes "outbox_inv d" and "scope_step op d = Inr d'" shows "outbox_inv d' \<and> kept d d'"
  using assms scope_op.run_inv [of d op d' "()"] scope_op.run_kept [of d op d' "()"] by simp

lemma client_step_contract:
  assumes "outbox_inv d"
  shows "set_client_instance_id client d = Inr d' \<Longrightarrow> outbox_inv d' \<and> kept d d'"
    and "record_device_registration client device user d = Inr d' \<Longrightarrow> outbox_inv d' \<and> kept d d'"
    and "ensure_client_instance_id uuid d = Inr (d', r) \<Longrightarrow> outbox_inv d' \<and> kept d d'"
  using assms outbox_step_other_table [OF assms, of d'] outbox_step_inv [of d d'] outbox_step_kept [of d d']
  by (auto simp: set_client_instance_id_def record_device_registration_def ensure_client_instance_id_def
      result_simps split: option.splits)

text \<open>The contract of one store command: a case of the datatype is the interpretation of its operation.\<close>

lemma store_step_contract:
  assumes "outbox_inv d" and "store_step cmd d = Inr d'" shows "outbox_inv d' \<and> kept d d'"
proof (cases cmd)
  case (CommitEdit e mid now)
  then show ?thesis using assms commit_op.run_inv [of d "(e, mid, now)" d'] commit_op.run_kept [of d "(e, mid, now)" d']
    by (auto dest: without_answer_Inr)
next
  case (QueueDelete skill base mid now)
  then show ?thesis using assms delete_op.run_inv [of d "(skill, base, mid, now)" d'] delete_op.run_kept [of d "(skill, base, mid, now)" d']
    by (auto dest: without_answer_Inr)
next
  case (Claim limit now)
  then show ?thesis using assms claim_op.run_inv [of d "(limit, now)" d'] claim_op.run_kept [of d "(limit, now)" d']
    by (auto dest: without_answer_Inr)
next
  case (Release ids now)
  then show ?thesis using assms release_op.run_inv [of d "(ids, now)" d'] release_op.run_kept [of d "(ids, now)" d']
    by (auto dest: without_answer_Inr)
next
  case (Recover now)
  then show ?thesis using assms recover_op.run_inv [of d "now" d'] recover_op.run_kept [of d "now" d']
    by (auto dest: without_answer_Inr)
next
  case (Outcome oc now)
  then show ?thesis using assms outcome_op.run_inv [of d "(oc, now)" d'] outcome_op.run_kept [of d "(oc, now)" d']
    by (auto dest: without_answer_Inr)
next
  case (PullPage env instant now page)
  then show ?thesis using assms pull_op.run_inv [of d "(env, instant, now, page)" d'] pull_op.run_kept [of d "(env, instant, now, page)" d']
    by (auto dest: without_answer_Inr)
next
  case (KeepLocal skill confirmed mid now)
  then show ?thesis using assms keep_local_op.run_inv [of d "(skill, confirmed, mid, now)" d'] keep_local_op.run_kept [of d "(skill, confirmed, mid, now)" d']
    by (auto dest: without_answer_Inr)
next
  case (KeepRemote skill confirmed now)
  then show ?thesis using assms keep_remote_op.run_inv [of d "(skill, confirmed, now)" d'] keep_remote_op.run_kept [of d "(skill, confirmed, now)" d']
    by (auto dest: without_answer_Inr)
next
  case (GrantLease parse display skill payload instant now)
  then show ?thesis using assms apply_entitlement_step [OF assms(1)] outbox_step_inv outbox_step_kept
    by (fastforce dest: without_answer_Inr)
next
  case (ExpireLeases display instant now)
  then show ?thesis using assms expire_op.run_inv [of d "(display, instant, now)" d'] expire_op.run_kept [of d "(display, instant, now)" d']
    by (auto dest: without_answer_Inr)
next
  case (ReadSkill skill now)
  then show ?thesis using assms get_skill_op.run_inv [of d "(skill, now)" d'] get_skill_op.run_kept [of d "(skill, now)" d']
    by (auto dest: without_answer_Inr)
next
  case (Hydrate skill expected workspace now)
  then show ?thesis using assms hydrate_op.run_inv [of d "(skill, expected, workspace, now)" d'] hydrate_op.run_kept [of d "(skill, expected, workspace, now)" d']
    by (auto dest: without_answer_Inr)
next
  case (ClaimEviction skill expected now)
  then show ?thesis using assms evict_op.run_inv [of d "(skill, expected, now)" d'] evict_op.run_kept [of d "(skill, expected, now)" d']
    by (auto dest: without_answer_Inr)
next
  case (SetCachePolicy n)
  then show ?thesis using assms cache_policy_op.run_inv [of d "n" d'] cache_policy_op.run_kept [of d "n" d']
    by (auto dest: without_answer_Inr)
next
  case (Catalog c)
  then show ?thesis using assms catalog_step_contract by simp
next
  case (SaveDefaultTargets encode ids)
  then show ?thesis using assms pref_op.run_inv [of d "(encode, global_pref_key, ids)" d']
      pref_op.run_kept [of d "(encode, global_pref_key, ids)" d']
    by (auto simp: set_default_deployment_targets_def dest!: without_answer_Inr)
next
  case (SaveSkillTargets encode skill ids)
  then show ?thesis using assms pref_op.run_inv [of d "(encode, skill, ids)" d']
      pref_op.run_kept [of d "(encode, skill, ids)" d']
    by (auto simp: set_skill_deployment_targets_def result_simps dest!: without_answer_Inr)
next
  case (ClearSkillTargets skill)
  then show ?thesis using assms clear_pref_op.run_inv [of d skill d' "()"] clear_pref_op.run_kept [of d skill d' "()"]
    by simp
next
  case (Scope op)
  then show ?thesis using assms scope_step_contract by simp
next
  case (SetClientInstance client)
  then show ?thesis using assms client_step_contract [OF assms(1)] by (auto dest: without_answer_Inr)
next
  case (RegisterDevice client device user)
  then show ?thesis using assms client_step_contract [OF assms(1)] by (auto dest: without_answer_Inr)
next
  case (EnsureClientInstance uuid)
  then show ?thesis using assms client_step_contract [OF assms(1)] by (auto dest: without_answer_Inr)
qed

text \<open>Queued work over one command. Most commands leave the table alone or only add a row.\<close>

lemma update_skills_mutations [simp]: "mutations (update_skills P f d) = mutations d"
  by (simp add: update_skills_def)

lemma exec_same_mutations: "exec f d = Inr d' \<Longrightarrow> (\<And>x. mutations (f x) = mutations x) \<Longrightarrow> mutations d' = mutations d"
  by (auto simp: exec_Inr_iff)

lemma commit_keeps_rows: "commit_skill_edit e mid now d = Inr (d', r) \<Longrightarrow> set (mutations d) \<subseteq> set (mutations d')"
  by (auto simp: commit_skill_edit_def result_simps Let_def insert_mutation_def upsert_edited_skill_def)

lemma delete_keeps_rows: "queue_skill_delete skill base mid now d = Inr (d', r) \<Longrightarrow> set (mutations d) \<subseteq> set (mutations d')"
  by (auto simp: queue_skill_delete_def result_simps Let_def insert_mutation_def)

lemma release_loop_queued:
  "release_loop now ids d = Inr (d', k) \<Longrightarrow> m \<in> set (mutations d) \<Longrightarrow> mu_state m \<noteq> Acked \<Longrightarrow> still_queued m d'"
proof (induction ids arbitrary: d k m)
  case Nil
  then show ?case by (simp add: still_queued_self)
next
  case (Cons i ids)
  let ?d1 = "update_mutations (\<lambda>m. mu_id m = i \<and> mu_state m = InFlight) (released_row now) d"
  obtain k' where run: "release_loop now ids ?d1 = Inr (d', k')"
    using Cons.prems(1) by (auto simp: Let_def result_simps)
  have "still_queued m ?d1"
    by (rule still_queued_update) (use Cons.prems(2,3) in \<open>auto simp: released_row_def same_work_def\<close>)
  then show ?case using Cons.IH [OF run] still_queued_trans unfolding still_queued_def by blast
qed

lemma apply_status_row:
  assumes "apply_status raw n oc now d = Inr d'"
  shows "\<exists>f. mutations d' = mutations (update_mutations (\<lambda>m. mu_id m = oc_mutation_id oc) f d)
    \<and> (\<forall>m. same_work m (f m)) \<and> (oc_status oc \<noteq> ''acked'' \<longrightarrow> (\<forall>m. mu_state (f m) \<noteq> Acked))"
proof (cases "oc_status oc = ''acked''")
  case True
  then obtain revision where "apply_acked (mu_skill_id raw) oc revision now d = Inr d'"
    using assms by (auto simp: apply_status_def Let_def and_then_Inr_iff ok_or_Inr_iff)
  then show ?thesis using True
    by (intro exI [of _ "acked_row oc revision now"])
      (auto simp: apply_acked_def result_simps acked_row_def same_work_def)
next
  case False
  have definitive: ?thesis if "apply_definitive_error (mu_skill_id raw) oc ms ss now d = Inr d'" "ms \<noteq> Acked" for ms ss
    using that by (intro exI [of _ "failed_row oc ms now"])
      (auto simp: apply_definitive_error_def result_simps failed_row_def same_work_def)
  have backed_off: ?thesis
    if "exec (update_mutations (\<lambda>m. mu_id m = oc_mutation_id oc) (backed_off_row oc (backoff_seconds n) now)) d = Inr d'"
    using that by (intro exI [of _ "backed_off_row oc (backoff_seconds n) now"])
      (auto simp: result_simps backed_off_row_def same_work_def)
  show ?thesis
    using assms False definitive backed_off by (auto simp: apply_status_def Let_def split: if_splits)
qed

lemma outcome_queued:
  assumes "apply_mutation_outcome oc now d = Inr (d', r)" and m: "m \<in> set (mutations d)" "mu_state m \<noteq> Acked"
    and "\<not> (oc_status oc = ''acked'' \<and> oc_mutation_id oc = mu_id m)"
  shows "still_queued m d'"
proof -
  consider "d' = d" | raw n where "apply_status raw n oc now d = Inr d'"
    using assms(1) by (auto simp: apply_mutation_outcome_def result_simps split: if_splits)
  then show ?thesis
  proof cases
    case 1
    then show ?thesis using still_queued_self [OF m] by simp
  next
    case 2
    then obtain f where f: "mutations d' = mutations (update_mutations (\<lambda>m. mu_id m = oc_mutation_id oc) f d)"
      "\<forall>m. same_work m (f m)" "oc_status oc \<noteq> ''acked'' \<longrightarrow> (\<forall>m. mu_state (f m) \<noteq> Acked)"
      using apply_status_row by blast
    have "still_queued m (update_mutations (\<lambda>m. mu_id m = oc_mutation_id oc) f d)"
      using m assms(4) f(2,3) by (intro still_queued_update) auto
    then show ?thesis using f(1) by (simp add: still_queued_def)
  qed
qed

lemma supersede_queued:
  assumes "supersede_conflict_chain skill now d = Inr d1" and "m \<in> set (mutations d)" and "mu_state m \<noteq> Acked"
    and "skill \<noteq> mu_skill_id m"
  shows "still_queued m d1"
proof -
  have "d1 = update_mutations (conflicted skill) (superseded_row now) d"
    using assms(1) by (auto simp: supersede_conflict_chain_def result_simps)
  moreover have "still_queued m (update_mutations (conflicted skill) (superseded_row now) d)"
    using assms(2-4) by (intro still_queued_update) (auto simp: conflicted_def)
  ultimately show ?thesis by simp
qed

lemma keep_local_queued:
  assumes "resolve_keep_local skill confirmed mid now d = Inr (d', r)" and "m \<in> set (mutations d)" and "mu_state m \<noteq> Acked"
    and "\<not> (confirmed \<and> skill = mu_skill_id m)"
  shows "still_queued m d'"
proof -
  obtain d1 where "confirmed" "supersede_conflict_chain skill now d = Inr d1" "set (mutations d1) \<subseteq> set (mutations d')"
    using assms(1) by (auto simp: resolve_keep_local_def result_simps Let_def insert_mutation_def) blast
  then show ?thesis using supersede_queued [of skill now d d1 m] still_queued_mono [of m d1 d'] assms(2-4) by blast
qed

lemma keep_remote_queued:
  assumes "resolve_keep_remote skill confirmed now d = Inr (d', r)" and "m \<in> set (mutations d)" and "mu_state m \<noteq> Acked"
    and "\<not> (confirmed \<and> skill = mu_skill_id m)"
  shows "still_queued m d'"
proof -
  obtain d1 where "confirmed" "supersede_conflict_chain skill now d = Inr d1" "set (mutations d1) \<subseteq> set (mutations d')"
    using assms(1) by (auto simp: resolve_keep_remote_def result_simps)
  then show ?thesis using supersede_queued [of skill now d d1 m] still_queued_mono [of m d1 d'] assms(2-4) by blast
qed

lemma update_sync_mutations [simp]: "mutations (update_sync f d) = mutations d"
  by (simp add: update_sync_def)

text \<open>The commands that do not touch the outbox at all.\<close>

lemma get_skill_mutations: "get_skill skill now d = Inr (d', r) \<Longrightarrow> mutations d' = mutations d"
  by (auto simp: get_skill_def result_simps split: if_splits option.splits)

lemma same_mutations:
  "mark_row_hydrated skill expected workspace now d = Inr (d', r2) \<Longrightarrow> mutations d' = mutations d"
  "claim_skill_for_eviction skill expected now d = Inr (d', r3) \<Longrightarrow> mutations d' = mutations d"
  "set_cache_policy k d = Inr (d', r4) \<Longrightarrow> mutations d' = mutations d"
  "apply_entitlement parse display skill payload instant now d = Inr (d', r5) \<Longrightarrow> mutations d' = mutations d"
  "set_client_instance_id client d = Inr d' \<Longrightarrow> mutations d' = mutations d"
  "record_device_registration client device user d = Inr d' \<Longrightarrow> mutations d' = mutations d"
  "ensure_client_instance_id uuid d = Inr (d', r6) \<Longrightarrow> mutations d' = mutations d"
  "write_pref encode key ids d = Inr (d', r7) \<Longrightarrow> mutations d' = mutations d"
  "clear_skill_deployment_targets skill d = Inr d' \<Longrightarrow> mutations d' = mutations d"
  subgoal by (auto simp: mark_row_hydrated_def result_simps Let_def split: if_splits option.splits dest: get_skill_mutations)
  subgoal by (auto simp: claim_skill_for_eviction_def result_simps Let_def split: if_splits option.splits)
  subgoal by (auto simp: set_cache_policy_def result_simps Let_def split: if_splits option.splits)
  subgoal by (auto simp: apply_entitlement_def reconcile_lease_def upsert_lease_def result_simps Let_def split: if_splits)
  subgoal by (auto simp: set_client_instance_id_def result_simps)
  subgoal by (auto simp: record_device_registration_def result_simps)
  subgoal by (auto simp: ensure_client_instance_id_def result_simps split: option.splits)
  subgoal by (auto simp: write_pref_def result_simps)
  subgoal by (auto simp: clear_skill_deployment_targets_def result_simps)
  done

lemma scope_same_mutations: "scope_step op d = Inr d' \<Longrightarrow> outbox_inv d \<Longrightarrow> mutations d' = mutations d"
  using scope_step_sync_only [of op d d'] by (auto simp: outbox_inv_def)

lemma catalog_same_mutations: "catalog_step cmd d = Inr d' \<Longrightarrow> mutations d' = mutations d"
  by (cases cmd) (auto dest!: without_answer_Inr simp: upsert_agent_profile_def record_deployment_def
      remove_deployment_catalog_def result_simps Let_def split: if_splits option.splits)

lemma expire_same_mutations: "expire_due_entitlements display instant now d = Inr (d', r) \<Longrightarrow> mutations d' = mutations d"
proof -
  have loop: "expire_loop now ids e = Inr e' \<Longrightarrow> mutations e' = mutations e" for ids e e'
    by (induction ids arbitrary: e) (auto simp: result_simps Let_def update_deployments_def)
  assume "expire_due_entitlements display instant now d = Inr (d', r)"
  then show ?thesis by (auto simp: expire_due_entitlements_def result_simps Let_def dest: loop)
qed

lemma still_queued_same: "mutations d' = mutations d \<Longrightarrow> m \<in> set (mutations d) \<Longrightarrow> mu_state m \<noteq> Acked \<Longrightarrow> still_queued m d'"
  by (simp add: still_queued_self)

lemma store_step_queued:
  assumes inv: "outbox_inv d" and step: "store_step cmd d = Inr d'" and m: "m \<in> set (mutations d)" "mu_state m \<noteq> Acked"
    and no: "\<not> settles cmd m"
  shows "still_queued m d'"
proof (cases cmd)
  case (CommitEdit e mid now)
  then show ?thesis using step commit_keeps_rows still_queued_mono [OF still_queued_self [OF m]]
    by (auto dest!: without_answer_Inr)
next
  case (QueueDelete skill base mid now)
  then show ?thesis using step delete_keeps_rows still_queued_mono [OF still_queued_self [OF m]]
    by (auto dest!: without_answer_Inr)
next
  case (Claim limit now)
  then obtain r where "claim_dispatchable_mutations limit now d = Inr (d', r)" using step by (auto dest!: without_answer_Inr)
  then have "d' = claim_ids (mu_id ` set (dispatchable_rows limit now d)) now d"
    using inv claim_Inr(1) by (auto simp: outbox_inv_def)
  moreover have "still_queued m (claim_ids ids now d)" for ids
    unfolding claim_ids_def using m by (intro still_queued_update) (auto simp: claimed_row_def same_work_def)
  ultimately show ?thesis by simp
next
  case (Release ids now)
  then show ?thesis using step release_loop_queued [OF _ m] still_queued_self [OF m]
    by (auto simp: release_in_flight_mutations_def split: if_splits dest!: without_answer_Inr)
next
  case (Recover now)
  then have "d' = update_mutations (\<lambda>m. mu_state m = InFlight) (recovered_row now) d"
    using step by (auto simp: recover_in_flight_mutations_def result_simps dest!: without_answer_Inr)
  moreover have "still_queued m (update_mutations (\<lambda>m. mu_state m = InFlight) (recovered_row now) d)"
    using m by (intro still_queued_update) (auto simp: recovered_row_def same_work_def)
  ultimately show ?thesis by simp
next
  case (Outcome oc now)
  then show ?thesis using step no outcome_queued [OF _ m] by (auto dest!: without_answer_Inr)
next
  case (PullPage env instant now page)
  then show ?thesis using step apply_changes_page_retained [OF inv] m still_queued_self
    by (fastforce simp: retained_def dest!: without_answer_Inr)
next
  case (KeepLocal skill confirmed mid now)
  then show ?thesis using step no keep_local_queued [OF _ m] by (auto dest!: without_answer_Inr)
next
  case (KeepRemote skill confirmed now)
  then show ?thesis using step no keep_remote_queued [OF _ m] by (auto dest!: without_answer_Inr)
next
  case (SaveSkillTargets encode skill ids)
  then obtain r where "write_pref encode skill ids d = Inr (d', r)"
    using step by (auto simp: set_skill_deployment_targets_def result_simps dest!: without_answer_Inr)
  then show ?thesis using same_mutations(8) still_queued_same [OF _ m] by blast
qed (use step inv m in \<open>auto dest!: without_answer_Inr intro!: still_queued_same simp: set_default_deployment_targets_def
      dest: get_skill_mutations same_mutations scope_same_mutations catalog_same_mutations expire_same_mutations\<close>)

lemma settles_same_work: "same_work m n \<Longrightarrow> settles cmd m = settles cmd n"
  by (cases cmd) (auto simp: same_work_def)

interpretation client: outbox_machine store_step settles
proof
  show "outbox_inv d \<Longrightarrow> store_step cmd d = Inr d' \<Longrightarrow> outbox_inv d'" for cmd d d'
    using store_step_contract by blast
qed (use settles_same_work store_step_queued in auto)

text \<open>C4: Queued work is never lost. In any history of store commands (edits, pulls, claims, recoveries,
  logouts, evictions, lease expiries, failures of all kinds), a mutation that is in the outbox stays
  in the outbox with its id, skill, order, operation, base revision and payload, and is not acked,
  unless the history holds the server's acknowledgement of exactly that mutation or a conflict
  resolution of its skill the user confirmed. And every state of the history is causal.\<close>

theorem work_is_never_lost:
  assumes "outbox_inv d" and "m \<in> set (mutations d)" and "mu_state m \<noteq> Acked"
    and "\<forall>cmd \<in> set cmds. \<not> settles cmd m"
  shows "(\<exists>n \<in> set (mutations (run_steps store_step cmds d)). same_work m n \<and> mu_state n \<noteq> Acked)
    \<and> causal (run_steps store_step cmds d)"
  using client.queued_until_settled [OF assms] client.run_inv [OF assms(1), of cmds]
  by (simp add: still_queued_def outbox_inv_def)

text \<open>
  The sample history: another mutation is acknowledged, the skill's conflict is reported, a claim and
  a restart happen, and a logout and a login under the same account follow.
\<close>

definition sample_history :: "store_cmd list" where
  "sample_history = [Claim 5 20, Recover 21, Claim 5 22,
     Outcome \<lparr>oc_mutation_id = ''m4'', oc_status = ''acked'', oc_remote_skill_id = Some ''r2'', oc_revision = Some 1,
              oc_conflict_head_revision = None, oc_conflict_manifest_hash = None, oc_error_code = None, oc_message = None\<rparr> 23,
     Outcome (transport_error ''m2'' ''OFFLINE'' ''no route'') 24, QueueDelete ''s1'' None ''m5'' 25, Claim 5 26,
     Scope (PrepareLogin ''u'' ''a''), ReadSkill ''s1'' 27]"

theorem work_is_never_lost_witness:
  "let d = sample_store Pending; d' = run_steps store_step sample_history d in
   map (\<lambda>m. (mu_id m, mu_state m)) (mutations d')
     = [(''m1'', Acked), (''m2'', InFlight), (''m3'', Pending), (''m4'', Acked), (''m5'', Pending)]
   \<and> (\<exists>n \<in> set (mutations d'). same_work (sample_mutation ''m2'' ''s1'' 2 Pending) n \<and> mu_state n \<noteq> Acked)"
proof -
  have 1: "map (\<lambda>m. (mu_id m, mu_state m)) (mutations (run_steps store_step sample_history (sample_store Pending)))
     = [(''m1'', Acked), (''m2'', InFlight), (''m3'', Pending), (''m4'', Acked), (''m5'', Pending)]"
    by code_simp
  have "outbox_inv (sample_store Pending)" "sample_mutation ''m2'' ''s1'' 2 Pending \<in> set (mutations (sample_store Pending))"
    "mu_state (sample_mutation ''m2'' ''s1'' 2 Pending) \<noteq> Acked"
    "\<forall>cmd \<in> set sample_history. \<not> settles cmd (sample_mutation ''m2'' ''s1'' 2 Pending)" by code_simp+
  from work_is_never_lost [OF this] 1 show ?thesis unfolding Let_def by blast
qed

end
