(* ===== verification/Files.thy ===== *)
theory Files
  imports Prelude "HOL-Library.Sublist" "HOL-Library.AList"
begin

text \<open>
  The part of \<open>std::fs\<close> the desktop agent uses, on a tree of entries, with the failures that make it
  hard. An absolute path is the list of its components. Every system call consults a schedule: it
  takes effect, fails with an I/O error or is the point where the process dies; a write that fails
  or dies may leave any prefix of its bytes. A symbolic link is an entry like any other: the code
  looks at paths with \<open>symlink_metadata\<close>, and a path that runs through a link or a file is broken here.

  \<^item> \<open>stat\<close>, \<open>entry\<close>, \<open>put_entry\<close>: the tree, with its lookup laws as the locale \<open>entry_tree\<close>.
  \<^item> \<open>io\<close>: programs over a world, \<open>do_then\<close>, \<open>attempt\<close>, and the system calls.
  \<^item> \<open>wlp\<close>: what holds after a program for each way it can end, whatever the schedule.
\<close>

named_theorems wlp_rules \<open>weakest preconditions of programs and system calls\<close>

type_synonym location = "string list"

datatype node =
  Plain string
| Folder "(string \<times> node) list"
| Link string
| Other

datatype io_error = NotFound | NotADirectory | AlreadyExists | IsADirectory | DirectoryNotEmpty | OtherIo

datatype stat_result = Found node | Missing | Broken

section \<open>The tree\<close>

fun stat :: "location \<Rightarrow> node \<Rightarrow> stat_result" where
  "stat [] n = Found n"
| "stat (x # xs) (Folder es) = (case map_of es x of None \<Rightarrow> Missing | Some n \<Rightarrow> stat xs n)"
| "stat (x # xs) _ = Broken"

fun put_entry :: "location \<Rightarrow> node option \<Rightarrow> node \<Rightarrow> node" where
  "put_entry [] v n = (case v of None \<Rightarrow> n | Some m \<Rightarrow> m)"
| "put_entry (x # xs) v (Folder es) =
     (if xs = [] then Folder (case v of None \<Rightarrow> AList.delete x es | Some m \<Rightarrow> AList.update x m es)
      else case map_of es x of None \<Rightarrow> Folder es | Some n \<Rightarrow> Folder (AList.update x (put_entry xs v n) es))"
| "put_entry (x # xs) v n = n"

definition entry :: "location \<Rightarrow> node \<Rightarrow> node option" where
  "entry p d = (case stat p d of Found n \<Rightarrow> Some n | _ \<Rightarrow> None)"

definition folder_node :: "node \<Rightarrow> bool" where
  "folder_node n = (case n of Folder _ \<Rightarrow> True | _ \<Rightarrow> False)"

definition is_folder :: "location \<Rightarrow> node \<Rightarrow> bool" where
  "is_folder p d = (case entry p d of Some (Folder _) \<Rightarrow> True | _ \<Rightarrow> False)"

text \<open>Two paths of which neither lies inside the other.\<close>

definition unrelated :: "location \<Rightarrow> location \<Rightarrow> bool" where
  "unrelated p q \<longleftrightarrow> \<not> prefix p q \<and> \<not> prefix q p"

lemma unrelated_sym: "unrelated p q \<longleftrightarrow> unrelated q p"
  by (auto simp: unrelated_def)

lemma unrelated_Cons [simp]: "unrelated (x # p) (y # q) \<longleftrightarrow> x \<noteq> y \<or> unrelated p q"
  by (auto simp: unrelated_def)

lemma unrelated_siblings [simp]: "unrelated (r @ [a]) (r @ [b]) \<longleftrightarrow> a \<noteq> b"
  by (auto simp: unrelated_def)

lemma entry_Nil [simp]: "entry [] d = Some d"
  by (simp add: entry_def)

lemma entry_Cons_Folder [simp]:
  "entry (x # xs) (Folder es) = (case map_of es x of None \<Rightarrow> None | Some n \<Rightarrow> entry xs n)"
  by (simp add: entry_def split: option.splits)

lemma entry_Cons_other [simp]:
  "entry (x # xs) (Plain c) = None" "entry (x # xs) (Link l) = None" "entry (x # xs) Other = None"
  by (simp_all add: entry_def)

lemma entry_append: "entry (p @ q) d = (case entry p d of None \<Rightarrow> None | Some n \<Rightarrow> entry q n)"
proof (induction p arbitrary: d)
  case (Cons x p)
  then show ?case by (cases d) (auto split: option.splits)
qed simp

lemma folder_node_iff: "folder_node n \<longleftrightarrow> (\<exists>es. n = Folder es)"
  by (cases n) (auto simp: folder_node_def)

lemma is_folder_iff: "is_folder p d \<longleftrightarrow> (\<exists>es. entry p d = Some (Folder es))"
  by (auto simp: is_folder_def split: option.splits node.splits)

lemma entry_parent_folder: "entry (p @ [x]) d = Some n \<Longrightarrow> is_folder p d"
proof -
  assume e: "entry (p @ [x]) d = Some n"
  then obtain m where m: "entry p d = Some m" "entry [x] m = Some n"
    by (auto simp: entry_append split: option.splits)
  then show ?thesis by (cases m) (auto simp: is_folder_iff)
qed

lemma stat_Found: "stat p d = Found n \<longleftrightarrow> entry p d = Some n"
  by (auto simp: entry_def split: stat_result.splits)

lemma stat_in_folder: "is_folder p d \<Longrightarrow> stat (p @ [x]) d = (case entry (p @ [x]) d of None \<Rightarrow> Missing | Some n \<Rightarrow> Found n)"
proof (induction p arbitrary: d)
  case Nil
  then show ?case by (cases d) (auto simp: is_folder_iff split: option.splits)
next
  case (Cons y p)
  then show ?case by (cases d) (auto simp: is_folder_iff split: option.splits)
qed

subsection \<open>The laws of lookup after an update\<close>

locale entry_tree =
  fixes look :: "location \<Rightarrow> 'd \<Rightarrow> 'n option" and put :: "location \<Rightarrow> 'n option \<Rightarrow> 'd \<Rightarrow> 'd"
    and folder :: "location \<Rightarrow> 'd \<Rightarrow> bool"
  assumes put_same: "folder p d \<Longrightarrow> look (p @ [x]) (put (p @ [x]) v d) = v"
    and put_other: "unrelated p q \<Longrightarrow> look q (put p v d) = look q d"
    and put_above: "strict_prefix q p \<Longrightarrow> folder q d \<Longrightarrow> folder q (put p v d)"
begin

text \<open>
  \<open>away p d d'\<close>: nothing outside \<open>p\<close> has changed. It composes, and holds of updates inside \<open>p\<close>.
\<close>

definition away :: "location \<Rightarrow> 'd \<Rightarrow> 'd \<Rightarrow> bool" where
  "away p d d' \<longleftrightarrow> (\<forall>q. unrelated p q \<longrightarrow> look q d' = look q d) \<and> (\<forall>q. strict_prefix q p \<longrightarrow> folder q d \<longrightarrow> folder q d')"

lemma away_refl: "away p d d"
  by (simp add: away_def)

lemma away_trans: "away p a b \<Longrightarrow> away p b c \<Longrightarrow> away p a c"
  by (simp add: away_def)

lemma unrelated_inside: "unrelated p q \<Longrightarrow> unrelated (p @ r) q"
  unfolding unrelated_def by (meson prefix_order.trans prefix_prefix prefixI prefix_same_cases)

lemma away_inside: "away (p @ r) d d' \<Longrightarrow> away p d d'"
proof -
  assume a: "away (p @ r) d d'"
  have "strict_prefix q (p @ r)" if "strict_prefix q p" for q
    using that by (metis prefixI prefix_order.less_le_trans)
  then show ?thesis using a unrelated_inside [of p _ r] unfolding away_def by blast
qed

lemma away_put: "away p d (put p v d)"
  using put_other put_above by (simp add: away_def)

lemma away_entry: "away p d d' \<Longrightarrow> unrelated p q \<Longrightarrow> look q d' = look q d"
  and away_folder: "away p d d' \<Longrightarrow> strict_prefix q p \<Longrightarrow> folder q d \<Longrightarrow> folder q d'"
  by (simp_all add: away_def)

text \<open>Moving an entry to another name of its folder.\<close>

lemma move_sibling:
  assumes "folder r d" and "x \<noteq> y" and d'_def: "d' = put (r @ [x]) None (put (r @ [y]) v d)"
  shows "look (r @ [y]) d' = v" and "look (r @ [x]) d' = None" and "folder r d'"
    and "unrelated (r @ [x]) q \<Longrightarrow> unrelated (r @ [y]) q \<Longrightarrow> look q d' = look q d"
    and "strict_prefix q r \<Longrightarrow> folder q d \<Longrightarrow> folder q d'"
proof -
  have up: "strict_prefix r (r @ [z])" for z by (simp add: strict_prefix_def)
  have f: "folder r (put (r @ [y]) v d)" using put_above [OF up assms(1)] .
  show "look (r @ [y]) d' = v" using assms(1,2) put_same put_other [of "r @ [x]" "r @ [y]"] by (simp add: d'_def)
  show "look (r @ [x]) d' = None" using put_same [OF f] by (simp add: d'_def)
  show "folder r d'" using put_above [OF up f] by (simp add: d'_def)
  show "look q d' = look q d" if "unrelated (r @ [x]) q" "unrelated (r @ [y]) q"
    using put_other that by (simp add: d'_def)
  show "folder q d'" if "strict_prefix q r" "folder q d"
  proof -
    have "strict_prefix q (r @ [z])" for z using that(1) by (metis prefixI prefix_order.less_le_trans)
    then show ?thesis using put_above that(2) by (simp add: d'_def)
  qed
qed

end

lemma put_entry_same: "is_folder p d \<Longrightarrow> entry (p @ [x]) (put_entry (p @ [x]) v d) = v"
proof (induction p arbitrary: d)
  case Nil
  then show ?case by (cases d) (auto simp: is_folder_iff delete_conv' update_conv' split: option.splits)
next
  case (Cons y p)
  then show ?case by (cases d) (auto simp: is_folder_iff update_conv' split: option.splits)
qed

lemma put_entry_other: "unrelated p q \<Longrightarrow> entry q (put_entry p v d) = entry q d"
proof (induction p v d arbitrary: q rule: put_entry.induct)
  case (2 x xs v es)
  then show ?case
    by (cases q) (auto simp: unrelated_def update_conv' delete_conv' split: option.splits)
qed (auto simp: unrelated_def)

lemma put_entry_above: "strict_prefix q p \<Longrightarrow> is_folder q d \<Longrightarrow> is_folder q (put_entry p v d)"
proof (induction p v d arbitrary: q rule: put_entry.induct)
  case (2 x xs v es)
  then show ?case
  proof (cases q)
    case Nil
    then show ?thesis by (auto simp: is_folder_iff split: option.splits)
  next
    case (Cons y ys)
    then show ?thesis using 2
      by (auto simp: is_folder_iff update_conv' split: option.splits)
  qed
qed (auto simp: is_folder_iff strict_prefix_def)

interpretation tree: entry_tree entry put_entry is_folder
  by unfold_locales (auto intro: put_entry_same put_entry_other put_entry_above)

section \<open>Programs\<close>

text \<open>
  What the schedule answers to a system call: it takes effect, fails, or the process dies in it.
  The number is how many bytes a failing or dying write still transfers. An exhausted schedule is
  a machine without further faults.
\<close>

datatype fault = Go | Fail nat | Crash nat

record world =
  disk :: node
  schedule :: "fault list"

datatype ('e, 'a) run = Done 'a world | Raised 'e world | Halted world

type_synonym ('e, 'a) io = "world \<Rightarrow> ('e, 'a) run"

definition give :: "'a \<Rightarrow> ('e, 'a) io" where
  "give a w = Done a w"

definition raise :: "'e \<Rightarrow> ('e, 'a) io" where
  "raise e w = Raised e w"

definition do_then :: "('e, 'a) io \<Rightarrow> ('a \<Rightarrow> ('e, 'b) io) \<Rightarrow> ('e, 'b) io" where
  "do_then m f w = (case m w of Done a w' \<Rightarrow> f a w' | Raised e w' \<Rightarrow> Raised e w' | Halted w' \<Rightarrow> Halted w')"

text \<open>\<open>attempt m\<close> is the \<open>Result\<close> of \<open>m\<close> as a value, for the code's \<open>match\<close>, \<open>if let Err\<close> and \<open>.ok()\<close>.\<close>

definition attempt :: "('e, 'a) io \<Rightarrow> ('f, 'e + 'a) io" where
  "attempt m w = (case m w of Done a w' \<Rightarrow> Done (Inr a) w' | Raised e w' \<Rightarrow> Done (Inl e) w' | Halted w' \<Rightarrow> Halted w')"

definition wrap :: "('e \<Rightarrow> 'f) \<Rightarrow> ('e, 'a) io \<Rightarrow> ('f, 'a) io" where
  "wrap g m w = (case m w of Done a w' \<Rightarrow> Done a w' | Raised e w' \<Rightarrow> Raised (g e) w' | Halted w' \<Rightarrow> Halted w')"

definition from_result :: "'e + 'a \<Rightarrow> ('e, 'a) io" where
  "from_result r = (case r of Inl e \<Rightarrow> raise e | Inr a \<Rightarrow> give a)"

text \<open>The disk, read by a program without a system call of its own (the argument of a pure check).\<close>

definition run_disk :: "('e, 'a) run \<Rightarrow> node" where
  "run_disk r = (case r of Done _ w \<Rightarrow> disk w | Raised _ w \<Rightarrow> disk w | Halted w \<Rightarrow> disk w)"

definition syscall :: "(node \<Rightarrow> io_error + (node \<times> 'a)) \<Rightarrow> (nat \<Rightarrow> node \<Rightarrow> node) \<Rightarrow> (io_error, 'a) io" where
  "syscall f partial w = (case schedule w of
     Fail n # s \<Rightarrow> Raised OtherIo \<lparr>disk = partial n (disk w), schedule = s\<rparr>
   | Crash n # s \<Rightarrow> Halted \<lparr>disk = partial n (disk w), schedule = s\<rparr>
   | _ \<Rightarrow> (case f (disk w) of
        Inl e \<Rightarrow> Raised e \<lparr>disk = disk w, schedule = tl (schedule w)\<rparr>
      | Inr (d, a) \<Rightarrow> Done a \<lparr>disk = d, schedule = tl (schedule w)\<rparr>))"

definition atomic :: "(node \<Rightarrow> io_error + (node \<times> 'a)) \<Rightarrow> (io_error, 'a) io" where
  "atomic f = syscall f (\<lambda>_ d. d)"

section \<open>System calls\<close>

definition checked_stat :: "location \<Rightarrow> node \<Rightarrow> io_error + node" where
  "checked_stat p d = (case stat p d of Found n \<Rightarrow> Inr n | Missing \<Rightarrow> Inl NotFound | Broken \<Rightarrow> Inl NotADirectory)"

text \<open>\<open>fs::symlink_metadata\<close>\<close>

definition metadata :: "location \<Rightarrow> (io_error, node) io" where
  "metadata p = atomic (\<lambda>d. and_then (checked_stat p d) (\<lambda>n. Inr (d, n)))"

text \<open>Creating an entry that must not exist, in a folder that must.\<close>

definition new_entry :: "location \<Rightarrow> node \<Rightarrow> node \<Rightarrow> io_error + (node \<times> unit)" where
  "new_entry p n d =
     and_then (checked_stat (butlast p) d) (\<lambda>m.
     and_then (ensure (folder_node m) NotADirectory) (\<lambda>_.
     and_then (ensure (p \<noteq> [] \<and> stat p d = Missing) AlreadyExists) (\<lambda>_.
     Inr (put_entry p (Some n) d, ()))))"

definition create_dir :: "location \<Rightarrow> (io_error, unit) io" where
  "create_dir p = atomic (new_entry p (Folder []))"

definition create_new :: "location \<Rightarrow> (io_error, unit) io" where
  "create_new p = atomic (new_entry p (Plain []))"

text \<open>\<open>OpenOptions::append(true).create(true)\<close>\<close>

definition open_append :: "location \<Rightarrow> (io_error, unit) io" where
  "open_append p = atomic (\<lambda>d. case stat p d of
     Found (Plain _) \<Rightarrow> Inr (d, ())
   | Found (Folder _) \<Rightarrow> Inl IsADirectory
   | Found _ \<Rightarrow> Inl OtherIo
   | Missing \<Rightarrow> new_entry p (Plain []) d
   | Broken \<Rightarrow> Inl NotADirectory)"

definition append_bytes :: "location \<Rightarrow> string \<Rightarrow> node \<Rightarrow> node" where
  "append_bytes p bs d = (case entry p d of Some (Plain c) \<Rightarrow> put_entry p (Some (Plain (c @ bs))) d | _ \<Rightarrow> d)"

text \<open>\<open>write_all\<close> on a file open for writing at its end\<close>

definition write_all :: "location \<Rightarrow> string \<Rightarrow> (io_error, unit) io" where
  "write_all p bs = syscall
     (\<lambda>d. case entry p d of Some (Plain _) \<Rightarrow> Inr (append_bytes p bs d, ()) | _ \<Rightarrow> Inl OtherIo)
     (\<lambda>n. append_bytes p (take n bs))"

definition read_file :: "location \<Rightarrow> (io_error, string) io" where
  "read_file p = atomic (\<lambda>d. and_then (checked_stat p d) (\<lambda>n.
     case n of Plain c \<Rightarrow> Inr (d, c) | Folder _ \<Rightarrow> Inl IsADirectory | _ \<Rightarrow> Inl OtherIo))"

text \<open>\<open>File::open(path)?.sync_all()\<close>: only the existence of the path matters to the model.\<close>

definition sync_path :: "location \<Rightarrow> (io_error, unit) io" where
  "sync_path p = atomic (\<lambda>d. and_then (checked_stat p d) (\<lambda>_. Inr (d, ())))"

definition remove_file :: "location \<Rightarrow> (io_error, unit) io" where
  "remove_file p = atomic (\<lambda>d. and_then (checked_stat p d) (\<lambda>n.
     case n of Folder _ \<Rightarrow> Inl IsADirectory | _ \<Rightarrow> Inr (put_entry p None d, ())))"

definition remove_dir :: "location \<Rightarrow> (io_error, unit) io" where
  "remove_dir p = atomic (\<lambda>d. and_then (checked_stat p d) (\<lambda>n.
     case n of Folder [] \<Rightarrow> (if p = [] then Inl OtherIo else Inr (put_entry p None d, ()))
             | Folder _ \<Rightarrow> Inl DirectoryNotEmpty | _ \<Rightarrow> Inl NotADirectory))"

definition replaceable :: "node \<Rightarrow> node \<Rightarrow> bool" where
  "replaceable n m = (case n of Folder _ \<Rightarrow> m = Folder [] | _ \<Rightarrow> (case m of Folder _ \<Rightarrow> False | _ \<Rightarrow> True))"

text \<open>\<open>rename(2)\<close>: an entry moves into an existing folder, over nothing or over what it may replace.\<close>

definition rename_entry :: "location \<Rightarrow> location \<Rightarrow> (io_error, unit) io" where
  "rename_entry p q = atomic (\<lambda>d.
     and_then (checked_stat p d) (\<lambda>n.
     and_then (checked_stat (butlast q) d) (\<lambda>m.
     and_then (ensure (folder_node m) NotADirectory) (\<lambda>_.
     if p = q then Inr (d, ())
     else and_then (ensure (unrelated p q) OtherIo) (\<lambda>_.
     and_then (ensure (case stat q d of Found k \<Rightarrow> replaceable n k | _ \<Rightarrow> True) AlreadyExists) (\<lambda>_.
     Inr (put_entry p None (put_entry q (Some n) d), ())))))))"

text \<open>
  \<open>remove_tree_without_following_symlinks\<close> of \<open>skill_snapshot.rs\<close>, \<open>deployment.rs\<close> and
  \<open>uninstall.rs\<close>: one system call per entry, children first, on the tree the metadata shows.
\<close>

datatype fs_error = Io io_error | UnsupportedFileType location

fun remove_tree :: "location \<Rightarrow> node \<Rightarrow> (fs_error, unit) io"
  and remove_children :: "location \<Rightarrow> (string \<times> node) list \<Rightarrow> (fs_error, unit) io" where
  "remove_tree p (Plain c) = wrap Io (remove_file p)"
| "remove_tree p (Link l) = wrap Io (remove_file p)"
| "remove_tree p Other = raise (UnsupportedFileType p)"
| "remove_tree p (Folder es) = do_then (remove_children p es) (\<lambda>_. wrap Io (remove_dir p))"
| "remove_children p [] = give ()"
| "remove_children p ((x, n) # es) = do_then (remove_tree (p @ [x]) n) (\<lambda>_. remove_children p es)"

text \<open>\<open>remove_any\<close>\<close>

definition remove_any :: "location \<Rightarrow> (fs_error, unit) io" where
  "remove_any p = do_then (wrap Io (metadata p)) (remove_tree p)"

text \<open>\<open>path_entry_exists\<close>\<close>

definition path_exists :: "location \<Rightarrow> (io_error, bool) io" where
  "path_exists p = do_then (attempt (metadata p)) (\<lambda>r. case r of
     Inr _ \<Rightarrow> give True
   | Inl e \<Rightarrow> if e = NotFound then give False else raise e)"

text \<open>
  A read-only computation over several files. Nothing else writes meanwhile, so its answer is a
  function of the disk; it counts as one system call, which may fail or be the last.
\<close>

definition query :: "(io_error \<Rightarrow> 'e) \<Rightarrow> (node \<Rightarrow> 'e + 'a) \<Rightarrow> ('e, 'a) io" where
  "query g f = do_then (wrap g (atomic (\<lambda>d. Inr (d, f d)))) from_result"

text \<open>\<open>create_dir_all\<close>, on the reversed path\<close>

primrec create_dir_all_rev :: "string list \<Rightarrow> (io_error, unit) io" where
  "create_dir_all_rev [] = give ()"
| "create_dir_all_rev (x # xs) =
     (let make = do_then (attempt (create_dir (rev (x # xs)))) (\<lambda>r. case r of
        Inr _ \<Rightarrow> give (Inr ())
      | Inl e \<Rightarrow> if e = NotFound then give (Inl e)
                 else do_then (attempt (metadata (rev (x # xs)))) (\<lambda>m. case m of
                   Inr (Folder _) \<Rightarrow> give (Inr ()) | _ \<Rightarrow> raise e)) in
      do_then make (\<lambda>r. case r of
        Inr _ \<Rightarrow> give ()
      | Inl _ \<Rightarrow> do_then (create_dir_all_rev xs) (\<lambda>_. do_then make (\<lambda>r. from_result r))))"

definition create_dir_all :: "location \<Rightarrow> (io_error, unit) io" where
  "create_dir_all p = create_dir_all_rev (rev p)"

section \<open>Weakest preconditions\<close>

text \<open>
  \<open>wlp F m Q E H d\<close>: from disk \<open>d\<close>, under every schedule with faults in \<open>F\<close> only, \<open>m\<close> ends with a
  value and a disk in \<open>Q\<close>, with an error in \<open>E\<close>, or dies on a disk in \<open>H\<close>.
\<close>

definition wlp :: "fault set \<Rightarrow> ('e, 'a) io \<Rightarrow> ('a \<Rightarrow> node \<Rightarrow> bool) \<Rightarrow> ('e \<Rightarrow> node \<Rightarrow> bool) \<Rightarrow> (node \<Rightarrow> bool) \<Rightarrow> node \<Rightarrow> bool" where
  "wlp F m Q E H d \<longleftrightarrow> (\<forall>s. set s \<subseteq> F \<longrightarrow> (case m \<lparr>disk = d, schedule = s\<rparr> of
     Done a w \<Rightarrow> set (schedule w) \<subseteq> F \<and> Q a (disk w)
   | Raised e w \<Rightarrow> set (schedule w) \<subseteq> F \<and> E e (disk w)
   | Halted w \<Rightarrow> H (disk w)))"

lemma wlp_give: "Q a d \<Longrightarrow> wlp F (give a) Q E H d"
  and wlp_raise: "E e d \<Longrightarrow> wlp F (raise e) Q E H d"
  by (simp_all add: wlp_def give_def raise_def)

lemma wlp_do_then:
  assumes "wlp F m (\<lambda>a. wlp F (f a) Q E H) E H d" shows "wlp F (do_then m f) Q E H d"
  unfolding wlp_def
proof (intro allI impI)
  fix s assume s: "set s \<subseteq> F"
  then have *: "case m \<lparr>disk = d, schedule = s\<rparr> of
     Done a w \<Rightarrow> set (schedule w) \<subseteq> F \<and> wlp F (f a) Q E H (disk w)
   | Raised e w \<Rightarrow> set (schedule w) \<subseteq> F \<and> E e (disk w) | Halted w \<Rightarrow> H (disk w)"
    using assms by (simp add: wlp_def)
  show "case do_then m f \<lparr>disk = d, schedule = s\<rparr> of
     Done a w \<Rightarrow> set (schedule w) \<subseteq> F \<and> Q a (disk w)
   | Raised e w \<Rightarrow> set (schedule w) \<subseteq> F \<and> E e (disk w) | Halted w \<Rightarrow> H (disk w)"
  proof (cases "m \<lparr>disk = d, schedule = s\<rparr>")
    case (Done a w)
    then have "set (schedule w) \<subseteq> F" "wlp F (f a) Q E H (disk w)" using * by auto
    then show ?thesis using Done unfolding wlp_def by (cases w) (auto simp: do_then_def)
  qed (use * in \<open>auto simp: do_then_def\<close>)
qed

lemma wlp_attempt: "wlp F m (\<lambda>a. Q (Inr a)) (\<lambda>e. Q (Inl e)) H d \<Longrightarrow> wlp F (attempt m) Q E H d"
  by (auto simp: wlp_def attempt_def split: run.splits)

lemma wlp_wrap: "wlp F m Q (\<lambda>e. E (g e)) H d \<Longrightarrow> wlp F (wrap g m) Q E H d"
  by (auto simp: wlp_def wrap_def split: run.splits)

lemma wlp_from_result: "(\<And>a. r = Inr a \<Longrightarrow> Q a d) \<Longrightarrow> (\<And>e. r = Inl e \<Longrightarrow> E e d) \<Longrightarrow> wlp F (from_result r) Q E H d"
  by (cases r) (auto simp: from_result_def intro: wlp_give wlp_raise)

lemma wlp_mono:
  assumes "wlp F m Q E H d" and "\<And>a d'. Q a d' \<Longrightarrow> Q' a d'" and "\<And>e d'. E e d' \<Longrightarrow> E' e d'" and "\<And>d'. H d' \<Longrightarrow> H' d'"
  shows "wlp F m Q' E' H' d"
  using assms unfolding wlp_def by (auto split: run.splits)

lemma wlp_syscall:
  assumes "\<And>d' a. f d = Inr (d', a) \<Longrightarrow> Q a d'" and "\<And>e. f d = Inl e \<Longrightarrow> E e d"
    and "\<And>n. Fail n \<in> F \<Longrightarrow> E OtherIo (partial n d)" and "\<And>n. Crash n \<in> F \<Longrightarrow> H (partial n d)"
  shows "wlp F (syscall f partial) Q E H d"
  unfolding wlp_def
proof (intro allI impI)
  fix s assume s: "set s \<subseteq> F"
  let ?w = "\<lparr>disk = d, schedule = s\<rparr>"
  have go: "syscall f partial ?w = (case f d of Inl e \<Rightarrow> Raised e \<lparr>disk = d, schedule = tl s\<rparr>
      | Inr (d', a) \<Rightarrow> Done a \<lparr>disk = d', schedule = tl s\<rparr>)" if "s = [] \<or> hd s = Go"
    using that by (cases s; cases "f d") (auto simp: syscall_def)
  have tl: "set (tl s) \<subseteq> F" using s by (cases s) auto
  consider "s = [] \<or> hd s = Go" | n t where "s = Fail n # t" | n t where "s = Crash n # t"
    by (cases s; cases "hd s") auto
  then show "case syscall f partial ?w of Done a w \<Rightarrow> set (schedule w) \<subseteq> F \<and> Q a (disk w)
    | Raised e w \<Rightarrow> set (schedule w) \<subseteq> F \<and> E e (disk w) | Halted w \<Rightarrow> H (disk w)"
  proof cases
    case 1
    then show ?thesis unfolding go [OF 1] using assms(1,2) tl by (auto split: sum.splits prod.splits)
  next
    case 2
    then show ?thesis using assms(3) s by (auto simp: syscall_def)
  next
    case 3
    then show ?thesis using assms(4) s by (auto simp: syscall_def)
  qed
qed

lemma wlp_atomic:
  assumes "\<And>d' a. f d = Inr (d', a) \<Longrightarrow> Q a d'" and "\<And>e. f d = Inl e \<Longrightarrow> E e d"
    and "\<And>n. Fail n \<in> F \<Longrightarrow> E OtherIo d" and "\<And>n. Crash n \<in> F \<Longrightarrow> H d"
  shows "wlp F (atomic f) Q E H d"
  unfolding atomic_def using assms by (intro wlp_syscall) auto

end
