(* ===== verification/Portable_Paths.thy ===== *)
theory Portable_Paths
  imports Paths Files
begin

text \<open>
  The path rules of \<open>skill_snapshot.rs\<close>, \<open>snapshot_verifier.rs\<close> and \<open>deployment.rs\<close>: which names a
  snapshot may hold on every platform, and the two conversions between the segments of a relative
  path and the \<open>/\<close>-separated path of a manifest. A relative path is the list of its segments.
\<close>

definition forbidden_char :: "char \<Rightarrow> bool" where
  "forbidden_char c \<longleftrightarrow> c \<in> {CHR ''<'', CHR ''>'', CHR '':'', CHR 0x22, CHR 0x5C, CHR ''|'', CHR ''?'', CHR ''*''}"

text \<open>The device names Windows reserves, with any extension.\<close>

definition file_stem :: "string \<Rightarrow> string" where
  "file_stem name = map ascii_upper (hd (split_on (CHR ''.'') name))"

definition reserved_port :: "string \<Rightarrow> string \<Rightarrow> bool" where
  "reserved_port port stem = (case strip_prefix port stem of
     None \<Rightarrow> False
   | Some r \<Rightarrow> r \<in> {''1'', ''2'', ''3'', ''4'', ''5'', ''6'', ''7'', ''8'', ''9''})"

definition reserved_name :: "string \<Rightarrow> bool" where
  "reserved_name name \<longleftrightarrow>
     file_stem name \<in> {''CON'', ''PRN'', ''AUX'', ''NUL''}
     \<or> reserved_port ''COM'' (file_stem name) \<or> reserved_port ''LPT'' (file_stem name)"

definition portable_segment :: "string \<Rightarrow> bool" where
  "portable_segment v \<longleftrightarrow>
     \<not> (v = [] \<or> v = ''.'' \<or> v = ''..'' \<or> 255 < length v \<or> ends_with_char v (CHR '' '')
        \<or> ends_with_char v (CHR ''.'') \<or> has_control v \<or> list_ex forbidden_char v)
     \<and> \<not> reserved_name v"

text \<open>The error is the \<open>InvalidManifestPath\<close> or \<open>NonUtf8Path\<close> of the module, with its value.\<close>

datatype path_error = InvalidManifestPath string | NonUtf8Path location

definition validate_portable_segment :: "string \<Rightarrow> path_error + unit" where
  "validate_portable_segment v = ensure (portable_segment v) (InvalidManifestPath v)"

definition portable_path_to_relative :: "string \<Rightarrow> path_error + location" where
  "portable_path_to_relative v =
     (if v = [] \<or> starts_with v ''/'' \<or> CHR 0x5C \<in> set v then Inl (InvalidManifestPath v)
      else and_then (try_map (\<lambda>part. map_sum id (\<lambda>_. part) (validate_portable_segment part)) (split_on (CHR ''/'') v)) Inr)"

definition relative_to_portable_path :: "location \<Rightarrow> path_error + string" where
  "relative_to_portable_path p =
     and_then (try_map (\<lambda>x. if valid_utf8 x then map_sum id (\<lambda>_. x) (validate_portable_segment x)
                            else Inl (NonUtf8Path p)) p) (\<lambda>parts.
     if parts = [] then Inl (InvalidManifestPath []) else Inr (join_with (CHR ''/'') parts))"

text \<open>\<open>validate_directory_name\<close> of \<open>deployment.rs\<close>: one normal component, not reserved.\<close>

definition reserved_prefix :: string where
  "reserved_prefix = ''.skillhive-''"

definition valid_directory_name :: "string \<Rightarrow> bool" where
  "valid_directory_name name \<longleftrightarrow>
     \<not> (starts_with name reserved_prefix \<or> ends_with_char name (CHR ''.'') \<or> ends_with_char name (CHR '' '')
        \<or> has_control name \<or> list_ex forbidden_char name)
     \<and> (case components name of [Normal c] \<Rightarrow> c \<noteq> [] | _ \<Rightarrow> False)
     \<and> \<not> reserved_name name"

text \<open>The location of an absolute path: its normal components, with \<open>..\<close> going up.\<close>

definition locate :: "path \<Rightarrow> location" where
  "locate p = foldl (\<lambda>l c. case c of Normal x \<Rightarrow> l @ [x] | ParentDir \<Rightarrow> butlast l | _ \<Rightarrow> l) [] (components p)"

lemma locate_absolute: "components p = cs @ [Normal c] \<Longrightarrow> components r = cs \<Longrightarrow> locate p = locate r @ [c]"
  by (simp add: locate_def)

lemma components_join_relative:
  assumes "is_absolute root" and "\<not> is_absolute name"
  shows "components (path_join root name) = components root @ concat (map segment_component (split_on (CHR ''/'') name))"
proof (cases "last root = CHR ''/''")
  case True
  have "root \<noteq> []" using assms(1) by (auto simp: is_absolute_def)
  then obtain pre where pre: "root = pre @ [CHR ''/'']" using True by (metis append_butlast_last_id)
  have "path_join root name = pre @ CHR ''/'' # name" using assms(2) True by (simp add: path_join_def pre)
  moreover have "is_absolute (pre @ CHR ''/'' # name)" using assms(1) pre by (cases pre) (auto simp: is_absolute_def)
  moreover have "split_on (CHR ''/'') root = split_on (CHR ''/'') pre @ [[]]"
    using split_on_append [of "CHR ''/''" pre "[]"] by (simp add: pre)
  ultimately show ?thesis using assms(1) by (simp add: components_absolute split_on_append) (simp add: segment_component_def)
next
  case False
  have "root \<noteq> []" using assms(1) by (auto simp: is_absolute_def)
  then have "path_join root name = root @ CHR ''/'' # name" using assms(2) False by (simp add: path_join_def)
  moreover have "is_absolute (root @ CHR ''/'' # name)" using assms(1) by (cases root) (auto simp: is_absolute_def)
  ultimately show ?thesis using assms(1) by (simp add: components_absolute split_on_append)
qed

lemma locate_child: "is_absolute root \<Longrightarrow> \<not> is_absolute name \<Longrightarrow> concat (map segment_component (split_on (CHR ''/'') name)) = [Normal c] \<Longrightarrow>
    locate (path_join root name) = locate root @ [c]"
  by (rule locate_absolute [OF _ refl]) (simp add: components_join_relative)

section \<open>The two conversions are inverse\<close>

lemma try_map_checked: "(\<And>x. x \<in> set xs \<Longrightarrow> f x = (if P x then Inr x else Inl (e x))) \<Longrightarrow> try_map f xs = Inr ys \<longleftrightarrow> ys = xs \<and> list_all P xs"
proof (induction xs arbitrary: ys)
  case (Cons x xs)
  then show ?case by (cases "P x"; cases "try_map f xs") auto
qed auto

lemma portable_path_to_relative_Inr:
  "portable_path_to_relative v = Inr p \<longleftrightarrow>
     v \<noteq> [] \<and> \<not> starts_with v ''/'' \<and> CHR 0x5C \<notin> set v \<and> p = split_on (CHR ''/'') v \<and> list_all portable_segment p"
proof -
  have "try_map (\<lambda>part. map_sum id (\<lambda>_. part) (validate_portable_segment part)) xs = Inr ys \<longleftrightarrow> ys = xs \<and> list_all portable_segment xs" for xs ys
    by (rule try_map_checked [where e = InvalidManifestPath]) (simp add: validate_portable_segment_def ensure_def)
  then show ?thesis unfolding portable_path_to_relative_def by (auto simp: and_then_Inr_iff)
qed

lemma relative_to_portable_path_Inr:
  "relative_to_portable_path p = Inr v \<longleftrightarrow>
     p \<noteq> [] \<and> v = join_with (CHR ''/'') p \<and> list_all valid_utf8 p \<and> list_all portable_segment p"
proof -
  have "try_map (\<lambda>x. if valid_utf8 x then map_sum id (\<lambda>_. x) (validate_portable_segment x) else Inl (NonUtf8Path q)) xs = Inr ys
      \<longleftrightarrow> ys = xs \<and> list_all (\<lambda>x. valid_utf8 x \<and> portable_segment x) xs" for q xs ys
    by (rule try_map_checked [where e = "\<lambda>x. if valid_utf8 x then InvalidManifestPath x else NonUtf8Path q"])
      (simp add: validate_portable_segment_def ensure_def)
  then show ?thesis unfolding relative_to_portable_path_def by (auto simp: and_then_Inr_iff list_all_iff)
qed

lemma set_join_with: "set (join_with d xs) \<subseteq> insert d (\<Union>x \<in> set xs. set x)"
  by (induction d xs rule: join_with.induct) auto

lemma portable_no_backslash: "portable_segment v \<Longrightarrow> CHR 0x5C \<notin> set v"
  by (auto simp: portable_segment_def list_ex_iff forbidden_char_def)

lemma starts_with_slash: "starts_with v ''/'' \<longleftrightarrow> v \<noteq> [] \<and> hd v = CHR ''/''"
  by (cases v) (auto simp: starts_with_def)

lemma hd_join_with: "xs \<noteq> [] \<Longrightarrow> hd xs \<noteq> [] \<Longrightarrow> hd (join_with d xs) = hd (hd xs) \<and> join_with d xs \<noteq> []"
  by (induction d xs rule: join_with.induct) auto

text \<open>Manifest paths and workspace locations correspond exactly: a location the capture accepts
  becomes a manifest path that the materialization reads back as the same location, and a manifest
  path it accepts is a list of portable names, none empty, \<open>.\<close> or \<open>..\<close>, that joins back to the same
  path, so a snapshot can neither escape its directory nor alias two of its files.\<close>

theorem portable_paths_round_trip:
  shows "(relative_to_portable_path p = Inr v \<longrightarrow> (\<forall>x \<in> set p. CHR ''/'' \<notin> set x) \<longrightarrow> portable_path_to_relative v = Inr p)
    \<and> (portable_path_to_relative w = Inr q \<longrightarrow> q \<noteq> [] \<and> join_with (CHR ''/'') q = w
        \<and> (\<forall>x \<in> set q. x \<notin> {[], ''.'', ''..''} \<and> CHR ''/'' \<notin> set x \<and> length x \<le> 255))"
proof (intro conjI impI)
  assume v: "relative_to_portable_path p = Inr v" and sep: "\<forall>x \<in> set p. CHR ''/'' \<notin> set x"
  then have p: "p \<noteq> []" "v = join_with (CHR ''/'') p" "\<forall>x \<in> set p. portable_segment x"
    by (auto simp: relative_to_portable_path_Inr list_all_iff)
  then have hd: "hd p \<noteq> []" "CHR ''/'' \<noteq> hd (hd p)"
    using sep by (cases p; cases "hd p"; auto simp: portable_segment_def)+
  have "CHR 0x5C \<notin> set v" using p set_join_with [of "CHR ''/''" p] portable_no_backslash by fastforce
  then show "portable_path_to_relative v = Inr p"
    using p hd hd_join_with [OF p(1) hd(1), of "CHR ''/''"] split_on_join [OF p(1) sep]
    by (auto simp: portable_path_to_relative_Inr starts_with_slash list_all_iff)
next
  assume q: "portable_path_to_relative w = Inr q"
  then show "q \<noteq> []" and "join_with (CHR ''/'') q = w"
    by (auto simp: portable_path_to_relative_Inr join_split_on)
  show "\<forall>x \<in> set q. x \<notin> {[], ''.'', ''..''} \<and> CHR ''/'' \<notin> set x \<and> length x \<le> 255"
    using q split_on_no_sep by (auto simp: portable_path_to_relative_Inr list_all_iff portable_segment_def)
qed

theorem portable_paths_round_trip_witness:
  "relative_to_portable_path [''docs'', ''a.md''] = Inr ''docs/a.md'' \<and> portable_path_to_relative ''docs/a.md'' = Inr [''docs'', ''a.md'']
   \<and> \<not> is_ok (portable_path_to_relative ''docs/../a'') \<and> \<not> is_ok (portable_path_to_relative ''aux.md'')"
proof -
  have 1: "relative_to_portable_path [''docs'', ''a.md''] = Inr ''docs/a.md''" by code_simp
  have 2: "\<forall>x \<in> set [''docs'', ''a.md'']. CHR ''/'' \<notin> set x" by code_simp
  have 3: "portable_path_to_relative ''docs/a.md'' = Inr [''docs'', ''a.md'']"
    using portable_paths_round_trip [of "[''docs'', ''a.md'']" "''docs/a.md''"] 1 2 by blast
  have "\<not> is_ok (portable_path_to_relative ''docs/../a'')" "\<not> is_ok (portable_path_to_relative ''aux.md'')" by code_simp+
  with 1 3 show ?thesis by blast
qed

end
