(* ===== verification/File_Rules.thy ===== *)
theory File_Rules
  imports Files
begin

text \<open>
  Rules for the system calls: what a program keeps however it ends (\<open>keeps\<close>), where it may write
  (\<open>confined\<close>), what removing a tree leaves, and renaming within a folder. The proofs of the deployment and uninstall engines are chains of
  these rules over \<open>wlp\<close>.
\<close>

section \<open>Invariants of programs\<close>

text \<open>
  \<open>keeps P m\<close>: wherever \<open>m\<close> starts in \<open>P\<close>, it ends in \<open>P\<close>, also when it fails or the process dies in it.
  \<open>confined p m\<close>: \<open>m\<close> writes only inside \<open>p\<close>.
\<close>

definition keeps :: "(node \<Rightarrow> bool) \<Rightarrow> ('e, 'a) io \<Rightarrow> bool" where
  "keeps P m \<longleftrightarrow> (\<forall>F d. P d \<longrightarrow> wlp F m (\<lambda>_. P) (\<lambda>_. P) P d)"

definition confined :: "location \<Rightarrow> ('e, 'a) io \<Rightarrow> bool" where
  "confined p m \<longleftrightarrow> (\<forall>d. keeps (tree.away p d) m)"

named_theorems keeps_rules \<open>invariants of programs\<close>

lemma keepsI: "(\<And>F d. P d \<Longrightarrow> wlp F m (\<lambda>_. P) (\<lambda>_. P) P d) \<Longrightarrow> keeps P m"
  by (simp add: keeps_def)

lemma keepsD: "keeps P m \<Longrightarrow> P d \<Longrightarrow> wlp F m (\<lambda>_. P) (\<lambda>_. P) P d"
  by (simp add: keeps_def)

lemma keeps_give [keeps_rules]: "keeps P (give a)"
  and keeps_raise [keeps_rules]: "keeps P (raise e)"
  by (auto simp: keeps_def intro!: wlp_give wlp_raise)

lemma keeps_do_then [keeps_rules]:
  assumes "keeps P m" and f: "\<And>a. keeps P (f a)" shows "keeps P (do_then m f)"
  unfolding keeps_def
proof (intro allI impI)
  fix F d assume "P d"
  show "wlp F (do_then m f) (\<lambda>_. P) (\<lambda>_. P) P d"
    by (rule wlp_do_then, rule wlp_mono [OF keepsD [OF assms(1) \<open>P d\<close>]]) (auto intro: keepsD [OF f])
qed

lemma keeps_attempt [keeps_rules]: "keeps P m \<Longrightarrow> keeps P (attempt m)"
  by (auto simp: keeps_def intro!: wlp_attempt)

lemma keeps_wrap [keeps_rules]: "keeps P m \<Longrightarrow> keeps P (wrap g m)"
  by (auto simp: keeps_def intro!: wlp_wrap)

lemma keeps_from_result [keeps_rules]: "keeps P (from_result r)"
  by (auto simp: keeps_def intro!: wlp_from_result)

lemma keeps_if [keeps_rules]: "keeps P m \<Longrightarrow> keeps P n \<Longrightarrow> keeps P (if b then m else n)"
  and keeps_sum [keeps_rules]: "(\<And>x. keeps P (f x)) \<Longrightarrow> (\<And>y. keeps P (g y)) \<Longrightarrow> keeps P (case r of Inl x \<Rightarrow> f x | Inr y \<Rightarrow> g y)"
  and keeps_option [keeps_rules]: "keeps P m0 \<Longrightarrow> (\<And>z. keeps P (h z)) \<Longrightarrow> keeps P (case v of None \<Rightarrow> m0 | Some z \<Rightarrow> h z)"
  by (simp_all split: sum.split option.split)

lemma keeps_node [keeps_rules]:
  "(\<And>c. keeps P (f c)) \<Longrightarrow> (\<And>es. keeps P (g es)) \<Longrightarrow> (\<And>l. keeps P (h l)) \<Longrightarrow> keeps P k \<Longrightarrow>
   keeps P (case n of Plain c \<Rightarrow> f c | Folder es \<Rightarrow> g es | Link l \<Rightarrow> h l | Other \<Rightarrow> k)"
  by (simp split: node.split)

lemma keeps_syscall:
  assumes "\<And>d d' a. P d \<Longrightarrow> f d = Inr (d', a) \<Longrightarrow> P d'" and "\<And>n d. P d \<Longrightarrow> P (partial n d)"
  shows "keeps P (syscall f partial)"
  using assms by (auto simp: keeps_def intro!: wlp_syscall)

lemma keeps_atomic:
  assumes "\<And>d d' a. P d \<Longrightarrow> f d = Inr (d', a) \<Longrightarrow> P d'" shows "keeps P (atomic f)"
  unfolding atomic_def using assms by (intro keeps_syscall) auto

lemma checked_stat_Inr: "checked_stat p d = Inr n \<longleftrightarrow> entry p d = Some n"
  by (auto simp: checked_stat_def entry_def split: stat_result.splits)

lemma checked_thenE:
  assumes "and_then (checked_stat p d) f = Inr y" obtains n where "entry p d = Some n" and "f n = Inr y"
  using assms by (auto simp: and_then_Inr_iff checked_stat_Inr)

lemma keeps_reads [keeps_rules]:
  "keeps P (metadata q)" "keeps P (read_file q)" "keeps P (sync_path q)"
  by (auto simp: metadata_def read_file_def sync_path_def elim!: checked_thenE intro!: keeps_atomic
      split: node.split_asm)

lemma keeps_path_exists [keeps_rules]: "keeps P (path_exists q)"
  unfolding path_exists_def by (intro keeps_rules)

lemma keeps_query [keeps_rules]: "keeps P (query g f)"
  unfolding query_def by (intro keeps_rules keeps_atomic) auto

text \<open>A program confined to a path keeps whatever an update inside the path cannot change.\<close>

lemma confinedI: "(\<And>d. keeps (tree.away p d) m) \<Longrightarrow> confined p m"
  by (simp add: confined_def)

lemma confinedD: "confined p m \<Longrightarrow> keeps (tree.away p d) m"
  by (simp add: confined_def)

lemma keeps_confined:
  assumes "confined p m" and P: "\<And>d d'. P d \<Longrightarrow> tree.away p d d' \<Longrightarrow> P d'" shows "keeps P m"
  unfolding keeps_def
proof (intro allI impI)
  fix F d assume "P d"
  show "wlp F m (\<lambda>_. P) (\<lambda>_. P) P d"
    by (rule wlp_mono [OF keepsD [OF confinedD [OF assms(1)] tree.away_refl]]) (auto intro: P \<open>P d\<close>)
qed

lemma confined_inside: "confined (p @ r) m \<Longrightarrow> confined p m"
  by (rule confinedI, rule keeps_confined) (auto intro: tree.away_trans tree.away_inside)

lemma confined_do_then: "confined p m \<Longrightarrow> (\<And>a. confined p (f a)) \<Longrightarrow> confined p (do_then m f)"
  and confined_wrap: "confined p n \<Longrightarrow> confined p (wrap g n)"
  by (auto simp: confined_def intro: keeps_rules)

lemma away_new_entry: "new_entry p n d = Inr (d', a) \<Longrightarrow> tree.away p d d'"
  by (auto simp: new_entry_def result_simps intro: tree.away_put)

lemma away_append: "tree.away p d (append_bytes p bs d)"
  by (auto simp: append_bytes_def intro: tree.away_put tree.away_refl split: option.splits node.splits)

lemma confined_syscall:
  assumes "\<And>d d' a. f d = Inr (d', a) \<Longrightarrow> tree.away p d d'" and "\<And>n d. tree.away p d (partial n d)"
  shows "confined p (syscall f partial)"
  using assms by (auto intro!: confinedI keeps_syscall intro: tree.away_trans)

lemma confined_atomic:
  assumes "\<And>d d' a. f d = Inr (d', a) \<Longrightarrow> tree.away p d d'" shows "confined p (atomic f)"
  unfolding atomic_def using assms by (intro confined_syscall) (auto intro: tree.away_refl)

lemma confined_writes:
  "confined p (create_dir p)" "confined p (create_new p)" "confined p (open_append p)" "confined p (write_all p bs)"
  "confined p (remove_file p)" "confined p (remove_dir p)"
  unfolding create_dir_def create_new_def open_append_def write_all_def remove_file_def remove_dir_def
  by (auto intro!: confined_atomic confined_syscall away_append elim!: checked_thenE
      intro: away_new_entry tree.away_put tree.away_refl
      split: stat_result.split_asm node.split_asm option.split_asm list.split_asm if_split_asm)

lemma confined_remove_tree:
  "confined p (remove_tree p n)" "confined p (remove_children p es)"
proof (induction p n and p es rule: remove_tree_remove_children.induct)
  case (6 p x n es)
  then show ?case by (auto intro: confined_do_then confined_inside)
qed (auto intro: confined_do_then confined_wrap confined_writes confinedI keeps_rules)

lemma confined_remove_any: "confined p (remove_any p)"
  unfolding remove_any_def
  by (intro confined_do_then confined_wrap confined_remove_tree) (auto intro: confinedI keeps_rules)

lemma wlp_keeps:
  assumes "keeps P m" and "P d" and "wlp F m Q E H d"
  shows "wlp F m (\<lambda>a d'. Q a d' \<and> P d') (\<lambda>e d'. E e d' \<and> P d') (\<lambda>d'. H d' \<and> P d') d"
  using keepsD [OF assms(1,2), of F] assms(3) unfolding wlp_def by (fastforce split: run.splits)

lemma wlp_confined:
  assumes "confined p m" and "wlp F m Q E H d"
  shows "wlp F m (\<lambda>a d'. Q a d' \<and> tree.away p d d') (\<lambda>e d'. E e d' \<and> tree.away p d d') (\<lambda>d'. H d' \<and> tree.away p d d') d"
  using wlp_keeps [OF confinedD [OF assms(1)] tree.away_refl assms(2)] .

section \<open>What the system calls leave\<close>

text \<open>Sequencing over an intermediate condition, also after an attempt.\<close>

lemma wlp_seq:
  assumes "wlp F m R ER HR d" and "\<And>a d'. R a d' \<Longrightarrow> wlp F (f a) Q E H d'"
    and "\<And>e d'. ER e d' \<Longrightarrow> E e d'" and "\<And>d'. HR d' \<Longrightarrow> H d'"
  shows "wlp F (do_then m f) Q E H d"
  by (rule wlp_do_then, rule wlp_mono [OF assms(1)]) (use assms(2-4) in auto)

lemma wlp_try:
  assumes "wlp F m R ER HR d" and "\<And>a d'. R a d' \<Longrightarrow> wlp F (f (Inr a)) Q E H d'"
    and "\<And>e d'. ER e d' \<Longrightarrow> wlp F (f (Inl e)) Q E H d'" and "\<And>d'. HR d' \<Longrightarrow> H d'"
  shows "wlp F (do_then (attempt m) f) Q E H d"
  by (rule wlp_do_then, rule wlp_attempt, rule wlp_mono [OF assms(1)]) (use assms(2-4) in auto)

lemma wlp_run:
  assumes "wlp UNIV m Q E H d" and "r = m \<lparr>disk = d, schedule = s\<rparr>"
  shows "case r of Done a w \<Rightarrow> Q a (disk w) | Raised e w \<Rightarrow> E e (disk w) | Halted w \<Rightarrow> H (disk w)"
  using assms unfolding wlp_def by (auto split: run.splits)

lemma wlp_keeps_seq:
  assumes "keeps P m" and "P d" and "\<And>a d'. P d' \<Longrightarrow> wlp F (f a) Q E H d'"
    and "\<And>e d'. P d' \<Longrightarrow> E e d'" and "\<And>d'. P d' \<Longrightarrow> H d'"
  shows "wlp F (do_then m f) Q E H d"
  by (rule wlp_seq [OF keepsD [OF assms(1,2)]]) (use assms(3-5) in auto)

lemma wlp_run_disk:
  assumes "wlp F m (\<lambda>_. P) (\<lambda>_. P) P d" and "set s \<subseteq> F" shows "P (run_disk (m \<lparr>disk = d, schedule = s\<rparr>))"
  using assms by (auto simp: wlp_def run_disk_def split: run.splits)

lemma wlp_and:
  assumes "wlp F m Q E H d" and "wlp F m Q' E' H' d"
  shows "wlp F m (\<lambda>a d'. Q a d' \<and> Q' a d') (\<lambda>e d'. E e d' \<and> E' e d') (\<lambda>d'. H d' \<and> H' d') d"
  using assms unfolding wlp_def by (fastforce split: run.splits)

lemma world_eta [simp]: "\<lparr>disk = disk w, schedule = schedule w\<rparr> = w"
  by (cases w) simp

lemma wlp_confinedI: "confined p m \<Longrightarrow> wlp F m (\<lambda>_. tree.away p d) (\<lambda>_. tree.away p d) (tree.away p d) d"
  by (rule keepsD [OF confinedD tree.away_refl])

lemma new_entry_Inr:
  assumes "new_entry p n d = Inr (d', a)"
  shows "p \<noteq> []" and "is_folder (butlast p) d" and "entry p d = None" and "d' = put_entry p (Some n) d"
    and "entry p d' = Some n"
proof -
  show p: "p \<noteq> []" and f: "is_folder (butlast p) d" and "entry p d = None" and d': "d' = put_entry p (Some n) d"
    using assms unfolding new_entry_def
    by (auto elim!: checked_thenE simp: ensure_Inr_iff and_then_Inr_iff folder_node_iff is_folder_iff checked_stat_Inr)
      (simp_all add: entry_def)
  show "entry p d' = Some n"
    using put_entry_same [OF f, of "last p" "Some n"] p d' by simp
qed

lemma rename_effect:
  assumes "is_folder r d" and "x \<noteq> y" and "entry (r @ [x]) d = Some n"
    and d': "d' = put_entry (r @ [x]) None (put_entry (r @ [y]) (Some n) d)"
  shows "entry (r @ [y]) d' = Some n" and "entry (r @ [x]) d' = None" and "is_folder r d'"
    and "unrelated (r @ [x]) q \<Longrightarrow> unrelated (r @ [y]) q \<Longrightarrow> entry q d' = entry q d"
    and "strict_prefix q r \<Longrightarrow> is_folder q d \<Longrightarrow> is_folder q d'"
  using tree.move_sibling [OF assms(1,2) d'] by auto

text \<open>Renaming inside one folder, over nothing: it moves the entry or changes nothing.\<close>

lemma wlp_rename:
  assumes "is_folder r d" and "x \<noteq> y" and "entry (r @ [y]) d = None"
    and Q: "\<And>n d'. entry (r @ [x]) d = Some n \<Longrightarrow> d' = put_entry (r @ [x]) None (put_entry (r @ [y]) (Some n) d) \<Longrightarrow> Q () d'"
    and E: "\<And>e. entry (r @ [x]) d = None \<or> (\<exists>k. Fail k \<in> F) \<Longrightarrow> E e d" and H: "\<And>k. Crash k \<in> F \<Longrightarrow> H d"
  shows "wlp F (rename_entry (r @ [x]) (r @ [y])) Q E H d"
proof -
  let ?f = "\<lambda>d. and_then (checked_stat (r @ [x]) d) (\<lambda>n.
     and_then (checked_stat (butlast (r @ [y])) d) (\<lambda>m.
     and_then (ensure (folder_node m) NotADirectory) (\<lambda>_.
     if r @ [x] = r @ [y] then Inr (d, ())
     else and_then (ensure (unrelated (r @ [x]) (r @ [y])) OtherIo) (\<lambda>_.
     and_then (ensure (case stat (r @ [y]) d of Found k \<Rightarrow> replaceable n k | _ \<Rightarrow> True) AlreadyExists) (\<lambda>_.
     Inr (put_entry (r @ [x]) None (put_entry (r @ [y]) (Some n) d), ()))))))"
  obtain es where es: "entry r d = Some (Folder es)" using assms(1) by (auto simp: is_folder_iff)
  have nf: "\<And>k. stat (r @ [y]) d \<noteq> Found k" using assms(3) by (simp add: stat_Found)
  have run: "?f d = (case entry (r @ [x]) d of None \<Rightarrow> ?f d
      | Some n \<Rightarrow> Inr (put_entry (r @ [x]) None (put_entry (r @ [y]) (Some n) d), ()))"
  proof (cases "entry (r @ [x]) d")
    case (Some n)
    then have "checked_stat (r @ [x]) d = Inr n" "checked_stat r d = Inr (Folder es)" "folder_node (Folder es)"
      using es by (simp_all add: checked_stat_Inr folder_node_def)
    then show ?thesis using Some assms(2) nf by (cases "stat (r @ [y]) d") auto
  qed simp
  have none: "?f d \<noteq> Inr z" if "entry (r @ [x]) d = None" for z
    using that checked_stat_Inr [of "r @ [x]" d] by (cases "checked_stat (r @ [x]) d") auto
  show ?thesis unfolding rename_entry_def
  proof (rule wlp_atomic)
    fix d' and a :: unit
    assume "?f d = Inr (d', a)"
    then show "Q a d'" using Q none run by (cases "entry (r @ [x]) d") auto
  next
    fix e assume "?f d = Inl e"
    then have "entry (r @ [x]) d = None" using run by (cases "entry (r @ [x]) d") auto
    then show "E e d" using E by blast
  qed (use E H in blast)+
qed

lemma wlp_query:
  assumes "\<And>a. f d = Inr a \<Longrightarrow> Q a d" and "\<And>e. f d = Inl e \<Longrightarrow> E e d"
    and "\<And>k. Fail k \<in> F \<Longrightarrow> E (g OtherIo) d" and "\<And>k. Crash k \<in> F \<Longrightarrow> H d"
  shows "wlp F (query g f) Q E H d"
  unfolding query_def using assms by (auto intro!: wlp_do_then wlp_wrap wlp_atomic wlp_from_result)

lemma wlp_sync: "Q () d \<Longrightarrow> (\<And>e. E e d) \<Longrightarrow> H d \<Longrightarrow> wlp F (sync_path p) Q E H d"
  unfolding sync_path_def by (auto intro!: wlp_atomic elim!: checked_thenE)

lemma wlp_metadata:
  assumes "\<And>n. entry p d = Some n \<Longrightarrow> Q n d" and "\<And>e. entry p d = None \<Longrightarrow> E e d"
    and "\<And>k. Fail k \<in> F \<Longrightarrow> E OtherIo d" and "\<And>k. Crash k \<in> F \<Longrightarrow> H d"
  shows "wlp F (metadata p) Q E H d"
  unfolding metadata_def
proof (rule wlp_atomic)
  fix e assume "and_then (checked_stat p d) (\<lambda>n. Inr (d, n)) = Inl e"
  then have "entry p d = None" using checked_stat_Inr [of p d] by (cases "checked_stat p d") auto
  then show "E e d" using assms(2) by blast
qed (use assms in \<open>auto elim!: checked_thenE\<close>)

text \<open>Looking for an entry of an existing folder fails only by a fault.\<close>

lemma wlp_path_exists:
  assumes "is_folder r d" and "Q (entry (r @ [x]) d \<noteq> None) d"
    and "\<And>k. Fail k \<in> F \<Longrightarrow> E OtherIo d" and "\<And>k. Crash k \<in> F \<Longrightarrow> H d"
  shows "wlp F (path_exists (r @ [x])) Q E H d"
  unfolding path_exists_def
proof (rule wlp_do_then, rule wlp_attempt)
  have missing: "checked_stat (r @ [x]) d = Inl NotFound" if "entry (r @ [x]) d = None"
    using that stat_in_folder [OF assms(1), of x] by (simp add: checked_stat_def)
  have found: "checked_stat (r @ [x]) d = Inr n" if "entry (r @ [x]) d = Some n" for n
    using that by (simp add: checked_stat_Inr)
  show "wlp F (metadata (r @ [x]))
     (\<lambda>a. wlp F (case Inr a of Inr _ \<Rightarrow> give True | Inl e \<Rightarrow> if e = NotFound then give False else raise e) Q E H)
     (\<lambda>e. wlp F (case Inl e of Inr _ \<Rightarrow> give True | Inl e \<Rightarrow> if e = NotFound then give False else raise e) Q E H) H d"
    unfolding metadata_def
    using assms(2,3,4) missing found
    by (cases "entry (r @ [x]) d") (auto intro!: wlp_atomic wlp_give wlp_raise)
qed

lemma wlp_remove_file:
  assumes "is_folder r d" and "\<And>d'. d' = put_entry (r @ [x]) None d \<Longrightarrow> Q () d'"
    and "\<And>e. E e d" and "H d"
  shows "wlp F (remove_file (r @ [x])) Q E H d"
  unfolding remove_file_def using assms(2-4) by (auto intro!: wlp_atomic elim!: checked_thenE split: node.split_asm)

lemma keeps_create_dir:
  assumes "\<And>d. P d \<Longrightarrow> p \<noteq> [] \<Longrightarrow> is_folder (butlast p) d \<Longrightarrow> entry p d = None \<Longrightarrow> P (put_entry p (Some (Folder [])) d)"
  shows "keeps P (create_dir p)"
  unfolding create_dir_def
proof (rule keeps_atomic)
  fix d d' a assume "P d" and "new_entry p (Folder []) d = Inr (d', a)"
  then show "P d'" using assms [OF \<open>P d\<close>] new_entry_Inr [of p "Folder []" d d' a] by simp
qed

lemma keeps_create_dir_all:
  assumes "\<And>q d. prefix q p \<Longrightarrow> P d \<Longrightarrow> q \<noteq> [] \<Longrightarrow> is_folder (butlast q) d \<Longrightarrow> entry q d = None \<Longrightarrow> P (put_entry q (Some (Folder [])) d)"
  shows "keeps P (create_dir_all p)"
proof -
  have all: "(\<And>q. prefix q (rev xs) \<Longrightarrow> keeps P (create_dir q)) \<Longrightarrow> keeps P (create_dir_all_rev xs)" for xs
  proof (induction xs)
    case (Cons x xs)
    have "prefix q (rev (x # xs))" if "prefix q (rev xs)" for q using that by simp
    then have "keeps P (create_dir_all_rev xs)" using Cons by blast
    moreover have "keeps P (create_dir (rev (x # xs)))" using Cons.prems by blast
    ultimately show ?case unfolding create_dir_all_rev.simps Let_def by (intro keeps_rules)
  qed (simp add: keeps_rules)
  have "keeps P (create_dir q)" if "prefix q p" for q
    using assms [OF that] by (intro keeps_create_dir) auto
  then show ?thesis unfolding create_dir_all_def by (intro all) simp
qed

text \<open>Nothing lies under a place that is absent, or under a folder just made there.\<close>

lemma entry_under_absent: "entry p d = None \<Longrightarrow> entry (p @ r) d = None"
  by (simp add: entry_append)

lemma entry_under_new:
  "is_folder r d \<Longrightarrow> q \<noteq> [] \<Longrightarrow> entry (r @ [x] @ q) (put_entry (r @ [x]) (Some (Folder [])) d) = None"
  using put_entry_same [of r d x "Some (Folder [])"] entry_append [of "r @ [x]" q]
  by (cases q) auto

lemma is_folder_prefix: "is_folder p d \<Longrightarrow> prefix q p \<Longrightarrow> is_folder q d"
proof -
  assume "is_folder p d" and "prefix q p"
  then obtain r es n where "p = q @ r" "entry q d = Some n" "entry r n = Some (Folder es)"
    by (auto simp: prefix_def is_folder_iff entry_append split: option.splits)
  then show ?thesis by (cases r; cases n) (auto simp: is_folder_iff)
qed

subsection \<open>Removing a tree\<close>

text \<open>Whatever is removed with success is gone.\<close>

lemma entry_removed: "entry p d = Some n \<Longrightarrow> p \<noteq> [] \<Longrightarrow> entry p (put_entry p None d) = None"
  using entry_parent_folder [of "butlast p" "last p" d n] put_entry_same [of "butlast p" d "last p" None] by simp

lemma wlp_remove_tree:
  assumes "p \<noteq> []"
  shows "wlp F (remove_tree p n) (\<lambda>_ d'. entry p d' = None) (\<lambda>_ _. True) (\<lambda>_. True) d"
proof -
  have triv: "wlp F m (\<lambda>_ _. True) (\<lambda>_ _. True) (\<lambda>_. True) d" if "confined q m" for m :: "(fs_error, unit) io" and q d
    using wlp_confinedI [OF that] by (rule wlp_mono) auto
  have plain: "wlp F (remove_file p) (\<lambda>_ d'. entry p d' = None) (\<lambda>_ _. True) (\<lambda>_. True) d" for d
    unfolding remove_file_def using assms entry_removed
    by (auto intro!: wlp_atomic elim!: checked_thenE split: node.split_asm)
  have dir: "wlp F (remove_dir p) (\<lambda>_ d'. entry p d' = None) (\<lambda>_ _. True) (\<lambda>_. True) d" for d
    unfolding remove_dir_def using assms entry_removed
    by (auto intro!: wlp_atomic elim!: checked_thenE split: node.split_asm list.split_asm)
  show ?thesis
  proof (cases n)
    case (Folder es)
    have last: "wlp F (wrap Io (remove_dir p)) (\<lambda>_ d'. entry p d' = None) (\<lambda>_ _. True) (\<lambda>_. True) d'" for d'
      by (rule wlp_wrap) (rule dir)
    show ?thesis unfolding Folder remove_tree.simps
      by (rule wlp_do_then, rule wlp_mono [OF triv [OF confined_remove_tree(2)]]) (simp_all add: last)
  qed (use plain in \<open>auto intro: wlp_wrap wlp_raise\<close>)
qed

lemma wlp_remove_any:
  assumes "p \<noteq> []"
  shows "wlp F (remove_any p) (\<lambda>_ d'. entry p d' = None \<and> tree.away p d d') (\<lambda>_. tree.away p d) (tree.away p d) d"
proof -
  have "wlp F (remove_any p) (\<lambda>_ d'. entry p d' = None) (\<lambda>_ _. True) (\<lambda>_. True) d"
    unfolding remove_any_def
    by (intro wlp_do_then wlp_wrap wlp_metadata) (auto intro: wlp_remove_tree [OF assms])
  from wlp_confined [OF confined_remove_any this] show ?thesis by (rule wlp_mono) auto
qed

section \<open>Programs without faults\<close>

text \<open>\<open>returns m Q d\<close>: when nothing fails and the process lives, \<open>m\<close> returns, in \<open>Q\<close>.\<close>

definition returns :: "('e, 'a) io \<Rightarrow> ('a \<Rightarrow> node \<Rightarrow> bool) \<Rightarrow> node \<Rightarrow> bool" where
  "returns m Q d \<longleftrightarrow> wlp {Go} m Q (\<lambda>_ _. False) (\<lambda>_. False) d"

lemma do_then_give: "do_then (give a) f = f a"
  by (rule ext) (simp add: do_then_def give_def)

lemma returns_give: "Q a d \<Longrightarrow> returns (give a) Q d"
  by (simp add: returns_def wlp_give)

lemma returns_seq:
  assumes "returns m R d" and "\<And>a d'. R a d' \<Longrightarrow> returns (f a) Q d'" shows "returns (do_then m f) Q d"
  unfolding returns_def by (rule wlp_seq [OF assms(1) [unfolded returns_def]]) (use assms(2) in \<open>auto simp: returns_def\<close>)

lemma returns_try:
  assumes "returns m R d" and "\<And>a d'. R a d' \<Longrightarrow> returns (f (Inr a)) Q d'" shows "returns (do_then (attempt m) f) Q d"
  unfolding returns_def by (rule wlp_try [OF assms(1) [unfolded returns_def]]) (use assms(2) in \<open>auto simp: returns_def\<close>)

lemma returns_wrap: "returns m Q d \<Longrightarrow> returns (wrap g m) Q d"
  by (simp add: returns_def wlp_wrap)

lemma returns_from_result: "r = Inr a \<Longrightarrow> Q a d \<Longrightarrow> returns (from_result r) Q d"
  unfolding returns_def by (rule wlp_from_result) auto

lemma returns_mono: "returns m Q d \<Longrightarrow> (\<And>a d'. Q a d' \<Longrightarrow> Q' a d') \<Longrightarrow> returns m Q' d"
  unfolding returns_def by (erule wlp_mono) auto

lemma returns_and:
  assumes "returns m Q d" and "wlp {Go} m Q' E H d" shows "returns m (\<lambda>a d'. Q a d' \<and> Q' a d') d"
  using assms unfolding returns_def wlp_def by (fastforce split: run.splits)

lemma returns_run:
  assumes "returns m Q d" and "set s \<subseteq> {Go}" shows "\<exists>a w. m \<lparr>disk = d, schedule = s\<rparr> = Done a w \<and> Q a (disk w)"
  using assms by (cases "m \<lparr>disk = d, schedule = s\<rparr>") (auto simp: returns_def wlp_def split: run.split_asm)

lemma returns_atomic: "f d = Inr (d', a) \<Longrightarrow> Q a d' \<Longrightarrow> returns (atomic f) Q d"
  unfolding returns_def by (rule wlp_atomic) auto

lemma returns_query: "f d = Inr a \<Longrightarrow> Q a d \<Longrightarrow> returns (query g f) Q d"
  unfolding returns_def by (rule wlp_query) auto

lemma returns_metadata: "entry p d = Some n \<Longrightarrow> Q n d \<Longrightarrow> returns (metadata p) Q d"
  unfolding returns_def by (rule wlp_metadata) auto

lemma returns_sync: "entry p d = Some n \<Longrightarrow> Q () d \<Longrightarrow> returns (sync_path p) Q d"
  unfolding sync_path_def by (rule returns_atomic [of _ _ d "()"]) (simp_all add: checked_stat_Inr [THEN iffD2])

lemma returns_read: "entry p d = Some (Plain c) \<Longrightarrow> Q c d \<Longrightarrow> returns (read_file p) Q d"
  unfolding read_file_def by (rule returns_atomic [of _ _ d c]) (simp_all add: checked_stat_Inr [THEN iffD2])

lemma returns_exists: "is_folder r d \<Longrightarrow> Q (entry (r @ [x]) d \<noteq> None) d \<Longrightarrow> returns (path_exists (r @ [x])) Q d"
  unfolding returns_def by (rule wlp_path_exists) auto

lemma returns_remove_file: "entry p d = Some (Plain c) \<Longrightarrow> Q () (put_entry p None d) \<Longrightarrow> returns (remove_file p) Q d"
  unfolding remove_file_def by (rule returns_atomic [of _ _ "put_entry p None d" "()"]) (simp_all add: checked_stat_Inr [THEN iffD2])

lemma returns_rename:
  assumes "is_folder r d" and "x \<noteq> y" and "entry (r @ [y]) d = None" and "entry (r @ [x]) d = Some n"
    and "Q () (put_entry (r @ [x]) None (put_entry (r @ [y]) (Some n) d))"
  shows "returns (rename_entry (r @ [x]) (r @ [y])) Q d"
  unfolding returns_def by (rule wlp_rename [OF assms(1-3)]) (use assms(4,5) in auto)

end
