(* ===== verification/Journals.thy ===== *)
theory Journals
  imports Portable_Paths File_Rules
begin

text \<open>
  The journals of \<open>deployment.rs\<close> and \<open>uninstall.rs\<close>: one append-only file per transaction, a JSON
  record per line, of which the last complete one counts. Both modules have the same three
  functions, and differ in the record and its JSON form; here the form is an argument, as bytes and
  as a reader (\<open>decode\<close>). A write that fails or dies leaves a torn line, and what is appended later
  continues it.
\<close>

datatype journal_error =
  JournalIo io_error
| JournalSerialization string
| JournalNotRegular location
| JournalNoRecord location

definition newline :: char where
  "newline = CHR 0x0A"

text \<open>\<open>BufRead::lines\<close>\<close>

definition strip_cr :: "string \<Rightarrow> string" where
  "strip_cr l = (if l \<noteq> [] \<and> last l = CHR 0x0D then butlast l else l)"

definition lines_of :: "string \<Rightarrow> string list" where
  "lines_of c = (let ls = split_on newline c in
     map strip_cr (butlast ls) @ (if last ls = [] then [] else [last ls]))"

section \<open>Operations\<close>

fun latest_record :: "(string \<Rightarrow> string + 'j) \<Rightarrow> string list \<Rightarrow> 'j option \<Rightarrow> journal_error + 'j option" where
  "latest_record decode [] latest = Inr latest"
| "latest_record decode (l # ls) latest =
     (if \<not> valid_utf8 l then Inl (JournalIo OtherIo)
      else if is_blank l then latest_record decode ls latest
      else case decode l of
        Inr r \<Rightarrow> latest_record decode ls (Some r)
      | Inl e \<Rightarrow> (case latest of Some _ \<Rightarrow> Inr latest | None \<Rightarrow> Inl (JournalSerialization e)))"

definition ensure_regular_file :: "location \<Rightarrow> (journal_error, unit) io" where
  "ensure_regular_file p =
     do_then (wrap JournalIo (metadata p)) (\<lambda>n.
     case n of Plain _ \<Rightarrow> give () | _ \<Rightarrow> raise (JournalNotRegular p))"

definition read_latest_journal :: "(string \<Rightarrow> string + 'j) \<Rightarrow> location \<Rightarrow> (journal_error, 'j) io" where
  "read_latest_journal decode p =
     do_then (ensure_regular_file p) (\<lambda>_.
     do_then (wrap JournalIo (read_file p)) (\<lambda>c.
     do_then (from_result (latest_record decode (lines_of c) None)) (\<lambda>latest.
     from_result (ok_or latest (JournalNoRecord p)))))"

definition persist_journal :: "location \<Rightarrow> location \<Rightarrow> string \<Rightarrow> (journal_error, unit) io" where
  "persist_journal root p bs =
     do_then (wrap JournalIo (path_exists p)) (\<lambda>existed.
     do_then (if existed then ensure_regular_file p else give ()) (\<lambda>_.
     do_then (wrap JournalIo (open_append p)) (\<lambda>_.
     do_then (wrap JournalIo (write_all p bs)) (\<lambda>_.
     do_then (wrap JournalIo (write_all p [newline])) (\<lambda>_.
     do_then (wrap JournalIo (sync_path p)) (\<lambda>_.
     if existed then give () else wrap JournalIo (sync_path root)))))))"

definition remove_journal :: "location \<Rightarrow> location \<Rightarrow> (journal_error, unit) io" where
  "remove_journal root p =
     do_then (wrap JournalIo (path_exists p)) (\<lambda>existed.
     if existed then
       do_then (ensure_regular_file p) (\<lambda>_.
       do_then (wrap JournalIo (remove_file p)) (\<lambda>_. wrap JournalIo (sync_path root)))
     else give ())"

text \<open>\<open>Path::extension\<close> of a name, and the journals of a folder in order.\<close>

definition extension :: "string \<Rightarrow> string option" where
  "extension x = (let parts = split_on (CHR ''.'') x in
     if length parts < 2 \<or> butlast parts = [[]] then None else Some (last parts))"

definition journal_files :: "string \<Rightarrow> location \<Rightarrow> node \<Rightarrow> io_error + location list" where
  "journal_files ext root d =
     and_then (checked_stat root d) (\<lambda>n. case n of
       Folder es \<Rightarrow> Inr (map (\<lambda>x. root @ [x]) (sort (filter (\<lambda>x. extension x = Some ext) (map fst es))))
     | _ \<Rightarrow> Inl NotADirectory)"

definition validate_transaction_id :: "string \<Rightarrow> bool" where
  "validate_transaction_id v \<longleftrightarrow> v \<noteq> [] \<and> list_all (\<lambda>c. is_ascii_alphanumeric c \<or> c = CHR ''-'') v"

lemma transaction_id_no_slash: "validate_transaction_id tx \<Longrightarrow> CHR ''/'' \<notin> set tx"
  by (auto simp: validate_transaction_id_def list_all_iff is_ascii_alphanumeric_def byte_def)

section \<open>Torn lines\<close>

text \<open>What a line of a journal can be when every write appends a prefix of a record in \<open>T\<close>.\<close>

inductive_set pieces :: "string set \<Rightarrow> string set" for T where
  pieces_Nil: "[] \<in> pieces T"
| pieces_append: "l \<in> pieces T \<Longrightarrow> e \<in> T \<Longrightarrow> l @ take k e \<in> pieces T"

definition plain_records :: "string set \<Rightarrow> bool" where
  "plain_records T \<longleftrightarrow> (\<forall>e \<in> T. newline \<notin> set e \<and> CHR 0x0D \<notin> set e)"

lemma pieces_chars: "l \<in> pieces T \<Longrightarrow> c \<in> set l \<Longrightarrow> \<exists>e \<in> T. c \<in> set e"
  by (induction rule: pieces.induct) (auto dest: in_set_takeD)

lemma split_on_snoc: "d \<notin> set x \<Longrightarrow> split_on d (c @ x) = butlast (split_on d c) @ [last (split_on d c) @ x]"
proof (induction c)
  case Nil
  then show ?case by (simp add: split_on_no_sep_id)
next
  case (Cons a c)
  then obtain p ps where "split_on d c = p # ps" by (cases "split_on d c") auto
  then show ?case using Cons by (cases ps) auto
qed

definition journal_lines :: "string set \<Rightarrow> string \<Rightarrow> bool" where
  "journal_lines T c \<longleftrightarrow> set (split_on newline c) \<subseteq> pieces T"

definition journal_ok :: "string set \<Rightarrow> location \<Rightarrow> node \<Rightarrow> bool" where
  "journal_ok T p d \<longleftrightarrow> (\<forall>c. entry p d = Some (Plain c) \<longrightarrow> journal_lines T c)"

lemma journal_lines_Nil: "journal_lines T []"
  by (simp add: journal_lines_def pieces_Nil)

lemma journal_lines_record:
  assumes "plain_records T" and "e \<in> T" and "journal_lines T c" shows "journal_lines T (c @ take k e)"
proof -
  have "newline \<notin> set (take k e)" using assms(1,2) by (auto simp: plain_records_def dest: in_set_takeD)
  from split_on_snoc [OF this, of c] have s: "split_on newline (c @ take k e) =
      butlast (split_on newline c) @ [last (split_on newline c) @ take k e]" .
  have "last (split_on newline c) \<in> pieces T" using assms(3) by (auto simp: journal_lines_def)
  then show ?thesis using assms(2,3) unfolding journal_lines_def s
    by (auto intro: pieces_append dest: in_set_butlastD)
qed

lemma journal_lines_newline: "journal_lines T c \<Longrightarrow> journal_lines T (c @ take k [newline])"
proof (cases k)
  case (Suc n)
  assume "journal_lines T c"
  then show ?thesis using split_on_append [of newline c "[]"] by (simp add: Suc journal_lines_def pieces_Nil)
qed simp

lemma lines_of_pieces:
  assumes "plain_records T" and "journal_lines T c" and "l \<in> set (lines_of c)" shows "l \<in> pieces T"
proof -
  have "strip_cr x = x" if "x \<in> pieces T" for x
  proof -
    have "last x \<noteq> CHR 0x0D" if "x \<noteq> []"
      using pieces_chars [OF \<open>x \<in> pieces T\<close>, of "last x"] that assms(1) by (auto simp: plain_records_def)
    then show ?thesis by (auto simp: strip_cr_def)
  qed
  then show ?thesis using assms(2,3)
    by (auto simp: lines_of_def Let_def journal_lines_def split: if_splits dest!: in_set_butlastD)
qed

lemma latest_record_from_line:
  "latest_record decode ls latest = Inr (Some r) \<Longrightarrow> latest = Some r \<or> (\<exists>l \<in> set ls. decode l = Inr r)"
  by (induction decode ls latest rule: latest_record.induct) (auto split: if_splits sum.splits option.splits)

text \<open>A record read is one that was written, if no torn line reads as another.\<close>

lemma wlp_read_latest:
  assumes "journal_ok T p d" and "plain_records T" and sound: "\<And>l r. l \<in> pieces T \<Longrightarrow> decode l = Inr r \<Longrightarrow> r \<in> R"
  shows "wlp F (read_latest_journal decode p) (\<lambda>r d'. d' = d \<and> r \<in> R) (\<lambda>_ d'. d' = d) (\<lambda>d'. d' = d) d"
proof -
  have step: "wlp F (from_result (latest_record decode (lines_of c) None))
      (\<lambda>latest. wlp F (from_result (ok_or latest (JournalNoRecord p))) (\<lambda>r d'. d' = d \<and> r \<in> R) (\<lambda>_ d'. d' = d) (\<lambda>d'. d' = d))
      (\<lambda>_ d'. d' = d) (\<lambda>d'. d' = d) d" if "entry p d = Some (Plain c)" for c
  proof (rule wlp_from_result)
    fix latest assume l: "latest_record decode (lines_of c) None = Inr latest"
    show "wlp F (from_result (ok_or latest (JournalNoRecord p))) (\<lambda>r d'. d' = d \<and> r \<in> R) (\<lambda>_ d'. d' = d) (\<lambda>d'. d' = d) d"
    proof (rule wlp_from_result)
      fix r assume "ok_or latest (JournalNoRecord p) = Inr r"
      then have "latest_record decode (lines_of c) None = Inr (Some r)" using l by (simp add: ok_or_Inr_iff)
      from latest_record_from_line [OF this] obtain line where "line \<in> set (lines_of c)" "decode line = Inr r" by auto
      then show "d = d \<and> r \<in> R"
        using sound lines_of_pieces [OF assms(2)] that assms(1) by (auto simp: journal_ok_def)
    qed simp
  qed simp
  show ?thesis unfolding read_latest_journal_def ensure_regular_file_def read_file_def
    by (intro wlp_do_then wlp_wrap wlp_metadata)
      (auto intro!: wlp_give wlp_raise wlp_do_then wlp_wrap wlp_atomic step elim!: checked_thenE split: node.split node.split_asm)
qed

section \<open>Where journals write\<close>

lemma confined_path_exists: "confined p (path_exists q)"
  by (rule confinedI) (rule keeps_rules)

lemma confined_ensure_regular: "confined p (ensure_regular_file q)"
  unfolding ensure_regular_file_def by (intro confinedI keeps_rules)

lemma confined_persist: "confined p (persist_journal root p bs)"
  unfolding persist_journal_def
  by (intro confined_do_then confined_wrap confined_path_exists confined_writes)
    (auto intro!: confinedI keeps_rules confined_ensure_regular [THEN confinedD])

lemma confined_remove_journal: "confined p (remove_journal root p)"
proof -
  have "confined p (do_then (ensure_regular_file p) (\<lambda>_. do_then (wrap JournalIo (remove_file p)) (\<lambda>_. wrap JournalIo (sync_path root))))"
    by (intro confined_do_then confined_wrap confined_ensure_regular confined_writes) (auto intro!: confinedI keeps_rules)
  moreover have "confined p (give ())" by (intro confinedI keeps_rules)
  ultimately show ?thesis unfolding remove_journal_def
    by (intro confined_do_then confined_wrap confined_path_exists) auto
qed

lemma keeps_journal_write:
  assumes "\<And>c k. journal_lines T c \<Longrightarrow> journal_lines T (c @ take k bs)"
  shows "keeps (journal_ok T p) (write_all p bs)"
proof -
  have "journal_ok T p (append_bytes p (take k bs) d)" if "journal_ok T p d" for k d
  proof (cases "\<exists>c. entry p d = Some (Plain c)")
    case True
    then obtain c where c: "entry p d = Some (Plain c)" by blast
    have "entry p (append_bytes p (take k bs) d) = Some (Plain (c @ take k bs)) \<or> p = []"
      using c put_entry_same [of "butlast p" d "last p"] entry_parent_folder [of "butlast p" "last p" d]
      by (cases "p = []") (auto simp: append_bytes_def)
    then show ?thesis using c that assms by (auto simp: journal_ok_def append_bytes_def)
  next
    case False
    then have "append_bytes p (take k bs) d = d" by (auto simp: append_bytes_def split: option.splits node.splits)
    then show ?thesis using that by simp
  qed
  from this this [where k = "length bs"] show ?thesis unfolding write_all_def
    by (intro keeps_syscall) (auto split: option.split_asm node.split_asm)
qed

lemma keeps_open_append: "keeps (journal_ok T p) (open_append p)"
proof -
  have "journal_ok T p d'" if "new_entry p (Plain []) d = Inr (d', a)" for d d' a
    using new_entry_Inr(5) [OF that] by (simp add: journal_ok_def journal_lines_Nil)
  then show ?thesis unfolding open_append_def
    by (intro keeps_atomic) (auto split: stat_result.split_asm node.split_asm)
qed

lemma keeps_persist_ok:
  assumes "plain_records T" and "e \<in> T" shows "keeps (journal_ok T p) (persist_journal root p e)"
proof -
  have "keeps (journal_ok T p) (write_all p e)" "keeps (journal_ok T p) (write_all p [newline])"
    using journal_lines_record [OF assms] journal_lines_newline by (auto intro: keeps_journal_write)
  then show ?thesis unfolding persist_journal_def ensure_regular_file_def
    by (intro keeps_rules keeps_open_append)
qed

lemma keeps_remove_ok: "keeps (journal_ok T p) (remove_journal root p)"
proof -
  have "journal_ok T p (put_entry p None d)" if "journal_ok T p d" "entry p d = Some n" for d n
  proof (cases "p = []")
    case False
    then show ?thesis using that entry_removed by (auto simp: journal_ok_def)
  qed (use that in simp)
  then have "keeps (journal_ok T p) (remove_file p)" unfolding remove_file_def
    by (intro keeps_atomic) (auto elim!: checked_thenE split: node.split_asm)
  then show ?thesis unfolding remove_journal_def ensure_regular_file_def by (intro keeps_rules)
qed

section \<open>Journals with a complete record\<close>

text \<open>\<open>started e p d\<close>: the journal begins with the complete record \<open>e\<close>, so it can be read whatever follows.\<close>

definition started :: "string \<Rightarrow> location \<Rightarrow> node \<Rightarrow> bool" where
  "started e p d \<longleftrightarrow> (\<exists>rest. entry p d = Some (Plain (e @ newline # rest)))"

lemma lines_of_started: "newline \<notin> set e \<Longrightarrow> lines_of (e @ newline # rest) = strip_cr e # lines_of rest"
  by (simp add: lines_of_def Let_def split_on_append split_on_no_sep_id)

lemma latest_record_found:
  "\<forall>l \<in> set ls. valid_utf8 l \<Longrightarrow> \<exists>r. latest_record decode ls (Some r0) = Inr (Some r)"
  by (induction ls arbitrary: r0) (auto split: sum.split)

lemma returns_read_latest:
  assumes e: "started e p d" and form: "newline \<notin> set e" "CHR 0x0D \<notin> set e" "\<not> is_blank e" "decode e = Inr r0"
    and ok: "journal_ok T p d" "plain_records T" and utf8: "\<And>l. l \<in> pieces T \<Longrightarrow> valid_utf8 l" and T: "e \<in> T"
  shows "returns (read_latest_journal decode p) (\<lambda>_ d'. d' = d) d"
proof -
  obtain rest where c: "entry p d = Some (Plain (e @ newline # rest))" using e by (auto simp: started_def)
  have cr: "strip_cr e = e" using form(2) by (cases e rule: rev_cases) (auto simp: strip_cr_def)
  have all: "valid_utf8 l" if "l \<in> set (lines_of (e @ newline # rest))" for l
    using utf8 lines_of_pieces [OF ok(2)] ok(1) c that by (auto simp: journal_ok_def)
  then obtain r where r: "latest_record decode (lines_of (e @ newline # rest)) None = Inr (Some r)"
    using latest_record_found [of "lines_of rest" decode r0] form unfolding lines_of_started [OF form(1)] cr by auto
  have regular: "returns (ensure_regular_file p) (\<lambda>_ d'. d' = d) d"
    unfolding ensure_regular_file_def
    by (rule returns_seq [OF returns_wrap [OF returns_metadata [OF c, where Q = "\<lambda>n d'. n = Plain (e @ newline # rest) \<and> d' = d"]]])
      (auto intro: returns_give)
  have result: "returns (do_then (from_result (latest_record decode (lines_of (e @ newline # rest)) None))
      (\<lambda>latest. from_result (ok_or latest (JournalNoRecord p)))) (\<lambda>_ d'. d' = d) d"
    by (rule returns_seq [OF returns_from_result [OF r, where Q = "\<lambda>a d'. a = Some r \<and> d' = d"]]) (auto intro: returns_from_result)
  have read: "returns (do_then (wrap JournalIo (read_file p)) (\<lambda>c. do_then (from_result (latest_record decode (lines_of c) None))
      (\<lambda>latest. from_result (ok_or latest (JournalNoRecord p))))) (\<lambda>_ d'. d' = d) d"
    by (rule returns_seq [OF returns_wrap [OF returns_read [OF c, where Q = "\<lambda>x d'. x = e @ newline # rest \<and> d' = d"]]]) (use result in auto)
  show ?thesis unfolding read_latest_journal_def by (rule returns_seq [OF regular]) (use read in auto)
qed

lemma append_started:
  assumes "entry p d = Some (Plain c)" shows "entry p (append_bytes p bs d) = Some (Plain (c @ bs))"
proof (cases "p = []")
  case False
  then show ?thesis using put_entry_same [of "butlast p" d "last p"] entry_parent_folder [of "butlast p" "last p" d] assms
    by (simp add: append_bytes_def)
qed (use assms in \<open>simp add: append_bytes_def\<close>)

lemma keeps_started_write: "keeps (started e p) (write_all p bs)"
proof -
  have "started e p (append_bytes p x d)" if "started e p d" for x d
    using that append_started by (fastforce simp: started_def)
  then show ?thesis unfolding write_all_def by (intro keeps_syscall) (auto split: option.split_asm node.split_asm)
qed

lemma keeps_started_open: "keeps (started e p) (open_append p)"
proof -
  have "stat p d = Found (Plain c)" if "entry p d = Some (Plain c)" for d c using that stat_Found by blast
  then show ?thesis unfolding open_append_def by (intro keeps_atomic) (auto simp: started_def)
qed

lemma keeps_started: "keeps (started e p) (persist_journal root p bs)"
  unfolding persist_journal_def ensure_regular_file_def
  by (intro keeps_rules keeps_started_write keeps_started_open)

text \<open>The first record of a new journal is complete when its write returns.\<close>

lemma wlp_persist_new:
  assumes p: "p = root @ [x]" and root: "is_folder root d" and none: "entry p d = None"
  shows "wlp F (persist_journal root p e) (\<lambda>_ d'. started e p d') (\<lambda>_ _. True) (\<lambda>_. True) d"
proof -
  have final: "wlp F (do_then (wrap JournalIo (write_all p [newline])) (\<lambda>_. do_then (wrap JournalIo (sync_path p)) (\<lambda>_.
      if b then give () else wrap JournalIo (sync_path root)))) (\<lambda>_ d'. started e p d') (\<lambda>_ _. True) (\<lambda>_. True) d'"
    if c: "entry p d' = Some (Plain e)" for d' b
  proof (rule wlp_seq)
    show "wlp F (wrap JournalIo (write_all p [newline])) (\<lambda>_ d'. started e p d') (\<lambda>_ _. True) (\<lambda>_. True) d'"
      unfolding write_all_def using c append_started [OF c] by (intro wlp_wrap wlp_syscall) (auto simp: started_def)
    fix u :: unit and d'' assume s: "started e p d''"
    have "keeps (started e p) (do_then (wrap JournalIo (sync_path p)) (\<lambda>_. if b then give () else wrap JournalIo (sync_path root)))"
      by (intro keeps_rules)
    from keepsD [OF this s] show "wlp F (do_then (wrap JournalIo (sync_path p)) (\<lambda>_. if b then give () else wrap JournalIo (sync_path root)))
      (\<lambda>_ d'. started e p d') (\<lambda>_ _. True) (\<lambda>_. True) d''" by (rule wlp_mono) auto
  qed simp_all
  have body: "wlp F (do_then (wrap JournalIo (write_all p e)) (\<lambda>_. do_then (wrap JournalIo (write_all p [newline])) (\<lambda>_.
      do_then (wrap JournalIo (sync_path p)) (\<lambda>_. if b then give () else wrap JournalIo (sync_path root)))))
      (\<lambda>_ d'. started e p d') (\<lambda>_ _. True) (\<lambda>_. True) d'" if c: "entry p d' = Some (Plain [])" for d' b
  proof (rule wlp_seq)
    show "wlp F (wrap JournalIo (write_all p e)) (\<lambda>_ d'. entry p d' = Some (Plain e)) (\<lambda>_ _. True) (\<lambda>_. True) d'"
      unfolding write_all_def using c append_started [OF c] by (intro wlp_wrap wlp_syscall) auto
  qed (use final in auto)
  have create: "wlp F (wrap JournalIo (open_append p)) (\<lambda>_ d'. entry p d' = Some (Plain [])) (\<lambda>_ _. True) (\<lambda>_. True) d"
    unfolding open_append_def
    using none new_entry_Inr(5) [of p "Plain []" d] stat_in_folder [OF root, of x] p
    by (intro wlp_wrap wlp_atomic) (auto split: option.split_asm)
  have rest: "wlp F (do_then (wrap JournalIo (open_append p)) (\<lambda>_. do_then (wrap JournalIo (write_all p e)) (\<lambda>_.
      do_then (wrap JournalIo (write_all p [newline])) (\<lambda>_.
      do_then (wrap JournalIo (sync_path p)) (\<lambda>_. if b then give () else wrap JournalIo (sync_path root))))))
      (\<lambda>_ d'. started e p d') (\<lambda>_ _. True) (\<lambda>_. True) d" for b
    by (rule wlp_seq [OF create]) (use body in auto)
  show ?thesis unfolding persist_journal_def
  proof (rule wlp_seq)
    show "wlp F (wrap JournalIo (path_exists p)) (\<lambda>b d'. \<not> b \<and> d' = d) (\<lambda>_ _. True) (\<lambda>_. True) d"
      unfolding p using none p by (intro wlp_wrap wlp_path_exists [OF root]) auto
  qed (use rest [of False] in \<open>auto simp: do_then_give\<close>)
qed

text \<open>Without faults a journal that is there is removed.\<close>

lemma returns_remove_journal:
  assumes p: "p = root @ [x]" and c: "entry p d = Some (Plain c)"
  shows "returns (remove_journal root p) (\<lambda>_ d'. d' = put_entry p None d) d"
proof -
  have root: "is_folder root d" using entry_parent_folder c p by blast
  have after: "is_folder root (put_entry p None d)"
    using put_entry_above [of root p d] root by (simp add: p strict_prefix_def)
  then obtain es where es: "entry root (put_entry p None d) = Some (Folder es)" by (auto simp: is_folder_iff)
  have regular: "returns (ensure_regular_file p) (\<lambda>_ d'. d' = d) d"
    unfolding ensure_regular_file_def
    by (rule returns_seq [OF returns_wrap [OF returns_metadata [OF c, where Q = "\<lambda>n d'. n = Plain c \<and> d' = d"]]])
      (auto intro: returns_give)
  have gone: "returns (do_then (wrap JournalIo (remove_file p)) (\<lambda>_. wrap JournalIo (sync_path root))) (\<lambda>_ d'. d' = put_entry p None d) d"
    by (rule returns_seq [OF returns_wrap [OF returns_remove_file [OF c, where Q = "\<lambda>_ d'. d' = put_entry p None d"]]])
      (auto intro: returns_wrap returns_sync [OF es])
  have del: "returns (do_then (ensure_regular_file p) (\<lambda>_. do_then (wrap JournalIo (remove_file p)) (\<lambda>_. wrap JournalIo (sync_path root))))
      (\<lambda>_ d'. d' = put_entry p None d) d"
    by (rule returns_seq [OF regular]) (use gone in auto)
  show ?thesis unfolding remove_journal_def
  proof (rule returns_seq)
    show "returns (wrap JournalIo (path_exists p)) (\<lambda>b d'. b \<and> d' = d) d"
      unfolding p using c p by (intro returns_wrap returns_exists [OF root]) simp
  qed (use del in auto)
qed

end
