(* ===== verification/Blob_Store.thy ===== *)
theory Blob_Store
  imports File_Rules
begin

text \<open>
  \<open>blob_store.rs\<close>: the content-addressed store. A blob lives at \<open>root/sha256/ab/abcd...\<close>, named by the
  digest of its bytes; it is written to a temporary file of the same shard and renamed into place.
  SHA-256 is an argument: \<open>sha\<close> gives the 64 lowercase hexadecimal digits of the digest of some bytes.
\<close>

type_synonym sha = "string \<Rightarrow> string"

datatype blob_error =
  BlobIo io_error
| InvalidHash string
| BlobNotFound string
| HashMismatch string string
| UnsafeStorageDirectory location
| UnsafeStorageEntry location
| CorruptedExistingBlob string

record blob_ref =
  br_hash :: string
  br_size_bytes :: nat

definition hash_prefix :: string where
  "hash_prefix = ''sha256:''"

text \<open>What is assumed of the digest: its form.\<close>

definition canonical_digest :: "string \<Rightarrow> bool" where
  "canonical_digest v \<longleftrightarrow> length v = 64 \<and> list_all is_lower_hexdigit v"

definition hash_bytes :: "sha \<Rightarrow> string \<Rightarrow> string" where
  "hash_bytes sha b = hash_prefix @ sha b"

definition path_for_hash :: "location \<Rightarrow> string \<Rightarrow> blob_error + location" where
  "path_for_hash root hash =
     and_then (ok_or (strip_prefix hash_prefix hash) (InvalidHash hash)) (\<lambda>digest.
     if \<not> canonical_digest digest then Inl (InvalidHash hash)
     else Inr (root @ [''sha256'', take 2 digest, digest]))"

definition validate_real_directory :: "location \<Rightarrow> node \<Rightarrow> blob_error + unit" where
  "validate_real_directory p d =
     and_then (map_err BlobIo (checked_stat p d)) (\<lambda>n. ensure (folder_node n) (UnsafeStorageDirectory p))"

definition validate_storage_roots :: "location \<Rightarrow> node \<Rightarrow> blob_error + unit" where
  "validate_storage_roots root d =
     and_then (validate_real_directory root d) (\<lambda>_. validate_real_directory (root @ [''sha256'']) d)"

definition read_blob :: "sha \<Rightarrow> location \<Rightarrow> string \<Rightarrow> node \<Rightarrow> blob_error + string" where
  "read_blob sha root hash d =
     and_then (validate_storage_roots root d) (\<lambda>_.
     and_then (path_for_hash root hash) (\<lambda>p.
     case stat p d of
       Missing \<Rightarrow> Inl (BlobNotFound hash)
     | Broken \<Rightarrow> Inl (BlobIo NotADirectory)
     | Found (Plain c) \<Rightarrow>
         (let actual = hash_bytes sha c in
          if actual \<noteq> hash then Inl (HashMismatch hash actual) else Inr c)
     | Found _ \<Rightarrow> Inl (UnsafeStorageEntry p)))"

definition verify_blob :: "sha \<Rightarrow> location \<Rightarrow> string \<Rightarrow> node \<Rightarrow> blob_error + bool" where
  "verify_blob sha root hash d =
     and_then (validate_storage_roots root d) (\<lambda>_.
     and_then (path_for_hash root hash) (\<lambda>p.
     case stat p d of
       Missing \<Rightarrow> Inr False
     | Broken \<Rightarrow> Inl (BlobIo NotADirectory)
     | Found (Plain c) \<Rightarrow> Inr (hash_bytes sha c = hash)
     | Found _ \<Rightarrow> Inl (UnsafeStorageEntry p)))"

definition sync_real_parent :: "location \<Rightarrow> (blob_error, unit) io" where
  "sync_real_parent p =
     (if p = [] then give ()
      else do_then (attempt (metadata (butlast p))) (\<lambda>m. case m of
             Inl _ \<Rightarrow> give ()
           | Inr n \<Rightarrow> if folder_node n then wrap BlobIo (sync_path (butlast p)) else give ()))"

definition make_real_directory :: "location \<Rightarrow> (blob_error, unit) io" where
  "make_real_directory p =
     do_then (wrap BlobIo (create_dir_all p)) (\<lambda>_.
     do_then (query BlobIo (validate_real_directory p)) (\<lambda>_. sync_real_parent p))"

definition ensure_real_directory :: "location \<Rightarrow> (blob_error, unit) io" where
  "ensure_real_directory p =
     do_then (attempt (metadata p)) (\<lambda>r. case r of
       Inl e \<Rightarrow> if e = NotFound then make_real_directory p else raise (BlobIo e)
     | Inr n \<Rightarrow> if folder_node n then give () else raise (UnsafeStorageDirectory p))"

text \<open>\<open>BlobStore::open\<close>\<close>

definition open_blob_store :: "location \<Rightarrow> (blob_error, unit) io" where
  "open_blob_store root =
     do_then (ensure_real_directory root) (\<lambda>_. ensure_real_directory (root @ [''sha256'']))"

text \<open>The write of a new blob: the temporary file, the rename, and the race a failing rename may have lost.\<close>

definition rename_or_reuse :: "sha \<Rightarrow> location \<Rightarrow> string \<Rightarrow> location \<Rightarrow> location \<Rightarrow> (blob_error, unit) io" where
  "rename_or_reuse sha root hash temporary destination =
     do_then (attempt (rename_entry temporary destination)) (\<lambda>r. case r of
       Inr _ \<Rightarrow> wrap BlobIo (sync_path (butlast destination))
     | Inl e \<Rightarrow>
         do_then (attempt (metadata destination)) (\<lambda>m. case m of
           Inr (Plain _) \<Rightarrow>
             do_then (query BlobIo (verify_blob sha root hash)) (\<lambda>valid.
             if valid then do_then (attempt (remove_file temporary)) (\<lambda>_. give ())
             else raise (CorruptedExistingBlob hash))
         | Inr _ \<Rightarrow> raise (UnsafeStorageEntry destination)
         | Inl _ \<Rightarrow> raise (BlobIo e)))"

definition write_blob :: "sha \<Rightarrow> location \<Rightarrow> string \<Rightarrow> location \<Rightarrow> location \<Rightarrow> string \<Rightarrow> (blob_error, unit) io" where
  "write_blob sha root hash temporary destination content =
     do_then (wrap BlobIo (create_new temporary)) (\<lambda>_.
     do_then (wrap BlobIo (write_all temporary content)) (\<lambda>_.
     do_then (wrap BlobIo (sync_path temporary)) (\<lambda>_.
     rename_or_reuse sha root hash temporary destination)))"

definition temp_name :: "string \<Rightarrow> string" where
  "temp_name uuid = ''.skillhive-blob-'' @ uuid @ ''.tmp''"

definition store_new :: "sha \<Rightarrow> location \<Rightarrow> string \<Rightarrow> location \<Rightarrow> location \<Rightarrow> string \<Rightarrow> (blob_error, unit) io" where
  "store_new sha root hash temporary destination content =
     do_then (attempt (write_blob sha root hash temporary destination content)) (\<lambda>written. case written of
       Inl e \<Rightarrow> do_then (attempt (remove_file temporary)) (\<lambda>_. raise e)
     | Inr _ \<Rightarrow> give ())"

definition reuse_existing :: "sha \<Rightarrow> location \<Rightarrow> string \<Rightarrow> (blob_error, unit) io" where
  "reuse_existing sha root hash =
     do_then (query BlobIo (verify_blob sha root hash)) (\<lambda>valid.
     if valid then give () else raise (CorruptedExistingBlob hash))"

definition put_at :: "sha \<Rightarrow> location \<Rightarrow> string \<Rightarrow> location \<Rightarrow> location \<Rightarrow> string \<Rightarrow> (blob_error, unit) io" where
  "put_at sha root hash temporary destination content =
     do_then (attempt (metadata destination)) (\<lambda>r. case r of
       Inl e \<Rightarrow> if e = NotFound then store_new sha root hash temporary destination content else raise (BlobIo e)
     | Inr n \<Rightarrow> (case n of Plain _ \<Rightarrow> reuse_existing sha root hash | _ \<Rightarrow> raise (UnsafeStorageEntry destination)))"

definition put_bytes :: "sha \<Rightarrow> location \<Rightarrow> string \<Rightarrow> string \<Rightarrow> (blob_error, blob_ref) io" where
  "put_bytes sha root uuid content =
     do_then (query BlobIo (validate_storage_roots root)) (\<lambda>_.
     let hash = hash_bytes sha content in
     do_then (from_result (path_for_hash root hash)) (\<lambda>destination.
     do_then (ensure_real_directory (butlast destination)) (\<lambda>_.
     do_then (put_at sha root hash (butlast destination @ [temp_name uuid]) destination content) (\<lambda>_.
     give \<lparr>br_hash = hash, br_size_bytes = length content\<rparr>))))"

section \<open>Writing a blob is atomic\<close>

lemma canonical_path:
  assumes "canonical_digest v" shows "path_for_hash root (hash_prefix @ v) = Inr (root @ [''sha256'', take 2 v, v])"
proof -
  have "strip_prefix p (p @ v) = Some v" for p by (induction p) auto
  then show ?thesis using assms by (simp add: path_for_hash_def)
qed

lemma validate_real_directory_Inr: "validate_real_directory p d = Inr u \<longleftrightarrow> is_folder p d"
  by (cases "checked_stat p d")
    (auto simp: validate_real_directory_def map_err_def ensure_Inr_iff is_folder_iff folder_node_iff
      checked_stat_Inr [symmetric])

lemma validate_storage_roots_Inr: "validate_storage_roots root d = Inr u \<longleftrightarrow> is_folder root d \<and> is_folder (root @ [''sha256'']) d"
  by (auto simp: validate_storage_roots_def and_then_Inr_iff validate_real_directory_Inr)

lemma read_blob_Inr:
  "read_blob sha root hash d = Inr c \<longleftrightarrow> is_folder root d \<and> is_folder (root @ [''sha256'']) d
     \<and> (\<exists>p. path_for_hash root hash = Inr p \<and> entry p d = Some (Plain c)) \<and> hash_bytes sha c = hash"
proof -
  have "(case stat p d of Missing \<Rightarrow> Inl (BlobNotFound hash) | Broken \<Rightarrow> Inl (BlobIo NotADirectory)
     | Found (Plain c) \<Rightarrow> (let actual = hash_bytes sha c in if actual \<noteq> hash then Inl (HashMismatch hash actual) else Inr c)
     | Found _ \<Rightarrow> Inl (UnsafeStorageEntry p)) = Inr c \<longleftrightarrow> entry p d = Some (Plain c) \<and> hash_bytes sha c = hash" for p
    by (cases "stat p d"; cases "entry p d") (auto simp: entry_def Let_def split: node.splits)
  then show ?thesis by (auto simp: read_blob_def and_then_Inr_iff validate_storage_roots_Inr)
qed


text \<open>
  The invariant of a write of \<open>content\<close> at \<open>D\<close>: the store's folders stay, no other blob changes, and
  \<open>D\<close> holds what it held or, if it held nothing, all of \<open>content\<close>.
\<close>

definition blob_inv :: "location \<Rightarrow> location \<Rightarrow> string \<Rightarrow> node \<Rightarrow> node \<Rightarrow> bool" where
  "blob_inv root D content d0 d \<longleftrightarrow> is_folder root d \<and> is_folder (root @ [''sha256'']) d
     \<and> (\<forall>h p. path_for_hash root h = Inr p \<longrightarrow> p \<noteq> D \<longrightarrow> entry p d = entry p d0)
     \<and> (entry D d = entry D d0 \<or> entry D d0 = None \<and> entry D d = Some (Plain content))"

lemma path_for_hash_Inr:
  "path_for_hash root h = Inr p \<longleftrightarrow> (\<exists>v. h = hash_prefix @ v \<and> canonical_digest v \<and> p = root @ [''sha256'', take 2 v, v])"
  by (auto simp: path_for_hash_def result_simps strip_prefix_Some canonical_path split: if_splits)

definition shard :: "location \<Rightarrow> string \<Rightarrow> location" where
  "shard root v = root @ [''sha256'', take 2 v]"

lemma temp_not_canonical: "canonical_digest v \<Longrightarrow> temp_name uuid \<noteq> v"
proof
  assume "canonical_digest v" and "temp_name uuid = v"
  then have "is_lower_hexdigit (CHR ''.'')" by (auto simp: canonical_digest_def temp_name_def)
  then show False by (simp add: is_lower_hexdigit_def byte_def)
qed

lemma blob_inv_away:
  assumes v: "canonical_digest v" and inv: "blob_inv root (shard root v @ [v]) content d0 d"
    and away: "tree.away (shard root v @ [temp_name uuid]) d d'"
  shows "blob_inv root (shard root v @ [v]) content d0 d'"
proof -
  have unrel: "unrelated (shard root v @ [temp_name uuid]) (shard root w @ [w])" if "canonical_digest w" for w
    using temp_not_canonical [OF that, of uuid] by (auto simp: shard_def unrelated_def)
  have "strict_prefix root (shard root v @ [temp_name uuid])" "strict_prefix (root @ [''sha256'']) (shard root v @ [temp_name uuid])"
    by (auto simp: shard_def strict_prefix_def)
  then have "is_folder root d'" "is_folder (root @ [''sha256'']) d'"
    using inv tree.away_folder [OF away] by (auto simp: blob_inv_def)
  moreover have "entry p d' = entry p d" if hp: "path_for_hash root h = Inr p" for h p
  proof -
    obtain w where "canonical_digest w" "p = shard root w @ [w]" using hp by (auto simp: path_for_hash_Inr shard_def)
    then show ?thesis using tree.away_entry [OF away] unrel by blast
  qed
  moreover have "path_for_hash root (hash_prefix @ v) = Inr (shard root v @ [v])"
    using canonical_path [OF v] by (simp add: shard_def)
  ultimately show ?thesis using inv by (auto simp: blob_inv_def)
qed

lemma blob_inv_new_shard:
  assumes inv: "blob_inv root (shard root v @ [v]) content d0 d" and q: "prefix q (shard root v)"
    and "is_folder (butlast q) d" and none: "entry q d = None" and "q \<noteq> []"
  shows "blob_inv root (shard root v @ [v]) content d0 (put_entry q (Some (Folder [])) d)"
proof -
  have "\<not> prefix q (root @ [''sha256''])"
    using inv none is_folder_prefix [of "root @ [''sha256'']" d q] by (auto simp: blob_inv_def is_folder_iff)
  then have qs: "q = shard root v" using q by (auto simp: shard_def prefix_Cons prefix_append)
  let ?d = "put_entry q (Some (Folder [])) d" and ?r = "root @ [''sha256'']"
  have split: "shard root v = ?r @ [take 2 v]" by (simp add: shard_def)
  have fold: "is_folder root ?d" "is_folder ?r ?d"
    using inv put_entry_above [of root q d "Some (Folder [])"] put_entry_above [of ?r q d "Some (Folder [])"]
    by (auto simp: blob_inv_def qs shard_def strict_prefix_def)
  have same: "entry (shard root w @ [w]) ?d = entry (shard root w @ [w]) d" for w
  proof (cases "take 2 w = take 2 v")
    case True
    then have w: "shard root w = q" by (simp add: qs shard_def)
    have "entry (q @ [w]) ?d = None"
      using entry_under_new [of ?r d "[w]" "take 2 v"] inv unfolding qs split by (simp add: blob_inv_def)
    then show ?thesis using entry_under_absent [OF none, of "[w]"] w by simp
  next
    case False
    then have "unrelated q (shard root w @ [w])" by (auto simp: qs shard_def unrelated_def)
    then show ?thesis by (rule put_entry_other)
  qed
  have "entry p ?d = entry p d" if "path_for_hash root h = Inr p" for h p
    using that same by (auto simp: path_for_hash_Inr shard_def)
  then show ?thesis using inv fold same [of v] by (auto simp: blob_inv_def)
qed

lemma keeps_ensure_shard: "canonical_digest v \<Longrightarrow> keeps (blob_inv root (shard root v @ [v]) content d0) (ensure_real_directory (shard root v))"
  unfolding ensure_real_directory_def make_real_directory_def sync_real_parent_def
  by (intro keeps_rules keeps_create_dir_all) (auto intro: blob_inv_new_shard)

lemma keeps_temp:
  assumes "canonical_digest v" shows
  "keeps (blob_inv root (shard root v @ [v]) content d0) (create_new (shard root v @ [temp_name uuid]))"
  "keeps (blob_inv root (shard root v @ [v]) content d0) (write_all (shard root v @ [temp_name uuid]) bs)"
  "keeps (blob_inv root (shard root v @ [v]) content d0) (remove_file (shard root v @ [temp_name uuid]))"
  by (rule keeps_confined [OF confined_writes(2)] keeps_confined [OF confined_writes(4)]
      keeps_confined [OF confined_writes(5)]; rule blob_inv_away [OF assms]; assumption)+


lemma wlp_create_new:
  assumes "is_folder r d" and "\<And>d'. d' = put_entry (r @ [x]) (Some (Plain [])) d \<Longrightarrow> Q () d'" and "\<And>e. E e d" and "H d"
  shows "wlp F (create_new (r @ [x])) Q E H d"
  unfolding create_new_def
  using assms(2-4) new_entry_Inr(4) [of "r @ [x]" "Plain []" d] by (auto intro!: wlp_atomic)

lemma wlp_write_all:
  assumes "entry p d = Some (Plain c)" and "\<And>d'. d' = put_entry p (Some (Plain (c @ bs))) d \<Longrightarrow> Q () d'"
    and "\<And>n. E OtherIo (put_entry p (Some (Plain (c @ take n bs))) d)" and "\<And>n. H (put_entry p (Some (Plain (c @ take n bs))) d)"
  shows "wlp F (write_all p bs) Q E H d"
  unfolding write_all_def using assms by (auto intro!: wlp_syscall simp: append_bytes_def)

text \<open>The new blob: after the write it is there, all of it, whatever else happened.\<close>

lemma wlp_write_blob:
  assumes v: "canonical_digest v" and inv: "blob_inv root (shard root v @ [v]) content d0 d"
    and none: "entry (shard root v @ [v]) d = None" and fold: "is_folder (shard root v) d"
  shows "wlp F (write_blob sha root hash (shard root v @ [temp_name uuid]) (shard root v @ [v]) content)
    (\<lambda>_ d'. blob_inv root (shard root v @ [v]) content d0 d' \<and> entry (shard root v @ [v]) d' = Some (Plain content))
    (\<lambda>_. blob_inv root (shard root v @ [v]) content d0) (blob_inv root (shard root v @ [v]) content d0) d"
proof -
  let ?S = "shard root v" let ?T = "?S @ [temp_name uuid]" and ?D = "?S @ [v]"
  let ?I = "blob_inv root ?D content d0"
  let ?ready = "\<lambda>c d'. ?I d' \<and> entry ?T d' = Some (Plain c) \<and> entry ?D d' = None \<and> is_folder ?S d'"
  have ne: "temp_name uuid \<noteq> v" using temp_not_canonical [OF v] .
  have T: "?I (put_entry ?T u d')" if "?I d'" for u d'
    using blob_inv_away [OF v that] tree.away_put by blast
  have ready: "?ready c (put_entry ?T (Some (Plain c)) d')" if "?I d'" "entry ?D d' = None" "is_folder ?S d'" for c d'
    using T [OF that(1)] that put_entry_same [OF that(3)] put_entry_other [of ?T ?D] ne put_entry_above [of ?S ?T]
    by (auto simp: strict_prefix_def)
  have renamed: "wlp F (rename_or_reuse sha root hash ?T ?D) (\<lambda>_ d'. ?I d' \<and> entry ?D d' = Some (Plain content)) (\<lambda>_. ?I) ?I d'"
    if r: "?ready content d'" for d'
  proof -
    have moved: "?I d'' \<and> entry ?D d'' = Some (Plain content)"
      if "d'' = put_entry ?T None (put_entry ?D (Some (Plain content)) d')" for d''
    proof -
      note eff = rename_effect [OF _ ne _ that]
      have D: "entry ?D d'' = Some (Plain content)" and "is_folder ?S d''" using eff r by auto
      have up: "is_folder root d''" "is_folder (root @ [''sha256'']) d''"
        using is_folder_prefix [OF \<open>is_folder ?S d''\<close>] by (auto simp: shard_def)
      have "entry p d'' = entry p d'" if p: "path_for_hash root h = Inr p" "p \<noteq> ?D" for h p
      proof -
        obtain w where w: "canonical_digest w" "p = shard root w @ [w]" using p(1) by (auto simp: path_for_hash_Inr shard_def)
        then have "unrelated ?T p" "unrelated ?D p"
          using p(2) temp_not_canonical [OF w(1), of uuid] by (auto simp: shard_def unrelated_def)
        then show ?thesis using eff(4) r by blast
      qed
      then show ?thesis using r D up by (auto simp: blob_inv_def)
    qed
    show ?thesis unfolding rename_or_reuse_def using r moved
      by (intro wlp_do_then wlp_attempt wlp_rename) (auto intro!: wlp_do_then wlp_attempt wlp_metadata wlp_raise wlp_wrap
          simp: sync_path_def intro: wlp_atomic elim!: checked_thenE)
  qed
  have synced: "wlp F (do_then (wrap BlobIo (sync_path ?T)) (\<lambda>_. rename_or_reuse sha root hash ?T ?D))
      (\<lambda>_ d'. ?I d' \<and> entry ?D d' = Some (Plain content)) (\<lambda>_. ?I) ?I d'" if "?ready content d'" for d'
    using renamed [OF that] that by (intro wlp_do_then wlp_wrap wlp_sync) auto
  have full: "?ready content (put_entry ?T (Some (Plain content)) (put_entry ?T (Some (Plain [])) d))"
    using ready [OF inv none fold] by (intro ready) auto
  have part: "?I (put_entry ?T (Some (Plain bs)) (put_entry ?T (Some (Plain [])) d))" for bs
    using T [OF T [OF inv]] .
  have written: "wlp F (do_then (wrap BlobIo (write_all ?T content)) (\<lambda>_. do_then (wrap BlobIo (sync_path ?T)) (\<lambda>_. rename_or_reuse sha root hash ?T ?D)))
      (\<lambda>_ d'. ?I d' \<and> entry ?D d' = Some (Plain content)) (\<lambda>_. ?I) ?I (put_entry ?T (Some (Plain [])) d)"
    by (rule wlp_do_then, rule wlp_wrap, rule wlp_write_all [where c = "[]"])
      (use synced [OF full] part put_entry_same [OF fold] in auto)
  show ?thesis unfolding write_blob_def
    by (rule wlp_do_then, rule wlp_wrap, rule wlp_create_new [OF fold]) (use written inv in auto)
qed

text \<open>The folders on the way to a blob exist once \<open>ensure_real_directory\<close> returned.\<close>

lemma keeps_sync_real_parent: "keeps P (sync_real_parent p)"
  unfolding sync_real_parent_def by (intro keeps_rules)

lemma wlp_make_real_directory:
  "wlp F (make_real_directory p) (\<lambda>_. is_folder p) (\<lambda>_ _. True) (\<lambda>_. True) d"
  unfolding make_real_directory_def
proof (rule wlp_keeps_seq [where P = "\<lambda>_. True"])
  show "keeps (\<lambda>_. True) (wrap BlobIo (create_dir_all p))" by (intro keeps_rules keeps_create_dir_all) simp
  fix d'
  show "wlp F (do_then (query BlobIo (validate_real_directory p)) (\<lambda>_. sync_real_parent p)) (\<lambda>_. is_folder p) (\<lambda>_ _. True) (\<lambda>_. True) d'"
    by (rule wlp_seq [where R = "\<lambda>_. is_folder p"], rule wlp_query, simp_all add: validate_real_directory_Inr,
        rule wlp_mono [OF keepsD [OF keeps_sync_real_parent]], simp_all)
qed simp_all

lemma wlp_ensure_real_directory:
  assumes "keeps P (ensure_real_directory p)" and "P d"
  shows "wlp F (ensure_real_directory p) (\<lambda>_ d'. P d' \<and> is_folder p d') (\<lambda>_. P) P d"
proof -
  have "wlp F (ensure_real_directory p) (\<lambda>_. is_folder p) (\<lambda>_ _. True) (\<lambda>_. True) d"
    unfolding ensure_real_directory_def
    by (rule wlp_do_then, rule wlp_attempt, rule wlp_metadata)
      (auto intro: wlp_make_real_directory intro!: wlp_raise wlp_give simp: is_folder_iff folder_node_iff)
  from wlp_keeps [OF assms this] show ?thesis by (rule wlp_mono) auto
qed

lemma verify_blob_True:
  "verify_blob sha root hash d = Inr True \<longleftrightarrow> (\<exists>c. read_blob sha root hash d = Inr c)"
proof -
  have "(case stat p d of Missing \<Rightarrow> Inr False | Broken \<Rightarrow> Inl (BlobIo NotADirectory)
     | Found (Plain c) \<Rightarrow> Inr (hash_bytes sha c = hash) | Found _ \<Rightarrow> Inl (UnsafeStorageEntry p)) = Inr True
     \<longleftrightarrow> (\<exists>c. entry p d = Some (Plain c) \<and> hash_bytes sha c = hash)" for p
    by (cases "stat p d") (auto simp: entry_def split: node.splits)
  then show ?thesis by (auto simp: verify_blob_def read_blob_Inr and_then_Inr_iff validate_storage_roots_Inr)
qed

text \<open>One put, however it ends.\<close>

lemma wlp_put_at:
  assumes v: "canonical_digest v" and path: "path_for_hash root hash = Inr (shard root v @ [v])" and hash: "hash_bytes sha content = hash"
    and inv: "blob_inv root (shard root v @ [v]) content d0 d" and fold: "is_folder (shard root v) d"
  shows "wlp F (put_at sha root hash (shard root v @ [temp_name uuid]) (shard root v @ [v]) content)
    (\<lambda>_ d'. blob_inv root (shard root v @ [v]) content d0 d' \<and> (\<exists>c. read_blob sha root hash d' = Inr c))
    (\<lambda>_. blob_inv root (shard root v @ [v]) content d0) (blob_inv root (shard root v @ [v]) content d0) d"
proof -
  let ?D = "shard root v @ [v]" and ?T = "shard root v @ [temp_name uuid]"
  let ?I = "blob_inv root ?D content d0" let ?Q = "\<lambda>_ d'. ?I d' \<and> (\<exists>c. read_blob sha root hash d' = Inr c)"
  have cleanup: "wlp F (do_then (attempt (remove_file ?T)) (\<lambda>_. raise e)) ?Q (\<lambda>_. ?I) ?I d'" if "?I d'" for e d'
    by (rule wlp_keeps_seq [where P = ?I]) (auto intro: keeps_rules keeps_temp [OF v] wlp_raise that)
  have stored: "\<exists>c. read_blob sha root hash d' = Inr c" if "?I d'" "entry ?D d' = Some (Plain content)" for d'
    using that path hash by (auto simp: read_blob_Inr blob_inv_def)
  have "wlp F (store_new sha root hash ?T ?D content) ?Q (\<lambda>_. ?I) ?I d" if "entry ?D d = None"
    unfolding store_new_def
    by (rule wlp_try [OF wlp_write_blob [OF v inv that fold]]) (auto intro: cleanup stored intro!: wlp_give)
  moreover have "wlp F (reuse_existing sha root hash) ?Q (\<lambda>_. ?I) ?I d"
    unfolding reuse_existing_def using inv verify_blob_True [of sha root hash d]
    by (intro wlp_do_then wlp_query) (auto intro!: wlp_give wlp_raise)
  ultimately show ?thesis
    unfolding put_at_def using inv
    by (cases "entry ?D d") (auto intro!: wlp_do_then wlp_attempt wlp_metadata wlp_raise split: node.split)
qed

lemma wlp_put_bytes:
  assumes form: "canonical_digest (sha content)" and D: "path_for_hash root (hash_bytes sha content) = Inr D"
  shows "wlp F (put_bytes sha root uuid content)
    (\<lambda>r d'. blob_inv root D content d d' \<and> r = \<lparr>br_hash = hash_bytes sha content, br_size_bytes = length content\<rparr>
       \<and> (\<exists>c. read_blob sha root (hash_bytes sha content) d' = Inr c))
    (\<lambda>_ d'. d' = d \<or> blob_inv root D content d d') (\<lambda>d'. d' = d \<or> blob_inv root D content d d') d"
proof -
  let ?v = "sha content"
  have Dv: "D = shard root ?v @ [?v]" using D canonical_path [OF form, of root] by (simp add: hash_bytes_def shard_def)
  have inv: "blob_inv root D content d d" if "validate_storage_roots root d = Inr u" for u
    using that by (auto simp: validate_storage_roots_Inr blob_inv_def)
  have "wlp F (do_then (ensure_real_directory (butlast D)) (\<lambda>_.
      do_then (put_at sha root (hash_bytes sha content) (butlast D @ [temp_name uuid]) D content) (\<lambda>_.
      give \<lparr>br_hash = hash_bytes sha content, br_size_bytes = length content\<rparr>)))
    (\<lambda>r d'. blob_inv root D content d d' \<and> r = \<lparr>br_hash = hash_bytes sha content, br_size_bytes = length content\<rparr>
       \<and> (\<exists>c. read_blob sha root (hash_bytes sha content) d' = Inr c))
    (\<lambda>_. blob_inv root D content d) (blob_inv root D content d) d" if "blob_inv root D content d d"
    unfolding Dv butlast_snoc
    by (rule wlp_seq [OF wlp_ensure_real_directory [OF keeps_ensure_shard [OF form]]],
        rule that [unfolded Dv], rule wlp_seq [OF wlp_put_at [OF form D [unfolded Dv] refl]])
      (auto intro: wlp_give)
  note rest = this
  show ?thesis unfolding put_bytes_def Let_def
  proof (rule wlp_do_then, rule wlp_query)
    fix u assume "validate_storage_roots root d = Inr u"
    note ready = inv [OF this]
    show "wlp F (do_then (from_result (path_for_hash root (hash_bytes sha content))) (\<lambda>destination.
       do_then (ensure_real_directory (butlast destination)) (\<lambda>_.
       do_then (put_at sha root (hash_bytes sha content) (butlast destination @ [temp_name uuid]) destination content) (\<lambda>_.
       give \<lparr>br_hash = hash_bytes sha content, br_size_bytes = length content\<rparr>))))
      (\<lambda>r d'. blob_inv root D content d d' \<and> r = \<lparr>br_hash = hash_bytes sha content, br_size_bytes = length content\<rparr>
         \<and> (\<exists>c. read_blob sha root (hash_bytes sha content) d' = Inr c))
      (\<lambda>_ d'. d' = d \<or> blob_inv root D content d d') (\<lambda>d'. d' = d \<or> blob_inv root D content d d') d"
      by (rule wlp_do_then, rule wlp_from_result) (auto simp: D intro: wlp_mono [OF rest [OF ready]])
  qed simp_all
qed


lemma blob_inv_read:
  assumes inv: "blob_inv root D content d d'" and D: "path_for_hash root h0 = Inr D" and root: "is_folder root d" "is_folder (root @ [''sha256'']) d"
  shows "read_blob sha root h d = Inr c \<Longrightarrow> read_blob sha root h d' = Inr c"
    and "read_blob sha root h d' = Inr c \<Longrightarrow> read_blob sha root h d = Inr c \<or> (path_for_hash root h = Inr D \<and> c = content)"
proof -
  assume "read_blob sha root h d = Inr c"
  then obtain p where p: "path_for_hash root h = Inr p" "entry p d = Some (Plain c)" "hash_bytes sha c = h"
    by (auto simp: read_blob_Inr)
  have "entry p d' = Some (Plain c)"
    using inv p by (cases "p = D") (auto simp: blob_inv_def)
  then show "read_blob sha root h d' = Inr c" using inv p by (simp add: read_blob_Inr blob_inv_def)
next
  assume "read_blob sha root h d' = Inr c"
  then obtain p where p: "path_for_hash root h = Inr p" "entry p d' = Some (Plain c)" "hash_bytes sha c = h"
    by (auto simp: read_blob_Inr)
  have "entry p d = Some (Plain c) \<or> p = D \<and> c = content"
    using inv p by (cases "p = D") (auto simp: blob_inv_def)
  then show "read_blob sha root h d = Inr c \<or> (path_for_hash root h = Inr D \<and> c = content)"
    using root p by (auto simp: read_blob_Inr)
qed

text \<open>C25: Writing a blob is atomic and only adds. Whatever system call fails or is the last one the
  process makes, every blob that was readable stays readable with its bytes; the only blob that can
  become readable is the one written, with all of its bytes; and when the write returns, its blob is
  readable under the hash it returned.\<close>

theorem put_bytes_is_atomic:
  assumes form: "canonical_digest (sha content)" and run: "r = put_bytes sha root uuid content \<lparr>disk = d, schedule = s\<rparr>"
  shows "(\<forall>h c. read_blob sha root h d = Inr c \<longrightarrow> read_blob sha root h (run_disk r) = Inr c)
    \<and> (\<forall>h c. read_blob sha root h (run_disk r) = Inr c \<longrightarrow>
         read_blob sha root h d = Inr c \<or> h = hash_bytes sha content \<and> c = content)
    \<and> (\<forall>b w. r = Done b w \<longrightarrow> b = \<lparr>br_hash = hash_bytes sha content, br_size_bytes = length content\<rparr>
         \<and> (\<exists>c. read_blob sha root (br_hash b) (disk w) = Inr c \<and> sha c = sha content))"
proof -
  define D where "D = shard root (sha content) @ [sha content]"
  have path: "path_for_hash root (hash_bytes sha content) = Inr D"
    using canonical_path [OF form] by (simp add: D_def shard_def hash_bytes_def)
  note out = wlp_run [OF wlp_put_bytes [OF form path, of UNIV uuid d] run]
  have end_state: "run_disk r = d \<or> blob_inv root D content d (run_disk r)" using out by (cases r) (auto simp: run_disk_def)
  have only: "h = hash_bytes sha content" if "path_for_hash root h = Inr D" for h
    using that by (auto simp: path_for_hash_Inr D_def shard_def hash_bytes_def)
  have returned: "b = \<lparr>br_hash = hash_bytes sha content, br_size_bytes = length content\<rparr>
      \<and> (\<exists>c. read_blob sha root (br_hash b) (disk w) = Inr c \<and> sha c = sha content)" if "r = Done b w" for b w
    using out that by (auto simp: read_blob_Inr hash_bytes_def)
  show ?thesis
  proof (cases "is_folder root d \<and> is_folder (root @ [''sha256'']) d")
    case True
    then show ?thesis using end_state returned only blob_inv_read [OF _ path] by blast
  next
    case False
    have "validate_storage_roots root d \<noteq> Inr u" for u using False by (simp add: validate_storage_roots_Inr)
    then obtain e where "validate_storage_roots root d = Inl e" by (cases "validate_storage_roots root d") auto
    then have "run_disk r = d"
      using run by (auto simp: put_bytes_def query_def do_then_def wrap_def atomic_def syscall_def from_result_def raise_def
          run_disk_def split: list.splits fault.splits)
    then show ?thesis using returned by simp
  qed
qed

definition sample_sha :: sha where
  "sample_sha b = replicate 63 (CHR ''0'') @ dec (int (length b mod 10))"

definition sample_blobs :: node where
  "sample_blobs = Folder [(''blobs'', Folder [(''sha256'', Folder [])])]"

theorem put_bytes_is_atomic_witness:
  "read_blob sample_sha [''blobs''] (hash_bytes sample_sha ''hi'')
     (run_disk (put_bytes sample_sha [''blobs''] ''u'' ''hi'' \<lparr>disk = sample_blobs, schedule = []\<rparr>)) = Inr ''hi''
   \<and> \<not> is_ok (read_blob sample_sha [''blobs''] (hash_bytes sample_sha ''hi'')
     (run_disk (put_bytes sample_sha [''blobs''] ''u'' ''hi'' \<lparr>disk = sample_blobs, schedule = replicate 8 Go @ [Crash 1]\<rparr>)))"
proof -
  have form: "canonical_digest (sample_sha ''hi'')" by code_simp
  have ok: "case put_bytes sample_sha [''blobs''] ''u'' ''hi'' \<lparr>disk = sample_blobs, schedule = []\<rparr> of
      Done b w \<Rightarrow> True | _ \<Rightarrow> False" by code_simp
  have none: "\<not> is_ok (read_blob sample_sha [''blobs''] (hash_bytes sample_sha ''hi'') sample_blobs)" by code_simp
  then have none: "read_blob sample_sha [''blobs''] (hash_bytes sample_sha ''hi'') sample_blobs \<noteq> Inr c" for c
    by (auto simp: is_ok_def)
  note spec = put_bytes_is_atomic [where sha = sample_sha and content = "''hi''" and root = "[''blobs'']" and uuid = "''u''" and d = sample_blobs and s = "[]", OF form refl]
  have 1: "read_blob sample_sha [''blobs''] (hash_bytes sample_sha ''hi'')
     (run_disk (put_bytes sample_sha [''blobs''] ''u'' ''hi'' \<lparr>disk = sample_blobs, schedule = []\<rparr>)) = Inr ''hi''"
  proof -
    obtain b w where r: "put_bytes sample_sha [''blobs''] ''u'' ''hi'' \<lparr>disk = sample_blobs, schedule = []\<rparr> = Done b w"
      using ok by (auto split: run.splits)
    obtain c where c: "read_blob sample_sha [''blobs''] (hash_bytes sample_sha ''hi'') (disk w) = Inr c"
      using spec unfolding r by auto
    have "read_blob sample_sha [''blobs''] (hash_bytes sample_sha ''hi'') (run_disk (Done b w)) = Inr c" using c by (simp add: run_disk_def)
    from spec [unfolded r, THEN conjunct2, THEN conjunct1, rule_format, OF this] none [of c] have "c = ''hi''" by blast
    then show ?thesis using c unfolding r by (simp add: run_disk_def)
  qed
  have "\<not> is_ok (read_blob sample_sha [''blobs''] (hash_bytes sample_sha ''hi'')
     (run_disk (put_bytes sample_sha [''blobs''] ''u'' ''hi'' \<lparr>disk = sample_blobs, schedule = replicate 8 Go @ [Crash 1]\<rparr>)))"
    by code_simp
  with 1 show ?thesis ..
qed

end
