(* ===== verification/Snapshots.thy ===== *)
theory Snapshots
  imports Portable_Paths Blob_Store "HOL-Library.Multiset" "HOL-Library.Char_ord" "HOL-Library.List_Lexorder"
begin

text \<open>
  \<open>skill_snapshot.rs\<close> and \<open>snapshot_verifier.rs\<close>: a snapshot is a manifest, stored as a blob, that
  lists the files of a skill with their blob, size and portable path. Capturing walks a workspace
  and stores its files, materializing writes a manifest's files below a new directory, verifying
  compares a directory with a manifest. The JSON form of a manifest is an argument (\<open>codec\<close>).
  Sizes are naturals, with the \<open>u64\<close> overflow of the total written out; reading a file twice gives
  the same bytes here, since nothing writes meanwhile.
\<close>

record snapshot_policy =
  max_files :: nat
  max_file_bytes :: nat
  max_total_bytes :: nat

definition default_policy :: snapshot_policy where
  "default_policy = \<lparr>max_files = 10000, max_file_bytes = 64 * 1024 * 1024, max_total_bytes = 512 * 1024 * 1024\<rparr>"

record snapshot_file =
  sf_path :: string
  sf_blob_hash :: string
  sf_size_bytes :: nat

record snapshot_manifest =
  sm_format_version :: nat
  sm_files :: "snapshot_file list"

record snapshot_ref =
  sr_manifest_hash :: string
  sr_file_count :: nat
  sr_total_bytes :: nat

record manifest_codec =
  encode_manifest :: "snapshot_manifest \<Rightarrow> string"
  decode_manifest :: "string \<Rightarrow> string + snapshot_manifest"

datatype snapshot_error =
  SnapIo io_error
| SnapBlob blob_error
| SnapSerialization string
| InvalidWorkspace location
| MissingEntrypoint location
| SymlinkNotAllowed location
| UnsupportedSnapshotFile location
| SnapPath path_error
| TooManyFiles nat
| FileTooLarge location nat nat
| SnapshotTooLarge nat nat
| SizeOverflow
| UnsupportedFormat nat
| ManifestNotStrictlySorted
| InvalidBlobHash string
| DestinationExists location
| InvalidDestination path
| BlobSizeMismatch string nat nat
| UnsafeMaterializationPath location

definition snapshot_format_version :: nat where
  "snapshot_format_version = 1"

definition skill_entrypoint :: string where
  "skill_entrypoint = ''SKILL.md''"

section \<open>Sizes and manifests\<close>

definition enforce_file_size :: "location \<Rightarrow> nat \<Rightarrow> snapshot_policy \<Rightarrow> snapshot_error + unit" where
  "enforce_file_size p n policy = ensure (n \<le> max_file_bytes policy) (FileTooLarge p n (max_file_bytes policy))"

definition add_and_enforce_total :: "nat \<Rightarrow> nat \<Rightarrow> snapshot_policy \<Rightarrow> snapshot_error + nat" where
  "add_and_enforce_total current additional policy =
     (let subtotal = current + additional in
      if 2 ^ 64 \<le> subtotal then Inl SizeOverflow
      else if max_total_bytes policy < subtotal then Inl (SnapshotTooLarge subtotal (max_total_bytes policy))
      else Inr subtotal)"

definition is_canonical_sha256 :: "string \<Rightarrow> bool" where
  "is_canonical_sha256 v = (case strip_prefix ''sha256:'' v of None \<Rightarrow> False | Some digest \<Rightarrow> canonical_digest digest)"

fun validate_files :: "snapshot_policy \<Rightarrow> string option \<Rightarrow> bool \<Rightarrow> nat \<Rightarrow> snapshot_file list \<Rightarrow> snapshot_error + bool" where
  "validate_files policy previous has_entrypoint subtotal [] = Inr has_entrypoint"
| "validate_files policy previous has_entrypoint subtotal (f # fs) =
     and_then (map_err SnapPath (portable_path_to_relative (sf_path f))) (\<lambda>_.
     and_then (ensure (case previous of None \<Rightarrow> True | Some v \<Rightarrow> v < sf_path f) ManifestNotStrictlySorted) (\<lambda>_.
     and_then (ensure (is_canonical_sha256 (sf_blob_hash f)) (InvalidBlobHash (sf_blob_hash f))) (\<lambda>_.
     and_then (enforce_file_size [sf_path f] (sf_size_bytes f) policy) (\<lambda>_.
     and_then (add_and_enforce_total subtotal (sf_size_bytes f) policy) (\<lambda>subtotal'.
     validate_files policy (Some (sf_path f)) (has_entrypoint \<or> sf_path f = skill_entrypoint) subtotal' fs)))))"

definition validate_manifest :: "snapshot_manifest \<Rightarrow> snapshot_policy \<Rightarrow> snapshot_error + unit" where
  "validate_manifest m policy =
     and_then (ensure (length (sm_files m) \<le> max_files policy) (TooManyFiles (max_files policy))) (\<lambda>_.
     and_then (validate_files policy None False 0 (sm_files m)) (\<lambda>has_entrypoint.
     ensure has_entrypoint (MissingEntrypoint [skill_entrypoint])))"

definition read_manifest :: "manifest_codec \<Rightarrow> sha \<Rightarrow> location \<Rightarrow> string \<Rightarrow> snapshot_policy \<Rightarrow> node \<Rightarrow> snapshot_error + snapshot_manifest" where
  "read_manifest codec sha root hash policy d =
     and_then (map_err SnapBlob (read_blob sha root hash d)) (\<lambda>bs.
     and_then (map_err SnapSerialization (decode_manifest codec bs)) (\<lambda>m.
     and_then (ensure (sm_format_version m = snapshot_format_version) (UnsupportedFormat (sm_format_version m))) (\<lambda>_.
     and_then (validate_manifest m policy) (\<lambda>_. Inr m))))"

section \<open>Walking a directory\<close>

text \<open>
  The walk both modules share: entries by name, folders entered, links and special files refused.
  \<open>push\<close> is what the module does with a regular file.
\<close>

lemma size_sort_key [simp]: "size_list f (sort_key k xs) = size_list f xs"
proof -
  have "mset (map f (sort_key k xs)) = mset (map f xs)" by simp
  then have "sum_list (map f (sort_key k xs)) = sum_list (map f xs)" by (metis sum_mset_sum_list)
  then show ?thesis by (simp add: size_list_conv_sum_list)
qed

function (sequential) walk_files ::
  "(location \<Rightarrow> 'e) \<Rightarrow> (location \<Rightarrow> 'e) \<Rightarrow> (location \<Rightarrow> string \<Rightarrow> 'x \<Rightarrow> 'e + 'x) \<Rightarrow> location \<Rightarrow> (string \<times> node) list \<Rightarrow> 'x \<Rightarrow> 'e + 'x" where
  "walk_files link_error other_error push pre [] out = Inr out"
| "walk_files link_error other_error push pre ((x, n) # es) out =
     and_then (case n of
         Link _ \<Rightarrow> Inl (link_error (pre @ [x]))
       | Folder cs \<Rightarrow> walk_files link_error other_error push (pre @ [x]) (sort_key fst cs) out
       | Plain c \<Rightarrow> push (pre @ [x]) c out
       | Other \<Rightarrow> Inl (other_error (pre @ [x])))
       (\<lambda>out'. walk_files link_error other_error push pre es out')"
  by pat_completeness auto
termination by (relation "measure (\<lambda>(_, _, _, _, es, _). size_list (size_prod (\<lambda>_. 0) size) es)") auto

definition push_source :: "snapshot_policy \<Rightarrow> location \<Rightarrow> string \<Rightarrow> (string \<times> location) list \<Rightarrow> snapshot_error + (string \<times> location) list" where
  "push_source policy p c out =
     and_then (enforce_file_size p (length c) policy) (\<lambda>_.
     and_then (ensure (length out < max_files policy) (TooManyFiles (max_files policy))) (\<lambda>_.
     and_then (map_err SnapPath (relative_to_portable_path p)) (\<lambda>v. Inr (out @ [(v, p)]))))"

definition collect_files :: "snapshot_policy \<Rightarrow> (string \<times> node) list \<Rightarrow> snapshot_error + (string \<times> location) list" where
  "collect_files policy es = walk_files SymlinkNotAllowed UnsupportedSnapshotFile (push_source policy) [] (sort_key fst es) []"


section \<open>Capturing a workspace\<close>

definition validate_workspace_root :: "path \<Rightarrow> node \<Rightarrow> snapshot_error + (string \<times> node) list" where
  "validate_workspace_root w d =
     and_then (ensure (is_absolute w) (InvalidWorkspace (locate w))) (\<lambda>_.
     case stat (locate w) d of
       Found (Folder es) \<Rightarrow>
         (case stat (locate w @ [skill_entrypoint]) d of
            Found (Plain _) \<Rightarrow> Inr es
          | _ \<Rightarrow> Inl (MissingEntrypoint (locate w @ [skill_entrypoint])))
     | _ \<Rightarrow> Inl (InvalidWorkspace (locate w)))"

text \<open>The sorted source files of a workspace: portable path and location below the workspace.\<close>

definition workspace_sources :: "path \<Rightarrow> snapshot_policy \<Rightarrow> node \<Rightarrow> snapshot_error + (string \<times> location) list" where
  "workspace_sources w policy d =
     and_then (validate_workspace_root w d) (\<lambda>es.
     and_then (collect_files policy es) (\<lambda>out.
     let sources = sort_key fst out in
     and_then (ensure (list_ex (\<lambda>(v, _). v = skill_entrypoint) sources) (MissingEntrypoint (locate w @ [skill_entrypoint]))) (\<lambda>_.
     Inr sources)))"

definition read_regular_file :: "location \<Rightarrow> nat \<Rightarrow> node \<Rightarrow> snapshot_error + string" where
  "read_regular_file p limit d =
     (case stat p d of
        Found (Plain c) \<Rightarrow> and_then (ensure (length c \<le> limit) (FileTooLarge p (length c) limit)) (\<lambda>_. Inr c)
      | Found _ \<Rightarrow> Inl (UnsupportedSnapshotFile p)
      | Missing \<Rightarrow> Inl (SnapIo NotFound)
      | Broken \<Rightarrow> Inl (SnapIo NotADirectory))"

fun capture_files ::
  "sha \<Rightarrow> location \<Rightarrow> location \<Rightarrow> snapshot_policy \<Rightarrow> (string \<times> location) list \<Rightarrow> string list \<Rightarrow> nat
   \<Rightarrow> (snapshot_error, snapshot_file list \<times> nat) io" where
  "capture_files sha root w policy [] uuids subtotal = give ([], subtotal)"
| "capture_files sha root w policy ((v, p) # sources) uuids subtotal =
     do_then (query SnapIo (read_regular_file (w @ p) (max_file_bytes policy))) (\<lambda>content.
     do_then (from_result (add_and_enforce_total subtotal (length content) policy)) (\<lambda>subtotal'.
     do_then (wrap SnapBlob (put_bytes sha root (hd uuids) content)) (\<lambda>blob.
     do_then (capture_files sha root w policy sources (tl uuids) subtotal') (\<lambda>(files, subtotal'').
     give (\<lparr>sf_path = v, sf_blob_hash = br_hash blob, sf_size_bytes = length content\<rparr> # files, subtotal'')))))"

definition capture_workspace ::
  "manifest_codec \<Rightarrow> sha \<Rightarrow> location \<Rightarrow> path \<Rightarrow> snapshot_policy \<Rightarrow> string list \<Rightarrow> (snapshot_error, snapshot_ref) io" where
  "capture_workspace codec sha root w policy uuids =
     do_then (query SnapIo (workspace_sources w policy)) (\<lambda>sources.
     do_then (capture_files sha root (locate w) policy sources uuids 0) (\<lambda>(files, subtotal).
     let m = \<lparr>sm_format_version = snapshot_format_version, sm_files = files\<rparr> in
     do_then (from_result (validate_manifest m policy)) (\<lambda>_.
     do_then (wrap SnapBlob (put_bytes sha root (last uuids) (encode_manifest codec m))) (\<lambda>blob.
     give \<lparr>sr_manifest_hash = br_hash blob, sr_file_count = length files, sr_total_bytes = subtotal\<rparr>))))"

section \<open>Materializing a snapshot\<close>

fun materialization_parents :: "location \<Rightarrow> string list \<Rightarrow> (snapshot_error, unit) io" where
  "materialization_parents current [] = give ()"
| "materialization_parents current (x # xs) =
     do_then (attempt (metadata (current @ [x]))) (\<lambda>r.
     do_then (case r of
         Inl e \<Rightarrow> if e = NotFound then wrap SnapIo (create_dir (current @ [x])) else raise (SnapIo e)
       | Inr n \<Rightarrow> if folder_node n then give () else raise (UnsafeMaterializationPath (current @ [x]))) (\<lambda>_.
     materialization_parents (current @ [x]) xs))"

definition write_file :: "location \<Rightarrow> string \<Rightarrow> (snapshot_error, unit) io" where
  "write_file p content =
     do_then (wrap SnapIo (create_new p)) (\<lambda>_.
     do_then (wrap SnapIo (write_all p content)) (\<lambda>_. wrap SnapIo (sync_path p)))"

definition materialize_file :: "sha \<Rightarrow> location \<Rightarrow> location \<Rightarrow> snapshot_file \<Rightarrow> (snapshot_error, unit) io" where
  "materialize_file sha root dest f =
     do_then (from_result (map_err SnapPath (portable_path_to_relative (sf_path f)))) (\<lambda>relative.
     do_then (materialization_parents dest (butlast relative)) (\<lambda>_.
     do_then (query SnapIo (\<lambda>d. map_err SnapBlob (read_blob sha root (sf_blob_hash f) d))) (\<lambda>content.
     do_then (from_result (ensure (length content = sf_size_bytes f)
       (BlobSizeMismatch (sf_path f) (sf_size_bytes f) (length content)))) (\<lambda>_.
     write_file (dest @ relative) content))))"

fun materialize_files :: "sha \<Rightarrow> location \<Rightarrow> location \<Rightarrow> snapshot_policy \<Rightarrow> snapshot_file list \<Rightarrow> nat \<Rightarrow> (snapshot_error, nat) io" where
  "materialize_files sha root dest policy [] subtotal = give subtotal"
| "materialize_files sha root dest policy (f # fs) subtotal =
     do_then (materialize_file sha root dest f) (\<lambda>_.
     do_then (from_result (add_and_enforce_total subtotal (sf_size_bytes f) policy)) (\<lambda>subtotal'.
     materialize_files sha root dest policy fs subtotal'))"

text \<open>\<open>sync_tree_directories\<close> only reads and syncs.\<close>

definition sync_tree_directories :: "location \<Rightarrow> (snapshot_error, unit) io" where
  "sync_tree_directories p = wrap SnapIo (sync_path p)"

definition materialize_contents ::
  "sha \<Rightarrow> location \<Rightarrow> string \<Rightarrow> location \<Rightarrow> snapshot_policy \<Rightarrow> snapshot_manifest \<Rightarrow> (snapshot_error, snapshot_ref) io" where
  "materialize_contents sha root hash dest policy m =
     do_then (materialize_files sha root dest policy (sm_files m) 0) (\<lambda>subtotal.
     do_then (sync_tree_directories dest) (\<lambda>_.
     give \<lparr>sr_manifest_hash = hash, sr_file_count = length (sm_files m), sr_total_bytes = subtotal\<rparr>))"

definition materialize_at ::
  "manifest_codec \<Rightarrow> sha \<Rightarrow> location \<Rightarrow> string \<Rightarrow> location \<Rightarrow> snapshot_policy \<Rightarrow> (snapshot_error, snapshot_ref) io" where
  "materialize_at codec sha root hash dest policy =
     do_then (query SnapIo (read_manifest codec sha root hash policy)) (\<lambda>m.
     do_then (wrap SnapIo (create_dir dest)) (\<lambda>_.
     do_then (attempt (materialize_contents sha root hash dest policy m)) (\<lambda>result. case result of
       Inl e \<Rightarrow> do_then (attempt (remove_any dest)) (\<lambda>_. raise e)
     | Inr r \<Rightarrow> give r)))"

definition materialize_snapshot_with_policy ::
  "manifest_codec \<Rightarrow> sha \<Rightarrow> location \<Rightarrow> string \<Rightarrow> path \<Rightarrow> snapshot_policy \<Rightarrow> (snapshot_error, snapshot_ref) io" where
  "materialize_snapshot_with_policy codec sha root hash destination policy =
     do_then (attempt (metadata (locate destination))) (\<lambda>r. case r of
       Inr _ \<Rightarrow> raise (DestinationExists (locate destination))
     | Inl e \<Rightarrow>
         if e \<noteq> NotFound then raise (SnapIo e)
         else if \<not> is_absolute destination then raise (InvalidDestination destination)
         else materialize_at codec sha root hash (locate destination) policy)"

definition materialize_snapshot :: "manifest_codec \<Rightarrow> sha \<Rightarrow> location \<Rightarrow> string \<Rightarrow> path \<Rightarrow> (snapshot_error, snapshot_ref) io" where
  "materialize_snapshot codec sha root hash destination =
     materialize_snapshot_with_policy codec sha root hash destination default_policy"

section \<open>Verifying a directory\<close>

datatype verify_error =
  VerifyIo io_error
| VerifySnapshot snapshot_error
| InvalidRoot location
| LinkNotAllowed location
| UnsupportedDeployedFile location
| VerifyNonUtf8Path location
| InvalidDeployedPath string
| FileSetMismatch nat nat
| PathMismatch string string
| SizeMismatch string nat nat
| VerifyHashMismatch string string string
| VerifySizeOverflow

definition deployed_path :: "location \<Rightarrow> verify_error + string" where
  "deployed_path p =
     and_then (try_map (\<lambda>x. if \<not> valid_utf8 x then Inl (VerifyNonUtf8Path p)
                            else if x = [] then Inl (InvalidDeployedPath (join_with (CHR ''/'') p)) else Inr x) p) (\<lambda>parts.
     if parts = [] then Inl (InvalidDeployedPath []) else Inr (join_with (CHR ''/'') parts))"

definition push_deployed :: "location \<Rightarrow> string \<Rightarrow> (string \<times> string) list \<Rightarrow> verify_error + (string \<times> string) list" where
  "push_deployed p c out = and_then (deployed_path p) (\<lambda>v. Inr (out @ [(v, c)]))"

text \<open>The files below a root, by portable path, with their bytes.\<close>

definition collect_deployed :: "(string \<times> node) list \<Rightarrow> verify_error + (string \<times> string) list" where
  "collect_deployed es =
     and_then (walk_files LinkNotAllowed UnsupportedDeployedFile push_deployed [] (sort_key fst es) []) (\<lambda>out.
     Inr (sort_key fst out))"

fun compare_files :: "sha \<Rightarrow> nat \<Rightarrow> snapshot_file list \<Rightarrow> (string \<times> string) list \<Rightarrow> verify_error + nat" where
  "compare_files sha subtotal (f # fs) ((v, c) # actual) =
     and_then (ensure (sf_path f = v) (PathMismatch (sf_path f) v)) (\<lambda>_.
     and_then (ensure (length c = sf_size_bytes f) (SizeMismatch (sf_path f) (sf_size_bytes f) (length c))) (\<lambda>_.
     and_then (ensure (hash_bytes sha c = sf_blob_hash f) (VerifyHashMismatch (sf_path f) (sf_blob_hash f) (hash_bytes sha c))) (\<lambda>_.
     and_then (ensure (subtotal + sf_size_bytes f < 2 ^ 64) VerifySizeOverflow) (\<lambda>_.
     compare_files sha (subtotal + sf_size_bytes f) fs actual))))"
| "compare_files sha subtotal fs actual = Inr subtotal"

definition verify_tree :: "sha \<Rightarrow> string \<Rightarrow> snapshot_manifest \<Rightarrow> (string \<times> node) list \<Rightarrow> verify_error + snapshot_ref" where
  "verify_tree sha hash m es =
     and_then (collect_deployed es) (\<lambda>actual.
     and_then (ensure (length actual = length (sm_files m)) (FileSetMismatch (length (sm_files m)) (length actual))) (\<lambda>_.
     and_then (compare_files sha 0 (sm_files m) actual) (\<lambda>subtotal.
     Inr \<lparr>sr_manifest_hash = hash, sr_file_count = length (sm_files m), sr_total_bytes = subtotal\<rparr>)))"

definition verify_materialized_snapshot ::
  "manifest_codec \<Rightarrow> sha \<Rightarrow> location \<Rightarrow> string \<Rightarrow> location \<Rightarrow> node \<Rightarrow> verify_error + snapshot_ref" where
  "verify_materialized_snapshot codec sha root hash p d =
     (case stat p d of
        Found (Folder es) \<Rightarrow>
          and_then (map_err VerifySnapshot (read_manifest codec sha root hash default_policy d)) (\<lambda>m. verify_tree sha hash m es)
      | _ \<Rightarrow> Inl (InvalidRoot p))"

end
