(* ===== verification/Snapshot_Properties.thy ===== *)
theory Snapshot_Properties
  imports Snapshots "HOL-Library.Product_Lexorder"
begin

text \<open>
  What the snapshot operations guarantee: verifying is comparing the tree with the manifest, file by
  file, and what materializing leaves verifies.
\<close>

section \<open>The files of a tree\<close>

text \<open>A tree as a file system has it: the names in a folder are distinct, non-empty and without \<open>/\<close>.\<close>

fun wf_node :: "node \<Rightarrow> bool" where
  "wf_node (Folder es) \<longleftrightarrow> distinct (map fst es) \<and> list_all (\<lambda>(x, n). x \<noteq> [] \<and> CHR ''/'' \<notin> set x \<and> wf_node n) es"
| "wf_node _ \<longleftrightarrow> True"

text \<open>No symbolic link and no special file anywhere.\<close>

fun plain_tree :: "node \<Rightarrow> bool" where
  "plain_tree (Folder es) \<longleftrightarrow> list_all (\<lambda>(x, n). plain_tree n) es"
| "plain_tree (Plain c) \<longleftrightarrow> True"
| "plain_tree _ \<longleftrightarrow> False"

definition plain_files :: "node \<Rightarrow> (location \<times> string) set" where
  "plain_files n = {(p, c). entry p n = Some (Plain c)}"

function (sequential) flatten :: "location \<Rightarrow> (string \<times> node) list \<Rightarrow> (location \<times> string) list" where
  "flatten pre [] = []"
| "flatten pre ((x, n) # es) =
     (case n of Plain c \<Rightarrow> [(pre @ [x], c)] | Folder cs \<Rightarrow> flatten (pre @ [x]) (sort_key fst cs) | _ \<Rightarrow> []) @ flatten pre es"
  by pat_completeness auto
termination by (relation "measure (\<lambda>(_, es). size_list (size_prod (\<lambda>_. 0) size) es)") auto

fun fold_push :: "(location \<Rightarrow> string \<Rightarrow> 'x \<Rightarrow> 'e + 'x) \<Rightarrow> (location \<times> string) list \<Rightarrow> 'x \<Rightarrow> 'e + 'x" where
  "fold_push push [] out = Inr out"
| "fold_push push ((p, c) # fs) out = and_then (push p c out) (fold_push push fs)"

lemma fold_push_append: "fold_push push (xs @ ys) out = and_then (fold_push push xs out) (fold_push push ys)"
proof (induction xs arbitrary: out)
  case (Cons x xs)
  then show ?case by (cases x; cases "push (fst x) (snd x) out") auto
qed simp

lemma list_all_sort_key [simp]: "list_all P (sort_key k xs) = list_all P xs"
  by (simp add: list_all_iff)

text \<open>The walk refuses a tree with links or special files and pushes its files in order.\<close>

lemma walk_files_Inr:
  "walk_files le oe push pre es out = Inr out' \<longleftrightarrow> plain_tree (Folder es) \<and> fold_push push (flatten pre es) out = Inr out'"
proof (induction le oe push pre es out arbitrary: out' rule: walk_files.induct)
  case (2 le oe push pre x n es out)
  show ?case
  proof (cases n)
    case (Folder cs)
    then show ?thesis using 2 by (auto simp: and_then_Inr_iff fold_push_append)
  qed (use 2 in \<open>auto simp: and_then_Inr_iff fold_push_append\<close>)
qed simp

lemma distinct_map_sort_key: "distinct (map f (sort_key k xs)) = distinct (map f xs)"
  by (rule mset_eq_imp_distinct_iff) simp

lemma map_of_sort_key: "distinct (map fst es) \<Longrightarrow> map_of (sort_key fst es) = map_of es"
  by (rule map_of_inject_set [THEN iffD2]) (auto simp: distinct_map_sort_key)

lemma wf_sort_key [simp]: "wf_node (Folder (sort_key fst es)) = wf_node (Folder es)"
  by (simp add: distinct_map_sort_key)

lemma entry_sort_key: "distinct (map fst es) \<Longrightarrow> p \<noteq> [] \<Longrightarrow> entry p (Folder (sort_key fst es)) = entry p (Folder es)"
  by (cases p) (simp_all add: map_of_sort_key)

lemma plain_files_sort_key: "distinct (map fst es) \<Longrightarrow> plain_files (Folder (sort_key fst es)) = plain_files (Folder es)"
  using entry_sort_key by (auto simp: plain_files_def) (metis entry_Nil node.distinct(1) option.inject)+

lemma plain_files_Cons:
  assumes "x \<notin> fst ` set es"
  shows "plain_files (Folder ((x, n) # es)) = (\<lambda>(p, c). (x # p, c)) ` plain_files n \<union> plain_files (Folder es)"
proof -
  have "map_of es x = None" using assms by (simp add: map_of_eq_None_iff)
  then have "(q, c) \<in> plain_files (Folder ((x, n) # es)) \<longleftrightarrow> (q, c) \<in> (\<lambda>(p, c). (x # p, c)) ` plain_files n \<union> plain_files (Folder es)" for q c
    by (cases q) (auto simp: plain_files_def image_iff split: if_splits)
  then show ?thesis by auto
qed

lemma set_flatten: "wf_node (Folder es) \<Longrightarrow> set (flatten pre es) = (\<lambda>(p, c). (pre @ p, c)) ` plain_files (Folder es)"
proof (induction pre es rule: flatten.induct)
  case (1 pre)
  then show ?case by (auto simp: plain_files_def) (metis entry_Cons_Folder map_of.simps(1) neq_Nil_conv option.simps(3,4) entry_Nil node.distinct(1) option.inject)
next
  case (2 pre x n es)
  have n: "set (case n of Plain c \<Rightarrow> [(pre @ [x], c)] | Folder cs \<Rightarrow> flatten (pre @ [x]) (sort_key fst cs) | _ \<Rightarrow> [])
      = (\<lambda>(p, c). (pre @ x # p, c)) ` plain_files n"
  proof (cases n)
    case (Folder cs)
    then have wf: "wf_node (Folder cs)" using 2(3) by simp
    then have "wf_node (Folder (sort_key fst cs))" by (simp only: wf_sort_key)
    from 2(1) [OF Folder this] show ?thesis using wf by (simp add: Folder plain_files_sort_key)
  next
    case (Plain c)
    have "plain_files (Plain c) = {([], c)}" by (auto simp: plain_files_def entry_def split: stat_result.splits elim: stat.elims)
    then show ?thesis by (simp add: Plain)
  next
    case (Link l)
    have "plain_files (Link l) = {}" by (auto simp: plain_files_def entry_def split: stat_result.splits elim: stat.elims)
    then show ?thesis by (simp add: Link)
  next
    case Other
    have "plain_files Other = {}" by (auto simp: plain_files_def entry_def split: stat_result.splits elim: stat.elims)
    then show ?thesis by (simp add: Other)
  qed
  have "x \<notin> fst ` set es" using 2(3) by auto
  then show ?case using 2 n by (auto simp: plain_files_Cons image_Un image_image split_beta)
qed


lemma flatten_prefix: "f \<in> set (flatten pre es) \<Longrightarrow> \<exists>x q. x \<in> fst ` set es \<and> fst f = pre @ x # q"
proof (induction pre es rule: flatten.induct)
  case (2 pre x n es)
  consider "f \<in> set (flatten pre es)" | c where "f = (pre @ [x], c)"
    | cs where "n = Folder cs" "f \<in> set (flatten (pre @ [x]) (sort_key fst cs))"
    using 2(3) by (cases n) auto
  then show ?case
  proof cases
    case 1
    then show ?thesis using 2(2) by auto
  next
    case 3
    then show ?thesis using 2(1) by auto
  qed simp
qed simp

lemma distinct_flatten: "wf_node (Folder es) \<Longrightarrow> distinct (map fst (flatten pre es))"
proof (induction pre es rule: flatten.induct)
  case (2 pre x n es)
  have wf: "wf_node (Folder cs)" if "n = Folder cs" for cs using 2(3) that by simp
  have head: "distinct (map fst (case n of Plain c \<Rightarrow> [(pre @ [x], c)] | Folder cs \<Rightarrow> flatten (pre @ [x]) (sort_key fst cs) | _ \<Rightarrow> []))"
  proof (cases n)
    case (Folder cs)
    have "wf_node (Folder (sort_key fst cs))" using wf [OF Folder] by (simp only: wf_sort_key)
    from 2(1) [OF Folder this] show ?thesis by (simp add: Folder)
  qed simp_all
  let ?head = "case n of Plain c \<Rightarrow> [(pre @ [x], c)] | Folder cs \<Rightarrow> flatten (pre @ [x]) (sort_key fst cs) | _ \<Rightarrow> []"
  have inside: "\<exists>q. p = pre @ x # q" if "p \<in> fst ` set (case n of Plain c \<Rightarrow> [(pre @ [x], c)] | Folder cs \<Rightarrow> flatten (pre @ [x]) (sort_key fst cs) | _ \<Rightarrow> [])" for p
    using that by (cases n) (auto dest!: flatten_prefix)
  have outside: "pre @ x # q \<notin> fst ` set (flatten pre es)" for q
  proof
    assume "pre @ x # q \<in> fst ` set (flatten pre es)"
    then obtain f where "f \<in> set (flatten pre es)" "pre @ x # q = fst f" by blast
    with flatten_prefix [OF this(1)] have "x \<in> fst ` set es" by (auto intro: rev_image_eqI)
    then show False using 2(3) by simp
  qed
  have disjoint: "fst ` set ?head \<inter> fst ` set (flatten pre es) = {}"
  proof (rule equals0I)
    fix p assume p: "p \<in> fst ` set ?head \<inter> fst ` set (flatten pre es)"
    from inside [OF IntD1 [OF p]] obtain q where "p = pre @ x # q" ..
    then show False using outside [of q] IntD2 [OF p] by simp
  qed
  have "distinct (map fst (flatten pre es))" using 2(2) 2(3) by simp
  with head disjoint show ?case by (simp only: flatten.simps map_append distinct_append set_map simp_thms)
qed simp

lemma plain_files_nonempty: "(p, c) \<in> plain_files (Folder es) \<Longrightarrow> p \<noteq> []"
  by (auto simp: plain_files_def)

lemma plain_files_segments:
  "wf_node n \<Longrightarrow> (p, c) \<in> plain_files n \<Longrightarrow> \<forall>x \<in> set p. x \<noteq> [] \<and> CHR ''/'' \<notin> set x"
proof (induction p arbitrary: n)
  case (Cons x p)
  then obtain es where es: "n = Folder es" by (cases n) (auto simp: plain_files_def)
  then obtain m where m: "map_of es x = Some m" "(p, c) \<in> plain_files m"
    using Cons.prems(2) by (auto simp: plain_files_def split: option.splits)
  then have "(x, m) \<in> set es" by (simp add: map_of_SomeD)
  then show ?case using Cons.IH [of m] Cons.prems(1) m es by (auto simp: list_all_iff)
qed simp

section \<open>Verifying is comparing\<close>

lemma deployed_path_Inr:
  "deployed_path p = Inr v \<longleftrightarrow> p \<noteq> [] \<and> v = join_with (CHR ''/'') p \<and> (\<forall>x \<in> set p. valid_utf8 x \<and> x \<noteq> [])"
proof -
  have "try_map (\<lambda>x. if \<not> valid_utf8 x then Inl (VerifyNonUtf8Path q) else if x = [] then Inl (InvalidDeployedPath (join_with (CHR ''/'') q)) else Inr x) xs = Inr ys
      \<longleftrightarrow> ys = xs \<and> list_all (\<lambda>x. valid_utf8 x \<and> x \<noteq> []) xs" for q xs ys
    by (rule try_map_checked [where e = "\<lambda>x. if \<not> valid_utf8 x then VerifyNonUtf8Path q else InvalidDeployedPath (join_with (CHR ''/'') q)"])
      (auto simp: valid_utf8_def)
  then show ?thesis unfolding deployed_path_def by (auto simp: and_then_Inr_iff list_all_iff)
qed

lemma fold_push_deployed:
  "fold_push push_deployed fs out = Inr out' \<longleftrightarrow>
     (\<forall>(p, c) \<in> set fs. p \<noteq> [] \<and> (\<forall>x \<in> set p. valid_utf8 x \<and> x \<noteq> []))
     \<and> out' = out @ map (\<lambda>(p, c). (join_with (CHR ''/'') p, c)) fs"
proof (induction fs arbitrary: out)
  case (Cons f fs)
  obtain p c where f: "f = (p, c)" by (cases f)
  have "fold_push push_deployed (f # fs) out = Inr out' \<longleftrightarrow>
      (\<exists>v. deployed_path p = Inr v \<and> fold_push push_deployed fs (out @ [(v, c)]) = Inr out')"
    by (auto simp: f push_deployed_def and_then_Inr_iff)
  then show ?case by (auto simp: Cons.IH deployed_path_Inr f)
qed auto

text \<open>The manifest entry of a file.\<close>

definition file_record :: "sha \<Rightarrow> location \<times> string \<Rightarrow> string \<times> nat \<times> string" where
  "file_record sha = (\<lambda>(p, c). (join_with (CHR ''/'') p, length c, hash_bytes sha c))"

definition manifest_record :: "snapshot_file \<Rightarrow> string \<times> nat \<times> string" where
  "manifest_record f = (sf_path f, sf_size_bytes f, sf_blob_hash f)"

lemma compare_files_Inr:
  assumes "length fs = length actual" and "t + sum_list (map sf_size_bytes fs) < 2 ^ 64"
  shows "(\<exists>u. compare_files sha t fs actual = Inr u) \<longleftrightarrow>
    map manifest_record fs = map (\<lambda>(v, c). (v, length c, hash_bytes sha c)) actual"
  using assms
proof (induction sha t fs actual rule: compare_files.induct)
  case (1 sha t f fs v c actual)
  have "(\<exists>u. compare_files sha t (f # fs) ((v, c) # actual) = Inr u) \<longleftrightarrow>
      sf_path f = v \<and> length c = sf_size_bytes f \<and> hash_bytes sha c = sf_blob_hash f
      \<and> (\<exists>u. compare_files sha (t + sf_size_bytes f) fs actual = Inr u)"
    using 1(3) by (simp add: and_then_Inr_iff ensure_Inr_iff)
  then show ?case using 1 by (auto simp: manifest_record_def)
qed auto

lemma validate_files_Inr:
  assumes "validate_files policy prev e t fs = Inr b"
  shows "sorted_wrt (<) (map sf_path fs) \<and> (\<forall>f \<in> set fs. case prev of None \<Rightarrow> True | Some v \<Rightarrow> v < sf_path f)
    \<and> t + sum_list (map sf_size_bytes fs) < 2 ^ 64 \<or> fs = []"
proof -
  have "fs \<noteq> [] \<Longrightarrow> sorted_wrt (<) (map sf_path fs) \<and> (\<forall>f \<in> set fs. case prev of None \<Rightarrow> True | Some v \<Rightarrow> v < sf_path f)
    \<and> t + sum_list (map sf_size_bytes fs) < 2 ^ 64"
    using assms
  proof (induction fs arbitrary: prev e t)
    case (Cons f fs)
    obtain u where u: "add_and_enforce_total t (sf_size_bytes f) policy = Inr u"
        and rest: "validate_files policy (Some (sf_path f)) (e \<or> sf_path f = skill_entrypoint) u fs = Inr b"
        and less: "case prev of None \<Rightarrow> True | Some v \<Rightarrow> v < sf_path f"
      using Cons.prems(2) by (auto simp: and_then_Inr_iff ensure_Inr_iff)
    have u: "u = t + sf_size_bytes f" "u < 2 ^ 64" using u by (auto simp: add_and_enforce_total_def Let_def split: if_splits)
    show ?case
    proof (cases "fs = []")
      case True
      then show ?thesis using less u by (cases prev) auto
    next
      case False
      from Cons.IH [OF False rest] show ?thesis using less u by (auto split: option.splits)
    qed
  qed simp
  then show ?thesis by blast
qed

lemma read_manifest_sorted:
  assumes "read_manifest codec sha root hash policy d = Inr m"
  shows "sorted_wrt (<) (map sf_path (sm_files m))" and "sum_list (map sf_size_bytes (sm_files m)) < 2 ^ 64"
proof -
  obtain b where "validate_files policy None False 0 (sm_files m) = Inr b"
    using assms by (auto simp: read_manifest_def validate_manifest_def and_then_Inr_iff)
  from validate_files_Inr [OF this] show "sorted_wrt (<) (map sf_path (sm_files m))"
    and "sum_list (map sf_size_bytes (sm_files m)) < 2 ^ 64" by auto
qed


lemma join_inj:
  assumes "join_with d p = join_with d q" and "p \<noteq> []" and "q \<noteq> []" and "\<forall>x \<in> set p. d \<notin> set x" and "\<forall>x \<in> set q. d \<notin> set x"
  shows "p = q"
  using assms split_on_join [of p d] split_on_join [of q d] by metis

text \<open>The collected files of a tree: strictly sorted by path, and exactly its plain files.\<close>

lemma collect_deployed_Inr:
  assumes wf: "wf_node (Folder es)"
  shows "(\<exists>out. collect_deployed es = Inr out) \<longleftrightarrow> plain_tree (Folder es) \<and> (\<forall>(p, c) \<in> plain_files (Folder es). \<forall>x \<in> set p. valid_utf8 x)"
    and "collect_deployed es = Inr out \<Longrightarrow> set out = (\<lambda>(p, c). (join_with (CHR ''/'') p, c)) ` plain_files (Folder es)"
    and "collect_deployed es = Inr out \<Longrightarrow> sorted_wrt (<) (map fst out)"
proof -
  let ?fs = "flatten [] (sort_key fst es)" and ?join = "\<lambda>(p, c). (join_with (CHR ''/'') p, c)"
  have wf': "wf_node (Folder (sort_key fst es))" using wf by (simp only: wf_sort_key)
  have dist: "distinct (map fst es)" using wf by simp
  have set: "set ?fs = plain_files (Folder es)"
    using set_flatten [OF wf', of "[]"] plain_files_sort_key [OF dist] by simp
  have run: "collect_deployed es = Inr out \<longleftrightarrow> plain_tree (Folder es)
      \<and> (\<forall>(p, c) \<in> plain_files (Folder es). p \<noteq> [] \<and> (\<forall>x \<in> set p. valid_utf8 x \<and> x \<noteq> [])) \<and> out = sort_key fst (map ?join ?fs)" for out
    unfolding collect_deployed_def by (auto simp: and_then_Inr_iff walk_files_Inr fold_push_deployed set)
  have ok: "p \<noteq> [] \<and> (\<forall>x \<in> set p. x \<noteq> [] \<and> CHR ''/'' \<notin> set x)" if "(p, c) \<in> plain_files (Folder es)" for p c
    using plain_files_nonempty [OF that] plain_files_segments [OF wf that] by blast
  show "(\<exists>out. collect_deployed es = Inr out) \<longleftrightarrow> plain_tree (Folder es) \<and> (\<forall>(p, c) \<in> plain_files (Folder es). \<forall>x \<in> set p. valid_utf8 x)"
    unfolding run using ok by fastforce
  assume "collect_deployed es = Inr out"
  then have out: "out = sort_key fst (map ?join ?fs)" unfolding run by blast
  show "set out = ?join ` plain_files (Folder es)" by (simp add: out set)
  have "distinct (map fst ?fs)" using distinct_flatten [OF wf'] .
  moreover have "inj_on (join_with (CHR ''/'')) (fst ` set ?fs)"
  proof (rule inj_onI)
    fix p q assume pq: "p \<in> fst ` set ?fs" "q \<in> fst ` set ?fs" "join_with (CHR ''/'') p = join_with (CHR ''/'') q"
    then obtain c c' where "(p, c) \<in> plain_files (Folder es)" "(q, c') \<in> plain_files (Folder es)" unfolding set by auto
    from ok [OF this(1)] ok [OF this(2)] show "p = q" using join_inj [OF pq(3)] by blast
  qed
  ultimately have "distinct (map (join_with (CHR ''/'')) (map fst ?fs))" by (simp only: distinct_map) simp
  moreover have "map fst (map ?join ?fs) = map (join_with (CHR ''/'')) (map fst ?fs)"
    unfolding map_map by (rule map_cong [OF refl]) auto
  ultimately have "distinct (map fst (map ?join ?fs))" by (simp only:)
  then have "distinct (map fst out)" unfolding out distinct_map_sort_key .
  moreover have "sorted (map fst out)" by (simp add: out)
  ultimately show "sorted_wrt (<) (map fst out)" by (simp add: strict_sorted_iff)
qed

lemma strictly_sorted_by_fst_eq:
  fixes xs ys :: "(string \<times> 'b :: linorder) list"
  assumes "sorted_wrt (<) (map fst xs)" and "sorted_wrt (<) (map fst ys)" and "set xs = set ys"
  shows "xs = ys"
proof -
  have "sorted_wrt (<) zs" if "sorted_wrt (<) (map fst zs)" for zs :: "(string \<times> 'b) list"
    using that by (induction zs) (auto simp: less_prod_def)
  then show ?thesis using assms strict_sorted_equal by blast
qed

lemma ex_Inr_conj: "(\<And>x. r = Inr x \<Longrightarrow> P x \<longleftrightarrow> C) \<Longrightarrow> (\<exists>x. r = Inr x \<and> P x) \<longleftrightarrow> (\<exists>x. r = Inr x) \<and> C"
  by blast

lemma verify_iff:
  assumes p: "entry p d = Some (Folder es)" and wf: "wf_node (Folder es)"
    and m: "read_manifest codec sha root hash default_policy d = Inr m"
  shows "(\<exists>r. verify_materialized_snapshot codec sha root hash p d = Inr r) \<longleftrightarrow>
    plain_tree (Folder es) \<and> (\<forall>(q, c) \<in> plain_files (Folder es). \<forall>x \<in> set q. valid_utf8 x)
    \<and> manifest_record ` set (sm_files m) = file_record sha ` plain_files (Folder es)"
proof -
  let ?rec = "\<lambda>(v, c). (v, length c, hash_bytes sha c)"
  have run: "(\<exists>r. verify_materialized_snapshot codec sha root hash p d = Inr r) \<longleftrightarrow>
      (\<exists>out. collect_deployed es = Inr out \<and> length out = length (sm_files m) \<and> (\<exists>u. compare_files sha 0 (sm_files m) out = Inr u))"
    using p m by (auto simp: verify_materialized_snapshot_def stat_Found [symmetric] verify_tree_def map_err_def and_then_Inr_iff ensure_Inr_iff)
  have "length out = length (sm_files m) \<and> (\<exists>u. compare_files sha 0 (sm_files m) out = Inr u)
      \<longleftrightarrow> manifest_record ` set (sm_files m) = file_record sha ` plain_files (Folder es)"
    if out: "collect_deployed es = Inr out" for out
  proof -
    note o = collect_deployed_Inr(2,3) [OF wf out]
    have img: "?rec ` set out = file_record sha ` plain_files (Folder es)"
      by (auto simp: o(1) file_record_def image_image split_beta)
    have "map fst (map manifest_record (sm_files m)) = map sf_path (sm_files m)" "map fst (map ?rec out) = map fst out"
      by (simp_all add: manifest_record_def split_beta)
    then have "sorted_wrt (<) (map fst (map manifest_record (sm_files m)))" "sorted_wrt (<) (map fst (map ?rec out))"
      using read_manifest_sorted(1) [OF m] o(2) by presburger+
    from strictly_sorted_by_fst_eq [OF this]
    have "map manifest_record (sm_files m) = map ?rec out \<longleftrightarrow> set (map manifest_record (sm_files m)) = set (map ?rec out)"
      by (intro iffI) (simp only:, blast)
    then have eq: "map manifest_record (sm_files m) = map ?rec out \<longleftrightarrow>
        manifest_record ` set (sm_files m) = file_record sha ` plain_files (Folder es)" using img by simp
    have len: "map manifest_record (sm_files m) = map ?rec out \<Longrightarrow> length out = length (sm_files m)"
      by (drule arg_cong [where f = length]) simp
    show ?thesis
    proof (cases "length (sm_files m) = length out")
      case True
      have "(\<exists>u. compare_files sha 0 (sm_files m) out = Inr u) \<longleftrightarrow> map manifest_record (sm_files m) = map ?rec out"
        by (rule compare_files_Inr [OF True]) (use read_manifest_sorted(2) [OF m] in simp)
      then show ?thesis unfolding eq using True [symmetric] by blast
    next
      case False
      then show ?thesis using len eq by auto
    qed
  qed
  note files = this
  show ?thesis unfolding run
    by (subst ex_Inr_conj, rule files, assumption, subst collect_deployed_Inr(1) [OF wf], simp only: conj_assoc)
qed

text \<open>C24: Verification is exact: it accepts a directory just when the directory holds no link and no
  special file, its paths are UTF-8, and its files are, by path, size and digest, the files of the
  manifest: none missing, none extra, none changed.\<close>

theorem verification_is_exact:
  assumes p: "entry p d = Some (Folder es)" and wf: "wf_node (Folder es)"
    and m: "read_manifest codec sha root hash default_policy d = Inr m"
  shows "(\<exists>r. verify_materialized_snapshot codec sha root hash p d = Inr r) \<longleftrightarrow>
    plain_tree (Folder es) \<and> (\<forall>(q, c) \<in> plain_files (Folder es). \<forall>x \<in> set q. valid_utf8 x)
    \<and> manifest_record ` set (sm_files m) = file_record sha ` plain_files (Folder es)"
  by (rule verify_iff [OF assms])

end
