(* ===== verification/Materialize.thy ===== *)
theory Materialize
  imports Snapshot_Properties "HOL-Library.Code_Target_Nat"
begin

text \<open>
  What a materialization leaves on the disk: it writes below its destination only, and when it
  returns, the verification of the destination succeeds with the same result.
\<close>

section \<open>Updates below a folder\<close>

lemma entry_put_below:
  "entry p d = Some n \<Longrightarrow> r \<noteq> [] \<Longrightarrow> entry p (put_entry (p @ r) v d) = Some (put_entry r v n)"
proof (induction p arbitrary: d)
  case (Cons x p)
  then show ?case by (cases d) (auto simp: update_conv' split: option.splits)
qed simp

definition good_name :: "string \<Rightarrow> bool" where
  "good_name x \<longleftrightarrow> x \<noteq> [] \<and> CHR ''/'' \<notin> set x"

lemma wf_update:
  "distinct (map fst es) \<Longrightarrow> list_all (\<lambda>(x, n). good_name x \<and> P n) es \<Longrightarrow> good_name y \<Longrightarrow> P m \<Longrightarrow>
   distinct (map fst (AList.update y m es)) \<and> list_all (\<lambda>(x, n). good_name x \<and> P n) (AList.update y m es)"
  by (induction es) (auto simp: dom_update)

lemma wf_node_Folder: "wf_node (Folder es) \<longleftrightarrow> distinct (map fst es) \<and> list_all (\<lambda>(x, n). good_name x \<and> wf_node n) es"
  by (simp add: good_name_def case_prod_unfold conj_assoc)

lemma wf_put_entry:
  "wf_node n \<Longrightarrow> wf_node m \<Longrightarrow> list_all good_name r \<Longrightarrow> wf_node (put_entry r (Some m) n)"
proof (induction r "Some m" n rule: put_entry.induct)
  case (2 x xs es)
  have m': "wf_node k" if "map_of es x = Some k" for k
    using map_of_SomeD [OF that] 2(2) by (auto simp: wf_node_Folder list_all_iff)
  show ?case
  proof (cases "xs = []")
    case True
    then show ?thesis using 2(2-4) wf_update [of es wf_node x m] by (simp add: wf_node_Folder del: wf_node.simps)
  next
    case False
    then show ?thesis using 2 m' wf_update [of es wf_node x]
      by (auto simp: wf_node_Folder simp del: wf_node.simps split: option.splits)
  qed
qed auto

lemma plain_update: "list_all (\<lambda>(x, n). plain_tree n) es \<Longrightarrow> plain_tree m \<Longrightarrow> list_all (\<lambda>(x, n). plain_tree n) (AList.update y m es)"
  by (induction es) auto

lemma plain_put_entry: "plain_tree n \<Longrightarrow> plain_tree m \<Longrightarrow> plain_tree (put_entry r (Some m) n)"
proof (induction r "Some m" n rule: put_entry.induct)
  case (2 x xs es)
  have "plain_tree k" if "map_of es x = Some k" for k
    using map_of_SomeD [OF that] 2(2) by (auto simp: list_all_iff)
  then show ?case using 2 by (auto simp: plain_update split: option.splits)
qed auto

lemma plain_files_iff: "(q, c) \<in> plain_files n \<longleftrightarrow> entry q n = Some (Plain c)"
  by (simp add: plain_files_def)

lemma prefix_cases: "q = r \<or> unrelated q r \<or> strict_prefix q r \<or> (\<exists>t. t \<noteq> [] \<and> q = r @ t)"
  by (auto simp: unrelated_def strict_prefix_def prefix_def)

lemma not_plain_above: "is_folder r n \<Longrightarrow> prefix q r \<Longrightarrow> entry q n \<noteq> Some (Plain c)"
  using is_folder_prefix [of r n q] by (auto simp: is_folder_iff)

lemma plain_files_put:
  assumes fold: "is_folder r n" and leaf: "\<And>es. entry (r @ [x]) n \<noteq> Some (Folder es)"
  shows "plain_files (put_entry (r @ [x]) (Some (Plain c)) n) = insert (r @ [x], c) {(q, b) \<in> plain_files n. q \<noteq> r @ [x]}"
    and "entry (r @ [x]) n = None \<Longrightarrow> plain_files (put_entry (r @ [x]) (Some (Folder [])) n) = plain_files n"
proof -
  let ?p = "r @ [x]"
  have same: "entry q (put_entry ?p v n) = Some (Plain b) \<longleftrightarrow> entry q n = Some (Plain b)"
    if "unrelated q ?p \<or> strict_prefix q ?p" for q v b
    using that
  proof
    assume "unrelated q ?p"
    then show ?thesis using put_entry_other [of ?p q] by (simp add: unrelated_sym)
  next
    assume q: "strict_prefix q ?p"
    then have "prefix q r" by (auto simp: strict_prefix_def)
    then have "is_folder q n" using is_folder_prefix [OF fold] by blast
    then show ?thesis using put_entry_above [OF q, of n v] by (auto simp: is_folder_iff)
  qed
  have under: "entry (?p @ t) n \<noteq> Some (Plain b)" if "t \<noteq> []" for t b
  proof (cases "entry ?p n")
    case (Some m)
    then have "entry (?p @ t) n = entry t m" using entry_append [of ?p t n] by simp
    then show ?thesis using Some leaf that by (cases m; cases t) auto
  qed (use entry_under_absent [of ?p n t] in simp)
  have put: "entry ?p (put_entry ?p v n) = v" for v by (rule put_entry_same [OF fold])
  show "plain_files (put_entry ?p (Some (Plain c)) n) = insert (?p, c) {(q, b) \<in> plain_files n. q \<noteq> ?p}"
  proof (rule set_eqI, clarify)
    fix q b
    have below: "entry (?p @ t) (put_entry ?p (Some (Plain c)) n) \<noteq> Some (Plain b)" if "t \<noteq> []" for t b
      using put [of "Some (Plain c)"] that entry_append [of ?p t "put_entry ?p (Some (Plain c)) n"] by (cases t) auto
    show "(q, b) \<in> plain_files (put_entry ?p (Some (Plain c)) n) \<longleftrightarrow> (q, b) \<in> insert (?p, c) {(q, b) \<in> plain_files n. q \<noteq> ?p}"
      using prefix_cases [of q ?p]
    proof (elim disjE exE conjE)
      assume "q = ?p"
      then show ?thesis using put [of "Some (Plain c)"] by (auto simp: plain_files_iff)
    next
      assume "unrelated q ?p"
      then show ?thesis using same [of q] by (auto simp: plain_files_iff unrelated_def)
    next
      assume "strict_prefix q ?p"
      then show ?thesis using same [of q] by (auto simp: plain_files_iff strict_prefix_def)
    next
      fix t assume "t \<noteq> []" and "q = ?p @ t"
      then show ?thesis using under [of t b] below [of t b] by (simp add: plain_files_iff)
    qed
  qed
  show "plain_files (put_entry ?p (Some (Folder [])) n) = plain_files n" if none: "entry ?p n = None"
  proof (rule set_eqI, clarify)
    fix q b
    have below: "entry (?p @ t) (put_entry ?p (Some (Folder [])) n) \<noteq> Some (Plain b)" for t b
      using put [of "Some (Folder [])"] entry_append [of ?p t "put_entry ?p (Some (Folder [])) n"] by (cases t) auto
    show "(q, b) \<in> plain_files (put_entry ?p (Some (Folder [])) n) \<longleftrightarrow> (q, b) \<in> plain_files n"
      using prefix_cases [of q ?p]
    proof (elim disjE exE conjE)
      assume "q = ?p"
      then show ?thesis using none put [of "Some (Folder [])"] by (auto simp: plain_files_iff)
    next
      assume "unrelated q ?p"
      then show ?thesis using same [of q] by (auto simp: plain_files_iff unrelated_def)
    next
      assume "strict_prefix q ?p"
      then show ?thesis using same [of q] by (auto simp: plain_files_iff strict_prefix_def)
    next
      fix t assume "t \<noteq> []" and "q = ?p @ t"
      then show ?thesis using under [of t b] below [of t b] by (simp add: plain_files_iff)
    qed
  qed
qed


section \<open>The files written so far\<close>

text \<open>
  \<open>written dest d0 S d\<close>: outside \<open>dest\<close> the disk is as it was, and below it lies a plain, well-formed
  tree with exactly the files \<open>S\<close>.
\<close>

definition written :: "location \<Rightarrow> node \<Rightarrow> (location \<times> string) set \<Rightarrow> node \<Rightarrow> bool" where
  "written dest d0 S d \<longleftrightarrow> tree.away dest d0 d
     \<and> (\<exists>n. entry dest d = Some n \<and> folder_node n \<and> wf_node n \<and> plain_tree n \<and> plain_files n = S)"

lemma below_folder: "entry dest d = Some n \<Longrightarrow> is_folder (dest @ r) d \<longleftrightarrow> is_folder r n"
  by (simp add: is_folder_def entry_append)

lemma below_entry: "entry dest d = Some n \<Longrightarrow> entry (dest @ r) d = entry r n"
  by (simp add: entry_append)

lemma folder_put: "folder_node n \<Longrightarrow> r \<noteq> [] \<Longrightarrow> folder_node (put_entry r v n)"
  by (cases r; cases n) (auto simp: folder_node_def split: option.splits)

lemma written_put:
  assumes w: "written dest d0 S d" and r: "r = s @ [x]" "list_all good_name r"
    and fold: "is_folder (dest @ s) d" and m: "wf_node m" "plain_tree m"
    and files: "\<And>n. entry dest d = Some n \<Longrightarrow> is_folder s n \<Longrightarrow> plain_files n = S \<Longrightarrow> plain_files (put_entry r (Some m) n) = S'"
  shows "written dest d0 S' (put_entry (dest @ r) (Some m) d)"
proof -
  obtain n where n: "entry dest d = Some n" "folder_node n" "wf_node n" "plain_tree n" "plain_files n = S"
    using w by (auto simp: written_def)
  have "r \<noteq> []" using r by simp
  have "is_folder s n" using fold below_folder [OF n(1)] by simp
  then have "plain_files (put_entry r (Some m) n) = S'" using files n(1,5) by blast
  moreover have "tree.away dest d0 (put_entry (dest @ r) (Some m) d)"
    using w tree.away_inside [OF tree.away_put] by (auto simp: written_def intro: tree.away_trans)
  ultimately show ?thesis
    using entry_put_below [OF n(1) \<open>r \<noteq> []\<close>] n(2-4) m r(2) wf_put_entry plain_put_entry folder_put [OF n(2) \<open>r \<noteq> []\<close>]
    unfolding written_def by blast
qed

lemma written_new_folder:
  assumes "written dest d0 S d" and "list_all good_name (s @ [x])" and "is_folder (dest @ s) d" and none: "entry (dest @ s @ [x]) d = None"
  shows "written dest d0 S (put_entry (dest @ s @ [x]) (Some (Folder [])) d)"
  using assms(1-3) none
  by (intro written_put [where s = s and x = x]) (auto simp: below_entry plain_files_put(2))

lemma written_file:
  assumes "written dest d0 S d" and "list_all good_name (s @ [x])" and "is_folder (dest @ s) d"
    and leaf: "\<And>es. entry (dest @ s @ [x]) d \<noteq> Some (Folder es)"
  shows "written dest d0 (insert (s @ [x], c) {(q, b) \<in> S. q \<noteq> s @ [x]}) (put_entry (dest @ s @ [x]) (Some (Plain c)) d)"
  using assms(1-3) leaf
  by (intro written_put [where s = s and x = x]) (auto simp: below_entry plain_files_put(1))

text \<open>Making the parents of a file, and writing it.\<close>

lemma wlp_parents:
  "written dest d0 S d \<Longrightarrow> list_all good_name (s @ xs) \<Longrightarrow> is_folder (dest @ s) d \<Longrightarrow>
   wlp F (materialization_parents (dest @ s) xs) (\<lambda>_ d'. written dest d0 S d' \<and> is_folder (dest @ s @ xs) d') (\<lambda>_ _. True) (\<lambda>_. True) d"
proof (induction xs arbitrary: s d)
  case Nil
  then show ?case by (auto intro!: wlp_give)
next
  case (Cons x xs)
  let ?p = "dest @ s @ [x]"
  have rest: "wlp F (materialization_parents ?p xs) (\<lambda>_ d'. written dest d0 S d' \<and> is_folder (dest @ s @ x # xs) d') (\<lambda>_ _. True) (\<lambda>_. True) d'"
    if "written dest d0 S d'" "is_folder ?p d'" for d'
    using Cons.IH [of d' "s @ [x]"] that Cons.prems(2) by simp
  have make: "wlp F (wrap SnapIo (create_dir ?p)) (\<lambda>_ d'. written dest d0 S d' \<and> is_folder ?p d') (\<lambda>_ _. True) (\<lambda>_. True) d"
    unfolding create_dir_def
  proof (rule wlp_wrap, rule wlp_atomic)
    fix d' a assume "new_entry ?p (Folder []) d = Inr (d', a)"
    note new = new_entry_Inr [OF this]
    then show "written dest d0 S d' \<and> is_folder ?p d'"
      using written_new_folder [OF Cons.prems(1) _ Cons.prems(3), of x] Cons.prems(2) by (simp add: is_folder_iff)
  qed simp_all
  show ?case unfolding materialization_parents.simps append_assoc
  proof (rule wlp_do_then, rule wlp_attempt, rule wlp_metadata)
    fix n assume "entry ?p d = Some n"
    then show "wlp F (do_then (case Inr n of
         Inl e \<Rightarrow> if e = NotFound then wrap SnapIo (create_dir ?p) else raise (SnapIo e)
       | Inr n \<Rightarrow> if folder_node n then give () else raise (UnsafeMaterializationPath ?p)) (\<lambda>_. materialization_parents ?p xs))
      (\<lambda>_ d'. written dest d0 S d' \<and> is_folder (dest @ s @ x # xs) d') (\<lambda>_ _. True) (\<lambda>_. True) d"
      using rest [OF Cons.prems(1)] by (auto intro!: wlp_do_then wlp_give wlp_raise simp: is_folder_iff folder_node_iff)
  next
    fix e
    show "wlp F (do_then (case Inl e of
         Inl e \<Rightarrow> if e = NotFound then wrap SnapIo (create_dir ?p) else raise (SnapIo e)
       | Inr n \<Rightarrow> if folder_node n then give () else raise (UnsafeMaterializationPath ?p)) (\<lambda>_. materialization_parents ?p xs))
      (\<lambda>_ d'. written dest d0 S d' \<and> is_folder (dest @ s @ x # xs) d') (\<lambda>_ _. True) (\<lambda>_. True) d"
    proof (cases "e = NotFound")
      case True
      then show ?thesis using rest by (auto intro: wlp_seq [OF make])
    qed (auto intro!: wlp_do_then wlp_raise)
  qed (auto intro!: wlp_do_then wlp_raise)
qed

lemma wlp_write_file:
  assumes w: "written dest d0 S d" and good: "list_all good_name (s @ [x])" and fold: "is_folder (dest @ s) d"
  shows "wlp F (write_file (dest @ s @ [x]) c) (\<lambda>_ d'. written dest d0 (insert (s @ [x], c) S) d') (\<lambda>_ _. True) (\<lambda>_. True) d"
proof -
  let ?p = "dest @ s @ [x]"
  have "written dest d0 (insert (s @ [x], c) S) (put_entry ?p (Some (Plain c)) (put_entry ?p (Some (Plain [])) d))"
    if none: "entry ?p d = None"
  proof -
    let ?d = "put_entry ?p (Some (Plain [])) d"
    have S: "{(q, b) \<in> S. q \<noteq> s @ [x]} = S"
      using w none by (auto simp: written_def plain_files_def below_entry)
    have "written dest d0 (insert (s @ [x], []) S) ?d"
      using written_file [OF w good fold, of "[]"] none S by simp
    moreover have "is_folder (dest @ s) ?d" using put_entry_above [of "dest @ s" ?p] fold by (simp add: strict_prefix_def)
    moreover have "entry ?p ?d = Some (Plain [])" using put_entry_same [of "dest @ s" d x] fold by simp
    ultimately have "written dest d0 (insert (s @ [x], c) {(q, b) \<in> insert (s @ [x], []) S. q \<noteq> s @ [x]}) (put_entry ?p (Some (Plain c)) ?d)"
      using good by (intro written_file) auto
    moreover have "{(q, b) \<in> insert (s @ [x], []) S. q \<noteq> s @ [x]} = S" using S by blast
    ultimately show ?thesis by simp
  qed
  then have final: "wlp F (do_then (wrap SnapIo (write_all ?p c)) (\<lambda>_. wrap SnapIo (sync_path ?p)))
      (\<lambda>_ d'. written dest d0 (insert (s @ [x], c) S) d') (\<lambda>_ _. True) (\<lambda>_. True) (put_entry ?p (Some (Plain [])) d)"
    if "entry ?p d = None"
    using that put_entry_same [of "dest @ s" d x] fold
    by (intro wlp_do_then wlp_wrap wlp_write_all [where c = "[]"] wlp_sync) auto
  show ?thesis unfolding write_file_def create_new_def
  proof (rule wlp_do_then, rule wlp_wrap, rule wlp_atomic)
    fix d' and a :: unit assume "new_entry ?p (Plain []) d = Inr (d', a)"
    from new_entry_Inr [OF this] final show "wlp F (do_then (wrap SnapIo (write_all ?p c)) (\<lambda>_. wrap SnapIo (sync_path ?p)))
      (\<lambda>_ d'. written dest d0 (insert (s @ [x], c) S) d') (\<lambda>_ _. True) (\<lambda>_. True) d'" by simp
  qed simp_all
qed


section \<open>Materializing all files\<close>

text \<open>What is assumed of the JSON reader: the strings it returns are UTF-8.\<close>

definition utf8_codec :: "manifest_codec \<Rightarrow> bool" where
  "utf8_codec codec \<longleftrightarrow> (\<forall>bs m. decode_manifest codec bs = Inr m \<longrightarrow>
     (\<forall>f \<in> set (sm_files m). list_all valid_utf8 (split_on (CHR ''/'') (sf_path f))))"

definition utf8_files :: "(location \<times> string) set \<Rightarrow> bool" where
  "utf8_files S \<longleftrightarrow> (\<forall>(q, c) \<in> S. \<forall>x \<in> set q. valid_utf8 x)"

lemma wlp_materialize_file:
  assumes w: "written dest d0 S d" and utf8: "list_all valid_utf8 (split_on (CHR ''/'') (sf_path f))"
  shows "wlp F (materialize_file sha root dest f)
    (\<lambda>_ d'. \<exists>q c. written dest d0 (insert (q, c) S) d' \<and> file_record sha (q, c) = manifest_record f \<and> list_all valid_utf8 q)
    (\<lambda>_ _. True) (\<lambda>_. True) d"
  unfolding materialize_file_def
proof (rule wlp_do_then, rule wlp_from_result)
  fix rel assume "map_err SnapPath (portable_path_to_relative (sf_path f)) = Inr rel"
  then have rel: "portable_path_to_relative (sf_path f) = Inr rel" by (auto simp: map_err_def split: sum.splits)
  then have parts: "rel = split_on (CHR ''/'') (sf_path f)" "list_all portable_segment rel"
    by (auto simp: portable_path_to_relative_Inr)
  obtain s x where sx: "rel = s @ [x]" using parts(1) by (metis rev_exhaust split_on_not_Nil)
  have good: "list_all good_name (s @ [x])"
    using parts split_on_no_sep by (auto simp: sx [symmetric] list_all_iff good_name_def portable_segment_def)
  have path: "join_with (CHR ''/'') (s @ [x]) = sf_path f" using parts(1) join_split_on sx by metis
  have top: "is_folder dest d" using w by (auto simp: written_def is_folder_iff folder_node_iff)
  have writes: "wlp F (write_file (dest @ rel) c)
      (\<lambda>_ d'. \<exists>q c. written dest d0 (insert (q, c) S) d' \<and> file_record sha (q, c) = manifest_record f \<and> list_all valid_utf8 q)
      (\<lambda>_ _. True) (\<lambda>_. True) d'"
    if "written dest d0 S d'" "is_folder (dest @ s) d'" "length c = sf_size_bytes f" "hash_bytes sha c = sf_blob_hash f" for c d'
  proof -
    have "file_record sha (s @ [x], c) = manifest_record f" "list_all valid_utf8 (s @ [x])"
      using that(3,4) path utf8 parts(1) sx by (auto simp: file_record_def manifest_record_def)
    note fits = this
    show ?thesis unfolding sx
    proof (rule wlp_mono [OF wlp_write_file [OF that(1) good that(2)]])
      fix u :: unit and d'' assume "written dest d0 (insert (s @ [x], c) S) d''"
      then show "\<exists>q c. written dest d0 (insert (q, c) S) d'' \<and> file_record sha (q, c) = manifest_record f \<and> list_all valid_utf8 q"
        using fits by blast
    qed simp_all
  qed
  show "wlp F (do_then (materialization_parents dest (butlast rel)) (\<lambda>_.
     do_then (query SnapIo (\<lambda>d. map_err SnapBlob (read_blob sha root (sf_blob_hash f) d))) (\<lambda>content.
     do_then (from_result (ensure (length content = sf_size_bytes f) (BlobSizeMismatch (sf_path f) (sf_size_bytes f) (length content)))) (\<lambda>_.
     write_file (dest @ rel) content))))
    (\<lambda>_ d'. \<exists>q c. written dest d0 (insert (q, c) S) d' \<and> file_record sha (q, c) = manifest_record f \<and> list_all valid_utf8 q)
    (\<lambda>_ _. True) (\<lambda>_. True) d"
  proof (rule wlp_seq)
    show "wlp F (materialization_parents dest (butlast rel)) (\<lambda>_ d'. written dest d0 S d' \<and> is_folder (dest @ s) d') (\<lambda>_ _. True) (\<lambda>_. True) d"
      using wlp_parents [OF w, of "[]" s F] good top sx by simp
    fix u :: unit and d' assume d': "written dest d0 S d' \<and> is_folder (dest @ s) d'"
    show "wlp F (do_then (query SnapIo (\<lambda>d. map_err SnapBlob (read_blob sha root (sf_blob_hash f) d))) (\<lambda>content.
       do_then (from_result (ensure (length content = sf_size_bytes f) (BlobSizeMismatch (sf_path f) (sf_size_bytes f) (length content)))) (\<lambda>_.
       write_file (dest @ rel) content)))
      (\<lambda>_ d'. \<exists>q c. written dest d0 (insert (q, c) S) d' \<and> file_record sha (q, c) = manifest_record f \<and> list_all valid_utf8 q)
      (\<lambda>_ _. True) (\<lambda>_. True) d'"
      using d' by (intro wlp_do_then wlp_query wlp_from_result)
        (auto simp: map_err_def ensure_Inr_iff read_blob_Inr split: sum.splits intro!: writes)
  qed simp_all
qed simp

lemma wlp_materialize_files:
  "written dest d0 S d \<Longrightarrow> utf8_files S \<Longrightarrow> \<forall>f \<in> set fs. list_all valid_utf8 (split_on (CHR ''/'') (sf_path f)) \<Longrightarrow>
   wlp F (materialize_files sha root dest policy fs t)
    (\<lambda>u d'. u = t + sum_list (map sf_size_bytes fs)
       \<and> (\<exists>S'. written dest d0 S' d' \<and> utf8_files S' \<and> file_record sha ` S' = file_record sha ` S \<union> manifest_record ` set fs))
    (\<lambda>_ _. True) (\<lambda>_. True) d"
proof (induction fs arbitrary: S d t)
  case Nil
  then show ?case by (auto intro!: wlp_give)
next
  case (Cons f fs)
  show ?case unfolding materialize_files.simps
  proof (rule wlp_seq [OF wlp_materialize_file [OF Cons.prems(1)]])
    show "list_all valid_utf8 (split_on (CHR ''/'') (sf_path f))" using Cons.prems(3) by simp
    fix u :: unit and d'
    assume "\<exists>q c. written dest d0 (insert (q, c) S) d' \<and> file_record sha (q, c) = manifest_record f \<and> list_all valid_utf8 q"
    then obtain q c where qc: "written dest d0 (insert (q, c) S) d'" "file_record sha (q, c) = manifest_record f" "list_all valid_utf8 q"
      by blast
    have utf8: "utf8_files (insert (q, c) S)" using qc(3) Cons.prems(2) by (auto simp: utf8_files_def list_all_iff)
    have rest: "wlp F (materialize_files sha root dest policy fs (t + sf_size_bytes f))
      (\<lambda>u d'. u = t + sum_list (map sf_size_bytes (f # fs)) \<and> (\<exists>S'. written dest d0 S' d' \<and> utf8_files S'
         \<and> file_record sha ` S' = file_record sha ` S \<union> manifest_record ` set (f # fs)))
      (\<lambda>_ _. True) (\<lambda>_. True) d'"
      by (rule wlp_mono [OF Cons.IH [OF qc(1) utf8]]) (use Cons.prems(3) qc(2) in auto)
    show "wlp F (do_then (from_result (add_and_enforce_total t (sf_size_bytes f) policy)) (materialize_files sha root dest policy fs))
      (\<lambda>u d'. u = t + sum_list (map sf_size_bytes (f # fs)) \<and> (\<exists>S'. written dest d0 S' d' \<and> utf8_files S'
         \<and> file_record sha ` S' = file_record sha ` S \<union> manifest_record ` set (f # fs)))
      (\<lambda>_ _. True) (\<lambda>_. True) d'"
      using rest by (intro wlp_do_then wlp_from_result) (auto simp: add_and_enforce_total_def Let_def split: if_splits)
  qed simp_all
qed

text \<open>Blobs that are readable stay readable when only places outside the store change.\<close>

lemma read_blob_away:
  assumes "tree.away p d d'" and "unrelated p root" and "read_blob sha root h d = Inr c"
  shows "read_blob sha root h d' = Inr c"
proof -
  have same: "entry (root @ q) d' = entry (root @ q) d" for q
    using tree.away_entry [OF assms(1)] tree.unrelated_inside [of root p q] assms(2) unrelated_sym by blast
  obtain q where "path_for_hash root h = Inr (root @ q)" "entry (root @ q) d = Some (Plain c)" "hash_bytes sha c = h"
    "is_folder root d" "is_folder (root @ [''sha256'']) d"
    using assms(3) by (auto simp: read_blob_Inr path_for_hash_Inr)
  then show ?thesis using same [of "[]"] same by (auto simp: read_blob_Inr is_folder_def)
qed

lemma read_manifest_away:
  assumes "tree.away p d d'" and "unrelated p root" and "read_manifest codec sha root h policy d = Inr m"
  shows "read_manifest codec sha root h policy d' = Inr m"
proof -
  obtain bs where "read_blob sha root h d = Inr bs" using assms(3) by (auto simp: read_manifest_def map_err_def and_then_Inr_iff split: sum.splits)
  with read_blob_away [OF assms(1,2) this] assms(3) show ?thesis by (simp add: read_manifest_def map_err_def)
qed

lemma compare_files_total:
  "compare_files sha t fs actual = Inr u \<Longrightarrow> length fs = length actual \<Longrightarrow> u = t + sum_list (map sf_size_bytes fs)"
  by (induction sha t fs actual rule: compare_files.induct) (auto simp: and_then_Inr_iff)

lemma verify_total:
  assumes "verify_materialized_snapshot codec sha root hash p d = Inr r" and "read_manifest codec sha root hash default_policy d = Inr m"
  shows "r = \<lparr>sr_manifest_hash = hash, sr_file_count = length (sm_files m), sr_total_bytes = sum_list (map sf_size_bytes (sm_files m))\<rparr>"
  using assms compare_files_total [of sha 0 "sm_files m"]
  by (auto simp: verify_materialized_snapshot_def verify_tree_def map_err_def and_then_Inr_iff ensure_Inr_iff
      split: stat_result.split_asm node.split_asm)

lemma read_manifest_decoded:
  assumes "read_manifest codec sha root h policy d = Inr m" obtains bs where "decode_manifest codec bs = Inr m"
proof -
  have "\<exists>bs. decode_manifest codec bs = Inr m"
    using assms by (auto simp: read_manifest_def map_err_def and_then_Inr_iff split: sum.split_asm)
  then show ?thesis using that by blast
qed

lemma written_start: "tree.away dest d0 d \<Longrightarrow> entry dest d = Some (Folder []) \<Longrightarrow> written dest d0 {} d"
proof -
  have "entry q (Folder []) \<noteq> Some (Plain c)" for q c by (cases q) auto
  then have "plain_files (Folder []) = {}" by (auto simp: plain_files_def)
  then show "tree.away dest d0 d \<Longrightarrow> entry dest d = Some (Folder []) \<Longrightarrow> written dest d0 {} d"
    by (auto simp: written_def folder_node_def)
qed

text \<open>A destination with just the files of the manifest verifies.\<close>

lemma written_verifies:
  assumes w: "written dest d0 S d" and S: "utf8_files S" "file_record sha ` S = manifest_record ` set (sm_files m)"
    and m: "read_manifest codec sha root hash default_policy d0 = Inr m" and away: "unrelated dest root"
  shows "verify_materialized_snapshot codec sha root hash dest d =
    Inr \<lparr>sr_manifest_hash = hash, sr_file_count = length (sm_files m), sr_total_bytes = sum_list (map sf_size_bytes (sm_files m))\<rparr>"
proof -
  obtain es where es: "entry dest d = Some (Folder es)" "wf_node (Folder es)" "plain_tree (Folder es)" "plain_files (Folder es) = S"
    using w by (auto simp: written_def folder_node_iff)
  have m': "read_manifest codec sha root hash default_policy d = Inr m"
    using read_manifest_away [OF _ away m] w by (simp add: written_def)
  have "\<exists>r. verify_materialized_snapshot codec sha root hash dest d = Inr r"
    unfolding verify_iff [OF es(1,2) m'] using es(3,4) S by (auto simp: utf8_files_def)
  then show ?thesis using verify_total [OF _ m'] by blast
qed

text \<open>What a materialization leaves: a folder that verifies, with the names a file system can hold.\<close>

definition materialized :: "manifest_codec \<Rightarrow> sha \<Rightarrow> location \<Rightarrow> string \<Rightarrow> location \<Rightarrow> snapshot_ref \<Rightarrow> node \<Rightarrow> bool" where
  "materialized codec sha root hash p r d \<longleftrightarrow> verify_materialized_snapshot codec sha root hash p d = Inr r
     \<and> (\<exists>n. entry p d = Some n \<and> wf_node n)"

lemma wlp_materialize_contents:
  assumes w: "written dest d0 {} d" and codec: "utf8_codec codec"
    and m: "read_manifest codec sha root hash default_policy d0 = Inr m" and away: "unrelated dest root"
  shows "wlp F (materialize_contents sha root hash dest policy m)
    (materialized codec sha root hash dest) (\<lambda>_ _. True) (\<lambda>_. True) d"
proof -
  have utf8: "\<forall>f \<in> set (sm_files m). list_all valid_utf8 (split_on (CHR ''/'') (sf_path f))"
    using read_manifest_decoded [OF m] codec by (auto simp: utf8_codec_def)
  show ?thesis unfolding materialize_contents_def sync_tree_directories_def
  proof (rule wlp_seq [OF wlp_materialize_files [OF w _ utf8]])
    fix u d'
    assume u: "u = 0 + sum_list (map sf_size_bytes (sm_files m)) \<and> (\<exists>S'. written dest d0 S' d' \<and> utf8_files S'
       \<and> file_record sha ` S' = file_record sha ` {} \<union> manifest_record ` set (sm_files m))"
    then have "verify_materialized_snapshot codec sha root hash dest d' =
        Inr \<lparr>sr_manifest_hash = hash, sr_file_count = length (sm_files m), sr_total_bytes = u\<rparr>"
      using written_verifies [OF _ _ _ m away] by auto
    with u have "materialized codec sha root hash dest \<lparr>sr_manifest_hash = hash, sr_file_count = length (sm_files m), sr_total_bytes = u\<rparr> d'"
      by (auto simp: materialized_def written_def)
    then show "wlp F (do_then (wrap SnapIo (sync_path dest)) (\<lambda>_.
       give \<lparr>sr_manifest_hash = hash, sr_file_count = length (sm_files m), sr_total_bytes = u\<rparr>))
      (materialized codec sha root hash dest) (\<lambda>_ _. True) (\<lambda>_. True) d'"
      by (intro wlp_do_then wlp_wrap wlp_sync wlp_give) auto
  qed (simp_all add: utf8_files_def)
qed

lemma wlp_materialize_at:
  assumes codec: "utf8_codec codec" and away: "unrelated dest root"
  shows "wlp F (materialize_at codec sha root hash dest default_policy)
    (materialized codec sha root hash dest) (\<lambda>_ _. True) (\<lambda>_. True) d"
  unfolding materialize_at_def
proof (rule wlp_do_then, rule wlp_query)
  fix m assume m: "read_manifest codec sha root hash default_policy d = Inr m"
  have rest: "wlp F (do_then (attempt (materialize_contents sha root hash dest default_policy m)) (\<lambda>result. case result of
       Inl e \<Rightarrow> do_then (attempt (remove_any dest)) (\<lambda>_. raise e) | Inr r \<Rightarrow> give r))
     (materialized codec sha root hash dest) (\<lambda>_ _. True) (\<lambda>_. True) d'"
    if w: "written dest d {} d'" for d'
  proof (rule wlp_try [OF wlp_materialize_contents [OF w codec m away]])
    fix e d''
    have any: "wlp F (remove_any dest) (\<lambda>_ _. True) (\<lambda>_ _. True) (\<lambda>_. True) d''"
      by (rule wlp_mono [OF wlp_confinedI [OF confined_remove_any]]) auto
    show "wlp F (case Inl e of Inl e \<Rightarrow> do_then (attempt (remove_any dest)) (\<lambda>_. raise e) | Inr r \<Rightarrow> give r)
      (materialized codec sha root hash dest) (\<lambda>_ _. True) (\<lambda>_. True) d''"
      unfolding sum.case by (rule wlp_do_then, rule wlp_attempt, rule wlp_mono [OF any]) (auto intro: wlp_raise)
  qed (auto intro: wlp_give)
  show "wlp F (do_then (wrap SnapIo (create_dir dest)) (\<lambda>_.
     do_then (attempt (materialize_contents sha root hash dest default_policy m)) (\<lambda>result. case result of
       Inl e \<Rightarrow> do_then (attempt (remove_any dest)) (\<lambda>_. raise e) | Inr r \<Rightarrow> give r)))
     (materialized codec sha root hash dest) (\<lambda>_ _. True) (\<lambda>_. True) d"
    unfolding create_dir_def
  proof (rule wlp_do_then, rule wlp_wrap, rule wlp_atomic)
    fix d' and a :: unit assume "new_entry dest (Folder []) d = Inr (d', a)"
    note new = new_entry_Inr [OF this]
    have "written dest d {} d'" using new(4,5) tree.away_put by (intro written_start) simp_all
    then show "wlp F (do_then (attempt (materialize_contents sha root hash dest default_policy m)) (\<lambda>result. case result of
       Inl e \<Rightarrow> do_then (attempt (remove_any dest)) (\<lambda>_. raise e) | Inr r \<Rightarrow> give r))
     (materialized codec sha root hash dest) (\<lambda>_ _. True) (\<lambda>_. True) d'"
      by (rule rest)
  qed simp_all
qed simp_all

section \<open>Where a materialization writes\<close>

lemma confined_from_result: "confined p (from_result r)"
  and confined_give: "confined p (give a)"
  and confined_raise: "confined p (raise e)"
  and confined_query: "confined p (query g f)"
  and confined_attempt: "confined p m \<Longrightarrow> confined p (attempt m)"
  and confined_metadata: "confined p (metadata q)"
  and confined_sync: "confined p (sync_path q)"
  by (auto simp: confined_def intro: keeps_rules)

lemmas confined_rules = confined_do_then confined_wrap confined_from_result confined_give confined_raise confined_query
  confined_attempt confined_metadata confined_sync

lemma confined_parents: "confined q (materialization_parents (q @ s) xs)"
proof (induction xs arbitrary: s)
  case (Cons x xs)
  have dir: "confined q (create_dir (q @ s @ [x]))"
    by (rule confined_inside [where r = "s @ [x]"]) (rule confined_writes)
  have rest: "confined q (materialization_parents (q @ s @ [x]) xs)" using Cons [of "s @ [x]"] by simp
  show ?case unfolding materialization_parents.simps append_assoc
    by (intro confined_do_then confined_attempt confined_metadata rest)
      (use dir in \<open>auto split: sum.split intro: confined_rules\<close>)
qed (auto intro: confined_rules)

lemma confined_materialize_file: "confined dest (materialize_file sha root dest f)"
proof -
  have writes: "confined dest (write_file (dest @ r) c)" for r c
    unfolding write_file_def
    by (rule confined_inside [where r = r])
      (intro confined_do_then confined_wrap confined_sync confined_writes)
  show ?thesis unfolding materialize_file_def
    using confined_parents [of dest "[]"] by (intro confined_rules writes) simp_all
qed

lemma confined_materialize_files: "confined dest (materialize_files sha root dest policy fs t)"
  by (induction fs arbitrary: t) (auto intro!: confined_rules confined_materialize_file)

lemma confined_materialize_at: "confined dest (materialize_at codec sha root hash dest policy)"
proof -
  have contents: "confined dest (materialize_contents sha root hash dest policy m)" for m
    unfolding materialize_contents_def sync_tree_directories_def
    by (intro confined_rules confined_materialize_files)
  have dir: "confined dest (create_dir dest)" by (rule confined_writes)
  show ?thesis unfolding materialize_at_def
    by (intro confined_do_then confined_query confined_wrap dir confined_attempt contents)
      (auto split: sum.split intro!: confined_rules confined_remove_any)
qed

section \<open>Materializing and verifying agree\<close>

lemma wlp_materialized:
  assumes "utf8_codec codec" and "unrelated (locate destination) root"
  shows "wlp F (materialize_snapshot codec sha root hash destination)
      (\<lambda>ref d'. materialized codec sha root hash (locate destination) ref d' \<and> tree.away (locate destination) d d')
      (\<lambda>_. tree.away (locate destination) d) (tree.away (locate destination) d) d"
proof -
  let ?p = "locate destination"
  have 1: "wlp F (materialize_at codec sha root hash ?p default_policy)
      (\<lambda>ref d'. materialized codec sha root hash ?p ref d' \<and> tree.away ?p d d')
      (\<lambda>_. tree.away ?p d) (tree.away ?p d) d"
    using wlp_confined [OF confined_materialize_at wlp_materialize_at [OF assms]] by (rule wlp_mono) simp_all
  show ?thesis unfolding materialize_snapshot_def materialize_snapshot_with_policy_def
    using 1 tree.away_refl [of ?p d]
    by (intro wlp_do_then wlp_attempt wlp_metadata) (simp_all add: wlp_raise)
qed

lemma wlp_materialize_snapshot:
  assumes "utf8_codec codec" and "unrelated (locate destination) root"
  shows "wlp F (materialize_snapshot codec sha root hash destination)
      (\<lambda>ref d'. verify_materialized_snapshot codec sha root hash (locate destination) d' = Inr ref \<and> tree.away (locate destination) d d')
      (\<lambda>_. tree.away (locate destination) d) (tree.away (locate destination) d) d"
  by (rule wlp_mono [OF wlp_materialized [OF assms]]) (simp_all add: materialized_def)

text \<open>C23: What is materialized verifies: under any schedule of faults, when materializing a snapshot
  returns, verifying the destination succeeds and gives the same reference; and however it ends,
  failing or dying included, nothing outside the destination has changed. The JSON reader only has
  to return UTF-8 strings; the destination lies apart from the blob store.\<close>

theorem materialized_snapshots_verify:
  assumes "utf8_codec codec" and "unrelated (locate destination) root"
    and run: "r = materialize_snapshot codec sha root hash destination \<lparr>disk = d, schedule = s\<rparr>"
  shows "(case r of Done ref w \<Rightarrow> verify_materialized_snapshot codec sha root hash (locate destination) (disk w) = Inr ref | _ \<Rightarrow> True)
    \<and> (unrelated (locate destination) q \<longrightarrow> entry q (run_disk r) = entry q d)"
  using wlp_run [OF wlp_materialize_snapshot [OF assms(1,2)] run] tree.away_entry [of "locate destination" d]
  by (cases r) (auto simp: run_disk_def)

subsection \<open>A snapshot of one file\<close>

definition sample_manifest :: snapshot_manifest where
  "sample_manifest = \<lparr>sm_format_version = 1, sm_files =
     [\<lparr>sf_path = ''SKILL.md'', sf_blob_hash = hash_bytes sample_sha ''hi'', sf_size_bytes = 2\<rparr>]\<rparr>"

definition sample_codec :: manifest_codec where
  "sample_codec = \<lparr>encode_manifest = (\<lambda>_. ''M''),
     decode_manifest = (\<lambda>bs. if bs = ''M'' then Inr sample_manifest else Inl ''invalid'')\<rparr>"

definition sample_store :: node where
  "sample_store = Folder [(''sha256'', Folder [(''00'', Folder
     [(sample_sha ''M'', Plain ''M''), (sample_sha ''hi'', Plain ''hi'')])])]"

definition sample_disk :: node where
  "sample_disk = Folder [(''blobs'', sample_store), (''skill'', Folder [(''SKILL.md'', Plain ''hi'')])]"

lemma sample_codec_utf8: "utf8_codec sample_codec"
proof -
  have "list_all valid_utf8 (split_on (CHR ''/'') ''SKILL.md'')" by code_simp
  then show ?thesis by (simp add: utf8_codec_def sample_codec_def sample_manifest_def)
qed

theorem materialized_snapshots_verify_witness:
  "\<exists>w. materialize_snapshot sample_codec sample_sha [''blobs''] (hash_bytes sample_sha ''M'') ''/new'' \<lparr>disk = sample_disk, schedule = []\<rparr>
       = Done \<lparr>sr_manifest_hash = hash_bytes sample_sha ''M'', sr_file_count = 1, sr_total_bytes = 2\<rparr> w
     \<and> verify_materialized_snapshot sample_codec sample_sha [''blobs''] (hash_bytes sample_sha ''M'') [''new''] (disk w)
       = Inr \<lparr>sr_manifest_hash = hash_bytes sample_sha ''M'', sr_file_count = 1, sr_total_bytes = 2\<rparr>"
proof -
  let ?run = "materialize_snapshot sample_codec sample_sha [''blobs''] (hash_bytes sample_sha ''M'') ''/new'' \<lparr>disk = sample_disk, schedule = []\<rparr>"
  have away: "unrelated (locate ''/new'') [''blobs'']" by code_simp
  have "case ?run of Done ref w \<Rightarrow> ref = \<lparr>sr_manifest_hash = hash_bytes sample_sha ''M'', sr_file_count = 1, sr_total_bytes = 2\<rparr> | _ \<Rightarrow> False"
    by code_simp
  then obtain w where r: "?run = Done \<lparr>sr_manifest_hash = hash_bytes sample_sha ''M'', sr_file_count = 1, sr_total_bytes = 2\<rparr> w"
    by (auto split: run.splits)
  have "locate ''/new'' = [''new'']" by code_simp
  with r materialized_snapshots_verify [OF sample_codec_utf8 away refl, where hash = "hash_bytes sample_sha ''M''" and sha = sample_sha and d = sample_disk and s = "[]"]
  show ?thesis by simp
qed

theorem verification_is_exact_witness:
  "(\<exists>r. verify_materialized_snapshot sample_codec sample_sha [''blobs''] (hash_bytes sample_sha ''M'') [''skill''] sample_disk = Inr r)
   \<and> manifest_record ` set (sm_files sample_manifest) = file_record sample_sha ` plain_files (Folder [(''SKILL.md'', Plain ''hi'')])"
proof -
  let ?es = "[(''SKILL.md'', Plain ''hi'')]"
  have p: "entry [''skill''] sample_disk = Some (Folder ?es)" by code_simp
  have wf: "wf_node (Folder ?es)" by code_simp
  have "read_manifest sample_codec sample_sha [''blobs''] (hash_bytes sample_sha ''M'') default_policy sample_disk = Inr sample_manifest"
    by code_simp
  note spec = verification_is_exact [OF p wf this]
  have "is_ok (verify_materialized_snapshot sample_codec sample_sha [''blobs''] (hash_bytes sample_sha ''M'') [''skill''] sample_disk)"
    by code_simp
  then have ok: "\<exists>r. verify_materialized_snapshot sample_codec sample_sha [''blobs''] (hash_bytes sample_sha ''M'') [''skill''] sample_disk = Inr r"
    by (auto simp: is_ok_def split: sum.splits)
  then show ?thesis using spec by blast
qed

end
