(* ===== verification/Deploy_Engine.thy ===== *)
theory Deploy_Engine
  imports Journals Materialize
begin

text \<open>
  \<open>deployment.rs\<close>: the engine that puts a snapshot into an agent's skill folder. A deployment writes
  the snapshot to a staging folder beside its target, moves an old target away, moves the staging
  folder into place, verifies it and only then deletes the old one; a journal records each phase, so
  that \<open>recover_incomplete\<close> can finish or undo what a crash interrupted. The engine's environment is
  the record \<open>engine\<close>: its folders, the digest and the JSON forms it is given.
\<close>

record deploy_request =
  rq_skill_id :: string
  rq_profile_id :: string
  rq_snapshot_hash :: string
  rq_skill_root :: path
  rq_directory_name :: string

record deploy_result =
  dr_transaction_id :: string
  dr_skill_id :: string
  dr_profile_id :: string
  dr_target_path :: path
  dr_snapshot_hash :: string
  dr_replaced_existing :: bool

datatype deploy_phase = DeployIntent | DeployPrepared | DeployOldMoved | DeployActivated

record deploy_journal =
  dj_transaction_id :: string
  dj_skill_id :: string
  dj_profile_id :: string
  dj_snapshot_hash :: string
  dj_skill_root :: path
  dj_destination :: path
  dj_staging :: path
  dj_backup :: path
  dj_replaced_existing :: bool
  dj_phase :: deploy_phase

definition deploy_result_of :: "deploy_journal \<Rightarrow> deploy_result" where
  "deploy_result_of j = \<lparr>dr_transaction_id = dj_transaction_id j, dr_skill_id = dj_skill_id j,
     dr_profile_id = dj_profile_id j, dr_target_path = dj_destination j,
     dr_snapshot_hash = dj_snapshot_hash j, dr_replaced_existing = dj_replaced_existing j\<rparr>"

datatype deploy_error =
  DeployIo io_error
| DeploySnapshot snapshot_error
| DeployVerification verify_error
| DeployJournal journal_error
| DeployInvalidRequest string
| DeployInvalidTransactionId string
| CatalogAckRejected string
| InvalidDirectoryName string
| InvalidSkillRoot location
| DeployUnsupportedFile location
| InvalidJournalPaths string
| Unrecoverable string string

record engine =
  en_journals :: location
  en_blobs :: location
  en_sha :: sha
  en_manifests :: manifest_codec
  en_encode :: "deploy_journal \<Rightarrow> string"
  en_decode :: "string \<Rightarrow> string + deploy_journal"

record recovery_report =
  rr_recovered :: nat
  rr_rolled_back :: nat
  rr_catalog_commits :: "deploy_result list"
  rr_failed :: "(location \<times> deploy_error) list"

datatype recovery_outcome = Committed deploy_result | RolledBack

section \<open>Checks and paths\<close>

definition validate_request :: "deploy_request \<Rightarrow> deploy_error + unit" where
  "validate_request rq =
     and_then (try_map (\<lambda>(field, v). ensure (\<not> is_blank v) (DeployInvalidRequest (field @ '' must not be empty'')))
       [(''skill_id'', rq_skill_id rq), (''agent_profile_id'', rq_profile_id rq),
        (''snapshot_hash'', rq_snapshot_hash rq), (''directory_name'', rq_directory_name rq)]) (\<lambda>_.
     and_then (ensure (valid_directory_name (rq_directory_name rq)) (InvalidDirectoryName (rq_directory_name rq))) (\<lambda>_.
     ensure (is_absolute (rq_skill_root rq) \<and> valid_utf8 (rq_skill_root rq))
       (DeployInvalidRequest ''skill_root must be an absolute UTF-8 path'')))"

definition validate_journal_paths :: "deploy_journal \<Rightarrow> deploy_error + unit" where
  "validate_journal_paths j =
     and_then (ensure (is_absolute (dj_skill_root j)) (InvalidJournalPaths (dj_transaction_id j))) (\<lambda>_.
     ensure (list_all (\<lambda>p. parent p = Some (components (dj_skill_root j))) [dj_destination j, dj_staging j, dj_backup j])
       (InvalidJournalPaths (dj_transaction_id j)))"

definition sync_directory :: "location \<Rightarrow> (deploy_error, unit) io" where
  "sync_directory p = wrap DeployIo (sync_path p)"

definition exists_entry :: "path \<Rightarrow> (deploy_error, bool) io" where
  "exists_entry p = wrap DeployIo (path_exists (locate p))"

definition path_is_real_directory :: "location \<Rightarrow> (deploy_error, bool) io" where
  "path_is_real_directory p = do_then (attempt (metadata p)) (\<lambda>r. case r of
     Inr n \<Rightarrow> give (folder_node n)
   | Inl e \<Rightarrow> if e = NotFound then give False else raise (DeployIo e))"

definition sync_existing_ancestor :: "location \<Rightarrow> (deploy_error, unit) io" where
  "sync_existing_ancestor p =
     (if p = [] then give ()
      else do_then (path_is_real_directory (butlast p)) (\<lambda>b. if b then sync_directory (butlast p) else give ()))"

definition make_directory_root :: "location \<Rightarrow> (deploy_error, unit) io" where
  "make_directory_root p =
     do_then (wrap DeployIo (create_dir_all p)) (\<lambda>_.
     do_then (wrap DeployIo (metadata p)) (\<lambda>n.
     if folder_node n then sync_existing_ancestor p else raise (InvalidSkillRoot p)))"

definition ensure_directory_root :: "location \<Rightarrow> (deploy_error, unit) io" where
  "ensure_directory_root p =
     do_then (attempt (metadata p)) (\<lambda>r. case r of
       Inr n \<Rightarrow> if folder_node n then give () else raise (InvalidSkillRoot p)
     | Inl e \<Rightarrow> if e = NotFound then make_directory_root p else raise (DeployIo e))"

definition deploy_fs_error :: "fs_error \<Rightarrow> deploy_error" where
  "deploy_fs_error e = (case e of Io e \<Rightarrow> DeployIo e | UnsupportedFileType p \<Rightarrow> DeployUnsupportedFile p)"

definition remove_entry :: "path \<Rightarrow> (deploy_error, unit) io" where
  "remove_entry p = wrap deploy_fs_error (remove_any (locate p))"

definition rename_path :: "path \<Rightarrow> path \<Rightarrow> (deploy_error, unit) io" where
  "rename_path p q = wrap DeployIo (rename_entry (locate p) (locate q))"

definition verify_path :: "engine \<Rightarrow> string \<Rightarrow> path \<Rightarrow> (verify_error, snapshot_ref) io" where
  "verify_path en hash p =
     query VerifyIo (verify_materialized_snapshot (en_manifests en) (en_sha en) (en_blobs en) hash (locate p))"

section \<open>The journal\<close>

definition journal_path :: "engine \<Rightarrow> string \<Rightarrow> location" where
  "journal_path en tx = en_journals en @ [tx @ ''.journal'']"

definition persist :: "engine \<Rightarrow> location \<Rightarrow> deploy_journal \<Rightarrow> (deploy_error, unit) io" where
  "persist en p j = wrap DeployJournal (persist_journal (en_journals en) p (en_encode en j))"

definition drop_journal :: "engine \<Rightarrow> location \<Rightarrow> (deploy_error, unit) io" where
  "drop_journal en p = wrap DeployJournal (remove_journal (en_journals en) p)"

definition load_journal :: "engine \<Rightarrow> location \<Rightarrow> (deploy_error, deploy_journal) io" where
  "load_journal en p =
     do_then (wrap DeployJournal (read_latest_journal (en_decode en) p)) (\<lambda>j.
     do_then (from_result (validate_journal_paths j)) (\<lambda>_. give j))"

section \<open>Restoring the old target\<close>

definition restore_backup :: "deploy_journal \<Rightarrow> (deploy_error, unit) io" where
  "restore_backup j =
     do_then (exists_entry (dj_destination j)) (\<lambda>there.
     if there then raise (Unrecoverable (dj_transaction_id j) ''cannot restore backup while destination exists'')
     else do_then (exists_entry (dj_backup j)) (\<lambda>kept.
       if \<not> kept then raise (Unrecoverable (dj_transaction_id j) ''backup is missing'')
       else do_then (rename_path (dj_backup j) (dj_destination j)) (\<lambda>_.
         sync_directory (locate (dj_skill_root j)))))"

definition remove_if_there :: "path \<Rightarrow> (deploy_error, unit) io" where
  "remove_if_there p = do_then (exists_entry p) (\<lambda>there. if there then remove_entry p else give ())"

definition discard :: "deploy_journal \<Rightarrow> path \<Rightarrow> (deploy_error, unit) io" where
  "discard j p = do_then (exists_entry p) (\<lambda>there.
     if there then do_then (remove_entry p) (\<lambda>_. sync_directory (locate (dj_skill_root j))) else give ())"

definition rollback_active_to_backup :: "deploy_journal \<Rightarrow> (deploy_error, unit) io" where
  "rollback_active_to_backup j = do_then (remove_if_there (dj_destination j)) (\<lambda>_. restore_backup j)"

section \<open>Deploying\<close>

definition deploy_journal_for :: "deploy_request \<Rightarrow> string \<Rightarrow> bool \<Rightarrow> deploy_journal" where
  "deploy_journal_for rq tx replaced =
     \<lparr>dj_transaction_id = tx, dj_skill_id = rq_skill_id rq, dj_profile_id = rq_profile_id rq,
      dj_snapshot_hash = rq_snapshot_hash rq, dj_skill_root = rq_skill_root rq,
      dj_destination = path_join (rq_skill_root rq) (rq_directory_name rq),
      dj_staging = path_join (rq_skill_root rq) (reserved_prefix @ ''stage-'' @ tx),
      dj_backup = path_join (rq_skill_root rq) (reserved_prefix @ ''backup-'' @ tx),
      dj_replaced_existing = replaced, dj_phase = DeployIntent\<rparr>"

definition in_phase :: "deploy_phase \<Rightarrow> deploy_journal \<Rightarrow> deploy_journal" where
  "in_phase ph j = j\<lparr>dj_phase := ph\<rparr>"

definition stage :: "engine \<Rightarrow> location \<Rightarrow> deploy_journal \<Rightarrow> (deploy_error, unit) io" where
  "stage en jp j =
     do_then (wrap DeploySnapshot (materialize_snapshot (en_manifests en) (en_sha en) (en_blobs en) (dj_snapshot_hash j) (dj_staging j))) (\<lambda>_.
     do_then (wrap DeployVerification (verify_path en (dj_snapshot_hash j) (dj_staging j))) (\<lambda>_.
     do_then (sync_directory (locate (dj_skill_root j))) (\<lambda>_.
     persist en jp (in_phase DeployPrepared j))))"

definition unstage :: "engine \<Rightarrow> location \<Rightarrow> deploy_journal \<Rightarrow> (deploy_error, unit) io" where
  "unstage en jp j =
     do_then (attempt (exists_entry (dj_staging j))) (\<lambda>there.
     do_then (if there = Inr True
              then do_then (attempt (remove_entry (dj_staging j))) (\<lambda>_.
                   do_then (attempt (sync_directory (locate (dj_skill_root j)))) (\<lambda>_. give ()))
              else give ()) (\<lambda>_.
     do_then (attempt (drop_journal en jp)) (\<lambda>_. give ())))"

definition move_old :: "engine \<Rightarrow> location \<Rightarrow> deploy_journal \<Rightarrow> (deploy_error, unit) io" where
  "move_old en jp j =
     do_then (rename_path (dj_destination j) (dj_backup j)) (\<lambda>_.
     do_then (sync_directory (locate (dj_skill_root j))) (\<lambda>_.
     persist en jp (in_phase DeployOldMoved j)))"

text \<open>What follows a failing verification of the activated target: the old one comes back, or the new one goes.\<close>

definition undo_activation :: "engine \<Rightarrow> location \<Rightarrow> deploy_journal \<Rightarrow> verify_error \<Rightarrow> (deploy_error, unit) io" where
  "undo_activation en jp j e =
     do_then (if dj_replaced_existing j then exists_entry (dj_backup j) else give False) (\<lambda>kept.
     do_then (if kept then rollback_active_to_backup j else discard j (dj_destination j)) (\<lambda>_.
     do_then (attempt (drop_journal en jp)) (\<lambda>_. raise (DeployVerification e))))"

definition activate :: "engine \<Rightarrow> location \<Rightarrow> deploy_journal \<Rightarrow> (deploy_error, unit) io" where
  "activate en jp j =
     do_then (rename_path (dj_staging j) (dj_destination j)) (\<lambda>_.
     do_then (sync_directory (locate (dj_skill_root j))) (\<lambda>_.
     do_then (attempt (verify_path en (dj_snapshot_hash j) (dj_destination j))) (\<lambda>r. case r of
       Inl e \<Rightarrow> undo_activation en jp j e
     | Inr _ \<Rightarrow> give ())))"

definition settle :: "engine \<Rightarrow> location \<Rightarrow> deploy_journal \<Rightarrow> (deploy_error, deploy_result) io" where
  "settle en jp j =
     do_then (persist en jp (in_phase DeployActivated j)) (\<lambda>_.
     do_then (discard j (dj_backup j)) (\<lambda>_.
     give (deploy_result_of (in_phase DeployActivated j))))"

definition deploy_transaction :: "engine \<Rightarrow> location \<Rightarrow> deploy_journal \<Rightarrow> (deploy_error, deploy_result) io" where
  "deploy_transaction en jp j =
     do_then (persist en jp j) (\<lambda>_.
     do_then (attempt (stage en jp j)) (\<lambda>staged. case staged of
       Inl e \<Rightarrow> do_then (unstage en jp j) (\<lambda>_. raise e)
     | Inr _ \<Rightarrow>
         do_then (if dj_replaced_existing j then move_old en jp j else give ()) (\<lambda>_.
         do_then (activate en jp j) (\<lambda>_.
         settle en jp j))))"

definition deploy :: "engine \<Rightarrow> deploy_request \<Rightarrow> string \<Rightarrow> (deploy_error, deploy_result) io" where
  "deploy en rq tx =
     do_then (from_result (validate_request rq)) (\<lambda>_.
     do_then (ensure_directory_root (locate (rq_skill_root rq))) (\<lambda>_.
     do_then (exists_entry (path_join (rq_skill_root rq) (rq_directory_name rq))) (\<lambda>replaced.
     deploy_transaction en (journal_path en tx) (deploy_journal_for rq tx replaced))))"

section \<open>Acknowledging\<close>

definition acknowledge_catalog_commit :: "engine \<Rightarrow> string \<Rightarrow> (deploy_error, unit) io" where
  "acknowledge_catalog_commit en tx =
     do_then (from_result (ensure (validate_transaction_id tx) (DeployInvalidTransactionId tx))) (\<lambda>_.
     do_then (load_journal en (journal_path en tx)) (\<lambda>j.
     do_then (from_result (ensure (dj_transaction_id j = tx \<and> dj_phase j = DeployActivated) (CatalogAckRejected tx))) (\<lambda>_.
     do_then (path_is_real_directory (locate (dj_destination j))) (\<lambda>active.
     do_then (if active then exists_entry (dj_staging j) else give True) (\<lambda>staged.
     do_then (if staged then give True else exists_entry (dj_backup j)) (\<lambda>pending.
     if pending then raise (CatalogAckRejected tx)
     else do_then (wrap DeployVerification (verify_path en (dj_snapshot_hash j) (dj_destination j))) (\<lambda>_.
          drop_journal en (journal_path en tx))))))))"

section \<open>Recovering\<close>

definition roll_back :: "engine \<Rightarrow> location \<Rightarrow> (deploy_error, unit) io \<Rightarrow> (deploy_error, recovery_outcome) io" where
  "roll_back en jp undo = do_then undo (\<lambda>_. do_then (drop_journal en jp) (\<lambda>_. give RolledBack))"

definition commit :: "engine \<Rightarrow> location \<Rightarrow> deploy_journal \<Rightarrow> (deploy_error, recovery_outcome) io" where
  "commit en jp j = do_then (settle en jp j) (\<lambda>r. give (Committed r))"

definition activate_verified_staging :: "engine \<Rightarrow> location \<Rightarrow> deploy_journal \<Rightarrow> (deploy_error, recovery_outcome) io" where
  "activate_verified_staging en jp j =
     do_then (attempt (verify_path en (dj_snapshot_hash j) (dj_staging j))) (\<lambda>r. case r of
       Inl e \<Rightarrow>
         do_then (exists_entry (dj_backup j)) (\<lambda>kept.
         if kept then roll_back en jp (do_then (remove_if_there (dj_staging j)) (\<lambda>_. restore_backup j))
         else raise (DeployVerification e))
     | Inr _ \<Rightarrow>
         do_then (rename_path (dj_staging j) (dj_destination j)) (\<lambda>_.
         do_then (sync_directory (locate (dj_skill_root j))) (\<lambda>_.
         do_then (wrap DeployVerification (verify_path en (dj_snapshot_hash j) (dj_destination j))) (\<lambda>_.
         commit en jp j))))"

definition verify_active_or_restore_backup :: "engine \<Rightarrow> location \<Rightarrow> deploy_journal \<Rightarrow> (deploy_error, recovery_outcome) io" where
  "verify_active_or_restore_backup en jp j =
     do_then (attempt (verify_path en (dj_snapshot_hash j) (dj_destination j))) (\<lambda>r. case r of
       Inr _ \<Rightarrow> do_then (remove_if_there (dj_staging j)) (\<lambda>_. commit en jp j)
     | Inl e \<Rightarrow>
         do_then (exists_entry (dj_backup j)) (\<lambda>kept.
         if kept then roll_back en jp (rollback_active_to_backup j) else raise (DeployVerification e)))"

definition verify_active_without_backup :: "engine \<Rightarrow> location \<Rightarrow> deploy_journal \<Rightarrow> (deploy_error, recovery_outcome) io" where
  "verify_active_without_backup en jp j =
     do_then (attempt (verify_path en (dj_snapshot_hash j) (dj_destination j))) (\<lambda>r. case r of
       Inr _ \<Rightarrow> do_then (persist en jp (in_phase DeployActivated j)) (\<lambda>_.
           give (Committed (deploy_result_of (in_phase DeployActivated j))))
     | Inl e \<Rightarrow> roll_back en jp (discard j (dj_destination j)))"

text \<open>The branches of \<open>recover_one\<close> by what exists: target, staging folder, backup.\<close>

definition discard_staging :: "engine \<Rightarrow> location \<Rightarrow> deploy_journal \<Rightarrow> (deploy_error, recovery_outcome) io" where
  "discard_staging en jp j =
     roll_back en jp (do_then (remove_entry (dj_staging j)) (\<lambda>_. sync_directory (locate (dj_skill_root j))))"

definition bool_text :: "bool \<Rightarrow> string" where
  "bool_text b = (if b then ''true'' else ''false'')"

definition phase_text :: "deploy_phase \<Rightarrow> string" where
  "phase_text ph = (case ph of DeployIntent \<Rightarrow> ''Intent'' | DeployPrepared \<Rightarrow> ''Prepared''
     | DeployOldMoved \<Rightarrow> ''OldMoved'' | DeployActivated \<Rightarrow> ''Activated'')"

definition unexpected_state :: "deploy_journal \<Rightarrow> bool \<times> bool \<times> bool \<Rightarrow> deploy_error" where
  "unexpected_state j = (\<lambda>(there, staged, kept). Unrecoverable (dj_transaction_id j)
     (''destination='' @ bool_text there @ '', staging='' @ bool_text staged @ '', backup='' @ bool_text kept
      @ '', phase='' @ phase_text (dj_phase j)))"

definition recover_moved :: "engine \<Rightarrow> location \<Rightarrow> deploy_journal \<Rightarrow> bool \<times> bool \<times> bool \<Rightarrow> (deploy_error, recovery_outcome) io" where
  "recover_moved en jp j seen =
     (if seen = (False, True, True) then activate_verified_staging en jp j
      else if seen = (True, False, True) then verify_active_or_restore_backup en jp j
      else if seen = (False, False, True) then roll_back en jp (restore_backup j)
      else raise (unexpected_state j seen))"

definition recover_prepared :: "engine \<Rightarrow> location \<Rightarrow> deploy_journal \<Rightarrow> bool \<times> bool \<times> bool \<Rightarrow> (deploy_error, recovery_outcome) io" where
  "recover_prepared en jp j seen =
     (if dj_replaced_existing j
      then if seen = (True, True, False) then discard_staging en jp j else recover_moved en jp j seen
      else if seen = (False, True, False) then discard_staging en jp j
      else if seen = (True, False, False) then verify_active_without_backup en jp j
      else raise (unexpected_state j seen))"

definition recover_intent :: "engine \<Rightarrow> location \<Rightarrow> deploy_journal \<Rightarrow> bool \<times> bool \<times> bool \<Rightarrow> (deploy_error, recovery_outcome) io" where
  "recover_intent en jp j = (\<lambda>(there, staged, kept).
     if kept then raise (Unrecoverable (dj_transaction_id j) ''backup exists while phase is intent'')
     else if staged then discard_staging en jp j else roll_back en jp (give ()))"

definition recover_activated :: "engine \<Rightarrow> location \<Rightarrow> deploy_journal \<Rightarrow> bool \<times> bool \<times> bool \<Rightarrow> (deploy_error, recovery_outcome) io" where
  "recover_activated en jp j = (\<lambda>(there, staged, kept).
     if \<not> there then
       if kept then roll_back en jp (restore_backup j)
       else raise (Unrecoverable (dj_transaction_id j) ''activated target is missing and no backup remains'')
     else if staged then raise (Unrecoverable (dj_transaction_id j) ''staging still exists after activation'')
     else verify_active_or_restore_backup en jp j)"

definition recover_phase :: "engine \<Rightarrow> location \<Rightarrow> deploy_journal \<Rightarrow> bool \<times> bool \<times> bool \<Rightarrow> (deploy_error, recovery_outcome) io" where
  "recover_phase en jp j = (case dj_phase j of
     DeployIntent \<Rightarrow> recover_intent en jp j
   | DeployPrepared \<Rightarrow> recover_prepared en jp j
   | DeployOldMoved \<Rightarrow> recover_moved en jp j
   | DeployActivated \<Rightarrow> recover_activated en jp j)"

definition recover_one :: "engine \<Rightarrow> location \<Rightarrow> (deploy_error, recovery_outcome) io" where
  "recover_one en jp =
     do_then (load_journal en jp) (\<lambda>j.
     do_then (ensure_directory_root (locate (dj_skill_root j))) (\<lambda>_.
     do_then (exists_entry (dj_destination j)) (\<lambda>there.
     do_then (exists_entry (dj_staging j)) (\<lambda>staged.
     do_then (exists_entry (dj_backup j)) (\<lambda>kept.
     recover_phase en jp j (there, staged, kept))))))"

definition report_outcome :: "location \<Rightarrow> deploy_error + recovery_outcome \<Rightarrow> recovery_report \<Rightarrow> recovery_report" where
  "report_outcome p r report = (case r of
     Inr (Committed c) \<Rightarrow> report\<lparr>rr_recovered := rr_recovered report + 1, rr_catalog_commits := rr_catalog_commits report @ [c]\<rparr>
   | Inr RolledBack \<Rightarrow> report\<lparr>rr_rolled_back := rr_rolled_back report + 1\<rparr>
   | Inl e \<Rightarrow> report\<lparr>rr_failed := rr_failed report @ [(p, e)]\<rparr>)"

fun recover_each :: "engine \<Rightarrow> location list \<Rightarrow> recovery_report \<Rightarrow> (deploy_error, recovery_report) io" where
  "recover_each en [] report = give report"
| "recover_each en (p # ps) report =
     do_then (attempt (recover_one en p)) (\<lambda>r. recover_each en ps (report_outcome p r report))"

definition recover_incomplete :: "engine \<Rightarrow> (deploy_error, recovery_report) io" where
  "recover_incomplete en =
     do_then (ensure_directory_root (en_journals en)) (\<lambda>_.
     do_then (query DeployIo (\<lambda>d. map_err DeployIo (journal_files ''journal'' (en_journals en) d))) (\<lambda>journals.
     recover_each en journals \<lparr>rr_recovered = 0, rr_rolled_back = 0, rr_catalog_commits = [], rr_failed = []\<rparr>))"

text \<open>\<open>DeploymentEngine::open\<close>\<close>

definition open_engine :: "engine \<Rightarrow> (deploy_error, unit) io" where
  "open_engine en = ensure_directory_root (en_journals en)"

end
