(* ===== verification/Deploy_Safety.thy ===== *)
theory Deploy_Safety
  imports Deploy_Engine
begin

text \<open>
  Crash safety of the deployment engine: whatever call fails or is the last one of a deployment,
  and however often recovery is itself interrupted, the old target is still there, at its place or
  as the backup, unless the new one is in place and verified.
\<close>

section \<open>A transaction\<close>

definition skill_root_of :: "deploy_journal \<Rightarrow> location" where
  "skill_root_of j = locate (dj_skill_root j)"

definition places :: "deploy_journal \<Rightarrow> path set" where
  "places j = {dj_destination j, dj_staging j, dj_backup j}"

definition records_of :: "engine \<Rightarrow> deploy_journal \<Rightarrow> string set" where
  "records_of en j = range (\<lambda>ph. en_encode en (in_phase ph j))"

text \<open>
  What is assumed of the folders and of the JSON forms: the skill folder, the journals and the blob
  store lie apart; a record is one line; whatever a torn journal line reads as is a record of the
  transaction; and manifests hold UTF-8 paths.
\<close>

definition tx_ok :: "engine \<Rightarrow> location \<Rightarrow> deploy_journal \<Rightarrow> bool" where
  "tx_ok en jp j \<longleftrightarrow>
     (\<exists>c s b. locate (dj_destination j) = skill_root_of j @ [c] \<and> locate (dj_staging j) = skill_root_of j @ [s]
        \<and> locate (dj_backup j) = skill_root_of j @ [b] \<and> distinct [c, s, b])
     \<and> unrelated (skill_root_of j) (en_blobs en) \<and> unrelated (skill_root_of j) (en_journals en)
     \<and> unrelated (en_journals en) (en_blobs en) \<and> (\<exists>x. jp = en_journals en @ [x])
     \<and> plain_records (records_of en j)
     \<and> (\<forall>l \<in> pieces (records_of en j). \<forall>r. en_decode en l = Inr r \<longrightarrow> (\<exists>ph. r = in_phase ph j))
     \<and> utf8_codec (en_manifests en)"

definition verified :: "engine \<Rightarrow> deploy_journal \<Rightarrow> path \<Rightarrow> node \<Rightarrow> bool" where
  "verified en j p d \<longleftrightarrow> (\<exists>r. verify_materialized_snapshot (en_manifests en) (en_sha en) (en_blobs en)
     (dj_snapshot_hash j) (locate p) d = Inr r)"

text \<open>The disk apart from the transaction's places: unchanged, and the journal made of its records.\<close>

definition tx_frame :: "engine \<Rightarrow> location \<Rightarrow> deploy_journal \<Rightarrow> node \<Rightarrow> node \<Rightarrow> bool" where
  "tx_frame en jp j d0 d \<longleftrightarrow>
     is_folder (skill_root_of j) d \<and> is_folder (en_journals en) d \<and> journal_ok (records_of en j) jp d
     \<and> (\<forall>q. unrelated q jp \<longrightarrow> (\<forall>p \<in> places j. unrelated q (locate p)) \<longrightarrow> entry q d = entry q d0)"

text \<open>The old target \<open>n\<close> is not lost.\<close>

definition not_lost :: "engine \<Rightarrow> deploy_journal \<Rightarrow> node \<Rightarrow> node \<Rightarrow> bool" where
  "not_lost en j n d \<longleftrightarrow>
     entry (locate (dj_backup j)) d = None \<and> entry (locate (dj_destination j)) d = Some n
     \<or> entry (locate (dj_backup j)) d = Some n \<or> verified en j (dj_destination j) d"

definition tx_safe :: "engine \<Rightarrow> location \<Rightarrow> deploy_journal \<Rightarrow> node \<Rightarrow> node \<Rightarrow> node \<Rightarrow> bool" where
  "tx_safe en jp j d0 n d \<longleftrightarrow> tx_frame en jp j d0 d \<and> not_lost en j n d"

lemma in_phase_simps [simp]:
  "dj_destination (in_phase ph j) = dj_destination j" "dj_staging (in_phase ph j) = dj_staging j"
  "dj_backup (in_phase ph j) = dj_backup j" "dj_skill_root (in_phase ph j) = dj_skill_root j"
  "dj_snapshot_hash (in_phase ph j) = dj_snapshot_hash j" "in_phase ph (in_phase ph' j) = in_phase ph j"
  "dj_replaced_existing (in_phase ph j) = dj_replaced_existing j" "dj_phase (in_phase ph j) = ph"
  "dj_transaction_id (in_phase ph j) = dj_transaction_id j"
  by (simp_all add: in_phase_def)

lemma in_phase_views [simp]:
  "skill_root_of (in_phase ph j) = skill_root_of j" "places (in_phase ph j) = places j"
  "records_of en (in_phase ph j) = records_of en j" "tx_ok en jp (in_phase ph j) = tx_ok en jp j"
  "verified en (in_phase ph j) = verified en j" "tx_frame en jp (in_phase ph j) = tx_frame en jp j"
  "not_lost en (in_phase ph j) = not_lost en j" "tx_safe en jp (in_phase ph j) = tx_safe en jp j"
  by (simp_all add: skill_root_of_def places_def records_of_def tx_ok_def verified_def tx_frame_def not_lost_def
      tx_safe_def fun_eq_iff)

lemma place_in_root: "tx_ok en jp j \<Longrightarrow> p \<in> places j \<Longrightarrow> \<exists>x. locate p = skill_root_of j @ [x]"
  by (auto simp: tx_ok_def places_def)

lemma places_apart:
  assumes "tx_ok en jp j"
  shows "unrelated (locate (dj_destination j)) (locate (dj_backup j))"
    and "unrelated (locate (dj_destination j)) (locate (dj_staging j))"
    and "unrelated (locate (dj_staging j)) (locate (dj_backup j))"
    and "unrelated (locate (dj_backup j)) (locate (dj_destination j))"
    and "unrelated (locate (dj_staging j)) (locate (dj_destination j))"
    and "unrelated (locate (dj_backup j)) (locate (dj_staging j))"
  using assms by (auto simp: tx_ok_def)

lemma place_apart:
  assumes "tx_ok en jp j" and "p \<in> places j"
  shows "unrelated (locate p) (en_blobs en)" and "unrelated (locate p) jp" and "unrelated jp (locate p)"
    and "unrelated (locate p) (en_journals en)" and "strict_prefix (skill_root_of j) (locate p)"
    and "unrelated jp (en_blobs en)" and "unrelated jp (skill_root_of j)" and "strict_prefix (en_journals en) jp"
proof -
  obtain x where x: "locate p = skill_root_of j @ [x]" using place_in_root [OF assms] ..
  obtain y where y: "jp = en_journals en @ [y]" using assms(1) by (auto simp: tx_ok_def)
  have u: "unrelated (skill_root_of j) (en_blobs en)" "unrelated (skill_root_of j) (en_journals en)" "unrelated (en_journals en) (en_blobs en)"
    using assms(1) by (auto simp: tx_ok_def)
  show "unrelated (locate p) (en_blobs en)" "unrelated (locate p) (en_journals en)" unfolding x
    using tree.unrelated_inside [OF u(1)] tree.unrelated_inside [OF u(2)] by auto
  then show "unrelated (locate p) jp" unfolding y using tree.unrelated_inside [of "en_journals en" "locate p" "[y]"] by (simp add: unrelated_sym)
  then show "unrelated jp (locate p)" by (simp add: unrelated_sym)
  show "strict_prefix (skill_root_of j) (locate p)" "strict_prefix (en_journals en) jp" by (simp_all add: x y strict_prefix_def)
  show "unrelated jp (en_blobs en)" "unrelated jp (skill_root_of j)" unfolding y
    using tree.unrelated_inside [OF u(3)] tree.unrelated_inside [of "en_journals en" "skill_root_of j"] u(2) by (simp_all add: unrelated_sym)
qed

section \<open>What updates keep\<close>

lemma frame_place:
  assumes tx: "tx_ok en jp j" and p: "p \<in> places j" and a: "tree.away (locate p) d d'" and f: "tx_frame en jp j d0 d"
  shows "tx_frame en jp j d0 d'"
proof -
  note apart = place_apart [OF tx p]
  have "entry jp d' = entry jp d" "entry (en_journals en) d' = entry (en_journals en) d"
    using tree.away_entry [OF a] apart(2,4) by blast+
  moreover have "is_folder (skill_root_of j) d'" using tree.away_folder [OF a apart(5)] f by (simp add: tx_frame_def)
  moreover have "entry q d' = entry q d" if "unrelated q (locate p)" for q
    using tree.away_entry [OF a] that by (simp add: unrelated_sym)
  ultimately show ?thesis using f p by (simp add: tx_frame_def is_folder_def journal_ok_def)
qed

lemma frame_journal:
  assumes tx: "tx_ok en jp j" and a: "tree.away jp d d'" and ok: "journal_ok (records_of en j) jp d'" and f: "tx_frame en jp j d0 d"
  shows "tx_frame en jp j d0 d'"
proof -
  have p: "dj_destination j \<in> places j" by (simp add: places_def)
  note apart = place_apart [OF tx p]
  have "entry (skill_root_of j) d' = entry (skill_root_of j) d" using tree.away_entry [OF a apart(7)] .
  moreover have "is_folder (en_journals en) d'" using tree.away_folder [OF a apart(8)] f by (simp add: tx_frame_def)
  moreover have "entry q d' = entry q d" if "unrelated q jp" for q
    using tree.away_entry [OF a] that by (simp add: unrelated_sym)
  ultimately show ?thesis using f ok by (simp add: tx_frame_def is_folder_def)
qed

lemma verified_away:
  assumes "tree.away q d d'" and "unrelated q (en_blobs en)" and "unrelated q (locate p)" and "verified en j p d"
  shows "verified en j p d'"
proof -
  obtain r where r: "verify_materialized_snapshot (en_manifests en) (en_sha en) (en_blobs en) (dj_snapshot_hash j) (locate p) d = Inr r"
    using assms(4) by (auto simp: verified_def)
  then obtain es m where es: "entry (locate p) d = Some (Folder es)"
      and m: "read_manifest (en_manifests en) (en_sha en) (en_blobs en) (dj_snapshot_hash j) default_policy d = Inr m"
      and t: "verify_tree (en_sha en) (dj_snapshot_hash j) m es = Inr r"
    by (auto simp: verify_materialized_snapshot_def stat_Found map_err_def and_then_Inr_iff
        split: stat_result.split_asm node.split_asm sum.split_asm)
  have "entry (locate p) d' = Some (Folder es)" using tree.away_entry [OF assms(1,3)] es by simp
  with read_manifest_away [OF assms(1,2) m] t show ?thesis
    by (auto simp: verified_def verify_materialized_snapshot_def stat_Found [symmetric])
qed

text \<open>Verification looks at the node, not at its name.\<close>

lemma verified_moved:
  assumes "tree.away q d d'" and "unrelated q (en_blobs en)" and "entry (locate p') d' = entry (locate p) d" and "verified en j p d"
  shows "verified en j p' d'"
proof -
  obtain r where r: "verify_materialized_snapshot (en_manifests en) (en_sha en) (en_blobs en) (dj_snapshot_hash j) (locate p) d = Inr r"
    using assms(4) by (auto simp: verified_def)
  then obtain es m where es: "entry (locate p) d = Some (Folder es)"
      and m: "read_manifest (en_manifests en) (en_sha en) (en_blobs en) (dj_snapshot_hash j) default_policy d = Inr m"
      and t: "verify_tree (en_sha en) (dj_snapshot_hash j) m es = Inr r"
    by (auto simp: verify_materialized_snapshot_def stat_Found map_err_def and_then_Inr_iff
        split: stat_result.split_asm node.split_asm sum.split_asm)
  have "entry (locate p') d' = Some (Folder es)" using assms(3) es by simp
  with read_manifest_away [OF assms(1,2) m] t show ?thesis
    by (auto simp: verified_def verify_materialized_snapshot_def stat_Found [symmetric])
qed

section \<open>The steps\<close>

lemma sem_exists:
  assumes "tx_ok en jp j" and "p \<in> places j" and "tx_frame en jp j d0 d"
  shows "wlp F (exists_entry p) (\<lambda>b d'. d' = d \<and> (b \<longleftrightarrow> entry (locate p) d \<noteq> None)) (\<lambda>_ d'. d' = d) (\<lambda>d'. d' = d) d"
proof -
  obtain x where x: "locate p = skill_root_of j @ [x]" using place_in_root [OF assms(1,2)] ..
  have "is_folder (skill_root_of j) d" using assms(3) by (simp add: tx_frame_def)
  then show ?thesis unfolding exists_entry_def x by (intro wlp_wrap wlp_path_exists) auto
qed

lemma sem_sync: "wlp F (sync_directory p) (\<lambda>_ d'. d' = d) (\<lambda>_ d'. d' = d) (\<lambda>d'. d' = d) d"
  unfolding sync_directory_def by (intro wlp_wrap wlp_sync) auto

lemma sem_verify:
  "wlp F (verify_path en (dj_snapshot_hash j) p) (\<lambda>_ d'. d' = d \<and> verified en j p d)
     (\<lambda>_ d'. d' = d \<and> ((\<exists>k. Fail k \<in> F) \<or> \<not> verified en j p d)) (\<lambda>d'. d' = d) d"
  unfolding verify_path_def by (rule wlp_query) (auto simp: verified_def)

lemma sem_persist:
  assumes tx: "tx_ok en jp j" and f: "tx_frame en jp j d0 d"
  shows "wlp F (persist en jp (in_phase ph j)) (\<lambda>_ d'. tx_frame en jp j d0 d' \<and> tree.away jp d d')
    (\<lambda>_ d'. tx_frame en jp j d0 d' \<and> tree.away jp d d') (\<lambda>d'. tx_frame en jp j d0 d' \<and> tree.away jp d d') d"
proof -
  have "plain_records (records_of en j)" using tx by (simp add: tx_ok_def)
  moreover have "en_encode en (in_phase ph j) \<in> records_of en j" by (simp add: records_of_def)
  ultimately have "keeps (journal_ok (records_of en j) jp) (persist en jp (in_phase ph j))"
    unfolding persist_def by (intro keeps_rules keeps_persist_ok)
  from keepsD [OF this, of d F] f
  have ok: "wlp F (persist en jp (in_phase ph j)) (\<lambda>_. journal_ok (records_of en j) jp) (\<lambda>_. journal_ok (records_of en j) jp)
      (journal_ok (records_of en j) jp) d" by (simp add: tx_frame_def)
  have "confined jp (persist en jp (in_phase ph j))" unfolding persist_def by (intro confined_wrap confined_persist)
  from wlp_confined [OF this ok] show ?thesis using frame_journal [OF tx _ _ f] by (elim wlp_mono) auto
qed

lemma sem_drop:
  assumes tx: "tx_ok en jp j" and f: "tx_frame en jp j d0 d"
  shows "wlp F (drop_journal en jp) (\<lambda>_ d'. tx_frame en jp j d0 d' \<and> tree.away jp d d')
    (\<lambda>_ d'. tx_frame en jp j d0 d' \<and> tree.away jp d d') (\<lambda>d'. tx_frame en jp j d0 d' \<and> tree.away jp d d') d"
proof -
  have "keeps (journal_ok (records_of en j) jp) (drop_journal en jp)"
    unfolding drop_journal_def by (intro keeps_rules keeps_remove_ok)
  from keepsD [OF this, of d F] f
  have ok: "wlp F (drop_journal en jp) (\<lambda>_. journal_ok (records_of en j) jp) (\<lambda>_. journal_ok (records_of en j) jp)
      (journal_ok (records_of en j) jp) d" by (simp add: tx_frame_def)
  have "confined jp (drop_journal en jp)" unfolding drop_journal_def by (intro confined_wrap confined_remove_journal)
  from wlp_confined [OF this ok] show ?thesis using frame_journal [OF tx _ _ f] by (elim wlp_mono) auto
qed

lemma sem_remove:
  assumes tx: "tx_ok en jp j" and p: "p \<in> places j" and f: "tx_frame en jp j d0 d"
  shows "wlp F (remove_entry p) (\<lambda>_ d'. tx_frame en jp j d0 d' \<and> tree.away (locate p) d d' \<and> entry (locate p) d' = None)
    (\<lambda>_ d'. tx_frame en jp j d0 d' \<and> tree.away (locate p) d d') (\<lambda>d'. tx_frame en jp j d0 d' \<and> tree.away (locate p) d d') d"
proof -
  have "locate p \<noteq> []" using place_in_root [OF tx p] by auto
  from wlp_remove_any [OF this, of F d] show ?thesis unfolding remove_entry_def
    using frame_place [OF tx p _ f] by (intro wlp_wrap) (elim wlp_mono, auto)
qed

text \<open>Renaming between two places, over nothing.\<close>

definition moved :: "engine \<Rightarrow> location \<Rightarrow> deploy_journal \<Rightarrow> node \<Rightarrow> path \<Rightarrow> path \<Rightarrow> node \<Rightarrow> node \<Rightarrow> bool" where
  "moved en jp j d0 p q d d' \<longleftrightarrow> tx_frame en jp j d0 d' \<and> tree.away (skill_root_of j) d d'
     \<and> entry (locate p) d \<noteq> None \<and> entry (locate q) d' = entry (locate p) d \<and> entry (locate p) d' = None
     \<and> (\<forall>t. unrelated (locate p) t \<longrightarrow> unrelated (locate q) t \<longrightarrow> entry t d' = entry t d)"

lemma sem_rename:
  assumes tx: "tx_ok en jp j" and p: "p \<in> places j" and q: "q \<in> places j" and pq: "unrelated (locate p) (locate q)"
    and free: "entry (locate q) d = None" and f: "tx_frame en jp j d0 d"
  shows "wlp F (rename_path p q) (\<lambda>_ d'. moved en jp j d0 p q d d') (\<lambda>_ d'. d' = d) (\<lambda>d'. d' = d) d"
proof -
  obtain x y where x: "locate p = skill_root_of j @ [x]" and y: "locate q = skill_root_of j @ [y]"
    using place_in_root [OF tx p] place_in_root [OF tx q] by blast
  have xy: "x \<noteq> y" using pq by (auto simp: x y unrelated_def)
  have fold: "is_folder (skill_root_of j) d" using f by (simp add: tx_frame_def)
  have eff: "moved en jp j d0 p q d d'" if n: "entry (locate p) d = Some n"
    and d': "d' = put_entry (locate p) None (put_entry (locate q) (Some n) d)" for n d'
  proof -
    let ?d = "put_entry (locate q) (Some n) d"
    have "tx_frame en jp j d0 ?d" by (rule frame_place [OF tx q tree.away_put f])
    then have fr: "tx_frame en jp j d0 d'" unfolding d' by (rule frame_place [OF tx p tree.away_put])
    have "tree.away (skill_root_of j) d ?d" "tree.away (skill_root_of j) ?d d'"
      unfolding d' x y by (rule tree.away_inside, rule tree.away_put)+
    then have "tree.away (skill_root_of j) d d'" by (rule tree.away_trans)
    with fr rename_effect [OF fold xy n [unfolded x] d' [unfolded x y]] n show ?thesis unfolding moved_def x y by auto
  qed
  show ?thesis unfolding rename_path_def x y
    using eff free by (intro wlp_wrap wlp_rename [OF fold xy]) (auto simp: x y)
qed

section \<open>Getting the old target back\<close>

lemma not_lost_backup: "entry (locate (dj_backup j)) d = Some n \<Longrightarrow> not_lost en j n d"
  and not_lost_verified: "verified en j (dj_destination j) d \<Longrightarrow> not_lost en j n d"
  and not_lost_target: "entry (locate (dj_backup j)) d = None \<Longrightarrow> entry (locate (dj_destination j)) d = Some n \<Longrightarrow> not_lost en j n d"
  by (simp_all add: not_lost_def)

lemma places_simps [simp]:
  "dj_destination j \<in> places j" "dj_staging j \<in> places j" "dj_backup j \<in> places j"
  by (simp_all add: places_def)

lemma sem_restore:
  assumes tx: "tx_ok en jp j" and f: "tx_frame en jp j d0 d" and b: "entry (locate (dj_backup j)) d = Some n"
  shows "wlp F (restore_backup j)
    (\<lambda>_ d'. tx_safe en jp j d0 n d' \<and> entry (locate (dj_backup j)) d' = None \<and> entry (locate (dj_destination j)) d' = Some n)
    (\<lambda>_. tx_safe en jp j d0 n) (tx_safe en jp j d0 n) d"
proof -
  let ?Q = "\<lambda>(_ :: unit) d'. tx_safe en jp j d0 n d' \<and> entry (locate (dj_backup j)) d' = None \<and> entry (locate (dj_destination j)) d' = Some n"
  have good: "tx_safe en jp j d0 n d" using f b by (simp add: tx_safe_def not_lost_backup)
  have rename: "wlp F (do_then (rename_path (dj_backup j) (dj_destination j)) (\<lambda>_. sync_directory (locate (dj_skill_root j))))
      ?Q (\<lambda>_. tx_safe en jp j d0 n) (tx_safe en jp j d0 n) d" if none: "entry (locate (dj_destination j)) d = None"
  proof (rule wlp_seq [OF sem_rename [OF tx _ _ places_apart(4) [OF tx] none f]])
    fix u :: unit and d' assume m: "moved en jp j d0 (dj_backup j) (dj_destination j) d d'"
    then have "?Q () d'" using b by (simp add: moved_def tx_safe_def not_lost_target)
    then show "wlp F (sync_directory (locate (dj_skill_root j))) ?Q (\<lambda>_. tx_safe en jp j d0 n) (tx_safe en jp j d0 n) d'"
      by (intro wlp_mono [OF sem_sync]) auto
  qed (use good in auto)
  have second: "wlp F (do_then (exists_entry (dj_backup j)) (\<lambda>kept.
       if \<not> kept then raise (Unrecoverable (dj_transaction_id j) ''backup is missing'')
       else do_then (rename_path (dj_backup j) (dj_destination j)) (\<lambda>_. sync_directory (locate (dj_skill_root j)))))
      ?Q (\<lambda>_. tx_safe en jp j d0 n) (tx_safe en jp j d0 n) d" if none: "entry (locate (dj_destination j)) d = None"
    by (rule wlp_seq [OF sem_exists [OF tx _ f]]) (use rename [OF none] b good in auto)
  show ?thesis unfolding restore_backup_def
  proof (rule wlp_seq [OF sem_exists [OF tx _ f]])
    fix there d' assume "d' = d \<and> (there \<longleftrightarrow> entry (locate (dj_destination j)) d \<noteq> None)"
    then show "wlp F (if there then raise (Unrecoverable (dj_transaction_id j) ''cannot restore backup while destination exists'')
       else do_then (exists_entry (dj_backup j)) (\<lambda>kept.
         if \<not> kept then raise (Unrecoverable (dj_transaction_id j) ''backup is missing'')
         else do_then (rename_path (dj_backup j) (dj_destination j)) (\<lambda>_. sync_directory (locate (dj_skill_root j)))))
       ?Q (\<lambda>_. tx_safe en jp j d0 n) (tx_safe en jp j d0 n) d'"
      using second good by (cases there) (auto intro: wlp_raise)
  qed (use good in auto)
qed

lemma sem_remove_if_there:
  assumes tx: "tx_ok en jp j" and p: "p \<in> places j" and f: "tx_frame en jp j d0 d"
  shows "wlp F (remove_if_there p) (\<lambda>_ d'. tx_frame en jp j d0 d' \<and> tree.away (locate p) d d' \<and> entry (locate p) d' = None)
    (\<lambda>_ d'. tx_frame en jp j d0 d' \<and> tree.away (locate p) d d') (\<lambda>d'. tx_frame en jp j d0 d' \<and> tree.away (locate p) d d') d"
  unfolding remove_if_there_def
proof (rule wlp_seq [OF sem_exists [OF tx p f]])
  fix there d' assume d': "d' = d \<and> (there \<longleftrightarrow> entry (locate p) d \<noteq> None)"
  show "wlp F (if there then remove_entry p else give ())
    (\<lambda>_ d'. tx_frame en jp j d0 d' \<and> tree.away (locate p) d d' \<and> entry (locate p) d' = None)
    (\<lambda>_ d'. tx_frame en jp j d0 d' \<and> tree.away (locate p) d d') (\<lambda>d'. tx_frame en jp j d0 d' \<and> tree.away (locate p) d d') d'"
    using d' sem_remove [OF tx p f] f tree.away_refl by (cases there) (auto intro: wlp_give)
qed (use f tree.away_refl in auto)

lemma sem_discard:
  assumes tx: "tx_ok en jp j" and p: "p \<in> places j" and f: "tx_frame en jp j d0 d"
  shows "wlp F (discard j p) (\<lambda>_ d'. tx_frame en jp j d0 d' \<and> tree.away (locate p) d d' \<and> entry (locate p) d' = None)
    (\<lambda>_ d'. tx_frame en jp j d0 d' \<and> tree.away (locate p) d d') (\<lambda>d'. tx_frame en jp j d0 d' \<and> tree.away (locate p) d d') d"
  unfolding discard_def
proof (rule wlp_seq [OF sem_exists [OF tx p f]])
  fix there d' assume d': "d' = d \<and> (there \<longleftrightarrow> entry (locate p) d \<noteq> None)"
  have "wlp F (do_then (remove_entry p) (\<lambda>_. sync_directory (locate (dj_skill_root j))))
    (\<lambda>_ d'. tx_frame en jp j d0 d' \<and> tree.away (locate p) d d' \<and> entry (locate p) d' = None)
    (\<lambda>_ d'. tx_frame en jp j d0 d' \<and> tree.away (locate p) d d') (\<lambda>d'. tx_frame en jp j d0 d' \<and> tree.away (locate p) d d') d"
    by (rule wlp_seq [OF sem_remove [OF tx p f]]) (auto intro: wlp_mono [OF sem_sync])
  then show "wlp F (if there then do_then (remove_entry p) (\<lambda>_. sync_directory (locate (dj_skill_root j))) else give ())
    (\<lambda>_ d'. tx_frame en jp j d0 d' \<and> tree.away (locate p) d d' \<and> entry (locate p) d' = None)
    (\<lambda>_ d'. tx_frame en jp j d0 d' \<and> tree.away (locate p) d d') (\<lambda>d'. tx_frame en jp j d0 d' \<and> tree.away (locate p) d d') d'"
    using d' f tree.away_refl by (cases there) (auto intro: wlp_give)
qed (use f tree.away_refl in auto)

lemma sem_rollback:
  assumes tx: "tx_ok en jp j" and f: "tx_frame en jp j d0 d" and b: "entry (locate (dj_backup j)) d = Some n"
  shows "wlp F (rollback_active_to_backup j)
    (\<lambda>_ d'. tx_safe en jp j d0 n d' \<and> entry (locate (dj_backup j)) d' = None \<and> entry (locate (dj_destination j)) d' = Some n)
    (\<lambda>_. tx_safe en jp j d0 n) (tx_safe en jp j d0 n) d"
proof -
  have keep: "tx_frame en jp j d0 d' \<and> entry (locate (dj_backup j)) d' = Some n"
    if "tx_frame en jp j d0 d' \<and> tree.away (locate (dj_destination j)) d d'" for d'
    using that tree.away_entry [OF _ places_apart(1) [OF tx]] b by auto
  show ?thesis unfolding rollback_active_to_backup_def
    by (rule wlp_seq [OF sem_remove_if_there [OF tx _ f]])
      (use keep sem_restore [OF tx] in \<open>auto simp: tx_safe_def not_lost_backup\<close>)
qed

section \<open>Settling\<close>

lemma verified_after:
  assumes tx: "tx_ok en jp j" and v: "verified en j (dj_destination j) d"
  shows "tree.away jp d d' \<Longrightarrow> verified en j (dj_destination j) d'"
    and "tree.away (locate (dj_backup j)) d d' \<Longrightarrow> verified en j (dj_destination j) d'"
    and "tree.away (locate (dj_staging j)) d d' \<Longrightarrow> verified en j (dj_destination j) d'"
  using verified_away [OF _ _ _ v] place_apart [OF tx, of "dj_destination j"] place_apart [OF tx, of "dj_backup j"]
    place_apart [OF tx, of "dj_staging j"] places_apart [OF tx] by (meson places_simps)+

definition settled :: "engine \<Rightarrow> location \<Rightarrow> deploy_journal \<Rightarrow> node \<Rightarrow> node \<Rightarrow> bool" where
  "settled en jp j d0 d \<longleftrightarrow> tx_frame en jp j d0 d \<and> verified en j (dj_destination j) d \<and> entry (locate (dj_backup j)) d = None"

lemma sem_settle:
  assumes tx: "tx_ok en jp j" and f: "tx_frame en jp j d0 d" and v: "verified en j (dj_destination j) d"
  shows "wlp F (settle en jp j)
    (\<lambda>r d'. r = deploy_result_of (in_phase DeployActivated j) \<and> settled en jp j d0 d' \<and> entry (locate (dj_staging j)) d' = entry (locate (dj_staging j)) d)
    (\<lambda>_ d'. tx_frame en jp j d0 d' \<and> verified en j (dj_destination j) d') (\<lambda>d'. tx_frame en jp j d0 d' \<and> verified en j (dj_destination j) d') d"
proof -
  have jp: "unrelated jp (locate (dj_staging j))" using place_apart(3) [OF tx] by simp
  show ?thesis unfolding settle_def
  proof (rule wlp_seq [OF sem_persist [OF tx f]])
    fix u :: unit and d1 assume d1: "tx_frame en jp j d0 d1 \<and> tree.away jp d d1"
    then have f1: "tx_frame en jp j d0 d1" and v1: "verified en j (dj_destination j) d1"
      and s1: "entry (locate (dj_staging j)) d1 = entry (locate (dj_staging j)) d"
      using verified_after(1) [OF tx v] tree.away_entry [OF _ jp] by auto
    have keep: "verified en j (dj_destination j) d2 \<and> entry (locate (dj_staging j)) d2 = entry (locate (dj_staging j)) d"
      if "tree.away (locate (dj_backup j)) d1 d2" for d2
      using verified_after(2) [OF tx v1 that] tree.away_entry [OF that places_apart(6) [OF tx]] s1 by simp
    show "wlp F (do_then (discard j (dj_backup j)) (\<lambda>_. give (deploy_result_of (in_phase DeployActivated j))))
      (\<lambda>r d'. r = deploy_result_of (in_phase DeployActivated j) \<and> settled en jp j d0 d' \<and> entry (locate (dj_staging j)) d' = entry (locate (dj_staging j)) d)
      (\<lambda>_ d'. tx_frame en jp j d0 d' \<and> verified en j (dj_destination j) d') (\<lambda>d'. tx_frame en jp j d0 d' \<and> verified en j (dj_destination j) d') d1"
      by (rule wlp_seq [OF sem_discard [OF tx _ f1]]) (use keep in \<open>auto simp: settled_def intro!: wlp_give\<close>)
  qed (use verified_after(1) [OF tx v] in auto)
qed

section \<open>Deploying over an old target\<close>

definition intact :: "engine \<Rightarrow> location \<Rightarrow> deploy_journal \<Rightarrow> node \<Rightarrow> node \<Rightarrow> node \<Rightarrow> bool" where
  "intact en jp j d0 n d \<longleftrightarrow> tx_frame en jp j d0 d
     \<and> entry (locate (dj_backup j)) d = None \<and> entry (locate (dj_destination j)) d = Some n"

definition old_moved :: "engine \<Rightarrow> location \<Rightarrow> deploy_journal \<Rightarrow> node \<Rightarrow> node \<Rightarrow> node \<Rightarrow> bool" where
  "old_moved en jp j d0 n d \<longleftrightarrow> tx_frame en jp j d0 d
     \<and> entry (locate (dj_backup j)) d = Some n \<and> entry (locate (dj_destination j)) d = None \<and> verified en j (dj_staging j) d"

lemma intact_safe: "intact en jp j d0 n d \<Longrightarrow> tx_safe en jp j d0 n d"
  and old_moved_safe: "old_moved en jp j d0 n d \<Longrightarrow> tx_safe en jp j d0 n d"
  by (simp_all add: intact_def old_moved_def tx_safe_def not_lost_def)

lemma intact_away:
  assumes "tx_ok en jp j" and "intact en jp j d0 n d" and "tx_frame en jp j d0 d'"
    and "tree.away jp d d' \<or> tree.away (locate (dj_staging j)) d d'"
  shows "intact en jp j d0 n d'"
  using assms place_apart(3) [OF assms(1), of "dj_destination j"] place_apart(3) [OF assms(1), of "dj_backup j"] places_apart(3,5) [OF assms(1)]
  by (auto simp: intact_def dest: tree.away_entry)

lemma confined_materialize_snapshot: "confined (locate p) (materialize_snapshot codec sha root hash p)"
  unfolding materialize_snapshot_def materialize_snapshot_with_policy_def
  by (intro confined_do_then confined_attempt confined_metadata)
    (auto split: sum.split intro: confined_rules confined_materialize_at)

lemma keeps_intact:
  assumes tx: "tx_ok en jp j"
  shows "keeps (intact en jp j d0 n) (persist en jp (in_phase ph j))"
    and "keeps (intact en jp j d0 n) (drop_journal en jp)"
    and "keeps (intact en jp j d0 n) (remove_entry (dj_staging j))"
    and "keeps (intact en jp j d0 n) (materialize_snapshot codec sha root hash (dj_staging j))"
proof -
  have fr: "tx_frame en jp j d0 d" if "intact en jp j d0 n d" for d using that by (simp add: intact_def)
  show "keeps (intact en jp j d0 n) (persist en jp (in_phase ph j))"
    by (rule keepsI, rule wlp_mono [OF sem_persist [OF tx fr]]) (simp_all add: intact_away [OF tx])
  show "keeps (intact en jp j d0 n) (drop_journal en jp)"
    by (rule keepsI, rule wlp_mono [OF sem_drop [OF tx fr]]) (simp_all add: intact_away [OF tx])
  show "keeps (intact en jp j d0 n) (remove_entry (dj_staging j))"
    by (rule keepsI, rule wlp_mono [OF sem_remove [OF tx _ fr]]) (simp_all add: intact_away [OF tx])
  show "keeps (intact en jp j d0 n) (materialize_snapshot codec sha root hash (dj_staging j))"
    using intact_away [OF tx] frame_place [OF tx _ _ fr, of "dj_staging j"]
    by (intro keeps_confined [OF confined_materialize_snapshot]) auto
qed

lemma keeps_reads_deploy:
  "keeps P (exists_entry p)" "keeps P (sync_directory q)" "keeps P (verify_path en h p)" "keeps P (path_is_real_directory q)"
  unfolding exists_entry_def sync_directory_def verify_path_def path_is_real_directory_def by (intro keeps_rules)+

lemma keeps_unstage: "tx_ok en jp j \<Longrightarrow> keeps (intact en jp j d0 n) (unstage en jp j)"
  unfolding unstage_def by (intro keeps_rules keeps_intact keeps_reads_deploy)

lemma sem_stage:
  assumes tx: "tx_ok en jp j" and i: "intact en jp j d0 n d"
  shows "wlp F (stage en jp j) (\<lambda>_ d'. intact en jp j d0 n d' \<and> verified en j (dj_staging j) d')
    (\<lambda>_. intact en jp j d0 n) (intact en jp j d0 n) d"
  unfolding stage_def
proof (rule wlp_keeps_seq [where P = "intact en jp j d0 n", OF _ i])
  show "keeps (intact en jp j d0 n) (wrap DeploySnapshot (materialize_snapshot (en_manifests en) (en_sha en) (en_blobs en)
      (dj_snapshot_hash j) (dj_staging j)))" by (intro keeps_rules keeps_intact tx)
  fix d1 assume i1: "intact en jp j d0 n d1"
  have last: "wlp F (persist en jp (in_phase DeployPrepared j)) (\<lambda>_ d'. intact en jp j d0 n d' \<and> verified en j (dj_staging j) d')
      (\<lambda>_. intact en jp j d0 n) (intact en jp j d0 n) d1" if v: "verified en j (dj_staging j) d1"
  proof (rule wlp_mono [OF sem_persist [OF tx]])
    fix u :: unit and d' assume d': "tx_frame en jp j d0 d' \<and> tree.away jp d1 d'"
    then have "verified en j (dj_staging j) d'"
      using verified_away [OF _ _ _ v] place_apart(3,6) [OF tx, of "dj_staging j"] by auto
    then show "intact en jp j d0 n d' \<and> verified en j (dj_staging j) d'" using intact_away [OF tx i1] d' by blast
  qed (use i1 intact_away [OF tx i1] in \<open>auto simp: intact_def\<close>)
  have mid: "wlp F (do_then (sync_directory (locate (dj_skill_root j))) (\<lambda>_. persist en jp (in_phase DeployPrepared j)))
      (\<lambda>_ d'. intact en jp j d0 n d' \<and> verified en j (dj_staging j) d')
      (\<lambda>_. intact en jp j d0 n) (intact en jp j d0 n) d1" if "verified en j (dj_staging j) d1"
    by (rule wlp_seq [OF sem_sync]) (use last [OF that] i1 in auto)
  show "wlp F (do_then (wrap DeployVerification (verify_path en (dj_snapshot_hash j) (dj_staging j))) (\<lambda>_.
     do_then (sync_directory (locate (dj_skill_root j))) (\<lambda>_. persist en jp (in_phase DeployPrepared j))))
     (\<lambda>_ d'. intact en jp j d0 n d' \<and> verified en j (dj_staging j) d') (\<lambda>_. intact en jp j d0 n) (intact en jp j d0 n) d1"
    by (rule wlp_do_then, rule wlp_wrap, rule wlp_mono [OF sem_verify]) (use mid i1 in auto)
qed auto

lemma sem_move_old:
  assumes tx: "tx_ok en jp j" and i: "intact en jp j d0 n d" and v: "verified en j (dj_staging j) d"
  shows "wlp F (move_old en jp j) (\<lambda>_. old_moved en jp j d0 n) (\<lambda>_. tx_safe en jp j d0 n) (tx_safe en jp j d0 n) d"
proof -
  have f: "tx_frame en jp j d0 d" and free: "entry (locate (dj_backup j)) d = None" using i by (simp_all add: intact_def)
  have root: "unrelated (skill_root_of j) (en_blobs en)" using tx by (simp add: tx_ok_def)
  show ?thesis unfolding move_old_def
  proof (rule wlp_seq [OF sem_rename [OF tx _ _ places_apart(1) [OF tx] free f]])
    fix u :: unit and d1 assume m: "moved en jp j d0 (dj_destination j) (dj_backup j) d d1"
    have "verified en j (dj_staging j) d1"
      using verified_moved [OF _ root _ v] m places_apart [OF tx] by (auto simp: moved_def)
    then have o1: "old_moved en jp j d0 n d1" using m i by (simp add: old_moved_def moved_def intact_def)
    have keep: "old_moved en jp j d0 n d2" if d2: "tx_frame en jp j d0 d2 \<and> tree.away jp d1 d2" for d2
    proof -
      have "entry (locate p) d2 = entry (locate p) d1" if "p \<in> places j" for p
        using tree.away_entry d2 place_apart(3) [OF tx that] by blast
      moreover have "verified en j (dj_staging j) d2"
        using verified_away [of jp d1 d2 en "dj_staging j" j] place_apart(3,6) [OF tx, of "dj_staging j"] d2 o1 by (auto simp: old_moved_def)
      ultimately show ?thesis using o1 d2 by (simp add: old_moved_def)
    qed
    have f1: "tx_frame en jp j d0 d1" using o1 by (simp add: old_moved_def)
    have fin: "wlp F (persist en jp (in_phase DeployOldMoved j)) (\<lambda>_. old_moved en jp j d0 n) (\<lambda>_. tx_safe en jp j d0 n) (tx_safe en jp j d0 n) d1"
      by (rule wlp_mono [OF sem_persist [OF tx f1]]) (use keep old_moved_safe in blast)+
    show "wlp F (do_then (sync_directory (locate (dj_skill_root j))) (\<lambda>_. persist en jp (in_phase DeployOldMoved j)))
      (\<lambda>_. old_moved en jp j d0 n) (\<lambda>_. tx_safe en jp j d0 n) (tx_safe en jp j d0 n) d1"
      by (rule wlp_seq [OF sem_sync]) (use fin old_moved_safe [OF o1] in auto)
  qed (use intact_safe [OF i] in auto)
qed

lemma sem_undo:
  assumes tx: "tx_ok en jp j" and f: "tx_frame en jp j d0 d" and b: "entry (locate (dj_backup j)) d = Some n"
    and replaced: "dj_replaced_existing j"
  shows "wlp F (undo_activation en jp j e) (\<lambda>_ _. False) (\<lambda>_. tx_safe en jp j d0 n) (tx_safe en jp j d0 n) d"
proof -
  have good: "tx_safe en jp j d0 n d" using f b by (simp add: tx_safe_def not_lost_backup)
  have fin: "wlp F (do_then (attempt (drop_journal en jp)) (\<lambda>_. raise (DeployVerification e)))
      (\<lambda>_ _. False) (\<lambda>_. tx_safe en jp j d0 n) (tx_safe en jp j d0 n) d'" if i: "intact en jp j d0 n d'" for d'
    by (rule wlp_try [OF keepsD [OF keeps_intact(2) [OF tx] i]]) (auto intro: wlp_raise intact_safe)
  have roll: "wlp F (do_then (rollback_active_to_backup j) (\<lambda>_. do_then (attempt (drop_journal en jp)) (\<lambda>_. raise (DeployVerification e))))
      (\<lambda>_ _. False) (\<lambda>_. tx_safe en jp j d0 n) (tx_safe en jp j d0 n) d"
    by (rule wlp_seq [OF sem_rollback [OF tx f b]]) (use fin in \<open>auto simp: intact_def tx_safe_def\<close>)
  show ?thesis unfolding undo_activation_def using replaced
    by (simp, intro wlp_seq [OF sem_exists [OF tx _ f]]) (use roll b good in auto)
qed

lemma sem_activate:
  assumes tx: "tx_ok en jp j" and o: "old_moved en jp j d0 n d" and replaced: "dj_replaced_existing j"
  shows "wlp F (activate en jp j)
    (\<lambda>_ d'. tx_frame en jp j d0 d' \<and> verified en j (dj_destination j) d' \<and> entry (locate (dj_staging j)) d' = None)
    (\<lambda>_. tx_safe en jp j d0 n) (tx_safe en jp j d0 n) d"
proof -
  let ?Q = "\<lambda>(_ :: unit) d'. tx_frame en jp j d0 d' \<and> verified en j (dj_destination j) d' \<and> entry (locate (dj_staging j)) d' = None"
  have f: "tx_frame en jp j d0 d" and b: "entry (locate (dj_backup j)) d = Some n"
    and free: "entry (locate (dj_destination j)) d = None" and v: "verified en j (dj_staging j) d"
    using o by (simp_all add: old_moved_def)
  have root: "unrelated (skill_root_of j) (en_blobs en)" using tx by (simp add: tx_ok_def)
  show ?thesis unfolding activate_def
  proof (rule wlp_seq [OF sem_rename [OF tx _ _ places_apart(5) [OF tx] free f]])
    fix u :: unit and d1 assume m: "moved en jp j d0 (dj_staging j) (dj_destination j) d d1"
    have q1: "?Q () d1" using m verified_moved [OF _ root _ v] by (auto simp: moved_def)
    have b1: "entry (locate (dj_backup j)) d1 = Some n" using m b places_apart [OF tx] by (simp add: moved_def)
    have good: "tx_safe en jp j d0 n d1" using q1 by (simp add: tx_safe_def not_lost_verified)
    have check: "wlp F (do_then (attempt (verify_path en (dj_snapshot_hash j) (dj_destination j))) (\<lambda>r. case r of
         Inl e \<Rightarrow> undo_activation en jp j e | Inr _ \<Rightarrow> give ())) ?Q (\<lambda>_. tx_safe en jp j d0 n) (tx_safe en jp j d0 n) d1"
      by (rule wlp_try [OF sem_verify])
        (use q1 good wlp_mono [OF sem_undo [OF tx _ b1 replaced]] in \<open>auto intro: wlp_give\<close>)
    show "wlp F (do_then (sync_directory (locate (dj_skill_root j))) (\<lambda>_.
       do_then (attempt (verify_path en (dj_snapshot_hash j) (dj_destination j))) (\<lambda>r. case r of
         Inl e \<Rightarrow> undo_activation en jp j e | Inr _ \<Rightarrow> give ()))) ?Q (\<lambda>_. tx_safe en jp j d0 n) (tx_safe en jp j d0 n) d1"
      by (rule wlp_seq [OF sem_sync]) (use check good in auto)
  qed (use old_moved_safe [OF o] in auto)
qed

lemma sem_deploy_transaction:
  assumes tx: "tx_ok en jp j" and i: "intact en jp j d0 n d" and j: "dj_phase j = DeployIntent" "dj_replaced_existing j"
  shows "wlp F (deploy_transaction en jp j)
    (\<lambda>r d'. r = deploy_result_of (in_phase DeployActivated j) \<and> settled en jp j d0 d' \<and> entry (locate (dj_staging j)) d' = None)
    (\<lambda>_. tx_safe en jp j d0 n) (tx_safe en jp j d0 n) d"
proof -
  let ?Q = "\<lambda>r d'. r = deploy_result_of (in_phase DeployActivated j) \<and> settled en jp j d0 d' \<and> entry (locate (dj_staging j)) d' = None"
    and ?S = "tx_safe en jp j d0 n"
  have first: "persist en jp j = persist en jp (in_phase DeployIntent j)" using j(1) by (cases j) (simp add: in_phase_def)
  have last: "wlp F (settle en jp j) ?Q (\<lambda>_. ?S) ?S d3"
    if "tx_frame en jp j d0 d3 \<and> verified en j (dj_destination j) d3 \<and> entry (locate (dj_staging j)) d3 = None" for d3
    by (rule wlp_mono [OF sem_settle [OF tx]]) (use that in \<open>auto simp: tx_safe_def not_lost_verified\<close>)
  have go: "wlp F (do_then (activate en jp j) (\<lambda>_. settle en jp j)) ?Q (\<lambda>_. ?S) ?S d2" if "old_moved en jp j d0 n d2" for d2
    by (rule wlp_seq [OF sem_activate [OF tx that j(2)]]) (use last in auto)
  have swap: "wlp F (do_then (move_old en jp j) (\<lambda>_. do_then (activate en jp j) (\<lambda>_. settle en jp j))) ?Q (\<lambda>_. ?S) ?S d1"
    if "intact en jp j d0 n d1 \<and> verified en j (dj_staging j) d1" for d1
    by (rule wlp_seq [OF sem_move_old [OF tx]]) (use that go in auto)
  have undo: "wlp F (do_then (unstage en jp j) (\<lambda>_. raise e)) ?Q (\<lambda>_. ?S) ?S d1" if "intact en jp j d0 n d1" for e d1
    by (rule wlp_keeps_seq [where P = "intact en jp j d0 n", OF keeps_unstage [OF tx] that]) (auto intro: wlp_raise intact_safe)
  show ?thesis unfolding deploy_transaction_def first
  proof (rule wlp_keeps_seq [where P = "intact en jp j d0 n", OF keeps_intact(1) [OF tx] i])
    fix d1 assume i1: "intact en jp j d0 n d1"
    show "wlp F (do_then (attempt (stage en jp j)) (\<lambda>staged. case staged of
       Inl e \<Rightarrow> do_then (unstage en jp j) (\<lambda>_. raise e)
     | Inr _ \<Rightarrow>
         do_then (if dj_replaced_existing j then move_old en jp j else give ()) (\<lambda>_.
         do_then (activate en jp j) (\<lambda>_. settle en jp j)))) ?Q (\<lambda>_. ?S) ?S d1"
      by (rule wlp_try [OF sem_stage [OF tx i1]]) (use swap undo j(2) intact_safe in auto)
  qed (auto intro: intact_safe)
qed

section \<open>Recovery\<close>

lemma safe_away:
  assumes tx: "tx_ok en jp j" and s: "tx_safe en jp j d0 n d" and f: "tx_frame en jp j d0 d'"
    and a: "tree.away jp d d' \<or> tree.away (locate (dj_staging j)) d d'"
  shows "tx_safe en jp j d0 n d'"
proof -
  have "entry (locate (dj_backup j)) d' = entry (locate (dj_backup j)) d" "entry (locate (dj_destination j)) d' = entry (locate (dj_destination j)) d"
    using a tree.away_entry place_apart(3) [OF tx, of "dj_backup j"] place_apart(3) [OF tx, of "dj_destination j"] places_apart(3,5) [OF tx]
    by auto
  moreover have "verified en j (dj_destination j) d'" if "verified en j (dj_destination j) d"
    using verified_after(1,3) [OF tx that] a by blast
  ultimately show ?thesis using s f by (auto simp: tx_safe_def not_lost_def)
qed

lemma keeps_safe:
  assumes tx: "tx_ok en jp j"
  shows "keeps (tx_safe en jp j d0 n) (drop_journal en jp)"
    and "keeps (tx_safe en jp j d0 n) (remove_entry (dj_staging j))"
proof -
  have fr: "tx_frame en jp j d0 d" if "tx_safe en jp j d0 n d" for d using that by (simp add: tx_safe_def)
  show "keeps (tx_safe en jp j d0 n) (drop_journal en jp)"
    by (rule keepsI, rule wlp_mono [OF sem_drop [OF tx fr]]) (simp_all add: safe_away [OF tx])
  show "keeps (tx_safe en jp j d0 n) (remove_entry (dj_staging j))"
    by (rule keepsI, rule wlp_mono [OF sem_remove [OF tx _ fr]]) (simp_all add: safe_away [OF tx])
qed

definition recovered :: "engine \<Rightarrow> location \<Rightarrow> deploy_journal \<Rightarrow> node \<Rightarrow> node \<Rightarrow> recovery_outcome \<Rightarrow> node \<Rightarrow> bool" where
  "recovered en jp j d0 n r d \<longleftrightarrow> tx_safe en jp j d0 n d
     \<and> (r \<noteq> RolledBack \<longrightarrow> r = Committed (deploy_result_of (in_phase DeployActivated j)) \<and> settled en jp j d0 d)"

lemma sem_roll_back:
  assumes tx: "tx_ok en jp j" and undo: "wlp F m (\<lambda>_. tx_safe en jp j d0 n) (\<lambda>_. tx_safe en jp j d0 n) (tx_safe en jp j d0 n) d"
  shows "wlp F (roll_back en jp m) (recovered en jp j d0 n) (\<lambda>_. tx_safe en jp j d0 n) (tx_safe en jp j d0 n) d"
  unfolding roll_back_def
proof (rule wlp_seq [OF undo])
  fix u :: unit and d' assume s: "tx_safe en jp j d0 n d'"
  show "wlp F (do_then (drop_journal en jp) (\<lambda>_. give RolledBack)) (recovered en jp j d0 n)
      (\<lambda>_. tx_safe en jp j d0 n) (tx_safe en jp j d0 n) d'"
    by (rule wlp_keeps_seq [where P = "tx_safe en jp j d0 n", OF keeps_safe(1) [OF tx] s])
      (auto intro: wlp_give simp: recovered_def)
qed

lemma sem_commit:
  assumes tx: "tx_ok en jp j" and f: "tx_frame en jp j d0 d" and v: "verified en j (dj_destination j) d"
  shows "wlp F (commit en jp j) (recovered en jp j d0 n) (\<lambda>_. tx_safe en jp j d0 n) (tx_safe en jp j d0 n) d"
  unfolding commit_def
  by (rule wlp_seq [OF sem_settle [OF tx f v]]) (auto intro!: wlp_give simp: recovered_def settled_def tx_safe_def not_lost_verified)

lemma backup_is_old:
  assumes "tx_safe en jp j d0 n d" and "\<not> verified en j (dj_destination j) d" and "entry (locate (dj_backup j)) d \<noteq> None"
  shows "entry (locate (dj_backup j)) d = Some n"
  using assms by (auto simp: tx_safe_def not_lost_def)

lemma not_verified_absent: "entry (locate p) d = None \<Longrightarrow> \<not> verified en j p d"
  by (auto simp: verified_def verify_materialized_snapshot_def stat_Found split: stat_result.split_asm)

lemma sem_verify_active:
  assumes tx: "tx_ok en jp j" and s: "tx_safe en jp j d0 n d" and crash: "\<And>k. Fail k \<notin> F"
  shows "wlp F (verify_active_or_restore_backup en jp j) (recovered en jp j d0 n) (\<lambda>_. tx_safe en jp j d0 n) (tx_safe en jp j d0 n) d"
proof -
  have f: "tx_frame en jp j d0 d" using s by (simp add: tx_safe_def)
  have yes: "wlp F (do_then (remove_if_there (dj_staging j)) (\<lambda>_. commit en jp j)) (recovered en jp j d0 n)
      (\<lambda>_. tx_safe en jp j d0 n) (tx_safe en jp j d0 n) d" if v: "verified en j (dj_destination j) d"
    by (rule wlp_seq [OF sem_remove_if_there [OF tx _ f]])
      (use verified_after(3) [OF tx v] sem_commit [OF tx] in \<open>auto simp: tx_safe_def not_lost_verified\<close>)
  have no: "wlp F (do_then (exists_entry (dj_backup j)) (\<lambda>kept.
         if kept then roll_back en jp (rollback_active_to_backup j) else raise (DeployVerification e))) (recovered en jp j d0 n)
      (\<lambda>_. tx_safe en jp j d0 n) (tx_safe en jp j d0 n) d" if v: "\<not> verified en j (dj_destination j) d" for e
  proof (rule wlp_seq [OF sem_exists [OF tx _ f]])
    fix kept d' assume d': "d' = d \<and> (kept \<longleftrightarrow> entry (locate (dj_backup j)) d \<noteq> None)"
    have "wlp F (roll_back en jp (rollback_active_to_backup j)) (recovered en jp j d0 n)
        (\<lambda>_. tx_safe en jp j d0 n) (tx_safe en jp j d0 n) d" if "entry (locate (dj_backup j)) d \<noteq> None"
      by (rule sem_roll_back [OF tx], rule wlp_mono [OF sem_rollback [OF tx f backup_is_old [OF s v that]]]) auto
    then show "wlp F (if kept then roll_back en jp (rollback_active_to_backup j) else raise (DeployVerification e)) (recovered en jp j d0 n)
      (\<lambda>_. tx_safe en jp j d0 n) (tx_safe en jp j d0 n) d'"
      using d' s by (cases kept) (auto intro: wlp_raise)
  qed (use s in auto)
  show ?thesis unfolding verify_active_or_restore_backup_def
    by (rule wlp_try [OF sem_verify]) (use yes no crash s in auto)
qed

lemma sem_activate_staging:
  assumes tx: "tx_ok en jp j" and s: "tx_safe en jp j d0 n d"
    and free: "entry (locate (dj_destination j)) d = None" and b: "entry (locate (dj_backup j)) d \<noteq> None"
  shows "wlp F (activate_verified_staging en jp j) (recovered en jp j d0 n) (\<lambda>_. tx_safe en jp j d0 n) (tx_safe en jp j d0 n) d"
proof -
  let ?R = "recovered en jp j d0 n" and ?S = "tx_safe en jp j d0 n"
  have f: "tx_frame en jp j d0 d" using s by (simp add: tx_safe_def)
  have b: "entry (locate (dj_backup j)) d = Some n" by (rule backup_is_old [OF s not_verified_absent [OF free] b])
  have root: "unrelated (skill_root_of j) (en_blobs en)" using tx by (simp add: tx_ok_def)
  have undone: "wlp F (do_then (remove_if_there (dj_staging j)) (\<lambda>_. restore_backup j)) (\<lambda>_. ?S) (\<lambda>_. ?S) ?S d"
  proof (rule wlp_seq [OF sem_remove_if_there [OF tx _ f]])
    fix u :: unit and d1
    assume d1: "tx_frame en jp j d0 d1 \<and> tree.away (locate (dj_staging j)) d d1 \<and> entry (locate (dj_staging j)) d1 = None"
    have "entry (locate (dj_backup j)) d1 = Some n" using d1 b tree.away_entry [OF _ places_apart(3) [OF tx]] by auto
    then show "wlp F (restore_backup j) (\<lambda>_. ?S) (\<lambda>_. ?S) ?S d1"
      using d1 by (intro wlp_mono [OF sem_restore [OF tx]]) auto
  qed (use safe_away [OF tx s] in auto)
  have no: "wlp F (do_then (exists_entry (dj_backup j)) (\<lambda>kept.
         if kept then roll_back en jp (do_then (remove_if_there (dj_staging j)) (\<lambda>_. restore_backup j))
         else raise (DeployVerification e))) ?R (\<lambda>_. ?S) ?S d" for e
    by (rule wlp_seq [OF sem_exists [OF tx _ f]]) (use sem_roll_back [OF tx undone] b s in auto)
  have yes: "wlp F (do_then (rename_path (dj_staging j) (dj_destination j)) (\<lambda>_.
         do_then (sync_directory (locate (dj_skill_root j))) (\<lambda>_.
         do_then (wrap DeployVerification (verify_path en (dj_snapshot_hash j) (dj_destination j))) (\<lambda>_.
         commit en jp j)))) ?R (\<lambda>_. ?S) ?S d" if v: "verified en j (dj_staging j) d"
  proof (rule wlp_seq [OF sem_rename [OF tx _ _ places_apart(5) [OF tx] free f]])
    fix u :: unit and d1 assume m: "moved en jp j d0 (dj_staging j) (dj_destination j) d d1"
    then have f1: "tx_frame en jp j d0 d1" and v1: "verified en j (dj_destination j) d1"
      using verified_moved [OF _ root _ v] by (auto simp: moved_def)
    then have s1: "?S d1" by (simp add: tx_safe_def not_lost_verified)
    have "wlp F (do_then (wrap DeployVerification (verify_path en (dj_snapshot_hash j) (dj_destination j))) (\<lambda>_. commit en jp j)) ?R (\<lambda>_. ?S) ?S d1"
      by (rule wlp_do_then, rule wlp_wrap, rule wlp_mono [OF sem_verify]) (use s1 sem_commit [OF tx f1 v1] in auto)
    then show "wlp F (do_then (sync_directory (locate (dj_skill_root j))) (\<lambda>_.
         do_then (wrap DeployVerification (verify_path en (dj_snapshot_hash j) (dj_destination j))) (\<lambda>_.
         commit en jp j))) ?R (\<lambda>_. ?S) ?S d1"
      by (intro wlp_seq [OF sem_sync]) (use s1 in auto)
  qed (use s in auto)
  show ?thesis unfolding activate_verified_staging_def
    by (rule wlp_try [OF sem_verify]) (use yes no s in auto)
qed

lemma sem_discard_staging:
  assumes tx: "tx_ok en jp j" and s: "tx_safe en jp j d0 n d"
  shows "wlp F (discard_staging en jp j) (recovered en jp j d0 n) (\<lambda>_. tx_safe en jp j d0 n) (tx_safe en jp j d0 n) d"
  unfolding discard_staging_def
  by (rule sem_roll_back [OF tx], rule keepsD [where P = "tx_safe en jp j d0 n", OF _ s]) (intro keeps_rules keeps_safe(2) [OF tx] keeps_reads_deploy)

definition seen_on :: "deploy_journal \<Rightarrow> node \<Rightarrow> bool \<times> bool \<times> bool" where
  "seen_on j d = (entry (locate (dj_destination j)) d \<noteq> None, entry (locate (dj_staging j)) d \<noteq> None, entry (locate (dj_backup j)) d \<noteq> None)"

lemma sem_recover_moved:
  assumes tx: "tx_ok en jp j" and s: "tx_safe en jp j d0 n d" and crash: "\<And>k. Fail k \<notin> F"
  shows "wlp F (recover_moved en jp j (seen_on j d)) (recovered en jp j d0 n) (\<lambda>_. tx_safe en jp j d0 n) (tx_safe en jp j d0 n) d"
proof -
  have f: "tx_frame en jp j d0 d" using s by (simp add: tx_safe_def)
  have old: "wlp F (roll_back en jp (restore_backup j)) (recovered en jp j d0 n) (\<lambda>_. tx_safe en jp j d0 n) (tx_safe en jp j d0 n) d"
    if "entry (locate (dj_destination j)) d = None" "entry (locate (dj_backup j)) d \<noteq> None"
    by (rule sem_roll_back [OF tx], rule wlp_mono [OF sem_restore [OF tx f backup_is_old [OF s not_verified_absent [OF that(1)] that(2)]]]) auto
  have act: "wlp F (activate_verified_staging en jp j) (recovered en jp j d0 n) (\<lambda>_. tx_safe en jp j d0 n) (tx_safe en jp j d0 n) d"
    if "seen_on j d = (False, True, True)" by (rule sem_activate_staging [OF tx s]) (use that in \<open>auto simp: seen_on_def\<close>)
  have old': "wlp F (roll_back en jp (restore_backup j)) (recovered en jp j d0 n) (\<lambda>_. tx_safe en jp j d0 n) (tx_safe en jp j d0 n) d"
    if "seen_on j d = (False, False, True)" by (rule old) (use that in \<open>auto simp: seen_on_def\<close>)
  have other: "wlp F (raise (unexpected_state j (seen_on j d))) (recovered en jp j d0 n) (\<lambda>_. tx_safe en jp j d0 n) (tx_safe en jp j d0 n) d"
    by (rule wlp_raise) (rule s)
  show ?thesis unfolding recover_moved_def using act old' other sem_verify_active [OF tx s crash] by presburger
qed

lemma sem_recover_phase:
  assumes tx: "tx_ok en jp j" and s: "tx_safe en jp j d0 n d" and crash: "\<And>k. Fail k \<notin> F" and replaced: "dj_replaced_existing j"
  shows "wlp F (recover_phase en jp j (seen_on j d)) (recovered en jp j d0 n) (\<lambda>_. tx_safe en jp j d0 n) (tx_safe en jp j d0 n) d"
proof (cases "dj_phase j")
  case DeployIntent
  have "wlp F (roll_back en jp (give ())) (recovered en jp j d0 n) (\<lambda>_. tx_safe en jp j d0 n) (tx_safe en jp j d0 n) d"
    by (rule sem_roll_back [OF tx], rule wlp_give) (rule s)
  then show ?thesis using sem_discard_staging [OF tx s] s
    by (auto simp: recover_phase_def DeployIntent recover_intent_def intro: wlp_raise split: prod.split)
next
  case DeployPrepared
  then show ?thesis using sem_discard_staging [OF tx s] sem_recover_moved [OF tx s crash] replaced
    by (simp add: recover_phase_def recover_prepared_def)
next
  case DeployOldMoved
  then show ?thesis using sem_recover_moved [OF tx s crash] by (simp add: recover_phase_def)
next
  case DeployActivated
  have f: "tx_frame en jp j d0 d" using s by (simp add: tx_safe_def)
  have "wlp F (roll_back en jp (restore_backup j)) (recovered en jp j d0 n) (\<lambda>_. tx_safe en jp j d0 n) (tx_safe en jp j d0 n) d"
    if "entry (locate (dj_destination j)) d = None" "entry (locate (dj_backup j)) d \<noteq> None"
    by (rule sem_roll_back [OF tx], rule wlp_mono [OF sem_restore [OF tx f backup_is_old [OF s not_verified_absent [OF that(1)] that(2)]]]) auto
  then show ?thesis using sem_verify_active [OF tx s crash] s
    by (auto simp: recover_phase_def DeployActivated recover_activated_def seen_on_def intro: wlp_raise)
qed

lemma sem_ensure_root:
  assumes "is_folder p d"
  shows "wlp F (ensure_directory_root p) (\<lambda>_ d'. d' = d) (\<lambda>_ d'. d' = d) (\<lambda>d'. d' = d) d"
  unfolding ensure_directory_root_def
  by (rule wlp_do_then, rule wlp_attempt, rule wlp_metadata)
    (use assms in \<open>auto simp: is_folder_iff folder_node_def intro: wlp_give wlp_raise\<close>)

lemma sem_load:
  assumes tx: "tx_ok en jp j" and f: "tx_frame en jp j d0 d"
  shows "wlp F (load_journal en jp) (\<lambda>r d'. d' = d \<and> (\<exists>ph. r = in_phase ph j)) (\<lambda>_ d'. d' = d) (\<lambda>d'. d' = d) d"
proof -
  have read: "wlp F (read_latest_journal (en_decode en) jp) (\<lambda>r d'. d' = d \<and> r \<in> {r. \<exists>ph. r = in_phase ph j}) (\<lambda>_ d'. d' = d) (\<lambda>d'. d' = d) d"
    by (rule wlp_read_latest) (use tx f in \<open>auto simp: tx_ok_def tx_frame_def\<close>)
  show ?thesis unfolding load_journal_def
    by (rule wlp_do_then, rule wlp_wrap, rule wlp_mono [OF read]) (auto intro!: wlp_do_then wlp_from_result wlp_give)
qed

lemma sem_recover_one:
  assumes tx: "tx_ok en jp j" and s: "tx_safe en jp j d0 n d" and crash: "\<And>k. Fail k \<notin> F" and replaced: "dj_replaced_existing j"
  shows "wlp F (recover_one en jp) (recovered en jp j d0 n) (\<lambda>_. tx_safe en jp j d0 n) (tx_safe en jp j d0 n) d"
proof -
  let ?R = "recovered en jp j d0 n" and ?S = "tx_safe en jp j d0 n"
  have f: "tx_frame en jp j d0 d" and root: "is_folder (locate (dj_skill_root j)) d"
    using s by (auto simp: tx_safe_def tx_frame_def skill_root_of_def)
  have phase: "wlp F (recover_phase en jp (in_phase ph j) (seen_on j d)) ?R (\<lambda>_. ?S) ?S d" for ph
    using sem_recover_phase [of en jp "in_phase ph j" d0 n d F] tx s crash replaced
    by (simp add: recovered_def [abs_def] settled_def seen_on_def)
  have look3: "wlp F (do_then (exists_entry (dj_backup j)) (\<lambda>kept. recover_phase en jp (in_phase ph j)
      (entry (locate (dj_destination j)) d \<noteq> None, entry (locate (dj_staging j)) d \<noteq> None, kept))) ?R (\<lambda>_. ?S) ?S d" for ph
    by (rule wlp_seq [OF sem_exists [OF tx _ f]]) (use phase s in \<open>auto simp: seen_on_def\<close>)
  have look2: "wlp F (do_then (exists_entry (dj_staging j)) (\<lambda>staged. do_then (exists_entry (dj_backup j)) (\<lambda>kept.
      recover_phase en jp (in_phase ph j) (entry (locate (dj_destination j)) d \<noteq> None, staged, kept)))) ?R (\<lambda>_. ?S) ?S d" for ph
    by (rule wlp_seq [OF sem_exists [OF tx _ f]]) (use look3 s in auto)
  have look1: "wlp F (do_then (exists_entry (dj_destination j)) (\<lambda>there. do_then (exists_entry (dj_staging j)) (\<lambda>staged.
      do_then (exists_entry (dj_backup j)) (\<lambda>kept. recover_phase en jp (in_phase ph j) (there, staged, kept))))) ?R (\<lambda>_. ?S) ?S d" for ph
    by (rule wlp_seq [OF sem_exists [OF tx _ f]]) (use look2 s in auto)
  have rest: "wlp F (do_then (ensure_directory_root (locate (dj_skill_root j))) (\<lambda>_.
      do_then (exists_entry (dj_destination j)) (\<lambda>there. do_then (exists_entry (dj_staging j)) (\<lambda>staged.
      do_then (exists_entry (dj_backup j)) (\<lambda>kept. recover_phase en jp (in_phase ph j) (there, staged, kept)))))) ?R (\<lambda>_. ?S) ?S d" for ph
    by (rule wlp_seq [OF sem_ensure_root [OF root]]) (use look1 s in auto)
  show ?thesis unfolding recover_one_def
    by (rule wlp_seq [OF sem_load [OF tx f]]) (use rest s in auto)
qed

section \<open>Recovering the journal folder\<close>

definition no_journals :: "engine \<Rightarrow> node \<Rightarrow> bool" where
  "no_journals en d \<longleftrightarrow> (\<forall>x. extension x = Some ''journal'' \<longrightarrow> entry (en_journals en @ [x]) d = None)"

lemma listed_journals:
  assumes tx: "tx_ok en jp j" and f: "tx_frame en jp j d0 d" and none: "no_journals en d0"
    and fs: "journal_files ''journal'' (en_journals en) d = Inr ps" and p: "p \<in> set ps"
  shows "p = jp"
proof -
  obtain es where es: "entry (en_journals en) d = Some (Folder es)"
      and ps: "ps = map (\<lambda>x. en_journals en @ [x]) (sort (filter (\<lambda>x. extension x = Some ''journal'') (map fst es)))"
    using fs by (auto simp: journal_files_def elim!: checked_thenE split: node.split_asm)
  then obtain x where x: "p = en_journals en @ [x]" "x \<in> fst ` set es" "extension x = Some ''journal''"
    using p by auto
  have there: "entry p d \<noteq> None" using es x by (simp add: entry_append map_of_eq_None_iff split: option.split)
  obtain y where y: "jp = en_journals en @ [y]" using tx by (auto simp: tx_ok_def)
  show ?thesis
  proof (rule ccontr)
    assume "p \<noteq> jp"
    then have "unrelated p jp" using x y by simp
    moreover have "unrelated p (locate q)" if "q \<in> places j" for q
      using tree.unrelated_inside [of "en_journals en" "locate q" "[x]"] place_apart(4) [OF tx that] by (simp add: x unrelated_sym)
    ultimately have "entry p d = entry p d0" using f by (auto simp: tx_frame_def)
    then show False using there none x by (simp add: no_journals_def)
  qed
qed

lemma sem_recover_each:
  assumes tx: "tx_ok en jp j" and crash: "\<And>k. Fail k \<notin> F" and replaced: "dj_replaced_existing j"
  shows "\<forall>p \<in> set ps. p = jp \<Longrightarrow> tx_safe en jp j d0 n d \<Longrightarrow>
    wlp F (recover_each en ps report) (\<lambda>_. tx_safe en jp j d0 n) (\<lambda>_. tx_safe en jp j d0 n) (tx_safe en jp j d0 n) d"
proof (induction ps arbitrary: report d)
  case (Cons p ps)
  have p: "p = jp" using Cons.prems(1) by simp
  show ?case unfolding recover_each.simps p
    by (rule wlp_try [OF sem_recover_one [OF tx Cons.prems(2) crash replaced]])
      (use Cons.IH Cons.prems(1) in \<open>auto simp: recovered_def\<close>)
qed (auto intro: wlp_give)

lemma sem_recover_incomplete:
  assumes tx: "tx_ok en jp j" and crash: "\<And>k. Fail k \<notin> F" and replaced: "dj_replaced_existing j"
    and none: "no_journals en d0" and s: "tx_safe en jp j d0 n d"
  shows "wlp F (recover_incomplete en) (\<lambda>_. tx_safe en jp j d0 n) (\<lambda>_. tx_safe en jp j d0 n) (tx_safe en jp j d0 n) d"
proof -
  let ?S = "tx_safe en jp j d0 n"
  have f: "tx_frame en jp j d0 d" and root: "is_folder (en_journals en) d" using s by (auto simp: tx_safe_def tx_frame_def)
  have each: "wlp F (recover_each en ps report) (\<lambda>_. ?S) (\<lambda>_. ?S) ?S d"
    if "map_err DeployIo (journal_files ''journal'' (en_journals en) d) = Inr ps" for ps report
    using sem_recover_each [OF tx crash replaced _ s] listed_journals [OF tx f none] that by (auto simp: map_err_Inr_iff)
  have list: "wlp F (do_then (query DeployIo (\<lambda>d. map_err DeployIo (journal_files ''journal'' (en_journals en) d)))
      (\<lambda>ps. recover_each en ps report)) (\<lambda>_. ?S) (\<lambda>_. ?S) ?S d" for report
    by (rule wlp_do_then, rule wlp_query) (use each s in auto)
  show ?thesis unfolding recover_incomplete_def
    by (rule wlp_seq [OF sem_ensure_root [OF root]]) (use list s in auto)
qed

section \<open>The names of a deployment\<close>

lemma directory_name_component:
  assumes "valid_directory_name name"
  obtains c where "\<not> is_absolute name" and "concat (map segment_component (split_on (CHR ''/'') name)) = [Normal c]"
    and "\<not> starts_with c reserved_prefix"
proof -
  have single: "\<exists>c. xs = [Normal c]" if "case xs of [Normal c] \<Rightarrow> c \<noteq> [] | _ \<Rightarrow> False" for xs
    using that by (cases xs; cases "hd xs"; cases "tl xs") auto
  then obtain c where c: "components name = [Normal c]" and pre: "\<not> starts_with name reserved_prefix"
    using assms unfolding valid_directory_name_def by blast
  obtain x xs where xs: "split_on (CHR ''/'') name = x # xs" by (cases "split_on (CHR ''/'') name") auto
  have rel: "\<not> is_absolute name" using c by (auto simp: components_def Let_def)
  then have body: "concat (map segment_component (split_on (CHR ''/'') name)) = [Normal c]" and dot: "x \<noteq> ''.''"
    using c xs by (auto simp: components_def Let_def split: if_splits)
  have name: "name = join_with (CHR ''/'') (x # xs)" using join_split_on [of "CHR ''/''" name] xs by simp
  have "x \<noteq> []"
  proof
    assume "x = []"
    then have "name = [] \<or> is_absolute name" using name by (cases xs) (auto simp: is_absolute_def)
    then show False using rel body by (auto simp: segment_component_def)
  qed
  then have "x = c" using body xs dot by (auto simp: segment_component_def split: if_splits)
  then have "\<exists>r. name = c @ r" using name by (cases xs) auto
  then have "\<not> starts_with c reserved_prefix" using pre by (auto simp: starts_with_def strip_prefix_Some)
  with that rel body show ?thesis by blast
qed

lemma locate_reserved:
  assumes "is_absolute root" and "validate_transaction_id tx" and "CHR ''/'' \<notin> set k" and "k \<noteq> []"
  shows "locate (path_join root (reserved_prefix @ k @ tx)) = locate root @ [reserved_prefix @ k @ tx]"
proof (rule locate_child [OF assms(1)])
  have "CHR ''/'' \<notin> set (reserved_prefix @ k @ tx)"
    using assms(3) transaction_id_no_slash [OF assms(2)] by (simp add: reserved_prefix_def)
  from split_on_no_sep_id [OF this]
  show "concat (map segment_component (split_on (CHR ''/'') (reserved_prefix @ k @ tx))) = [Normal (reserved_prefix @ k @ tx)]"
    by (simp add: segment_component_def reserved_prefix_def)
qed (simp add: is_absolute_def reserved_prefix_def)

text \<open>What a deployment assumes of its environment, for its journal \<open>j\<close>.\<close>

definition engine_ok :: "engine \<Rightarrow> deploy_journal \<Rightarrow> bool" where
  "engine_ok en j \<longleftrightarrow>
     unrelated (skill_root_of j) (en_blobs en) \<and> unrelated (skill_root_of j) (en_journals en)
     \<and> unrelated (en_journals en) (en_blobs en)
     \<and> plain_records (records_of en j)
     \<and> (\<forall>l \<in> pieces (records_of en j). \<forall>r. en_decode en l = Inr r \<longrightarrow> (\<exists>ph. r = in_phase ph j))
     \<and> utf8_codec (en_manifests en)"

lemma deployment_tx_ok:
  assumes "engine_ok en (deploy_journal_for rq tx True)" and "validate_request rq = Inr ()" and tx: "validate_transaction_id tx"
  shows "tx_ok en (journal_path en tx) (deploy_journal_for rq tx True)"
proof -
  let ?j = "deploy_journal_for rq tx True"
  have root: "is_absolute (rq_skill_root rq)" and name: "valid_directory_name (rq_directory_name rq)"
    using assms(2) by (auto simp: validate_request_def and_then_Inr_iff ensure_Inr_iff)
  obtain c where c: "\<not> is_absolute (rq_directory_name rq)"
      "concat (map segment_component (split_on (CHR ''/'') (rq_directory_name rq))) = [Normal c]" "\<not> starts_with c reserved_prefix"
    using directory_name_component [OF name] .
  have "c \<noteq> reserved_prefix @ k" for k using c(3) by (auto simp: starts_with_def)
  then have "locate (dj_destination ?j) = skill_root_of ?j @ [c]"
      "locate (dj_staging ?j) = skill_root_of ?j @ [reserved_prefix @ ''stage-'' @ tx]"
      "locate (dj_backup ?j) = skill_root_of ?j @ [reserved_prefix @ ''backup-'' @ tx]"
      "distinct [c, reserved_prefix @ ''stage-'' @ tx, reserved_prefix @ ''backup-'' @ tx]"
    using locate_child [OF root c(1,2)] locate_reserved [OF root tx, of "''stage-''"] locate_reserved [OF root tx, of "''backup-''"]
    by (simp_all add: deploy_journal_for_def skill_root_of_def)
  with assms(1) show ?thesis unfolding tx_ok_def engine_ok_def journal_path_def by blast
qed

section \<open>Crash safety\<close>

definition crash_only :: "fault list \<Rightarrow> bool" where
  "crash_only s \<longleftrightarrow> list_all (\<lambda>f. case f of Fail _ \<Rightarrow> False | _ \<Rightarrow> True) s"

text \<open>The disk after a deployment and the recoveries of later starts, each with the faults of its schedule.\<close>

definition after_recoveries :: "engine \<Rightarrow> fault list list \<Rightarrow> node \<Rightarrow> node" where
  "after_recoveries en ss d = fold (\<lambda>s d. run_disk (recover_incomplete en \<lparr>disk = d, schedule = s\<rparr>)) ss d"

lemma recoveries_safe:
  assumes tx: "tx_ok en jp j" and replaced: "dj_replaced_existing j" and none: "no_journals en d0"
  shows "list_all crash_only ss \<Longrightarrow> tx_safe en jp j d0 n d \<Longrightarrow> tx_safe en jp j d0 n (after_recoveries en ss d)"
proof (induction ss arbitrary: d)
  case (Cons s ss)
  let ?F = "{f. \<forall>k. f \<noteq> Fail k}"
  have s: "set s \<subseteq> ?F" using Cons.prems(1) by (auto simp: crash_only_def list_all_iff split: fault.splits)
  have "wlp ?F (recover_incomplete en) (\<lambda>_. tx_safe en jp j d0 n) (\<lambda>_. tx_safe en jp j d0 n) (tx_safe en jp j d0 n) d"
    by (rule sem_recover_incomplete [OF tx _ replaced none Cons.prems(2)]) simp
  from wlp_run_disk [OF this s] show ?case using Cons by (simp add: after_recoveries_def)
qed (simp add: after_recoveries_def)

lemma sem_deploy:
  assumes tx: "tx_ok en (journal_path en tx) j" and j: "j = deploy_journal_for rq tx True" and i: "intact en (journal_path en tx) j d0 n d"
  shows "wlp F (deploy en rq tx)
    (\<lambda>r d'. r = deploy_result_of (in_phase DeployActivated j) \<and> settled en (journal_path en tx) j d0 d' \<and> entry (locate (dj_staging j)) d' = None)
    (\<lambda>_. tx_safe en (journal_path en tx) j d0 n) (tx_safe en (journal_path en tx) j d0 n) d"
proof -
  let ?jp = "journal_path en tx"
  let ?Q = "\<lambda>r d'. r = deploy_result_of (in_phase DeployActivated j) \<and> settled en ?jp j d0 d' \<and> entry (locate (dj_staging j)) d' = None"
    and ?S = "tx_safe en ?jp j d0 n"
  have f: "tx_frame en ?jp j d0 d" and n: "entry (locate (dj_destination j)) d = Some n" using i by (auto simp: intact_def)
  have root: "is_folder (locate (rq_skill_root rq)) d" and dest: "dj_destination j = path_join (rq_skill_root rq) (rq_directory_name rq)"
    using f by (simp_all add: tx_frame_def skill_root_of_def j deploy_journal_for_def)
  have run: "wlp F (deploy_transaction en ?jp j) ?Q (\<lambda>_. ?S) ?S d"
    by (rule sem_deploy_transaction [OF tx i]) (simp_all add: j deploy_journal_for_def)
  have look: "wlp F (do_then (exists_entry (dj_destination j)) (\<lambda>replaced. deploy_transaction en ?jp (deploy_journal_for rq tx replaced)))
      ?Q (\<lambda>_. ?S) ?S d"
    by (rule wlp_seq [OF sem_exists [OF tx _ f]]) (use run n intact_safe [OF i] in \<open>auto simp: j\<close>)
  have ens: "wlp F (do_then (ensure_directory_root (locate (rq_skill_root rq))) (\<lambda>_.
      do_then (exists_entry (dj_destination j)) (\<lambda>replaced. deploy_transaction en ?jp (deploy_journal_for rq tx replaced))))
      ?Q (\<lambda>_. ?S) ?S d"
    by (rule wlp_seq [OF sem_ensure_root [OF root]]) (use look intact_safe [OF i] in auto)
  show ?thesis unfolding deploy_def dest [symmetric]
    by (rule wlp_do_then, rule wlp_from_result) (use ens intact_safe [OF i] in auto)
qed

text \<open>C1: Deployments are crash safe. Take a deployment over an installed skill \<open>n\<close> in which any system
  calls fail and at any of which the process may die, and then any number of recoveries, each of which
  may die as well. At every such point the installed skill is still at its place, or it is the backup,
  or the new one is at its place and verifies; a deployment that returned has put it there and
  has removed staging folder and backup; and nothing but the target, those two and the journal has
  changed.\<close>

theorem deployments_are_crash_safe:
  assumes "validate_request rq = Inr ()" and "validate_transaction_id tx"
    and j: "j = deploy_journal_for rq tx True" and ok: "engine_ok en j"
    and journals: "is_folder (en_journals en) d" "no_journals en d"
    and n: "entry (locate (dj_destination j)) d = Some n" and b: "entry (locate (dj_backup j)) d = None"
    and crashes: "list_all crash_only ss"
    and run: "r = deploy en rq tx \<lparr>disk = d, schedule = s\<rparr>" and d': "d' = after_recoveries en ss (run_disk r)"
  shows "(entry (locate (dj_backup j)) d' = None \<and> entry (locate (dj_destination j)) d' = Some n
        \<or> entry (locate (dj_backup j)) d' = Some n
        \<or> verified en j (dj_destination j) d')
    \<and> (\<forall>q. unrelated q (journal_path en tx) \<longrightarrow> (\<forall>p \<in> places j. unrelated q (locate p)) \<longrightarrow> entry q d' = entry q d)
    \<and> (case r of Done res w \<Rightarrow> dr_target_path res = dj_destination j \<and> verified en j (dj_destination j) (disk w)
          \<and> entry (locate (dj_staging j)) (disk w) = None \<and> entry (locate (dj_backup j)) (disk w) = None | _ \<Rightarrow> True)"
proof -
  let ?jp = "journal_path en tx"
  have tx: "tx_ok en ?jp j" using deployment_tx_ok [OF ok [unfolded j] assms(1,2)] by (simp add: j)
  have "is_folder (skill_root_of j) d"
    using n place_in_root [OF tx, of "dj_destination j"] entry_parent_folder [of "skill_root_of j" _ d n] by auto
  moreover have "extension (tx @ ''.journal'') = Some ''journal''"
  proof -
    have "CHR ''.'' \<notin> set tx" using assms(2) by (auto simp: validate_transaction_id_def list_all_iff is_ascii_alphanumeric_def byte_def)
    then have "split_on (CHR ''.'') (tx @ ''.journal'') = [tx, ''journal'']"
      using split_on_append [of "CHR ''.''" tx "''journal''"] split_on_no_sep_id by simp
    moreover have "tx \<noteq> []" using assms(2) by (simp add: validate_transaction_id_def)
    ultimately show ?thesis by (simp add: extension_def)
  qed
  then have "journal_ok (records_of en j) ?jp d" using journals(2) by (simp add: journal_ok_def no_journals_def journal_path_def)
  ultimately have i: "intact en ?jp j d n d" using journals(1) n b by (simp add: intact_def tx_frame_def)
  note dep = sem_deploy [OF tx j i, of UNIV]
  have s1: "tx_safe en ?jp j d n (run_disk r)"
    unfolding run by (rule wlp_run_disk [OF wlp_mono [OF dep]]) (auto simp: settled_def tx_safe_def not_lost_verified)
  have "tx_safe en ?jp j d n d'"
    unfolding d' by (rule recoveries_safe [OF tx _ journals(2) crashes s1]) (simp add: j deploy_journal_for_def)
  moreover have "case r of Done res w \<Rightarrow> dr_target_path res = dj_destination j \<and> verified en j (dj_destination j) (disk w)
          \<and> entry (locate (dj_staging j)) (disk w) = None \<and> entry (locate (dj_backup j)) (disk w) = None | _ \<Rightarrow> True"
    using wlp_run [OF dep run] by (auto simp: settled_def deploy_result_of_def split: run.splits)
  ultimately show ?thesis by (simp add: tx_safe_def not_lost_def tx_frame_def)
qed

end
