(* ===== verification/Deploy_Samples.thy ===== *)
theory Deploy_Samples
  imports Deploy_Safety
begin

text \<open>
  A concrete engine: deployments interrupted at chosen system calls, evaluated by the simplifier.
  The three last theorems are histories in which the code does not do what its comments say.
\<close>

definition sample_request :: deploy_request where
  "sample_request = \<lparr>rq_skill_id = ''s'', rq_profile_id = ''p'', rq_snapshot_hash = hash_bytes sample_sha ''M'',
     rq_skill_root = ''/agent'', rq_directory_name = ''skill''\<rparr>"

definition sample_journal :: deploy_journal where
  "sample_journal = deploy_journal_for sample_request ''t1'' True"

definition phase_code :: "string \<Rightarrow> deploy_phase \<Rightarrow> string" where
  "phase_code filler ph = CHR ''{'' # phase_text ph @ filler @ ''}''"

definition sample_engine :: "string \<Rightarrow> engine" where
  "sample_engine filler = \<lparr>en_journals = [''j''], en_blobs = [''blobs''], en_sha = sample_sha, en_manifests = sample_codec,
     en_encode = (\<lambda>j. phase_code filler (dj_phase j)),
     en_decode = (\<lambda>l. case List.find (\<lambda>ph. phase_code filler ph = l) [DeployIntent, DeployPrepared, DeployOldMoved, DeployActivated] of
        Some ph \<Rightarrow> Inr (in_phase ph sample_journal) | None \<Rightarrow> Inl ''syntax'')\<rparr>"

definition old_skill :: node where
  "old_skill = Folder [(''SKILL.md'', Plain ''old''), (''notes'', Plain ''mine'')]"

definition agent_disk :: node where
  "agent_disk = Folder [(''blobs'', sample_store), (''agent'', Folder [(''skill'', old_skill)]), (''j'', Folder [])]"

definition deployed :: "fault list \<Rightarrow> (deploy_error, deploy_result) run" where
  "deployed s = deploy (sample_engine []) sample_request ''t1'' \<lparr>disk = agent_disk, schedule = s\<rparr>"

lemma sample_engine_ok:
  assumes "newline \<notin> set filler" and "CHR 0x0D \<notin> set filler"
  shows "engine_ok (sample_engine filler) sample_journal"
proof -
  have root: "skill_root_of sample_journal = [''agent'']" by code_simp
  have "newline \<notin> set (phase_code filler ph) \<and> CHR 0x0D \<notin> set (phase_code filler ph)" for ph
    using assms by (cases ph) (auto simp: phase_code_def phase_text_def newline_def)
  then have records: "plain_records (records_of (sample_engine filler) sample_journal)"
    by (auto simp: plain_records_def records_of_def sample_engine_def)
  have sound: "\<exists>ph. r = in_phase ph sample_journal" if "en_decode (sample_engine filler) l = Inr r" for l r
    using that by (auto simp: sample_engine_def split: option.splits)
  show ?thesis unfolding engine_ok_def root using records sound sample_codec_utf8
    by (auto simp: sample_engine_def unrelated_def)
qed

definition recovered_run :: "string \<Rightarrow> node \<Rightarrow> fault list \<Rightarrow> (deploy_error, recovery_report) run" where
  "recovered_run filler d s = recover_incomplete (sample_engine filler) \<lparr>disk = d, schedule = s\<rparr>"

definition report_of :: "('e, 'a) run \<Rightarrow> 'a option" where
  "report_of r = (case r of Done a _ \<Rightarrow> Some a | _ \<Rightarrow> None)"

definition target_and_backup :: "node \<Rightarrow> node option \<times> node option" where
  "target_and_backup d = (entry [''agent'', ''skill''] d, entry [''agent'', ''.skillhive-backup-t1''] d)"

section \<open>A deployment that dies after moving the old target\<close>

definition torn_run :: "(deploy_error, deploy_result) run" where
  "torn_run = deployed (replicate 29 Go @ [Crash 4])"

theorem deployments_are_crash_safe_witness:
  "target_and_backup (run_disk torn_run) = (None, Some old_skill)
   \<and> not_lost (sample_engine []) sample_journal old_skill (after_recoveries (sample_engine []) [[Go, Crash 0], []] (run_disk torn_run))"
proof -
  have form: "validate_request sample_request = Inr ()" by code_simp
  have tx: "validate_transaction_id ''t1''" by code_simp
  have ok: "engine_ok (sample_engine []) sample_journal" by (rule sample_engine_ok) simp_all
  have folder: "is_folder (en_journals (sample_engine [])) agent_disk" by code_simp
  have none: "no_journals (sample_engine []) agent_disk"
    by (auto simp: no_journals_def sample_engine_def agent_disk_def)
  have n: "entry (locate (dj_destination sample_journal)) agent_disk = Some old_skill" by code_simp
  have b: "entry (locate (dj_backup sample_journal)) agent_disk = None" by code_simp
  have crashes: "list_all crash_only [[Go, Crash 0], []]" by code_simp
  have moved: "target_and_backup (run_disk torn_run) = (None, Some old_skill)" by code_simp
  have "torn_run = deploy (sample_engine []) sample_request ''t1'' \<lparr>disk = agent_disk, schedule = replicate 29 Go @ [Crash 4]\<rparr>"
    by (simp add: torn_run_def deployed_def)
  from deployments_are_crash_safe [OF form tx sample_journal_def ok folder none n b crashes this refl] moved
  show ?thesis by (simp add: not_lost_def)
qed

section \<open>Histories against the comments\<close>

definition cleanup_crash :: node where
  "cleanup_crash = run_disk (deployed (replicate 45 Go @ [Crash 4]))"

text \<open>Recovery keeps a verified target only while its files can be read.
  \<open>verify_active_or_restore_backup\<close> takes an I/O error of the verification for a mismatch, and a
  backup that is there for a complete one: when a deployment died while it was removing the backup, a
  single failing read of the next recovery removes the verified target and puts what is left of the
  backup in its place.\<close>

theorem read_error_destroys_the_target:
  "target_and_backup cleanup_crash = (Some (Folder [(''SKILL.md'', Plain ''hi'')]), Some (Folder []))
   \<and> verified (sample_engine []) sample_journal (dj_destination sample_journal) cleanup_crash
   \<and> target_and_backup (run_disk (recovered_run [] cleanup_crash (replicate 8 Go @ [Fail 0]))) = (Some (Folder []), None)"
proof (intro conjI)
  show "target_and_backup cleanup_crash = (Some (Folder [(''SKILL.md'', Plain ''hi'')]), Some (Folder []))" by code_simp
  have "is_ok (verify_materialized_snapshot sample_codec sample_sha [''blobs''] (dj_snapshot_hash sample_journal) [''agent'', ''skill''] cleanup_crash)"
    by code_simp
  moreover have "locate (dj_destination sample_journal) = [''agent'', ''skill'']" by code_simp
  ultimately show "verified (sample_engine []) sample_journal (dj_destination sample_journal) cleanup_crash"
    by (auto simp: verified_def is_ok_def sample_engine_def split: sum.splits)
  show "target_and_backup (run_disk (recovered_run [] cleanup_crash (replicate 8 Go @ [Fail 0]))) = (Some (Folder []), None)"
    by code_simp
qed

definition torn_activation :: node where
  "torn_activation = run_disk (deployed (replicate 38 Go @ [Crash 4]))"

text \<open>A torn record is never closed. When the deployment dies in writing its last record, recovery
  appends to the torn line: it reports the transaction as committed, but its acknowledgement is
  rejected, and every later recovery fails on the journal.
\<close>

theorem torn_activation_is_never_acknowledged:
  "map_option rr_recovered (report_of (recovered_run [] torn_activation [])) = Some 1
   \<and> report_of (acknowledge_catalog_commit (sample_engine []) ''t1'' \<lparr>disk = run_disk (recovered_run [] torn_activation []), schedule = []\<rparr>) = None
   \<and> map_option rr_recovered (report_of (recovered_run [] (run_disk (recovered_run [] torn_activation [])) [])) = Some 0
   \<and> map_option (length \<circ> rr_failed) (report_of (recovered_run [] (run_disk (recovered_run [] torn_activation [])) [])) = Some 1"
  by code_simp

definition accent :: string where
  "accent = bytes [0xC3, 0xA9]"

definition torn_character :: node where
  "torn_character = run_disk (deploy (sample_engine accent) sample_request ''t1''
     \<lparr>disk = agent_disk, schedule = replicate 29 Go @ [Crash 10]\<rparr>)"

text \<open>The reader of a journal forgives a torn last line, unless it is torn inside a character: then no
  record counts. Here the old target has been moved away, and no recovery brings it back.
\<close>

theorem torn_character_blocks_recovery:
  "target_and_backup torn_character = (None, Some old_skill)
   \<and> map_option rr_failed (report_of (recovered_run accent torn_character [])) = Some [([''j'', ''t1.journal''], DeployJournal (JournalIo OtherIo))]
   \<and> run_disk (recovered_run accent torn_character []) = torn_character"
  by code_simp

end
