(* ===== verification/Uninstall_Engine.thy ===== *)
theory Uninstall_Engine
  imports Journals
begin

text \<open>
  \<open>uninstall.rs\<close>: the engine that takes a skill out of an agent's folder in two steps. \<open>begin\<close> moves
  the target to a quarantine folder beside it, under a journal; once the catalog row is gone,
  \<open>finalize\<close> deletes the quarantine, and \<open>rollback\<close> moves it back if the row is still there. The
  journal folder and the JSON form of its records are the record \<open>uninstaller\<close>.
\<close>

record uninstall_request =
  uq_skill_id :: string
  uq_profile_id :: string
  uq_skill_root :: path
  uq_target_path :: path

record uninstall_result =
  ur_transaction_id :: "string option"
  ur_skill_id :: string
  ur_profile_id :: string
  ur_target_path :: path
  ur_quarantined_path :: "path option"
  ur_target_existed :: bool

datatype uninstall_phase = UninstallIntent | UninstallMoved

record uninstall_journal =
  uj_transaction_id :: string
  uj_skill_id :: string
  uj_profile_id :: string
  uj_skill_root :: path
  uj_target_path :: path
  uj_quarantined_path :: path
  uj_phase :: uninstall_phase

definition uninstall_result_of :: "uninstall_journal \<Rightarrow> uninstall_result" where
  "uninstall_result_of j = \<lparr>ur_transaction_id = Some (uj_transaction_id j), ur_skill_id = uj_skill_id j,
     ur_profile_id = uj_profile_id j, ur_target_path = uj_target_path j,
     ur_quarantined_path = Some (uj_quarantined_path j), ur_target_existed = True\<rparr>"

datatype uninstall_error =
  UninstallIo io_error
| UninstallJournalError journal_error
| UninstallInvalidRequest string
| UninstallInvalidTransactionId string
| UninstallInvalidJournal string
| UninstallUnsupportedFile location
| UnsafeDirectory location
| AmbiguousFilesystemState string
| UninstallUnrecoverable string
| CatalogCommitNotReflected string

record uninstaller =
  un_journals :: location
  un_encode :: "uninstall_journal \<Rightarrow> string"
  un_decode :: "string \<Rightarrow> string + uninstall_journal"

record uninstall_report =
  up_pending :: "uninstall_result list"
  up_cleaned_intents :: nat
  up_failed :: "(location \<times> uninstall_error) list"

section \<open>Checks and paths\<close>

definition stable_absolute_path :: "path \<Rightarrow> string \<Rightarrow> uninstall_error + unit" where
  "stable_absolute_path p field =
     and_then (ensure (is_absolute p \<and> valid_utf8 p) (UninstallInvalidRequest (field @ '' must be an absolute UTF-8 path''))) (\<lambda>_.
     ensure (\<not> list_ex (\<lambda>c. c = CurDir \<or> c = ParentDir) (components p))
       (UninstallInvalidRequest (field @ '' must be lexically normalized'')))"

definition uninstall_exists :: "path \<Rightarrow> (uninstall_error, bool) io" where
  "uninstall_exists p = wrap UninstallIo (path_exists (locate p))"

definition uninstall_sync :: "path \<Rightarrow> (uninstall_error, unit) io" where
  "uninstall_sync p = wrap UninstallIo (sync_path (locate p))"

definition uninstall_rename :: "path \<Rightarrow> path \<Rightarrow> (uninstall_error, unit) io" where
  "uninstall_rename p q = wrap UninstallIo (rename_entry (locate p) (locate q))"

definition uninstall_fs_error :: "fs_error \<Rightarrow> uninstall_error" where
  "uninstall_fs_error e = (case e of Io e \<Rightarrow> UninstallIo e | UnsupportedFileType p \<Rightarrow> UninstallUnsupportedFile p)"

definition uninstall_real_directory :: "location \<Rightarrow> (uninstall_error, unit) io" where
  "uninstall_real_directory p =
     do_then (attempt (metadata p)) (\<lambda>r. case r of
       Inr n \<Rightarrow> if folder_node n then give () else raise (UnsafeDirectory p)
     | Inl e \<Rightarrow>
         if e = NotFound then
           do_then (wrap UninstallIo (create_dir_all p)) (\<lambda>_.
           do_then (wrap UninstallIo (metadata p)) (\<lambda>n.
           if folder_node n then give () else raise (UnsafeDirectory p)))
         else raise (UninstallIo e))"

definition check_uninstall_request :: "uninstall_request \<Rightarrow> uninstall_error + unit" where
  "check_uninstall_request rq =
     and_then (ensure (\<not> is_blank (uq_skill_id rq) \<and> \<not> is_blank (uq_profile_id rq))
       (UninstallInvalidRequest ''skill_id and agent_profile_id must not be empty'')) (\<lambda>_.
     and_then (stable_absolute_path (uq_skill_root rq) ''skill_root'') (\<lambda>_.
     and_then (stable_absolute_path (uq_target_path rq) ''target_path'') (\<lambda>_.
     ensure (parent (uq_target_path rq) = Some (components (uq_skill_root rq)))
       (UninstallInvalidRequest ''target_path must be a direct child of skill_root''))))"

definition validate_uninstall_request :: "uninstall_request \<Rightarrow> (uninstall_error, unit) io" where
  "validate_uninstall_request rq =
     do_then (from_result (check_uninstall_request rq)) (\<lambda>_. uninstall_real_directory (locate (uq_skill_root rq)))"

definition validate_uninstall_paths :: "uninstall_journal \<Rightarrow> uninstall_error + unit" where
  "validate_uninstall_paths j =
     and_then (stable_absolute_path (uj_skill_root j) ''journal skill_root'') (\<lambda>_.
     ensure (parent (uj_target_path j) = Some (components (uj_skill_root j))
         \<and> parent (uj_quarantined_path j) = Some (components (uj_skill_root j)))
       (UninstallInvalidJournal ''journal contains path outside skill root''))"

definition check_transaction_id :: "string \<Rightarrow> uninstall_error + unit" where
  "check_transaction_id tx = ensure (validate_transaction_id tx) (UninstallInvalidTransactionId tx)"

section \<open>The journal\<close>

definition uninstall_journal_path :: "uninstaller \<Rightarrow> string \<Rightarrow> location" where
  "uninstall_journal_path u tx = un_journals u @ [tx @ ''.uninstall'']"

definition record_phase :: "uninstaller \<Rightarrow> location \<Rightarrow> uninstall_journal \<Rightarrow> (uninstall_error, unit) io" where
  "record_phase u p j = wrap UninstallJournalError (persist_journal (un_journals u) p (un_encode u j))"

definition drop_record :: "uninstaller \<Rightarrow> location \<Rightarrow> (uninstall_error, unit) io" where
  "drop_record u p = wrap UninstallJournalError (remove_journal (un_journals u) p)"

definition load_record :: "uninstaller \<Rightarrow> location \<Rightarrow> (uninstall_error, uninstall_journal) io" where
  "load_record u p =
     do_then (wrap UninstallJournalError (read_latest_journal (un_decode u) p)) (\<lambda>j.
     do_then (from_result (validate_uninstall_paths j)) (\<lambda>_. give j))"

section \<open>Operations\<close>

definition quarantine_prefix :: string where
  "quarantine_prefix = ''.skillhive-remove-''"

definition uninstall_journal_for :: "uninstall_request \<Rightarrow> string \<Rightarrow> uninstall_journal" where
  "uninstall_journal_for rq tx =
     \<lparr>uj_transaction_id = tx, uj_skill_id = uq_skill_id rq, uj_profile_id = uq_profile_id rq,
      uj_skill_root = uq_skill_root rq, uj_target_path = uq_target_path rq,
      uj_quarantined_path = path_join (uq_skill_root rq) (quarantine_prefix @ tx), uj_phase = UninstallIntent\<rparr>"

definition marked :: "uninstall_phase \<Rightarrow> uninstall_journal \<Rightarrow> uninstall_journal" where
  "marked ph j = j\<lparr>uj_phase := ph\<rparr>"

definition quarantine :: "uninstaller \<Rightarrow> location \<Rightarrow> uninstall_journal \<Rightarrow> (uninstall_error, uninstall_result) io" where
  "quarantine u jp j =
     do_then (record_phase u jp j) (\<lambda>_.
     do_then (uninstall_rename (uj_target_path j) (uj_quarantined_path j)) (\<lambda>_.
     do_then (uninstall_sync (uj_skill_root j)) (\<lambda>_.
     do_then (record_phase u jp (marked UninstallMoved j)) (\<lambda>_.
     give (uninstall_result_of (marked UninstallMoved j))))))"

definition nothing_installed :: "uninstall_request \<Rightarrow> uninstall_result" where
  "nothing_installed rq = \<lparr>ur_transaction_id = None, ur_skill_id = uq_skill_id rq, ur_profile_id = uq_profile_id rq,
     ur_target_path = uq_target_path rq, ur_quarantined_path = None, ur_target_existed = False\<rparr>"

definition begin_uninstall :: "uninstaller \<Rightarrow> uninstall_request \<Rightarrow> string \<Rightarrow> (uninstall_error, uninstall_result) io" where
  "begin_uninstall u rq tx =
     do_then (validate_uninstall_request rq) (\<lambda>_.
     do_then (uninstall_exists (uq_target_path rq)) (\<lambda>there.
     if \<not> there then give (nothing_installed rq)
     else
       let j = uninstall_journal_for rq tx in
       do_then (uninstall_exists (uj_quarantined_path j)) (\<lambda>taken.
       if taken then raise (AmbiguousFilesystemState tx)
       else quarantine u (uninstall_journal_path u tx) j)))"

definition delete_quarantine :: "uninstall_journal \<Rightarrow> (uninstall_error, unit) io" where
  "delete_quarantine j =
     do_then (wrap uninstall_fs_error (remove_any (locate (uj_quarantined_path j)))) (\<lambda>_. uninstall_sync (uj_skill_root j))"

definition finalize_uninstall :: "uninstaller \<Rightarrow> string \<Rightarrow> (uninstall_error, unit) io" where
  "finalize_uninstall u tx =
     do_then (from_result (check_transaction_id tx)) (\<lambda>_.
     do_then (load_record u (uninstall_journal_path u tx)) (\<lambda>j.
     do_then (from_result (ensure (uj_transaction_id j = tx)
       (UninstallInvalidJournal ''transaction id does not match journal filename''))) (\<lambda>_.
     do_then (uninstall_exists (uj_target_path j)) (\<lambda>there.
     do_then (uninstall_exists (uj_quarantined_path j)) (\<lambda>held.
     if there \<and> held then raise (AmbiguousFilesystemState tx)
     else if there then raise (CatalogCommitNotReflected tx)
     else do_then (if held then delete_quarantine j else give ()) (\<lambda>_.
          drop_record u (uninstall_journal_path u tx)))))))"

definition rollback_uninstall :: "uninstaller \<Rightarrow> string \<Rightarrow> (uninstall_error, unit) io" where
  "rollback_uninstall u tx =
     do_then (from_result (check_transaction_id tx)) (\<lambda>_.
     do_then (load_record u (uninstall_journal_path u tx)) (\<lambda>j.
     do_then (uninstall_exists (uj_target_path j)) (\<lambda>there.
     do_then (uninstall_exists (uj_quarantined_path j)) (\<lambda>held.
     do_then (if there then if held then raise (AmbiguousFilesystemState tx) else give ()
              else if held then
                do_then (uninstall_rename (uj_quarantined_path j) (uj_target_path j)) (\<lambda>_. uninstall_sync (uj_skill_root j))
              else raise (UninstallUnrecoverable tx)) (\<lambda>_.
     drop_record u (uninstall_journal_path u tx))))))"

text \<open>One journal of \<open>recover_pending\<close>: pending work, a cleaned intent, or a failure.\<close>

definition classify_pending :: "uninstaller \<Rightarrow> location \<Rightarrow> uninstall_journal \<Rightarrow> bool \<Rightarrow> bool \<Rightarrow> (uninstall_error, uninstall_result option) io" where
  "classify_pending u p j there held =
     (if there \<and> \<not> held \<and> uj_phase j = UninstallIntent then do_then (drop_record u p) (\<lambda>_. give None)
      else if \<not> there \<and> held then give (Some (uninstall_result_of j))
      else if \<not> there \<and> \<not> held \<and> uj_phase j = UninstallMoved then give (Some (uninstall_result_of j))
      else raise (AmbiguousFilesystemState (uj_transaction_id j)))"

definition pending_one :: "uninstaller \<Rightarrow> location \<Rightarrow> (uninstall_error, uninstall_result option) io" where
  "pending_one u p =
     do_then (load_record u p) (\<lambda>j.
     do_then (uninstall_exists (uj_target_path j)) (\<lambda>there.
     do_then (uninstall_exists (uj_quarantined_path j)) (\<lambda>held.
     classify_pending u p j there held)))"

definition note_pending :: "location \<Rightarrow> uninstall_error + uninstall_result option \<Rightarrow> uninstall_report \<Rightarrow> uninstall_report" where
  "note_pending p r report = (case r of
     Inr (Some x) \<Rightarrow> report\<lparr>up_pending := up_pending report @ [x]\<rparr>
   | Inr None \<Rightarrow> report\<lparr>up_cleaned_intents := up_cleaned_intents report + 1\<rparr>
   | Inl e \<Rightarrow> report\<lparr>up_failed := up_failed report @ [(p, e)]\<rparr>)"

fun pending_each :: "uninstaller \<Rightarrow> location list \<Rightarrow> uninstall_report \<Rightarrow> (uninstall_error, uninstall_report) io" where
  "pending_each u [] report = give report"
| "pending_each u (p # ps) report =
     do_then (attempt (pending_one u p)) (\<lambda>r. pending_each u ps (note_pending p r report))"

definition recover_pending :: "uninstaller \<Rightarrow> (uninstall_error, uninstall_report) io" where
  "recover_pending u =
     do_then (uninstall_real_directory (un_journals u)) (\<lambda>_.
     do_then (query UninstallIo (\<lambda>d. map_err UninstallIo (journal_files ''uninstall'' (un_journals u) d))) (\<lambda>journals.
     pending_each u journals \<lparr>up_pending = [], up_cleaned_intents = 0, up_failed = []\<rparr>))"

definition acknowledge_missing_quarantine :: "uninstaller \<Rightarrow> string \<Rightarrow> (uninstall_error, unit) io" where
  "acknowledge_missing_quarantine u tx =
     do_then (from_result (check_transaction_id tx)) (\<lambda>_.
     do_then (load_record u (uninstall_journal_path u tx)) (\<lambda>j.
     do_then (uninstall_exists (uj_target_path j)) (\<lambda>there.
     do_then (if there then give True else uninstall_exists (uj_quarantined_path j)) (\<lambda>left.
     if left then raise (AmbiguousFilesystemState tx) else drop_record u (uninstall_journal_path u tx)))))"

text \<open>\<open>UninstallEngine::open\<close>\<close>

definition open_uninstaller :: "uninstaller \<Rightarrow> (uninstall_error, unit) io" where
  "open_uninstaller u = uninstall_real_directory (un_journals u)"

end
