(* ===== verification/Uninstall_Safety.thy ===== *)
theory Uninstall_Safety
  imports Uninstall_Engine
begin

text \<open>
  What the uninstall engine guarantees about one transaction: until \<open>finalize\<close> deletes it, the skill
  is whole, at its target or in quarantine, whatever fails and wherever the process dies; and when
  nothing fails, recovery finds the transaction and either ending completes.
\<close>

section \<open>A transaction\<close>

definition un_root :: "uninstall_journal \<Rightarrow> location" where
  "un_root j = locate (uj_skill_root j)"

definition un_target :: "uninstall_journal \<Rightarrow> location" where
  "un_target j = locate (uj_target_path j)"

definition un_quarantine :: "uninstall_journal \<Rightarrow> location" where
  "un_quarantine j = locate (uj_quarantined_path j)"

definition un_records :: "uninstaller \<Rightarrow> uninstall_journal \<Rightarrow> string set" where
  "un_records u j = range (\<lambda>ph. un_encode u (marked ph j))"

text \<open>
  The skill folder and the journals lie apart; a record is one line of its JSON form; a torn line
  that reads as a record reads as one of the transaction, and is UTF-8; complete records read back.
\<close>

definition records_ok :: "uninstaller \<Rightarrow> uninstall_journal \<Rightarrow> bool" where
  "records_ok u j \<longleftrightarrow> plain_records (un_records u j)
     \<and> (\<forall>l \<in> pieces (un_records u j). valid_utf8 l \<and> (\<forall>r. un_decode u l = Inr r \<longrightarrow> (\<exists>ph. r = marked ph j)))
     \<and> (\<forall>ph. \<not> is_blank (un_encode u (marked ph j)) \<and> un_decode u (un_encode u (marked ph j)) = Inr (marked ph j))"

definition un_ok :: "uninstaller \<Rightarrow> string \<Rightarrow> uninstall_journal \<Rightarrow> bool" where
  "un_ok u tx j \<longleftrightarrow> validate_transaction_id tx \<and> uj_transaction_id j = tx \<and> validate_uninstall_paths j = Inr ()
     \<and> (\<exists>x y. un_target j = un_root j @ [x] \<and> un_quarantine j = un_root j @ [y] \<and> x \<noteq> y)
     \<and> unrelated (un_root j) (un_journals u) \<and> records_ok u j"

definition un_frame :: "uninstaller \<Rightarrow> string \<Rightarrow> uninstall_journal \<Rightarrow> node \<Rightarrow> node \<Rightarrow> bool" where
  "un_frame u tx j d0 d \<longleftrightarrow> is_folder (un_root j) d \<and> is_folder (un_journals u) d
     \<and> journal_ok (un_records u j) (uninstall_journal_path u tx) d
     \<and> (\<forall>q. unrelated q (uninstall_journal_path u tx) \<longrightarrow> unrelated q (un_target j) \<longrightarrow> unrelated q (un_quarantine j) \<longrightarrow> entry q d = entry q d0)"

definition in_place :: "uninstaller \<Rightarrow> string \<Rightarrow> uninstall_journal \<Rightarrow> node \<Rightarrow> node \<Rightarrow> node \<Rightarrow> bool" where
  "in_place u tx j d0 n d \<longleftrightarrow> un_frame u tx j d0 d \<and> entry (un_target j) d = Some n \<and> entry (un_quarantine j) d = None"

definition quarantined :: "uninstaller \<Rightarrow> string \<Rightarrow> uninstall_journal \<Rightarrow> node \<Rightarrow> node \<Rightarrow> node \<Rightarrow> bool" where
  "quarantined u tx j d0 n d \<longleftrightarrow> un_frame u tx j d0 d \<and> entry (un_target j) d = None \<and> entry (un_quarantine j) d = Some n
     \<and> started (un_encode u (marked UninstallIntent j)) (uninstall_journal_path u tx) d"

definition un_safe :: "uninstaller \<Rightarrow> string \<Rightarrow> uninstall_journal \<Rightarrow> node \<Rightarrow> node \<Rightarrow> node \<Rightarrow> bool" where
  "un_safe u tx j d0 n d \<longleftrightarrow> in_place u tx j d0 n d \<or> quarantined u tx j d0 n d"

definition un_gone :: "uninstaller \<Rightarrow> string \<Rightarrow> uninstall_journal \<Rightarrow> node \<Rightarrow> node \<Rightarrow> bool" where
  "un_gone u tx j d0 d \<longleftrightarrow> un_frame u tx j d0 d \<and> entry (un_target j) d = None"

lemma marked_simps [simp]:
  "uj_target_path (marked ph j) = uj_target_path j" "uj_quarantined_path (marked ph j) = uj_quarantined_path j"
  "uj_skill_root (marked ph j) = uj_skill_root j" "uj_transaction_id (marked ph j) = uj_transaction_id j"
  "uj_phase (marked ph j) = ph" "marked ph (marked ph' j) = marked ph j" "uj_skill_id (marked ph j) = uj_skill_id j"
  "uj_profile_id (marked ph j) = uj_profile_id j"
  by (simp_all add: marked_def)

lemma result_of_marked [simp]: "uninstall_result_of (marked ph j) = uninstall_result_of j"
  by (simp add: uninstall_result_of_def)

lemma un_apart:
  assumes "un_ok u tx j"
  shows "unrelated (un_target j) (un_quarantine j)" and "unrelated (un_quarantine j) (un_target j)"
    and "unrelated (uninstall_journal_path u tx) (un_target j)" and "unrelated (uninstall_journal_path u tx) (un_quarantine j)"
    and "unrelated (un_target j) (uninstall_journal_path u tx)" and "unrelated (un_quarantine j) (uninstall_journal_path u tx)"
    and "unrelated (uninstall_journal_path u tx) (un_root j)" and "strict_prefix (un_journals u) (uninstall_journal_path u tx)"
    and "strict_prefix (un_root j) (un_target j)" and "strict_prefix (un_root j) (un_quarantine j)"
    and "unrelated (un_target j) (un_journals u)" and "unrelated (un_quarantine j) (un_journals u)"
proof -
  obtain x y where xy: "un_target j = un_root j @ [x]" "un_quarantine j = un_root j @ [y]" "x \<noteq> y"
    and u: "unrelated (un_root j) (un_journals u)" using assms by (auto simp: un_ok_def)
  show "unrelated (un_target j) (un_quarantine j)" "unrelated (un_quarantine j) (un_target j)" using xy by simp_all
  show jr: "unrelated (un_target j) (un_journals u)" "unrelated (un_quarantine j) (un_journals u)"
    using tree.unrelated_inside [OF u] by (simp_all add: xy)
  show "unrelated (un_target j) (uninstall_journal_path u tx)" "unrelated (un_quarantine j) (uninstall_journal_path u tx)"
    using tree.unrelated_inside jr unfolding uninstall_journal_path_def by (metis unrelated_sym)+
  then show "unrelated (uninstall_journal_path u tx) (un_target j)" "unrelated (uninstall_journal_path u tx) (un_quarantine j)"
    by (simp_all add: unrelated_sym)
  show "unrelated (uninstall_journal_path u tx) (un_root j)"
    using tree.unrelated_inside u unfolding uninstall_journal_path_def by (metis unrelated_sym)
  show "strict_prefix (un_journals u) (uninstall_journal_path u tx)" by (simp add: uninstall_journal_path_def strict_prefix_def)
  show "strict_prefix (un_root j) (un_target j)" "strict_prefix (un_root j) (un_quarantine j)" by (simp_all add: xy strict_prefix_def)
qed

section \<open>What updates keep\<close>

lemma un_frame_place:
  assumes ok: "un_ok u tx j" and p: "p = un_target j \<or> p = un_quarantine j" and a: "tree.away p d d'" and f: "un_frame u tx j d0 d"
  shows "un_frame u tx j d0 d'"
    and "started e (uninstall_journal_path u tx) d' \<longleftrightarrow> started e (uninstall_journal_path u tx) d"
proof -
  have jp: "entry (uninstall_journal_path u tx) d' = entry (uninstall_journal_path u tx) d"
    and jr: "entry (un_journals u) d' = entry (un_journals u) d"
    using tree.away_entry [OF a] p un_apart(5,6,11,12) [OF ok] by blast+
  have root: "is_folder (un_root j) d'" using tree.away_folder [OF a] p un_apart(9,10) [OF ok] f by (auto simp: un_frame_def)
  have "entry q d' = entry q d" if "unrelated q p" for q using tree.away_entry [OF a] that by (simp add: unrelated_sym)
  then show "un_frame u tx j d0 d'" using f p root jp jr by (auto simp: un_frame_def is_folder_def journal_ok_def)
  show "started e (uninstall_journal_path u tx) d' \<longleftrightarrow> started e (uninstall_journal_path u tx) d" by (simp add: started_def jp)
qed

lemma un_frame_journal:
  assumes ok: "un_ok u tx j" and a: "tree.away (uninstall_journal_path u tx) d d'"
    and lines: "journal_ok (un_records u j) (uninstall_journal_path u tx) d'" and f: "un_frame u tx j d0 d"
  shows "un_frame u tx j d0 d'" and "entry (un_target j) d' = entry (un_target j) d" and "entry (un_quarantine j) d' = entry (un_quarantine j) d"
proof -
  show "entry (un_target j) d' = entry (un_target j) d" "entry (un_quarantine j) d' = entry (un_quarantine j) d"
    using tree.away_entry [OF a] un_apart(3,4) [OF ok] by blast+
  have "entry (un_root j) d' = entry (un_root j) d" using tree.away_entry [OF a un_apart(7) [OF ok]] .
  moreover have "is_folder (un_journals u) d'" using tree.away_folder [OF a un_apart(8) [OF ok]] f by (simp add: un_frame_def)
  moreover have "entry q d' = entry q d" if "unrelated q (uninstall_journal_path u tx)" for q
    using tree.away_entry [OF a] that by (simp add: unrelated_sym)
  ultimately show "un_frame u tx j d0 d'" using f lines by (simp add: un_frame_def is_folder_def)
qed

section \<open>The steps\<close>

lemma un_exists:
  assumes "un_ok u tx j" and "p = uj_target_path j \<or> p = uj_quarantined_path j" and "un_frame u tx j d0 d"
  shows "wlp F (uninstall_exists p) (\<lambda>b d'. d' = d \<and> (b \<longleftrightarrow> entry (locate p) d \<noteq> None)) (\<lambda>_ d'. d' = d) (\<lambda>d'. d' = d) d"
    and "returns (uninstall_exists p) (\<lambda>b d'. d' = d \<and> (b \<longleftrightarrow> entry (locate p) d \<noteq> None)) d"
proof -
  obtain x where x: "locate p = un_root j @ [x]" using assms(1,2) by (auto simp: un_ok_def un_target_def un_quarantine_def)
  have root: "is_folder (un_root j) d" using assms(3) by (simp add: un_frame_def)
  show "wlp F (uninstall_exists p) (\<lambda>b d'. d' = d \<and> (b \<longleftrightarrow> entry (locate p) d \<noteq> None)) (\<lambda>_ d'. d' = d) (\<lambda>d'. d' = d) d"
    unfolding uninstall_exists_def x by (intro wlp_wrap wlp_path_exists [OF root]) auto
  show "returns (uninstall_exists p) (\<lambda>b d'. d' = d \<and> (b \<longleftrightarrow> entry (locate p) d \<noteq> None)) d"
    unfolding uninstall_exists_def x by (intro returns_wrap returns_exists [OF root]) auto
qed

lemma un_sync:
  "wlp F (uninstall_sync p) (\<lambda>_ d'. d' = d) (\<lambda>_ d'. d' = d) (\<lambda>d'. d' = d) d"
  "is_folder (locate p) d \<Longrightarrow> returns (uninstall_sync p) (\<lambda>_ d'. d' = d) d"
  unfolding uninstall_sync_def by (intro wlp_wrap wlp_sync) (auto simp: is_folder_iff intro: returns_wrap returns_sync)

definition same_places :: "uninstaller \<Rightarrow> string \<Rightarrow> uninstall_journal \<Rightarrow> node \<Rightarrow> node \<Rightarrow> node \<Rightarrow> bool" where
  "same_places u tx j d0 d d' \<longleftrightarrow> un_frame u tx j d0 d' \<and> entry (un_target j) d' = entry (un_target j) d
     \<and> entry (un_quarantine j) d' = entry (un_quarantine j) d"

lemma un_record:
  assumes ok: "un_ok u tx j" and f: "un_frame u tx j d0 d"
  shows "wlp F (record_phase u (uninstall_journal_path u tx) (marked ph j)) (\<lambda>_. same_places u tx j d0 d) (\<lambda>_. same_places u tx j d0 d) (same_places u tx j d0 d) d"
proof -
  let ?jp = "uninstall_journal_path u tx"
  have "plain_records (un_records u j)" using ok by (simp add: un_ok_def records_ok_def)
  moreover have "un_encode u (marked ph j) \<in> un_records u j" by (simp add: un_records_def)
  ultimately have "keeps (journal_ok (un_records u j) ?jp) (record_phase u ?jp (marked ph j))"
    unfolding record_phase_def by (intro keeps_rules keeps_persist_ok)
  from keepsD [OF this, of d F] f
  have lines: "wlp F (record_phase u ?jp (marked ph j)) (\<lambda>_. journal_ok (un_records u j) ?jp) (\<lambda>_. journal_ok (un_records u j) ?jp)
      (journal_ok (un_records u j) ?jp) d" by (simp add: un_frame_def)
  have "confined ?jp (record_phase u ?jp (marked ph j))" unfolding record_phase_def by (intro confined_wrap confined_persist)
  from wlp_confined [OF this lines] show ?thesis
    by (rule wlp_mono) (auto simp: same_places_def intro: un_frame_journal [OF ok _ _ f])
qed

lemma un_record_started:
  assumes "started e (uninstall_journal_path u tx) d"
  shows "wlp F (record_phase u (uninstall_journal_path u tx) r) (\<lambda>_. started e (uninstall_journal_path u tx))
    (\<lambda>_. started e (uninstall_journal_path u tx)) (started e (uninstall_journal_path u tx)) d"
  unfolding record_phase_def by (rule keepsD [where P = "started e (uninstall_journal_path u tx)", OF _ assms]) (intro keeps_rules keeps_started)

lemma un_drop:
  assumes ok: "un_ok u tx j" and f: "un_frame u tx j d0 d"
  shows "wlp F (drop_record u (uninstall_journal_path u tx)) (\<lambda>_. same_places u tx j d0 d) (\<lambda>_. same_places u tx j d0 d) (same_places u tx j d0 d) d"
proof -
  let ?jp = "uninstall_journal_path u tx"
  have "keeps (journal_ok (un_records u j) ?jp) (drop_record u ?jp)"
    unfolding drop_record_def by (intro keeps_rules keeps_remove_ok)
  from keepsD [OF this, of d F] f
  have lines: "wlp F (drop_record u ?jp) (\<lambda>_. journal_ok (un_records u j) ?jp) (\<lambda>_. journal_ok (un_records u j) ?jp)
      (journal_ok (un_records u j) ?jp) d" by (simp add: un_frame_def)
  have "confined ?jp (drop_record u ?jp)" unfolding drop_record_def by (intro confined_wrap confined_remove_journal)
  from wlp_confined [OF this lines] show ?thesis
    by (rule wlp_mono) (auto simp: same_places_def intro: un_frame_journal [OF ok _ _ f])
qed

lemma returns_drop:
  assumes "started e (uninstall_journal_path u tx) d"
  shows "returns (drop_record u (uninstall_journal_path u tx)) (\<lambda>_ d'. True) d"
  using assms returns_remove_journal [of "uninstall_journal_path u tx" "un_journals u" "tx @ ''.uninstall''" d]
  unfolding drop_record_def started_def by (auto simp: uninstall_journal_path_def intro: returns_wrap returns_mono)

text \<open>Moving between the two places.\<close>

definition un_moved :: "uninstaller \<Rightarrow> string \<Rightarrow> uninstall_journal \<Rightarrow> node \<Rightarrow> location \<Rightarrow> location \<Rightarrow> node \<Rightarrow> node \<Rightarrow> bool" where
  "un_moved u tx j d0 p q d d' \<longleftrightarrow> un_frame u tx j d0 d' \<and> entry q d' = entry p d \<and> entry p d' = None
     \<and> (\<forall>e. started e (uninstall_journal_path u tx) d' \<longleftrightarrow> started e (uninstall_journal_path u tx) d)"

lemma un_move:
  assumes ok: "un_ok u tx j" and f: "un_frame u tx j d0 d"
    and pq: "(p, q) = (uj_target_path j, uj_quarantined_path j) \<or> (p, q) = (uj_quarantined_path j, uj_target_path j)"
    and free: "entry (locate q) d = None"
  shows "wlp F (uninstall_rename p q) (\<lambda>_. un_moved u tx j d0 (locate p) (locate q) d) (\<lambda>_ d'. d' = d) (\<lambda>d'. d' = d) d"
    and "entry (locate p) d \<noteq> None \<Longrightarrow> returns (uninstall_rename p q) (\<lambda>_. un_moved u tx j d0 (locate p) (locate q) d) d"
proof -
  obtain x y where x: "locate p = un_root j @ [x]" and y: "locate q = un_root j @ [y]" and xy: "x \<noteq> y"
    using ok pq by (auto simp: un_ok_def un_target_def un_quarantine_def)
  have places: "locate p = un_target j \<or> locate p = un_quarantine j" "locate q = un_target j \<or> locate q = un_quarantine j"
    using pq by (auto simp: un_target_def un_quarantine_def)
  have fold: "is_folder (un_root j) d" using f by (simp add: un_frame_def)
  have eff: "un_moved u tx j d0 (locate p) (locate q) d d'" if n: "entry (locate p) d = Some n"
    and d': "d' = put_entry (locate p) None (put_entry (locate q) (Some n) d)" for n d'
  proof -
    let ?d = "put_entry (locate q) (Some n) d"
    have "un_frame u tx j d0 ?d" by (rule un_frame_place(1) [OF ok places(2) tree.away_put f])
    then have fr: "un_frame u tx j d0 d'" unfolding d' by (rule un_frame_place(1) [OF ok places(1) tree.away_put])
    have "started e (uninstall_journal_path u tx) ?d = started e (uninstall_journal_path u tx) d" for e
      by (rule un_frame_place(2) [OF ok places(2) tree.away_put f])
    moreover have "started e (uninstall_journal_path u tx) d' = started e (uninstall_journal_path u tx) ?d" for e
      unfolding d' by (rule un_frame_place(2) [OF ok places(1) tree.away_put \<open>un_frame u tx j d0 ?d\<close>])
    ultimately show ?thesis using fr rename_effect [OF fold xy n [unfolded x] d' [unfolded x y]] n
      unfolding un_moved_def x y by auto
  qed
  show "wlp F (uninstall_rename p q) (\<lambda>_. un_moved u tx j d0 (locate p) (locate q) d) (\<lambda>_ d'. d' = d) (\<lambda>d'. d' = d) d"
    unfolding uninstall_rename_def x y using eff free by (intro wlp_wrap wlp_rename [OF fold xy]) (auto simp: x y)
  assume "entry (locate p) d \<noteq> None"
  then obtain n where n: "entry (locate p) d = Some n" by blast
  then show "returns (uninstall_rename p q) (\<lambda>_. un_moved u tx j d0 (locate p) (locate q) d) d"
    unfolding uninstall_rename_def x y using eff [OF n refl] free
    by (intro returns_wrap returns_rename [OF fold xy]) (auto simp: x y)
qed

lemma un_load:
  assumes ok: "un_ok u tx j" and f: "un_frame u tx j d0 d"
  shows "wlp F (load_record u (uninstall_journal_path u tx)) (\<lambda>r d'. d' = d \<and> (\<exists>ph. r = marked ph j)) (\<lambda>_ d'. d' = d) (\<lambda>d'. d' = d) d"
    and "started (un_encode u (marked UninstallIntent j)) (uninstall_journal_path u tx) d \<Longrightarrow>
      returns (load_record u (uninstall_journal_path u tx)) (\<lambda>r d'. d' = d \<and> (\<exists>ph. r = marked ph j)) d"
proof -
  let ?jp = "uninstall_journal_path u tx" and ?e = "un_encode u (marked UninstallIntent j)"
  have rec: "plain_records (un_records u j)" "\<And>l r. l \<in> pieces (un_records u j) \<Longrightarrow> un_decode u l = Inr r \<Longrightarrow> r \<in> {r. \<exists>ph. r = marked ph j}"
    "\<And>l. l \<in> pieces (un_records u j) \<Longrightarrow> valid_utf8 l" and e: "\<not> is_blank ?e" "un_decode u ?e = Inr (marked UninstallIntent j)"
    using ok by (auto simp: un_ok_def records_ok_def)
  have lines: "journal_ok (un_records u j) ?jp d" using f by (simp add: un_frame_def)
  have mem: "?e \<in> un_records u j" by (simp add: un_records_def)
  have safe: "wlp F (read_latest_journal (un_decode u) ?jp) (\<lambda>r d'. d' = d \<and> r \<in> {r. \<exists>ph. r = marked ph j}) (\<lambda>_ d'. d' = d) (\<lambda>d'. d' = d) d" for F
    by (rule wlp_read_latest [OF lines rec(1)]) (rule rec(2))
  show "wlp F (load_record u ?jp) (\<lambda>r d'. d' = d \<and> (\<exists>ph. r = marked ph j)) (\<lambda>_ d'. d' = d) (\<lambda>d'. d' = d) d"
    unfolding load_record_def
    by (rule wlp_do_then, rule wlp_wrap, rule wlp_mono [OF safe]) (auto intro!: wlp_do_then wlp_from_result wlp_give)
  assume s: "started ?e ?jp d"
  have "newline \<notin> set ?e" "CHR 0x0D \<notin> set ?e" using rec(1) mem by (auto simp: plain_records_def)
  then have read: "returns (read_latest_journal (un_decode u) ?jp) (\<lambda>_ d'. d' = d) d"
    by (intro returns_read_latest [where e = ?e and T = "un_records u j" and decode = "un_decode u", OF s _ _ e lines rec(1) _ mem])
      (use rec(3) in auto)
  have paths: "validate_uninstall_paths (marked ph j) = Inr ()" for ph
    using ok by (simp add: un_ok_def validate_uninstall_paths_def)
  show "returns (load_record u ?jp) (\<lambda>r d'. d' = d \<and> (\<exists>ph. r = marked ph j)) d"
    unfolding load_record_def
    by (rule returns_seq [OF returns_wrap [OF returns_and [OF read safe]]])
      (auto simp: paths from_result_def do_then_give intro!: returns_give)
qed

section \<open>The operations\<close>

lemma in_place_same: "in_place u tx j d0 n d \<Longrightarrow> same_places u tx j d0 d d' \<Longrightarrow> in_place u tx j d0 n d'"
  and gone_same: "un_gone u tx j d0 d \<Longrightarrow> same_places u tx j d0 d d' \<Longrightarrow> un_gone u tx j d0 d'"
  and quarantined_same: "quarantined u tx j d0 n d \<Longrightarrow> same_places u tx j d0 d d' \<Longrightarrow>
    started (un_encode u (marked UninstallIntent j)) (uninstall_journal_path u tx) d' \<Longrightarrow> quarantined u tx j d0 n d'"
  by (auto simp: in_place_def un_gone_def quarantined_def same_places_def)

lemma in_place_safe: "in_place u tx j d0 n d \<Longrightarrow> un_safe u tx j d0 n d"
  and quarantined_safe: "quarantined u tx j d0 n d \<Longrightarrow> un_safe u tx j d0 n d"
  by (simp_all add: un_safe_def)

lemma sem_quarantine:
  assumes ok: "un_ok u tx j" and i: "in_place u tx j d0 n d" and fresh: "entry (uninstall_journal_path u tx) d = None"
    and phase: "uj_phase j = UninstallIntent"
  shows "wlp F (quarantine u (uninstall_journal_path u tx) j) (\<lambda>r d'. r = uninstall_result_of j \<and> quarantined u tx j d0 n d')
    (\<lambda>_. un_safe u tx j d0 n) (un_safe u tx j d0 n) d"
proof -
  let ?jp = "uninstall_journal_path u tx" and ?e = "un_encode u (marked UninstallIntent j)"
  let ?Q = "\<lambda>r d'. r = uninstall_result_of j \<and> quarantined u tx j d0 n d'" and ?S = "un_safe u tx j d0 n"
  have j: "marked UninstallIntent j = j" using phase by (cases j) (simp add: marked_def)
  have f: "un_frame u tx j d0 d" using i by (simp add: in_place_def)
  have root: "is_folder (un_journals u) d" using f by (simp add: un_frame_def)
  have first: "wlp F (record_phase u ?jp j) (\<lambda>_ d'. in_place u tx j d0 n d' \<and> started ?e ?jp d') (\<lambda>_. ?S) ?S d"
  proof -
    have new: "wlp F (record_phase u ?jp j) (\<lambda>_ d'. started ?e ?jp d') (\<lambda>_ _. True) (\<lambda>_. True) d"
      unfolding record_phase_def j
      by (intro wlp_wrap wlp_persist_new [OF _ root fresh]) (simp add: uninstall_journal_path_def)
    from wlp_and [OF un_record [OF ok f, of F UninstallIntent, unfolded j] new] show ?thesis
      by (rule wlp_mono) (auto intro: in_place_same [OF i] in_place_safe)
  qed
  have last: "wlp F (do_then (record_phase u ?jp (marked UninstallMoved j)) (\<lambda>_. give (uninstall_result_of (marked UninstallMoved j)))) ?Q (\<lambda>_. ?S) ?S d2"
    if q: "quarantined u tx j d0 n d2" for d2
  proof -
    have "un_frame u tx j d0 d2" and s: "started ?e ?jp d2" using q by (simp_all add: quarantined_def)
    from wlp_and [OF un_record [OF ok this(1)] un_record_started [OF this(2)]]
    have "wlp F (record_phase u ?jp (marked UninstallMoved j)) (\<lambda>_. quarantined u tx j d0 n) (\<lambda>_. ?S) ?S d2"
      by (rule wlp_mono) (auto intro: quarantined_same [OF q] quarantined_safe)
    then show ?thesis by (rule wlp_seq) (auto intro: wlp_give)
  qed
  have moved: "quarantined u tx j d0 n d2"
    if "un_moved u tx j d0 (un_target j) (un_quarantine j) d1 d2" "in_place u tx j d0 n d1" "started ?e ?jp d1" for d1 d2
    using that by (simp add: un_moved_def quarantined_def in_place_def)
  have rest: "wlp F (do_then (uninstall_sync (uj_skill_root j)) (\<lambda>_. do_then (record_phase u ?jp (marked UninstallMoved j))
      (\<lambda>_. give (uninstall_result_of (marked UninstallMoved j))))) ?Q (\<lambda>_. ?S) ?S d2" if q: "quarantined u tx j d0 n d2" for d2
    by (rule wlp_seq [OF un_sync(1)]) (use last [OF q] quarantined_safe [OF q] in auto)
  have go: "wlp F (do_then (uninstall_rename (uj_target_path j) (uj_quarantined_path j)) (\<lambda>_. do_then (uninstall_sync (uj_skill_root j)) (\<lambda>_.
      do_then (record_phase u ?jp (marked UninstallMoved j)) (\<lambda>_. give (uninstall_result_of (marked UninstallMoved j)))))) ?Q (\<lambda>_. ?S) ?S d1"
    if i1: "in_place u tx j d0 n d1" and s1: "started ?e ?jp d1" for d1
  proof -
    have f1: "un_frame u tx j d0 d1" and free: "entry (locate (uj_quarantined_path j)) d1 = None"
      using i1 by (simp_all add: in_place_def un_quarantine_def)
    show ?thesis
      by (rule wlp_seq [OF un_move(1) [OF ok f1 disjI1 [OF refl] free]])
        (use rest moved [OF _ i1 s1] in_place_safe [OF i1] in \<open>auto simp: un_target_def un_quarantine_def\<close>)
  qed
  show ?thesis unfolding quarantine_def by (rule wlp_seq [OF first]) (use go in auto)
qed

section \<open>Looking at both places\<close>

text \<open>
  The four operations on a journal read it, look at both places and act on what they see. \<open>looks\<close>
  is that common beginning: whatever they then do keeps \<open>P\<close>, so do they.
\<close>

definition look :: "uninstaller \<Rightarrow> location \<Rightarrow> (uninstall_journal \<Rightarrow> uninstall_error + unit)
    \<Rightarrow> (uninstall_journal \<Rightarrow> bool \<Rightarrow> bool \<Rightarrow> (uninstall_error, 'a) io) \<Rightarrow> (uninstall_error, 'a) io" where
  "look u p check act = do_then (load_record u p) (\<lambda>j. do_then (from_result (check j)) (\<lambda>_.
     do_then (uninstall_exists (uj_target_path j)) (\<lambda>there.
     do_then (uninstall_exists (uj_quarantined_path j)) (\<lambda>held. act j there held))))"

lemma sem_look:
  assumes ok: "un_ok u tx j" and f: "un_frame u tx j d0 d" and E: "\<And>e. E e d" and H: "H d"
    and check: "\<And>ph. check (marked ph j) = Inr ()"
    and act: "\<And>ph. wlp F (act (marked ph j) (entry (un_target j) d \<noteq> None) (entry (un_quarantine j) d \<noteq> None)) Q E H d"
  shows "wlp F (look u (uninstall_journal_path u tx) check act) Q E H d"
proof -
  have 2: "wlp F (do_then (uninstall_exists (uj_quarantined_path j)) (act (marked ph j) (entry (un_target j) d \<noteq> None))) Q E H d" for ph
    by (rule wlp_seq [OF un_exists(1) [OF ok disjI2 [OF refl] f]]) (use act E H in \<open>auto simp: un_quarantine_def\<close>)
  have 1: "wlp F (do_then (uninstall_exists (uj_target_path j)) (\<lambda>there. do_then (uninstall_exists (uj_quarantined_path j)) (act (marked ph j) there))) Q E H d" for ph
    by (rule wlp_seq [OF un_exists(1) [OF ok disjI1 [OF refl] f]]) (use 2 E H in \<open>auto simp: un_target_def\<close>)
  show ?thesis unfolding look_def by (rule wlp_seq [OF un_load(1) [OF ok f]]) (use 1 E H in \<open>auto simp: check from_result_def do_then_give\<close>)
qed

lemma returns_look:
  assumes ok: "un_ok u tx j" and f: "un_frame u tx j d0 d"
    and s: "started (un_encode u (marked UninstallIntent j)) (uninstall_journal_path u tx) d"
    and check: "\<And>ph. check (marked ph j) = Inr ()"
    and act: "\<And>ph. returns (act (marked ph j) (entry (un_target j) d \<noteq> None) (entry (un_quarantine j) d \<noteq> None)) Q d"
  shows "returns (look u (uninstall_journal_path u tx) check act) Q d"
proof -
  have 2: "returns (do_then (uninstall_exists (uj_quarantined_path j)) (act (marked ph j) (entry (un_target j) d \<noteq> None))) Q d" for ph
    by (rule returns_seq [OF un_exists(2) [OF ok disjI2 [OF refl] f]]) (use act in \<open>auto simp: un_quarantine_def\<close>)
  have 1: "returns (do_then (uninstall_exists (uj_target_path j)) (\<lambda>there. do_then (uninstall_exists (uj_quarantined_path j)) (act (marked ph j) there))) Q d" for ph
    by (rule returns_seq [OF un_exists(2) [OF ok disjI1 [OF refl] f]]) (use 2 in \<open>auto simp: un_target_def\<close>)
  show ?thesis unfolding look_def by (rule returns_seq [OF un_load(2) [OF ok f s]]) (use 1 in \<open>auto simp: check from_result_def do_then_give\<close>)
qed

subsection \<open>Rolling back\<close>

definition restore :: "uninstaller \<Rightarrow> string \<Rightarrow> uninstall_journal \<Rightarrow> bool \<Rightarrow> bool \<Rightarrow> (uninstall_error, unit) io" where
  "restore u tx j there held = do_then (if there then if held then raise (AmbiguousFilesystemState tx) else give ()
      else if held then do_then (uninstall_rename (uj_quarantined_path j) (uj_target_path j)) (\<lambda>_. uninstall_sync (uj_skill_root j))
      else raise (UninstallUnrecoverable tx)) (\<lambda>_. drop_record u (uninstall_journal_path u tx))"

lemma rollback_look: "validate_transaction_id tx \<Longrightarrow> rollback_uninstall u tx = look u (uninstall_journal_path u tx) (\<lambda>_. Inr ()) (restore u tx)"
  by (simp add: rollback_uninstall_def look_def restore_def [abs_def] check_transaction_id_def from_result_def do_then_give)

lemma drop_in_place: "un_ok u tx j \<Longrightarrow> in_place u tx j d0 n d \<Longrightarrow>
    wlp F (drop_record u (uninstall_journal_path u tx)) (\<lambda>_. in_place u tx j d0 n) (\<lambda>_. in_place u tx j d0 n) (in_place u tx j d0 n) d"
  by (rule wlp_mono [OF un_drop]) (auto simp: in_place_def same_places_def)

lemma sem_rollback_in_place:
  assumes ok: "un_ok u tx j" and i: "in_place u tx j d0 n d"
  shows "wlp F (rollback_uninstall u tx) (\<lambda>_. in_place u tx j d0 n) (\<lambda>_. in_place u tx j d0 n) (in_place u tx j d0 n) d"
proof -
  have tx: "validate_transaction_id tx" using ok by (simp add: un_ok_def)
  have f: "un_frame u tx j d0 d" and seen: "entry (un_target j) d \<noteq> None" "entry (un_quarantine j) d = None" using i by (simp_all add: in_place_def)
  show ?thesis unfolding rollback_look [OF tx]
    by (rule sem_look [OF ok f]) (use i drop_in_place [OF ok i] seen in \<open>simp_all add: restore_def do_then_give\<close>)
qed

lemma sem_rollback_quarantined:
  assumes ok: "un_ok u tx j" and q: "quarantined u tx j d0 n d"
  shows "wlp F (rollback_uninstall u tx) (\<lambda>_. in_place u tx j d0 n) (\<lambda>_. un_safe u tx j d0 n) (un_safe u tx j d0 n) d"
    and "returns (rollback_uninstall u tx) (\<lambda>_. in_place u tx j d0 n) d"
proof -
  let ?jp = "uninstall_journal_path u tx"
  have tx: "validate_transaction_id tx" using ok by (simp add: un_ok_def)
  have f: "un_frame u tx j d0 d" and s: "started (un_encode u (marked UninstallIntent j)) ?jp d"
    and free: "entry (locate (uj_target_path j)) d = None" and held: "entry (locate (uj_quarantined_path j)) d \<noteq> None"
    using q by (simp_all add: quarantined_def un_target_def un_quarantine_def)
  have home: "in_place u tx j d0 n d' \<and> started (un_encode u (marked UninstallIntent j)) ?jp d'"
    if "un_moved u tx j d0 (locate (uj_quarantined_path j)) (locate (uj_target_path j)) d d'" for d'
    using that q by (simp add: un_moved_def in_place_def quarantined_def un_target_def un_quarantine_def)
  have drop: "wlp F (drop_record u ?jp) (\<lambda>_. in_place u tx j d0 n) (\<lambda>_. un_safe u tx j d0 n) (un_safe u tx j d0 n) d'"
    if "in_place u tx j d0 n d'" for F d'
    by (rule wlp_mono [OF drop_in_place [OF ok that]]) (auto intro: in_place_safe)
  have sync: "wlp F (do_then (uninstall_sync (uj_skill_root j)) (\<lambda>_. drop_record u ?jp)) (\<lambda>_. in_place u tx j d0 n)
      (\<lambda>_. un_safe u tx j d0 n) (un_safe u tx j d0 n) d'" if "in_place u tx j d0 n d'" for F d'
    by (rule wlp_seq [OF un_sync(1)]) (use drop [OF that] in_place_safe [OF that] in auto)
  have assoc: "do_then (do_then m f) g = do_then m (\<lambda>a. do_then (f a) g)" for m :: "(uninstall_error, unit) io" and f :: "unit \<Rightarrow> (uninstall_error, unit) io" and g :: "unit \<Rightarrow> (uninstall_error, unit) io"
    by (rule ext) (auto simp: do_then_def split: run.splits)
  have act: "restore u tx (marked ph j) (entry (un_target j) d \<noteq> None) (entry (un_quarantine j) d \<noteq> None)
      = do_then (uninstall_rename (uj_quarantined_path j) (uj_target_path j)) (\<lambda>_. do_then (uninstall_sync (uj_skill_root j)) (\<lambda>_. drop_record u ?jp))" for ph
    using free held by (simp add: restore_def un_target_def un_quarantine_def assoc)
  have rename: "wlp F (do_then (uninstall_rename (uj_quarantined_path j) (uj_target_path j)) (\<lambda>_. do_then (uninstall_sync (uj_skill_root j)) (\<lambda>_. drop_record u ?jp)))
      (\<lambda>_. in_place u tx j d0 n) (\<lambda>_. un_safe u tx j d0 n) (un_safe u tx j d0 n) d" for F
    by (rule wlp_seq [OF un_move(1) [OF ok f disjI2 [OF refl] free]]) (use sync home quarantined_safe [OF q] in auto)
  show "wlp F (rollback_uninstall u tx) (\<lambda>_. in_place u tx j d0 n) (\<lambda>_. un_safe u tx j d0 n) (un_safe u tx j d0 n) d"
    unfolding rollback_look [OF tx]
    by (rule sem_look [OF ok f]) (rule quarantined_safe [OF q], rule quarantined_safe [OF q], rule refl, unfold act, rule rename)
  have rsync: "returns (do_then (uninstall_sync (uj_skill_root j)) (\<lambda>_. drop_record u ?jp)) (\<lambda>_. in_place u tx j d0 n) d'"
    if d': "in_place u tx j d0 n d'" "started (un_encode u (marked UninstallIntent j)) ?jp d'" for d'
  proof -
    have "is_folder (locate (uj_skill_root j)) d'" using d'(1) by (simp add: in_place_def un_frame_def un_root_def)
    moreover have "returns (drop_record u ?jp) (\<lambda>_. in_place u tx j d0 n) d'"
      by (rule returns_mono [OF returns_and [OF returns_drop [OF d'(2)] drop_in_place [OF ok d'(1)]]]) simp
    ultimately show ?thesis by (intro returns_seq [OF un_sync(2)]) auto
  qed
  have "returns (do_then (uninstall_rename (uj_quarantined_path j) (uj_target_path j)) (\<lambda>_. do_then (uninstall_sync (uj_skill_root j)) (\<lambda>_. drop_record u ?jp)))
      (\<lambda>_. in_place u tx j d0 n) d"
    by (rule returns_seq [OF un_move(2) [OF ok f disjI2 [OF refl] free held]]) (use rsync home in auto)
  then show "returns (rollback_uninstall u tx) (\<lambda>_. in_place u tx j d0 n) d"
    unfolding rollback_look [OF tx] by (intro returns_look [OF ok f s refl]) (simp only: act)
qed

subsection \<open>Finalizing\<close>

lemma sem_finalize_gone:
  assumes ok: "un_ok u tx j" and g: "un_gone u tx j d0 d"
  shows "wlp F (finalize_uninstall u tx) (\<lambda>_ d'. un_gone u tx j d0 d' \<and> entry (un_quarantine j) d' = None) (\<lambda>_. un_gone u tx j d0) (un_gone u tx j d0) d"
proof -
  let ?jp = "uninstall_journal_path u tx" and ?G = "un_gone u tx j d0"
  define act where "act k there held = (if there \<and> held then raise (AmbiguousFilesystemState tx) else if there then raise (CatalogCommitNotReflected tx)
      else do_then (if held then delete_quarantine k else give ()) (\<lambda>_. drop_record u ?jp))" for k there held
  have tx: "validate_transaction_id tx" "uj_transaction_id j = tx" using ok by (simp_all add: un_ok_def)
  have f: "un_frame u tx j d0 d" and none: "entry (un_target j) d = None" using g by (simp_all add: un_gone_def)
  have drop: "wlp F (drop_record u ?jp) (\<lambda>_ d'. ?G d' \<and> entry (un_quarantine j) d' = None) (\<lambda>_. ?G) ?G d'"
    if "?G d'" "entry (un_quarantine j) d' = None" for d'
    by (rule wlp_mono [OF un_drop [OF ok, of d0]]) (use that gone_same in \<open>auto simp: un_gone_def same_places_def\<close>)
  have nonroot: "locate (uj_quarantined_path j) \<noteq> []" using ok by (auto simp: un_ok_def un_quarantine_def)
  have away: "?G d'" if "tree.away (locate (uj_quarantined_path j)) d d'" for d'
    using un_frame_place(1) [OF ok disjI2 [OF refl] _ f] that tree.away_entry [OF that] un_apart(2) [OF ok] none
    by (auto simp: un_gone_def un_quarantine_def)
  have del: "wlp F (delete_quarantine j) (\<lambda>_ d'. ?G d' \<and> entry (un_quarantine j) d' = None) (\<lambda>_. ?G) ?G d"
    unfolding delete_quarantine_def
  proof (rule wlp_seq)
    show "wlp F (wrap uninstall_fs_error (remove_any (locate (uj_quarantined_path j))))
        (\<lambda>_ d'. ?G d' \<and> entry (un_quarantine j) d' = None) (\<lambda>_. ?G) ?G d"
      by (rule wlp_wrap, rule wlp_mono [OF wlp_remove_any [OF nonroot]]) (auto simp: un_quarantine_def intro: away)
  qed (auto intro: wlp_mono [OF un_sync(1)])
  have act: "wlp F (act (marked ph j) (entry (un_target j) d \<noteq> None) (entry (un_quarantine j) d \<noteq> None))
      (\<lambda>_ d'. ?G d' \<and> entry (un_quarantine j) d' = None) (\<lambda>_. ?G) ?G d" for ph
  proof (cases "entry (un_quarantine j) d = None")
    case True
    then show ?thesis using none drop [OF g True] by (simp add: act_def do_then_give)
  next
    case False
    have same: "delete_quarantine (marked ph j) = delete_quarantine j" by (simp add: delete_quarantine_def)
    show ?thesis using none False by (simp add: act_def same) (rule wlp_seq [OF del], auto intro: drop)
  qed
  have fin: "finalize_uninstall u tx = look u ?jp (\<lambda>k. ensure (uj_transaction_id k = tx)
       (UninstallInvalidJournal ''transaction id does not match journal filename'')) act"
    by (simp add: finalize_uninstall_def look_def act_def [abs_def] check_transaction_id_def from_result_def do_then_give tx)
  show ?thesis unfolding fin by (rule sem_look [OF ok f]) (rule g, rule g, simp add: tx, rule act)
qed

subsection \<open>Recovering\<close>

lemma pending_look: "pending_one u p = look u p (\<lambda>_. Inr ()) (classify_pending u p)"
  by (simp add: pending_one_def look_def from_result_def do_then_give)

text \<open>What \<open>pending_one\<close> may do in each state.\<close>

definition reported :: "uninstall_journal \<Rightarrow> (node \<Rightarrow> bool) \<Rightarrow> uninstall_result option \<Rightarrow> node \<Rightarrow> bool" where
  "reported j P r d \<longleftrightarrow> P d \<and> (r = None \<or> r = Some (uninstall_result_of j))"

lemma sem_pending_one:
  assumes ok: "un_ok u tx j"
  shows "in_place u tx j d0 n d \<Longrightarrow> wlp F (pending_one u (uninstall_journal_path u tx)) (reported j (in_place u tx j d0 n)) (\<lambda>_. in_place u tx j d0 n) (in_place u tx j d0 n) d"
    and "un_gone u tx j d0 d \<Longrightarrow> wlp F (pending_one u (uninstall_journal_path u tx)) (reported j (un_gone u tx j d0)) (\<lambda>_. un_gone u tx j d0) (un_gone u tx j d0) d"
    and "quarantined u tx j d0 n d \<Longrightarrow> wlp F (pending_one u (uninstall_journal_path u tx)) (reported j (quarantined u tx j d0 n)) (\<lambda>_. quarantined u tx j d0 n) (quarantined u tx j d0 n) d"
    and "quarantined u tx j d0 n d \<Longrightarrow> returns (pending_one u (uninstall_journal_path u tx)) (\<lambda>r d'. d' = d \<and> r = Some (uninstall_result_of j)) d"
proof -
  let ?jp = "uninstall_journal_path u tx"
  show "wlp F (pending_one u ?jp) (reported j (in_place u tx j d0 n)) (\<lambda>_. in_place u tx j d0 n) (in_place u tx j d0 n) d"
    if i: "in_place u tx j d0 n d"
  proof -
    have f: "un_frame u tx j d0 d" using i by (simp add: in_place_def)
    have drop: "wlp F (do_then (drop_record u ?jp) (\<lambda>_. give None)) (reported j (in_place u tx j d0 n)) (\<lambda>_. in_place u tx j d0 n) (in_place u tx j d0 n) d"
      by (rule wlp_seq [OF drop_in_place [OF ok i]]) (auto intro: wlp_give simp: reported_def)
    have act: "wlp F (classify_pending u ?jp (marked ph j) (entry (un_target j) d \<noteq> None) (entry (un_quarantine j) d \<noteq> None))
        (reported j (in_place u tx j d0 n)) (\<lambda>_. in_place u tx j d0 n) (in_place u tx j d0 n) d" for ph
      using i drop by (cases "ph = UninstallIntent") (auto simp: classify_pending_def in_place_def [of u tx j d0 n d] intro!: wlp_raise)
    show ?thesis unfolding pending_look by (rule sem_look [OF ok f]) (rule i, rule i, rule refl, rule act)
  qed
  show "wlp F (pending_one u ?jp) (reported j (un_gone u tx j d0)) (\<lambda>_. un_gone u tx j d0) (un_gone u tx j d0) d"
    if g: "un_gone u tx j d0 d"
  proof -
    have f: "un_frame u tx j d0 d" and none: "entry (un_target j) d = None" using g by (simp_all add: un_gone_def)
    have act: "wlp F (classify_pending u ?jp (marked ph j) (entry (un_target j) d \<noteq> None) (entry (un_quarantine j) d \<noteq> None))
        (reported j (un_gone u tx j d0)) (\<lambda>_. un_gone u tx j d0) (un_gone u tx j d0) d" for ph
      using g none by (auto simp: classify_pending_def reported_def intro!: wlp_give wlp_raise)
    show ?thesis unfolding pending_look by (rule sem_look [OF ok f]) (rule g, rule g, rule refl, rule act)
  qed
  assume q: "quarantined u tx j d0 n d"
  then have f: "un_frame u tx j d0 d" and s: "started (un_encode u (marked UninstallIntent j)) ?jp d"
    and seen: "entry (un_target j) d = None" "entry (un_quarantine j) d \<noteq> None" by (simp_all add: quarantined_def)
  have act: "classify_pending u ?jp (marked ph j) (entry (un_target j) d \<noteq> None) (entry (un_quarantine j) d \<noteq> None)
      = give (Some (uninstall_result_of j))" for ph using seen by (simp add: classify_pending_def)
  show "wlp F (pending_one u ?jp) (reported j (quarantined u tx j d0 n)) (\<lambda>_. quarantined u tx j d0 n) (quarantined u tx j d0 n) d"
    unfolding pending_look
    by (rule sem_look [OF ok f]) (rule q, rule q, rule refl, unfold act, rule wlp_give, simp add: reported_def q)
  show "returns (pending_one u ?jp) (\<lambda>r d'. d' = d \<and> r = Some (uninstall_result_of j)) d"
    unfolding pending_look by (rule returns_look [OF ok f s]) (rule refl, unfold act, rule returns_give, simp)
qed

definition no_uninstalls :: "uninstaller \<Rightarrow> node \<Rightarrow> bool" where
  "no_uninstalls u d \<longleftrightarrow> (\<forall>x. extension x = Some ''uninstall'' \<longrightarrow> entry (un_journals u @ [x]) d = None)"

definition listed :: "uninstall_journal \<Rightarrow> (node \<Rightarrow> bool) \<Rightarrow> uninstall_report \<Rightarrow> node \<Rightarrow> bool" where
  "listed j P report d \<longleftrightarrow> P d \<and> set (up_pending report) \<subseteq> {uninstall_result_of j}"

lemma listed_uninstalls:
  assumes ok: "un_ok u tx j" and f: "un_frame u tx j d0 d" and none: "no_uninstalls u d0"
    and fs: "journal_files ''uninstall'' (un_journals u) d = Inr ps" and p: "p \<in> set ps"
  shows "p = uninstall_journal_path u tx"
proof -
  obtain es where es: "entry (un_journals u) d = Some (Folder es)"
      and ps: "ps = map (\<lambda>x. un_journals u @ [x]) (sort (filter (\<lambda>x. extension x = Some ''uninstall'') (map fst es)))"
    using fs by (auto simp: journal_files_def elim!: checked_thenE split: node.split_asm)
  then obtain x where x: "p = un_journals u @ [x]" "x \<in> fst ` set es" "extension x = Some ''uninstall''" using p by auto
  have there: "entry p d \<noteq> None" using es x by (simp add: entry_append map_of_eq_None_iff split: option.split)
  show ?thesis
  proof (rule ccontr)
    assume "p \<noteq> uninstall_journal_path u tx"
    then have "unrelated p (uninstall_journal_path u tx)" using x by (simp add: uninstall_journal_path_def)
    moreover have "unrelated p (un_target j)" "unrelated p (un_quarantine j)"
      using tree.unrelated_inside un_apart(11,12) [OF ok] unfolding x(1) by (metis unrelated_sym)+
    ultimately have "entry p d = entry p d0" using f by (simp add: un_frame_def)
    then show False using there none x by (simp add: no_uninstalls_def)
  qed
qed

lemma sem_pending_each:
  assumes one: "\<And>d. P d \<Longrightarrow> wlp F (pending_one u jp) (reported j P) (\<lambda>_. P) P d"
  shows "\<forall>p \<in> set ps. p = jp \<Longrightarrow> P d \<Longrightarrow> set (up_pending report) \<subseteq> {uninstall_result_of j} \<Longrightarrow>
    wlp F (pending_each u ps report) (listed j P) (\<lambda>_. P) P d"
proof (induction ps arbitrary: report d)
  case (Cons p ps)
  have p: "p = jp" using Cons.prems(1) by simp
  show ?case unfolding pending_each.simps p
  proof (rule wlp_try [OF one [OF Cons.prems(2)]])
    fix r d' assume r: "reported j P r d'"
    show "wlp F (pending_each u ps (note_pending jp (Inr r) report)) (listed j P) (\<lambda>_. P) P d'"
      by (rule Cons.IH) (use Cons.prems r in \<open>auto simp: reported_def note_pending_def split: option.splits\<close>)
  next
    fix e d' assume "P d'"
    then show "wlp F (pending_each u ps (note_pending jp (Inl e) report)) (listed j P) (\<lambda>_. P) P d'"
      by (intro Cons.IH) (use Cons.prems in \<open>auto simp: note_pending_def\<close>)
  qed
qed (auto intro!: wlp_give simp: listed_def)

lemma un_real_directory:
  assumes "is_folder p d"
  shows "wlp F (uninstall_real_directory p) (\<lambda>_ d'. d' = d) (\<lambda>_ d'. d' = d) (\<lambda>d'. d' = d) d"
    and "returns (uninstall_real_directory p) (\<lambda>_ d'. d' = d) d"
proof -
  obtain es where es: "entry p d = Some (Folder es)" using assms by (auto simp: is_folder_iff)
  show "wlp F (uninstall_real_directory p) (\<lambda>_ d'. d' = d) (\<lambda>_ d'. d' = d) (\<lambda>d'. d' = d) d"
    unfolding uninstall_real_directory_def
    by (rule wlp_do_then, rule wlp_attempt, rule wlp_metadata) (use es in \<open>auto simp: folder_node_def intro: wlp_give wlp_raise\<close>)
  show "returns (uninstall_real_directory p) (\<lambda>_ d'. d' = d) d"
    unfolding uninstall_real_directory_def
    by (rule returns_try [OF returns_metadata [OF es, where Q = "\<lambda>n d'. n = Folder es \<and> d' = d"]])
      (auto simp: folder_node_def intro: returns_give)
qed

lemma sem_recover_pending:
  assumes ok: "un_ok u tx j" and none: "no_uninstalls u d0"
    and frame: "\<And>d. P d \<Longrightarrow> un_frame u tx j d0 d"
    and one: "\<And>d. P d \<Longrightarrow> wlp F (pending_one u (uninstall_journal_path u tx)) (reported j P) (\<lambda>_. P) P d" and P: "P d"
  shows "wlp F (recover_pending u) (listed j P) (\<lambda>_. P) P d"
proof -
  let ?start = "\<lparr>up_pending = [], up_cleaned_intents = 0, up_failed = []\<rparr>"
  have f: "un_frame u tx j d0 d" and root: "is_folder (un_journals u) d" using frame [OF P] by (simp_all add: un_frame_def)
  have each: "wlp F (pending_each u ps ?start) (listed j P) (\<lambda>_. P) P d"
    if "map_err UninstallIo (journal_files ''uninstall'' (un_journals u) d) = Inr ps" for ps
    by (rule sem_pending_each [OF one _ P]) (use listed_uninstalls [OF ok f none] that in \<open>auto simp: map_err_Inr_iff\<close>)
  have list: "wlp F (do_then (query UninstallIo (\<lambda>d. map_err UninstallIo (journal_files ''uninstall'' (un_journals u) d)))
      (\<lambda>ps. pending_each u ps ?start)) (listed j P) (\<lambda>_. P) P d"
    by (rule wlp_do_then, rule wlp_query) (use each P in auto)
  show ?thesis unfolding recover_pending_def
    by (rule wlp_seq [OF un_real_directory(1) [OF root]]) (use list P in auto)
qed

lemma returns_pending_each:
  assumes one: "returns (pending_one u jp) (\<lambda>r d'. d' = d \<and> r = Some x) d"
  shows "\<forall>p \<in> set ps. p = jp \<Longrightarrow> set (up_pending report) \<subseteq> {x} \<Longrightarrow> ps \<noteq> [] \<or> up_pending report \<noteq> [] \<Longrightarrow>
    returns (pending_each u ps report) (\<lambda>r d'. d' = d \<and> up_pending r \<noteq> [] \<and> set (up_pending r) \<subseteq> {x}) d"
proof (induction ps arbitrary: report)
  case (Cons p ps)
  have p: "p = jp" using Cons.prems(1) by simp
  show ?case unfolding pending_each.simps p
    by (rule returns_try [OF one]) (use Cons in \<open>auto simp: note_pending_def\<close>)
qed (auto intro: returns_give)

lemma uninstall_extension: "validate_transaction_id tx \<Longrightarrow> extension (tx @ ''.uninstall'') = Some ''uninstall''"
proof -
  assume tx: "validate_transaction_id tx"
  then have "CHR ''.'' \<notin> set tx" by (auto simp: validate_transaction_id_def list_all_iff is_ascii_alphanumeric_def byte_def)
  then have "split_on (CHR ''.'') (tx @ ''.uninstall'') = [tx, ''uninstall'']"
    using split_on_append [of "CHR ''.''" tx "''uninstall''"] split_on_no_sep_id by simp
  then show ?thesis using tx by (simp add: extension_def validate_transaction_id_def)
qed

lemma returns_recover_pending:
  assumes ok: "un_ok u tx j" and none: "no_uninstalls u d0" and q: "quarantined u tx j d0 n d"
  shows "returns (recover_pending u) (\<lambda>r d'. d' = d \<and> up_pending r \<noteq> [] \<and> set (up_pending r) \<subseteq> {uninstall_result_of j}) d"
proof -
  let ?jp = "uninstall_journal_path u tx" and ?start = "\<lparr>up_pending = [], up_cleaned_intents = 0, up_failed = []\<rparr>"
  have f: "un_frame u tx j d0 d" using q by (simp add: quarantined_def)
  then have root: "is_folder (un_journals u) d" by (simp add: un_frame_def)
  then obtain es where es: "entry (un_journals u) d = Some (Folder es)" by (auto simp: is_folder_iff)
  define ps where "ps = map (\<lambda>x. un_journals u @ [x]) (sort (filter (\<lambda>x. extension x = Some ''uninstall'') (map fst es)))"
  have fs: "journal_files ''uninstall'' (un_journals u) d = Inr ps"
    using checked_stat_Inr [of "un_journals u" d "Folder es"] es by (simp add: journal_files_def ps_def)
  have "entry ?jp d \<noteq> None" using q by (auto simp: quarantined_def started_def)
  then have "tx @ ''.uninstall'' \<in> fst ` set es"
    using es map_of_eq_None_iff [of es "tx @ ''.uninstall''"]
    by (cases "map_of es (tx @ ''.uninstall'')") (simp_all add: uninstall_journal_path_def entry_append)
  moreover have "extension (tx @ ''.uninstall'') = Some ''uninstall''" using uninstall_extension ok by (simp add: un_ok_def)
  ultimately have "tx @ ''.uninstall'' \<in> set (sort (filter (\<lambda>x. extension x = Some ''uninstall'') (map fst es)))" by simp
  then have "ps \<noteq> []" unfolding ps_def by (metis empty_iff list.set(1) map_is_Nil_conv)
  then have each: "returns (pending_each u ps ?start) (\<lambda>r d'. d' = d \<and> up_pending r \<noteq> [] \<and> set (up_pending r) \<subseteq> {uninstall_result_of j}) d"
    using listed_uninstalls [OF ok f none fs] by (intro returns_pending_each [OF sem_pending_one(4) [OF ok q]]) auto
  show ?thesis unfolding recover_pending_def
  proof (rule returns_seq [OF un_real_directory(2) [OF root]])
    fix a :: unit and d' assume "d' = d"
    then show "returns (do_then (query UninstallIo (\<lambda>d. map_err UninstallIo (journal_files ''uninstall'' (un_journals u) d)))
        (\<lambda>ps. pending_each u ps ?start)) (\<lambda>r d'. d' = d \<and> up_pending r \<noteq> [] \<and> set (up_pending r) \<subseteq> {uninstall_result_of j}) d'"
      by (intro returns_seq [OF returns_query [where a = ps and Q = "\<lambda>x d'. x = ps \<and> d' = d"]]) (use fs each in auto)
  qed
qed

subsection \<open>Beginning\<close>

lemma sem_begin:
  assumes ok: "un_ok u tx j" and j: "j = uninstall_journal_for rq tx" and i: "in_place u tx j d0 n d"
    and fresh: "entry (uninstall_journal_path u tx) d = None"
  shows "wlp F (begin_uninstall u rq tx) (\<lambda>r d'. r = uninstall_result_of j \<and> quarantined u tx j d0 n d')
    (\<lambda>_. un_safe u tx j d0 n) (un_safe u tx j d0 n) d"
proof -
  let ?jp = "uninstall_journal_path u tx" and ?Q = "\<lambda>r d'. r = uninstall_result_of j \<and> quarantined u tx j d0 n d'" and ?S = "un_safe u tx j d0 n"
  have f: "un_frame u tx j d0 d" using i by (simp add: in_place_def)
  have eqs: "uq_target_path rq = uj_target_path j" "uq_skill_root rq = uj_skill_root j" and phase: "uj_phase j = UninstallIntent"
    by (simp_all add: j uninstall_journal_for_def)
  have root: "is_folder (locate (uj_skill_root j)) d" using f by (simp add: un_frame_def un_root_def)
  have good: "?S d" by (rule in_place_safe [OF i])
  have taken: "wlp F (do_then (uninstall_exists (uj_quarantined_path j)) (\<lambda>taken. if taken then raise (AmbiguousFilesystemState tx) else quarantine u ?jp j))
      ?Q (\<lambda>_. ?S) ?S d"
    by (rule wlp_seq [OF un_exists(1) [OF ok disjI2 [OF refl] f]])
      (use sem_quarantine [OF ok i fresh phase] good in \<open>auto intro: wlp_raise\<close>)
  have there: "wlp F (do_then (uninstall_exists (uj_target_path j)) (\<lambda>there. if \<not> there then give (nothing_installed rq)
      else let j = uninstall_journal_for rq tx in do_then (uninstall_exists (uj_quarantined_path j)) (\<lambda>taken.
        if taken then raise (AmbiguousFilesystemState tx) else quarantine u ?jp j))) ?Q (\<lambda>_. ?S) ?S d"
    by (rule wlp_seq [OF un_exists(1) [OF ok disjI1 [OF refl] f]])
      (use taken good i in \<open>auto simp: j [symmetric] in_place_def un_target_def\<close>)
  have valid: "wlp F (validate_uninstall_request rq) (\<lambda>_ d'. d' = d) (\<lambda>_ d'. d' = d) (\<lambda>d'. d' = d) d"
    unfolding validate_uninstall_request_def eqs
    by (rule wlp_do_then, rule wlp_from_result) (auto intro: un_real_directory(1) [OF root])
  show ?thesis unfolding begin_uninstall_def eqs(1)
    by (rule wlp_seq [OF valid]) (use there good in auto)
qed

end
