(* ===== verification/Uninstall_Command.thy ===== *)
theory Uninstall_Command
  imports Uninstall_Safety Deployments
begin

text \<open>
  The uninstall command of \<open>lib.rs\<close> and the reconciliation of every startup: the engine moves the
  files, the catalog row decides. If the row could be removed the quarantine is deleted; if it is
  still there the quarantine is moved back. SQLite is the store of \<open>Local_Store\<close>, and a list says
  which of its calls fail: \<open>Some e\<close> fails with \<open>e\<close> and leaves the store as it is.
\<close>

datatype uninstall_command_error =
  LookupFailed store_error
| DeploymentMissing string string
| ProfileMissing string
| RootMismatch
| EngineFailed uninstall_error
| CatalogRemovalFailed store_error "uninstall_error option"

record uninstalled =
  ui_skill_id :: string
  ui_profile_id :: string
  ui_target_existed :: bool
  ui_recovery_pending :: bool

datatype reconcile_failure =
  JournalFailed location uninstall_error
| RollbackFailed string uninstall_error
| FinalizeFailed string uninstall_error
| CatalogLookupFailed string store_error

record startup_report =
  su_discovered :: nat
  su_rolled_back :: nat
  su_finalized :: nat
  su_cleaned_intents :: nat
  su_failed :: "reconcile_failure list"

type_synonym sqlite_faults = "store_error option list"

definition db_answer :: "sqlite_faults \<Rightarrow> store_error + 'a \<Rightarrow> store_error + 'a" where
  "db_answer fs r = (case fs of Some e # _ \<Rightarrow> Inl e | _ \<Rightarrow> r)"

lemma db_answer_Inr: "db_answer fs r = Inr x \<Longrightarrow> r = Inr x"
  by (auto simp: db_answer_def split: list.splits option.splits)

section \<open>Reconciliation\<close>

definition note_failure :: "reconcile_failure \<Rightarrow> startup_report \<Rightarrow> startup_report" where
  "note_failure f report = report\<lparr>su_failed := su_failed report @ [f]\<rparr>"

definition reconcile_one :: "uninstaller \<Rightarrow> string \<Rightarrow> store_error + deployment_record option \<Rightarrow> startup_report
    \<Rightarrow> (uninstall_error, startup_report) io" where
  "reconcile_one u t found report = (case found of
     Inr (Some _) \<Rightarrow> do_then (attempt (rollback_uninstall u t)) (\<lambda>r. case r of
         Inr _ \<Rightarrow> give (report\<lparr>su_rolled_back := su_rolled_back report + 1\<rparr>)
       | Inl e \<Rightarrow> give (note_failure (RollbackFailed t e) report))
   | Inr None \<Rightarrow> do_then (attempt (finalize_uninstall u t)) (\<lambda>r. case r of
         Inr _ \<Rightarrow> give (report\<lparr>su_finalized := su_finalized report + 1\<rparr>)
       | Inl e \<Rightarrow> give (note_failure (FinalizeFailed t e) report))
   | Inl e \<Rightarrow> give (note_failure (CatalogLookupFailed t e) report))"

fun reconcile_each :: "uninstaller \<Rightarrow> sqlite_faults \<Rightarrow> store \<Rightarrow> uninstall_result list \<Rightarrow> startup_report
    \<Rightarrow> (uninstall_error, startup_report) io" where
  "reconcile_each u fs d [] report = give report"
| "reconcile_each u fs d (x # xs) report = (case ur_transaction_id x of
     None \<Rightarrow> reconcile_each u fs d xs report
   | Some t \<Rightarrow> do_then (reconcile_one u t (db_answer fs (Inr (get_deployment (ur_skill_id x) (ur_profile_id x) d))) report)
       (reconcile_each u (tl fs) d xs))"

definition reconcile_uninstall_recovery :: "uninstaller \<Rightarrow> sqlite_faults \<Rightarrow> store \<Rightarrow> (uninstall_error, startup_report) io" where
  "reconcile_uninstall_recovery u fs d =
     do_then (recover_pending u) (\<lambda>found. reconcile_each u fs d (up_pending found)
       \<lparr>su_discovered = length (up_pending found), su_rolled_back = 0, su_finalized = 0,
        su_cleaned_intents = up_cleaned_intents found, su_failed = map (\<lambda>(p, e). JournalFailed p e) (up_failed found)\<rparr>)"

section \<open>The command\<close>

definition uninstall_request_of :: "deployment_record \<Rightarrow> profile_row \<Rightarrow> uninstall_request" where
  "uninstall_request_of dep prof = \<lparr>uq_skill_id = dc_skill_id dep, uq_profile_id = dc_profile_id dep,
     uq_skill_root = pr_skill_root prof, uq_target_path = dc_target_path dep\<rparr>"

definition find_installed :: "sqlite_faults \<Rightarrow> string \<Rightarrow> string \<Rightarrow> store \<Rightarrow> uninstall_command_error + (deployment_record \<times> profile_row)" where
  "find_installed fs skill profile d =
     and_then (map_err LookupFailed (db_answer fs (Inr (get_deployment skill profile d)))) (\<lambda>dep.
     and_then (ok_or dep (DeploymentMissing skill profile)) (\<lambda>dep.
     and_then (map_err LookupFailed (db_answer (tl fs) (Inr (get_agent_profile profile d)))) (\<lambda>prof.
     and_then (ok_or prof (ProfileMissing profile)) (\<lambda>prof.
     and_then (ensure (parent (dc_target_path dep) = Some (components (pr_skill_root prof))) RootMismatch) (\<lambda>_.
     Inr (dep, prof))))))"

definition finish_uninstall :: "uninstaller \<Rightarrow> deployment_record \<Rightarrow> uninstall_result \<Rightarrow> (uninstall_command_error, uninstalled) io" where
  "finish_uninstall u dep r =
     do_then (case ur_transaction_id r of None \<Rightarrow> give False
              | Some t \<Rightarrow> do_then (attempt (finalize_uninstall u t)) (\<lambda>x. give (\<not> is_ok x))) (\<lambda>left.
     give \<lparr>ui_skill_id = dc_skill_id dep, ui_profile_id = dc_profile_id dep,
           ui_target_existed = ur_target_existed r, ui_recovery_pending = left\<rparr>)"

definition undo_uninstall :: "uninstaller \<Rightarrow> sqlite_faults \<Rightarrow> store \<Rightarrow> store_error \<Rightarrow> (uninstall_command_error, uninstalled) io" where
  "undo_uninstall u fs d e =
     do_then (attempt (reconcile_uninstall_recovery u fs d)) (\<lambda>r.
     raise (CatalogRemovalFailed e (case r of Inl e' \<Rightarrow> Some e' | Inr _ \<Rightarrow> None)))"

text \<open>
  The store is committed before \<open>finalize\<close> runs, so it is part of the outcome even if the process
  dies; \<open>tx\<close> is the fresh UUID of the transaction.
\<close>

definition uninstall_skill_from_agent :: "uninstaller \<Rightarrow> string \<Rightarrow> sqlite_faults \<Rightarrow> string \<Rightarrow> string \<Rightarrow> store \<Rightarrow> world
    \<Rightarrow> store \<times> (uninstall_command_error, uninstalled) run" where
  "uninstall_skill_from_agent u tx fs skill profile d w = (case find_installed fs skill profile d of
     Inl e \<Rightarrow> (d, Raised e w)
   | Inr (dep, prof) \<Rightarrow> (case wrap EngineFailed (begin_uninstall u (uninstall_request_of dep prof) tx) w of
       Raised e w \<Rightarrow> (d, Raised e w)
     | Halted w \<Rightarrow> (d, Halted w)
     | Done r w \<Rightarrow> (case db_answer (drop 2 fs) (remove_deployment_catalog (dc_skill_id dep) (dc_profile_id dep)
           (dc_blob_hash dep) (dc_target_path dep) d) of
         Inl e \<Rightarrow> (d, undo_uninstall u (drop 3 fs) d e w)
       | Inr (d', _) \<Rightarrow> (d', finish_uninstall u dep r w))))"

section \<open>The catalog row decides\<close>

definition by_row :: "uninstaller \<Rightarrow> string \<Rightarrow> uninstall_journal \<Rightarrow> node \<Rightarrow> node \<Rightarrow> store \<Rightarrow> node \<Rightarrow> bool" where
  "by_row u tx j e0 n d e \<longleftrightarrow> (if get_deployment (uj_skill_id j) (uj_profile_id j) d = None then un_gone u tx j e0 e else un_safe u tx j e0 n e)"

lemma sem_rollback_safe: "un_ok u tx j \<Longrightarrow> un_safe u tx j e0 n e \<Longrightarrow>
    wlp F (rollback_uninstall u tx) (\<lambda>_. in_place u tx j e0 n) (\<lambda>_. un_safe u tx j e0 n) (un_safe u tx j e0 n) e"
  unfolding un_safe_def [of u tx j e0 n e]
  by (elim disjE) (auto intro: wlp_mono [OF sem_rollback_in_place] sem_rollback_quarantined in_place_safe)

lemma sem_reconcile_one:
  assumes ok: "un_ok u tx j"
  shows "by_row u tx j e0 n d e \<Longrightarrow> wlp F (reconcile_one u tx (db_answer fs (Inr (get_deployment (uj_skill_id j) (uj_profile_id j) d))) report)
      (\<lambda>_. by_row u tx j e0 n d) (\<lambda>_. by_row u tx j e0 n d) (by_row u tx j e0 n d) e"
    and "get_deployment (uj_skill_id j) (uj_profile_id j) d \<noteq> None \<Longrightarrow> in_place u tx j e0 n e \<Longrightarrow>
      wlp F (reconcile_one u tx (db_answer fs (Inr (get_deployment (uj_skill_id j) (uj_profile_id j) d))) report)
      (\<lambda>_. in_place u tx j e0 n) (\<lambda>_. in_place u tx j e0 n) (in_place u tx j e0 n) e"
    and "get_deployment (uj_skill_id j) (uj_profile_id j) d \<noteq> None \<Longrightarrow> quarantined u tx j e0 n e \<Longrightarrow>
      returns (reconcile_one u tx (Inr (get_deployment (uj_skill_id j) (uj_profile_id j) d)) report) (\<lambda>_. in_place u tx j e0 n) e"
proof -
  let ?row = "get_deployment (uj_skill_id j) (uj_profile_id j) d" and ?found = "db_answer fs (Inr (get_deployment (uj_skill_id j) (uj_profile_id j) d))"
  have found: "(\<exists>x. ?found = Inl x) \<or> ?found = Inr ?row" by (auto simp: db_answer_def split: list.splits option.splits)
  show "wlp F (reconcile_one u tx ?found report) (\<lambda>_. by_row u tx j e0 n d) (\<lambda>_. by_row u tx j e0 n d) (by_row u tx j e0 n d) e"
    if P: "by_row u tx j e0 n d e"
  proof -
    have roll: "wlp F (do_then (attempt (rollback_uninstall u tx)) (\<lambda>r. case r of Inr _ \<Rightarrow> give a | Inl x \<Rightarrow> give (b x)))
        (\<lambda>_. by_row u tx j e0 n d) (\<lambda>_. by_row u tx j e0 n d) (by_row u tx j e0 n d) e"
      if "?row \<noteq> None" for a :: startup_report and b
      by (rule wlp_try [OF sem_rollback_safe [OF ok]]) (use P that in \<open>auto intro!: wlp_give simp: by_row_def in_place_safe\<close>)
    have fin: "wlp F (do_then (attempt (finalize_uninstall u tx)) (\<lambda>r. case r of Inr _ \<Rightarrow> give a | Inl x \<Rightarrow> give (b x)))
        (\<lambda>_. by_row u tx j e0 n d) (\<lambda>_. by_row u tx j e0 n d) (by_row u tx j e0 n d) e"
      if "?row = None" for a :: startup_report and b
      by (rule wlp_try [OF sem_finalize_gone [OF ok]]) (use P that in \<open>auto intro!: wlp_give simp: by_row_def\<close>)
    show ?thesis using found roll fin P by (auto simp: reconcile_one_def intro: wlp_give split: option.split)
  qed
  show "wlp F (reconcile_one u tx ?found report) (\<lambda>_. in_place u tx j e0 n) (\<lambda>_. in_place u tx j e0 n) (in_place u tx j e0 n) e"
    if row: "?row \<noteq> None" and i: "in_place u tx j e0 n e"
  proof -
    have roll: "wlp F (do_then (attempt (rollback_uninstall u tx)) (\<lambda>r. case r of Inr _ \<Rightarrow> give a | Inl x \<Rightarrow> give (b x)))
        (\<lambda>_. in_place u tx j e0 n) (\<lambda>_. in_place u tx j e0 n) (in_place u tx j e0 n) e" for a :: startup_report and b
      by (rule wlp_try [OF sem_rollback_in_place [OF ok i]]) (auto intro: wlp_give)
    show ?thesis using found roll row i by (auto simp: reconcile_one_def intro: wlp_give)
  qed
  show "returns (reconcile_one u tx (Inr ?row) report) (\<lambda>_. in_place u tx j e0 n) e"
    if row: "?row \<noteq> None" and q: "quarantined u tx j e0 n e"
  proof -
    have "returns (do_then (attempt (rollback_uninstall u tx)) (\<lambda>r. case r of Inr _ \<Rightarrow> give a | Inl x \<Rightarrow> give (b x)))
        (\<lambda>_. in_place u tx j e0 n) e" for a :: startup_report and b
      by (rule returns_try [OF sem_rollback_quarantined(2) [OF ok q]]) (auto intro: returns_give)
    then show ?thesis using row by (auto simp: reconcile_one_def)
  qed
qed

lemma sem_reconcile_each:
  assumes one: "\<And>fs report e. P e \<Longrightarrow> wlp F (reconcile_one u tx (db_answer fs (Inr (get_deployment (uj_skill_id j) (uj_profile_id j) d))) report) (\<lambda>_. P) (\<lambda>_. P) P e"
    and tx: "uj_transaction_id j = tx"
  shows "set xs \<subseteq> {uninstall_result_of j} \<Longrightarrow> P e \<Longrightarrow> wlp F (reconcile_each u fs d xs report) (\<lambda>_. P) (\<lambda>_. P) P e"
proof (induction xs arbitrary: fs report e)
  case (Cons x xs)
  then have x: "x = uninstall_result_of j" by simp
  show ?case unfolding reconcile_each.simps x
    by (simp add: uninstall_result_of_def tx) (rule wlp_seq [OF one [OF Cons.prems(2)]], use Cons in auto)
qed (auto intro: wlp_give)


lemma sem_reconcile:
  assumes ok: "un_ok u tx j" and none: "no_uninstalls u e0" and P: "by_row u tx j e0 n d e"
  shows "wlp F (reconcile_uninstall_recovery u fs d) (\<lambda>_. by_row u tx j e0 n d) (\<lambda>_. by_row u tx j e0 n d) (by_row u tx j e0 n d) e"
proof -
  have tx: "uj_transaction_id j = tx" using ok by (simp add: un_ok_def)
  have rec: "wlp F (recover_pending u) (listed j (by_row u tx j e0 n d)) (\<lambda>_. by_row u tx j e0 n d) (by_row u tx j e0 n d) e"
  proof (cases "get_deployment (uj_skill_id j) (uj_profile_id j) d = None")
    case True
    have g: "un_gone u tx j e0 e" using P True by (simp add: by_row_def)
    have "wlp F (recover_pending u) (listed j (un_gone u tx j e0)) (\<lambda>_. un_gone u tx j e0) (un_gone u tx j e0) e"
      by (rule sem_recover_pending [OF ok none _ sem_pending_one(2) [OF ok] g]) (simp_all add: un_gone_def)
    then show ?thesis by (rule wlp_mono) (auto simp: listed_def by_row_def True)
  next
    case False
    then consider "in_place u tx j e0 n e" | "quarantined u tx j e0 n e" using P by (auto simp: by_row_def un_safe_def)
    then show ?thesis
    proof cases
      case 1
      have "wlp F (recover_pending u) (listed j (in_place u tx j e0 n)) (\<lambda>_. in_place u tx j e0 n) (in_place u tx j e0 n) e"
        by (rule sem_recover_pending [OF ok none _ sem_pending_one(1) [OF ok] 1]) (simp_all add: in_place_def)
      then show ?thesis by (rule wlp_mono) (use False in \<open>auto simp: listed_def by_row_def un_safe_def\<close>)
    next
      case 2
      have "wlp F (recover_pending u) (listed j (quarantined u tx j e0 n)) (\<lambda>_. quarantined u tx j e0 n) (quarantined u tx j e0 n) e"
        by (rule sem_recover_pending [OF ok none _ sem_pending_one(3) [OF ok] 2]) (simp_all add: quarantined_def)
      then show ?thesis by (rule wlp_mono) (use False in \<open>auto simp: listed_def by_row_def un_safe_def\<close>)
    qed
  qed
  show ?thesis unfolding reconcile_uninstall_recovery_def
    by (rule wlp_seq [OF rec]) (auto simp: listed_def intro: sem_reconcile_each [OF sem_reconcile_one(1) [OF ok] tx])
qed


section \<open>Uninstalling is atomic\<close>

lemma uninstall_paths:
  assumes rq: "check_uninstall_request rq = Inr ()" and tx: "validate_transaction_id tx" and j: "j = uninstall_journal_for rq tx"
  shows "un_quarantine j = un_root j @ [quarantine_prefix @ tx]" and "\<exists>x. un_target j = un_root j @ [x]"
    and "validate_uninstall_paths j = Inr ()"
proof -
  let ?r = "uq_skill_root rq" and ?q = "path_join (uq_skill_root rq) (quarantine_prefix @ tx)"
  have root: "is_absolute ?r" "valid_utf8 ?r" "stable_absolute_path ?r ''journal skill_root'' = Inr ()"
    and target: "parent (uq_target_path rq) = Some (components ?r)" "ParentDir \<notin> set (components (uq_target_path rq))"
      "CurDir \<notin> set (components (uq_target_path rq))" "is_absolute (uq_target_path rq)"
    using rq by (auto simp: check_uninstall_request_def stable_absolute_path_def result_simps list_ex_iff)
  have slash: "CHR ''/'' \<notin> set (quarantine_prefix @ tx)" using transaction_id_no_slash [OF tx] by (simp add: quarantine_prefix_def)
  have q: "components ?q = components ?r @ [Normal (quarantine_prefix @ tx)]" "parent ?q = Some (components ?r)"
    by (rule components_join [OF root(1) slash] parent_join [OF root(1) slash]; simp add: quarantine_prefix_def)+
  show "un_quarantine j = un_root j @ [quarantine_prefix @ tx]"
    using locate_absolute [OF q(1) refl] by (simp add: un_quarantine_def un_root_def j uninstall_journal_for_def)
  have cs: "components (uq_target_path rq) \<noteq> []" "last (components (uq_target_path rq)) \<noteq> RootDir"
      "butlast (components (uq_target_path rq)) = components ?r"
    using target(1) by (auto simp: parent_def Let_def split: if_splits)
  moreover have "last (components (uq_target_path rq)) \<in> set (components (uq_target_path rq))" using cs(1) by simp
  ultimately obtain c where "last (components (uq_target_path rq)) = Normal c" using target(2,3) by (cases "last (components (uq_target_path rq))") auto
  then have "components (uq_target_path rq) = components ?r @ [Normal c]" using append_butlast_last_id [OF cs(1)] cs(3) by simp
  from locate_absolute [OF this refl] show "\<exists>x. un_target j = un_root j @ [x]"
    by (simp add: un_target_def un_root_def j uninstall_journal_for_def)
  show "validate_uninstall_paths j = Inr ()"
    using root(3) q(2) target(1) by (simp add: validate_uninstall_paths_def j uninstall_journal_for_def ensure_def)
qed

text \<open>What holds before the command: one skill, nothing pending, journals apart from the skills.\<close>

definition uninstall_ready :: "uninstaller \<Rightarrow> string \<Rightarrow> uninstall_request \<Rightarrow> node \<Rightarrow> node \<Rightarrow> bool" where
  "uninstall_ready u tx rq n e \<longleftrightarrow> (let j = uninstall_journal_for rq tx in
     check_uninstall_request rq = Inr () \<and> validate_transaction_id tx \<and> records_ok u j
     \<and> unrelated (un_root j) (un_journals u) \<and> is_folder (un_journals u) e \<and> no_uninstalls u e
     \<and> entry (un_target j) e = Some n \<and> entry (un_quarantine j) e = None)"

lemma uninstall_ready:
  assumes ready: "uninstall_ready u tx rq n e" and j: "j = uninstall_journal_for rq tx"
  shows "un_ok u tx j" and "in_place u tx j e n e" and "entry (uninstall_journal_path u tx) e = None"
proof -
  have r: "check_uninstall_request rq = Inr ()" "validate_transaction_id tx" "records_ok u j"
     "unrelated (un_root j) (un_journals u)" "is_folder (un_journals u) e" "no_uninstalls u e"
     "entry (un_target j) e = Some n" "entry (un_quarantine j) e = None"
    using ready by (simp_all add: uninstall_ready_def Let_def j)
  note paths = uninstall_paths [OF r(1,2) j]
  obtain x where x: "un_target j = un_root j @ [x]" using paths(2) by blast
  have "x \<noteq> quarantine_prefix @ tx" using r(7,8) x paths(1) by auto
  then show "un_ok u tx j" using r(2-4) paths x by (auto simp: un_ok_def j uninstall_journal_for_def)
  show fresh: "entry (uninstall_journal_path u tx) e = None"
    using r(6) uninstall_extension [OF r(2)] by (simp add: no_uninstalls_def uninstall_journal_path_def)
  have "is_folder (un_root j) e" using r(7) x entry_parent_folder by metis
  then show "in_place u tx j e n e" using r(5,7,8) fresh by (simp add: in_place_def un_frame_def journal_ok_def)
qed

definition after_startups :: "uninstaller \<Rightarrow> store \<Rightarrow> (sqlite_faults \<times> fault list) list \<Rightarrow> node \<Rightarrow> node" where
  "after_startups u d ss e = fold (\<lambda>(fs, s) e. run_disk (reconcile_uninstall_recovery u fs d \<lparr>disk = e, schedule = s\<rparr>)) ss e"

lemma startups_safe:
  assumes ok: "un_ok u tx j" and none: "no_uninstalls u e0"
  shows "by_row u tx j e0 n d e \<Longrightarrow> by_row u tx j e0 n d (after_startups u d ss e)"
proof (induction ss arbitrary: e)
  case (Cons s ss)
  have "by_row u tx j e0 n d (run_disk (reconcile_uninstall_recovery u (fst s) d \<lparr>disk = e, schedule = snd s\<rparr>))"
    by (rule wlp_run_disk [OF sem_reconcile [OF ok none Cons.prems], of _ UNIV]) simp
  from Cons.IH [OF this] show ?case by (simp add: after_startups_def split_beta)
qed (simp add: after_startups_def)

lemma removed_row:
  assumes "remove_deployment_catalog skill profile hash target d = Inr (d', b)" and "get_deployment skill profile d \<noteq> None"
  shows "get_deployment skill profile d' = None"
  using assms by (auto simp: remove_deployment_catalog_def get_deployment_def result_simps Let_def sql_find_None set_sql_delete
      split: option.splits if_splits)

lemma sem_undo_uninstall:
  assumes "un_ok u tx j" and "no_uninstalls u e0" and "by_row u tx j e0 n d e"
  shows "wlp F (undo_uninstall u fs d x) (\<lambda>_ _. False) (\<lambda>_. by_row u tx j e0 n d) (by_row u tx j e0 n d) e"
  unfolding undo_uninstall_def by (rule wlp_try [OF sem_reconcile [OF assms]]) (auto intro!: wlp_raise)

lemma sem_finish:
  assumes ok: "un_ok u tx j" and q: "quarantined u tx j e0 n e"
  shows "wlp F (finish_uninstall u dep (uninstall_result_of j))
    (\<lambda>res e'. un_gone u tx j e0 e' \<and> (\<not> ui_recovery_pending res \<longrightarrow> entry (un_quarantine j) e' = None)) (\<lambda>_ _. False) (un_gone u tx j e0) e"
proof -
  have g: "un_gone u tx j e0 e" using q by (simp add: quarantined_def un_gone_def)
  have tx: "ur_transaction_id (uninstall_result_of j) = Some tx" using ok by (simp add: uninstall_result_of_def un_ok_def)
  show ?thesis unfolding finish_uninstall_def tx option.case
    by (rule wlp_seq, rule wlp_try [OF sem_finalize_gone [OF ok g], where Q = "\<lambda>a e'. un_gone u tx j e0 e' \<and> (\<not> a \<longrightarrow> entry (un_quarantine j) e' = None)"
          and E = "\<lambda>_ _. False"]) (auto intro!: wlp_give simp: is_ok_def)
qed

lemma uninstall_command_outcome:
  assumes ready: "uninstall_ready u tx (uninstall_request_of dep prof) n e" and j: "j = uninstall_journal_for (uninstall_request_of dep prof) tx"
    and dep: "get_deployment skill profile d = Some dep" and prof: "get_agent_profile profile d = Some prof"
    and run: "uninstall_skill_from_agent u tx fs skill profile d \<lparr>disk = e, schedule = s\<rparr> = (d', r)"
  shows "by_row u tx j e n d' (run_disk r)" and "case r of
      Done res w \<Rightarrow> get_deployment skill profile d' = None \<and> (\<not> ui_recovery_pending res \<longrightarrow> entry (un_quarantine j) (disk w) = None)
    | Raised x w \<Rightarrow> d' = d | Halted w \<Rightarrow> True"
    and "uj_skill_id j = skill" and "uj_profile_id j = profile"
proof -
  note ok = uninstall_ready(1) [OF ready j] and i = uninstall_ready(2) [OF ready j] and fresh = uninstall_ready(3) [OF ready j]
  have none: "no_uninstalls u e" using ready by (simp add: uninstall_ready_def Let_def)
  have ids: "dc_skill_id dep = skill" "dc_profile_id dep = profile"
    using dep sql_find_Some [of "same_deployment skill profile" "deployments d"] by (auto simp: get_deployment_def record_of_def same_deployment_def)
  show names: "uj_skill_id j = skill" "uj_profile_id j = profile" by (simp_all add: j uninstall_journal_for_def uninstall_request_of_def ids)
  have row: "by_row u tx j e n d e'" if "un_safe u tx j e n e'" for e' using that dep by (simp add: by_row_def names)
  let ?start = "\<lparr>disk = e, schedule = s\<rparr>"
  let ?both = "by_row u tx j e n d' (run_disk r) \<and> (case r of
      Done res w \<Rightarrow> get_deployment skill profile d' = None \<and> (\<not> ui_recovery_pending res \<longrightarrow> entry (un_quarantine j) (disk w) = None)
    | Raised x w \<Rightarrow> d' = d | Halted w \<Rightarrow> True)"
  have same: "by_row u tx j e n d e" by (rule row [OF in_place_safe [OF i]])
  have "p = (dep, prof)" if "find_installed fs skill profile d = Inr p" for p
    using that dep prof by (auto simp: find_installed_def result_simps dest!: db_answer_Inr)
  then consider x where "find_installed fs skill profile d = Inl x" | "find_installed fs skill profile d = Inr (dep, prof)"
    by (cases "find_installed fs skill profile d") auto
  then have ?both
  proof cases
    case 1
    then show ?thesis using run same by (auto simp: uninstall_skill_from_agent_def run_disk_def)
  next
    case found: 2
    have "wlp UNIV (wrap EngineFailed (begin_uninstall u (uninstall_request_of dep prof) tx))
        (\<lambda>r e'. r = uninstall_result_of j \<and> quarantined u tx j e n e') (\<lambda>_. un_safe u tx j e n) (un_safe u tx j e n) e"
      by (rule wlp_wrap, rule sem_begin [OF ok j i fresh])
    note began = wlp_run [OF this refl, of s]
    show ?thesis
    proof (cases "wrap EngineFailed (begin_uninstall u (uninstall_request_of dep prof) tx) ?start")
      case (Done res w)
      have q: "quarantined u tx j e n (disk w)" and res: "res = uninstall_result_of j" using began Done by auto
      show ?thesis
      proof (cases "db_answer (drop 2 fs) (remove_deployment_catalog skill profile (dc_blob_hash dep) (dc_target_path dep) d)")
        case (Inl x)
        have "d' = d" "r = undo_uninstall u (drop 3 fs) d x w"
          using run found Done Inl by (auto simp: uninstall_skill_from_agent_def ids)
        then show ?thesis using wlp_run [OF sem_undo_uninstall [OF ok none row [OF quarantined_safe [OF q]], where fs = "drop 3 fs" and x = x] refl, where s = "schedule w"] by (auto simp: run_disk_def split: run.splits)
      next
        case (Inr p)
        obtain d1 b where p: "p = (d1, b)" by (cases p)
        have "remove_deployment_catalog skill profile (dc_blob_hash dep) (dc_target_path dep) d = Inr (d1, b)"
          using Inr p db_answer_Inr by fastforce
        then have gone: "get_deployment skill profile d1 = None" using removed_row dep by blast
        have "d' = d1" "r = finish_uninstall u dep res w"
          using run found Done Inr p by (auto simp: uninstall_skill_from_agent_def ids)
        then show ?thesis using wlp_run [OF sem_finish [OF ok q, where dep = dep] refl, where s = "schedule w"] gone
          by (auto simp: res run_disk_def by_row_def names split: run.splits)
      qed
    next
      case (Raised x w)
      then show ?thesis using run found began row by (auto simp: uninstall_skill_from_agent_def run_disk_def)
    next
      case (Halted w)
      then show ?thesis using run found began row by (auto simp: uninstall_skill_from_agent_def run_disk_def)
    qed
  qed
  then show "by_row u tx j e n d' (run_disk r)" and "case r of
      Done res w \<Rightarrow> get_deployment skill profile d' = None \<and> (\<not> ui_recovery_pending res \<longrightarrow> entry (un_quarantine j) (disk w) = None)
    | Raised x w \<Rightarrow> d' = d | Halted w \<Rightarrow> True" by auto
qed

text \<open>C2: Uninstalling follows the catalog. Whatever system calls and database calls fail, and wherever
  the process dies, in the command or in any number of later startups: as long as the catalog row is
  there the skill is whole, at its place or in quarantine; once the row is gone the target is gone;
  and nothing but target, quarantine and journal changes. A command that reports an error has left
  the row; one that returns has removed it, and has deleted the quarantine unless it says that
  recovery is pending.\<close>

theorem uninstall_follows_the_catalog:
  assumes "uninstall_ready u tx (uninstall_request_of dep prof) n e" and j: "j = uninstall_journal_for (uninstall_request_of dep prof) tx"
    and "get_deployment skill profile d = Some dep" and "get_agent_profile profile d = Some prof"
    and "uninstall_skill_from_agent u tx fs skill profile d \<lparr>disk = e, schedule = s\<rparr> = (d', r)"
    and e': "e' = after_startups u d' ss (run_disk r)"
  shows "(if get_deployment skill profile d' = None then entry (un_target j) e' = None
      else (entry (un_target j) e', entry (un_quarantine j) e') \<in> {(Some n, None), (None, Some n)})
    \<and> (\<forall>q. unrelated q (uninstall_journal_path u tx) \<and> unrelated q (un_target j) \<and> unrelated q (un_quarantine j) \<longrightarrow> entry q e' = entry q e)
    \<and> (case r of
      Done res w \<Rightarrow> get_deployment skill profile d' = None \<and> (\<not> ui_recovery_pending res \<longrightarrow> entry (un_quarantine j) (disk w) = None)
    | Raised x w \<Rightarrow> d' = d | Halted w \<Rightarrow> True)"
proof -
  note out = uninstall_command_outcome [OF assms(1,2,3,4,5)] and ok = uninstall_ready(1) [OF assms(1) j]
  have none: "no_uninstalls u e" using assms(1) by (simp add: uninstall_ready_def Let_def)
  have "by_row u tx j e n d' e'" unfolding e' by (rule startups_safe [OF ok none out(1)])
  then show ?thesis using out(2) by (auto simp: by_row_def out(3,4) un_gone_def un_safe_def in_place_def quarantined_def un_frame_def split: if_splits)
qed


end
