(* ===== verification/Uninstall_Samples.thy ===== *)
theory Uninstall_Samples
  imports Uninstall_Command Deploy_Samples
begin

text \<open>Uninstalls interrupted at chosen system calls, on a concrete agent, evaluated by the simplifier.\<close>

definition installed_dep :: deployment_record where
  "installed_dep = the (get_deployment ''s1'' ''codex:default'' deployed_store)"

definition installed_prof :: profile_row where
  "installed_prof = the (get_agent_profile ''codex:default'' deployed_store)"

definition sample_removal :: uninstall_journal where
  "sample_removal = uninstall_journal_for (uninstall_request_of installed_dep installed_prof) ''t1''"

definition removal_code :: "uninstall_phase \<Rightarrow> string" where
  "removal_code ph = (case ph of UninstallIntent \<Rightarrow> ''{Intent}'' | UninstallMoved \<Rightarrow> ''{Moved}'')"

definition sample_uninstaller :: uninstaller where
  "sample_uninstaller = \<lparr>un_journals = [''u''], un_encode = (\<lambda>j. removal_code (uj_phase j)),
     un_decode = (\<lambda>l. if l = ''{Intent}'' then Inr (marked UninstallIntent sample_removal)
        else if l = ''{Moved}'' then Inr (marked UninstallMoved sample_removal) else Inl ''syntax'')\<rparr>"

definition my_skill :: node where
  "my_skill = Folder [(''SKILL.md'', Plain ''mine'')]"

definition codex_disk :: node where
  "codex_disk = Folder [(''h'', Folder [(''.codex'', Folder [(''skills'', Folder [(''x'', my_skill)])])]), (''u'', Folder [])]"

definition uninstall_run :: "sqlite_faults \<Rightarrow> fault list \<Rightarrow> store \<times> (uninstall_command_error, uninstalled) run" where
  "uninstall_run fs s = uninstall_skill_from_agent sample_uninstaller ''t1'' fs ''s1'' ''codex:default'' deployed_store
     \<lparr>disk = codex_disk, schedule = s\<rparr>"

definition skills_folder :: "node \<Rightarrow> node option" where
  "skills_folder e = entry [''h'', ''.codex'', ''skills''] e"

lemma removal_pieces:
  assumes "l \<in> pieces (un_records sample_uninstaller j)" shows "valid_utf8 l"
proof (rule valid_utf8_ascii, unfold list_all_iff, rule)
  fix c assume "c \<in> set l"
  from pieces_chars [OF assms this] obtain ph where "c \<in> set (removal_code ph)"
    by (auto simp: un_records_def sample_uninstaller_def)
  then show "byte c < 0x80" by (cases ph) (auto simp: removal_code_def byte_def)
qed

lemma sample_records_ok: "records_ok sample_uninstaller sample_removal"
proof -
  have records: "un_records sample_uninstaller sample_removal \<subseteq> {''{Intent}'', ''{Moved}''}"
    by (auto simp: un_records_def sample_uninstaller_def removal_code_def split: uninstall_phase.split)
  have "plain_records {''{Intent}'', ''{Moved}''}" by (simp add: plain_records_def newline_def)
  with records have "plain_records (un_records sample_uninstaller sample_removal)" unfolding plain_records_def by blast
  moreover have "\<exists>ph. r = marked ph sample_removal" if "un_decode sample_uninstaller l = Inr r" for l r
    using that by (auto simp: sample_uninstaller_def split: if_splits)
  moreover have "\<not> is_blank (un_encode sample_uninstaller (marked ph sample_removal))
      \<and> un_decode sample_uninstaller (un_encode sample_uninstaller (marked ph sample_removal)) = Inr (marked ph sample_removal)" for ph
  proof (cases ph)
    case UninstallIntent
    have "\<not> is_blank ''{Intent}''" by code_simp
    then show ?thesis by (simp add: UninstallIntent sample_uninstaller_def removal_code_def)
  next
    case UninstallMoved
    have "\<not> is_blank ''{Moved}''" by code_simp
    then show ?thesis by (simp add: UninstallMoved sample_uninstaller_def removal_code_def)
  qed
  ultimately show ?thesis using removal_pieces unfolding records_ok_def by blast
qed

lemma sample_removal_ready: "uninstall_ready sample_uninstaller ''t1'' (uninstall_request_of installed_dep installed_prof) my_skill codex_disk"
proof -
  have "check_uninstall_request (uninstall_request_of installed_dep installed_prof) = Inr ()" by code_simp
  moreover have "validate_transaction_id ''t1''" by code_simp
  moreover have "un_root sample_removal = [''h'', ''.codex'', ''skills'']" by code_simp
  moreover have "un_target sample_removal = [''h'', ''.codex'', ''skills'', ''x'']" by code_simp
  moreover have "un_quarantine sample_removal = [''h'', ''.codex'', ''skills'', ''.skillhive-remove-t1'']" by code_simp
  moreover have "no_uninstalls sample_uninstaller codex_disk"
    by (auto simp: no_uninstalls_def sample_uninstaller_def codex_disk_def)
  moreover have "is_folder [''u''] codex_disk" by code_simp
  ultimately show ?thesis unfolding uninstall_ready_def sample_removal_def [symmetric]
    using sample_records_ok by (simp add: Let_def unrelated_def sample_uninstaller_def codex_disk_def)
qed

lemma installed_rows:
  "get_deployment ''s1'' ''codex:default'' deployed_store = Some installed_dep"
  "get_agent_profile ''codex:default'' deployed_store = Some installed_prof"
  by code_simp+

theorem uninstall_follows_the_catalog_witness:
  "get_deployment ''s1'' ''codex:default'' (fst (uninstall_run [] (replicate 22 Go @ [Crash 0]))) = None
   \<and> entry (un_target sample_removal) (after_startups sample_uninstaller (fst (uninstall_run [] (replicate 22 Go @ [Crash 0])))
       [([], [Go, Go, Fail 0]), ([], [])] (run_disk (snd (uninstall_run [] (replicate 22 Go @ [Crash 0]))))) = None"
proof -
  have gone: "get_deployment ''s1'' ''codex:default'' (fst (uninstall_run [] (replicate 22 Go @ [Crash 0]))) = None" by code_simp
  have run: "uninstall_skill_from_agent sample_uninstaller ''t1'' [] ''s1'' ''codex:default'' deployed_store
      \<lparr>disk = codex_disk, schedule = replicate 22 Go @ [Crash 0]\<rparr>
    = (fst (uninstall_run [] (replicate 22 Go @ [Crash 0])), snd (uninstall_run [] (replicate 22 Go @ [Crash 0])))"
    by (simp add: uninstall_run_def)
  from uninstall_follows_the_catalog [OF sample_removal_ready sample_removal_def installed_rows run refl] gone show ?thesis by simp
qed


section \<open>A history against the comments\<close>

text \<open>The removal of the row failed; the rollback moved the skill back and died before it dropped the journal.\<close>

definition rolled_back_crash :: node where
  "rolled_back_crash = run_disk (snd (uninstall_run [None, None, Some LockPoisoned] (replicate 28 Go @ [Crash 0])))"

text \<open>A rollback that dies after its rename is never acknowledged. The skill is back at its place, but
  its journal says \<open>Moved\<close>, and \<open>recover_pending\<close> takes that for an ambiguous state: every startup
  reports a failure, changes nothing and leaves the journal for the next.\<close>

theorem rolled_back_uninstall_stays_ambiguous:
  "skills_folder rolled_back_crash = Some (Folder [(''x'', my_skill)])
   \<and> map_option su_failed (report_of (reconcile_uninstall_recovery sample_uninstaller [] deployed_store \<lparr>disk = rolled_back_crash, schedule = []\<rparr>))
     = Some [JournalFailed [''u'', ''t1.uninstall''] (AmbiguousFilesystemState ''t1'')]
   \<and> run_disk (reconcile_uninstall_recovery sample_uninstaller [] deployed_store \<lparr>disk = rolled_back_crash, schedule = []\<rparr>) = rolled_back_crash"
  by code_simp

end
