(* ===== verification/App.thy ===== *)
theory App
  imports File_Rules Store_Machine
begin

text \<open>
  Programs of the desktop agent over both its states, the SQLite store and the file system. A call of
  the store consults the schedule like a system call does: it runs as one transaction, fails and is
  rolled back, or is where the process dies. \<open>moves R m\<close> says how \<open>m\<close> changes the store whatever
  fails; \<open>awp\<close> what holds of store and disk in each way \<open>m\<close> can end.
\<close>

section \<open>Programs\<close>

datatype ('e, 'a) ending = Returned 'a store world | Refused 'e store world | Died store world

type_synonym ('e, 'a) app = "store \<Rightarrow> world \<Rightarrow> ('e, 'a) ending"

definition app_give :: "'a \<Rightarrow> ('e, 'a) app" where
  "app_give a d w = Returned a d w"

definition app_raise :: "'e \<Rightarrow> ('e, 'a) app" where
  "app_raise e d w = Refused e d w"

definition app_then :: "('e, 'a) app \<Rightarrow> ('a \<Rightarrow> ('e, 'b) app) \<Rightarrow> ('e, 'b) app" where
  "app_then m f d w = (case m d w of Returned a d' w' \<Rightarrow> f a d' w' | Refused e d' w' \<Rightarrow> Refused e d' w' | Died d' w' \<Rightarrow> Died d' w')"

definition app_try :: "('e, 'a) app \<Rightarrow> ('f, 'e + 'a) app" where
  "app_try m d w = (case m d w of Returned a d' w' \<Rightarrow> Returned (Inr a) d' w' | Refused e d' w' \<Rightarrow> Returned (Inl e) d' w' | Died d' w' \<Rightarrow> Died d' w')"

definition app_err :: "('e \<Rightarrow> 'f) \<Rightarrow> ('e, 'a) app \<Rightarrow> ('f, 'a) app" where
  "app_err g m d w = (case m d w of Returned a d' w' \<Rightarrow> Returned a d' w' | Refused e d' w' \<Rightarrow> Refused (g e) d' w' | Died d' w' \<Rightarrow> Died d' w')"

definition app_result :: "'e + 'a \<Rightarrow> ('e, 'a) app" where
  "app_result r = (case r of Inl e \<Rightarrow> app_raise e | Inr a \<Rightarrow> app_give a)"

definition on_disk :: "('e, 'a) io \<Rightarrow> ('e, 'a) app" where
  "on_disk m d w = (case m w of Done a w' \<Rightarrow> Returned a d w' | Raised e w' \<Rightarrow> Refused e d w' | Halted w' \<Rightarrow> Died d w')"

text \<open>One transaction of the store.\<close>

definition transact :: "(store \<Rightarrow> store_error + (store \<times> 'a)) \<Rightarrow> (store_error, 'a) app" where
  "transact f d w = (case schedule w of
     Fail n # s \<Rightarrow> Refused (Database SqliteFailure) d (w\<lparr>schedule := s\<rparr>)
   | Crash n # s \<Rightarrow> Died d (w\<lparr>schedule := s\<rparr>)
   | _ \<Rightarrow> (case f d of
        Inl e \<Rightarrow> Refused e d (w\<lparr>schedule := tl (schedule w)\<rparr>)
      | Inr (d', a) \<Rightarrow> Returned a d' (w\<lparr>schedule := tl (schedule w)\<rparr>)))"

definition store_read :: "(store \<Rightarrow> store_error + 'a) \<Rightarrow> (store_error, 'a) app" where
  "store_read f = transact (\<lambda>d. and_then (f d) (\<lambda>a. Inr (d, a)))"

definition store_write :: "(store \<Rightarrow> store_error + store) \<Rightarrow> (store_error, unit) app" where
  "store_write f = transact (\<lambda>d. and_then (f d) (\<lambda>d'. Inr (d', ())))"

definition store_after :: "('e, 'a) ending \<Rightarrow> store" where
  "store_after r = (case r of Returned _ d _ \<Rightarrow> d | Refused _ d _ \<Rightarrow> d | Died d _ \<Rightarrow> d)"

definition world_after :: "('e, 'a) ending \<Rightarrow> world" where
  "world_after r = (case r of Returned _ _ w \<Rightarrow> w | Refused _ _ w \<Rightarrow> w | Died _ w \<Rightarrow> w)"

section \<open>How programs move the store\<close>

text \<open>A reflexive and transitive relation on stores that each transaction of a program respects.\<close>

locale store_moves =
  fixes R :: "store \<Rightarrow> store \<Rightarrow> bool"
  assumes R_refl: "R d d" and R_trans: "R a b \<Longrightarrow> R b c \<Longrightarrow> R a c"
begin

definition moves :: "('e, 'a) app \<Rightarrow> bool" where
  "moves m \<longleftrightarrow> (\<forall>d w. R d (store_after (m d w)))"

lemma movesD: "moves m \<Longrightarrow> R d (store_after (m d w))"
  by (simp add: moves_def)

lemma moves_give: "moves (app_give a)" and moves_raise: "moves (app_raise e)"
  by (simp_all add: moves_def app_give_def app_raise_def store_after_def R_refl)

lemma moves_result: "moves (app_result r)"
  by (cases r) (simp_all add: app_result_def moves_give moves_raise)

lemma moves_then:
  assumes "moves m" and "\<And>a. moves (f a)" shows "moves (app_then m f)"
  unfolding moves_def
proof (intro allI)
  fix d w
  show "R d (store_after (app_then m f d w))"
    using movesD [OF assms(1), of d w] movesD [OF assms(2)] R_trans
    by (cases "m d w") (auto simp: app_then_def store_after_def)
qed

lemma moves_try: assumes "moves m" shows "moves (app_try m)"
  unfolding moves_def
proof (intro allI)
  fix d w show "R d (store_after (app_try m d w))"
    using movesD [OF assms, of d w] by (cases "m d w") (simp_all add: app_try_def store_after_def)
qed

lemma moves_err: assumes "moves m" shows "moves (app_err g m)"
  unfolding moves_def
proof (intro allI)
  fix d w show "R d (store_after (app_err g m d w))"
    using movesD [OF assms, of d w] by (cases "m d w") (simp_all add: app_err_def store_after_def)
qed

lemma moves_on_disk: "moves (on_disk m)"
  by (auto simp: moves_def on_disk_def store_after_def R_refl split: run.split)

lemma moves_transact: "(\<And>d d' a. f d = Inr (d', a) \<Longrightarrow> R d d') \<Longrightarrow> moves (transact f)"
  by (auto simp: moves_def transact_def store_after_def R_refl split: list.split fault.split sum.split)

lemma moves_read: "moves (store_read f)"
  unfolding store_read_def by (rule moves_transact) (auto simp: result_simps R_refl)

lemma moves_write: "(\<And>d d'. f d = Inr d' \<Longrightarrow> R d d') \<Longrightarrow> moves (store_write f)"
  unfolding store_write_def by (rule moves_transact) (auto simp: result_simps)

lemma moves_if: "moves m \<Longrightarrow> moves n \<Longrightarrow> moves (if b then m else n)"
  by simp

lemmas moves_rules = moves_give moves_raise moves_result moves_then moves_try moves_err moves_on_disk moves_read moves_if

end

text \<open>The store is moved by some history of permitted commands.\<close>

definition by_commands :: "(store_cmd \<Rightarrow> bool) \<Rightarrow> store \<Rightarrow> store \<Rightarrow> bool" where
  "by_commands P d d' \<longleftrightarrow> (\<exists>cmds. list_all P cmds \<and> d' = run_steps store_step cmds d)"

lemma run_steps_append: "run_steps step (xs @ ys) s = run_steps step ys (run_steps step xs s)"
  by (induction xs arbitrary: s) simp_all

lemma by_commands_refl: "by_commands P d d"
  unfolding by_commands_def by (rule exI [of _ "[]"]) simp

lemma by_commands_trans: "by_commands P a b \<Longrightarrow> by_commands P b c \<Longrightarrow> by_commands P a c"
  unfolding by_commands_def by (metis list_all_append run_steps_append)

lemma by_command: "P c \<Longrightarrow> store_step c d = Inr d' \<Longrightarrow> by_commands P d d'"
  unfolding by_commands_def by (rule exI [of _ "[c]"]) simp

interpretation command_moves: store_moves "by_commands P" for P
  by unfold_locales (auto intro: by_commands_refl by_commands_trans)

lemma by_commands_queued:
  assumes "by_commands P d d'" and "outbox_inv d" and "m \<in> set (mutations d)" and "mu_state m \<noteq> Acked"
    and "\<And>c. P c \<Longrightarrow> \<not> settles c m"
  shows "still_queued m d'" and "outbox_inv d'"
  using assms client.queued_until_settled client.run_inv unfolding by_commands_def list_all_iff by blast+

section \<open>What holds of store and disk\<close>

definition awp :: "fault set \<Rightarrow> ('e, 'a) app \<Rightarrow> ('a \<Rightarrow> store \<Rightarrow> node \<Rightarrow> bool) \<Rightarrow> ('e \<Rightarrow> store \<Rightarrow> node \<Rightarrow> bool)
    \<Rightarrow> (store \<Rightarrow> node \<Rightarrow> bool) \<Rightarrow> store \<Rightarrow> node \<Rightarrow> bool" where
  "awp F m Q E H d x \<longleftrightarrow> (\<forall>s. set s \<subseteq> F \<longrightarrow> (case m d \<lparr>disk = x, schedule = s\<rparr> of
     Returned a d' w \<Rightarrow> set (schedule w) \<subseteq> F \<and> Q a d' (disk w)
   | Refused e d' w \<Rightarrow> set (schedule w) \<subseteq> F \<and> E e d' (disk w)
   | Died d' w \<Rightarrow> H d' (disk w)))"

lemma awp_give: "Q a d x \<Longrightarrow> awp F (app_give a) Q E H d x"
  and awp_raise: "E e d x \<Longrightarrow> awp F (app_raise e) Q E H d x"
  by (simp_all add: awp_def app_give_def app_raise_def)

lemma awp_then:
  assumes "awp F m R ER HR d x" and "\<And>a d' x'. R a d' x' \<Longrightarrow> awp F (f a) Q E H d' x'"
    and "\<And>e d' x'. ER e d' x' \<Longrightarrow> E e d' x'" and "\<And>d' x'. HR d' x' \<Longrightarrow> H d' x'"
  shows "awp F (app_then m f) Q E H d x"
  unfolding awp_def
proof (intro allI impI)
  fix s assume s: "set s \<subseteq> F"
  let ?w = "\<lparr>disk = x, schedule = s\<rparr>"
  have m: "case m d ?w of Returned a d' w \<Rightarrow> set (schedule w) \<subseteq> F \<and> R a d' (disk w)
   | Refused e d' w \<Rightarrow> set (schedule w) \<subseteq> F \<and> ER e d' (disk w) | Died d' w \<Rightarrow> HR d' (disk w)"
    using assms(1) s by (simp add: awp_def)
  show "case app_then m f d ?w of Returned a d' w \<Rightarrow> set (schedule w) \<subseteq> F \<and> Q a d' (disk w)
   | Refused e d' w \<Rightarrow> set (schedule w) \<subseteq> F \<and> E e d' (disk w) | Died d' w \<Rightarrow> H d' (disk w)"
  proof (cases "m d ?w")
    case (Returned a d' w)
    then have "awp F (f a) Q E H d' (disk w)" and "set (schedule w) \<subseteq> F" using m assms(2) by auto
    then show ?thesis using Returned by (cases w) (auto simp: awp_def app_then_def)
  qed (use m assms(3,4) in \<open>auto simp: app_then_def\<close>)
qed

lemma awp_try:
  assumes "awp F m R ER HR d x" and "\<And>a d' x'. R a d' x' \<Longrightarrow> awp F (f (Inr a)) Q E H d' x'"
    and "\<And>e d' x'. ER e d' x' \<Longrightarrow> awp F (f (Inl e)) Q E H d' x'" and "\<And>d' x'. HR d' x' \<Longrightarrow> H d' x'"
  shows "awp F (app_then (app_try m) f) Q E H d x"
proof -
  have "awp F (app_try m) (\<lambda>r d' x'. case r of Inr a \<Rightarrow> R a d' x' | Inl e \<Rightarrow> ER e d' x') (\<lambda>_ _ _. False) HR d x"
    using assms(1) unfolding awp_def app_try_def by (auto split: ending.splits)
  then show ?thesis by (rule awp_then) (use assms(2-4) in \<open>auto split: sum.split_asm\<close>)
qed

lemma awp_err: "awp F m Q (\<lambda>e. E (g e)) H d x \<Longrightarrow> awp F (app_err g m) Q E H d x"
  unfolding awp_def app_err_def by (auto split: ending.splits)

lemma awp_mono:
  assumes "awp F m Q E H d x" and "\<And>a d' x'. Q a d' x' \<Longrightarrow> Q' a d' x'" and "\<And>e d' x'. E e d' x' \<Longrightarrow> E' e d' x'"
    and "\<And>d' x'. H d' x' \<Longrightarrow> H' d' x'"
  shows "awp F m Q' E' H' d x"
  using assms unfolding awp_def by (auto split: ending.splits)

lemma awp_result: "(\<And>a. r = Inr a \<Longrightarrow> Q a d x) \<Longrightarrow> (\<And>e. r = Inl e \<Longrightarrow> E e d x) \<Longrightarrow> awp F (app_result r) Q E H d x"
  by (cases r) (auto simp: app_result_def intro: awp_give awp_raise)

lemma awp_on_disk: "wlp F m (\<lambda>a. Q a d) (\<lambda>e. E e d) (H d) x \<Longrightarrow> awp F (on_disk m) Q E H d x"
  unfolding awp_def wlp_def on_disk_def by (auto split: run.splits)

lemma awp_transact:
  assumes "\<And>d' a. f d = Inr (d', a) \<Longrightarrow> Q a d' x" and "\<And>e. f d = Inl e \<Longrightarrow> E e d x"
    and "\<And>n. Fail n \<in> F \<Longrightarrow> E (Database SqliteFailure) d x" and "\<And>n. Crash n \<in> F \<Longrightarrow> H d x"
  shows "awp F (transact f) Q E H d x"
  unfolding awp_def
proof (intro allI impI)
  fix s assume s: "set s \<subseteq> F"
  then have tl: "set (tl s) \<subseteq> F" by (cases s) auto
  show "case transact f d \<lparr>disk = x, schedule = s\<rparr> of Returned a d' w \<Rightarrow> set (schedule w) \<subseteq> F \<and> Q a d' (disk w)
   | Refused e d' w \<Rightarrow> set (schedule w) \<subseteq> F \<and> E e d' (disk w) | Died d' w \<Rightarrow> H d' (disk w)"
  proof (cases "s = [] \<or> hd s = Go")
    case True
    then have "transact f d \<lparr>disk = x, schedule = s\<rparr> = (case f d of
        Inl e \<Rightarrow> Refused e d \<lparr>disk = x, schedule = tl s\<rparr> | Inr (d', a) \<Rightarrow> Returned a d' \<lparr>disk = x, schedule = tl s\<rparr>)"
      by (cases s; cases "f d") (auto simp: transact_def)
    then show ?thesis using assms(1,2) tl by (auto split: sum.split)
  next
    case False
    then obtain f t where "s = f # t" "f \<noteq> Go" by (cases s) auto
    then show ?thesis using assms(3,4) s by (cases f) (auto simp: transact_def)
  qed
qed

lemma awp_read: "(\<And>a. f d = Inr a \<Longrightarrow> Q a d x) \<Longrightarrow> (\<And>e. E e d x) \<Longrightarrow> H d x \<Longrightarrow> awp F (store_read f) Q E H d x"
  unfolding store_read_def by (rule awp_transact) (auto simp: result_simps)

lemma awp_write:
  "(\<And>d'. f d = Inr d' \<Longrightarrow> Q () d' x) \<Longrightarrow> (\<And>e. E e d x) \<Longrightarrow> H d x \<Longrightarrow> awp F (store_write f) Q E H d x"
  unfolding store_write_def by (rule awp_transact) (auto simp: result_simps)

lemma awp_run:
  assumes "awp UNIV m Q E H d (disk w)" and "r = m d w"
  shows "case r of Returned a d' w' \<Rightarrow> Q a d' (disk w') | Refused e d' w' \<Rightarrow> E e d' (disk w') | Died d' w' \<Rightarrow> H d' (disk w')"
  using assms unfolding awp_def by (cases w) (auto split: ending.splits)

end
