(* ===== verification/Sync_Client.thy ===== *)
theory Sync_Client
  imports Local_Store
begin

text \<open>
  \<open>sync_client.rs\<close> and \<open>credentials.rs\<close>: the authenticated HTTP boundary. A request is answered by a
  status with its headers and decoded body, or fails to be sent; the operating system's keyring may
  refuse any operation. What the client keeps is the keyring and the switch of the local session; \<open>sent\<close> logs the requests it makes.
\<close>

section \<open>Errors\<close>

datatype credential_error = CredentialNotFound string | CredentialBackend string | CredentialInvalidUtf8

datatype client_error =
  NotSignedIn
| CredentialStore string
| Authentication string nat
| Request string nat
| Server "string option" nat
| Network string
| Malformed string

definition client_status :: "client_error \<Rightarrow> nat option" where
  "client_status e = (case e of Authentication _ s \<Rightarrow> Some s | Request _ s \<Rightarrow> Some s | Server _ s \<Rightarrow> Some s | _ \<Rightarrow> None)"

definition client_error_code :: "client_error \<Rightarrow> string option" where
  "client_error_code e = (case e of Authentication c _ \<Rightarrow> Some c | Request c _ \<Rightarrow> Some c | Server c _ \<Rightarrow> c | _ \<Rightarrow> None)"

definition credential_text :: "credential_error \<Rightarrow> string" where
  "credential_text e = (case e of
     CredentialNotFound account \<Rightarrow> ''credential not found for account '' @ [CHR 0x22] @ account @ [CHR 0x22]
   | CredentialBackend m \<Rightarrow> ''OS credential store unavailable: '' @ m
   | CredentialInvalidUtf8 \<Rightarrow> ''credential value is not valid UTF-8'')"

definition from_credential :: "credential_error \<Rightarrow> client_error" where
  "from_credential e = (case e of CredentialNotFound _ \<Rightarrow> NotSignedIn | _ \<Rightarrow> CredentialStore (credential_text e))"

definition classify_status :: "nat \<Rightarrow> string option \<Rightarrow> client_error" where
  "classify_status status code =
     (if status \<in> {400, 404, 409, 413, 422} then Request (or_else code ''UNKNOWN'') status
      else if status \<in> {401, 403} then Authentication (or_else code ''UNKNOWN'') status
      else Server code status)"

section \<open>Answers\<close>

record 'a http_response =
  hr_status :: nat
  hr_set_cookie :: "string list"
  hr_error_code :: "string option"
  hr_body :: "string + 'a"

datatype 'a http_answer = Answer "'a http_response" | SendFailed "nat option" string

definition map_transport :: "nat option \<Rightarrow> string \<Rightarrow> client_error" where
  "map_transport status message = (case status of Some s \<Rightarrow> classify_status s None | None \<Rightarrow> Network message)"

definition is_success :: "nat \<Rightarrow> bool" where
  "is_success status \<longleftrightarrow> 200 \<le> status \<and> status < 300"

definition send_request :: "'a http_answer \<Rightarrow> client_error + 'a http_response" where
  "send_request a = (case a of Answer r \<Rightarrow> Inr r | SendFailed s m \<Rightarrow> Inl (map_transport s m))"

text \<open>\<open>send().and_then(|r| r.error_for_status())\<close>\<close>

definition send_checked :: "'a http_answer \<Rightarrow> client_error + 'a http_response" where
  "send_checked a = and_then (send_request a) (\<lambda>r.
     if 400 \<le> hr_status r \<and> hr_status r < 600 then Inl (map_transport (Some (hr_status r)) []) else Inr r)"

definition decode_body :: "'a http_response \<Rightarrow> client_error + 'a" where
  "decode_body r = map_err Malformed (hr_body r)"

definition deserialize_or_classify :: "'a http_response \<Rightarrow> client_error + 'a" where
  "deserialize_or_classify r =
     (if is_success (hr_status r) then decode_body r else Inl (classify_status (hr_status r) (hr_error_code r)))"

section \<open>The refresh cookie\<close>

definition refresh_cookie_name :: string where
  "refresh_cookie_name = ''skillhive_refresh''"

text \<open>\<open>HeaderValue::to_str\<close>, and \<open>str::split_once\<close>.\<close>

definition header_text :: "string \<Rightarrow> bool" where
  "header_text h \<longleftrightarrow> list_all (\<lambda>c. 32 \<le> byte c \<and> byte c < 127 \<or> byte c = 9) h"

definition split_once :: "char \<Rightarrow> string \<Rightarrow> (string \<times> string) option" where
  "split_once c s = (if c \<in> set s then Some (takeWhile (\<lambda>x. x \<noteq> c) s, tl (dropWhile (\<lambda>x. x \<noteq> c) s)) else None)"

fun find_cookie :: "string list \<Rightarrow> string option" where
  "find_cookie [] = None"
| "find_cookie (h # hs) =
     (case (if header_text h then split_once (CHR ''='') h else None) of
        None \<Rightarrow> find_cookie hs
      | Some (name, v) \<Rightarrow> if trim name = refresh_cookie_name then Some (trim v) else find_cookie hs)"

definition extract_refresh_cookie :: "'a http_response \<Rightarrow> client_error + string" where
  "extract_refresh_cookie r = (case find_cookie (hr_set_cookie r) of
     Some v \<Rightarrow> if v \<noteq> [] then Inr v else Inl (Authentication ''MISSING_REFRESH_TOKEN'' 401)
   | None \<Rightarrow> Inl (Authentication ''MISSING_REFRESH_TOKEN'' 401))"

section \<open>The session\<close>

record session =
  keyring :: "string \<Rightarrow> string option"
  session_enabled :: bool
  sent :: "string list"

type_synonym 'a client_op = "session \<Rightarrow> session \<times> (client_error + 'a)"

definition client_then :: "'a client_op \<Rightarrow> ('a \<Rightarrow> 'b client_op) \<Rightarrow> 'b client_op" where
  "client_then m f s = (case m s of (s', Inl e) \<Rightarrow> (s', Inl e) | (s', Inr a) \<Rightarrow> f a s')"

definition client_result :: "client_error + 'a \<Rightarrow> 'a client_op" where
  "client_result r s = (s, r)"

record login_response =
  lr_access_token :: string
  lr_expires_in :: nat
  lr_user :: string

record device_registration =
  dv_device_id :: string
  dv_user_id :: string
  dv_client_instance_id :: string
  dv_revoked_at :: "string option"

definition is_revoked :: "device_registration \<Rightarrow> bool" where
  "is_revoked d \<longleftrightarrow> dv_revoked_at d \<noteq> None"

text \<open>What keyring and server answer during one operation.\<close>

record boundary =
  bd_get :: "string \<Rightarrow> credential_error option"
  bd_set :: "string \<Rightarrow> credential_error option"
  bd_delete :: "string \<Rightarrow> credential_error option"
  bd_login :: "login_response http_answer"
  bd_register :: "device_registration http_answer"
  bd_refresh :: "login_response http_answer"
  bd_logout :: "unit http_answer"

definition account_access_token :: string where
  "account_access_token = ''access-token''"

definition account_refresh_token :: string where
  "account_refresh_token = ''refresh-token''"

definition set_secret :: "boundary \<Rightarrow> string \<Rightarrow> string \<Rightarrow> session \<Rightarrow> session \<times> (credential_error + unit)" where
  "set_secret b account secret s = (case bd_set b account of
     Some e \<Rightarrow> (s, Inl e) | None \<Rightarrow> (s\<lparr>keyring := (keyring s)(account := Some secret)\<rparr>, Inr ()))"

definition get_secret :: "boundary \<Rightarrow> string \<Rightarrow> session \<Rightarrow> credential_error + string" where
  "get_secret b account s = (case bd_get b account of
     Some e \<Rightarrow> Inl e | None \<Rightarrow> ok_or (keyring s account) (CredentialNotFound account))"

definition delete_secret :: "boundary \<Rightarrow> string \<Rightarrow> session \<Rightarrow> session \<times> (credential_error + unit)" where
  "delete_secret b account s = (case bd_delete b account of
     Some e \<Rightarrow> (s, Inl e) | None \<Rightarrow> (s\<lparr>keyring := (keyring s)(account := None)\<rparr>, Inr ()))"

definition note_sent :: "string \<Rightarrow> unit client_op" where
  "note_sent path s = (s\<lparr>sent := sent s @ [path]\<rparr>, Inr ())"

definition enable_session :: "bool \<Rightarrow> unit client_op" where
  "enable_session on s = (s\<lparr>session_enabled := on\<rparr>, Inr ())"

definition store_refresh :: "boundary \<Rightarrow> string \<Rightarrow> unit client_op" where
  "store_refresh b token s = (case set_secret b account_refresh_token token s of (s', r) \<Rightarrow> (s', map_err from_credential r))"

definition ensure_local_session_enabled :: "unit client_op" where
  "ensure_local_session_enabled s = (s, if session_enabled s then Inr () else Inl NotSignedIn)"

definition suspend_local_session :: "unit client_op" where
  "suspend_local_session = enable_session False"

definition refresh_session :: "boundary \<Rightarrow> login_response client_op" where
  "refresh_session b =
     client_then (\<lambda>s. (s, map_err from_credential (get_secret b account_refresh_token s))) (\<lambda>_.
     client_then (note_sent ''/api/v1/auth/refresh'') (\<lambda>_.
     client_then (client_result (send_checked (bd_refresh b))) (\<lambda>r.
     client_then (client_result (extract_refresh_cookie r)) (\<lambda>rotated.
     client_then (store_refresh b rotated) (\<lambda>_. client_result (decode_body r))))))"

definition ensure_access_token :: "boundary \<Rightarrow> string client_op" where
  "ensure_access_token b =
     client_then ensure_local_session_enabled (\<lambda>_.
     client_then (refresh_session b) (\<lambda>r. client_result (Inr (lr_access_token r))))"

definition restore_web_session :: "boundary \<Rightarrow> login_response client_op" where
  "restore_web_session b = client_then ensure_local_session_enabled (\<lambda>_. refresh_session b)"

definition register_device_with :: "boundary \<Rightarrow> device_registration client_op" where
  "register_device_with b =
     client_then (note_sent ''/api/v1/devices/register'') (\<lambda>_.
     client_result (and_then (send_request (bd_register b)) deserialize_or_classify))"

definition register_device :: "boundary \<Rightarrow> device_registration client_op" where
  "register_device b = client_then (ensure_access_token b) (\<lambda>_. register_device_with b)"

text \<open>\<open>post_json\<close>, \<open>get_json\<close>, \<open>get_octet_stream\<close> and \<open>put_octet_stream\<close>: one authenticated request.\<close>

definition post_json :: "boundary \<Rightarrow> string \<Rightarrow> 'a http_answer \<Rightarrow> 'a client_op" where
  "post_json b path a = client_then (ensure_access_token b) (\<lambda>_. client_then (note_sent path) (\<lambda>_.
     client_result (and_then (send_request a) deserialize_or_classify)))"

definition get_json :: "boundary \<Rightarrow> string \<Rightarrow> 'a http_answer \<Rightarrow> 'a client_op" where
  "get_json b path a = client_then (ensure_access_token b) (\<lambda>_. client_then (note_sent path) (\<lambda>_.
     client_result (and_then (send_request a) deserialize_or_classify)))"

definition get_octet_stream :: "boundary \<Rightarrow> string \<Rightarrow> string http_answer \<Rightarrow> string client_op" where
  "get_octet_stream b path a = client_then (ensure_access_token b) (\<lambda>_. client_then (note_sent path) (\<lambda>_.
     client_result (and_then (send_request a) (\<lambda>r.
       if \<not> is_success (hr_status r) then Inl (classify_status (hr_status r) (hr_error_code r))
       else map_err Network (hr_body r)))))"

definition put_octet_stream :: "boundary \<Rightarrow> string \<Rightarrow> unit http_answer \<Rightarrow> unit client_op" where
  "put_octet_stream b path a = client_then (ensure_access_token b) (\<lambda>_. client_then (note_sent path) (\<lambda>_.
     client_result (and_then (send_request a) (\<lambda>r.
       if is_success (hr_status r) then Inr () else Inl (classify_status (hr_status r) (hr_error_code r))))))"

text \<open>Both deletions are attempted; the first error is the answer.\<close>

definition clear_credentials :: "boundary \<Rightarrow> unit client_op" where
  "clear_credentials b s0 =
     (let s = s0\<lparr>session_enabled := False\<rparr> in
      case delete_secret b account_refresh_token s of (s1, r1) \<Rightarrow>
      case delete_secret b account_access_token s1 of (s2, r2) \<Rightarrow>
        (s2, map_err from_credential (case r1 of Inl e \<Rightarrow> Inl e | Inr _ \<Rightarrow> r2)))"

definition cleared_or :: "boundary \<Rightarrow> client_error \<Rightarrow> unit client_op" where
  "cleared_or b e s = (case clear_credentials b s of (s', Inr _) \<Rightarrow> (s', Inl e) | (s', Inl c) \<Rightarrow> (s', Inl c))"

definition logout :: "boundary \<Rightarrow> unit client_op" where
  "logout b s0 =
     (let s = s0\<lparr>session_enabled := False\<rparr> in
      case get_secret b account_refresh_token s of
        Inl (CredentialNotFound _) \<Rightarrow> clear_credentials b s
      | Inl e \<Rightarrow> (fst (clear_credentials b s), Inl (from_credential e))
      | Inr _ \<Rightarrow>
          let s = fst (note_sent ''/api/v1/auth/logout'' s) in
          (case bd_logout b of
             SendFailed status m \<Rightarrow> cleared_or b (map_transport status m) s
           | Answer r \<Rightarrow>
               if is_success (hr_status r) then clear_credentials b s
               else case classify_status (hr_status r) (hr_error_code r) of
                 Authentication _ _ \<Rightarrow> clear_credentials b s
               | e \<Rightarrow> cleared_or b e s))"

text \<open>A login suspends the old session before anything else; a registration that fails logs out again.\<close>

definition register_or_logout :: "boundary \<Rightarrow> device_registration client_op" where
  "register_or_logout b s = (case register_device_with b s of
     (s', Inr d) \<Rightarrow> (s', Inr d) | (s', Inl e) \<Rightarrow> (fst (logout b s'), Inl e))"

definition login_request :: "boundary \<Rightarrow> (device_registration \<times> nat) client_op" where
  "login_request b =
     client_then (note_sent ''/api/v1/auth/login'') (\<lambda>_.
     client_then (client_result (send_checked (bd_login b))) (\<lambda>r.
     client_then (client_result (extract_refresh_cookie r)) (\<lambda>refresh.
     client_then (client_result (decode_body r)) (\<lambda>body.
     client_then (store_refresh b refresh) (\<lambda>_.
     client_then (register_or_logout b) (\<lambda>d.
     client_then (enable_session True) (\<lambda>_. client_result (Inr (d, lr_expires_in body)))))))))"

definition login :: "boundary \<Rightarrow> (device_registration \<times> nat) client_op" where
  "login b = client_then (enable_session False) (\<lambda>_. login_request b)"

section \<open>Sessions\<close>

text \<open>The operations of the client, in any order; \<open>b\<close> is what keyring and server answer to each.\<close>

datatype session_cmd =
  LogIn boundary
| LogOut boundary
| ClearCredentials boundary
| Suspend
| EnsureToken boundary
| RestoreSession boundary
| RegisterDevice boundary
| PostJson boundary string "unit http_answer"
| GetJson boundary string "unit http_answer"
| GetBytes boundary string "string http_answer"
| PutBytes boundary string "unit http_answer"

definition unanswered :: "'a client_op \<Rightarrow> unit client_op" where
  "unanswered m = client_then m (\<lambda>_. client_result (Inr ()))"

fun session_step :: "session_cmd \<Rightarrow> unit client_op" where
  "session_step (LogIn b) = unanswered (login b)"
| "session_step (LogOut b) = logout b"
| "session_step (ClearCredentials b) = clear_credentials b"
| "session_step Suspend = suspend_local_session"
| "session_step (EnsureToken b) = unanswered (ensure_access_token b)"
| "session_step (RestoreSession b) = unanswered (restore_web_session b)"
| "session_step (RegisterDevice b) = unanswered (register_device b)"
| "session_step (PostJson b path a) = post_json b path a"
| "session_step (GetJson b path a) = get_json b path a"
| "session_step (GetBytes b path a) = unanswered (get_octet_stream b path a)"
| "session_step (PutBytes b path a) = put_octet_stream b path a"

fun session_run :: "session_cmd list \<Rightarrow> session \<Rightarrow> session \<times> (client_error + unit) list" where
  "session_run [] s = (s, [])"
| "session_run (c # cs) s = (case session_step c s of (s', r) \<Rightarrow> case session_run cs s' of (t, rs) \<Rightarrow> (t, r # rs))"

text \<open>The requests of the worker: all but the session's own transitions.\<close>

definition worker_cmd :: "session_cmd \<Rightarrow> bool" where
  "worker_cmd c = (case c of LogIn _ \<Rightarrow> False | LogOut _ \<Rightarrow> False | ClearCredentials _ \<Rightarrow> False | Suspend \<Rightarrow> False | _ \<Rightarrow> True)"

lemma client_then_Inl: "m s = (s', Inl e) \<Longrightarrow> client_then m f s = (s', Inl e)"
  by (simp add: client_then_def)

lemma disabled_step:
  assumes "\<not> session_enabled s" and "worker_cmd c" shows "session_step c s = (s, Inl NotSignedIn)"
proof -
  have e: "client_then ensure_local_session_enabled f s = (s, Inl NotSignedIn)" for f :: "unit \<Rightarrow> 'a client_op"
    using assms(1) by (simp add: client_then_def ensure_local_session_enabled_def)
  have t: "ensure_access_token b s = (s, Inl NotSignedIn)" "restore_web_session b s = (s, Inl NotSignedIn)" for b
    by (simp_all add: ensure_access_token_def restore_web_session_def e)
  show ?thesis using assms(2) t
    by (cases c) (simp_all add: worker_cmd_def unanswered_def client_then_Inl register_device_def post_json_def get_json_def
        get_octet_stream_def put_octet_stream_def)
qed

lemma disabled_run: "\<not> session_enabled s \<Longrightarrow> list_all worker_cmd cs \<Longrightarrow> session_run cs s = (s, replicate (length cs) (Inl NotSignedIn))"
  by (induction cs) (simp_all add: disabled_step)

lemma clear_credentials_cases:
  "clear_credentials b s = (s', r) \<Longrightarrow> \<not> session_enabled s' \<and> sent s' = sent s
     \<and> (bd_delete b account_refresh_token = None \<longrightarrow> keyring s' account_refresh_token = None)
     \<and> (bd_delete b account_access_token = None \<longrightarrow> keyring s' account_access_token = None)
     \<and> (r = Inr () \<longleftrightarrow> bd_delete b account_refresh_token = None \<and> bd_delete b account_access_token = None)"
  by (auto simp: clear_credentials_def delete_secret_def Let_def map_err_def account_refresh_token_def account_access_token_def
      split: option.splits)

definition clears :: "boundary \<Rightarrow> session \<times> (client_error + unit) \<Rightarrow> bool" where
  "clears b x \<longleftrightarrow> (\<exists>t. fst x = fst (clear_credentials b t) \<and> (snd x = Inr () \<longrightarrow> snd (clear_credentials b t) = Inr ()))"

lemma clears_intros:
  "clears b (clear_credentials b t)" "clears b (fst (clear_credentials b t), Inl e)" "clears b (cleared_or b e t)"
  unfolding clears_def cleared_or_def by (rule exI [of _ t], simp split: prod.split sum.split)+

lemma logout_clears: "clears b (logout b s)"
proof -
  have failed: "clears b (case classify_status status code of Authentication x y \<Rightarrow> clear_credentials b t | e \<Rightarrow> cleared_or b e t)" for status code t
    by (cases "classify_status status code") (simp_all add: clears_intros)
  let ?s = "s\<lparr>session_enabled := False\<rparr>"
  show ?thesis
  proof (cases "get_secret b account_refresh_token ?s")
    case (Inl e)
    then show ?thesis by (cases e) (simp_all add: logout_def clears_intros)
  next
    case (Inr v)
    then show ?thesis using failed by (cases "bd_logout b") (simp_all add: logout_def Let_def clears_intros del: split_paired_All)
  qed
qed

lemma delete_secret_keyring: "delete_secret b a s = (s', r) \<Longrightarrow> keyring s' k = None \<or> keyring s' k = keyring s k"
  by (auto simp: delete_secret_def split: option.split_asm)

lemma clear_credentials_keyring: "keyring s k = None \<Longrightarrow> keyring (fst (clear_credentials b s)) k = None"
  by (auto simp: clear_credentials_def delete_secret_def Let_def split: option.split)

text \<open>A logout clears the session it disabled, having sent at most its own request.\<close>

lemma logout_session:
  "\<exists>t. fst (logout b s) = fst (clear_credentials b t) \<and> keyring t = keyring s \<and> sent t \<in> {sent s, sent s @ [''/api/v1/auth/logout'']}"
proof -
  have failed: "fst (case classify_status status code of Authentication x y \<Rightarrow> clear_credentials b t | e \<Rightarrow> cleared_or b e t)
      = fst (clear_credentials b t)" for status code t
    by (cases "classify_status status code") (auto simp: cleared_or_def split: prod.split sum.split)
  have other: "fst (cleared_or b e t) = fst (clear_credentials b t)" for e t by (simp add: cleared_or_def split: prod.split sum.split)
  let ?s = "s\<lparr>session_enabled := False\<rparr>"
  show ?thesis
  proof (cases "get_secret b account_refresh_token ?s")
    case (Inl e)
    then show ?thesis by (intro exI [of _ ?s]) (cases e; simp add: logout_def)
  next
    case (Inr v)
    then show ?thesis using failed other
      by (intro exI [of _ "fst (note_sent ''/api/v1/auth/logout'' ?s)"]) (cases "bd_logout b"; simp add: logout_def Let_def note_sent_def)
  qed
qed

text \<open>The operations of a client other than a login, on a disabled session: \<open>hushed n\<close> says that at most \<open>n\<close> logouts were sent.\<close>

definition hushed :: "nat \<Rightarrow> session \<Rightarrow> session \<Rightarrow> bool" where
  "hushed n s t \<longleftrightarrow> \<not> session_enabled t \<and> (\<exists>k \<le> n. sent t = sent s @ replicate k ''/api/v1/auth/logout'')
     \<and> (\<forall>a. keyring s a = None \<longrightarrow> keyring t a = None)"

lemma hushed_trans: "hushed m s t \<Longrightarrow> hushed n t u \<Longrightarrow> hushed (m + n) s u"
proof -
  assume st: "hushed m s t" and tu: "hushed n t u"
  then obtain j k where "j \<le> m" "sent t = sent s @ replicate j ''/api/v1/auth/logout''"
    "k \<le> n" "sent u = sent t @ replicate k ''/api/v1/auth/logout''" by (auto simp: hushed_def)
  then have "j + k \<le> m + n \<and> sent u = sent s @ replicate (j + k) ''/api/v1/auth/logout''" by (simp add: replicate_add)
  with st tu show ?thesis unfolding hushed_def by blast
qed

definition is_log_in :: "session_cmd \<Rightarrow> bool" where
  "is_log_in c = (case c of LogIn _ \<Rightarrow> True | _ \<Rightarrow> False)"

definition is_log_out :: "session_cmd \<Rightarrow> bool" where
  "is_log_out c = (case c of LogOut _ \<Rightarrow> True | _ \<Rightarrow> False)"

lemma hushed_clear: "sent t = sent s \<Longrightarrow> keyring t = keyring s \<Longrightarrow> hushed 0 s (fst (clear_credentials b t))"
  using clear_credentials_cases [of b t "fst (clear_credentials b t)" "snd (clear_credentials b t)"] clear_credentials_keyring [of t _ b]
  by (simp add: hushed_def)

lemma hushed_step:
  assumes "\<not> session_enabled s" and "\<not> is_log_in c" and "session_step c s = (t, r)"
  shows "hushed (if is_log_out c then 1 else 0) s t \<and> (worker_cmd c \<longrightarrow> r = Inl NotSignedIn)"
proof (cases "worker_cmd c")
  case True
  then show ?thesis using disabled_step [OF assms(1) True] assms(1,3) by (simp add: hushed_def)
next
  case False
  have out: "hushed 1 s (fst (logout b s))" for b
  proof -
    obtain u where u: "fst (logout b s) = fst (clear_credentials b u)" "keyring u = keyring s"
      "sent u \<in> {sent s, sent s @ [''/api/v1/auth/logout'']}" using logout_session by blast
    then have "\<exists>k \<le> 1. sent u = sent s @ replicate k ''/api/v1/auth/logout''"
      by (auto intro: exI [of _ 0] exI [of _ "Suc 0"])
    then have "hushed 1 s (u\<lparr>session_enabled := False\<rparr>)" using u(2) by (simp add: hushed_def)
    from hushed_trans [OF this hushed_clear [where t = u and b = b]] u(1) show ?thesis by simp
  qed
  show ?thesis
  proof (cases c)
    case (LogOut b)
    then show ?thesis using False out [of b] assms(3) by (simp add: is_log_out_def)
  next
    case (ClearCredentials b)
    then show ?thesis using False hushed_clear [of s s b] assms(3) by (simp add: is_log_out_def)
  next
    case Suspend
    then show ?thesis using False assms(3) by (auto simp: is_log_out_def suspend_local_session_def enable_session_def hushed_def)
  qed (use False assms(2) in \<open>simp_all add: worker_cmd_def is_log_in_def\<close>)
qed

lemma hushed_run:
  assumes "\<not> session_enabled s" and "\<not> list_ex is_log_in cs" and "session_run cs s = (t, rs)"
  shows "hushed (length (filter is_log_out cs)) s t \<and> length rs = length cs \<and> (\<forall>i < length cs. worker_cmd (cs ! i) \<longrightarrow> rs ! i = Inl NotSignedIn)"
  using assms
proof (induction cs arbitrary: s t rs)
  case Nil
  then show ?case by (simp add: hushed_def)
next
  case (Cons c cs)
  obtain u r where c: "session_step c s = (u, r)" by (cases "session_step c s")
  then obtain ss where cs: "session_run cs u = (t, ss)" "rs = r # ss" using Cons.prems(3) by (auto split: prod.split_asm)
  have first: "hushed (if is_log_out c then 1 else 0) s u" "worker_cmd c \<longrightarrow> r = Inl NotSignedIn"
    using hushed_step [OF Cons.prems(1) _ c] Cons.prems(2) by simp_all
  then have rest: "hushed (length (filter is_log_out cs)) u t" "length ss = length cs" "\<forall>i < length cs. worker_cmd (cs ! i) \<longrightarrow> ss ! i = Inl NotSignedIn"
    using Cons.IH [OF _ _ cs(1)] Cons.prems(2) by (simp_all add: hushed_def)
  show ?case using hushed_trans [OF first(1) rest(1)] first(2) rest(2,3) cs(2)
    by (auto simp: nth_Cons split: nat.split)
qed

text \<open>C29: A logout ends the session of this client, whatever the server and the keyring answer. The secrets are gone
  from the keyring unless it refuses to delete them, and in that case the logout reports an error. From then on, over
  any sequence of operations of the client that has no login in it, the session is never enabled again; every
  request is refused as not signed in; nothing is sent but, by each further logout, at most the logout request; and a secret
  that is gone does not come back. (Changing the server's address makes a new client, which is enabled.)\<close>

theorem logged_out_sessions_are_silent:
  assumes "logout b s = (s', r)" and "\<not> list_ex is_log_in cs" and "session_run cs s' = (t, rs)"
  shows "(\<forall>a \<in> {account_refresh_token, account_access_token}. bd_delete b a = None \<longrightarrow> keyring s' a = None \<and> keyring t a = None)
    \<and> (r = Inr () \<longrightarrow> keyring s' account_refresh_token = None \<and> keyring s' account_access_token = None)
    \<and> \<not> session_enabled t \<and> length rs = length cs
    \<and> (\<forall>i < length cs. (case cs ! i of LogOut _ \<Rightarrow> False | ClearCredentials _ \<Rightarrow> False | Suspend \<Rightarrow> False | _ \<Rightarrow> True) \<longrightarrow> rs ! i = Inl NotSignedIn)
    \<and> (\<exists>k \<le> length (filter (\<lambda>c. case c of LogOut _ \<Rightarrow> True | _ \<Rightarrow> False) cs). sent t = sent s' @ replicate k ''/api/v1/auth/logout'')"
proof -
  obtain u where "s' = fst (clear_credentials b u)" "r = Inr () \<longrightarrow> snd (clear_credentials b u) = Inr ()"
    using logout_clears [of b s] assms(1) by (auto simp: clears_def)
  then obtain r' where c: "clear_credentials b u = (s', r')" "r = Inr () \<longrightarrow> r' = Inr ()" by (cases "clear_credentials b u") auto
  note k = clear_credentials_cases [OF c(1)]
  have run: "hushed (length (filter is_log_out cs)) s' t" "length rs = length cs"
    "\<forall>i < length cs. worker_cmd (cs ! i) \<longrightarrow> rs ! i = Inl NotSignedIn"
    using hushed_run [OF _ assms(2,3)] k by simp_all
  have outs: "filter is_log_out cs = filter (\<lambda>c. case c of LogOut _ \<Rightarrow> True | _ \<Rightarrow> False) cs"
    by (rule filter_cong) (simp_all add: is_log_out_def)
  have requests: "rs ! i = Inl NotSignedIn"
    if "i < length cs" "case cs ! i of LogOut _ \<Rightarrow> False | ClearCredentials _ \<Rightarrow> False | Suspend \<Rightarrow> False | _ \<Rightarrow> True" for i
  proof -
    have "\<not> is_log_in (cs ! i)" using assms(2) that(1) by (auto simp: list_ex_length)
    then have "worker_cmd (cs ! i)" using that(2) by (cases "cs ! i") (simp_all add: worker_cmd_def is_log_in_def)
    then show ?thesis using run(3) that(1) by blast
  qed
  have hush: "\<not> session_enabled t" "\<And>a. keyring s' a = None \<Longrightarrow> keyring t a = None"
    "\<exists>k \<le> length (filter (\<lambda>c. case c of LogOut _ \<Rightarrow> True | _ \<Rightarrow> False) cs). sent t = sent s' @ replicate k ''/api/v1/auth/logout''"
    using run(1) unfolding hushed_def outs by blast+
  show ?thesis by (intro conjI ballI impI allI) (use hush run(2) requests k c(2) in auto)
qed

lemma client_then_Inr: "client_then m f s = (t, Inr y) \<longleftrightarrow> (\<exists>s' a. m s = (s', Inr a) \<and> f a s' = (t, Inr y))"
  by (auto simp: client_then_def split: prod.splits sum.splits)

lemma register_with_session: "register_device_with b s = (s', r) \<Longrightarrow> session_enabled s' = session_enabled s \<and> keyring s' = keyring s"
  by (auto simp: register_device_with_def client_then_def note_sent_def client_result_def)

lemma logout_disables: "logout b s = (s', r) \<Longrightarrow> \<not> session_enabled s'"
proof -
  assume "logout b s = (s', r)"
  then obtain t where "s' = fst (clear_credentials b t)" using logout_clears [of b s] by (auto simp: clears_def)
  then show "\<not> session_enabled s'" using clear_credentials_cases [of b t s' "snd (clear_credentials b t)"] by simp
qed

text \<open>
  \<open>stays_off m\<close>: \<open>m\<close> never enables a disabled session. \<open>fails_off m\<close>: if \<open>m\<close> fails from a disabled
  session, the session is disabled.
\<close>

definition stays_off :: "'a client_op \<Rightarrow> bool" where
  "stays_off m \<longleftrightarrow> (\<forall>s. \<not> session_enabled s \<longrightarrow> \<not> session_enabled (fst (m s)))"

definition fails_off :: "'a client_op \<Rightarrow> bool" where
  "fails_off m \<longleftrightarrow> (\<forall>s s' e. \<not> session_enabled s \<longrightarrow> m s = (s', Inl e) \<longrightarrow> \<not> session_enabled s')"

lemma fails_off_then: "stays_off m \<Longrightarrow> (\<And>a. fails_off (f a)) \<Longrightarrow> fails_off (client_then m f)"
  unfolding stays_off_def fails_off_def client_then_def by (auto split: prod.splits sum.splits) (metis fst_conv)+

lemma stays_off_basic:
  "stays_off (note_sent path)" "stays_off (client_result x)" "stays_off (enable_session False)"
  by (simp_all add: stays_off_def note_sent_def client_result_def enable_session_def)

lemma stays_off_store: "stays_off (store_refresh b token)"
  by (auto simp: stays_off_def store_refresh_def set_secret_def split: option.splits)

lemma stays_off_register: "stays_off (register_or_logout b)"
  unfolding stays_off_def
proof (intro allI impI)
  fix s :: session assume s: "\<not> session_enabled s"
  obtain s' r where r: "register_device_with b s = (s', r)" by fastforce
  obtain t x where t: "logout b s' = (t, x)" by fastforce
  show "\<not> session_enabled (fst (register_or_logout b s))"
    using s register_with_session [OF r] logout_disables [OF t] by (cases r) (simp_all add: register_or_logout_def r t)
qed

lemma fails_off_enable: "fails_off (client_then (enable_session True) (\<lambda>_. client_result (Inr y)))"
  by (simp add: fails_off_def client_then_def enable_session_def client_result_def)

lemma fails_off_login: "login b s = (s', Inl e) \<Longrightarrow> \<not> session_enabled s'"
proof -
  assume "login b s = (s', Inl e)"
  then have l: "login_request b (s\<lparr>session_enabled := False\<rparr>) = (s', Inl e)"
    by (simp add: login_def client_then_def enable_session_def)
  have "fails_off (login_request b)" unfolding login_request_def
    by (intro fails_off_then stays_off_basic stays_off_store stays_off_register fails_off_enable)
  then show ?thesis using l unfolding fails_off_def by (metis session.select_convs(2) session.surjective session.update_convs(2))
qed

lemma login_keeps_token:
  assumes "login b s = (s', Inr p)"
  shows "session_enabled s'
    \<and> (\<exists>resp token. send_checked (bd_login b) = Inr resp \<and> extract_refresh_cookie resp = Inr token \<and> keyring s' account_refresh_token = Some token)"
  using assms unfolding login_def login_request_def register_or_logout_def
  by (cases p) (auto simp: client_then_Inr enable_session_def note_sent_def client_result_def store_refresh_def set_secret_def
      split: sum.splits option.splits prod.splits dest!: register_with_session)

text \<open>A login succeeds completely or leaves no session. When it returns the device, the session is
  enabled and the keyring holds the refresh token of the answer; when it fails, at the password, the
  cookie, the keyring or the registration of the device, the session is disabled, also if another was
  enabled before.\<close>

theorem login_is_all_or_nothing:
  assumes "login b s = (s', r)"
  shows "case r of
      Inr (d, expires) \<Rightarrow> session_enabled s'
        \<and> (\<exists>resp token. send_checked (bd_login b) = Inr resp \<and> extract_refresh_cookie resp = Inr token \<and> keyring s' account_refresh_token = Some token)
    | Inl _ \<Rightarrow> \<not> session_enabled s'"
  using assms fails_off_login login_keeps_token by (cases r) force+

section \<open>Examples\<close>

definition sample_device :: device_registration where
  "sample_device = \<lparr>dv_device_id = ''d1'', dv_user_id = ''u1'', dv_client_instance_id = ''c1'', dv_revoked_at = None\<rparr>"

definition ok_response :: "'a \<Rightarrow> 'a http_response" where
  "ok_response a = \<lparr>hr_status = 200, hr_set_cookie = [''skillhive_refresh=t2''], hr_error_code = None, hr_body = Inr a\<rparr>"

text \<open>A server that accepts the password and refuses the device, and cannot be reached for the logout.\<close>

definition sample_boundary :: boundary where
  "sample_boundary = \<lparr>bd_get = (\<lambda>_. None), bd_set = (\<lambda>_. None), bd_delete = (\<lambda>_. None),
     bd_login = Answer (ok_response \<lparr>lr_access_token = ''a'', lr_expires_in = 900, lr_user = ''u''\<rparr>),
     bd_register = Answer (ok_response sample_device\<lparr>hr_status := 403\<rparr>),
     bd_refresh = Answer (ok_response \<lparr>lr_access_token = ''a'', lr_expires_in = 900, lr_user = ''u''\<rparr>), bd_logout = SendFailed None ''offline''\<rparr>"

definition signed_in :: session where
  "signed_in = \<lparr>keyring = [account_refresh_token \<mapsto> ''t1''], session_enabled = True, sent = []\<rparr>"

theorem logged_out_sessions_are_silent_witness:
  "case session_run [EnsureToken sample_boundary, LogOut sample_boundary, RegisterDevice sample_boundary] (fst (logout sample_boundary signed_in)) of
     (t, rs) \<Rightarrow> rs ! 0 = Inl NotSignedIn \<and> rs ! 2 = Inl NotSignedIn \<and> \<not> session_enabled t \<and> keyring t account_refresh_token = None
       \<and> length (sent t) \<le> length (sent (fst (logout sample_boundary signed_in))) + 1"
proof -
  let ?cs = "[EnsureToken sample_boundary, LogOut sample_boundary, RegisterDevice sample_boundary]"
  have l: "logout sample_boundary signed_in = (fst (logout sample_boundary signed_in), snd (logout sample_boundary signed_in))" by simp
  have none: "\<not> list_ex is_log_in ?cs" by (simp add: is_log_in_def)
  have d: "bd_delete sample_boundary account_refresh_token = None" by code_simp
  obtain t rs where run: "session_run ?cs (fst (logout sample_boundary signed_in)) = (t, rs)" by (rule prod.exhaust)
  note silent = logged_out_sessions_are_silent [OF l none run]
  have "rs ! 0 = Inl NotSignedIn" "rs ! 2 = Inl NotSignedIn"
    using conjunct1 [OF conjunct2 [OF conjunct2 [OF conjunct2 [OF conjunct2 [OF silent]]]]] by (auto simp: numeral_2_eq_2)
  moreover have "length (sent t) \<le> length (sent (fst (logout sample_boundary signed_in))) + 1"
    using conjunct2 [OF conjunct2 [OF conjunct2 [OF conjunct2 [OF conjunct2 [OF silent]]]]] by auto
  ultimately show ?thesis using silent d by (simp add: run del: session_run.simps)
qed

theorem login_is_all_or_nothing_witness:
  "snd (login sample_boundary signed_in) = Inl (Authentication ''UNKNOWN'' 403) \<and> \<not> session_enabled (fst (login sample_boundary signed_in))"
proof -
  have r: "snd (login sample_boundary signed_in) = Inl (Authentication ''UNKNOWN'' 403)" by code_simp
  have l: "login sample_boundary signed_in = (fst (login sample_boundary signed_in), snd (login sample_boundary signed_in))" by simp
  from login_is_all_or_nothing [OF l] r show ?thesis by simp
qed

section \<open>The stored token\<close>

text \<open>The cookie's attributes are kept with the token, although only the pair before the first \<open>;\<close> is meant.\<close>

definition cookie_response :: "string \<Rightarrow> unit http_response" where
  "cookie_response header = \<lparr>hr_status = 200, hr_set_cookie = [header], hr_error_code = None, hr_body = Inr ()\<rparr>"

theorem stored_token_keeps_cookie_attributes:
  "extract_refresh_cookie (cookie_response ''skillhive_refresh=rotated-token; Path=/api/v1/auth; HttpOnly'')
   = Inr ''rotated-token; Path=/api/v1/auth; HttpOnly''"
  by code_simp

end
