(* ===== verification/Sync_Transport.thy ===== *)
theory Sync_Transport
  imports App Snapshots Sync_Client
begin

text \<open>
  \<open>sync_transport.rs\<close> and \<open>sync_push.rs\<close>: the upload of a snapshot's closure and the submission of a
  mutation. What the server answers, through the client of \<open>Sync_Client\<close>, is the record \<open>server\<close>: one
  function per endpoint, so that every answer, also an inconsistent one, is possible. \<open>blob_env\<close> holds
  the parameters of the blob store.
\<close>

record blob_env =
  be_codec :: manifest_codec
  be_sha :: sha
  be_root :: location
  be_error_text :: "blob_error \<Rightarrow> string"

section \<open>Closures\<close>

record blob_descriptor =
  bd_hash :: string
  bd_size_bytes :: nat

datatype negotiation_error =
  ManifestMissing string
| BlobMissing string
| NegotiationBlob string
| NegotiationHttp client_error
| TooManyObjects

definition max_negotiation_items :: nat where
  "max_negotiation_items = 1024"

definition negotiation_blob_error :: "blob_env \<Rightarrow> blob_error \<Rightarrow> negotiation_error" where
  "negotiation_blob_error be e = (case e of BlobNotFound hash \<Rightarrow> BlobMissing hash | _ \<Rightarrow> NegotiationBlob (be_error_text be e))"

definition from_snapshot_file :: "snapshot_file \<Rightarrow> blob_descriptor" where
  "from_snapshot_file f = \<lparr>bd_hash = sf_blob_hash f, bd_size_bytes = sf_size_bytes f\<rparr>"

text \<open>\<open>dedup_by\<close>: of neighbours with the same hash the first stays.\<close>

fun dedup_hashes :: "blob_descriptor list \<Rightarrow> blob_descriptor list" where
  "dedup_hashes (x # y # xs) = (if bd_hash x = bd_hash y then dedup_hashes (x # xs) else x # dedup_hashes (y # xs))"
| "dedup_hashes xs = xs"

definition read_bytes :: "blob_env \<Rightarrow> string \<Rightarrow> (blob_error, string) io" where
  "read_bytes be hash = query BlobIo (read_blob (be_sha be) (be_root be) hash)"

definition snapshot_closure :: "blob_env \<Rightarrow> string \<Rightarrow> (negotiation_error, blob_descriptor list) io" where
  "snapshot_closure be manifest_hash =
     do_then (wrap (\<lambda>_. ManifestMissing manifest_hash)
       (query SnapIo (read_manifest (be_codec be) (be_sha be) (be_root be) manifest_hash default_policy))) (\<lambda>m.
     do_then (wrap (negotiation_blob_error be) (read_bytes be manifest_hash)) (\<lambda>bs.
     give (dedup_hashes (sort_key bd_hash
       (map from_snapshot_file (sm_files m) @ [\<lparr>bd_hash = manifest_hash, bd_size_bytes = length bs\<rparr>])))))"

section \<open>Mutations\<close>

text \<open>The wire records, without the fields that are constant in every request or that the client never reads.\<close>

record mutation_metadata =
  md_name :: string
  md_slug :: string

record mutation_request =
  mq_device_id :: string
  mq_mutation_id :: string
  mq_operation :: string
  mq_client_skill_id :: string
  mq_remote_skill_id :: "string option"
  mq_base_revision :: "int option"
  mq_package_manifest_hash :: "string option"
  mq_metadata :: "mutation_metadata option"

record mutation_result =
  rs_remote_skill_id :: string
  rs_revision :: int

record conflict_head =
  ch_head_revision :: int
  ch_head_manifest_hash :: "string option"

record mutation_response =
  mr_mutation_id :: string
  mr_status :: string
  mr_result :: "mutation_result option"
  mr_conflict :: "conflict_head option"
  mr_error_code :: "string option"
  mr_message :: "string option"

definition into_outcome :: "mutation_response \<Rightarrow> outcome" where
  "into_outcome r =
     \<lparr>oc_mutation_id = mr_mutation_id r, oc_status = mr_status r,
      oc_remote_skill_id = map_option rs_remote_skill_id (mr_result r), oc_revision = map_option rs_revision (mr_result r),
      oc_conflict_head_revision = map_option ch_head_revision (mr_conflict r),
      oc_conflict_manifest_hash = Option.bind (mr_conflict r) ch_head_manifest_hash,
      oc_error_code = mr_error_code r, oc_message = mr_message r\<rparr>"

definition package_manifest_hash_of :: "local_mutation \<Rightarrow> string option" where
  "package_manifest_hash_of m = (if lm_operation m = Delete then None else Some (lm_payload_hash m))"

definition mutation_request_of :: "string \<Rightarrow> local_mutation \<Rightarrow> string option \<Rightarrow> mutation_metadata option \<Rightarrow> mutation_request" where
  "mutation_request_of device m skill_remote_id meta =
     \<lparr>mq_device_id = device, mq_mutation_id = lm_id m, mq_operation = operation_as_db_str (lm_operation m),
      mq_client_skill_id = lm_skill_id m,
      mq_remote_skill_id = (case lm_ack_remote_id m of Some r \<Rightarrow> Some r | None \<Rightarrow> skill_remote_id),
      mq_base_revision = lm_base_revision m, mq_package_manifest_hash = package_manifest_hash_of m, mq_metadata = meta\<rparr>"

section \<open>The server\<close>

text \<open>
  \<open>sv_missing\<close> and \<open>sv_upload\<close> take the manifest the upload is for, \<open>sv_page\<close> and \<open>sv_blob\<close> the number
  of the page, so that the answer to a repeated request may differ.
\<close>

record server =
  sv_session :: "client_error + string"
  sv_register :: "client_error + device_registration"
  sv_missing :: "string \<Rightarrow> blob_descriptor list \<Rightarrow> client_error + blob_descriptor list"
  sv_upload :: "string \<Rightarrow> string \<Rightarrow> string \<Rightarrow> client_error + unit"
  sv_submit :: "mutation_request \<Rightarrow> client_error + mutation_response"
  sv_page :: "nat \<Rightarrow> string option \<Rightarrow> client_error + changes_page"
  sv_blob :: "nat \<Rightarrow> string \<Rightarrow> client_error + string"

definition submit_mutation :: "server \<Rightarrow> string \<Rightarrow> local_mutation \<Rightarrow> string option \<Rightarrow> mutation_metadata option
    \<Rightarrow> client_error + mutation_response" where
  "submit_mutation sv device m skill_remote_id meta = sv_submit sv (mutation_request_of device m skill_remote_id meta)"

text \<open>\<open>sync_snapshot_closure\<close>: the number of blobs the server asked for and received\<close>

fun upload_missing :: "blob_env \<Rightarrow> server \<Rightarrow> string \<Rightarrow> nat \<Rightarrow> blob_descriptor list \<Rightarrow> (negotiation_error, nat) io" where
  "upload_missing be sv manifest_hash uploaded [] = give uploaded"
| "upload_missing be sv manifest_hash uploaded (b # bs) =
     do_then (wrap (negotiation_blob_error be) (read_bytes be (bd_hash b))) (\<lambda>content.
     do_then (from_result (map_err NegotiationHttp (sv_upload sv manifest_hash (bd_hash b) content))) (\<lambda>_.
     upload_missing be sv manifest_hash (uploaded + 1) bs))"

definition sync_snapshot_closure :: "blob_env \<Rightarrow> server \<Rightarrow> string \<Rightarrow> (negotiation_error, nat) io" where
  "sync_snapshot_closure be sv manifest_hash =
     do_then (snapshot_closure be manifest_hash) (\<lambda>closure.
     if max_negotiation_items < length closure then raise TooManyObjects
     else do_then (from_result (map_err NegotiationHttp (sv_missing sv manifest_hash closure))) (\<lambda>missing.
          upload_missing be sv manifest_hash 0 missing))"

end
