(* ===== verification/Sync_Cycle.thy ===== *)
theory Sync_Cycle
  imports Sync_Transport
begin

text \<open>
  \<open>sync_pull.rs\<close> and \<open>sync.rs\<close>: the drain of the change feed and one cycle of the sync worker, session,
  device, push and pull, over store and blob store. \<open>sync_env\<close> holds the address of the server, the
  time, fresh ids and the texts of foreign errors.
\<close>

record sync_env =
  se_blobs :: blob_env
  se_pull :: pull_env
  se_base_url :: string
  se_instance_uuid :: string
  se_blob_uuid :: "nat \<Rightarrow> string \<Rightarrow> string"
  se_instant :: int
  se_now :: int
  se_store_text :: "store_error \<Rightarrow> string"

section \<open>Errors\<close>

datatype pull_error =
  PullHttp client_error
| PullStore store_error
| PullBlobStore blob_error
| BlobDownload string client_error
| BlobDigestMismatch string string

datatype cycle_error =
  CycleNotSignedIn
| ScopeMismatch string
| CycleAuthentication client_error
| StoreStage store_error
| NegotiationStage negotiation_error
| PullStage pull_error
| SessionStage client_error
| SubmitStage client_error
| DeviceStage string

definition client_text :: "client_error \<Rightarrow> string" where
  "client_text e = (case e of
     NotSignedIn \<Rightarrow> ''not signed in''
   | CredentialStore m \<Rightarrow> ''credential store failure: '' @ m
   | Authentication code status \<Rightarrow> ''authentication failed: '' @ code @ '' ('' @ dec (int status) @ '')''
   | Request code status \<Rightarrow> ''server rejected request: '' @ code @ '' ('' @ dec (int status) @ '')''
   | Server _ status \<Rightarrow> ''server error ('' @ dec (int status) @ '')''
   | Network m \<Rightarrow> ''request failed: '' @ m
   | Malformed m \<Rightarrow> ''malformed response: '' @ m)"

definition negotiation_text :: "negotiation_error \<Rightarrow> string" where
  "negotiation_text e = (case e of
     ManifestMissing h \<Rightarrow> ''manifest not found locally: '' @ h
   | BlobMissing h \<Rightarrow> ''blob missing locally: '' @ h
   | NegotiationBlob m \<Rightarrow> ''blob store failure: '' @ m
   | NegotiationHttp e \<Rightarrow> ''negotiation rejected: '' @ client_text e
   | TooManyObjects \<Rightarrow> ''snapshot declares too many objects for one negotiation'')"

definition pull_text :: "sync_env \<Rightarrow> pull_error \<Rightarrow> string" where
  "pull_text env e = (case e of
     PullHttp e \<Rightarrow> client_text e
   | PullStore e \<Rightarrow> ''local store failure: '' @ se_store_text env e
   | PullBlobStore e \<Rightarrow> ''blob store failure: '' @ be_error_text (se_blobs env) e
   | BlobDownload h e \<Rightarrow> ''blob download failed for '' @ h @ '': '' @ client_text e
   | BlobDigestMismatch expected actual \<Rightarrow>
       ''downloaded blob '' @ expected @ '' does not match its content hash (got '' @ actual @ '')'')"

definition failure_message :: "sync_env \<Rightarrow> cycle_error \<Rightarrow> string" where
  "failure_message env e = (case e of
     CycleNotSignedIn \<Rightarrow> ''not signed in''
   | ScopeMismatch m \<Rightarrow> ''local sync scope mismatch: '' @ m
   | CycleAuthentication e \<Rightarrow> ''authentication/device failure: '' @ client_text e
   | StoreStage e \<Rightarrow> ''local store: '' @ se_store_text env e
   | NegotiationStage e \<Rightarrow> ''package negotiation: '' @ negotiation_text e
   | PullStage e \<Rightarrow> ''pull: '' @ pull_text env e
   | SessionStage e \<Rightarrow> ''session refresh: '' @ client_text e
   | SubmitStage e \<Rightarrow> ''mutation submit: '' @ client_text e
   | DeviceStage m \<Rightarrow> ''device registration: '' @ m)"

definition classify_session_failure :: "client_error \<Rightarrow> cycle_error" where
  "classify_session_failure e = (case e of
     NotSignedIn \<Rightarrow> CycleNotSignedIn | Authentication _ _ \<Rightarrow> CycleAuthentication e | _ \<Rightarrow> SessionStage e)"

section \<open>Pulling\<close>

record pull_summary =
  ps_pages_applied :: nat
  ps_upserts :: nat
  ps_tombstones :: nat
  ps_conflicts_detected :: nat
  ps_blobs_downloaded :: nat
  ps_has_more :: bool

definition max_pages_per_cycle :: nat where
  "max_pages_per_cycle = 100"

text \<open>One change of a page: its manifest is fetched, checked and stored unless it is already there.\<close>

definition download_blob :: "sync_env \<Rightarrow> server \<Rightarrow> nat \<Rightarrow> string \<Rightarrow> (pull_error, nat) io" where
  "download_blob env sv page hash =
     (let be = se_blobs env in
      do_then (query (\<lambda>e. PullBlobStore (BlobIo e)) (\<lambda>d. map_err PullBlobStore (verify_blob (be_sha be) (be_root be) hash d))) (\<lambda>there.
      if there then give 0
      else do_then (from_result (map_err (BlobDownload hash) (sv_blob sv page hash))) (\<lambda>content.
        let actual = hash_bytes (be_sha be) content in
        if actual \<noteq> hash then raise (BlobDigestMismatch hash actual)
        else do_then (wrap PullBlobStore (put_bytes (be_sha be) (be_root be) (se_blob_uuid env page hash) content)) (\<lambda>_. give 1))))"

fun download_page_blobs :: "sync_env \<Rightarrow> server \<Rightarrow> nat \<Rightarrow> nat \<Rightarrow> change_item list \<Rightarrow> (pull_error, nat) io" where
  "download_page_blobs env sv page downloaded [] = give downloaded"
| "download_page_blobs env sv page downloaded (ch # chs) = (case ch_package_manifest_hash ch of
     None \<Rightarrow> download_page_blobs env sv page downloaded chs
   | Some hash \<Rightarrow> do_then (download_blob env sv page hash) (\<lambda>n. download_page_blobs env sv page (downloaded + n) chs))"

definition pull_page :: "sync_env \<Rightarrow> server \<Rightarrow> pull_summary \<Rightarrow> (pull_error, bool \<times> pull_summary) app" where
  "pull_page env sv s =
     app_then (app_err PullStore (store_read (\<lambda>d. Inr (sync_cursor d)))) (\<lambda>cursor.
     app_then (app_result (map_err PullHttp (sv_page sv (ps_pages_applied s) cursor))) (\<lambda>page.
     app_then (on_disk (download_page_blobs env sv (ps_pages_applied s) 0 (pg_changes page))) (\<lambda>downloaded.
     app_then (app_err PullStore (transact (apply_changes_page (se_pull env) (se_instant env) (se_now env) page))) (\<lambda>applied.
     app_give (pg_has_more page, s\<lparr>ps_blobs_downloaded := ps_blobs_downloaded s + downloaded,
       ps_pages_applied := ps_pages_applied s + 1, ps_upserts := ps_upserts s + pa_upserts applied,
       ps_tombstones := ps_tombstones s + pa_tombstones applied,
       ps_conflicts_detected := ps_conflicts_detected s + pa_conflicts applied\<rparr>)))))"

text \<open>The loop ends because each turn applies a page: \<open>app_then_cong\<close> passes the summary of the turn on.\<close>

lemma app_then_cong [fundef_cong]:
  assumes "m d w = m' d' w'" and "\<And>a e v. m' d' w' = Returned a e v \<Longrightarrow> f a e v = g a e v"
  shows "app_then m f d w = app_then m' g d' w'"
  using assms by (cases "m' d' w'") (simp_all add: app_then_def)

lemma pull_page_counts: "pull_page env sv s d w = Returned (again, s') d' w' \<Longrightarrow> ps_pages_applied s' = ps_pages_applied s + 1"
  by (auto simp: pull_page_def app_then_def app_give_def split: ending.splits)

function pull_loop :: "sync_env \<Rightarrow> server \<Rightarrow> pull_summary \<Rightarrow> store \<Rightarrow> world \<Rightarrow> (pull_error, pull_summary) ending" where
  "pull_loop env sv s d w = app_then (pull_page env sv s) (\<lambda>(again, s') d' w'.
     if \<not> again \<or> max_pages_per_cycle \<le> ps_pages_applied s' then app_give (s'\<lparr>ps_has_more := again\<rparr>) d' w'
     else pull_loop env sv s' d' w') d w"
  by pat_completeness auto

termination
  by (relation "measure (\<lambda>(env, sv, s, d, w). max_pages_per_cycle - ps_pages_applied s)") (auto dest: pull_page_counts)

declare pull_loop.simps [simp del]

definition pull_changes :: "sync_env \<Rightarrow> server \<Rightarrow> (pull_error, pull_summary) app" where
  "pull_changes env sv = pull_loop env sv \<lparr>ps_pages_applied = 0, ps_upserts = 0, ps_tombstones = 0,
     ps_conflicts_detected = 0, ps_blobs_downloaded = 0, ps_has_more = False\<rparr>"

section \<open>Dispatching a mutation\<close>

definition apply_outcome :: "sync_env \<Rightarrow> outcome \<Rightarrow> (cycle_error, unit) app" where
  "apply_outcome env oc = app_then (app_err StoreStage (transact (apply_mutation_outcome oc (se_now env)))) (\<lambda>_. app_give ())"

definition device_id_for :: "(cycle_error, string) app" where
  "device_id_for =
     app_then (app_err StoreStage (store_read (\<lambda>d. Inr (sync_state d)))) (\<lambda>s.
     app_result (ok_or (sy_device_id s) (DeviceStage ''device ID missing after registration'')))"

definition rejected_outcome :: "string \<Rightarrow> string \<Rightarrow> string \<Rightarrow> outcome" where
  "rejected_outcome mutation_id code message =
     \<lparr>oc_mutation_id = mutation_id, oc_status = ''validation_error'', oc_remote_skill_id = None, oc_revision = None,
      oc_conflict_head_revision = None, oc_conflict_manifest_hash = None, oc_error_code = Some code, oc_message = Some message\<rparr>"

definition upload_package :: "sync_env \<Rightarrow> server \<Rightarrow> local_mutation \<Rightarrow> (cycle_error, unit) app" where
  "upload_package env sv m =
     (if lm_operation m = Delete then app_give ()
      else app_then (app_try (on_disk (sync_snapshot_closure (se_blobs env) sv (lm_payload_hash m)))) (\<lambda>r. case r of
        Inr _ \<Rightarrow> app_give ()
      | Inl e \<Rightarrow> app_then (apply_outcome env (transport_error (lm_id m) ''PACKAGE_UPLOAD_FAILED'' (negotiation_text e))) (\<lambda>_.
          app_raise (NegotiationStage e))))"

definition submit_failed :: "sync_env \<Rightarrow> local_mutation \<Rightarrow> client_error \<Rightarrow> (cycle_error, unit) app" where
  "submit_failed env m e =
     (if (case e of Authentication _ _ \<Rightarrow> True | NotSignedIn \<Rightarrow> True | _ \<Rightarrow> False) then app_raise (CycleAuthentication e)
      else
        let code = or_else (client_error_code e) ''TRANSPORT_ERROR'';
            oc = (if (case e of Request _ _ \<Rightarrow> True | _ \<Rightarrow> False) then rejected_outcome (lm_id m) code (client_text e)
                  else transport_error (lm_id m) code (client_text e)) in
        app_then (apply_outcome env oc) (\<lambda>_. app_raise (SubmitStage e)))"

definition metadata_of :: "local_skill \<Rightarrow> mutation_metadata" where
  "metadata_of s = \<lparr>md_name = ls_name s, md_slug = ls_slug s\<rparr>"

definition dispatch_mutation :: "sync_env \<Rightarrow> server \<Rightarrow> local_mutation \<Rightarrow> (cycle_error, unit) app" where
  "dispatch_mutation env sv m =
     app_then (upload_package env sv m) (\<lambda>_.
     app_then (app_err StoreStage (transact (get_skill (lm_skill_id m) (se_now env)))) (\<lambda>skill.
     app_then device_id_for (\<lambda>device.
     case submit_mutation sv device m (Option.bind skill ls_remote_id) (map_option metadata_of skill) of
       Inr response \<Rightarrow> apply_outcome env (into_outcome response)
     | Inl e \<Rightarrow> submit_failed env m e)))"

section \<open>The cycle\<close>

record cycle_report =
  cy_pushed :: nat
  cy_pulled :: bool
  cy_pages_applied :: nat
  cy_upserts :: nat
  cy_tombstones :: nat
  cy_conflicts_detected :: nat
  cy_blobs_downloaded :: nat
  cy_stopped_reason :: "string option"

definition has_more :: "cycle_report \<Rightarrow> bool" where
  "has_more r \<longleftrightarrow> max_pages_per_cycle \<le> cy_pages_applied r"

definition max_mutations_per_cycle :: nat where
  "max_mutations_per_cycle = 50"

definition ensure_session :: "server \<Rightarrow> sync_env \<Rightarrow> (cycle_error, unit) app" where
  "ensure_session sv env =
     app_then (app_err (\<lambda>e. ScopeMismatch (se_store_text env e)) (store_read (assert_server_scope (se_base_url env)))) (\<lambda>_.
     app_then (app_result (map_err classify_session_failure (sv_session sv))) (\<lambda>_. app_give ()))"

definition ensure_device :: "server \<Rightarrow> sync_env \<Rightarrow> (cycle_error, unit) app" where
  "ensure_device sv env =
     app_then (app_err StoreStage (transact (ensure_client_instance_id (se_instance_uuid env)))) (\<lambda>_.
     app_then (app_result (map_err classify_session_failure (sv_register sv))) (\<lambda>device.
     if is_revoked device then app_raise (CycleAuthentication (Authentication ''DEVICE_REVOKED'' 403))
     else
       app_then (app_err StoreStage (store_read (\<lambda>d. Inr (sync_state d)))) (\<lambda>s.
       if (case sy_server_user_id s of None \<Rightarrow> False | Some user \<Rightarrow> user \<noteq> dv_user_id device)
       then app_raise (ScopeMismatch ''authenticated user differs from the durable local scope'')
       else if sy_device_id s \<noteq> Some (dv_device_id device) \<or> sy_server_user_id s \<noteq> Some (dv_user_id device)
              \<or> sy_server_url s \<noteq> Some (se_base_url env)
       then app_err StoreStage (store_write (record_authenticated_device (se_base_url env)
              (or_else (sy_login_identity s) ''sync-worker'') (dv_client_instance_id device) (dv_device_id device) (dv_user_id device)))
       else app_give ())))"

text \<open>The loop over the claimed mutations; the first failure releases the ones not yet dispatched.\<close>

fun push_each :: "sync_env \<Rightarrow> server \<Rightarrow> nat \<Rightarrow> local_mutation list \<Rightarrow> (cycle_error, nat \<times> cycle_error option) app" where
  "push_each env sv pushed [] = app_give (pushed, None)"
| "push_each env sv pushed (m # ms) =
     app_then (app_try (dispatch_mutation env sv m)) (\<lambda>r. case r of
       Inr _ \<Rightarrow> push_each env sv (pushed + 1) ms
     | Inl e \<Rightarrow> app_then (app_err StoreStage (transact (release_in_flight_mutations (map lm_id ms) (se_now env)))) (\<lambda>_.
         app_give (pushed, Some e)))"

definition push_changes :: "sync_env \<Rightarrow> server \<Rightarrow> (cycle_error, nat \<times> cycle_error option) app" where
  "push_changes env sv =
     app_then (app_err StoreStage (transact (claim_dispatchable_mutations max_mutations_per_cycle (se_now env)))) (\<lambda>claimed.
     app_then (push_each env sv 0 claimed) (\<lambda>(pushed, failure).
     if failure = None then app_then (app_err StoreStage (store_write (record_push_success (se_now env)))) (\<lambda>_. app_give (pushed, None))
     else app_give (pushed, failure)))"

definition pull_or_record :: "sync_env \<Rightarrow> server \<Rightarrow> (cycle_error, pull_summary) app" where
  "pull_or_record env sv =
     app_then (app_try (pull_changes env sv)) (\<lambda>r. case r of
       Inr s \<Rightarrow> app_give s
     | Inl e \<Rightarrow> app_then (app_err StoreStage (store_write (record_sync_error (pull_text env e)))) (\<lambda>_. app_raise (PullStage e)))"

definition run_cycle :: "sync_env \<Rightarrow> server \<Rightarrow> (cycle_error, cycle_report) app" where
  "run_cycle env sv =
     app_then (ensure_session sv env) (\<lambda>_.
     app_then (ensure_device sv env) (\<lambda>_.
     app_then (push_changes env sv) (\<lambda>(pushed, failure).
     app_then (pull_or_record env sv) (\<lambda>s.
     app_then (app_err StoreStage (transact (expire_due_entitlements (to_rfc3339 (se_pull env)) (se_instant env) (se_now env)))) (\<lambda>_.
     app_give \<lparr>cy_pushed = pushed, cy_pulled = True, cy_pages_applied = ps_pages_applied s, cy_upserts = ps_upserts s,
       cy_tombstones = ps_tombstones s, cy_conflicts_detected = ps_conflicts_detected s,
       cy_blobs_downloaded = ps_blobs_downloaded s, cy_stopped_reason = map_option (failure_message env) failure\<rparr>)))))"

end
