(* ===== verification/Sync_Properties.thy ===== *)
theory Sync_Properties
  imports Sync_Cycle
begin

text \<open>
  What a cycle promises whatever the server answers, whatever file or database call fails and wherever
  the process dies: the store moves by a history of the store's own commands, so that the contract of the
  outbox carries over; the pull is bounded; a foreign scope sends nothing.
\<close>

section \<open>A cycle is a history of store commands\<close>

text \<open>The commands a cycle issues. An acknowledgement comes only from an answer of the server.\<close>

fun cycle_cmd :: "sync_env \<Rightarrow> server \<Rightarrow> store_cmd \<Rightarrow> bool" where
  "cycle_cmd env sv (Outcome oc now) \<longleftrightarrow>
     oc_status oc \<noteq> ''acked'' \<or> (\<exists>request response. sv_submit sv request = Inr response \<and> oc = into_outcome response)"
| "cycle_cmd env sv (Claim limit now) \<longleftrightarrow> limit = max_mutations_per_cycle"
| "cycle_cmd env sv (Release ids now) \<longleftrightarrow> True"
| "cycle_cmd env sv (ReadSkill skill now) \<longleftrightarrow> True"
| "cycle_cmd env sv (PullPage pull instant now page) \<longleftrightarrow> (\<exists>n cursor. sv_page sv n cursor = Inr page)"
| "cycle_cmd env sv (ExpireLeases display instant now) \<longleftrightarrow> True"
| "cycle_cmd env sv (EnsureClientInstance uuid) \<longleftrightarrow> True"
| "cycle_cmd env sv (Scope (RecordDevice url identity client device user)) \<longleftrightarrow> url = se_base_url env"
| "cycle_cmd env sv (Scope (PushDone now)) \<longleftrightarrow> True"
| "cycle_cmd env sv (Scope (SyncFailed message)) \<longleftrightarrow> True"
| "cycle_cmd env sv c \<longleftrightarrow> False"

abbreviation cycle_moves :: "sync_env \<Rightarrow> server \<Rightarrow> ('e, 'a) app \<Rightarrow> bool" where
  "cycle_moves env sv \<equiv> command_moves.moves (cycle_cmd env sv)"

lemma moves_by_command:
  assumes "\<And>d d' a. f d = Inr (d', a) \<Longrightarrow> \<exists>c. P c \<and> store_step c d = Inr d'"
  shows "command_moves.moves P (transact f)"
proof (rule command_moves.moves_transact)
  fix d d' a assume "f d = Inr (d', a)"
  then obtain c where "P c" "store_step c d = Inr d'" using assms by blast
  then show "by_commands P d d'" by (rule by_command)
qed

lemma moves_by_write:
  assumes "\<And>d d'. f d = Inr d' \<Longrightarrow> \<exists>c. P c \<and> store_step c d = Inr d'"
  shows "command_moves.moves P (store_write f)"
  unfolding store_write_def by (rule moves_by_command) (auto simp: and_then_Inr_iff dest: assms)

text \<open>The transactions of the cycle, one command each.\<close>

lemma cycle_transactions:
  "cycle_moves env sv (transact (claim_dispatchable_mutations max_mutations_per_cycle now))"
  "cycle_moves env sv (transact (release_in_flight_mutations ids now))"
  "cycle_moves env sv (transact (get_skill skill now))"
  "cycle_moves env sv (transact (expire_due_entitlements display instant now))"
  "cycle_moves env sv (transact (ensure_client_instance_id uuid))"
  "cycle_moves env sv (store_write (record_authenticated_device (se_base_url env) identity client device user))"
  "cycle_moves env sv (store_write (record_push_success now))"
  "cycle_moves env sv (store_write (record_sync_error message))"
  subgoal by (rule moves_by_command, rule exI [of _ "Claim max_mutations_per_cycle now"]) simp
  subgoal by (rule moves_by_command, rule exI [of _ "Release ids now"]) simp
  subgoal by (rule moves_by_command, rule exI [of _ "ReadSkill skill now"]) simp
  subgoal by (rule moves_by_command, rule exI [of _ "ExpireLeases display instant now"]) simp
  subgoal by (rule moves_by_command, rule exI [of _ "EnsureClientInstance uuid"]) simp
  subgoal by (rule moves_by_write, rule exI [of _ "Scope (RecordDevice (se_base_url env) identity client device user)"]) simp
  subgoal by (rule moves_by_write, rule exI [of _ "Scope (PushDone now)"]) simp
  subgoal by (rule moves_by_write, rule exI [of _ "Scope (SyncFailed message)"]) simp
  done

lemma outcome_moves: "cycle_cmd env sv (Outcome oc (se_now env)) \<Longrightarrow> cycle_moves env sv (apply_outcome env oc)"
  unfolding apply_outcome_def
  by (intro command_moves.moves_then command_moves.moves_err command_moves.moves_give moves_by_command,
      rule exI [of _ "Outcome oc (se_now env)"]) simp

lemma page_moves: "sv_page sv n cursor = Inr page \<Longrightarrow> cycle_moves env sv (transact (apply_changes_page pull instant now page))"
  by (rule moves_by_command, rule exI [of _ "PullPage pull instant now page"]) auto

lemmas cycle_moves_rules = command_moves.moves_rules cycle_transactions

lemma answered_moves:
  assumes "\<And>a. r = Inr a \<Longrightarrow> command_moves.moves P (f a)"
  shows "command_moves.moves P (app_then (app_result (map_err g r)) f)"
proof (cases r)
  case (Inl e)
  then show ?thesis
    by (simp add: command_moves.moves_def app_then_def app_result_def app_raise_def map_err_def store_after_def by_commands_refl)
next
  case (Inr a)
  then show ?thesis using assms [OF Inr]
    by (simp add: command_moves.moves_def app_then_def app_result_def app_give_def map_err_def)
qed

lemma pull_page_moves: "cycle_moves env sv (pull_page env sv s)"
  unfolding pull_page_def
  by (rule command_moves.moves_then, intro cycle_moves_rules, rule answered_moves,
      intro command_moves.moves_then cycle_moves_rules page_moves)

lemma pull_loop_moves: "by_commands (cycle_cmd env sv) d (store_after (pull_loop env sv s d w))"
proof (induction env sv s d w rule: pull_loop.induct)
  case (1 env sv s d w)
  have first: "by_commands (cycle_cmd env sv) d (store_after (pull_page env sv s d w))"
    by (rule command_moves.movesD [OF pull_page_moves])
  show ?case
  proof (cases "pull_page env sv s d w")
    case (Returned p d' w')
    obtain again s' where p: "p = (again, s')" by (cases p)
    have "by_commands (cycle_cmd env sv) d' (store_after (pull_loop env sv s' d' w'))"
      if "again" "\<not> max_pages_per_cycle \<le> ps_pages_applied s'"
      using "1.IH" [of p d' w' again s'] Returned p that by simp
    then show ?thesis using first Returned p by_commands_trans
      by (subst pull_loop.simps) (auto simp: app_then_def app_give_def store_after_def)
  qed (use first in \<open>simp_all add: pull_loop.simps app_then_def store_after_def\<close>)
qed

lemma pull_moves: "cycle_moves env sv (pull_changes env sv)"
  using pull_loop_moves by (simp add: command_moves.moves_def pull_changes_def)

lemma transport_moves: "cycle_moves env sv (apply_outcome env (transport_error i code message))"
  by (rule outcome_moves) (simp add: transport_error_def)

lemma dispatch_moves: "cycle_moves env sv (dispatch_mutation env sv m)"
proof -
  have up: "cycle_moves env sv (upload_package env sv m)"
    unfolding upload_package_def
    by (auto intro!: cycle_moves_rules transport_moves split: sum.split)
  have bad: "cycle_moves env sv (submit_failed env m e)" for e
    unfolding submit_failed_def Let_def
    by (auto intro!: cycle_moves_rules outcome_moves simp: rejected_outcome_def transport_error_def)
  have answer: "cycle_moves env sv (case submit_mutation sv device m remote meta of
      Inr response \<Rightarrow> apply_outcome env (into_outcome response) | Inl e \<Rightarrow> submit_failed env m e)" for device remote meta
    by (auto intro!: bad outcome_moves simp: submit_mutation_def split: sum.split) blast
  show ?thesis unfolding dispatch_mutation_def device_id_for_def
    by (intro command_moves.moves_then up answer command_moves.moves_err command_moves.moves_read
        command_moves.moves_result cycle_transactions)
qed

lemma push_each_moves: "cycle_moves env sv (push_each env sv n ms)"
proof (induction ms arbitrary: n)
  case (Cons m ms)
  then show ?case
    by (auto intro!: cycle_moves_rules dispatch_moves split: sum.split)
qed (simp add: cycle_moves_rules)

lemma cycle_is_history: "cycle_moves env sv (run_cycle env sv)"
proof -
  have push: "cycle_moves env sv (push_changes env sv)"
    unfolding push_changes_def by (auto intro!: cycle_moves_rules push_each_moves)
  have session: "cycle_moves env sv (ensure_session sv env)"
    unfolding ensure_session_def by (auto intro!: cycle_moves_rules)
  have device: "cycle_moves env sv (ensure_device sv env)"
    unfolding ensure_device_def by (auto intro!: cycle_moves_rules)
  have pull: "cycle_moves env sv (pull_or_record env sv)"
    unfolding pull_or_record_def by (auto intro!: cycle_moves_rules pull_moves split: sum.split)
  show ?thesis unfolding run_cycle_def
    by (auto intro!: cycle_moves_rules push session device pull)
qed

text \<open>C16: Under any answers of the server, any failures and any crash, a cycle changes the store only by a
  history of the store's own commands, in which every acknowledgement is an answer of the server to a
  submission and every page one the server sent.\<close>

theorem cycle_refines_the_store:
  "\<exists>cmds. list_all (cycle_cmd env sv) cmds \<and> store_after (run_cycle env sv d w) = run_steps store_step cmds d"
  using command_moves.movesD [OF cycle_is_history, where d = d and w = w] by (simp add: by_commands_def)

text \<open>A cycle never loses queued work: unless the server acknowledges the mutation by its id, it is
  still in the outbox with its content, and claims stay causal, however the cycle ends.\<close>

theorem cycle_keeps_unacknowledged_work:
  assumes "outbox_inv d" and "m \<in> set (mutations d)" and "mu_state m \<noteq> Acked"
    and "\<And>request response. sv_submit sv request = Inr response \<Longrightarrow> mr_status response = ''acked'' \<Longrightarrow> mr_mutation_id response \<noteq> mu_id m"
  shows "still_queued m (store_after (run_cycle env sv d w)) \<and> outbox_inv (store_after (run_cycle env sv d w))"
proof -
  have c: "by_commands (cycle_cmd env sv) d (store_after (run_cycle env sv d w))"
    by (rule command_moves.movesD [OF cycle_is_history])
  have "\<not> settles cmd m" if "cycle_cmd env sv cmd" for cmd
    using that assms(4) by (cases cmd) (auto simp: into_outcome_def)
  then show ?thesis using by_commands_queued [OF c assms(1-3)] by blast
qed

section \<open>The pull is bounded\<close>

lemma pull_loop_bounds:
  assumes "ps_pages_applied s < max_pages_per_cycle" and "pull_loop env sv s d w = Returned s' d' w'"
  shows "ps_pages_applied s < ps_pages_applied s' \<and> ps_pages_applied s' \<le> max_pages_per_cycle
    \<and> (ps_has_more s' \<longrightarrow> ps_pages_applied s' = max_pages_per_cycle)"
  using assms
proof (induction env sv s d w rule: pull_loop.induct)
  case (1 env sv s d w)
  obtain again s1 d1 w1 where p: "pull_page env sv s d w = Returned (again, s1) d1 w1"
    using "1.prems"(2) by (subst (asm) pull_loop.simps) (auto simp: app_then_def split: ending.splits)
  have n: "ps_pages_applied s1 = ps_pages_applied s + 1" using p by (rule pull_page_counts)
  have rest: "(if \<not> again \<or> max_pages_per_cycle \<le> ps_pages_applied s1 then app_give (s1\<lparr>ps_has_more := again\<rparr>) d1 w1
      else pull_loop env sv s1 d1 w1) = Returned s' d' w'"
    using "1.prems"(2) p by (subst (asm) pull_loop.simps) (simp add: app_then_def)
  show ?case
  proof (cases "\<not> again \<or> max_pages_per_cycle \<le> ps_pages_applied s1")
    case True
    then show ?thesis using rest n "1.prems"(1) by (auto simp: app_give_def)
  next
    case False
    then have "pull_loop env sv s1 d1 w1 = Returned s' d' w'" and "ps_pages_applied s1 < max_pages_per_cycle" using rest by auto
    then show ?thesis using "1.IH" [OF p refl False] n by fastforce
  qed
qed

lemma download_page_blobs_agree:
  "(\<And>h. sv_blob sv page h = sv_blob sv' page h) \<Longrightarrow> download_page_blobs env sv page k chs = download_page_blobs env sv' page k chs"
proof -
  assume "\<And>h. sv_blob sv page h = sv_blob sv' page h"
  then have "sv_blob sv page = sv_blob sv' page" by blast
  then show ?thesis by (induction chs arbitrary: k) (auto simp: download_blob_def Let_def split: option.split cong: if_cong)
qed

lemma pull_loop_agree:
  assumes "ps_pages_applied s < max_pages_per_cycle"
    and "\<And>n c. n < max_pages_per_cycle \<Longrightarrow> sv_page sv n c = sv_page sv' n c"
    and "\<And>n h. n < max_pages_per_cycle \<Longrightarrow> sv_blob sv n h = sv_blob sv' n h"
  shows "pull_loop env sv s d w = pull_loop env sv' s d w"
  using assms
proof (induction env sv s d w rule: pull_loop.induct)
  case (1 env sv s d w)
  have page: "pull_page env sv s = pull_page env sv' s"
    unfolding pull_page_def "1.prems"(2) [OF "1.prems"(1)] download_page_blobs_agree [OF "1.prems"(3) [OF "1.prems"(1)]] ..
  show ?case
  proof (cases "pull_page env sv' s d w")
    case (Returned p d1 w1)
    obtain again s1 where p: "p = (again, s1)" by (cases p)
    have "pull_loop env sv s1 d1 w1 = pull_loop env sv' s1 d1 w1" if "\<not> (\<not> again \<or> max_pages_per_cycle \<le> ps_pages_applied s1)"
      by (rule "1.IH" [of p d1 w1 again s1]) (use Returned page p that "1.prems"(2,3) in auto)
    then show ?thesis using Returned page p by (simp add: pull_loop.simps [of env sv s] pull_loop.simps [of env sv' s] app_then_def)
  qed (simp_all add: pull_loop.simps [of env sv s] pull_loop.simps [of env sv' s] page app_then_def)
qed

text \<open>C26: A pull always ends, however many pages the server says are waiting: the answers after the
  hundredth page do not matter, because they are never asked for. A pull that returns applied between one
  and a hundred pages, and says that more are waiting only after the hundredth.\<close>

theorem pull_is_bounded:
  assumes "\<And>n c. n < max_pages_per_cycle \<Longrightarrow> sv_page sv n c = sv_page sv' n c"
    and "\<And>n h. n < max_pages_per_cycle \<Longrightarrow> sv_blob sv n h = sv_blob sv' n h"
  shows "pull_changes env sv d w = pull_changes env sv' d w
    \<and> (case pull_changes env sv d w of
         Returned s _ _ \<Rightarrow> 1 \<le> ps_pages_applied s \<and> ps_pages_applied s \<le> 100 \<and> (ps_has_more s \<longrightarrow> ps_pages_applied s = 100)
       | _ \<Rightarrow> True)"
proof
  show "pull_changes env sv d w = pull_changes env sv' d w"
    unfolding pull_changes_def by (rule pull_loop_agree) (use assms in \<open>simp_all add: max_pages_per_cycle_def\<close>)
  show "case pull_changes env sv d w of
         Returned s _ _ \<Rightarrow> 1 \<le> ps_pages_applied s \<and> ps_pages_applied s \<le> 100 \<and> (ps_has_more s \<longrightarrow> ps_pages_applied s = 100)
       | _ \<Rightarrow> True"
  proof (cases "pull_changes env sv d w")
    case (Returned s d' w')
    then show ?thesis using pull_loop_bounds [OF _ Returned [unfolded pull_changes_def]] by (simp add: max_pages_per_cycle_def)
  qed simp_all
qed

section \<open>A failed push\<close>

lemma release_loop_not_in_flight:
  "release_loop now ids d = Inr (d', k) \<Longrightarrow> m \<in> set (mutations d') \<Longrightarrow> mu_state m = InFlight
   \<Longrightarrow> mu_id m \<notin> set ids \<and> m \<in> set (mutations d)"
proof (induction ids arbitrary: d k)
  case (Cons i ids)
  let ?d1 = "update_mutations (\<lambda>m. mu_id m = i \<and> mu_state m = InFlight) (released_row now) d"
  obtain k' where run: "release_loop now ids ?d1 = Inr (d', k')"
    using Cons.prems(1) by (auto simp: Let_def result_simps)
  have m: "mu_id m \<notin> set ids" "m \<in> set (mutations ?d1)" using Cons.IH [OF run Cons.prems(2,3)] by auto
  then have "mu_id m \<noteq> i \<and> m \<in> set (mutations d)"
    using Cons.prems(3) by (auto simp: set_sql_update released_row_def split: if_splits)
  then show ?case using m by simp
qed simp

text \<open>C27: When the dispatch of a mutation fails, every mutation claimed after it leaves the in-flight state
  at once, whatever else fails: only mutations before it and itself may still be in flight.\<close>

theorem failed_push_releases_its_tail:
  assumes "push_each env sv n claimed d w = Returned (k, Some e) d' w'"
  shows "n \<le> k \<and> k < n + length claimed
    \<and> (\<forall>m \<in> set (mutations d'). mu_state m = InFlight \<longrightarrow> mu_id m \<notin> lm_id ` set (drop (k - n + 1) claimed))"
  using assms
proof (induction claimed arbitrary: n d w)
  case (Cons m ms)
  show ?case
  proof (cases "dispatch_mutation env sv m d w")
    case (Returned u d1 w1)
    then have "push_each env sv (n + 1) ms d1 w1 = Returned (k, Some e) d' w'"
      using Cons.prems by (simp add: app_then_def app_try_def)
    then have ih: "n + 1 \<le> k \<and> k < n + 1 + length ms
      \<and> (\<forall>m \<in> set (mutations d'). mu_state m = InFlight \<longrightarrow> mu_id m \<notin> lm_id ` set (drop (k - (n + 1) + 1) ms))"
      by (rule Cons.IH)
    moreover have "k - n + 1 = Suc (k - (n + 1) + 1)" using ih by arith
    ultimately show ?thesis by simp
  next
    case (Refused e' d1 w1)
    then obtain j where release: "transact (release_in_flight_mutations (map lm_id ms) (se_now env)) d1 w1 = Returned j d' w'"
        and k: "k = n"
      using Cons.prems by (auto simp: app_then_def app_try_def app_err_def app_give_def split: ending.splits)
    have "release_in_flight_mutations (map lm_id ms) (se_now env) d1 = Inr (d', j)"
      using release by (auto simp: transact_def split: list.splits fault.splits sum.splits)
    then have "\<forall>m \<in> set (mutations d'). mu_state m = InFlight \<longrightarrow> mu_id m \<notin> lm_id ` set ms"
      using release_loop_not_in_flight by (fastforce simp: release_in_flight_mutations_def split: if_splits)
    then show ?thesis using k by simp
  next
    case (Died d1 w1)
    then show ?thesis using Cons.prems by (simp add: app_then_def app_try_def)
  qed
qed (simp add: app_give_def)

section \<open>A foreign scope\<close>

lemma update_instance_sync:
  "ensure_client_instance_id uuid d = Inr (d', i) \<Longrightarrow>
   sy_server_user_id (sync d') = sy_server_user_id (sync d) \<and> mutations d' = mutations d \<and> skills d' = skills d"
  by (auto simp: ensure_client_instance_id_def update_sync_def result_simps split: option.splits)

text \<open>The store belongs to another server, or the session to another account.\<close>

definition foreign_scope :: "sync_env \<Rightarrow> server \<Rightarrow> store \<Rightarrow> bool" where
  "foreign_scope env sv d \<longleftrightarrow> assert_server_scope (se_base_url env) d \<noteq> Inr ()
     \<or> (\<exists>user device. sy_server_user_id (sync d) = Some user \<and> sv_register sv = Inr device \<and> dv_user_id device \<noteq> user)"

definition rows_kept :: "store \<Rightarrow> ('e, 'a) ending \<Rightarrow> bool" where
  "rows_kept d r \<longleftrightarrow> mutations (store_after r) = mutations d \<and> skills (store_after r) = skills d"

lemma store_read_keeps:
  "store_after (store_read f d w) = d"
  "store_read f d w = Returned a d' w' \<Longrightarrow> f d = Inr a"
  by (auto simp: store_read_def transact_def and_then_def store_after_def split: list.splits fault.splits sum.splits)

lemma foreign_device:
  assumes "sy_server_user_id (sync d) = Some user" and "sv_register sv = Inr device" and "dv_user_id device \<noteq> user"
  shows "(\<forall>u d' w'. ensure_device sv env d w \<noteq> Returned u d' w') \<and> rows_kept d (ensure_device sv env d w)"
proof (cases "transact (ensure_client_instance_id (se_instance_uuid env)) d w")
  case (Returned i d1 w1)
  then have "ensure_client_instance_id (se_instance_uuid env) d = Inr (d1, i)"
    by (auto simp: transact_def split: list.splits fault.splits sum.splits)
  then have d1: "sy_server_user_id (sync d1) = Some user" "mutations d1 = mutations d" "skills d1 = skills d"
    using update_instance_sync assms(1) by auto
  show ?thesis
    using Returned d1 assms(2,3) store_read_keeps(1) [of "\<lambda>d. Inr (sync_state d)" d1 w1] store_read_keeps(2) [of "\<lambda>d. Inr (sync_state d)" d1 w1]
    by (cases "store_read (\<lambda>d. Inr (sync_state d)) d1 w1 :: (store_error, _) ending")
      (auto simp: ensure_device_def app_then_def app_err_def app_result_def app_give_def app_raise_def map_err_def
        rows_kept_def store_after_def sync_state_def)
next
  case (Refused e d1 w1)
  then have "d1 = d" by (auto simp: transact_def split: list.splits fault.splits sum.splits)
  then show ?thesis using Refused by (simp add: ensure_device_def app_then_def app_err_def rows_kept_def store_after_def)
next
  case (Died d1 w1)
  then have "d1 = d" by (auto simp: transact_def split: list.splits fault.splits sum.splits)
  then show ?thesis using Died by (simp add: ensure_device_def app_then_def app_err_def rows_kept_def store_after_def)
qed

lemma session_outcome:
  "store_after (ensure_session sv env d w) = d"
  "ensure_session sv env d w = Returned u d' w' \<Longrightarrow> assert_server_scope (se_base_url env) d = Inr ()"
  by (auto simp: ensure_session_def app_then_def app_err_def app_result_def app_give_def app_raise_def store_read_def
      transact_def and_then_def store_after_def split: ending.splits list.splits fault.splits sum.splits)

text \<open>C28: When the store belongs to another server, or the session to another account than the store's,
  a cycle ends before anything of the store is sent: its outcome does not depend on what the server would
  answer to submissions, uploads, pages or downloads, it never succeeds, and no mutation and no skill changes.\<close>

theorem foreign_scope_sends_nothing:
  assumes "foreign_scope env sv d" and "sv_session sv' = sv_session sv" and "sv_register sv' = sv_register sv"
  shows "run_cycle env sv' d w = run_cycle env sv d w \<and> rows_kept d (run_cycle env sv d w)
    \<and> (\<forall>report d' w'. run_cycle env sv d w \<noteq> Returned report d' w')"
proof -
  have same: "ensure_session sv' env = ensure_session sv env" "ensure_device sv' env = ensure_device sv env"
    by (simp_all add: ensure_session_def ensure_device_def assms(2,3))
  show ?thesis
  proof (cases "ensure_session sv env d w")
    case (Returned u d1 w1)
    then have d1: "d1 = d" and ok: "assert_server_scope (se_base_url env) d = Inr ()"
      using session_outcome(1) [of sv env d w] session_outcome(2) [of sv env d w] by (auto simp: store_after_def)
    obtain user device where "sy_server_user_id (sync d) = Some user" "sv_register sv = Inr device" "dv_user_id device \<noteq> user"
      using assms(1) ok by (auto simp: foreign_scope_def)
    from foreign_device [OF this, of env w1]
    show ?thesis using Returned d1 same
      by (cases "ensure_device sv env d w1") (simp_all add: run_cycle_def app_then_def rows_kept_def store_after_def)
  next
    case (Refused e d1 w1)
    then show ?thesis using session_outcome(1) [of sv env d w] same by (simp add: run_cycle_def app_then_def rows_kept_def store_after_def)
  next
    case (Died d1 w1)
    then show ?thesis using session_outcome(1) [of sv env d w] same by (simp add: run_cycle_def app_then_def rows_kept_def store_after_def)
  qed
qed

section \<open>The upload of a snapshot\<close>

lemma dedup_hashes_spec:
  "sorted (map bd_hash xs) \<Longrightarrow> sorted (map bd_hash (dedup_hashes xs)) \<and> distinct (map bd_hash (dedup_hashes xs))
   \<and> bd_hash ` set (dedup_hashes xs) = bd_hash ` set xs"
proof (induction xs rule: dedup_hashes.induct)
  case (1 x y xs)
  show ?case
  proof (cases "bd_hash x = bd_hash y")
    case True
    then show ?thesis using 1 by auto
  next
    case False
    have "bd_hash x < bd_hash y" and "sorted (map bd_hash (y # xs))" using "1.prems" False by (simp_all add: order_less_le)
    moreover from this have "\<forall>h \<in> bd_hash ` set (y # xs). bd_hash x < h" by (auto intro: less_le_trans)
    moreover note "1.IH"(2) [OF False]
    ultimately have ih: "sorted (map bd_hash (dedup_hashes (y # xs)))" "distinct (map bd_hash (dedup_hashes (y # xs)))"
        "bd_hash ` set (dedup_hashes (y # xs)) = bd_hash ` set (y # xs)"
      and lt: "\<forall>h \<in> bd_hash ` set (dedup_hashes (y # xs)). bd_hash x < h" by simp_all
    have "dedup_hashes (x # y # xs) = x # dedup_hashes (y # xs)" using False by simp
    then show ?thesis using ih lt by (auto simp: less_imp_le)
  qed
qed simp_all

lemma do_then_Done: "do_then m f w = Done b w' \<longleftrightarrow> (\<exists>a w1. m w = Done a w1 \<and> f a w1 = Done b w')"
  by (simp add: do_then_def split: run.split)

lemma wrap_Done: "wrap g m w = Done a w' \<longleftrightarrow> m w = Done a w'"
  by (simp add: wrap_def split: run.split)

lemma from_result_Done: "from_result r w = Done a w' \<longleftrightarrow> r = Inr a \<and> w' = w"
  by (auto simp: from_result_def raise_def give_def split: sum.split)

lemma give_Done: "give a w = Done b w' \<longleftrightarrow> b = a \<and> w' = w" and raise_Done: "raise e w \<noteq> Done c w'"
  by (auto simp: give_def raise_def)

lemmas Done_iff = do_then_Done wrap_Done from_result_Done give_Done raise_Done

lemma query_Done: "query g f w = Done a w' \<Longrightarrow> f (disk w) = Inr a \<and> disk w' = disk w"
  by (auto simp: query_def Done_iff atomic_def syscall_def split: list.splits fault.splits)

lemma snapshot_closure_Done:
  assumes "snapshot_closure be hash w = Done closure w'"
  shows "disk w' = disk w \<and> (\<exists>m. read_manifest (be_codec be) (be_sha be) (be_root be) hash default_policy (disk w) = Inr m
    \<and> bd_hash ` set closure = insert hash (sf_blob_hash ` set (sm_files m))
    \<and> sorted (map bd_hash closure) \<and> distinct (map bd_hash closure))"
proof -
  obtain m w1 bs where q: "query SnapIo (read_manifest (be_codec be) (be_sha be) (be_root be) hash default_policy) w = Done m w1"
      "read_bytes be hash w1 = Done bs w'"
    and closure: "closure = dedup_hashes (sort_key bd_hash
       (map from_snapshot_file (sm_files m) @ [\<lparr>bd_hash = hash, bd_size_bytes = length bs\<rparr>]))"
    using assms unfolding snapshot_closure_def Done_iff by blast
  have m: "read_manifest (be_codec be) (be_sha be) (be_root be) hash default_policy (disk w) = Inr m" "disk w' = disk w"
    using query_Done [OF q(1)] query_Done [OF q(2) [unfolded read_bytes_def]] by simp_all
  let ?xs = "map from_snapshot_file (sm_files m) @ [\<lparr>bd_hash = hash, bd_size_bytes = length bs\<rparr>]"
  have "bd_hash ` set ?xs = insert hash (sf_blob_hash ` set (sm_files m))" by (auto simp: from_snapshot_file_def image_iff)
  then show ?thesis using dedup_hashes_spec [of "sort_key bd_hash ?xs"] m closure by simp
qed

lemma upload_missing_Done:
  "upload_missing be sv hash k bs w = Done n w' \<Longrightarrow> n = k + length bs \<and> disk w' = disk w
   \<and> (\<forall>b \<in> set bs. \<exists>content. read_blob (be_sha be) (be_root be) (bd_hash b) (disk w) = Inr content
        \<and> sv_upload sv hash (bd_hash b) content = Inr ())"
proof (induction bs arbitrary: k w)
  case (Cons b bs)
  obtain content w1 where b: "read_blob (be_sha be) (be_root be) (bd_hash b) (disk w) = Inr content" "disk w1 = disk w"
      "sv_upload sv hash (bd_hash b) content = Inr ()"
    and rest: "upload_missing be sv hash (k + 1) bs w1 = Done n w'"
    using Cons.prems by (auto simp: Done_iff read_bytes_def map_err_Inr_iff dest!: query_Done)
  show ?case using Cons.IH [OF rest] b by auto
qed (simp add: Done_iff)

text \<open>C40: An upload that succeeds names to the server exactly the blobs of the snapshot, its manifest and the
  blobs of its files, each once, at most 1024 of them, and has sent every blob the server then asked for,
  with the content of the local store; the local files are not changed.\<close>

theorem successful_upload_is_complete:
  assumes "sync_snapshot_closure be sv hash w = Done n w'"
  shows "\<exists>m closure missing. read_manifest (be_codec be) (be_sha be) (be_root be) hash default_policy (disk w) = Inr m
    \<and> bd_hash ` set closure = insert hash (sf_blob_hash ` set (sm_files m)) \<and> distinct (map bd_hash closure) \<and> length closure \<le> 1024
    \<and> sv_missing sv hash closure = Inr missing \<and> n = length missing
    \<and> (\<forall>b \<in> set missing. \<exists>content. read_blob (be_sha be) (be_root be) (bd_hash b) (disk w) = Inr content
        \<and> sv_upload sv hash (bd_hash b) content = Inr ())
    \<and> disk w' = disk w"
proof -
  obtain closure w1 where c: "snapshot_closure be hash w = Done closure w1" "length closure \<le> 1024"
    and "\<exists>missing. sv_missing sv hash closure = Inr missing \<and> upload_missing be sv hash 0 missing w1 = Done n w'"
    using assms by (auto simp: sync_snapshot_closure_def Done_iff max_negotiation_items_def map_err_Inr_iff split: if_splits)
  then obtain missing where u: "sv_missing sv hash closure = Inr missing" "upload_missing be sv hash 0 missing w1 = Done n w'" by blast
  show ?thesis using snapshot_closure_Done [OF c(1)] upload_missing_Done [OF u(2)] u(1) c(2) by auto
qed

end
