(* ===== verification/Sync_Worker.thy ===== *)
theory Sync_Worker
  imports Sync_Cycle
begin

text \<open>
  \<open>sync_worker.rs\<close>: the thread that runs the synchronization cycles. Time is counted in seconds. An event is
  a second that passes, a poke from another thread, or anything else other threads do to store and disk, such as
  the commands of the window; \<open>sync_now\<close> runs its cycles on the window's thread, so they are of this last kind. What
  a cycle of the worker meets (its environment, its server, how long it takes) is given for each cycle by its number;
  its effects on store and disk are those of \<open>run_cycle\<close>, taken when it starts.
\<close>

definition periodic_wake :: nat where
  "periodic_wake = 300"

definition startup_delay :: nat where
  "startup_delay = 2"

text \<open>\<open>SyncWaker\<close>: a counter of pokes. \<open>notify_one\<close> wakes nobody, since no thread waits on the condition variable.\<close>

record sync_waker =
  pending_pokes :: "64 word"

definition poke :: "sync_waker \<Rightarrow> sync_waker" where
  "poke waker = waker\<lparr>pending_pokes := pending_pokes waker + 1\<rparr>"

text \<open>\<open>SyncWorkerHandle::request_sync\<close>\<close>

definition request_sync :: "sync_waker \<Rightarrow> sync_waker" where
  "request_sync waker = poke waker"

record cycle_setting =
  cs_env :: sync_env
  cs_server :: server
  cs_seconds :: nat

record worker =
  wk_clock :: nat
  wk_wakes_at :: nat
  wk_waker :: sync_waker
  wk_cycles :: "nat list"
  wk_store :: store
  wk_world :: world
  wk_alive :: bool

definition spawn_sync_worker :: "store \<Rightarrow> world \<Rightarrow> worker" where
  "spawn_sync_worker d w = \<lparr>wk_clock = 0, wk_wakes_at = startup_delay, wk_waker = \<lparr>pending_pokes = 0\<rparr>, wk_cycles = [],
     wk_store = d, wk_world = w, wk_alive = True\<rparr>"

text \<open>A cycle's error is swallowed; one that stopped at its page bound pokes.\<close>

definition run_worker_cycle :: "cycle_setting \<Rightarrow> worker \<Rightarrow> worker" where
  "run_worker_cycle c k = (case run_cycle (cs_env c) (cs_server c) (wk_store k) (wk_world k) of
     Returned report d w \<Rightarrow>
       k\<lparr>wk_store := d, wk_world := w, wk_waker := (if has_more report then poke (wk_waker k) else wk_waker k)\<rparr>
   | Refused e d w \<Rightarrow> k\<lparr>wk_store := d, wk_world := w\<rparr>
   | Died d w \<Rightarrow> k\<lparr>wk_store := d, wk_world := w, wk_alive := False\<rparr>)"

text \<open>The end of a sleep of \<open>worker_loop\<close>: the pokes are forgotten, a cycle runs, and the thread sleeps again.\<close>

definition wake :: "(nat \<Rightarrow> cycle_setting) \<Rightarrow> worker \<Rightarrow> worker" where
  "wake settings k =
     (let c = settings (length (wk_cycles k));
          k = (if wk_cycles k = [] then k else k\<lparr>wk_waker := \<lparr>pending_pokes = 0\<rparr>\<rparr>) in
      run_worker_cycle c (k\<lparr>wk_cycles := wk_cycles k @ [wk_clock k], wk_wakes_at := wk_clock k + cs_seconds c + periodic_wake\<rparr>))"

datatype worker_event = Second | Poke | Others "store \<times> node \<Rightarrow> store \<times> node"

fun worker_step :: "(nat \<Rightarrow> cycle_setting) \<Rightarrow> worker_event \<Rightarrow> worker \<Rightarrow> worker" where
  "worker_step settings Poke k = k\<lparr>wk_waker := request_sync (wk_waker k)\<rparr>"
| "worker_step settings (Others f) k = (case f (wk_store k, disk (wk_world k)) of (d, x) \<Rightarrow>
     k\<lparr>wk_store := d, wk_world := (wk_world k)\<lparr>disk := x\<rparr>\<rparr>)"
| "worker_step settings Second k =
     (let k = k\<lparr>wk_clock := wk_clock k + 1\<rparr> in if wk_alive k \<and> wk_clock k = wk_wakes_at k then wake settings k else k)"

definition worker_loop :: "(nat \<Rightarrow> cycle_setting) \<Rightarrow> worker_event list \<Rightarrow> worker \<Rightarrow> worker" where
  "worker_loop settings es k = fold (worker_step settings) es k"

section \<open>Pace\<close>

definition same_but_pokes :: "worker \<Rightarrow> worker \<Rightarrow> bool" where
  "same_but_pokes j k \<longleftrightarrow> j\<lparr>wk_waker := wk_waker k\<rparr> = k"

lemma same_but_pokesD: "same_but_pokes j k \<Longrightarrow> wk_cycles j = wk_cycles k \<and> wk_store j = wk_store k \<and> wk_world j = wk_world k"
  by (cases j; cases k) (simp add: same_but_pokes_def)

lemma same_cycle: "same_but_pokes j k \<Longrightarrow> same_but_pokes (run_worker_cycle c j) (run_worker_cycle c k)"
  by (cases j; cases k) (auto simp: same_but_pokes_def run_worker_cycle_def split: ending.split)

lemma same_wake: "same_but_pokes j k \<Longrightarrow> same_but_pokes (wake settings j) (wake settings k)"
  unfolding wake_def Let_def by (cases j; cases k) (auto simp: same_but_pokes_def intro!: same_cycle [unfolded same_but_pokes_def])

lemma same_second: "same_but_pokes j k \<Longrightarrow> same_but_pokes (worker_step settings Second j) (worker_step settings Second k)"
  by (cases j; cases k) (auto simp: same_but_pokes_def Let_def intro!: same_wake [unfolded same_but_pokes_def])

lemma same_poke: "same_but_pokes j k \<Longrightarrow> same_but_pokes (worker_step settings Poke j) k"
  by (cases j; cases k) (auto simp: same_but_pokes_def)

lemma same_others: "same_but_pokes j k \<Longrightarrow> same_but_pokes (worker_step settings (Others f) j) (worker_step settings (Others f) k)"
  by (cases j; cases k) (auto simp: same_but_pokes_def split: prod.split)

lemma pokes_do_nothing:
  "same_but_pokes j k \<Longrightarrow> same_but_pokes (fold (worker_step settings) es j) (fold (worker_step settings) (filter (\<lambda>e. e \<noteq> Poke) es) k)"
proof (induction es arbitrary: j k)
  case (Cons e es)
  then show ?case by (cases e) (simp_all add: same_second same_poke same_others del: worker_step.simps)
qed simp

text \<open>When the cycle of a number starts.\<close>

definition beat :: "(nat \<Rightarrow> cycle_setting) \<Rightarrow> nat \<Rightarrow> nat" where
  "beat settings i = 2 + (\<Sum>j < i. cs_seconds (settings j) + 300)"

lemma beat_Suc: "beat settings (Suc i) = beat settings i + cs_seconds (settings i) + 300"
  by (simp add: beat_def)

definition on_beat :: "(nat \<Rightarrow> cycle_setting) \<Rightarrow> worker \<Rightarrow> bool" where
  "on_beat settings k \<longleftrightarrow> wk_cycles k = map (beat settings) [0..<length (wk_cycles k)] \<and> (\<forall>t \<in> set (wk_cycles k). t \<le> wk_clock k)
     \<and> (wk_alive k \<longrightarrow> wk_wakes_at k = beat settings (length (wk_cycles k)) \<and> wk_clock k < wk_wakes_at k)"

lemma run_worker_cycle_simps [simp]:
  "wk_cycles (run_worker_cycle c k) = wk_cycles k" "wk_wakes_at (run_worker_cycle c k) = wk_wakes_at k"
  "wk_clock (run_worker_cycle c k) = wk_clock k"
  by (simp_all add: run_worker_cycle_def split: ending.split)

lemma on_beat_wake: "on_beat settings k \<Longrightarrow> wk_alive k \<Longrightarrow>
    on_beat settings (wake settings (k\<lparr>wk_clock := wk_wakes_at k\<rparr>))"
  by (auto simp: on_beat_def wake_def Let_def beat_Suc periodic_wake_def less_imp_le)

lemma on_beat_step: "on_beat settings k \<Longrightarrow> on_beat settings (worker_step settings e k)"
proof (cases e)
  case Second
  assume k: "on_beat settings k"
  show ?thesis
  proof (cases "wk_alive k \<and> wk_clock k + 1 = wk_wakes_at k")
    case True
    then show ?thesis using on_beat_wake [OF k] by (simp add: Second)
  next
    case False
    then show ?thesis using k by (auto simp: Second on_beat_def le_SucI)
  qed
qed (auto simp: on_beat_def split: prod.split)

lemma on_beat_fold: "on_beat settings k \<Longrightarrow> on_beat settings (fold (worker_step settings) es k)"
  by (induction es arbitrary: k) (simp_all add: on_beat_step del: worker_step.simps)

lemma clock_counts: "wk_clock (fold (worker_step settings) es k) = wk_clock k + length (filter (\<lambda>e. e = Second) es)"
proof (induction es arbitrary: k)
  case (Cons e es)
  have "wk_clock (worker_step settings e k) = wk_clock k + (if e = Second then 1 else 0)"
    by (cases e) (auto simp: wake_def Let_def split: prod.split)
  then show ?case using Cons.IH by simp
qed simp

lemma on_beat_run: "on_beat settings (worker_loop settings es (spawn_sync_worker d w))"
  unfolding worker_loop_def by (rule on_beat_fold) (simp add: on_beat_def spawn_sync_worker_def beat_def startup_delay_def)

text \<open>What the loop does, request or not: its cycles start two seconds after it was spawned and then exactly five minutes
  after the cycle before ended, for as long as the process lives, whatever other threads do to store and disk. A request
  changes neither these times nor store and disk: the comments expect it to shorten the wait, but nothing waits for the signal.\<close>

lemma the_worker_keeps_its_heartbeat:
  fixes settings :: "nat \<Rightarrow> cycle_setting" and d :: store and w :: world
  defines "run \<equiv> \<lambda>es. worker_loop settings es (spawn_sync_worker d w)"
    and "starts \<equiv> \<lambda>i. 2 + (\<Sum>j < i. cs_seconds (settings j) + 300)"
  shows "wk_clock (run es) = length (filter (\<lambda>e. e = Second) es)
    \<and> wk_cycles (run es) = map starts [0..<length (wk_cycles (run es))] \<and> (\<forall>t \<in> set (wk_cycles (run es)). t \<le> wk_clock (run es))
    \<and> (wk_alive (run es) \<longrightarrow> wk_clock (run es) < starts (length (wk_cycles (run es))))
    \<and> wk_store (run es) = wk_store (run (filter (\<lambda>e. e \<noteq> Poke) es)) \<and> wk_world (run es) = wk_world (run (filter (\<lambda>e. e \<noteq> Poke) es))"
proof -
  have same: "same_but_pokes (run es) (run (filter (\<lambda>e. e \<noteq> Poke) es))" unfolding run_def worker_loop_def
    by (rule pokes_do_nothing) (simp add: same_but_pokes_def)
  have "on_beat settings (run es)" unfolding run_def by (rule on_beat_run)
  moreover have "starts = beat settings" by (simp add: starts_def beat_def fun_eq_iff)
  moreover have "wk_clock (run es) = length (filter (\<lambda>e. e = Second) es)"
    unfolding run_def worker_loop_def clock_counts by (simp add: spawn_sync_worker_def)
  ultimately show ?thesis using same_but_pokesD [OF same] by (auto simp: on_beat_def)
qed

text \<open>C13: The heartbeat of the worker's thread is bounded, whatever other threads do to store and disk and whenever they
  request cycles. While the process lives, the first cycle has started once two seconds have passed since the start, and after
  every cycle the next one has started once five minutes have passed since it ended: no cycle is left out, however the
  cycles before it ended. The cycles of the worker never overlap, and each one starts at most five minutes after the one before ended.\<close>

theorem worker_cycles_are_regular:
  fixes settings :: "nat \<Rightarrow> cycle_setting" and es :: "worker_event list" and d :: store and w :: world
  defines "run \<equiv> worker_loop settings es (spawn_sync_worker d w)"
  defines "started \<equiv> wk_cycles run" and "now \<equiv> length (filter (\<lambda>e. e = Second) es)"
    and "ended \<equiv> \<lambda>i. wk_cycles run ! i + cs_seconds (settings i)"
  shows "(wk_alive run \<longrightarrow> 2 \<le> now \<longrightarrow> started \<noteq> []) \<and> (started \<noteq> [] \<longrightarrow> started ! 0 \<le> 2)
    \<and> (wk_alive run \<longrightarrow> (\<forall>i < length started. ended i + 300 \<le> now \<longrightarrow> Suc i < length started))
    \<and> (\<forall>i. Suc i < length started \<longrightarrow> ended i \<le> started ! Suc i \<and> started ! Suc i \<le> ended i + 300)
    \<and> (\<forall>t \<in> set started. t \<le> now)"
proof -
  let ?n = "length started"
  have "on_beat settings run" unfolding run_def by (rule on_beat_run)
  moreover have clock: "wk_clock run = now" by (simp add: run_def now_def worker_loop_def clock_counts spawn_sync_worker_def)
  ultimately have beats: "started = map (beat settings) [0..<?n]" "\<forall>t \<in> set started. t \<le> now" "wk_alive run \<Longrightarrow> now < beat settings ?n"
    by (simp_all add: on_beat_def started_def)
  have at: "started ! i = beat settings i" if "i < ?n" for i by (subst beats(1)) (use that in simp)
  have after: "started ! Suc i = ended i + 300" if "Suc i < ?n" for i
    using at [OF that] at [of i] that by (simp add: beat_Suc ended_def started_def)
  have first: "started ! 0 = 2" if "started \<noteq> []" using at [of 0] that by (simp add: beat_def)
  have some: "started \<noteq> []" if "wk_alive run" "2 \<le> now" using beats(3) [OF that(1)] that(2) by (auto simp: beat_def)
  have next_one: "Suc i < ?n" if "wk_alive run" "i < ?n" "ended i + 300 \<le> now" for i
  proof (rule ccontr)
    assume "\<not> Suc i < ?n"
    then have "?n = Suc i" using that(2) by simp
    then show False using beats(3) [OF that(1)] at [OF that(2)] that(3) by (simp add: beat_Suc ended_def started_def)
  qed
  show ?thesis using after first some next_one beats(2) by simp
qed

end
