(* ===== verification/Sync_Samples.thy ===== *)
theory Sync_Samples
  imports Sync_Properties Sync_Worker Materialize
begin

text \<open>
  Concrete cycles, evaluated by the simplifier: a store with a queued update of one skill and a queued
  delete of another, a blob store with one snapshot, and servers that answer in different ways.
\<close>

definition snapshot_hash :: string where
  "snapshot_hash = hash_bytes sample_sha ''M''"

definition sample_blob_env :: blob_env where
  "sample_blob_env = \<lparr>be_codec = sample_codec, be_sha = sample_sha, be_root = [''blobs''], be_error_text = (\<lambda>_. ''blob'')\<rparr>"

definition cycle_env :: sync_env where
  "cycle_env = \<lparr>se_blobs = sample_blob_env, se_pull = sample_env, se_base_url = ''http://a'', se_instance_uuid = ''c1'',
     se_blob_uuid = (\<lambda>_ h. h), se_instant = 7, se_now = 90, se_store_text = (\<lambda>_. ''store'')\<rparr>"

definition queued_row :: "string \<Rightarrow> string \<Rightarrow> mutation_operation \<Rightarrow> mutation_row" where
  "queued_row i skill op = (sample_mutation i skill 1 Pending)\<lparr>mu_operation := op, mu_payload_hash := snapshot_hash\<rparr>"

definition bound_store :: store where
  "bound_store = fresh_store\<lparr>
     skills := [sample_skill ''s1'' (Some ''r1'') Dirty (Some 4), sample_skill ''s2'' None Dirty None],
     mutations := [queued_row ''m1'' ''s1'' Update, queued_row ''m2'' ''s2'' Delete],
     sync := empty_sync\<lparr>sy_client_instance_id := Some ''c1'', sy_device_id := Some ''d1'', sy_server_user_id := Some ''u1'',
       sy_server_url := Some ''http://a'', sy_login_identity := Some ''me''\<rparr>\<rparr>"

definition acknowledge :: "mutation_request \<Rightarrow> mutation_response" where
  "acknowledge q = \<lparr>mr_mutation_id = mq_mutation_id q, mr_status = ''acked'',
     mr_result = Some \<lparr>rs_remote_skill_id = CHR ''r'' # mq_client_skill_id q, rs_revision = 5\<rparr>, mr_conflict = None, mr_error_code = None, mr_message = None\<rparr>"

definition sample_server :: server where
  "sample_server = \<lparr>sv_session = Inr ''token'', sv_register = Inr sample_device, sv_missing = (\<lambda>_ bs. Inr bs),
     sv_upload = (\<lambda>_ _ _. Inr ()), sv_submit = (\<lambda>q. Inr (acknowledge q)),
     sv_page = (\<lambda>_ _. Inr (page_of [])), sv_blob = (\<lambda>_ _. Inl (Network ''offline''))\<rparr>"

definition cycle_world :: world where
  "cycle_world = \<lparr>disk = sample_disk, schedule = []\<rparr>"

definition queue_of :: "store \<Rightarrow> (string \<times> mutation_state) list" where
  "queue_of d = map (\<lambda>m. (mu_id m, mu_state m)) (mutations d)"

text \<open>A cycle with a server that answers: both mutations are acknowledged.\<close>

lemma healthy_cycle:
  "queue_of (store_after (run_cycle cycle_env sample_server bound_store cycle_world)) = [(''m1'', Acked), (''m2'', Acked)]"
  by code_simp

definition expired_server :: server where
  "expired_server = sample_server\<lparr>sv_submit := (\<lambda>q. Inl (Authentication ''TOKEN_EXPIRED'' 401))\<rparr>"

text \<open>Counterexample: an authentication failure of a submission is documented to stop the cycle. The
  cycle goes on and pulls; the mutation stays in flight, and the next cycle, with a server that answers,
  acknowledges the other mutation but never sends this one again.\<close>

theorem refused_submission_is_stranded:
  "case run_cycle cycle_env expired_server bound_store cycle_world of
     Returned report d w \<Rightarrow> cy_pulled report \<and> cy_pages_applied report = 1
       \<and> cy_stopped_reason report = Some ''authentication/device failure: authentication failed: TOKEN_EXPIRED (401)''
       \<and> queue_of d = [(''m1'', InFlight), (''m2'', RetryableError)]
       \<and> queue_of (store_after (run_cycle cycle_env sample_server d w)) = [(''m1'', InFlight), (''m2'', Acked)]
   | _ \<Rightarrow> False"
  by code_simp

section \<open>Witnesses\<close>

lemma bound_store_inv: "outbox_inv bound_store"
  by code_simp

theorem cycle_keeps_unacknowledged_work_witness:
  "still_queued (queued_row ''m1'' ''s1'' Update) (store_after (run_cycle cycle_env expired_server bound_store cycle_world))
   \<and> outbox_inv (store_after (run_cycle cycle_env expired_server bound_store cycle_world))"
proof -
  have m: "queued_row ''m1'' ''s1'' Update \<in> set (mutations bound_store)" "mu_state (queued_row ''m1'' ''s1'' Update) \<noteq> Acked"
    by code_simp+
  show ?thesis
    by (rule cycle_keeps_unacknowledged_work [OF bound_store_inv m]) (simp add: expired_server_def)
qed

text \<open>A server that never stops: the answers after the hundredth page are of no account.\<close>

definition endless_server :: "nat \<Rightarrow> server" where
  "endless_server n = sample_server\<lparr>sv_page := (\<lambda>k _. if k < n then Inr ((page_of [])\<lparr>pg_has_more := True\<rparr>) else Inl (Network ''offline''))\<rparr>"

theorem pull_is_bounded_witness:
  "pull_changes cycle_env (endless_server 100) bound_store cycle_world = pull_changes cycle_env (endless_server 101) bound_store cycle_world"
proof -
  have "sv_page (endless_server 100) n c = sv_page (endless_server 101) n c" if "n < max_pages_per_cycle" for n c
    using that by (simp add: endless_server_def max_pages_per_cycle_def)
  moreover have "sv_blob (endless_server 100) n h = sv_blob (endless_server 101) n h" for n h by (simp add: endless_server_def)
  ultimately show ?thesis
    using pull_is_bounded [of "endless_server 100" "endless_server 101" cycle_env bound_store cycle_world] by blast
qed

definition claimed_pair :: "local_mutation list \<times> store" where
  "claimed_pair = (case claim_dispatchable_mutations 50 90 bound_store of Inr (d, ms) \<Rightarrow> (ms, d) | Inl _ \<Rightarrow> ([], bound_store))"

theorem failed_push_releases_its_tail_witness:
  "\<exists>e d' w'. push_each cycle_env expired_server 0 (fst claimed_pair) (snd claimed_pair) cycle_world = Returned (0, Some e) d' w'
     \<and> map lm_id (fst claimed_pair) = [''m1'', ''m2''] \<and> (\<forall>m \<in> set (mutations d'). mu_state m = InFlight \<longrightarrow> mu_id m \<noteq> ''m2'')"
proof -
  let ?r = "push_each cycle_env expired_server 0 (fst claimed_pair) (snd claimed_pair) cycle_world"
  have "case ?r of Returned (k, f) d' w' \<Rightarrow> k = 0 \<and> f \<noteq> None | _ \<Rightarrow> False" by code_simp
  then obtain e d' w' where r: "?r = Returned (0, Some e) d' w'" by (auto split: ending.splits)
  have ids: "map lm_id (fst claimed_pair) = [''m1'', ''m2'']" by code_simp
  then have "''m2'' \<in> lm_id ` set (drop (0 - 0 + 1) (fst claimed_pair))" by (auto simp: map_eq_Cons_conv)
  then have "\<forall>m \<in> set (mutations d'). mu_state m = InFlight \<longrightarrow> mu_id m \<noteq> ''m2''"
    using failed_push_releases_its_tail [OF r] by metis
  with r ids show ?thesis by (intro exI conjI)
qed

theorem foreign_scope_sends_nothing_witness:
  "run_cycle (cycle_env\<lparr>se_base_url := ''http://b''\<rparr>) expired_server bound_store cycle_world
   = run_cycle (cycle_env\<lparr>se_base_url := ''http://b''\<rparr>) sample_server bound_store cycle_world"
proof -
  have "foreign_scope (cycle_env\<lparr>se_base_url := ''http://b''\<rparr>) sample_server bound_store"
    unfolding foreign_scope_def by (rule disjI1) code_simp
  then show ?thesis using foreign_scope_sends_nothing [of _ sample_server bound_store expired_server cycle_world]
    by (simp add: expired_server_def)
qed

theorem successful_upload_is_complete_witness:
  "\<exists>w'. sync_snapshot_closure sample_blob_env sample_server snapshot_hash cycle_world = Done 2 w'
     \<and> (\<exists>closure. sv_missing sample_server snapshot_hash closure = Inr closure \<and> length closure = 2 \<and> disk w' = disk cycle_world)"
proof -
  let ?r = "sync_snapshot_closure sample_blob_env sample_server snapshot_hash cycle_world"
  have "case ?r of Done n w' \<Rightarrow> n = 2 | _ \<Rightarrow> False" by code_simp
  then obtain w' where r: "?r = Done 2 w'" by (auto split: run.splits)
  then show ?thesis using successful_upload_is_complete [OF r] by (auto simp: sample_server_def)
qed

section \<open>The worker\<close>

text \<open>Five minutes of the worker: other threads request cycles and change the cache budget; both its cycles start on the beat.\<close>

definition five_minutes :: "worker_event list" where
  "five_minutes = Poke # replicate 100 Second @ Poke # Others (\<lambda>(d, x). (d\<lparr>cache_max_bytes := 9\<rparr>, x)) # replicate 210 Second"

definition quick_cycles :: "nat \<Rightarrow> cycle_setting" where
  "quick_cycles i = \<lparr>cs_env = cycle_env, cs_server = expired_server, cs_seconds = 4\<rparr>"

theorem worker_cycles_are_regular_witness:
  "let started = wk_cycles (worker_loop quick_cycles five_minutes (spawn_sync_worker bound_store cycle_world)) in
    1 < length started \<and> started ! 0 \<le> 2 \<and> started ! 0 + 4 \<le> started ! 1 \<and> started ! 1 \<le> 306"
proof -
  let ?k = "worker_loop quick_cycles five_minutes (spawn_sync_worker bound_store cycle_world)"
  have alive: "wk_alive ?k" by code_simp
  have seconds: "cs_seconds (quick_cycles i) = 4" for i by (simp add: quick_cycles_def)
  have clock: "length (filter (\<lambda>e. e = Second) five_minutes) = 310" by (simp add: five_minutes_def filter_replicate)
  note regular = worker_cycles_are_regular [of quick_cycles five_minutes bound_store cycle_world, unfolded seconds clock]
  have first: "wk_cycles ?k \<noteq> []" "wk_cycles ?k ! 0 \<le> 2" using regular alive by simp_all
  have "Suc 0 < length (wk_cycles ?k)" using regular alive first by auto
  then have "wk_cycles ?k ! 0 + 4 \<le> wk_cycles ?k ! Suc 0" "wk_cycles ?k ! Suc 0 \<le> wk_cycles ?k ! 0 + 4 + 300"
    using regular by blast+
  with \<open>Suc 0 < length (wk_cycles ?k)\<close> show ?thesis using first by (simp add: Let_def)
qed

end
