(* ===== verification/Cache_Manager.thy ===== *)
theory Cache_Manager
  imports App Snapshots
begin

text \<open>
  \<open>cache_manager.rs\<close>: when the blobs of the local store exceed the cache budget, the packages of skills
  that can be fetched again are given up, least recently used first, and their unreferenced blobs are
  deleted; then blobs nothing refers to. The order in which hash maps and sets are iterated is arbitrary:
  \<open>cache_env\<close> holds it as functions that reorder the keys.
\<close>

record cache_env =
  ce_codec :: manifest_codec
  ce_sha :: sha
  ce_root :: location
  ce_now :: int
  ce_snapshot_order :: "string list \<Rightarrow> string list"
  ce_closure_order :: "string list \<Rightarrow> string list"

datatype cache_error =
  CacheStore store_error
| CacheBlob blob_error
| CacheSnapshot snapshot_error
| CacheIo io_error
| UnsafeBlobDirectory location
| UnsafeBlobEntry location
| InventoryPathMismatch string location location
| CacheSizeOverflow

text \<open>A line of the report; the code writes it out as text.\<close>

datatype cache_diagnostic =
  SnapshotUnresolved string cache_error
| BlobNotDeleted string string cache_error
| OrphanNotDeleted string cache_error
| StillAboveBudget nat nat

record inventory_entry =
  iv_hash :: string
  iv_path :: location
  iv_size_bytes :: nat

record cache_report =
  cr_budget_bytes :: nat
  cr_before_bytes :: nat
  cr_after_bytes :: nat
  cr_evicted_skills :: "string list"
  cr_deleted_blobs :: nat
  cr_skipped_skills :: "string list"
  cr_diagnostics :: "cache_diagnostic list"

section \<open>The inventory\<close>

definition is_lower_hex :: "string \<Rightarrow> bool" where
  "is_lower_hex v \<longleftrightarrow> list_all is_lower_hexdigit v"

text \<open>The blobs of a shard, and of all shards; every other entry is passed over.\<close>

fun scan_shard :: "location \<Rightarrow> string \<Rightarrow> (string \<times> node) list \<Rightarrow> inventory_entry list" where
  "scan_shard p shard_name [] = []"
| "scan_shard p shard_name ((digest, n) # es) = (case n of
     Plain c \<Rightarrow>
       (if length digest \<noteq> 64 \<or> \<not> is_lower_hex digest \<or> \<not> prefix shard_name digest then scan_shard p shard_name es
        else \<lparr>iv_hash = hash_prefix @ digest, iv_path = p @ [digest], iv_size_bytes = length c\<rparr> # scan_shard p shard_name es)
   | _ \<Rightarrow> scan_shard p shard_name es)"

fun scan_shards :: "location \<Rightarrow> (string \<times> node) list \<Rightarrow> inventory_entry list" where
  "scan_shards p [] = []"
| "scan_shards p ((x, n) # es) = (case n of
     Folder fs \<Rightarrow> (if length x \<noteq> 2 \<or> \<not> is_lower_hex x then scan_shards p es else scan_shard (p @ [x]) x fs @ scan_shards p es)
   | _ \<Rightarrow> scan_shards p es)"

definition scan_blob_inventory :: "location \<Rightarrow> node \<Rightarrow> cache_error + inventory_entry list" where
  "scan_blob_inventory root d = (case stat (root @ [''sha256'']) d of
     stat_result.Missing \<Rightarrow> Inr []
   | Broken \<Rightarrow> Inl (CacheIo NotADirectory)
   | Found (Folder es) \<Rightarrow> Inr (sort_key iv_hash (scan_shards (root @ [''sha256'']) es))
   | Found _ \<Rightarrow> Inl (UnsafeBlobDirectory (root @ [''sha256''])))"

text \<open>\<open>checked_add\<close> on \<open>u64\<close>\<close>

fun total_size :: "nat \<Rightarrow> inventory_entry list \<Rightarrow> cache_error + nat" where
  "total_size n [] = Inr n"
| "total_size n (e # es) = (if 2 ^ 64 \<le> n + iv_size_bytes e then Inl CacheSizeOverflow else total_size (n + iv_size_bytes e) es)"

section \<open>References\<close>

text \<open>\<open>*entry(h).or_default() += n\<close>\<close>

definition count_up :: "nat \<Rightarrow> string \<Rightarrow> (string \<rightharpoonup> nat) \<Rightarrow> (string \<rightharpoonup> nat)" where
  "count_up n h counts = counts(h \<mapsto> or_else (counts h) 0 + n)"

text \<open>The snapshots something on this machine needs, as often as it does: skills with local content,
  deployments and the payloads of unacked mutations.\<close>

definition snapshot_references :: "cache_skill list \<Rightarrow> deployment_record list \<Rightarrow> string list \<Rightarrow> string list" where
  "snapshot_references ss ds payloads =
     map cs_snapshot_hash (filter (\<lambda>s. cs_sync_state s \<noteq> RemoteOnly) ss) @ map dc_blob_hash ds @ payloads"

definition snapshot_reference_counts :: "string list \<Rightarrow> (string \<rightharpoonup> nat)" where
  "snapshot_reference_counts refs = fold (count_up 1) refs Map.empty"

definition closure_of :: "cache_env \<Rightarrow> string \<Rightarrow> (cache_error, string list) io" where
  "closure_of env hash =
     do_then (wrap CacheSnapshot (query SnapIo (read_manifest (ce_codec env) (ce_sha env) (ce_root env) hash default_policy))) (\<lambda>m.
     give (remdups (hash # map sf_blob_hash (sm_files m))))"

record resolution =
  rv_closures :: "string \<rightharpoonup> string list"
  rv_unresolved :: "string list"
  rv_diagnostics :: "cache_diagnostic list"

fun resolve_closures :: "cache_env \<Rightarrow> string list \<Rightarrow> resolution \<Rightarrow> (cache_error, resolution) io" where
  "resolve_closures env [] rv = give rv"
| "resolve_closures env (hash # hashes) rv =
     do_then (attempt (closure_of env hash)) (\<lambda>r. case r of
       Inr c \<Rightarrow> resolve_closures env hashes (rv\<lparr>rv_closures := (rv_closures rv)(hash \<mapsto> c)\<rparr>)
     | Inl e \<Rightarrow> resolve_closures env hashes (rv\<lparr>rv_unresolved := hash # rv_unresolved rv,
         rv_diagnostics := rv_diagnostics rv @ [SnapshotUnresolved hash e]\<rparr>))"

definition reference_counts :: "string list \<Rightarrow> (string \<rightharpoonup> nat) \<Rightarrow> (string \<rightharpoonup> string list) \<Rightarrow> (string \<rightharpoonup> nat)" where
  "reference_counts hashes refs closures = fold (\<lambda>s counts. case closures s of
     None \<Rightarrow> counts | Some c \<Rightarrow> fold (count_up (or_else (refs s) 0)) c counts) hashes Map.empty"

section \<open>Deleting blobs\<close>

definition path_may_exist :: "path \<Rightarrow> (cache_error, bool) io" where
  "path_may_exist p = do_then (attempt (metadata (locate p))) (\<lambda>r. case r of
     Inr _ \<Rightarrow> give True | Inl e \<Rightarrow> give (e \<noteq> io_error.NotFound))"

definition remove_blob_file :: "cache_env \<Rightarrow> inventory_entry \<Rightarrow> (cache_error, bool) io" where
  "remove_blob_file env e =
     do_then (from_result (map_err CacheBlob (path_for_hash (ce_root env) (iv_hash e)))) (\<lambda>canonical.
     if canonical \<noteq> iv_path e then raise (InventoryPathMismatch (iv_hash e) canonical (iv_path e))
     else
       do_then (wrap CacheIo (metadata (butlast (iv_path e)))) (\<lambda>parent.
       if \<not> folder_node parent then raise (UnsafeBlobDirectory (butlast (iv_path e)))
       else
         do_then (attempt (metadata (iv_path e))) (\<lambda>r. case r of
           Inl x \<Rightarrow> if x = io_error.NotFound then give False else raise (CacheIo x)
         | Inr (Plain _) \<Rightarrow>
             do_then (wrap CacheIo (remove_file (iv_path e))) (\<lambda>_.
             do_then (wrap CacheIo (sync_path (butlast (iv_path e)))) (\<lambda>_. give True))
         | Inr _ \<Rightarrow> raise (UnsafeBlobEntry (iv_path e)))))"

text \<open>One deletion and its line in the report.\<close>

definition delete_blob :: "cache_env \<Rightarrow> (cache_error \<Rightarrow> cache_diagnostic) \<Rightarrow> inventory_entry \<Rightarrow> cache_report \<Rightarrow> (cache_error, cache_report) io" where
  "delete_blob env note e report = do_then (attempt (remove_blob_file env e)) (\<lambda>r. case r of
     Inr True \<Rightarrow> give (report\<lparr>cr_after_bytes := cr_after_bytes report - iv_size_bytes e, cr_deleted_blobs := cr_deleted_blobs report + 1\<rparr>)
   | Inr False \<Rightarrow> give report
   | Inl x \<Rightarrow> give (report\<lparr>cr_diagnostics := cr_diagnostics report @ [note x]\<rparr>))"

definition inventory_by_hash :: "inventory_entry list \<Rightarrow> (string \<rightharpoonup> inventory_entry)" where
  "inventory_by_hash inventory = map_of (rev (map (\<lambda>e. (iv_hash e, e)) inventory))"

text \<open>The blobs of an evicted skill: each loses a reference and is deleted with the last.\<close>

fun release_closure :: "cache_env \<Rightarrow> inventory_entry list \<Rightarrow> string \<Rightarrow> string list \<Rightarrow> (string \<rightharpoonup> nat) \<times> cache_report
    \<Rightarrow> (cache_error, (string \<rightharpoonup> nat) \<times> cache_report) io" where
  "release_closure env inventory skill [] s = give s"
| "release_closure env inventory skill (hash # hashes) (counts, report) = (case counts hash of
     None \<Rightarrow> release_closure env inventory skill hashes (counts, report)
   | Some n \<Rightarrow>
       let counts' = counts(hash \<mapsto> n - 1) in
       if n - 1 \<noteq> 0 then release_closure env inventory skill hashes (counts', report)
       else (case inventory_by_hash inventory hash of
         None \<Rightarrow> release_closure env inventory skill hashes (counts', report)
       | Some e \<Rightarrow> do_then (delete_blob env (BlobNotDeleted skill (iv_hash e)) e report) (\<lambda>report'.
           release_closure env inventory skill hashes (counts', report'))))"

fun delete_orphans :: "cache_env \<Rightarrow> nat \<Rightarrow> (string \<rightharpoonup> nat) \<Rightarrow> inventory_entry list \<Rightarrow> cache_report \<Rightarrow> (cache_error, cache_report) io" where
  "delete_orphans env budget counts [] report = give report"
| "delete_orphans env budget counts (e # es) report =
     (if cr_after_bytes report \<le> budget then give report
      else if 0 < or_else (counts (iv_hash e)) 0 then delete_orphans env budget counts es report
      else do_then (delete_blob env (OrphanNotDeleted (iv_hash e)) e report) (delete_orphans env budget counts es))"

section \<open>Evicting skills\<close>

definition is_evictable :: "cache_skill \<Rightarrow> string list \<Rightarrow> (cache_error, bool) io" where
  "is_evictable s deployed =
     (if cs_sync_state s = Synced \<and> \<not> cs_pinned s \<and> cs_remote_id s \<noteq> None \<and> cs_skill_id s \<notin> set deployed
      then do_then (path_may_exist (cs_workspace_path s)) (\<lambda>there. give (\<not> there))
      else give False)"

text \<open>The closure to release when the skill may be evicted as far as the disk shows.\<close>

definition evictable_closure :: "string list \<Rightarrow> resolution \<Rightarrow> cache_skill \<Rightarrow> (cache_error, string list option) io" where
  "evictable_closure deployed rv s =
     do_then (is_evictable s deployed) (\<lambda>evictable.
     if \<not> evictable \<or> cs_snapshot_hash s \<in> set (rv_unresolved rv) then give None
     else (case rv_closures rv (cs_snapshot_hash s) of
       None \<Rightarrow> give None
     | Some c \<Rightarrow> do_then (path_may_exist (cs_workspace_path s)) (\<lambda>there. give (if there then None else Some c))))"

definition skip :: "cache_skill \<Rightarrow> cache_report \<Rightarrow> cache_report" where
  "skip s report = report\<lparr>cr_skipped_skills := cr_skipped_skills report @ [cs_skill_id s]\<rparr>"

definition evict_skill :: "cache_env \<Rightarrow> string list \<Rightarrow> resolution \<Rightarrow> inventory_entry list \<Rightarrow> cache_skill \<Rightarrow> (string \<rightharpoonup> nat) \<times> cache_report
    \<Rightarrow> (cache_error, (string \<rightharpoonup> nat) \<times> cache_report) app" where
  "evict_skill env deployed rv inventory s = (\<lambda>(counts, report).
     app_then (on_disk (evictable_closure deployed rv s)) (\<lambda>found. case found of
       None \<Rightarrow> app_give (counts, skip s report)
     | Some c \<Rightarrow>
         app_then (app_err CacheStore (transact (claim_skill_for_eviction (cs_skill_id s) (cs_snapshot_hash s) (ce_now env)))) (\<lambda>claimed.
         if \<not> claimed then app_give (counts, skip s report)
         else on_disk (release_closure env inventory (cs_skill_id s) (ce_closure_order env c)
                (counts, report\<lparr>cr_evicted_skills := cr_evicted_skills report @ [cs_skill_id s]\<rparr>)))))"

fun evict_skills :: "cache_env \<Rightarrow> nat \<Rightarrow> string list \<Rightarrow> resolution \<Rightarrow> inventory_entry list \<Rightarrow> cache_skill list \<Rightarrow> (string \<rightharpoonup> nat) \<times> cache_report
    \<Rightarrow> (cache_error, (string \<rightharpoonup> nat) \<times> cache_report) app" where
  "evict_skills env budget deployed rv inventory [] s = app_give s"
| "evict_skills env budget deployed rv inventory (c # cs) s =
     (if cr_after_bytes (snd s) \<le> budget then app_give s
      else app_then (evict_skill env deployed rv inventory c s) (evict_skills env budget deployed rv inventory cs))"

definition over_budget :: "cache_env \<Rightarrow> nat \<Rightarrow> cache_skill list \<Rightarrow> deployment_record list \<Rightarrow> string list \<Rightarrow> inventory_entry list
    \<Rightarrow> cache_report \<Rightarrow> (cache_error, cache_report) app" where
  "over_budget env budget ss ds payloads inventory report =
     (let refs = snapshot_references ss ds payloads;
          hashes = ce_snapshot_order env (remdups refs) in
      app_then (on_disk (resolve_closures env hashes \<lparr>rv_closures = Map.empty, rv_unresolved = [], rv_diagnostics = []\<rparr>)) (\<lambda>rv.
      app_then (evict_skills env budget (map dc_skill_id ds) rv inventory
          (sort_key (\<lambda>s. (cs_last_accessed_at s, cs_skill_id s)) ss)
          (reference_counts hashes (snapshot_reference_counts refs) (rv_closures rv), report\<lparr>cr_diagnostics := rv_diagnostics rv\<rparr>))
        (\<lambda>(counts, report).
      app_then (if budget < cr_after_bytes report \<and> rv_unresolved rv = []
                then on_disk (delete_orphans env budget counts (map (the \<circ> inventory_by_hash inventory)
                       (ce_snapshot_order env (remdups (map iv_hash inventory)))) report)
                else app_give report) (\<lambda>report.
      app_give (if budget < cr_after_bytes report
                then report\<lparr>cr_diagnostics := cr_diagnostics report @ [StillAboveBudget (cr_after_bytes report) budget]\<rparr>
                else report)))))"

definition enforce_cache_budget :: "cache_env \<Rightarrow> (cache_error, cache_report) app" where
  "enforce_cache_budget env =
     app_then (app_err CacheStore (store_read cache_policy)) (\<lambda>budget.
     app_then (app_err CacheStore (store_read (\<lambda>d. Inr (list_cache_skills d)))) (\<lambda>ss.
     app_then (app_err CacheStore (store_read (\<lambda>d. Inr (list_deployments d)))) (\<lambda>ds.
     app_then (app_err CacheStore (store_read (\<lambda>d. Inr (list_unacked_mutation_payload_hashes d)))) (\<lambda>payloads.
     app_then (on_disk (query CacheIo (scan_blob_inventory (ce_root env)))) (\<lambda>inventory.
     app_then (app_result (total_size 0 inventory)) (\<lambda>before.
     let report = \<lparr>cr_budget_bytes = budget, cr_before_bytes = before, cr_after_bytes = before, cr_evicted_skills = [],
           cr_deleted_blobs = 0, cr_skipped_skills = [], cr_diagnostics = []\<rparr> in
     if before \<le> budget then app_give report
     else over_budget env budget ss ds payloads inventory report))))))"

end
