(* ===== verification/Cache_Safety.thy ===== *)
theory Cache_Safety
  imports Cache_Manager
begin

text \<open>
  The cache never deletes what is needed. \<open>needed d\<close> are the snapshots something on this machine refers
  to, with multiplicity; \<open>needs\<close> counts for each blob the references whose closure holds it. The reference
  counts of an eviction run never fall below it, however the run ends.
\<close>

section \<open>References and counts\<close>

definition needed :: "store \<Rightarrow> string list" where
  "needed d = snapshot_references (list_cache_skills d) (list_deployments d) (list_unacked_mutation_payload_hashes d)"

definition in_closure :: "(string \<rightharpoonup> string list) \<Rightarrow> string \<Rightarrow> string \<Rightarrow> bool" where
  "in_closure cl h s \<longleftrightarrow> (case cl s of None \<Rightarrow> False | Some c \<Rightarrow> h \<in> set c)"

definition needs :: "(string \<rightharpoonup> string list) \<Rightarrow> string list \<Rightarrow> string \<Rightarrow> nat" where
  "needs cl refs h = length (filter (in_closure cl h) refs)"

definition count :: "(string \<rightharpoonup> nat) \<Rightarrow> string \<Rightarrow> nat" where
  "count counts h = or_else (counts h) 0"

lemma count_count_up: "count (count_up n x counts) h = count counts h + (if h = x then n else 0)"
  by (simp add: count_def count_up_def or_else_def)

lemma count_fold: "count (fold (count_up n) xs counts) h = count counts h + n * count_list xs h"
  by (induction xs arbitrary: counts) (simp_all add: count_count_up)

lemma count_snapshots: "count (snapshot_reference_counts refs) s = count_list refs s"
  by (simp add: snapshot_reference_counts_def count_fold) (simp add: count_def or_else_def)

lemma count_list_distinct: "distinct xs \<Longrightarrow> count_list xs x = (if x \<in> set xs then 1 else 0)"
  by (induction xs) auto

lemma count_references_sum:
  assumes "\<And>s c. cl s = Some c \<Longrightarrow> distinct c"
  shows "count (fold (\<lambda>s counts. case cl s of None \<Rightarrow> counts | Some c \<Rightarrow> fold (count_up (n s)) c counts) hashes counts) h
    = count counts h + sum_list (map (\<lambda>s. if in_closure cl h s then n s else 0) hashes)"
proof (induction hashes arbitrary: counts)
  case (Cons s hashes)
  then show ?case using assms [of s]
    by (cases "cl s") (simp_all add: in_closure_def count_fold count_list_distinct)
qed simp

lemma count_list_filter: "count_list (filter P xs) x = (if P x then count_list xs x else 0)"
  by (induction xs) auto

lemma needs_sum: "distinct hashes \<Longrightarrow> set hashes = set refs \<Longrightarrow>
    sum_list (map (\<lambda>s. if in_closure cl h s then count_list refs s else 0) hashes) = needs cl refs h"
  by (simp add: sum_list_distinct_conv_sum_set count_list_filter [symmetric] needs_def sum_count_set)

lemma count_reference_counts:
  assumes "distinct hashes" and "set hashes = set refs" and "\<And>s c. cl s = Some c \<Longrightarrow> distinct c"
  shows "count (reference_counts hashes (snapshot_reference_counts refs) cl) h = needs cl refs h"
  unfolding reference_counts_def count_snapshots [unfolded count_def]
  by (subst count_references_sum [OF assms(3)]) (simp_all add: needs_sum [OF assms(1,2)] count_def or_else_def)

section \<open>What a claim takes away\<close>

lemma needed_mset:
  "mset (needed d) = mset (map sk_current_blob_hash (filter (\<lambda>r. sk_sync_state r \<noteq> RemoteOnly) (skills d)))
     + mset (map de_blob_hash (deployments d)) + mset (list_unacked_mutation_payload_hashes d)"
  by (simp add: needed_def snapshot_references_def list_cache_skills_def list_deployments_def cache_skill_of_def record_of_def
      filter_map comp_def mset_filter)

lemma update_drops:
  assumes "\<And>r. P r \<Longrightarrow> A r \<and> g r = s" and "\<And>r. \<not> A (f r)"
  shows "mset (map g (filter A xs)) = replicate_mset (sql_count P xs) s + mset (map g (filter A (sql_update P f xs)))"
proof (induction xs)
  case (Cons x xs)
  then show ?case using assms by (cases "P x") (auto simp: sql_count_def)
qed (simp add: sql_count_def)

lemma claim_needed:
  assumes "claim_skill_for_eviction skill expected now d = Inr (d', claimed)"
  obtains k where "mset (needed d) = replicate_mset k expected + mset (needed d')" and "claimed \<longleftrightarrow> k = 1"
proof
  let ?P = "evictable_row d skill expected"
  have d': "d' = update_skills ?P (\<lambda>r. r\<lparr>sk_sync_state := RemoteOnly, sk_updated_at := now\<rparr>) d"
    and c: "claimed \<longleftrightarrow> sql_count ?P (skills d) = 1"
    using assms by (auto simp: claim_skill_for_eviction_def result_simps Let_def)
  show "claimed \<longleftrightarrow> sql_count ?P (skills d) = 1" by (rule c)
  show "mset (needed d) = replicate_mset (sql_count ?P (skills d)) expected + mset (needed d')"
    unfolding needed_mset d'
    by (subst update_drops [of ?P _ sk_current_blob_hash expected "\<lambda>r. r\<lparr>sk_sync_state := RemoteOnly, sk_updated_at := now\<rparr>"])
      (auto simp: evictable_row_def update_skills_def list_unacked_mutation_payload_hashes_def)
qed

lemma needs_mset: "needs cl refs h = size (filter_mset (in_closure cl h) (mset refs))"
  by (simp add: needs_def flip: mset_filter)

lemma claim_needs:
  assumes "claim_skill_for_eviction skill expected now d = Inr (d', claimed)"
  shows "set (needed d') \<subseteq> set (needed d)" and "needs cl (needed d') h \<le> needs cl (needed d) h"
    and "claimed \<Longrightarrow> in_closure cl h expected \<Longrightarrow> needs cl (needed d') h + 1 \<le> needs cl (needed d) h"
proof -
  obtain k where k: "mset (needed d) = replicate_mset k expected + mset (needed d')" "claimed \<longleftrightarrow> k = 1"
    using claim_needed [OF assms] .
  show "set (needed d') \<subseteq> set (needed d)"
    using arg_cong [OF k(1), of set_mset] by auto
  show "needs cl (needed d') h \<le> needs cl (needed d) h" by (simp add: needs_mset k(1))
  show "needs cl (needed d') h + 1 \<le> needs cl (needed d) h" if "claimed" "in_closure cl h expected"
    using that k(2) by (simp add: needs_mset k(1))
qed

section \<open>Deleting only what is not needed\<close>

text \<open>\<open>kept env N x0 x\<close>: the blobs \<open>N\<close> read as before, and only the blob directory may have changed.\<close>

definition kept_blobs :: "cache_env \<Rightarrow> string set \<Rightarrow> node \<Rightarrow> node \<Rightarrow> bool" where
  "kept_blobs env N x0 x \<longleftrightarrow> tree.away (ce_root env @ [''sha256'']) x0 x
     \<and> (is_folder (ce_root env @ [''sha256'']) x0 \<longrightarrow> is_folder (ce_root env @ [''sha256'']) x)
     \<and> (\<forall>h \<in> N. \<forall>p. path_for_hash (ce_root env) h = Inr p \<longrightarrow> entry p x = entry p x0)"

lemma kept_blobs_refl: "kept_blobs env N x x"
  by (simp add: kept_blobs_def tree.away_refl)

lemma kept_blobs_mono: "kept_blobs env N x0 x \<Longrightarrow> M \<subseteq> N \<Longrightarrow> kept_blobs env M x0 x"
  by (auto simp: kept_blobs_def)

lemma paths_unrelated:
  assumes "path_for_hash root h = Inr p" and "path_for_hash root k = Inr q" and "h \<noteq> k" shows "unrelated p q"
proof -
  have "length p = length q" and "p \<noteq> q" using assms by (auto simp: path_for_hash_Inr)
  then show ?thesis unfolding unrelated_def by (metis prefix_order.antisym prefix_length_less strict_prefix_def less_irrefl)
qed

lemma kept_blobs_read:
  assumes "kept_blobs env N x0 x" and "h \<in> N" and "read_blob (ce_sha env) (ce_root env) h x0 = Inr c"
  shows "read_blob (ce_sha env) (ce_root env) h x = Inr c"
proof -
  let ?r = "ce_root env"
  obtain p where p: "is_folder ?r x0" "is_folder (?r @ [''sha256'']) x0" "path_for_hash ?r h = Inr p" "entry p x0 = Some (Plain c)"
      "hash_bytes (ce_sha env) c = h"
    using assms(3) by (auto simp: read_blob_Inr)
  have up: "strict_prefix ?r (?r @ [''sha256''])" by (simp add: strict_prefix_def)
  have k: "tree.away (?r @ [''sha256'']) x0 x" "is_folder (?r @ [''sha256'']) x" "entry p x = entry p x0"
    using assms(1,2) p(2,3) by (auto simp: kept_blobs_def)
  show ?thesis unfolding read_blob_Inr using tree.away_folder [OF k(1) up p(1)] k(2,3) p(3-5) by simp
qed

lemma keeps_remove_blob_file:
  assumes "iv_hash e \<notin> N"
  shows "keeps (kept_blobs env N x0) (remove_blob_file env e)"
proof (cases "path_for_hash (ce_root env) (iv_hash e)")
  case (Inl x)
  have "remove_blob_file env e = raise (CacheBlob x)"
    by (rule ext) (simp add: remove_blob_file_def Inl from_result_def do_then_def raise_def)
  then show ?thesis by (simp add: keeps_rules)
next
  case (Inr p)
  obtain v where p: "p = (ce_root env @ [''sha256'']) @ [take 2 v, v]" using Inr by (auto simp: path_for_hash_Inr)
  have step: "kept_blobs env N x0 d'" if k: "kept_blobs env N x0 d" and a: "tree.away p d d'" for d d'
  proof -
    have "tree.away (ce_root env @ [''sha256'']) d d'" using tree.away_inside a [unfolded p] by blast
    moreover have "is_folder (ce_root env @ [''sha256'']) d \<longrightarrow> is_folder (ce_root env @ [''sha256'']) d'"
      using tree.away_folder [OF a] unfolding p by (auto simp: strict_prefix_def)
    moreover have "entry q d' = entry q d" if "h \<in> N" "path_for_hash (ce_root env) h = Inr q" for h q
      using tree.away_entry [OF a paths_unrelated [OF Inr that(2)]] that(1) assms by blast
    ultimately show ?thesis using k by (auto simp: kept_blobs_def intro: tree.away_trans)
  qed
  have remove: "keeps (kept_blobs env N x0) (remove_file p)"
    by (rule keeps_confined [OF confined_writes(5)]) (rule step)
  show ?thesis
  proof (cases "p = iv_path e")
    case True
    have "do_then (from_result (Inr p)) f = f p" for f :: "location \<Rightarrow> (cache_error, bool) io"
      by (rule ext) (simp add: do_then_def from_result_def give_def)
    then show ?thesis unfolding remove_blob_file_def Inr map_err_simps using remove True
      by (auto intro!: keeps_rules)
  next
    case False
    then have "remove_blob_file env e = raise (InventoryPathMismatch (iv_hash e) p (iv_path e))"
      by (auto simp: remove_blob_file_def Inr from_result_def do_then_def give_def)
    then show ?thesis by (simp add: keeps_rules)
  qed
qed

lemma keeps_delete_blob: "iv_hash e \<notin> N \<Longrightarrow> keeps (kept_blobs env N x0) (delete_blob env note e report)"
  unfolding delete_blob_def
  by (intro keeps_rules keeps_remove_blob_file) (auto split: sum.split bool.split intro: keeps_rules)

text \<open>The blobs with a positive need, for any bound \<open>need\<close> on the references that are left.\<close>

definition wanted :: "(string \<Rightarrow> nat) \<Rightarrow> string set" where
  "wanted need = {h. 0 < need h}"

definition covers :: "(string \<Rightarrow> nat) \<Rightarrow> (string \<rightharpoonup> nat) \<Rightarrow> bool" where
  "covers need counts \<longleftrightarrow> (\<forall>h. need h \<le> count counts h)"

lemma inventory_by_hash_Some: "inventory_by_hash inventory h = Some e \<Longrightarrow> iv_hash e = h"
  by (auto simp: inventory_by_hash_def dest!: map_of_SomeD)

lemma wlp_delete_blob:
  assumes "iv_hash e \<notin> N" and "kept_blobs env N x0 x" and "\<And>r x'. kept_blobs env N x0 x' \<Longrightarrow> wlp F (f r) Q E H x'"
    and "\<And>e x'. kept_blobs env N x0 x' \<Longrightarrow> E e x'" and "\<And>x'. kept_blobs env N x0 x' \<Longrightarrow> H x'"
  shows "wlp F (do_then (delete_blob env note e report) f) Q E H x"
  by (rule wlp_keeps_seq [OF keeps_delete_blob [OF assms(1)] assms(2)]) (use assms(3-5) in auto)

lemma wlp_release_closure:
  assumes "distinct hashes" and "\<And>h. need h + (if h \<in> set hashes then 1 else 0) \<le> count counts h"
    and "kept_blobs env (wanted need) x0 x"
  shows "wlp F (release_closure env inventory skill hashes (counts, report))
    (\<lambda>a x'. covers need (fst a) \<and> kept_blobs env (wanted need) x0 x') (\<lambda>_. kept_blobs env (wanted need) x0) (kept_blobs env (wanted need) x0) x"
  using assms
proof (induction hashes arbitrary: counts report x)
  case Nil
  then show ?case by (auto simp: covers_def intro!: wlp_give)
next
  case (Cons hash hashes)
  obtain n where n: "counts hash = Some n" "need hash + 1 \<le> n"
    using Cons.prems(2) [where h = hash] by (cases "counts hash") (auto simp: count_def or_else_def)
  let ?c = "counts(hash \<mapsto> n - 1)"
  have left: "need h + (if h \<in> set hashes then 1 else 0) \<le> count ?c h" for h
    using Cons.prems(1) Cons.prems(2) [of h] n by (cases "h = hash") (auto simp: count_def or_else_def)
  have next_hash: "wlp F (release_closure env inventory skill hashes (?c, report'))
      (\<lambda>a x'. covers need (fst a) \<and> kept_blobs env (wanted need) x0 x') (\<lambda>_. kept_blobs env (wanted need) x0) (kept_blobs env (wanted need) x0) x'"
    if "kept_blobs env (wanted need) x0 x'" for report' x'
    by (rule Cons.IH [OF _ left that]) (use Cons.prems(1) in simp)
  show ?case
  proof (cases "n - 1 \<noteq> 0")
    case True
    then show ?thesis using next_hash [OF Cons.prems(3)] n(1) by (simp add: Let_def)
  next
    case False
    then have free: "hash \<notin> wanted need" using n(2) by (simp add: wanted_def)
    show ?thesis
    proof (cases "inventory_by_hash inventory hash")
      case None
      then show ?thesis using False next_hash [OF Cons.prems(3)] n(1) by (simp add: Let_def)
    next
      case (Some e)
      then show ?thesis using False n(1) inventory_by_hash_Some [OF Some] free next_hash
        by (auto simp: Let_def intro!: wlp_delete_blob [OF _ Cons.prems(3)])
    qed
  qed
qed

lemma keeps_delete_orphans:
  assumes "covers need counts" shows "keeps (kept_blobs env (wanted need) x0) (delete_orphans env budget counts es report)"
proof (induction es arbitrary: report)
  case (Cons e es)
  have "iv_hash e \<notin> wanted need" if "\<not> 0 < or_else (counts (iv_hash e)) 0"
    using assms that unfolding covers_def wanted_def count_def by (metis le_zero_eq mem_Collect_eq neq0_conv)
  then show ?case using Cons.IH by (auto intro!: keeps_rules keeps_delete_blob)
qed (simp add: keeps_rules)

lemma keeps_path_may_exist: "keeps P (path_may_exist p)"
  unfolding path_may_exist_def by (intro keeps_rules)

lemma wlp_evictable_closure:
  assumes "P x"
  shows "wlp F (evictable_closure deployed rv s) (\<lambda>r x'. P x' \<and> (\<forall>c. r = Some c \<longrightarrow> rv_closures rv (cs_snapshot_hash s) = Some c)) (\<lambda>_. P) P x"
proof -
  have e: "keeps P (is_evictable s deployed)"
    unfolding is_evictable_def by (intro keeps_rules keeps_path_may_exist)
  show ?thesis unfolding evictable_closure_def
    by (rule wlp_keeps_seq [OF e assms])
      (auto split: option.split if_splits intro!: wlp_give wlp_keeps_seq [OF keeps_path_may_exist])
qed

section \<open>The run\<close>

text \<open>The invariant of the eviction loop, over the snapshots \<open>refs0\<close> needed at its start.\<close>

definition cache_inv :: "cache_env \<Rightarrow> (string \<rightharpoonup> string list) \<Rightarrow> string list \<Rightarrow> node \<Rightarrow> store \<Rightarrow> node \<Rightarrow> bool" where
  "cache_inv env cl refs0 x0 d x \<longleftrightarrow> set (needed d) \<subseteq> set refs0 \<and> kept_blobs env (wanted (needs cl (needed d))) x0 x"

lemma awp_evict_skill:
  assumes order: "\<And>xs. distinct xs \<Longrightarrow> distinct (ce_closure_order env xs)" "\<And>xs. set (ce_closure_order env xs) = set xs"
    and cl: "\<And>s c. rv_closures rv s = Some c \<Longrightarrow> distinct c"
    and inv: "cache_inv env (rv_closures rv) refs0 x0 d x" and cov: "covers (needs (rv_closures rv) (needed d)) counts"
  shows "awp F (evict_skill env deployed rv inventory s (counts, report))
    (\<lambda>a d' x'. cache_inv env (rv_closures rv) refs0 x0 d' x' \<and> covers (needs (rv_closures rv) (needed d')) (fst a))
    (\<lambda>_. cache_inv env (rv_closures rv) refs0 x0) (cache_inv env (rv_closures rv) refs0 x0) d x"
proof -
  let ?cl = "rv_closures rv" and ?I = "cache_inv env (rv_closures rv) refs0 x0"
  show ?thesis unfolding evict_skill_def prod.case
  proof (rule awp_then)
    show "awp F (on_disk (evictable_closure deployed rv s)) (\<lambda>r d' x'. d' = d \<and> ?I d x' \<and> (\<forall>c. r = Some c \<longrightarrow> ?cl (cs_snapshot_hash s) = Some c))
      (\<lambda>_. ?I) ?I d x"
      by (rule awp_on_disk, rule wlp_mono [OF wlp_evictable_closure [of "?I d", OF inv]]) auto
  next
    fix r d1 x1 assume r: "d1 = d \<and> ?I d x1 \<and> (\<forall>c. r = Some c \<longrightarrow> ?cl (cs_snapshot_hash s) = Some c)"
    then have d1: "d1 = d" and I: "?I d x1" by simp_all
    show "awp F (case r of None \<Rightarrow> app_give (counts, skip s report)
       | Some c \<Rightarrow> app_then (app_err CacheStore (transact (claim_skill_for_eviction (cs_skill_id s) (cs_snapshot_hash s) (ce_now env)))) (\<lambda>claimed.
         if \<not> claimed then app_give (counts, skip s report)
         else on_disk (release_closure env inventory (cs_skill_id s) (ce_closure_order env c)
                (counts, report\<lparr>cr_evicted_skills := cr_evicted_skills report @ [cs_skill_id s]\<rparr>))))
      (\<lambda>a d' x'. ?I d' x' \<and> covers (needs ?cl (needed d')) (fst a)) (\<lambda>_. ?I) ?I d1 x1"
    proof (cases r)
      case None
      then show ?thesis using I cov d1 by (auto intro!: awp_give)
    next
      case (Some c)
      then have c: "?cl (cs_snapshot_hash s) = Some c" using r by simp
      show ?thesis unfolding Some option.case d1
      proof (rule awp_then)
        show "awp F (app_err CacheStore (transact (claim_skill_for_eviction (cs_skill_id s) (cs_snapshot_hash s) (ce_now env))))
          (\<lambda>claimed d' x'. x' = x1 \<and> claim_skill_for_eviction (cs_skill_id s) (cs_snapshot_hash s) (ce_now env) d = Inr (d', claimed))
          (\<lambda>_. ?I) ?I d x1"
          by (rule awp_err, rule awp_transact) (use I in auto)
      next
        fix claimed d2 x2
        assume a: "x2 = x1 \<and> claim_skill_for_eviction (cs_skill_id s) (cs_snapshot_hash s) (ce_now env) d = Inr (d2, claimed)"
        note n = claim_needs(1) [OF conjunct2 [OF a]] claim_needs(2,3) [OF conjunct2 [OF a], of ?cl]
        have sub: "wanted (needs ?cl (needed d2)) \<subseteq> wanted (needs ?cl (needed d))"
          using n(2) by (auto simp: wanted_def intro: less_le_trans)
        have I2: "?I d2 x2" using I n(1) a kept_blobs_mono [OF _ sub] by (auto simp: cache_inv_def)
        have cov2: "covers (needs ?cl (needed d2)) counts" using cov n(2) by (auto simp: covers_def intro: le_trans)
        have out: "wlp F (release_closure env inventory (cs_skill_id s) (ce_closure_order env c)
                (counts, report\<lparr>cr_evicted_skills := cr_evicted_skills report @ [cs_skill_id s]\<rparr>))
           (\<lambda>a x'. ?I d2 x' \<and> covers (needs ?cl (needed d2)) (fst a)) (\<lambda>_. ?I d2) (?I d2) x2" if claimed
        proof -
          have "needs ?cl (needed d2) h + (if h \<in> set (ce_closure_order env c) then 1 else 0) \<le> count counts h" for h
          proof (cases "h \<in> set c")
            case True
            then have "in_closure ?cl h (cs_snapshot_hash s)" by (simp add: in_closure_def c)
            then show ?thesis using claim_needs(3) [OF conjunct2 [OF a] that, of ?cl h] cov order(2) True by (auto simp: covers_def intro: le_trans)
          next
            case False
            then show ?thesis using cov2 order(2) by (simp add: covers_def)
          qed
          moreover have "kept_blobs env (wanted (needs ?cl (needed d2))) x0 x2" using I2 by (simp add: cache_inv_def)
          ultimately show ?thesis
            by (intro wlp_mono [OF wlp_release_closure [OF order(1) [OF cl [OF c]]]]) (use I2 in \<open>auto simp: cache_inv_def\<close>)
        qed
        show "awp F (if \<not> claimed then app_give (counts, skip s report)
         else on_disk (release_closure env inventory (cs_skill_id s) (ce_closure_order env c)
                (counts, report\<lparr>cr_evicted_skills := cr_evicted_skills report @ [cs_skill_id s]\<rparr>)))
           (\<lambda>a d' x'. ?I d' x' \<and> covers (needs ?cl (needed d')) (fst a)) (\<lambda>_. ?I) ?I d2 x2"
          by (cases claimed) (use I2 cov2 out in \<open>auto intro!: awp_give awp_on_disk\<close>)
      qed simp_all
    qed
  qed simp_all
qed

definition orders_ok :: "cache_env \<Rightarrow> bool" where
  "orders_ok env \<longleftrightarrow> (\<forall>xs. distinct xs \<longrightarrow> distinct (ce_snapshot_order env xs) \<and> distinct (ce_closure_order env xs))
     \<and> (\<forall>xs. set (ce_snapshot_order env xs) = set xs \<and> set (ce_closure_order env xs) = set xs)"

lemma awp_evict_skills:
  assumes "orders_ok env" and cl: "\<And>s c. rv_closures rv s = Some c \<Longrightarrow> distinct c"
    and "cache_inv env (rv_closures rv) refs0 x0 d x" and "covers (needs (rv_closures rv) (needed d)) (fst s)"
  shows "awp F (evict_skills env budget deployed rv inventory cs s)
    (\<lambda>a d' x'. cache_inv env (rv_closures rv) refs0 x0 d' x' \<and> covers (needs (rv_closures rv) (needed d')) (fst a))
    (\<lambda>_. cache_inv env (rv_closures rv) refs0 x0) (cache_inv env (rv_closures rv) refs0 x0) d x"
  using assms(3,4)
proof (induction cs arbitrary: s d x)
  case Nil
  then show ?case by (auto intro: awp_give)
next
  case (Cons c cs)
  obtain counts report where s: "s = (counts, report)" by (cases s)
  have "awp F (app_then (evict_skill env deployed rv inventory c s) (evict_skills env budget deployed rv inventory cs))
    (\<lambda>a d' x'. cache_inv env (rv_closures rv) refs0 x0 d' x' \<and> covers (needs (rv_closures rv) (needed d')) (fst a))
    (\<lambda>_. cache_inv env (rv_closures rv) refs0 x0) (cache_inv env (rv_closures rv) refs0 x0) d x"
    unfolding s
    by (rule awp_then [OF awp_evict_skill]) (use assms(1) cl Cons s in \<open>auto simp: orders_ok_def\<close>)
  then show ?case using Cons.prems by (auto intro: awp_give)
qed

text \<open>What the resolution finds when no read fails by accident.\<close>

definition closure_on :: "cache_env \<Rightarrow> node \<Rightarrow> string \<Rightarrow> string list option" where
  "closure_on env x s = (case read_manifest (ce_codec env) (ce_sha env) (ce_root env) s default_policy x of
     Inl _ \<Rightarrow> None | Inr m \<Rightarrow> Some (remdups (s # map sf_blob_hash (sm_files m))))"

definition resolves :: "cache_env \<Rightarrow> node \<Rightarrow> string set \<Rightarrow> resolution \<Rightarrow> bool" where
  "resolves env x S rv \<longleftrightarrow> (\<forall>s c. rv_closures rv s = Some c \<longrightarrow> closure_on env x s = Some c) \<and> (\<forall>s \<in> S. rv_closures rv s = closure_on env x s)"

lemma resolvesD:
  "resolves env x S rv \<Longrightarrow> rv_closures rv s = Some c \<Longrightarrow> closure_on env x s = Some c"
  "resolves env x S rv \<Longrightarrow> s \<in> S \<Longrightarrow> rv_closures rv s = closure_on env x s"
  unfolding resolves_def by blast+

lemma resolves_step:
  assumes "resolves env x S rv"
  shows "closure_on env x hash = Some c \<Longrightarrow> resolves env x (insert hash S) (rv\<lparr>rv_closures := (rv_closures rv)(hash \<mapsto> c)\<rparr>)"
    and "closure_on env x hash = None \<Longrightarrow> resolves env x (insert hash S) (rv\<lparr>rv_unresolved := u, rv_diagnostics := l\<rparr>)"
proof -
  show "resolves env x (insert hash S) (rv\<lparr>rv_closures := (rv_closures rv)(hash \<mapsto> c)\<rparr>)" if "closure_on env x hash = Some c"
    unfolding resolves_def
  proof (intro conjI allI impI ballI)
    show "closure_on env x s = Some c'" if "rv_closures (rv\<lparr>rv_closures := (rv_closures rv)(hash \<mapsto> c)\<rparr>) s = Some c'" for s c'
      using resolvesD(1) [OF assms, of s c'] that \<open>closure_on env x hash = Some c\<close> by (cases "s = hash") simp_all
    show "rv_closures (rv\<lparr>rv_closures := (rv_closures rv)(hash \<mapsto> c)\<rparr>) s = closure_on env x s" if "s \<in> insert hash S" for s
      using resolvesD(2) [OF assms, of s] that \<open>closure_on env x hash = Some c\<close> by (cases "s = hash") simp_all
  qed
  show "resolves env x (insert hash S) (rv\<lparr>rv_unresolved := u, rv_diagnostics := l\<rparr>)" if none: "closure_on env x hash = None"
  proof -
    have "rv_closures rv hash = None" using none resolvesD(1) [OF assms, of hash] by (cases "rv_closures rv hash") auto
    then have "rv_closures rv hash = closure_on env x hash" using none by simp
    moreover have "rv_closures (rv\<lparr>rv_unresolved := u, rv_diagnostics := l\<rparr>) = rv_closures rv" by simp
    ultimately show ?thesis using assms unfolding resolves_def by (metis insertE)
  qed
qed

lemma wlp_resolve_closures:
  assumes "\<And>k. Fail k \<notin> F" and "resolves env x S rv"
  shows "wlp F (resolve_closures env hashes rv) (\<lambda>rv' x'. x' = x \<and> resolves env x (S \<union> set hashes) rv') (\<lambda>_ x'. x' = x) (\<lambda>x'. x' = x) x"
  using assms(2)
proof (induction hashes arbitrary: rv S)
  case Nil
  then show ?case by (simp add: wlp_give)
next
  case (Cons hash hashes)
  have c: "wlp F (closure_of env hash) (\<lambda>c x'. x' = x \<and> closure_on env x hash = Some c) (\<lambda>e x'. x' = x \<and> closure_on env x hash = None) (\<lambda>x'. x' = x) x"
    unfolding closure_of_def
    by (rule wlp_do_then, rule wlp_wrap, rule wlp_query) (simp_all add: closure_on_def assms(1) wlp_give)
  have sets: "S \<union> set (hash # hashes) = insert hash S \<union> set hashes" by auto
  show ?case unfolding resolve_closures.simps sets
  proof (rule wlp_try [OF c])
    fix c x' assume a: "x' = x \<and> closure_on env x hash = Some c"
    show "wlp F (case Inr c of
        Inr c \<Rightarrow> resolve_closures env hashes (rv\<lparr>rv_closures := (rv_closures rv)(hash \<mapsto> c)\<rparr>)
      | Inl e \<Rightarrow> resolve_closures env hashes (rv\<lparr>rv_unresolved := hash # rv_unresolved rv, rv_diagnostics := rv_diagnostics rv @ [SnapshotUnresolved hash e]\<rparr>))
      (\<lambda>rv' x'. x' = x \<and> resolves env x (insert hash S \<union> set hashes) rv') (\<lambda>_ x'. x' = x) (\<lambda>x'. x' = x) x'"
      unfolding sum.case conjunct1 [OF a] by (rule Cons.IH [OF resolves_step(1) [OF Cons.prems conjunct2 [OF a]]])
  next
    fix e x' assume a: "x' = x \<and> closure_on env x hash = None"
    show "wlp F (case Inl e of
        Inr c \<Rightarrow> resolve_closures env hashes (rv\<lparr>rv_closures := (rv_closures rv)(hash \<mapsto> c)\<rparr>)
      | Inl e \<Rightarrow> resolve_closures env hashes (rv\<lparr>rv_unresolved := hash # rv_unresolved rv, rv_diagnostics := rv_diagnostics rv @ [SnapshotUnresolved hash e]\<rparr>))
      (\<lambda>rv' x'. x' = x \<and> resolves env x (insert hash S \<union> set hashes) rv') (\<lambda>_ x'. x' = x) (\<lambda>x'. x' = x) x'"
      unfolding sum.case conjunct1 [OF a] by (rule Cons.IH [OF resolves_step(2) [OF Cons.prems conjunct2 [OF a]]])
  qed simp_all
qed

text \<open>The blobs of every snapshot that is still needed and could be read before read as before.\<close>

definition still_stored :: "cache_env \<Rightarrow> node \<Rightarrow> store \<Rightarrow> node \<Rightarrow> bool" where
  "still_stored env x0 d x \<longleftrightarrow> tree.away (ce_root env @ [''sha256'']) x0 x \<and>
     (\<forall>s \<in> set (needed d). \<forall>m. read_manifest (ce_codec env) (ce_sha env) (ce_root env) s default_policy x0 = Inr m \<longrightarrow>
        (\<forall>h \<in> insert s (sf_blob_hash ` set (sm_files m)). \<forall>c. read_blob (ce_sha env) (ce_root env) h x0 = Inr c
           \<longrightarrow> read_blob (ce_sha env) (ce_root env) h x = Inr c))"

lemma still_stored_refl: "still_stored env x d x"
  by (simp add: still_stored_def tree.away_refl)

lemma needs_pos: "s \<in> set refs \<Longrightarrow> in_closure cl h s \<Longrightarrow> h \<in> wanted (needs cl refs)"
  by (auto simp: wanted_def needs_def filter_empty_conv)

lemma cache_inv_stored:
  assumes "cache_inv env cl refs0 x0 d x" and "\<And>s. s \<in> set refs0 \<Longrightarrow> cl s = closure_on env x0 s"
  shows "still_stored env x0 d x"
proof -
  have "h \<in> wanted (needs cl (needed d))"
    if "s \<in> set (needed d)" "read_manifest (ce_codec env) (ce_sha env) (ce_root env) s default_policy x0 = Inr m"
      "h \<in> insert s (sf_blob_hash ` set (sm_files m))" for s m h
  proof (rule needs_pos [OF that(1)])
    have "cl s = Some (remdups (s # map sf_blob_hash (sm_files m)))"
      using that(1,2) assms by (auto simp: cache_inv_def closure_on_def)
    then show "in_closure cl h s" unfolding in_closure_def using that(3) by (simp del: remdups.simps)
  qed
  then show ?thesis
    using assms(1) kept_blobs_read unfolding still_stored_def cache_inv_def by (metis kept_blobs_def)
qed

lemma awp_over_budget:
  assumes "orders_ok env" and F: "\<And>k. Fail k \<notin> F" and refs: "snapshot_references ss ds payloads = needed d"
  shows "awp F (over_budget env budget ss ds payloads inventory report)
    (\<lambda>_. still_stored env x) (\<lambda>_. still_stored env x) (still_stored env x) d x"
proof -
  let ?hashes = "ce_snapshot_order env (remdups (needed d))"
  have hashes: "distinct ?hashes" "set ?hashes = set (needed d)" using assms(1) by (simp_all add: orders_ok_def)
  have start: "resolves env x {} \<lparr>rv_closures = Map.empty, rv_unresolved = [], rv_diagnostics = []\<rparr>" by (simp add: resolves_def)
  show ?thesis unfolding over_budget_def Let_def refs
  proof (rule awp_then)
    show "awp F (on_disk (resolve_closures env ?hashes \<lparr>rv_closures = Map.empty, rv_unresolved = [], rv_diagnostics = []\<rparr>))
      (\<lambda>rv d' x'. d' = d \<and> x' = x \<and> resolves env x (set (needed d)) rv) (\<lambda>_ d' x'. d' = d \<and> x' = x) (\<lambda>d' x'. d' = d \<and> x' = x) d x"
      by (rule awp_on_disk, rule wlp_mono [OF wlp_resolve_closures [OF F start]]) (simp_all add: hashes(2))
  next
    fix rv d1 x1
    assume rv: "d1 = d \<and> x1 = x \<and> resolves env x (set (needed d)) rv"
    let ?cl = "rv_closures rv"
    have dist: "distinct c" if "?cl s = Some c" for s c
    proof -
      have "closure_on env x s = Some c" using rv that by (simp add: resolves_def)
      then show ?thesis by (auto simp: closure_on_def split: sum.splits)
    qed
    have cov: "covers (needs ?cl (needed d)) (reference_counts ?hashes (snapshot_reference_counts (needed d)) ?cl)"
      using count_reference_counts [OF hashes dist] by (simp add: covers_def)
    have inv: "cache_inv env ?cl (needed d) x d x" by (simp add: cache_inv_def kept_blobs_refl)
    have out: "still_stored env x d' x'" if "cache_inv env ?cl (needed d) x d' x'" for d' x'
      using cache_inv_stored [OF that] rv unfolding resolves_def by blast
    show "awp F (app_then (evict_skills env budget (map dc_skill_id ds) rv inventory
          (sort_key (\<lambda>s. (cs_last_accessed_at s, cs_skill_id s)) ss)
          (reference_counts ?hashes (snapshot_reference_counts (needed d)) (rv_closures rv), report\<lparr>cr_diagnostics := rv_diagnostics rv\<rparr>))
        (\<lambda>(counts, report).
      app_then (if budget < cr_after_bytes report \<and> rv_unresolved rv = []
                then on_disk (delete_orphans env budget counts (map (the \<circ> inventory_by_hash inventory)
                       (ce_snapshot_order env (remdups (map iv_hash inventory)))) report)
                else app_give report) (\<lambda>report.
      app_give (if budget < cr_after_bytes report
                then report\<lparr>cr_diagnostics := cr_diagnostics report @ [StillAboveBudget (cr_after_bytes report) budget]\<rparr>
                else report))))
      (\<lambda>_. still_stored env x) (\<lambda>_. still_stored env x) (still_stored env x) d1 x1"
      unfolding conjunct1 [OF rv] conjunct1 [OF conjunct2 [OF rv]]
    proof (rule awp_then [OF awp_evict_skills [OF assms(1) dist inv]])
      fix a :: "(string \<rightharpoonup> nat) \<times> cache_report" and d2 x2
      assume a: "cache_inv env ?cl (needed d) x d2 x2 \<and> covers (needs ?cl (needed d2)) (fst a)"
      obtain counts report' where p: "a = (counts, report')" by (cases a)
      have orphans: "keeps (kept_blobs env (wanted (needs ?cl (needed d2))) x) (delete_orphans env budget counts es report')" for es
        by (rule keeps_delete_orphans) (use a p in simp)
      have kept: "kept_blobs env (wanted (needs ?cl (needed d2))) x x2" "set (needed d2) \<subseteq> set (needed d)"
        using a by (simp_all add: cache_inv_def)
      have end_state: "still_stored env x d2 x'" if "kept_blobs env (wanted (needs ?cl (needed d2))) x x'" for x'
        by (rule out) (use that kept in \<open>simp add: cache_inv_def\<close>)
      show "awp F (case a of (counts, report) \<Rightarrow>
          app_then (if budget < cr_after_bytes report \<and> rv_unresolved rv = []
                then on_disk (delete_orphans env budget counts (map (the \<circ> inventory_by_hash inventory)
                       (ce_snapshot_order env (remdups (map iv_hash inventory)))) report)
                else app_give report) (\<lambda>report.
          app_give (if budget < cr_after_bytes report
                then report\<lparr>cr_diagnostics := cr_diagnostics report @ [StillAboveBudget (cr_after_bytes report) budget]\<rparr>
                else report)))
        (\<lambda>_. still_stored env x) (\<lambda>_. still_stored env x) (still_stored env x) d2 x2"
        unfolding p prod.case
        by (rule awp_then [where R = "\<lambda>_. still_stored env x" and ER = "\<lambda>_. still_stored env x" and HR = "still_stored env x"])
          (use end_state kept in \<open>auto intro!: awp_give awp_on_disk wlp_mono [OF keepsD [OF orphans kept(1)]]\<close>)
    qed (use cov out in auto)
  qed (auto simp: still_stored_refl)
qed

lemma awp_read_then:
  assumes "\<And>a. f d = Inr a \<Longrightarrow> awp F (g a) Q E H d x" and "\<And>e. E e d x" and "H d x"
  shows "awp F (app_then (app_err k (store_read f)) g) Q E H d x"
  by (rule awp_then [where R = "\<lambda>a d' x'. d' = d \<and> x' = x \<and> f d = Inr a" and ER = "\<lambda>_ d' x'. d' = d \<and> x' = x" and HR = "\<lambda>d' x'. d' = d \<and> x' = x"],
      rule awp_err, rule awp_read) (use assms in auto)

lemma awp_enforce:
  assumes "orders_ok env" and F: "\<And>k. Fail k \<notin> F"
  shows "awp F (enforce_cache_budget env) (\<lambda>_. still_stored env x) (\<lambda>_. still_stored env x) (still_stored env x) d x"
  unfolding enforce_cache_budget_def
proof (intro awp_read_then still_stored_refl)
  fix budget ss ds payloads
  assume a: "Inr (list_cache_skills d) = Inr ss" "Inr (list_deployments d) = Inr ds"
    "Inr (list_unacked_mutation_payload_hashes d) = Inr payloads"
  then have refs: "snapshot_references ss ds payloads = needed d" by (simp add: needed_def)
  have scan: "awp F (on_disk (query CacheIo (scan_blob_inventory (ce_root env)))) (\<lambda>_ d' x'. d' = d \<and> x' = x)
      (\<lambda>_ d' x'. d' = d \<and> x' = x) (\<lambda>d' x'. d' = d \<and> x' = x) d x"
    by (rule awp_on_disk, rule wlp_query) simp_all
  show "awp F (app_then (on_disk (query CacheIo (scan_blob_inventory (ce_root env)))) (\<lambda>inventory.
     app_then (app_result (total_size 0 inventory)) (\<lambda>before.
     let report = \<lparr>cr_budget_bytes = budget, cr_before_bytes = before, cr_after_bytes = before, cr_evicted_skills = [],
           cr_deleted_blobs = 0, cr_skipped_skills = [], cr_diagnostics = []\<rparr> in
     if before \<le> budget then app_give report
     else over_budget env budget ss ds payloads inventory report)))
     (\<lambda>_. still_stored env x) (\<lambda>_. still_stored env x) (still_stored env x) d x"
  proof (rule awp_then [OF scan])
    fix inventory d1 x1 assume 1: "d1 = d \<and> x1 = x"
    show "awp F (app_then (app_result (total_size 0 inventory)) (\<lambda>before.
     let report = \<lparr>cr_budget_bytes = budget, cr_before_bytes = before, cr_after_bytes = before, cr_evicted_skills = [],
           cr_deleted_blobs = 0, cr_skipped_skills = [], cr_diagnostics = []\<rparr> in
     if before \<le> budget then app_give report
     else over_budget env budget ss ds payloads inventory report))
     (\<lambda>_. still_stored env x) (\<lambda>_. still_stored env x) (still_stored env x) d1 x1"
      unfolding conjunct1 [OF 1] conjunct2 [OF 1]
      by (rule awp_then [where R = "\<lambda>_ d' x'. d' = d \<and> x' = x" and ER = "\<lambda>_ d' x'. d' = d \<and> x' = x" and HR = "\<lambda>d' x'. d' = d \<and> x' = x"],
          rule awp_result)
        (auto simp: Let_def still_stored_refl intro!: awp_give awp_over_budget [OF assms(1) F refs])
  qed (auto simp: still_stored_refl)
qed

text \<open>What the run does to the store: eviction claims, under any faults.\<close>

fun eviction_claim :: "store_cmd \<Rightarrow> bool" where
  "eviction_claim (ClaimEviction skill expected now) \<longleftrightarrow> True"
| "eviction_claim _ \<longleftrightarrow> False"

lemma evict_skill_moves: "command_moves.moves eviction_claim (evict_skill env deployed rv inventory s st)"
proof -
  obtain counts report where st: "st = (counts, report)" by (cases st)
  have claim: "command_moves.moves eviction_claim (transact (claim_skill_for_eviction skill expected now))" for skill expected now
    by (rule command_moves.moves_transact, rule by_command [where c = "ClaimEviction skill expected now"]) simp_all
  show ?thesis unfolding evict_skill_def st prod.case
    by (auto intro!: command_moves.moves_rules claim split: option.split)
qed

lemma evict_skills_moves: "command_moves.moves eviction_claim (evict_skills env budget deployed rv inventory cs st)"
  by (induction cs arbitrary: st) (auto intro!: command_moves.moves_rules evict_skill_moves)

lemma enforce_moves: "command_moves.moves eviction_claim (enforce_cache_budget env)"
  unfolding enforce_cache_budget_def over_budget_def Let_def
  by (auto intro!: command_moves.moves_rules evict_skills_moves split: prod.split)

text \<open>C30: When no call of the run fails, and wherever the process dies in it and in whatever order hash maps are
  walked: every blob of a snapshot whose manifest could be read when the run started, and that a skill with
  local content, a deployment or an unacknowledged mutation refers to at its end, reads as it did before; nothing outside
  the blob directory changes; and the store changes only by eviction claims. (A call that fails can take a needed blob away:
  \<open>failed_read_loses_local_work\<close>.)\<close>

theorem cache_keeps_what_is_needed:
  assumes "orders_ok env" and "\<forall>k. Fail k \<notin> set (schedule w)" and "r = enforce_cache_budget env d w"
  shows "still_stored env (disk w) (store_after r) (disk (world_after r)) \<and> by_commands eviction_claim d (store_after r)"
proof
  have "awp (set (schedule w)) (enforce_cache_budget env) (\<lambda>_. still_stored env (disk w)) (\<lambda>_. still_stored env (disk w)) (still_stored env (disk w)) d (disk w)"
    by (rule awp_enforce) (use assms in auto)
  then show "still_stored env (disk w) (store_after r) (disk (world_after r))"
    unfolding awp_def assms(3) by (auto simp: store_after_def world_after_def split: ending.split dest: spec [where x = "schedule w"])
  show "by_commands eviction_claim d (store_after r)"
    using command_moves.movesD [OF enforce_moves] assms(3) by blast
qed

end
