(* ===== verification/Cache_Samples.thy ===== *)
theory Cache_Samples
  imports Cache_Safety Materialize
begin

text \<open>
  A cache over its budget, evaluated by the simplifier: two snapshots share a file; one belongs to a
  skill that can be fetched again, the other is the queued edit of a skill.
\<close>

definition skill_manifest :: snapshot_manifest where
  "skill_manifest = \<lparr>sm_format_version = 1, sm_files =
     [\<lparr>sf_path = ''SKILL.md'', sf_blob_hash = hash_bytes sample_sha ''hi'', sf_size_bytes = 2\<rparr>]\<rparr>"

definition shared_codec :: manifest_codec where
  "shared_codec = \<lparr>encode_manifest = (\<lambda>_. ''M''),
     decode_manifest = (\<lambda>bs. if bs = ''M'' \<or> bs = ''NNN'' then Inr skill_manifest else Inl ''invalid'')\<rparr>"

definition cache_sample_env :: cache_env where
  "cache_sample_env = \<lparr>ce_codec = shared_codec, ce_sha = sample_sha, ce_root = [''blobs''], ce_now = 90,
     ce_snapshot_order = id, ce_closure_order = id\<rparr>"

definition cache_disk :: node where
  "cache_disk = Folder [(''blobs'', Folder [(''sha256'', Folder [(''00'', Folder
     [(sample_sha ''M'', Plain ''M''), (sample_sha ''hi'', Plain ''hi''), (sample_sha ''NNN'', Plain ''NNN'')])])])]"

definition cache_store :: store where
  "cache_store = fresh_store\<lparr>cache_max_bytes := 1,
     skills := [(sample_skill ''s1'' (Some ''r1'') Synced (Some 4))\<lparr>sk_current_blob_hash := hash_bytes sample_sha ''M''\<rparr>,
       (sample_skill ''s2'' None Dirty None)\<lparr>sk_current_blob_hash := hash_bytes sample_sha ''NNN''\<rparr>],
     mutations := [(sample_mutation ''m2'' ''s2'' 1 Pending)\<lparr>mu_payload_hash := hash_bytes sample_sha ''NNN''\<rparr>]\<rparr>"

definition enforced :: "fault list \<Rightarrow> (cache_error, cache_report) ending" where
  "enforced s = enforce_cache_budget cache_sample_env cache_store \<lparr>disk = cache_disk, schedule = s\<rparr>"

definition stored_blobs :: "('e, 'a) ending \<Rightarrow> bool list" where
  "stored_blobs r = map (\<lambda>c. is_ok (read_blob sample_sha [''blobs''] (hash_bytes sample_sha c) (disk (world_after r)))) [''M'', ''NNN'', ''hi'']"

theorem cache_keeps_what_is_needed_witness:
  "stored_blobs (enforced []) = [False, True, True]
   \<and> still_stored cache_sample_env cache_disk (store_after (enforced [])) (disk (world_after (enforced [])))"
proof
  show "stored_blobs (enforced []) = [False, True, True]" by code_simp
  have "orders_ok cache_sample_env" by (simp add: orders_ok_def cache_sample_env_def)
  from cache_keeps_what_is_needed [OF this _ enforced_def, of "[]"]
  show "still_stored cache_sample_env cache_disk (store_after (enforced [])) (disk (world_after (enforced [])))" by simp
qed

text \<open>Counterexample: one failing read of a manifest is enough to lose local work. The snapshot of the
  queued edit cannot be resolved and is reported as such, but its blobs are no longer counted: the eviction
  of the other skill deletes the file they share, and the edit can never be uploaded.\<close>

theorem failed_read_loses_local_work:
  "case enforced (replicate 6 Go @ [Fail 0]) of
     Returned report d w \<Rightarrow> cr_evicted_skills report = [''s1'']
       \<and> cr_diagnostics report = [SnapshotUnresolved (hash_bytes sample_sha ''NNN'') (CacheSnapshot (SnapIo OtherIo)), StillAboveBudget 3 1]
       \<and> list_unacked_mutation_payload_hashes d = [hash_bytes sample_sha ''NNN'']
       \<and> read_blob sample_sha [''blobs''] (hash_bytes sample_sha ''hi'') (disk w) = Inl (BlobNotFound (hash_bytes sample_sha ''hi''))
   | _ \<Rightarrow> False"
  by code_simp

end
