(* ===== verification/Workspaces.thy ===== *)
theory Workspaces
  imports Materialize
begin

text \<open>
  \<open>workspace.rs\<close>: the managed folder of each skill. Its name is the digest of the skill's id, so no id
  leads out of the root. A workspace is written by the user; the store creates it from a first
  \<open>SKILL.md\<close> or from a snapshot, and replaces it by a newer snapshot through a staging folder.
\<close>

record workspace_store =
  ws_root :: path
  ws_codec :: manifest_codec
  ws_sha :: sha
  ws_blobs :: location

record workspace_ref =
  wr_skill_id :: string
  wr_path :: path

datatype workspace_error =
  WorkspaceIo io_error
| WorkspaceSnapshot snapshot_error
| InvalidSkillId
| InvalidWorkspaceRoot location
| InvalidManagedWorkspace location
| WorkspaceExists path
| IncompleteWorkspace path
| InitialSkillTooLarge nat nat

definition max_initial_skill_md_bytes :: nat where
  "max_initial_skill_md_bytes = 2 * 1024 * 1024"

section \<open>Helpers\<close>

definition validate_skill_id :: "string \<Rightarrow> workspace_error + unit" where
  "validate_skill_id skill = (if is_blank skill \<or> 512 < length skill then Inl InvalidSkillId else Inr ())"

definition path_for_skill :: "workspace_store \<Rightarrow> string \<Rightarrow> workspace_error + path" where
  "path_for_skill ws skill = and_then (validate_skill_id skill) (\<lambda>_. Inr (path_join (ws_root ws) (ws_sha ws skill)))"

definition sync_folder :: "location \<Rightarrow> (workspace_error, unit) io" where
  "sync_folder p = wrap WorkspaceIo (sync_path p)"

definition remove_managed :: "path \<Rightarrow> (workspace_error, unit) io" where
  "remove_managed p = wrap (\<lambda>e. case e of Io e \<Rightarrow> WorkspaceIo e | UnsupportedFileType q \<Rightarrow> InvalidManagedWorkspace q) (remove_any (locate p))"

text \<open>\<open>ensure_directory\<close>, and \<open>WorkspaceStore::open\<close>\<close>

definition create_workspace_root :: "location \<Rightarrow> (workspace_error, unit) io" where
  "create_workspace_root p =
     do_then (wrap WorkspaceIo (create_dir_all p)) (\<lambda>_.
     do_then (wrap WorkspaceIo (metadata p)) (\<lambda>n.
     if \<not> folder_node n then raise (InvalidWorkspaceRoot p)
     else if p = [] then give () else sync_folder (butlast p)))"

definition ensure_directory :: "location \<Rightarrow> (workspace_error, unit) io" where
  "ensure_directory p = do_then (attempt (metadata p)) (\<lambda>r. case r of
     Inr n \<Rightarrow> if folder_node n then give () else raise (InvalidWorkspaceRoot p)
   | Inl e \<Rightarrow> if e = NotFound then create_workspace_root p else raise (WorkspaceIo e))"

definition open_workspaces :: "workspace_store \<Rightarrow> (workspace_error, unit) io" where
  "open_workspaces ws = ensure_directory (locate (ws_root ws))"

text \<open>\<open>write_new_file_durable\<close>: a temporary file beside the new one, renamed into place.\<close>

definition write_temporary :: "location \<Rightarrow> location \<Rightarrow> string \<Rightarrow> (workspace_error, unit) io" where
  "write_temporary temporary p content =
     do_then (wrap WorkspaceIo (create_new temporary)) (\<lambda>_.
     do_then (wrap WorkspaceIo (write_all temporary content)) (\<lambda>_.
     do_then (wrap WorkspaceIo (sync_path temporary)) (\<lambda>_.
     do_then (wrap WorkspaceIo (rename_entry temporary p)) (\<lambda>_. sync_folder (butlast p)))))"

definition write_new_file_durable :: "string \<Rightarrow> location \<Rightarrow> string \<Rightarrow> (workspace_error, unit) io" where
  "write_new_file_durable uuid p content =
     (let temporary = butlast p @ [reserved_prefix @ ''create-'' @ uuid @ ''.tmp''] in
      do_then (attempt (write_temporary temporary p content)) (\<lambda>r. case r of
        Inr _ \<Rightarrow> give ()
      | Inl e \<Rightarrow> do_then (attempt (remove_file temporary)) (\<lambda>_. raise e)))"

section \<open>Operations\<close>

text \<open>\<open>create\<close>: what is there already, and the new folder with its \<open>SKILL.md\<close>.\<close>

definition claim_folder :: "workspace_store \<Rightarrow> path \<Rightarrow> (workspace_error, unit) io" where
  "claim_folder ws p = do_then (attempt (metadata (locate p))) (\<lambda>r. case r of
     Inr n \<Rightarrow>
       if \<not> folder_node n then raise (InvalidManagedWorkspace (locate p))
       else do_then (attempt (metadata (locate p @ [skill_entrypoint]))) (\<lambda>m. case m of
         Inr _ \<Rightarrow> raise (WorkspaceExists p)
       | Inl _ \<Rightarrow> do_then (wrap WorkspaceIo (metadata (locate p))) (\<lambda>n.
           if n = Folder [] then give () else raise (IncompleteWorkspace p)))
   | Inl e \<Rightarrow>
       if e = NotFound then do_then (wrap WorkspaceIo (create_dir (locate p))) (\<lambda>_. sync_folder (locate (ws_root ws)))
       else raise (WorkspaceIo e))"

definition create_workspace :: "workspace_store \<Rightarrow> string \<Rightarrow> string \<Rightarrow> string \<Rightarrow> (workspace_error, workspace_ref) io" where
  "create_workspace ws uuid skill initial =
     do_then (from_result (validate_skill_id skill)) (\<lambda>_.
     if max_initial_skill_md_bytes < length initial then raise (InitialSkillTooLarge (length initial) max_initial_skill_md_bytes)
     else
       do_then (from_result (path_for_skill ws skill)) (\<lambda>p.
       do_then (claim_folder ws p) (\<lambda>_.
       do_then (write_new_file_durable uuid (locate p @ [skill_entrypoint]) initial) (\<lambda>_.
       do_then (sync_folder (locate p)) (\<lambda>_.
       give \<lparr>wr_skill_id = skill, wr_path = p\<rparr>)))))"

definition materialize_to :: "workspace_store \<Rightarrow> string \<Rightarrow> path \<Rightarrow> (workspace_error, unit) io" where
  "materialize_to ws hash p =
     do_then (wrap WorkspaceSnapshot (materialize_snapshot (ws_codec ws) (ws_sha ws) (ws_blobs ws) hash p)) (\<lambda>_.
     sync_folder (locate (ws_root ws)))"

definition import_snapshot :: "workspace_store \<Rightarrow> string \<Rightarrow> string \<Rightarrow> (workspace_error, workspace_ref) io" where
  "import_snapshot ws skill hash =
     do_then (from_result (path_for_skill ws skill)) (\<lambda>p.
     do_then (attempt (metadata (locate p))) (\<lambda>r. case r of
       Inr _ \<Rightarrow> raise (WorkspaceExists p)
     | Inl e \<Rightarrow>
         if e \<noteq> NotFound then raise (WorkspaceIo e)
         else do_then (materialize_to ws hash p) (\<lambda>_. give \<lparr>wr_skill_id = skill, wr_path = p\<rparr>)))"

text \<open>\<open>replace_snapshot\<close>: stage the snapshot, move the old folder aside, move the staging folder in.\<close>

definition set_aside :: "path \<Rightarrow> path \<Rightarrow> (workspace_error, bool) io" where
  "set_aside p backup = do_then (attempt (metadata (locate p))) (\<lambda>r. case r of
     Inr n \<Rightarrow>
       if \<not> folder_node n then raise (InvalidManagedWorkspace (locate p))
       else do_then (wrap WorkspaceIo (rename_entry (locate p) (locate backup))) (\<lambda>_. give True)
   | Inl e \<Rightarrow> if e = NotFound then give False else raise (WorkspaceIo e))"

definition swap_in :: "workspace_store \<Rightarrow> path \<Rightarrow> path \<Rightarrow> path \<Rightarrow> bool \<Rightarrow> (workspace_error, unit) io" where
  "swap_in ws staging p backup had_old = do_then (attempt (rename_entry (locate staging) (locate p))) (\<lambda>r. case r of
     Inl e \<Rightarrow>
       do_then (if had_old then do_then (attempt (rename_entry (locate backup) (locate p))) (\<lambda>_. give ()) else give ()) (\<lambda>_.
       raise (WorkspaceIo e))
   | Inr _ \<Rightarrow>
       do_then (sync_folder (locate (ws_root ws))) (\<lambda>_.
       if had_old then do_then (attempt (remove_managed backup)) (\<lambda>_. give ()) else give ()))"

definition replace_at :: "workspace_store \<Rightarrow> string \<Rightarrow> path \<Rightarrow> path \<Rightarrow> path \<Rightarrow> (workspace_error, unit) io" where
  "replace_at ws hash staging p backup =
     do_then (materialize_to ws hash staging) (\<lambda>_.
     do_then (set_aside p backup) (\<lambda>had_old.
     swap_in ws staging p backup had_old))"

definition replace_snapshot :: "workspace_store \<Rightarrow> string \<Rightarrow> string \<Rightarrow> string \<Rightarrow> string \<Rightarrow> (workspace_error, workspace_ref) io" where
  "replace_snapshot ws stage_uuid backup_uuid skill hash =
     do_then (from_result (path_for_skill ws skill)) (\<lambda>p.
     let staging = path_join (ws_root ws) (reserved_prefix @ ''stage-'' @ stage_uuid);
         backup = path_join (ws_root ws) (reserved_prefix @ ''backup-'' @ backup_uuid) in
     do_then (attempt (replace_at ws hash staging p backup)) (\<lambda>r. case r of
       Inl e \<Rightarrow> do_then (attempt (remove_managed staging)) (\<lambda>_. raise e)
     | Inr _ \<Rightarrow> give \<lparr>wr_skill_id = skill, wr_path = p\<rparr>))"

definition get_workspace :: "workspace_store \<Rightarrow> string \<Rightarrow> (workspace_error, workspace_ref option) io" where
  "get_workspace ws skill =
     do_then (from_result (path_for_skill ws skill)) (\<lambda>p.
     do_then (attempt (metadata (locate p))) (\<lambda>r. case r of
       Inr n \<Rightarrow> if folder_node n then give (Some \<lparr>wr_skill_id = skill, wr_path = p\<rparr>) else raise (InvalidManagedWorkspace (locate p))
     | Inl e \<Rightarrow> if e = NotFound then give None else raise (WorkspaceIo e)))"

definition remove_workspace :: "workspace_store \<Rightarrow> string \<Rightarrow> (workspace_error, bool) io" where
  "remove_workspace ws skill =
     do_then (from_result (path_for_skill ws skill)) (\<lambda>p.
     do_then (attempt (metadata (locate p))) (\<lambda>r. case r of
       Inr n \<Rightarrow>
         if \<not> folder_node n then raise (InvalidManagedWorkspace (locate p))
         else do_then (remove_managed p) (\<lambda>_. do_then (sync_folder (locate (ws_root ws))) (\<lambda>_. give True))
     | Inl e \<Rightarrow> if e = NotFound then give False else raise (WorkspaceIo e)))"

end
