(* ===== verification/Hydration.thy ===== *)
theory Hydration
  imports Sync_Cycle Workspaces
begin

text \<open>
  \<open>hydrate.rs\<close>: a skill known by its metadata only gets its files. Its closure is downloaded, checked
  blob by blob, laid out as a workspace, and then the record is promoted if it still has the content laid
  out. No lock is held over the store between two of its calls: \<open>he_others\<close> is what other threads do to store and
  disk at each of these points, in the turn with so many turns left. The commands that release, replace or
  import workspaces hold the lock of the mutation coordinator, as the callers of \<open>hydrate_skill\<close> do, so what runs
  beside it is the worker's cycle, which commits pages and adds blobs.
\<close>

datatype hydration_point =
  TurnStarts | RowRead | WorkspaceFound | WorkspaceChecked | ClosureLocal | FilesLaidOut | RowPromoted | PromotionRefused

record hydrate_env =
  he_workspaces :: workspace_store
  he_now :: int
  he_blob_uuid :: "nat \<Rightarrow> string \<Rightarrow> string"
  he_stage_uuid :: "nat \<Rightarrow> string"
  he_backup_uuid :: "nat \<Rightarrow> string"
  he_others :: "nat \<Rightarrow> hydration_point \<Rightarrow> store \<times> node \<Rightarrow> store \<times> node"

datatype hydration_error =
  HydrateHttp client_error
| HydrateStore store_error
| HydrateBlobs blob_error
| HydrateSnapshot snapshot_error
| HydrateWorkspace workspace_error
| HydrateVerification verify_error
| HydrateDownload string client_error
| HydrateDigest string string
| HydrateState string string

record hydration_outcome =
  ho_skill_id :: string
  ho_manifest_hash :: string
  ho_blobs_downloaded :: nat
  ho_workspace_created :: bool
  ho_workspace_path :: path

section \<open>The closure\<close>

definition fetch_blob :: "hydrate_env \<Rightarrow> server \<Rightarrow> nat \<Rightarrow> string \<Rightarrow> (hydration_error, unit) io" where
  "fetch_blob env sv n hash = (let ws = he_workspaces env in
     do_then (from_result (map_err (HydrateDownload hash) (sv_blob sv n hash))) (\<lambda>content.
     let actual = hash_bytes (ws_sha ws) content in
     if actual \<noteq> hash then raise (HydrateDigest hash actual)
     else do_then (wrap HydrateBlobs (put_bytes (ws_sha ws) (ws_blobs ws) (he_blob_uuid env n hash) content)) (\<lambda>_. give ())))"

text \<open>The blob is fetched unless the store has it; the number of blobs fetched\<close>

definition ensure_blob :: "hydrate_env \<Rightarrow> server \<Rightarrow> nat \<Rightarrow> string \<Rightarrow> (hydration_error, nat) io" where
  "ensure_blob env sv n hash = (let ws = he_workspaces env in
     do_then (query (\<lambda>e. HydrateBlobs (BlobIo e)) (\<lambda>d. map_err HydrateBlobs (verify_blob (ws_sha ws) (ws_blobs ws) hash d))) (\<lambda>there.
     if there then give 0 else do_then (fetch_blob env sv n hash) (\<lambda>_. give 1)))"

fun ensure_files :: "hydrate_env \<Rightarrow> server \<Rightarrow> nat \<Rightarrow> nat \<Rightarrow> snapshot_file list \<Rightarrow> (hydration_error, nat) io" where
  "ensure_files env sv n downloaded [] = give downloaded"
| "ensure_files env sv n downloaded (f # fs) =
     do_then (ensure_blob env sv n (sf_blob_hash f)) (\<lambda>m. ensure_files env sv n (downloaded + m) fs)"

definition ensure_closure_local :: "hydrate_env \<Rightarrow> server \<Rightarrow> nat \<Rightarrow> string \<Rightarrow> (hydration_error, nat) io" where
  "ensure_closure_local env sv n hash = (let ws = he_workspaces env in
     do_then (ensure_blob env sv n hash) (\<lambda>downloaded.
     do_then (query (\<lambda>e. HydrateBlobs (BlobIo e))
       (\<lambda>d. map_err HydrateSnapshot (read_manifest (ws_codec ws) (ws_sha ws) (ws_blobs ws) hash default_policy d))) (\<lambda>manifest.
     ensure_files env sv n downloaded (sm_files manifest))))"

section \<open>The workspace\<close>

definition workspace_is_current :: "workspace_store \<Rightarrow> string \<Rightarrow> workspace_ref option \<Rightarrow> (hydration_error, bool) io" where
  "workspace_is_current ws hash existing = (case existing of
     None \<Rightarrow> give False
   | Some w \<Rightarrow> do_then (attempt (query (\<lambda>_. ())
         (\<lambda>d. map_err (\<lambda>_. ()) (verify_materialized_snapshot (ws_codec ws) (ws_sha ws) (ws_blobs ws) hash (locate (wr_path w)) d))))
       (\<lambda>r. give (is_ok r)))"

definition place_workspace :: "hydrate_env \<Rightarrow> nat \<Rightarrow> string \<Rightarrow> string \<Rightarrow> workspace_ref option \<Rightarrow> bool \<Rightarrow> (hydration_error, workspace_ref) io" where
  "place_workspace env n skill hash existing current = (case existing of
     Some w \<Rightarrow> if current then give w
       else wrap HydrateWorkspace (replace_snapshot (he_workspaces env) (he_stage_uuid env n) (he_backup_uuid env n) skill hash)
   | None \<Rightarrow> wrap HydrateWorkspace (import_snapshot (he_workspaces env) skill hash))"

section \<open>Hydration\<close>

text \<open>What other threads did in between.\<close>

definition meanwhile :: "(store \<times> node \<Rightarrow> store \<times> node) \<Rightarrow> ('e, unit) app" where
  "meanwhile f d w = (case f (d, disk w) of (d', x') \<Rightarrow> Returned () d' (w\<lparr>disk := x'\<rparr>))"

definition debug_state :: "skill_sync_state \<Rightarrow> string" where
  "debug_state s = (case s of
     RemoteOnly \<Rightarrow> ''RemoteOnly'' | Synced \<Rightarrow> ''Synced'' | Dirty \<Rightarrow> ''Dirty'' | Uploading \<Rightarrow> ''Uploading''
   | Conflict \<Rightarrow> ''Conflict'' | SyncError \<Rightarrow> ''SyncError'' | AccessRevoked \<Rightarrow> ''AccessRevoked'' | Corrupted \<Rightarrow> ''Corrupted'')"

text \<open>\<open>str::contains\<close>\<close>

definition contains :: "string \<Rightarrow> string \<Rightarrow> bool" where
  "contains message needle \<longleftrightarrow> list_ex (prefix needle) (suffixes message)"

definition head_changed :: "string \<Rightarrow> local_skill option \<Rightarrow> bool" where
  "head_changed hash latest = (case latest of
     Some s \<Rightarrow> ls_sync_state s \<in> {RemoteOnly, Synced} \<and> ls_current_blob_hash s \<noteq> hash | None \<Rightarrow> False)"

text \<open>\<open>LocalStore::mark_skill_hydrated\<close>: its transaction, and the read after it.\<close>

definition mark_skill_hydrated :: "hydrate_env \<Rightarrow> nat \<Rightarrow> string \<Rightarrow> string \<Rightarrow> path \<Rightarrow> (store_error, local_skill) app" where
  "mark_skill_hydrated env n skill expected workspace =
     app_then (transact (mark_row_hydrated skill expected workspace (he_now env))) (\<lambda>_.
     app_then (meanwhile (he_others env n RowPromoted)) (\<lambda>_.
     app_then (transact (get_skill skill (he_now env))) (\<lambda>s.
     app_result (ok_or s (SkillNotFound skill)))))"

text \<open>What follows a promotion that was refused; \<open>None\<close> when the head changed meanwhile.\<close>

definition refused :: "hydrate_env \<Rightarrow> nat \<Rightarrow> string \<Rightarrow> string \<Rightarrow> store_error \<Rightarrow> (hydration_error, hydration_outcome option) app" where
  "refused env n skill hash e = (case e of
     InvalidInput message \<Rightarrow>
       if contains message ''cannot be hydrated'' then
         app_then (meanwhile (he_others env n PromotionRefused)) (\<lambda>_.
         app_then (app_err HydrateStore (transact (get_skill skill (he_now env)))) (\<lambda>latest.
         if head_changed hash latest then app_give None else app_raise (HydrateStore (InvalidInput message))))
       else app_raise (HydrateStore (InvalidInput message))
   | _ \<Rightarrow> app_raise (HydrateStore e))"

definition promote :: "hydrate_env \<Rightarrow> nat \<Rightarrow> string \<Rightarrow> string \<Rightarrow> hydration_outcome \<Rightarrow> (hydration_error, hydration_outcome option) app" where
  "promote env n skill hash outcome =
     app_then (app_try (mark_skill_hydrated env n skill hash (ho_workspace_path outcome))) (\<lambda>r. case r of
       Inr _ \<Rightarrow> app_give (Some outcome)
     | Inl e \<Rightarrow> refused env n skill hash e)"

definition lay_out :: "hydrate_env \<Rightarrow> server \<Rightarrow> string \<Rightarrow> nat \<Rightarrow> local_skill \<Rightarrow> workspace_ref option \<Rightarrow> bool
    \<Rightarrow> (hydration_error, hydration_outcome option) app" where
  "lay_out env sv skill n s existing current = (let hash = ls_current_blob_hash s in
     app_then (on_disk (ensure_closure_local env sv n hash)) (\<lambda>downloaded.
     app_then (meanwhile (he_others env n ClosureLocal)) (\<lambda>_.
     app_then (on_disk (place_workspace env n skill hash existing current)) (\<lambda>w.
     app_then (meanwhile (he_others env n FilesLaidOut)) (\<lambda>_.
     promote env n skill hash \<lparr>ho_skill_id = ls_id s, ho_manifest_hash = hash, ho_blobs_downloaded = downloaded,
       ho_workspace_created = (existing = None), ho_workspace_path = wr_path w\<rparr>)))))"

definition hydrate_row :: "hydrate_env \<Rightarrow> server \<Rightarrow> string \<Rightarrow> nat \<Rightarrow> local_skill \<Rightarrow> (hydration_error, hydration_outcome option) app" where
  "hydrate_row env sv skill n s = (let ws = he_workspaces env; hash = ls_current_blob_hash s in
     if ls_sync_state s \<notin> {RemoteOnly, Synced} then
       app_raise (HydrateStore (InvalidInput (''skill '' @ skill @ '' in state '' @ debug_state (ls_sync_state s) @ '' cannot be hydrated'')))
     else
       app_then (on_disk (wrap HydrateWorkspace (get_workspace ws skill))) (\<lambda>existing.
       app_then (meanwhile (he_others env n WorkspaceFound)) (\<lambda>_.
       app_then (on_disk (workspace_is_current ws hash existing)) (\<lambda>current.
       app_then (meanwhile (he_others env n WorkspaceChecked)) (\<lambda>_.
       if current \<and> ls_sync_state s = Synced then
         app_give (Some \<lparr>ho_skill_id = ls_id s, ho_manifest_hash = hash, ho_blobs_downloaded = 0,
           ho_workspace_created = False, ho_workspace_path = wr_path (the existing)\<rparr>)
       else lay_out env sv skill n s existing current)))))"

definition hydrate_turn :: "hydrate_env \<Rightarrow> server \<Rightarrow> string \<Rightarrow> nat \<Rightarrow> (hydration_error, hydration_outcome option) app" where
  "hydrate_turn env sv skill n =
     app_then (meanwhile (he_others env n TurnStarts)) (\<lambda>_.
     app_then (app_err HydrateStore (transact (get_skill skill (he_now env)))) (\<lambda>found.
     app_then (meanwhile (he_others env n RowRead)) (\<lambda>_.
     app_then (app_result (map_err HydrateStore (ok_or found (SkillNotFound skill)))) (\<lambda>s. hydrate_row env sv skill n s))))"

primrec hydrate_loop :: "hydrate_env \<Rightarrow> server \<Rightarrow> string \<Rightarrow> nat \<Rightarrow> (hydration_error, hydration_outcome) app" where
  "hydrate_loop env sv skill 0 = app_raise (HydrateState skill ''remote head changed repeatedly during hydration'')"
| "hydrate_loop env sv skill (Suc n) = app_then (hydrate_turn env sv skill n) (\<lambda>r. case r of
     Some outcome \<Rightarrow> app_give outcome
   | None \<Rightarrow> hydrate_loop env sv skill n)"

definition hydrate_skill :: "hydrate_env \<Rightarrow> server \<Rightarrow> string \<Rightarrow> (hydration_error, hydration_outcome) app" where
  "hydrate_skill env sv skill = hydrate_loop env sv skill 3"

end
