(* ===== verification/Workspace_Safety.thy ===== *)
theory Workspace_Safety
  imports Workspaces
begin

text \<open>
  Replacing a workspace never mixes two snapshots and never loses the old one: whatever call fails and
  wherever the process dies, the folder of the skill holds what it held, holds the new snapshot, verified,
  or is absent while the old one lies whole in the backup.
\<close>

section \<open>Verified folders\<close>

definition holds_snapshot :: "workspace_store \<Rightarrow> string \<Rightarrow> location \<Rightarrow> node \<Rightarrow> bool" where
  "holds_snapshot ws hash p d \<longleftrightarrow> (\<exists>r. verify_materialized_snapshot (ws_codec ws) (ws_sha ws) (ws_blobs ws) hash p d = Inr r)"

lemma holds_snapshot_folder: "holds_snapshot ws hash p d \<Longrightarrow> \<exists>es. entry p d = Some (Folder es)"
  by (auto simp: holds_snapshot_def verify_materialized_snapshot_def stat_Found [symmetric] split: stat_result.split_asm node.split_asm)

lemma holds_snapshot_moved:
  assumes "holds_snapshot ws hash p d" and "tree.away q d d'" and "unrelated q (ws_blobs ws)" and "entry p' d' = entry p d"
  shows "holds_snapshot ws hash p' d'"
proof -
  obtain es r where es: "entry p d = Some (Folder es)"
    and v: "verify_materialized_snapshot (ws_codec ws) (ws_sha ws) (ws_blobs ws) hash p d = Inr r"
    using holds_snapshot_folder [OF assms(1)] assms(1) by (auto simp: holds_snapshot_def)
  then obtain m where m: "read_manifest (ws_codec ws) (ws_sha ws) (ws_blobs ws) hash default_policy d = Inr m"
      and t: "verify_tree (ws_sha ws) hash m es = Inr r"
    by (auto simp: verify_materialized_snapshot_def stat_Found [THEN iffD2, OF es] map_err_Inr_iff and_then_Inr_iff)
  have "read_manifest (ws_codec ws) (ws_sha ws) (ws_blobs ws) hash default_policy d' = Inr m"
    by (rule read_manifest_away [OF assms(2,3) m])
  moreover have "stat p' d' = Found (Folder es)" using assms(4) es by (simp add: stat_Found)
  ultimately show ?thesis using t by (simp add: holds_snapshot_def verify_materialized_snapshot_def)
qed

section \<open>The three places of a replacement\<close>

text \<open>The folder of the skill, the staging folder and the backup are three names of the root.\<close>

record swap =
  sw_root :: location
  sw_name :: string
  sw_stage :: string
  sw_backup :: string

definition target :: "swap \<Rightarrow> location" where "target k = sw_root k @ [sw_name k]"
definition staged :: "swap \<Rightarrow> location" where "staged k = sw_root k @ [sw_stage k]"
definition aside :: "swap \<Rightarrow> location" where "aside k = sw_root k @ [sw_backup k]"

definition swap_ok :: "workspace_store \<Rightarrow> swap \<Rightarrow> bool" where
  "swap_ok ws k \<longleftrightarrow> distinct [sw_name k, sw_stage k, sw_backup k] \<and> unrelated (sw_root k) (ws_blobs ws)
     \<and> locate (ws_root ws) = sw_root k \<and> utf8_codec (ws_codec ws)"

lemma holds_snapshot_kept:
  "swap_ok ws k \<Longrightarrow> holds_snapshot ws hash p d \<Longrightarrow> tree.away (sw_root k) d d' \<Longrightarrow> entry p' d' = entry p d \<Longrightarrow> holds_snapshot ws hash p' d'"
  unfolding swap_ok_def by (blast intro: holds_snapshot_moved)

text \<open>Nothing but the three places has changed.\<close>

definition elsewhere :: "swap \<Rightarrow> node \<Rightarrow> node \<Rightarrow> bool" where
  "elsewhere k d0 d \<longleftrightarrow> tree.away (sw_root k) d0 d
     \<and> (\<forall>y q. y \<notin> {sw_name k, sw_stage k, sw_backup k} \<longrightarrow> entry (sw_root k @ y # q) d = entry (sw_root k @ y # q) d0)"

lemma elsewhere_refl: "elsewhere k d d"
  by (simp add: elsewhere_def tree.away_refl)

lemma elsewhere_step:
  assumes "elsewhere k d0 d" and "tree.away (sw_root k @ [y]) d d'" and "y \<in> {sw_name k, sw_stage k, sw_backup k}"
  shows "elsewhere k d0 d'"
proof -
  have "entry (sw_root k @ z # q) d' = entry (sw_root k @ z # q) d" if "z \<noteq> y" for z q
  proof (rule tree.away_entry [OF assms(2)])
    have "unrelated (sw_root k @ [y]) (sw_root k @ [z])" using that by simp
    then show "unrelated (sw_root k @ [y]) (sw_root k @ z # q)"
      using tree.unrelated_inside [of "sw_root k @ [z]" "sw_root k @ [y]" q] by (simp add: unrelated_sym)
  qed
  then show ?thesis using assms tree.away_inside [OF assms(2)] by (auto simp: elsewhere_def intro: tree.away_trans)
qed

lemma elsewhere_rename:
  assumes "elsewhere k d0 d" and "x \<in> {sw_name k, sw_stage k, sw_backup k}" and "y \<in> {sw_name k, sw_stage k, sw_backup k}"
    and "d' = put_entry (sw_root k @ [x]) None (put_entry (sw_root k @ [y]) v d)"
  shows "elsewhere k d0 d'"
  unfolding assms(4) by (rule elsewhere_step [OF elsewhere_step [OF assms(1) tree.away_put assms(3)] tree.away_put assms(2)])

definition not_lost :: "workspace_store \<Rightarrow> string \<Rightarrow> swap \<Rightarrow> node \<Rightarrow> node \<Rightarrow> bool" where
  "not_lost ws hash k d0 d \<longleftrightarrow> entry (target k) d = entry (target k) d0
     \<or> entry (target k) d = None \<and> entry (aside k) d = entry (target k) d0
     \<or> holds_snapshot ws hash (target k) d"

definition swap_inv :: "workspace_store \<Rightarrow> string \<Rightarrow> swap \<Rightarrow> node \<Rightarrow> node \<Rightarrow> bool" where
  "swap_inv ws hash k d0 d \<longleftrightarrow> elsewhere k d0 d \<and> not_lost ws hash k d0 d"

definition staged_state :: "workspace_store \<Rightarrow> string \<Rightarrow> swap \<Rightarrow> node \<Rightarrow> node \<Rightarrow> bool" where
  "staged_state ws hash k d0 d \<longleftrightarrow> elsewhere k d0 d \<and> holds_snapshot ws hash (staged k) d
     \<and> entry (target k) d = entry (target k) d0 \<and> entry (aside k) d = None"

definition moved_state :: "workspace_store \<Rightarrow> string \<Rightarrow> swap \<Rightarrow> node \<Rightarrow> bool \<Rightarrow> node \<Rightarrow> bool" where
  "moved_state ws hash k d0 had_old d \<longleftrightarrow> elsewhere k d0 d \<and> holds_snapshot ws hash (staged k) d \<and> entry (target k) d = None
     \<and> (if had_old then entry (aside k) d = entry (target k) d0 else entry (target k) d0 = None)"

definition active_state :: "workspace_store \<Rightarrow> string \<Rightarrow> swap \<Rightarrow> node \<Rightarrow> node \<Rightarrow> bool" where
  "active_state ws hash k d0 d \<longleftrightarrow> elsewhere k d0 d \<and> holds_snapshot ws hash (target k) d"

lemma states_inv:
  "staged_state ws hash k d0 d \<Longrightarrow> swap_inv ws hash k d0 d"
  "moved_state ws hash k d0 had_old d \<Longrightarrow> swap_inv ws hash k d0 d"
  "active_state ws hash k d0 d \<Longrightarrow> swap_inv ws hash k d0 d"
  by (auto simp: staged_state_def moved_state_def active_state_def swap_inv_def not_lost_def split: if_splits)

section \<open>The steps\<close>

lemma wlp_set_aside:
  assumes ok: "swap_ok ws k" and s: "staged_state ws hash k d0 d" and p: "locate p = target k" and b: "locate backup = aside k"
  shows "wlp F (set_aside p backup) (\<lambda>had_old. moved_state ws hash k d0 had_old) (\<lambda>_. swap_inv ws hash k d0) (swap_inv ws hash k d0) d"
proof -
  have inv: "swap_inv ws hash k d0 d" using states_inv(1) [OF s] .
  have none: "moved_state ws hash k d0 False d" if "entry (target k) d = None"
    using s that by (simp add: staged_state_def moved_state_def)
  show ?thesis unfolding set_aside_def p b
  proof (rule wlp_try [where R = "\<lambda>n d'. d' = d \<and> entry (target k) d = Some n" and HR = "\<lambda>d'. d' = d"
      and ER = "\<lambda>e d'. d' = d \<and> (e = NotFound \<longrightarrow> entry (target k) d = None)"])
    show "wlp F (metadata (target k)) (\<lambda>n d'. d' = d \<and> entry (target k) d = Some n)
        (\<lambda>e d'. d' = d \<and> (e = NotFound \<longrightarrow> entry (target k) d = None)) (\<lambda>d'. d' = d) d"
      by (rule wlp_metadata) auto
  next
    fix n d' assume n: "d' = d \<and> entry (target k) d = Some n"
    have folder: "is_folder (sw_root k) d" using n entry_parent_folder [of "sw_root k" "sw_name k" d n] by (simp add: target_def)
    have move: "wlp F (rename_entry (target k) (aside k)) (\<lambda>_. moved_state ws hash k d0 True) (\<lambda>_ d'. d' = d) (\<lambda>d'. d' = d) d"
      unfolding target_def aside_def
    proof (rule wlp_rename [OF folder])
      show "sw_name k \<noteq> sw_backup k" using ok by (simp add: swap_ok_def)
      show "entry (sw_root k @ [sw_backup k]) d = None" using s by (simp add: staged_state_def aside_def)
      fix m d'
      assume m: "entry (sw_root k @ [sw_name k]) d = Some m"
        and d': "d' = put_entry (sw_root k @ [sw_name k]) None (put_entry (sw_root k @ [sw_backup k]) (Some m) d)"
      have ne: "sw_name k \<noteq> sw_backup k" "sw_stage k \<noteq> sw_name k" "sw_stage k \<noteq> sw_backup k" using ok by (auto simp: swap_ok_def)
      note r = rename_effect [OF folder ne(1) m d']
      have e: "elsewhere k d0 d'" by (rule elsewhere_rename [OF _ _ _ d']) (use s in \<open>simp_all add: staged_state_def\<close>)
      have "tree.away (sw_root k) d d'" unfolding d' by (rule tree.away_trans; rule tree.away_inside, rule tree.away_put)
      moreover have "entry (staged k) d' = entry (staged k) d" using r(4) [of "staged k"] ne by (simp add: staged_def)
      ultimately have "holds_snapshot ws hash (staged k) d'"
        using s unfolding staged_state_def by (blast intro: holds_snapshot_kept [OF ok])
      then show "moved_state ws hash k d0 True d'" using e r(1,2) m s by (simp add: moved_state_def staged_state_def target_def aside_def)
    qed simp_all
    show "wlp F (case Inr n of
         Inr n \<Rightarrow> if \<not> folder_node n then raise (InvalidManagedWorkspace (target k))
           else do_then (wrap WorkspaceIo (rename_entry (target k) (aside k))) (\<lambda>_. give True)
       | Inl e \<Rightarrow> if e = NotFound then give False else raise (WorkspaceIo e))
      (\<lambda>had_old. moved_state ws hash k d0 had_old) (\<lambda>_. swap_inv ws hash k d0) (swap_inv ws hash k d0) d'"
      unfolding sum.case conjunct1 [OF n]
      by (auto intro!: wlp_raise wlp_do_then wlp_wrap wlp_mono [OF move] wlp_give inv)
  next
    fix e d' assume "d' = d \<and> (e = NotFound \<longrightarrow> entry (target k) d = None)"
    then show "wlp F (case Inl e of
         Inr n \<Rightarrow> if \<not> folder_node n then raise (InvalidManagedWorkspace (target k))
           else do_then (wrap WorkspaceIo (rename_entry (target k) (aside k))) (\<lambda>_. give True)
       | Inl e \<Rightarrow> if e = NotFound then give False else raise (WorkspaceIo e))
      (\<lambda>had_old. moved_state ws hash k d0 had_old) (\<lambda>_. swap_inv ws hash k d0) (swap_inv ws hash k d0) d'"
      using inv none by (auto intro!: wlp_give wlp_raise)
  qed (use inv in auto)
qed

lemma wlp_put_back:
  assumes ok: "swap_ok ws k" and m: "moved_state ws hash k d0 True d"
  shows "wlp F (rename_entry (aside k) (target k)) (\<lambda>_. swap_inv ws hash k d0) (\<lambda>_. swap_inv ws hash k d0) (swap_inv ws hash k d0) d"
proof -
  have inv: "swap_inv ws hash k d0 d" using states_inv(2) [OF m] .
  obtain es where "entry (staged k) d = Some (Folder es)" using m holds_snapshot_folder [of ws hash "staged k" d] by (auto simp: moved_state_def)
  then have folder: "is_folder (sw_root k) d" using entry_parent_folder [of "sw_root k"] by (auto simp: staged_def)
  show ?thesis unfolding target_def aside_def
  proof (rule wlp_rename [OF folder])
    show "sw_backup k \<noteq> sw_name k" using ok by (auto simp: swap_ok_def)
    show "entry (sw_root k @ [sw_name k]) d = None" using m by (simp add: moved_state_def target_def)
    fix n d' assume n: "entry (sw_root k @ [sw_backup k]) d = Some n"
      and d': "d' = put_entry (sw_root k @ [sw_backup k]) None (put_entry (sw_root k @ [sw_name k]) (Some n) d)"
    have ne: "sw_backup k \<noteq> sw_name k" using ok by (auto simp: swap_ok_def)
    have "elsewhere k d0 d'" by (rule elsewhere_rename [OF _ _ _ d']) (use m in \<open>simp_all add: moved_state_def\<close>)
    moreover have "entry (target k) d' = entry (target k) d0"
      using rename_effect(1) [OF folder ne n d'] n m by (simp add: moved_state_def target_def aside_def)
    ultimately show "swap_inv ws hash k d0 d'" by (simp add: swap_inv_def not_lost_def)
  qed (use inv in simp_all)
qed

lemma wlp_activate_staged:
  assumes ok: "swap_ok ws k" and m: "moved_state ws hash k d0 had_old d"
  shows "wlp F (rename_entry (staged k) (target k)) (\<lambda>_. active_state ws hash k d0) (\<lambda>_ d'. d' = d) (\<lambda>d'. d' = d) d"
proof -
  obtain es where es: "entry (staged k) d = Some (Folder es)" using m holds_snapshot_folder [of ws hash "staged k" d] by (auto simp: moved_state_def)
  then have folder: "is_folder (sw_root k) d" using entry_parent_folder [of "sw_root k"] by (auto simp: staged_def)
  show ?thesis unfolding target_def staged_def
  proof (rule wlp_rename [OF folder])
    show ne: "sw_stage k \<noteq> sw_name k" using ok by (auto simp: swap_ok_def)
    show "entry (sw_root k @ [sw_name k]) d = None" using m by (simp add: moved_state_def target_def)
    fix n d' assume n: "entry (sw_root k @ [sw_stage k]) d = Some n"
      and d': "d' = put_entry (sw_root k @ [sw_stage k]) None (put_entry (sw_root k @ [sw_name k]) (Some n) d)"
    have "tree.away (sw_root k) d d'" unfolding d' by (rule tree.away_trans; rule tree.away_inside, rule tree.away_put)
    moreover have "entry (target k) d' = entry (staged k) d"
      using rename_effect(1) [OF folder ne n d'] n by (simp add: target_def staged_def)
    ultimately have "holds_snapshot ws hash (target k) d'"
      using m unfolding moved_state_def by (blast intro: holds_snapshot_kept [OF ok])
    moreover have "elsewhere k d0 d'" by (rule elsewhere_rename [OF _ _ _ d']) (use m in \<open>simp_all add: moved_state_def\<close>)
    ultimately show "active_state ws hash k d0 d'" by (simp add: active_state_def)
  qed simp_all
qed

text \<open>Removing the backup of an active folder, or the staging folder, keeps what counts.\<close>

lemma confined_remove_managed: "confined (locate p) (remove_managed p)"
  unfolding remove_managed_def by (intro confined_wrap confined_remove_any)

lemma keeps_remove_backup:
  assumes ok: "swap_ok ws k" and b: "locate backup = aside k"
  shows "keeps (active_state ws hash k d0) (remove_managed backup)"
proof (rule keeps_confined [OF confined_remove_managed])
  fix d d' assume a: "active_state ws hash k d0 d" and "tree.away (locate backup) d d'"
  then have aw: "tree.away (sw_root k @ [sw_backup k]) d d'" by (simp add: b aside_def)
  have "entry (target k) d' = entry (target k) d"
    by (rule tree.away_entry [OF aw]) (use ok in \<open>auto simp: swap_ok_def target_def\<close>)
  then have "holds_snapshot ws hash (target k) d'"
    using a unfolding active_state_def by (blast intro: holds_snapshot_kept [OF ok _ tree.away_inside [OF aw]])
  then show "active_state ws hash k d0 d'"
    using elsewhere_step [OF _ aw] a by (simp add: active_state_def)
qed

lemma keeps_remove_staging:
  assumes ok: "swap_ok ws k" and b: "locate staging = staged k"
  shows "keeps (swap_inv ws hash k d0) (remove_managed staging)"
proof (rule keeps_confined [OF confined_remove_managed])
  fix d d' assume a: "swap_inv ws hash k d0 d" and "tree.away (locate staging) d d'"
  then have aw: "tree.away (sw_root k @ [sw_stage k]) d d'" by (simp add: b staged_def)
  have same: "entry (target k) d' = entry (target k) d" "entry (aside k) d' = entry (aside k) d"
    by (rule tree.away_entry [OF aw]; use ok in \<open>auto simp: swap_ok_def target_def aside_def\<close>)+
  have "holds_snapshot ws hash (target k) d \<Longrightarrow> holds_snapshot ws hash (target k) d'"
    using same(1) by (rule holds_snapshot_kept [OF ok _ tree.away_inside [OF aw], rotated])
  then show "swap_inv ws hash k d0 d'"
    using elsewhere_step [OF _ aw] a same by (auto simp: swap_inv_def not_lost_def)
qed

lemma keeps_sync_folder: "keeps P (sync_folder p)"
  unfolding sync_folder_def by (intro keeps_rules)

lemma wlp_swap_in:
  assumes ok: "swap_ok ws k" and m: "moved_state ws hash k d0 had_old d"
    and l: "locate p = target k" "locate backup = aside k" "locate staging = staged k"
  shows "wlp F (swap_in ws staging p backup had_old) (\<lambda>_. active_state ws hash k d0) (\<lambda>_. swap_inv ws hash k d0) (swap_inv ws hash k d0) d"
  unfolding swap_in_def l
proof (rule wlp_try [OF wlp_activate_staged [OF ok m]])
  fix u :: unit and d' assume a: "active_state ws hash k d0 d'"
  have "keeps (active_state ws hash k d0) (if had_old then do_then (attempt (remove_managed backup)) (\<lambda>_. give ()) else give ())"
    by (intro keeps_rules keeps_remove_backup [OF ok l(2)])
  then have "keeps (active_state ws hash k d0) (do_then (sync_folder (locate (ws_root ws)))
      (\<lambda>_. if had_old then do_then (attempt (remove_managed backup)) (\<lambda>_. give ()) else give ()))"
    by (intro keeps_do_then keeps_sync_folder)
  note kept = keepsD [OF this a]
  show "wlp F (case Inr u of
       Inl e \<Rightarrow> do_then (if had_old then do_then (attempt (rename_entry (aside k) (target k))) (\<lambda>_. give ()) else give ()) (\<lambda>_. raise (WorkspaceIo e))
     | Inr _ \<Rightarrow> do_then (sync_folder (locate (ws_root ws)))
         (\<lambda>_. if had_old then do_then (attempt (remove_managed backup)) (\<lambda>_. give ()) else give ()))
     (\<lambda>_. active_state ws hash k d0) (\<lambda>_. swap_inv ws hash k d0) (swap_inv ws hash k d0) d'"
    unfolding sum.case by (rule wlp_mono [OF kept]) (use states_inv(3) in simp_all)
next
  fix e d' assume d': "d' = d"
  show "wlp F (case Inl e of
       Inl e \<Rightarrow> do_then (if had_old then do_then (attempt (rename_entry (aside k) (target k))) (\<lambda>_. give ()) else give ()) (\<lambda>_. raise (WorkspaceIo e))
     | Inr _ \<Rightarrow> do_then (sync_folder (locate (ws_root ws)))
         (\<lambda>_. if had_old then do_then (attempt (remove_managed backup)) (\<lambda>_. give ()) else give ()))
     (\<lambda>_. active_state ws hash k d0) (\<lambda>_. swap_inv ws hash k d0) (swap_inv ws hash k d0) d'"
    unfolding sum.case d'
  proof (cases had_old)
    case True
    have m': "moved_state ws hash k d0 True d" using m True by simp
    show "wlp F (do_then (if had_old then do_then (attempt (rename_entry (aside k) (target k))) (\<lambda>_. give ()) else give ()) (\<lambda>_. raise (WorkspaceIo e)))
     (\<lambda>_. active_state ws hash k d0) (\<lambda>_. swap_inv ws hash k d0) (swap_inv ws hash k d0) d"
      using True by (auto intro!: wlp_do_then wlp_attempt wlp_mono [OF wlp_put_back [OF ok m']] wlp_give wlp_raise)
  next
    case False
    then show "wlp F (do_then (if had_old then do_then (attempt (rename_entry (aside k) (target k))) (\<lambda>_. give ()) else give ()) (\<lambda>_. raise (WorkspaceIo e)))
     (\<lambda>_. active_state ws hash k d0) (\<lambda>_. swap_inv ws hash k d0) (swap_inv ws hash k d0) d"
      using states_inv(2) [OF m] by (auto intro!: wlp_do_then wlp_give wlp_raise)
  qed
qed (use states_inv(2) [OF m] in auto)

lemma wlp_replace_at:
  assumes ok: "swap_ok ws k" and l: "locate p = target k" "locate backup = aside k" "locate staging = staged k"
    and b: "entry (aside k) d0 = None"
  shows "wlp F (replace_at ws hash staging p backup) (\<lambda>_. active_state ws hash k d0) (\<lambda>_. swap_inv ws hash k d0) (swap_inv ws hash k d0) d0"
proof -
  have away: "unrelated (locate staging) (ws_blobs ws)"
    using ok tree.unrelated_inside [of "sw_root k" "ws_blobs ws" "[sw_stage k]"] by (simp add: swap_ok_def l staged_def)
  have codec: "utf8_codec (ws_codec ws)" using ok by (simp add: swap_ok_def)
  have outside: "swap_inv ws hash k d0 d \<and> entry (target k) d = entry (target k) d0 \<and> entry (aside k) d = None \<and> elsewhere k d0 d"
    if "tree.away (locate staging) d0 d" for d
  proof -
    have aw: "tree.away (sw_root k @ [sw_stage k]) d0 d" using that by (simp add: l staged_def)
    have "entry (target k) d = entry (target k) d0" "entry (aside k) d = entry (aside k) d0"
      by (rule tree.away_entry [OF aw]; use ok in \<open>auto simp: swap_ok_def target_def aside_def\<close>)+
    then show ?thesis using elsewhere_step [OF elsewhere_refl aw] b by (simp add: swap_inv_def not_lost_def)
  qed
  have stage: "wlp F (materialize_to ws hash staging) (\<lambda>_. staged_state ws hash k d0) (\<lambda>_. swap_inv ws hash k d0) (swap_inv ws hash k d0) d0"
    unfolding materialize_to_def
  proof (rule wlp_seq [where R = "\<lambda>r d. verify_materialized_snapshot (ws_codec ws) (ws_sha ws) (ws_blobs ws) hash (locate staging) d = Inr r
        \<and> tree.away (locate staging) d0 d"])
    show "wlp F (wrap WorkspaceSnapshot (materialize_snapshot (ws_codec ws) (ws_sha ws) (ws_blobs ws) hash staging))
      (\<lambda>r d. verify_materialized_snapshot (ws_codec ws) (ws_sha ws) (ws_blobs ws) hash (locate staging) d = Inr r
        \<and> tree.away (locate staging) d0 d) (\<lambda>_. swap_inv ws hash k d0) (swap_inv ws hash k d0) d0"
      by (rule wlp_wrap, rule wlp_mono [OF wlp_materialize_snapshot [OF codec away]]) (use outside in auto)
    fix r d assume a: "verify_materialized_snapshot (ws_codec ws) (ws_sha ws) (ws_blobs ws) hash (locate staging) d = Inr r
        \<and> tree.away (locate staging) d0 d"
    then have "staged_state ws hash k d0 d" using outside [of d] l(3) by (auto simp: staged_state_def holds_snapshot_def)
    then show "wlp F (sync_folder (locate (ws_root ws))) (\<lambda>_. staged_state ws hash k d0) (\<lambda>_. swap_inv ws hash k d0) (swap_inv ws hash k d0) d"
      by (rule wlp_mono [OF keepsD [OF keeps_sync_folder]]) (use states_inv(1) in simp_all)
  qed
  show ?thesis unfolding replace_at_def
    by (rule wlp_seq [OF stage], rule wlp_seq [OF wlp_set_aside [OF ok _ l(1,2)]], assumption, rule wlp_swap_in [OF ok _ l], assumption)
qed

section \<open>The replacement\<close>

definition swap_of :: "workspace_store \<Rightarrow> string \<Rightarrow> string \<Rightarrow> string \<Rightarrow> swap" where
  "swap_of ws stage_uuid backup_uuid skill = \<lparr>sw_root = locate (ws_root ws), sw_name = ws_sha ws skill,
     sw_stage = reserved_prefix @ ''stage-'' @ stage_uuid, sw_backup = reserved_prefix @ ''backup-'' @ backup_uuid\<rparr>"

lemma locate_plain_child:
  "is_absolute root \<Longrightarrow> CHR ''/'' \<notin> set c \<Longrightarrow> c \<noteq> [] \<Longrightarrow> c \<noteq> ''.'' \<Longrightarrow> c \<noteq> ''..'' \<Longrightarrow> locate (path_join root c) = locate root @ [c]"
  by (rule locate_child) (auto simp: is_absolute_def split_on_no_sep_id segment_component_def split: list.splits)

lemma canonical_plain: "canonical_digest c \<Longrightarrow> CHR ''/'' \<notin> set c \<and> 2 < length c \<and> CHR ''.'' \<notin> set c"
proof -
  assume c: "canonical_digest c"
  have "\<not> is_lower_hexdigit (CHR ''/'')" "\<not> is_lower_hexdigit (CHR ''.'')" by (simp_all add: is_lower_hexdigit_def byte_def)
  with c show ?thesis by (auto simp: canonical_digest_def list_all_iff)
qed

lemma swap_of_ok:
  assumes "is_absolute (ws_root ws)" and "canonical_digest (ws_sha ws skill)" and "CHR ''/'' \<notin> set (stage_uuid @ backup_uuid)"
    and "unrelated (locate (ws_root ws)) (ws_blobs ws)" and "utf8_codec (ws_codec ws)"
  defines "k \<equiv> swap_of ws stage_uuid backup_uuid skill"
  shows "swap_ok ws k" and "locate (path_join (ws_root ws) (ws_sha ws skill)) = target k"
    and "locate (path_join (ws_root ws) (reserved_prefix @ ''stage-'' @ stage_uuid)) = staged k"
    and "locate (path_join (ws_root ws) (reserved_prefix @ ''backup-'' @ backup_uuid)) = aside k"
proof -
  note c = canonical_plain [OF assms(2)]
  then have plain: "ws_sha ws skill \<noteq> []" "ws_sha ws skill \<noteq> ''.''" "ws_sha ws skill \<noteq> ''..''" by auto
  have "ws_sha ws skill \<noteq> reserved_prefix @ x" for x using c by (auto simp: reserved_prefix_def)
  then show "swap_ok ws k" using assms(4,5) by (auto simp: swap_ok_def k_def swap_of_def reserved_prefix_def)
  show "locate (path_join (ws_root ws) (ws_sha ws skill)) = target k"
    using locate_plain_child [OF assms(1) conjunct1 [OF c] plain] by (simp add: target_def k_def swap_of_def)
  show "locate (path_join (ws_root ws) (reserved_prefix @ ''stage-'' @ stage_uuid)) = staged k"
    using locate_plain_child [OF assms(1), of "reserved_prefix @ ''stage-'' @ stage_uuid"] assms(3)
    by (simp add: staged_def k_def swap_of_def reserved_prefix_def)
  show "locate (path_join (ws_root ws) (reserved_prefix @ ''backup-'' @ backup_uuid)) = aside k"
    using locate_plain_child [OF assms(1), of "reserved_prefix @ ''backup-'' @ backup_uuid"] assms(3)
    by (simp add: aside_def k_def swap_of_def reserved_prefix_def)
qed

lemma wlp_replace_snapshot:
  assumes "is_absolute (ws_root ws)" and "canonical_digest (ws_sha ws skill)" and "CHR ''/'' \<notin> set (stage_uuid @ backup_uuid)"
    and "unrelated (locate (ws_root ws)) (ws_blobs ws)" and "utf8_codec (ws_codec ws)"
  defines "k \<equiv> swap_of ws stage_uuid backup_uuid skill"
  assumes b: "entry (aside k) d0 = None"
  shows "wlp F (replace_snapshot ws stage_uuid backup_uuid skill hash)
     (\<lambda>ref d. active_state ws hash k d0 d \<and> ref = \<lparr>wr_skill_id = skill, wr_path = path_join (ws_root ws) (ws_sha ws skill)\<rparr>)
     (\<lambda>_. swap_inv ws hash k d0) (swap_inv ws hash k d0) d0"
proof -
  note k = swap_of_ok [OF assms(1-5), folded k_def]
  have inv: "swap_inv ws hash k d0 d0" by (simp add: swap_inv_def elsewhere_refl not_lost_def)
  note at = wlp_replace_at [OF k(1,2,4,3) b, of F hash]
  note keep = keeps_remove_staging [OF k(1,3), of hash d0]
  have cleanup: "wlp F (do_then (attempt (remove_managed (path_join (ws_root ws) (reserved_prefix @ ''stage-'' @ stage_uuid)))) (\<lambda>_. raise e))
     Q (\<lambda>_. swap_inv ws hash k d0) (swap_inv ws hash k d0) d" if "swap_inv ws hash k d0 d"
     for e :: workspace_error and d and Q :: "workspace_ref \<Rightarrow> node \<Rightarrow> bool"
    by (rule wlp_keeps_seq [OF keeps_attempt [OF keep] that]) (simp_all add: wlp_raise)
  let ?Q = "\<lambda>ref d. active_state ws hash k d0 d \<and> ref = \<lparr>wr_skill_id = skill, wr_path = path_join (ws_root ws) (ws_sha ws skill)\<rparr>"
  show ?thesis unfolding replace_snapshot_def Let_def
  proof (rule wlp_do_then, rule wlp_from_result)
    fix p assume "path_for_skill ws skill = Inr p"
    then have p: "p = path_join (ws_root ws) (ws_sha ws skill)" by (simp add: path_for_skill_def and_then_Inr_iff)
    show "wlp F (do_then (attempt (replace_at ws hash (path_join (ws_root ws) (reserved_prefix @ ''stage-'' @ stage_uuid)) p
           (path_join (ws_root ws) (reserved_prefix @ ''backup-'' @ backup_uuid)))) (\<lambda>r. case r of
         Inl e \<Rightarrow> do_then (attempt (remove_managed (path_join (ws_root ws) (reserved_prefix @ ''stage-'' @ stage_uuid)))) (\<lambda>_. raise e)
       | Inr _ \<Rightarrow> give \<lparr>wr_skill_id = skill, wr_path = p\<rparr>)) ?Q (\<lambda>_. swap_inv ws hash k d0) (swap_inv ws hash k d0) d0"
      unfolding p by (rule wlp_try [OF at]) (use cleanup in \<open>simp_all add: wlp_give\<close>)
  qed (rule inv)
qed

section \<open>Importing a snapshot\<close>

lemma path_for_skill_at:
  "path_for_skill ws skill = Inr p \<Longrightarrow> is_absolute (ws_root ws) \<Longrightarrow> canonical_digest (ws_sha ws skill) \<Longrightarrow>
     p = path_join (ws_root ws) (ws_sha ws skill) \<and> locate p = locate (ws_root ws) @ [ws_sha ws skill]"
  using locate_plain_child [of "ws_root ws" "ws_sha ws skill"] canonical_plain [of "ws_sha ws skill"]
  by (fastforce simp: path_for_skill_def and_then_Inr_iff)

lemma wlp_import_snapshot:
  assumes "is_absolute (ws_root ws)" and "canonical_digest (ws_sha ws skill)" and "unrelated (locate (ws_root ws)) (ws_blobs ws)"
    and codec: "utf8_codec (ws_codec ws)"
  defines "p \<equiv> locate (ws_root ws) @ [ws_sha ws skill]"
  shows "wlp F (import_snapshot ws skill hash)
     (\<lambda>w d'. w = \<lparr>wr_skill_id = skill, wr_path = path_join (ws_root ws) (ws_sha ws skill)\<rparr> \<and> locate (wr_path w) = p
        \<and> (\<exists>r. materialized (ws_codec ws) (ws_sha ws) (ws_blobs ws) hash p r d') \<and> tree.away p d d')
     (\<lambda>_. tree.away p d) (tree.away p d) d"
  unfolding import_snapshot_def
proof (rule wlp_do_then, rule wlp_from_result)
  fix path assume "path_for_skill ws skill = Inr path"
  then have path: "path = path_join (ws_root ws) (ws_sha ws skill)" "locate path = p"
    using path_for_skill_at assms(1,2) by (auto simp: p_def)
  let ?Q = "\<lambda>w d'. w = \<lparr>wr_skill_id = skill, wr_path = path_join (ws_root ws) (ws_sha ws skill)\<rparr> \<and> locate (wr_path w) = p
        \<and> (\<exists>r. materialized (ws_codec ws) (ws_sha ws) (ws_blobs ws) hash p r d') \<and> tree.away p d d'"
  let ?A = "tree.away p d"
  let ?R = "\<lambda>(_ :: unit) d'. (\<exists>r. materialized (ws_codec ws) (ws_sha ws) (ws_blobs ws) hash p r d') \<and> ?A d'"
  have away: "unrelated (locate path) (ws_blobs ws)" using tree.unrelated_inside [OF assms(3)] by (simp add: path(2) p_def)
  have "wlp F (materialize_to ws hash path) ?R (\<lambda>_. ?A) ?A d"
    unfolding materialize_to_def
  proof (rule wlp_seq [where R = "\<lambda>_. ?R ()" and ER = "\<lambda>_. ?A" and HR = ?A])
    show "wlp F (wrap WorkspaceSnapshot (materialize_snapshot (ws_codec ws) (ws_sha ws) (ws_blobs ws) hash path)) (\<lambda>_. ?R ()) (\<lambda>_. ?A) ?A d"
      by (rule wlp_wrap, rule wlp_mono [OF wlp_materialized [OF codec away]]) (auto simp: path(2))
    fix u d' assume "?R () d'"
    then show "wlp F (sync_folder (locate (ws_root ws))) ?R (\<lambda>_. ?A) ?A d'"
      by (intro wlp_mono [OF keepsD [OF keeps_sync_folder [where P = "?R ()"]]]) simp_all
  qed simp_all
  then have lay: "wlp F (do_then (materialize_to ws hash path) (\<lambda>_. give \<lparr>wr_skill_id = skill, wr_path = path\<rparr>)) ?Q (\<lambda>_. ?A) ?A d"
    by (rule wlp_seq) (auto intro!: wlp_give simp: path [symmetric])
  show "wlp F (do_then (attempt (metadata (locate path))) (\<lambda>r. case r of
       Inr _ \<Rightarrow> raise (WorkspaceExists path)
     | Inl e \<Rightarrow>
         if e \<noteq> NotFound then raise (WorkspaceIo e)
         else do_then (materialize_to ws hash path) (\<lambda>_. give \<lparr>wr_skill_id = skill, wr_path = path\<rparr>))) ?Q (\<lambda>_. ?A) ?A d"
    by (rule wlp_do_then, rule wlp_attempt, rule wlp_metadata) (auto simp: tree.away_refl lay wlp_raise)
qed (rule tree.away_refl)

text \<open>C31: A workspace is never lost: whatever file call of \<open>replace_snapshot\<close> fails and wherever the process
  dies, the folder of the skill holds what it held before, or verifies as the new snapshot, or is
  absent while all it held lies in the backup folder beside it; when the call returns, it verifies as
  the new snapshot; and nothing else in the workspace root has changed but the staging folder. The
  root is an absolute path apart from the blob store, the digest is a SHA-256 digest, the identifiers
  of the two temporary folders are plain names and the backup's is fresh; the JSON reader only has to
  return UTF-8 strings.\<close>

theorem replaced_workspaces_are_never_lost:
  fixes ws :: workspace_store and hash skill stage_uuid backup_uuid y :: string and d :: node and q :: location
  assumes "is_absolute (ws_root ws)" and "canonical_digest (ws_sha ws skill)" and "CHR ''/'' \<notin> set (stage_uuid @ backup_uuid)"
    and "unrelated (locate (ws_root ws)) (ws_blobs ws)" and "utf8_codec (ws_codec ws)"
  defines "names \<equiv> [ws_sha ws skill, reserved_prefix @ ''stage-'' @ stage_uuid, reserved_prefix @ ''backup-'' @ backup_uuid]"
    and "verifies \<equiv> \<lambda>p d. \<exists>r. verify_materialized_snapshot (ws_codec ws) (ws_sha ws) (ws_blobs ws) hash p d = Inr r"
  assumes fresh: "entry (locate (ws_root ws) @ [names ! 2]) d = None"
    and run: "r = replace_snapshot ws stage_uuid backup_uuid skill hash \<lparr>disk = d, schedule = s\<rparr>"
  shows "(case r of Done ref w \<Rightarrow> verifies (locate (wr_path ref)) (disk w) \<and> locate (wr_path ref) = locate (ws_root ws) @ [names ! 0] | _ \<Rightarrow> True)
    \<and> (entry (locate (ws_root ws) @ [names ! 0]) (run_disk r) = entry (locate (ws_root ws) @ [names ! 0]) d
       \<or> entry (locate (ws_root ws) @ [names ! 0]) (run_disk r) = None
         \<and> entry (locate (ws_root ws) @ [names ! 2]) (run_disk r) = entry (locate (ws_root ws) @ [names ! 0]) d
       \<or> verifies (locate (ws_root ws) @ [names ! 0]) (run_disk r))
    \<and> (y \<notin> set names \<longrightarrow> entry (locate (ws_root ws) @ y # q) (run_disk r) = entry (locate (ws_root ws) @ y # q) d)"
proof -
  let ?k = "swap_of ws stage_uuid backup_uuid skill"
  have at: "target ?k = locate (ws_root ws) @ [names ! 0]" "aside ?k = locate (ws_root ws) @ [names ! 2]" "sw_root ?k = locate (ws_root ws)"
    and set: "{sw_name ?k, sw_stage ?k, sw_backup ?k} = set names"
    by (simp_all add: target_def aside_def swap_of_def names_def)
  have holds: "holds_snapshot ws hash p d' = verifies p d'" for p d' by (simp add: holds_snapshot_def verifies_def)
  have "entry (aside ?k) d = None" using fresh by (simp only: at)
  note run' = wlp_run [OF wlp_replace_snapshot [OF assms(1-5) this] run]
  have inv: "swap_inv ws hash ?k d (run_disk r)"
    using run' states_inv(3) by (cases r) (auto simp: run_disk_def)
  have "case r of Done ref w \<Rightarrow> verifies (locate (wr_path ref)) (disk w) \<and> locate (wr_path ref) = locate (ws_root ws) @ [names ! 0] | _ \<Rightarrow> True"
    using run' swap_of_ok(2) [OF assms(1-5)] by (cases r) (auto simp: active_state_def holds at)
  then show ?thesis using inv by (simp add: swap_inv_def not_lost_def elsewhere_def at set holds)
qed

definition sample_workspaces :: workspace_store where
  "sample_workspaces = \<lparr>ws_root = ''/ws'', ws_codec = sample_codec, ws_sha = sample_sha, ws_blobs = [''blobs'']\<rparr>"

definition old_workspace :: node where
  "old_workspace = Folder [(''blobs'', Materialize.sample_store), (''ws'', Folder [(sample_sha ''k'', Folder [(''SKILL.md'', Plain ''old'')])])]"

text \<open>The process dies between the two renames: the old folder lies in the backup, and the store finds
  no workspace.\<close>

definition torn_replacement :: "(workspace_error, workspace_ref) run" where
  "torn_replacement = replace_snapshot sample_workspaces ''s'' ''b'' ''k'' (hash_bytes sample_sha ''M'')
     \<lparr>disk = old_workspace, schedule = replicate 11 Go @ [Crash 0]\<rparr>"

theorem replaced_workspaces_are_never_lost_witness:
  "entry [''ws'', sample_sha ''k''] old_workspace = Some (Folder [(''SKILL.md'', Plain ''old'')])
   \<and> entry [''ws'', sample_sha ''k''] (run_disk torn_replacement) = None
   \<and> entry [''ws'', ''.skillhive-backup-b''] (run_disk torn_replacement) = entry [''ws'', sample_sha ''k''] old_workspace"
proof -
  have root: "locate (ws_root sample_workspaces) = [''ws'']" by code_simp
  have 1: "is_absolute (ws_root sample_workspaces)" "canonical_digest (ws_sha sample_workspaces ''k'')"
      "CHR ''/'' \<notin> set (''s'' @ ''b'')" by code_simp+
  have 2: "unrelated (locate (ws_root sample_workspaces)) (ws_blobs sample_workspaces)" "utf8_codec (ws_codec sample_workspaces)"
    using sample_codec_utf8 by (simp_all add: root) (simp_all add: sample_workspaces_def)
  have 3: "entry (locate (ws_root sample_workspaces) @ [[ws_sha sample_workspaces ''k'', reserved_prefix @ ''stage-'' @ ''s'', reserved_prefix @ ''backup-'' @ ''b''] ! 2]) old_workspace = None"
    by code_simp
  have 4: "entry [''ws'', sample_sha ''k''] old_workspace = Some (Folder [(''SKILL.md'', Plain ''old'')])"
    "entry [''ws'', sample_sha ''k''] (run_disk torn_replacement) = None" by code_simp+
  have 5: "\<not> (\<exists>r. verify_materialized_snapshot (ws_codec sample_workspaces) (ws_sha sample_workspaces) (ws_blobs sample_workspaces)
      (hash_bytes sample_sha ''M'') [''ws'', sample_sha ''k''] (run_disk torn_replacement) = Inr r)"
    unfolding holds_snapshot_def [symmetric] by (rule notI, drule holds_snapshot_folder) (simp add: 4(2))
  have names: "ws_sha sample_workspaces = sample_sha" by (simp add: sample_workspaces_def)
  show ?thesis
    using replaced_workspaces_are_never_lost [OF 1 2 3 torn_replacement_def] 4 5 by (simp add: root names reserved_prefix_def)
qed

end
