(* ===== verification/Captures.thy ===== *)
theory Captures
  imports Materialize
begin

text \<open>
  Capturing a folder writes blobs only, and what it captures verifies: the snapshot it returns is the one
  the folder holds.
\<close>

section \<open>The blob store only grows\<close>

text \<open>What a write of blobs leaves of the disk: everything outside the blob store, and every blob.\<close>

definition blobs_grow :: "sha \<Rightarrow> location \<Rightarrow> node \<Rightarrow> node \<Rightarrow> bool" where
  "blobs_grow sha root d0 d \<longleftrightarrow> tree.away root d0 d
     \<and> (\<forall>h c. read_blob sha root h d0 = Inr c \<longrightarrow> read_blob sha root h d = Inr c)"

lemma blobs_grow_refl: "blobs_grow sha root d d"
  by (simp add: blobs_grow_def tree.away_refl)

lemma blobs_grow_trans: "blobs_grow sha root a b \<Longrightarrow> blobs_grow sha root b c \<Longrightarrow> blobs_grow sha root a c"
  by (auto simp: blobs_grow_def intro: tree.away_trans)

text \<open>The invariant of a write below the folder \<open>r\<close>\<close>

definition below :: "location \<Rightarrow> node \<Rightarrow> node \<Rightarrow> bool" where
  "below r d0 d \<longleftrightarrow> is_folder r d \<and> tree.away r d0 d"

lemma below_step: "below r d0 d \<Longrightarrow> tree.away (r @ x # q) d d' \<Longrightarrow> below r d0 d'"
  unfolding below_def by (auto intro: tree.away_trans tree.away_inside tree.away_folder simp: strict_prefix_def)

lemma below_put: "below r d0 d \<Longrightarrow> below r d0 (put_entry (r @ x # q) v d)"
  by (rule below_step [OF _ tree.away_put])

lemma keeps_below: "confined (r @ x # q) m \<Longrightarrow> keeps (below r d0) m"
  by (rule keeps_confined) (auto intro: below_step)

lemma keeps_below_rename: "keeps (below r d0) (rename_entry (r @ x # p) (r @ y # q))"
  unfolding rename_entry_def
  by (rule keeps_atomic) (auto simp: and_then_Inr_iff ensure_Inr_iff split: if_splits intro: below_put)

lemma keeps_below_folder: "keeps (below r d0) (ensure_real_directory (r @ x # q))"
  unfolding ensure_real_directory_def make_real_directory_def sync_real_parent_def
proof (intro keeps_rules keeps_create_dir_all)
  fix p d assume p: "prefix p (r @ x # q)" and i: "below r d0 d" and none: "entry p d = None"
  have "\<not> prefix p r" using is_folder_prefix [of r d p] none i by (auto simp: below_def is_folder_iff)
  then obtain y s where "p = r @ y # s" using p by (auto simp: prefix_append prefix_Cons)
  then show "below r d0 (put_entry p (Some (Folder [])) d)" using below_put [OF i] by simp
qed

lemma keeps_below_put: "keeps (below r d0) (put_at sha root hash (r @ x # p) (r @ y # q) content)"
  unfolding put_at_def store_new_def write_blob_def rename_or_reuse_def reuse_existing_def
  by (intro keeps_rules keeps_below_rename keeps_below [OF confined_writes(2)] keeps_below [OF confined_writes(4)]
      keeps_below [OF confined_writes(5)])

lemma wlp_conj:
  assumes "wlp F m Q E H d" and "wlp F m Q' E' H' d"
  shows "wlp F m (\<lambda>a d. Q a d \<and> Q' a d) (\<lambda>e d. E e d \<and> E' e d) (\<lambda>d. H d \<and> H' d) d"
  using assms unfolding wlp_def by (fastforce split: run.splits)

lemma wlp_put:
  assumes form: "\<And>b. canonical_digest (sha b)"
  shows "wlp F (put_bytes sha root uuid content) (\<lambda>r d'. blobs_grow sha root d d' \<and> r = \<lparr>br_hash = hash_bytes sha content, br_size_bytes = length content\<rparr>
       \<and> (\<exists>c. read_blob sha root (hash_bytes sha content) d' = Inr c)) (\<lambda>_. blobs_grow sha root d) (blobs_grow sha root d) d"
proof -
  let ?v = "sha content"
  let ?D = "root @ [''sha256'', take 2 ?v, ?v]"
  have D: "path_for_hash root (hash_bytes sha content) = Inr ?D" by (simp add: hash_bytes_def canonical_path form)
  let ?P = "\<lambda>d'. d' = d \<or> below root d d'"
  have away: "wlp F (put_bytes sha root uuid content) (\<lambda>_. ?P) (\<lambda>_. ?P) ?P d"
    unfolding put_bytes_def Let_def D
  proof (rule wlp_do_then, rule wlp_query)
    fix u assume "validate_storage_roots root d = Inr u"
    then have b: "below root d d" by (simp add: validate_storage_roots_Inr below_def tree.away_refl)
    have "keeps (below root d) (do_then (ensure_real_directory (butlast ?D)) (\<lambda>_.
       do_then (put_at sha root (hash_bytes sha content) (butlast ?D @ [temp_name uuid]) ?D content) (\<lambda>_.
       give \<lparr>br_hash = hash_bytes sha content, br_size_bytes = length content\<rparr>)))"
      by (intro keeps_rules) (simp_all add: butlast_append keeps_below_folder keeps_below_put)
    note kept = keepsD [OF this b]
    show "wlp F (do_then (from_result (Inr ?D)) (\<lambda>destination.
       do_then (ensure_real_directory (butlast destination)) (\<lambda>_.
       do_then (put_at sha root (hash_bytes sha content) (butlast destination @ [temp_name uuid]) destination content) (\<lambda>_.
       give \<lparr>br_hash = hash_bytes sha content, br_size_bytes = length content\<rparr>)))) (\<lambda>_. ?P) (\<lambda>_. ?P) ?P d"
      by (rule wlp_do_then, rule wlp_from_result; clarsimp) (rule wlp_mono [OF kept]; simp)
  qed simp_all
  have reads: "read_blob sha root h d' = Inr c"
    if "d' = d \<or> blob_inv root ?D content d d'" "read_blob sha root h d = Inr c" for d' h c
  proof -
    have "is_folder root d" "is_folder (root @ [''sha256'']) d" using that(2) by (auto simp: read_blob_Inr)
    then show ?thesis using that blob_inv_read(1) [OF _ D] by blast
  qed
  note both = wlp_conj [OF wlp_put_bytes [where sha = sha and root = root and content = content and F = F and uuid = uuid and d = d, OF form D] away]
  have grown: "blobs_grow sha root d d'" if "d' = d \<or> blob_inv root ?D content d d'" and "?P d'" for d'
  proof -
    have "tree.away root d d'" using that(2) by (auto simp: below_def tree.away_refl)
    then show ?thesis using reads [OF that(1)] by (simp add: blobs_grow_def)
  qed
  show ?thesis
  proof (rule wlp_mono [OF both])
    fix a d' assume "(blob_inv root ?D content d d' \<and> a = \<lparr>br_hash = hash_bytes sha content, br_size_bytes = length content\<rparr>
       \<and> (\<exists>c. read_blob sha root (hash_bytes sha content) d' = Inr c)) \<and> ?P d'"
    then show "blobs_grow sha root d d' \<and> a = \<lparr>br_hash = hash_bytes sha content, br_size_bytes = length content\<rparr>
       \<and> (\<exists>c. read_blob sha root (hash_bytes sha content) d' = Inr c)" using grown [of d'] by blast
  next
    fix e :: blob_error and d' assume "(d' = d \<or> blob_inv root ?D content d d') \<and> ?P d'"
    then show "blobs_grow sha root d d'" using grown [of d'] by blast
  next
    fix d' assume "(d' = d \<or> blob_inv root ?D content d d') \<and> ?P d'"
    then show "blobs_grow sha root d d'" using grown [of d'] by blast
  qed
qed



lemma keeps_put: "(\<And>b. canonical_digest (sha b)) \<Longrightarrow> keeps (blobs_grow sha root d0) (put_bytes sha root uuid content)"
  unfolding keeps_def by (auto intro!: wlp_mono [OF wlp_put] intro: blobs_grow_trans)

lemma keeps_capture:
  assumes form: "\<And>b. canonical_digest (sha b)"
  shows "keeps (blobs_grow sha root d0) (capture_workspace codec sha root w policy uuids)"
proof -
  have "keeps (blobs_grow sha root d0) (capture_files sha root W policy sources us t)" for W sources us t
    by (induction sources arbitrary: us t) (auto intro!: keeps_rules keeps_put [OF form] split: prod.split)
  then show ?thesis unfolding capture_workspace_def Let_def
    by (auto intro!: keeps_rules keeps_put [OF form] split: prod.split)
qed

section \<open>The captured files\<close>

text \<open>The manifest entry of the source \<open>(v, p)\<close> of the folder \<open>W\<close>\<close>

definition captured :: "sha \<Rightarrow> location \<Rightarrow> node \<Rightarrow> string \<times> location \<Rightarrow> snapshot_file \<Rightarrow> bool" where
  "captured sha W d = (\<lambda>(v, p) f. \<exists>c. entry (W @ p) d = Some (Plain c)
     \<and> f = \<lparr>sf_path = v, sf_blob_hash = hash_bytes sha c, sf_size_bytes = length c\<rparr>)"

lemma grown_outside:
  assumes "blobs_grow sha root d0 d" and "unrelated W root" shows "entry (W @ p) d = entry (W @ p) d0"
proof (rule tree.away_entry)
  show "tree.away root d0 d" using assms(1) by (simp add: blobs_grow_def)
  show "unrelated root (W @ p)" using tree.unrelated_inside [OF assms(2)] unrelated_sym by blast
qed

lemma read_regular_file_Inr: "read_regular_file p limit d = Inr c \<Longrightarrow> entry p d = Some (Plain c)"
  by (auto simp: read_regular_file_def and_then_Inr_iff stat_Found split: stat_result.split_asm node.split_asm)

lemma wlp_capture_files:
  assumes form: "\<And>b. canonical_digest (sha b)" and away: "unrelated W root"
  shows "blobs_grow sha root d0 d \<Longrightarrow> wlp F (capture_files sha root W policy sources uuids t)
     (\<lambda>(fs, u) d'. list_all2 (captured sha W d0) sources fs \<and> u = t + sum_list (map sf_size_bytes fs) \<and> blobs_grow sha root d0 d')
     (\<lambda>_. blobs_grow sha root d0) (blobs_grow sha root d0) d"
proof (induction sources arbitrary: uuids t d)
  case Nil
  then show ?case by (simp add: wlp_give)
next
  case (Cons s sources)
  let ?G = "blobs_grow sha root d0"
  obtain v p where s: "s = (v, p)" by (cases s)
  show ?case unfolding s capture_files.simps
  proof (rule wlp_do_then, rule wlp_query)
    fix content assume "read_regular_file (W @ p) (max_file_bytes policy) d = Inr content"
    then have c: "entry (W @ p) d0 = Some (Plain content)"
      using read_regular_file_Inr grown_outside [OF Cons.prems away] by metis
    let ?Q = "\<lambda>(fs, u) d'. list_all2 (captured sha W d0) ((v, p) # sources) fs \<and> u = t + sum_list (map sf_size_bytes fs) \<and> ?G d'"
    show "wlp F (do_then (from_result (add_and_enforce_total t (length content) policy)) (\<lambda>subtotal'.
        do_then (wrap SnapBlob (put_bytes sha root (hd uuids) content)) (\<lambda>blob.
        do_then (capture_files sha root W policy sources (tl uuids) subtotal') (\<lambda>(files, subtotal'').
        give (\<lparr>sf_path = v, sf_blob_hash = br_hash blob, sf_size_bytes = length content\<rparr> # files, subtotal''))))) ?Q (\<lambda>_. ?G) ?G d"
    proof (rule wlp_do_then, rule wlp_from_result)
      fix t' assume "add_and_enforce_total t (length content) policy = Inr t'"
      then have t': "t' = t + length content" by (auto simp: add_and_enforce_total_def Let_def split: if_splits)
      let ?rest = "\<lambda>blob. do_then (capture_files sha root W policy sources (tl uuids) t') (\<lambda>(files, subtotal'').
        give (\<lparr>sf_path = v, sf_blob_hash = br_hash blob, sf_size_bytes = length content\<rparr> # files, subtotal''))"
      have rest: "wlp F (?rest blob) ?Q (\<lambda>_. ?G) ?G d'" if b: "br_hash blob = hash_bytes sha content" and g: "?G d'" for blob d'
        by (rule wlp_do_then, rule wlp_mono [OF Cons.IH [OF g]])
          (auto intro!: wlp_give simp: b t' captured_def c)
      show "wlp F (do_then (wrap SnapBlob (put_bytes sha root (hd uuids) content)) ?rest) ?Q (\<lambda>_. ?G) ?G d"
      proof (rule wlp_do_then, rule wlp_wrap, rule wlp_mono [OF wlp_put [OF form]])
        fix blob d' assume "blobs_grow sha root d d' \<and> blob = \<lparr>br_hash = hash_bytes sha content, br_size_bytes = length content\<rparr>
           \<and> (\<exists>c. read_blob sha root (hash_bytes sha content) d' = Inr c)"
        then show "wlp F (?rest blob) ?Q (\<lambda>_. ?G) ?G d'" using blobs_grow_trans [OF Cons.prems] by (intro rest) auto
      qed (auto intro: blobs_grow_trans [OF Cons.prems])
    qed (rule Cons.prems)
  qed (use Cons.prems in simp_all)
qed


text \<open>The sources of a folder are its plain files, and it holds nothing but folders and plain files.\<close>

lemma push_source_Inr: "push_source policy p c out = Inr out' \<Longrightarrow> \<exists>v. relative_to_portable_path p = Inr v \<and> out' = out @ [(v, p)]"
  by (auto simp: push_source_def and_then_Inr_iff map_err_Inr_iff)

lemma fold_push_source:
  "fold_push (push_source policy) fs out = Inr out' \<Longrightarrow>
     (\<forall>(p, c) \<in> set fs. list_all valid_utf8 p) \<and> out' = out @ map (\<lambda>(p, c). (join_with (CHR ''/'') p, p)) fs"
proof (induction fs arbitrary: out)
  case (Cons f fs)
  obtain p c where f: "f = (p, c)" by (cases f)
  obtain v where v: "relative_to_portable_path p = Inr v" and rest: "fold_push (push_source policy) fs (out @ [(v, p)]) = Inr out'"
    using Cons.prems by (auto simp: f and_then_Inr_iff dest!: push_source_Inr)
  show ?case using Cons.IH [OF rest] v by (auto simp: f relative_to_portable_path_Inr)
qed simp

lemma workspace_sources_Inr:
  assumes "workspace_sources w policy d = Inr sources" and wf: "\<And>n. entry (locate w) d = Some n \<Longrightarrow> wf_node n"
  obtains es where "entry (locate w) d = Some (Folder es)" and "wf_node (Folder es)" and "plain_tree (Folder es)"
    and "\<forall>(p, c) \<in> plain_files (Folder es). \<forall>x \<in> set p. valid_utf8 x"
    and "set sources = (\<lambda>(p, c). (join_with (CHR ''/'') p, p)) ` plain_files (Folder es)"
proof -
  obtain es out where es: "entry (locate w) d = Some (Folder es)" and out: "collect_files policy es = Inr out" and src: "sources = sort_key fst out"
    using assms(1) by (auto simp: workspace_sources_def validate_workspace_root_def and_then_Inr_iff Let_def stat_Found
        split: stat_result.split_asm node.split_asm)
  note wf' = wf [OF es]
  then have wfs: "wf_node (Folder (sort_key fst es))" and dist: "distinct (map fst es)"
    by (simp_all only: wf_sort_key) simp
  have set: "set (flatten [] (sort_key fst es)) = plain_files (Folder es)"
    using set_flatten [OF wfs, of "[]"] plain_files_sort_key [OF dist] by simp
  from out have "plain_tree (Folder (sort_key fst es))" "fold_push (push_source policy) (flatten [] (sort_key fst es)) [] = Inr out"
    by (simp_all add: collect_files_def walk_files_Inr)
  with fold_push_source [OF this(2)] show ?thesis
    by (intro that [OF es wf']) (auto simp: src set list_all_iff)
qed

lemma captured_records:
  assumes "list_all2 (captured sha W d) sources fs" and "entry W d = Some (Folder es)"
    and "set sources = (\<lambda>(p, c). (join_with (CHR ''/'') p, p)) ` plain_files (Folder es)"
  shows "manifest_record ` set fs = file_record sha ` plain_files (Folder es)"
proof -
  have entry: "entry (W @ p) d = entry p (Folder es)" for p using assms(2) by (simp add: entry_append)
  have cap: "captured sha W d s f \<longleftrightarrow> (\<exists>c. (snd s, c) \<in> plain_files (Folder es) \<and> f = \<lparr>sf_path = fst s, sf_blob_hash = hash_bytes sha c, sf_size_bytes = length c\<rparr>)" for s f
    by (cases s) (simp add: captured_def entry plain_files_def)
  have unique: "c = c'" if "(p, c) \<in> plain_files (Folder es)" "(p, c') \<in> plain_files (Folder es)" for p c c'
    using that by (simp add: plain_files_def)
  show ?thesis
  proof (intro equalityI subsetI)
    fix r assume "r \<in> manifest_record ` set fs"
    then obtain f where f: "f \<in> set fs" "r = manifest_record f" by blast
    then obtain s where s: "s \<in> set sources" "captured sha W d s f"
      using assms(1) by (metis in_set_conv_nth list_all2_conv_all_nth)
    then obtain p c where p: "(p, c) \<in> plain_files (Folder es)" "s = (join_with (CHR ''/'') p, p)" using assms(3) by auto
    obtain c' where "(p, c') \<in> plain_files (Folder es)" and f': "f = \<lparr>sf_path = fst s, sf_blob_hash = hash_bytes sha c', sf_size_bytes = length c'\<rparr>"
      using s(2) p(2) by (auto simp: cap)
    then have "c' = c" using unique p(1) by blast
    then have "r = file_record sha (p, c)" using f' f(2) p(2) by (simp add: file_record_def manifest_record_def)
    then show "r \<in> file_record sha ` plain_files (Folder es)" using p(1) by blast
  next
    fix r assume "r \<in> file_record sha ` plain_files (Folder es)"
    then obtain p c where p: "(p, c) \<in> plain_files (Folder es)" "r = file_record sha (p, c)" by auto
    then have "(join_with (CHR ''/'') p, p) \<in> set sources" using assms(3) by force
    then obtain f where f: "f \<in> set fs" "captured sha W d (join_with (CHR ''/'') p, p) f"
      using assms(1) by (metis in_set_conv_nth list_all2_conv_all_nth)
    then obtain c' where "(p, c') \<in> plain_files (Folder es)" and f': "f = \<lparr>sf_path = join_with (CHR ''/'') p, sf_blob_hash = hash_bytes sha c', sf_size_bytes = length c'\<rparr>"
      by (auto simp: cap)
    then have "c' = c" using unique p(1) by blast
    then have "r = manifest_record f" using f' p(2) by (simp add: file_record_def manifest_record_def)
    then show "r \<in> manifest_record ` set fs" using f(1) by blast
  qed
qed

section \<open>What is captured verifies\<close>

text \<open>\<open>m\<close> is the manifest of the tree \<open>n\<close>.\<close>

definition describes :: "sha \<Rightarrow> snapshot_manifest \<Rightarrow> node \<Rightarrow> bool" where
  "describes sha m n \<longleftrightarrow> sm_format_version m = snapshot_format_version \<and> sorted_wrt (<) (map sf_path (sm_files m))
     \<and> manifest_record ` set (sm_files m) = file_record sha ` plain_files n"

text \<open>The manifest of \<open>n\<close> reads back from whatever has its digest.\<close>

definition reads_back :: "manifest_codec \<Rightarrow> sha \<Rightarrow> node \<Rightarrow> bool" where
  "reads_back codec sha n \<longleftrightarrow> (\<forall>m c. describes sha m n \<longrightarrow> sha c = sha (encode_manifest codec m) \<longrightarrow> decode_manifest codec c = Inr m)"

lemma wlp_capture_workspace:
  assumes form: "\<And>b. canonical_digest (sha b)" and away: "unrelated (locate w) root"
    and wf: "\<And>n. entry (locate w) d = Some n \<Longrightarrow> wf_node n \<and> reads_back codec sha n"
  shows "wlp F (capture_workspace codec sha root w default_policy uuids)
     (\<lambda>ref d'. verify_materialized_snapshot codec sha root (sr_manifest_hash ref) (locate w) d' = Inr ref \<and> blobs_grow sha root d d')
     (\<lambda>_. blobs_grow sha root d) (blobs_grow sha root d) d"
  unfolding capture_workspace_def
proof (rule wlp_do_then, rule wlp_query)
  let ?G = "blobs_grow sha root d" and ?W = "locate w"
  let ?Q = "\<lambda>ref d'. verify_materialized_snapshot codec sha root (sr_manifest_hash ref) ?W d' = Inr ref \<and> ?G d'"
  fix sources assume src: "workspace_sources w default_policy d = Inr sources"
  obtain es where es: "entry ?W d = Some (Folder es)" "wf_node (Folder es)" "plain_tree (Folder es)"
      "\<forall>(p, c) \<in> plain_files (Folder es). \<forall>x \<in> set p. valid_utf8 x" "set sources = (\<lambda>(p, c). (join_with (CHR ''/'') p, p)) ` plain_files (Folder es)"
    using workspace_sources_Inr [OF src] wf by blast
  have reads: "reads_back codec sha (Folder es)" using wf es(1) by blast
  let ?rest = "\<lambda>files subtotal. let m = \<lparr>sm_format_version = snapshot_format_version, sm_files = files\<rparr> in
     do_then (from_result (validate_manifest m default_policy)) (\<lambda>_.
     do_then (wrap SnapBlob (put_bytes sha root (last uuids) (encode_manifest codec m))) (\<lambda>blob.
     give \<lparr>sr_manifest_hash = br_hash blob, sr_file_count = length files, sr_total_bytes = subtotal\<rparr>))"
  have rest: "wlp F (?rest fs u) ?Q (\<lambda>_. ?G) ?G d'"
    if c: "list_all2 (captured sha ?W d) sources fs" and u: "u = sum_list (map sf_size_bytes fs)" and g: "?G d'" for fs u d'
    unfolding Let_def
  proof (rule wlp_do_then, rule wlp_from_result)
    let ?m = "\<lparr>sm_format_version = snapshot_format_version, sm_files = fs\<rparr>"
    fix v assume valid: "validate_manifest ?m default_policy = Inr v"
    then obtain b where "validate_files default_policy None False 0 fs = Inr b"
      by (auto simp: validate_manifest_def and_then_Inr_iff)
    from validate_files_Inr [OF this] have "sorted_wrt (<) (map sf_path fs)" by auto
    then have desc: "describes sha ?m (Folder es)" using captured_records [OF c es(1,5)] by (simp add: describes_def)
    show "wlp F (do_then (wrap SnapBlob (put_bytes sha root (last uuids) (encode_manifest codec ?m))) (\<lambda>blob.
       give \<lparr>sr_manifest_hash = br_hash blob, sr_file_count = length fs, sr_total_bytes = u\<rparr>)) ?Q (\<lambda>_. ?G) ?G d'"
    proof (rule wlp_do_then, rule wlp_wrap, rule wlp_mono [OF wlp_put [OF form]])
      fix blob x assume b: "blobs_grow sha root d' x \<and> blob = \<lparr>br_hash = hash_bytes sha (encode_manifest codec ?m), br_size_bytes = length (encode_manifest codec ?m)\<rparr>
         \<and> (\<exists>c. read_blob sha root (hash_bytes sha (encode_manifest codec ?m)) x = Inr c)"
      let ?h = "hash_bytes sha (encode_manifest codec ?m)"
      have g': "?G x" using b blobs_grow_trans [OF g] by blast
      obtain c where r: "read_blob sha root ?h x = Inr c" using b by blast
      then have "sha c = sha (encode_manifest codec ?m)" by (auto simp: read_blob_Inr hash_bytes_def)
      then have m: "read_manifest codec sha root ?h default_policy x = Inr ?m"
        using reads desc valid r by (auto simp: read_manifest_def reads_back_def)
      have "entry ?W x = Some (Folder es)" using grown_outside [OF g' away, of "[]"] es(1) by simp
      from verify_iff [OF this es(2) m] obtain ref where ref: "verify_materialized_snapshot codec sha root ?h ?W x = Inr ref"
        using es(3,4) desc by (auto simp: describes_def)
      with verify_total [OF ref m] g' b u
      show "wlp F (give \<lparr>sr_manifest_hash = br_hash blob, sr_file_count = length fs, sr_total_bytes = u\<rparr>) ?Q (\<lambda>_. ?G) ?G x"
        by (intro wlp_give) simp
    qed (auto intro: blobs_grow_trans [OF g])
  qed (rule g)
  show "wlp F (do_then (capture_files sha root (locate w) default_policy sources uuids 0) (\<lambda>(files, subtotal). ?rest files subtotal)) ?Q (\<lambda>_. ?G) ?G d"
    by (rule wlp_do_then, rule wlp_mono [OF wlp_capture_files [OF form away blobs_grow_refl]]) (auto intro!: rest)
qed (simp_all add: blobs_grow_refl)

text \<open>C32: Capturing and verifying are inverse: whatever calls fail on the way, when capturing a folder returns,
  the folder verifies as the snapshot it returned, with the same count of files and bytes; and in every
  end, dying included, the folder and everything else outside the blob store is as before and every
  blob is still there. The tree is one a file system can hold, the folder lies apart from the blob store,
  and the manifest reads back from what has its digest.\<close>

theorem captured_snapshots_verify:
  assumes "\<And>b. canonical_digest (sha b)" and "unrelated (locate w) root"
    and "\<And>n. entry (locate w) d = Some n \<Longrightarrow> wf_node n \<and> reads_back codec sha n"
    and run: "r = capture_workspace codec sha root w default_policy uuids \<lparr>disk = d, schedule = s\<rparr>"
  shows "(case r of Done ref w' \<Rightarrow> verify_materialized_snapshot codec sha root (sr_manifest_hash ref) (locate w) (disk w') = Inr ref | _ \<Rightarrow> True)
    \<and> (unrelated root q \<longrightarrow> entry q (run_disk r) = entry q d)
    \<and> (\<forall>h c. read_blob sha root h d = Inr c \<longrightarrow> read_blob sha root h (run_disk r) = Inr c)"
  using wlp_run [OF wlp_capture_workspace [OF assms(1-3)] run] tree.away_entry [of root d]
  by (cases r) (auto simp: run_disk_def blobs_grow_def)

end
