(* ===== verification/Hydration_Safety.thy ===== *)
theory Hydration_Safety
  imports Hydration Workspace_Safety Captures
begin

text \<open>
  A hydration that returns leaves the skill laid out: its folder verifies as the content of its row, which
  is synced. A hydration that does not return leaves the row as it was.
\<close>

section \<open>The blob store only grows\<close>

abbreviation blobs_kept :: "hydrate_env \<Rightarrow> node \<Rightarrow> node \<Rightarrow> bool" where
  "blobs_kept env \<equiv> blobs_grow (ws_sha (he_workspaces env)) (ws_blobs (he_workspaces env))"

lemma keeps_ensure_closure:
  assumes form: "\<And>b. canonical_digest (ws_sha (he_workspaces env) b)"
  shows "keeps (blobs_kept env d0) (ensure_closure_local env sv n hash)"
proof -
  let ?G = "blobs_kept env d0"
  have "keeps ?G (put_bytes (ws_sha (he_workspaces env)) (ws_blobs (he_workspaces env)) uuid content)" for uuid content
    unfolding keeps_def
  proof (intro allI impI)
    fix F d assume g: "?G d"
    show "wlp F (put_bytes (ws_sha (he_workspaces env)) (ws_blobs (he_workspaces env)) uuid content) (\<lambda>_. ?G) (\<lambda>_. ?G) ?G d"
      by (rule wlp_mono [OF wlp_put [OF form]]) (auto intro: blobs_grow_trans [OF g])
  qed
  then have one: "keeps ?G (ensure_blob env sv n h)" for h
    unfolding ensure_blob_def fetch_blob_def Let_def by (intro keeps_rules)
  have "keeps ?G (ensure_files env sv n k fs)" for k fs
    by (induction fs arbitrary: k) (auto intro!: keeps_rules one)
  then show ?thesis unfolding ensure_closure_local_def Let_def by (intro keeps_rules one)
qed


section \<open>The folder of the skill\<close>

text \<open>What a hydration assumes: an absolute workspace root apart from the blob store, digests of 64 hex digits,
  a reader that returns UTF-8 strings, and plain, distinct names for the temporary folders.\<close>

definition hydrate_ok :: "hydrate_env \<Rightarrow> bool" where
  "hydrate_ok env \<longleftrightarrow> is_absolute (ws_root (he_workspaces env)) \<and> (\<forall>b. canonical_digest (ws_sha (he_workspaces env) b))
     \<and> unrelated (locate (ws_root (he_workspaces env))) (ws_blobs (he_workspaces env)) \<and> utf8_codec (ws_codec (he_workspaces env))
     \<and> (\<forall>n. CHR ''/'' \<notin> set (he_stage_uuid env n @ he_backup_uuid env n)) \<and> inj (he_backup_uuid env)"

definition backup_of :: "hydrate_env \<Rightarrow> nat \<Rightarrow> location" where
  "backup_of env n = locate (ws_root (he_workspaces env)) @ [reserved_prefix @ ''backup-'' @ he_backup_uuid env n]"

text \<open>The backup folders of the turns to come are not there yet.\<close>

definition fresh_backups :: "hydrate_env \<Rightarrow> nat \<Rightarrow> node \<Rightarrow> bool" where
  "fresh_backups env n d \<longleftrightarrow> (\<forall>m < n. entry (backup_of env m) d = None)"

definition folder_of :: "hydrate_env \<Rightarrow> string \<Rightarrow> path" where
  "folder_of env skill = path_join (ws_root (he_workspaces env)) (ws_sha (he_workspaces env) skill)"

lemma swap_of_hydrate:
  assumes "hydrate_ok env"
  shows "swap_ok (he_workspaces env) (swap_of (he_workspaces env) (he_stage_uuid env n) (he_backup_uuid env n) skill)"
    and "locate (folder_of env skill) = target (swap_of (he_workspaces env) (he_stage_uuid env n) (he_backup_uuid env n) skill)"
    and "backup_of env n = aside (swap_of (he_workspaces env) (he_stage_uuid env n) (he_backup_uuid env n) skill)"
  using assms swap_of_ok [of "he_workspaces env" skill "he_stage_uuid env n" "he_backup_uuid env n"]
  by (simp_all add: hydrate_ok_def folder_of_def backup_of_def aside_def swap_of_def)

lemma folder_of_at: "hydrate_ok env \<Longrightarrow> locate (folder_of env skill) = locate (ws_root (he_workspaces env)) @ [ws_sha (he_workspaces env) skill]"
  using swap_of_hydrate(2) [where env = env and n = 0 and skill = skill] by (simp add: target_def swap_of_def)

lemma backup_of_neq: "hydrate_ok env \<Longrightarrow> backup_of env n \<noteq> locate (folder_of env skill)"
  using swap_of_hydrate [where env = env and n = n and skill = skill] by (auto simp: swap_ok_def target_def aside_def)

lemma outside_blobs:
  assumes "hydrate_ok env" and "blobs_kept env d0 d"
  shows "entry (locate (ws_root (he_workspaces env)) @ q) d = entry (locate (ws_root (he_workspaces env)) @ q) d0"
proof (rule tree.away_entry)
  show "tree.away (ws_blobs (he_workspaces env)) d0 d" using assms(2) by (simp add: blobs_grow_def)
  have "unrelated (ws_blobs (he_workspaces env)) (locate (ws_root (he_workspaces env)))"
    using assms(1) unrelated_sym by (auto simp: hydrate_ok_def)
  then show "unrelated (ws_blobs (he_workspaces env)) (locate (ws_root (he_workspaces env)) @ q)"
    using tree.unrelated_inside unrelated_sym by blast
qed

text \<open>What other threads may do to the disk meanwhile: add blobs, but leave the folder of the skill alone and put nothing
  where a backup of it would go. The worker's cycle adds blobs only.\<close>

definition undisturbed :: "hydrate_env \<Rightarrow> string \<Rightarrow> node \<Rightarrow> node \<Rightarrow> bool" where
  "undisturbed env skill x x' \<longleftrightarrow>
     (\<forall>h bs. read_blob (ws_sha (he_workspaces env)) (ws_blobs (he_workspaces env)) h x = Inr bs
        \<longrightarrow> read_blob (ws_sha (he_workspaces env)) (ws_blobs (he_workspaces env)) h x' = Inr bs)
     \<and> entry (locate (folder_of env skill)) x' = entry (locate (folder_of env skill)) x
     \<and> (\<forall>n. entry (backup_of env n) x = None \<longrightarrow> entry (backup_of env n) x' = None)"

definition others_apart :: "hydrate_env \<Rightarrow> string \<Rightarrow> bool" where
  "others_apart env skill \<longleftrightarrow> (\<forall>n p d x. undisturbed env skill x (snd (he_others env n p (d, x))))"

lemma blobs_kept_undisturbed: "hydrate_ok env \<Longrightarrow> blobs_kept env x x' \<Longrightarrow> undisturbed env skill x x'"
  using outside_blobs folder_of_at by (auto simp: undisturbed_def backup_of_def blobs_grow_def)

lemma fresh_undisturbed: "undisturbed env skill d0 d \<Longrightarrow> fresh_backups env n d0 \<Longrightarrow> fresh_backups env n d"
  by (simp add: fresh_backups_def undisturbed_def)

lemma holds_snapshot_undisturbed:
  assumes "undisturbed env skill d0 d" and "holds_snapshot (he_workspaces env) hash (locate (folder_of env skill)) d0"
  shows "holds_snapshot (he_workspaces env) hash (locate (folder_of env skill)) d"
proof -
  let ?ws = "he_workspaces env" and ?p = "locate (folder_of env skill)"
  have same: "entry ?p d = entry ?p d0" using assms(1) by (simp add: undisturbed_def)
  obtain es where es: "entry ?p d0 = Some (Folder es)" using holds_snapshot_folder [OF assms(2)] by blast
  then obtain m r where m: "read_manifest (ws_codec ?ws) (ws_sha ?ws) (ws_blobs ?ws) hash default_policy d0 = Inr m"
      and t: "verify_tree (ws_sha ?ws) hash m es = Inr r"
    using assms(2) by (auto simp: holds_snapshot_def verify_materialized_snapshot_def stat_Found [THEN iffD2, OF es] map_err_Inr_iff and_then_Inr_iff)
  then obtain bs where bs: "read_blob (ws_sha ?ws) (ws_blobs ?ws) hash d0 = Inr bs"
    by (auto simp: read_manifest_def map_err_Inr_iff and_then_Inr_iff)
  then have "read_blob (ws_sha ?ws) (ws_blobs ?ws) hash d = Inr bs" using assms(1) by (simp add: undisturbed_def)
  then have "read_manifest (ws_codec ?ws) (ws_sha ?ws) (ws_blobs ?ws) hash default_policy d = Inr m"
    using m bs by (simp add: read_manifest_def)
  moreover have "stat ?p d = Found (Folder es)" using es same by (simp add: stat_Found)
  ultimately show ?thesis using t by (simp add: holds_snapshot_def verify_materialized_snapshot_def)
qed

text \<open>Reading the workspace, checking it and laying it out.\<close>

lemma wlp_get_workspace:
  "wlp F (get_workspace (he_workspaces env) skill) (\<lambda>r d'. d' = d \<and> (\<forall>w. r = Some w \<longrightarrow> wr_path w = folder_of env skill)) (\<lambda>_ _. True) (\<lambda>_. True) d"
  unfolding get_workspace_def
  by (auto intro!: wlp_do_then wlp_from_result wlp_attempt wlp_metadata wlp_give wlp_raise simp: path_for_skill_def and_then_Inr_iff folder_of_def)

lemma wlp_workspace_is_current:
  assumes "\<forall>w. existing = Some w \<longrightarrow> wr_path w = folder_of env skill"
  shows "wlp F (workspace_is_current (he_workspaces env) hash existing)
     (\<lambda>r d'. d' = d \<and> (r \<longrightarrow> existing \<noteq> None \<and> holds_snapshot (he_workspaces env) hash (locate (folder_of env skill)) d)) (\<lambda>_ _. True) (\<lambda>_. True) d"
  unfolding workspace_is_current_def using assms
  by (cases existing) (auto intro!: wlp_do_then wlp_attempt wlp_query wlp_give simp: holds_snapshot_def map_err_Inr_iff is_ok_def)

lemma wlp_import_current:
  assumes ok: "hydrate_ok env"
  shows "wlp F (import_snapshot (he_workspaces env) skill hash)
     (\<lambda>w d'. wr_path w = folder_of env skill \<and> holds_snapshot (he_workspaces env) hash (locate (folder_of env skill)) d'
        \<and> tree.away (locate (folder_of env skill)) d d') (\<lambda>_ _. True) (\<lambda>_. True) d"
proof -
  have "is_absolute (ws_root (he_workspaces env))" "canonical_digest (ws_sha (he_workspaces env) skill)"
    "unrelated (locate (ws_root (he_workspaces env))) (ws_blobs (he_workspaces env))" "utf8_codec (ws_codec (he_workspaces env))"
    using ok by (simp_all add: hydrate_ok_def)
  from wlp_import_snapshot [OF this] show ?thesis
    by (rule wlp_mono) (auto simp: folder_of_at [OF ok] materialized_def holds_snapshot_def folder_of_def [symmetric])
qed

lemma wlp_place_workspace:
  assumes ok: "hydrate_ok env" and f: "fresh_backups env (Suc n) d" and e: "\<forall>w. existing = Some w \<longrightarrow> wr_path w = folder_of env skill"
    and c: "current \<longrightarrow> existing \<noteq> None \<and> holds_snapshot (he_workspaces env) hash (locate (folder_of env skill)) d"
  shows "wlp F (place_workspace env n skill hash existing current)
     (\<lambda>w d'. wr_path w = folder_of env skill \<and> holds_snapshot (he_workspaces env) hash (locate (folder_of env skill)) d' \<and> fresh_backups env n d')
     (\<lambda>_ _. True) (\<lambda>_. True) d"
proof (cases existing)
  case None
  have "fresh_backups env n d'" if away: "tree.away (locate (folder_of env skill)) d d'" for d'
    unfolding fresh_backups_def
  proof (intro allI impI)
    fix m assume "m < n"
    have "unrelated (locate (folder_of env skill)) (backup_of env m)"
      using backup_of_neq [OF ok, of m skill] by (auto simp: folder_of_at [OF ok] backup_of_def unrelated_def)
    then show "entry (backup_of env m) d' = None" using tree.away_entry [OF away] f \<open>m < n\<close> by (simp add: fresh_backups_def)
  qed
  then show ?thesis using None wlp_mono [OF wlp_import_current [OF ok]] by (auto simp: place_workspace_def intro!: wlp_wrap)
next
  case (Some w)
  show ?thesis
  proof (cases current)
    case True
    then show ?thesis using Some e c f by (auto simp: place_workspace_def fresh_backups_def intro!: wlp_give)
  next
    case False
    let ?k = "swap_of (he_workspaces env) (he_stage_uuid env n) (he_backup_uuid env n) skill"
    note k = swap_of_hydrate [OF ok, where n = n and skill = skill]
    have b: "entry (aside ?k) d = None" using f by (simp add: fresh_backups_def k(3) [symmetric])
    have fresh: "fresh_backups env n d'" if "elsewhere ?k d d'" for d'
      unfolding fresh_backups_def
    proof (intro allI impI)
      fix m assume m: "m < n"
      let ?b = "reserved_prefix @ ''backup-'' @ he_backup_uuid env m"
      have "?b \<notin> {sw_name ?k, sw_stage ?k, sw_backup ?k}"
        using ok m backup_of_neq [OF ok, of m skill] folder_of_at [OF ok, of skill]
        by (auto simp: swap_of_def reserved_prefix_def hydrate_ok_def backup_of_def dest: injD)
      then have "entry (sw_root ?k @ ?b # []) d' = entry (sw_root ?k @ ?b # []) d" using that unfolding elsewhere_def by blast
      then show "entry (backup_of env m) d' = None" using f m by (simp add: fresh_backups_def backup_of_def swap_of_def)
    qed
    have replace: "wlp F (replace_snapshot (he_workspaces env) (he_stage_uuid env n) (he_backup_uuid env n) skill hash)
     (\<lambda>ref d'. active_state (he_workspaces env) hash ?k d d' \<and> ref = \<lparr>wr_skill_id = skill, wr_path = path_join (ws_root (he_workspaces env)) (ws_sha (he_workspaces env) skill)\<rparr>)
     (\<lambda>_. swap_inv (he_workspaces env) hash ?k d) (swap_inv (he_workspaces env) hash ?k d) d"
      by (rule wlp_replace_snapshot [OF _ _ _ _ _ b]) (use ok in \<open>simp_all add: hydrate_ok_def\<close>)
    have "wlp F (replace_snapshot (he_workspaces env) (he_stage_uuid env n) (he_backup_uuid env n) skill hash)
     (\<lambda>w d'. wr_path w = folder_of env skill \<and> holds_snapshot (he_workspaces env) hash (locate (folder_of env skill)) d' \<and> fresh_backups env n d')
     (\<lambda>_ _. True) (\<lambda>_. True) d"
      by (rule wlp_mono [OF replace]) (auto simp: active_state_def k(2) [unfolded folder_of_def] folder_of_def intro: fresh)
    then show ?thesis using Some False by (simp add: place_workspace_def wlp_wrap)
  qed
qed


section \<open>The record\<close>

text \<open>The row of the skill says what the folder holds.\<close>

definition recorded :: "string \<Rightarrow> string \<Rightarrow> store \<Rightarrow> bool" where
  "recorded skill hash d \<longleftrightarrow> (\<exists>r \<in> set (skills d). sk_id r = skill \<and> sk_current_blob_hash r = hash \<and> sk_sync_state r = Synced)"

lemma get_skill_row:
  assumes "get_skill skill now d = Inr (d', Some s)"
  shows "\<exists>r \<in> set (skills d'). sk_id r = skill \<and> sk_current_blob_hash r = ls_current_blob_hash s \<and> sk_sync_state r = ls_sync_state s"
proof -
  obtain r where r: "sql_find (\<lambda>r. sk_id r = skill) (skills d) = Some r" and s: "s = local_skill_of r"
    and d': "d' = update_skills (\<lambda>x. sk_id x = skill) (\<lambda>x. x\<lparr>sk_last_accessed_at := Some now\<rparr>) d"
    using assms by (auto simp: get_skill_def and_then_Inr_iff exec_Inr_iff split: option.split_asm)
  have "r \<in> set (skills d)" "sk_id r = skill" using r by (auto simp: sql_find_def find_Some_iff)
  then have "r\<lparr>sk_last_accessed_at := Some now\<rparr> \<in> set (skills d')"
    by (auto simp: d' update_skills_def sql_update_def image_iff)
  then show ?thesis by (rule bexI [rotated]) (simp add: s local_skill_of_def \<open>sk_id r = skill\<close>)
qed

lemma recorded_update:
  assumes "recorded k hash d" and "\<And>r. sk_id (f r) = sk_id r \<and> sk_current_blob_hash (f r) = sk_current_blob_hash r \<and> sk_sync_state (f r) = sk_sync_state r"
  shows "recorded k hash (update_skills P f d)"
proof -
  obtain r where r: "r \<in> set (skills d)" "sk_id r = k" "sk_current_blob_hash r = hash" "sk_sync_state r = Synced"
    using assms(1) by (auto simp: recorded_def)
  have "(if P r then f r else r) \<in> set (skills (update_skills P f d))"
    using r(1) by (auto simp: update_skills_def sql_update_def)
  then show ?thesis unfolding recorded_def by (rule bexI [rotated]) (simp add: r assms(2))
qed

lemma get_skill_recorded: "get_skill skill now d = Inr (d', s) \<Longrightarrow> recorded k hash d \<Longrightarrow> recorded k hash d'"
  by (auto simp: get_skill_def and_then_Inr_iff exec_Inr_iff intro: recorded_update split: option.split_asm)

lemma mark_recorded:
  assumes "mark_row_hydrated skill expected workspace now d = Inr (d', s)" shows "recorded skill expected d'"
proof -
  let ?f = "\<lambda>p r. r\<lparr>sk_workspace_path := p, sk_sync_state := Synced, sk_updated_at := now\<rparr>"
  obtain p where p: "sql_count (hydratable skill expected) (skills d) \<noteq> 0" and d': "d' = update_skills (hydratable skill expected) (?f p) d"
    using assms by (auto simp: mark_row_hydrated_def and_then_Inr_iff exec_Inr_iff Let_def split: if_splits option.split_asm)
  obtain r where "r \<in> set (skills d)" "hydratable skill expected r" using p by (auto simp: sql_count_eq_0)
  then have "?f p r \<in> set (skills d')" by (auto simp: d' update_skills_def sql_update_def)
  then show ?thesis unfolding recorded_def
    by (rule bexI [rotated]) (use \<open>hydratable skill expected r\<close> in \<open>simp add: hydratable_def\<close>)
qed

text \<open>How the store moves during a hydration: other threads commit, the hydration reads the row (which notes the
  access) and promotes it.\<close>

definition passing_step :: "hydrate_env \<Rightarrow> string \<Rightarrow> store \<Rightarrow> store \<Rightarrow> bool" where
  "passing_step env skill d d' \<longleftrightarrow> (\<exists>n p x. d' = fst (he_others env n p (d, x))) \<or> (\<exists>s. get_skill skill (he_now env) d = Inr (d', s))"

definition hydration_step :: "hydrate_env \<Rightarrow> string \<Rightarrow> store \<Rightarrow> store \<Rightarrow> bool" where
  "hydration_step env skill d d' \<longleftrightarrow> passing_step env skill d d'
     \<or> (\<exists>hash workspace. mark_row_hydrated skill hash workspace (he_now env) d = Inr (d', ()))"

abbreviation reached :: "hydrate_env \<Rightarrow> string \<Rightarrow> store \<Rightarrow> store \<Rightarrow> bool" where
  "reached env skill \<equiv> (hydration_step env skill)\<^sup>*\<^sup>*"

definition was_recorded :: "hydrate_env \<Rightarrow> string \<Rightarrow> store \<Rightarrow> string \<Rightarrow> store \<Rightarrow> bool" where
  "was_recorded env skill d0 hash d \<longleftrightarrow> (\<exists>d1. reached env skill d0 d1 \<and> recorded skill hash d1 \<and> (passing_step env skill)\<^sup>*\<^sup>* d1 d)"

lemma passing_steps:
  "passing_step env skill d (fst (he_others env n p (d, x)))"
  "get_skill skill (he_now env) d = Inr (d', s) \<Longrightarrow> passing_step env skill d d'"
  by (auto simp: passing_step_def)

lemma reached_passing: "reached env skill d0 d \<Longrightarrow> passing_step env skill d d' \<Longrightarrow> reached env skill d0 d'"
  by (rule rtranclp.rtrancl_into_rtrancl) (auto simp: hydration_step_def)

lemma reached_promoted: "reached env skill d0 d \<Longrightarrow> mark_row_hydrated skill hash place (he_now env) d = Inr (d', ()) \<Longrightarrow> reached env skill d0 d'"
  by (rule rtranclp.rtrancl_into_rtrancl) (auto simp: hydration_step_def)

lemma was_recorded_passing: "was_recorded env skill d0 hash d \<Longrightarrow> passing_step env skill d d' \<Longrightarrow> was_recorded env skill d0 hash d'"
  unfolding was_recorded_def by (meson rtranclp.rtrancl_into_rtrancl)

lemma was_recorded_now: "reached env skill d0 d \<Longrightarrow> recorded skill hash d \<Longrightarrow> was_recorded env skill d0 hash d"
  unfolding was_recorded_def by blast

section \<open>Hydration\<close>

lemma wlp_wrap_any: "wlp F m Q (\<lambda>_ _. True) (\<lambda>_. True) d \<Longrightarrow> wlp F (wrap g m) Q (\<lambda>_ _. True) (\<lambda>_. True) d"
  by (rule wlp_wrap)

lemma awp_err_any: "awp F m Q (\<lambda>_ _ _. True) (\<lambda>_ _. True) d x \<Longrightarrow> awp F (app_err g m) Q (\<lambda>_ _ _. True) (\<lambda>_ _. True) d x"
  by (rule awp_err)

lemma awp_disk_then:
  assumes "wlp F m R (\<lambda>_ _. True) (\<lambda>_. True) x" and "\<And>a x'. R a x' \<Longrightarrow> awp F (f a) Q (\<lambda>_ _ _. True) (\<lambda>_ _. True) d x'"
  shows "awp F (app_then (on_disk m) f) Q (\<lambda>_ _ _. True) (\<lambda>_ _. True) d x"
  by (rule awp_then [where R = "\<lambda>a d' x'. d' = d \<and> R a x'" and ER = "\<lambda>_ _ _. True" and HR = "\<lambda>_ _. True"],
      rule awp_on_disk, rule wlp_mono [OF assms(1)]) (auto intro: assms(2))

lemma awp_meanwhile:
  "awp F m Q E H (fst (f (d, x))) (snd (f (d, x))) \<Longrightarrow> awp F (app_then (meanwhile f) (\<lambda>_. m)) Q E H d x"
  by (cases "f (d, x)") (simp add: awp_def app_then_def meanwhile_def)

abbreviation any_error :: "'e \<Rightarrow> store \<Rightarrow> node \<Rightarrow> bool" where
  "any_error \<equiv> \<lambda>_ _ _. True"

abbreviation any_end :: "store \<Rightarrow> node \<Rightarrow> bool" where
  "any_end \<equiv> \<lambda>_ _. True"

definition laid_out :: "hydrate_env \<Rightarrow> string \<Rightarrow> store \<Rightarrow> hydration_outcome \<Rightarrow> store \<Rightarrow> node \<Rightarrow> bool" where
  "laid_out env skill d0 outcome d x \<longleftrightarrow> ho_workspace_path outcome = folder_of env skill
     \<and> holds_snapshot (he_workspaces env) (ho_manifest_hash outcome) (locate (folder_of env skill)) x
     \<and> was_recorded env skill d0 (ho_manifest_hash outcome) d"

definition turn_done :: "hydrate_env \<Rightarrow> string \<Rightarrow> nat \<Rightarrow> store \<Rightarrow> hydration_outcome option \<Rightarrow> store \<Rightarrow> node \<Rightarrow> bool" where
  "turn_done env skill n d0 r d x \<longleftrightarrow> (case r of
     Some outcome \<Rightarrow> laid_out env skill d0 outcome d x
   | None \<Rightarrow> fresh_backups env n x \<and> reached env skill d0 d)"

lemma apart: "others_apart env skill \<Longrightarrow> undisturbed env skill x (snd (he_others env n p (d, x)))"
  by (simp add: others_apart_def)

lemma awp_mark:
  assumes o: "others_apart env skill" and r: "reached env skill d0 d"
  shows "awp F (mark_skill_hydrated env n skill hash place)
     (\<lambda>_ d' x'. was_recorded env skill d0 hash d' \<and> undisturbed env skill x x')
     (\<lambda>_ d' x'. reached env skill d0 d' \<and> undisturbed env skill x x') any_end d x"
  unfolding mark_skill_hydrated_def
proof (rule awp_then)
  have refl: "undisturbed env skill x x" by (simp add: undisturbed_def)
  show "awp F (transact (mark_row_hydrated skill hash place (he_now env)))
     (\<lambda>_ d' x'. reached env skill d0 d' \<and> recorded skill hash d' \<and> x' = x)
     (\<lambda>_ d' x'. reached env skill d0 d' \<and> undisturbed env skill x x') any_end d x"
    using r refl by (intro awp_transact)
      (auto intro: mark_recorded reached_promoted)
  fix d' x' assume now: "reached env skill d0 d' \<and> recorded skill hash d' \<and> x' = x"
  let ?e = "fst (he_others env n RowPromoted (d', x'))" and ?y = "snd (he_others env n RowPromoted (d', x'))"
  have e: "was_recorded env skill d0 hash ?e" "reached env skill d0 ?e"
    using now was_recorded_passing [OF was_recorded_now passing_steps(1)] reached_passing [OF _ passing_steps(1)] by blast+
  have y: "undisturbed env skill x ?y" using apart [OF o] now by simp
  show "awp F (app_then (meanwhile (he_others env n RowPromoted)) (\<lambda>_. app_then (transact (get_skill skill (he_now env))) (\<lambda>s.
       app_result (ok_or s (SkillNotFound skill)))))
     (\<lambda>_ d' x'. was_recorded env skill d0 hash d' \<and> undisturbed env skill x x')
     (\<lambda>_ d' x'. reached env skill d0 d' \<and> undisturbed env skill x x') any_end d' x'"
  proof (rule awp_meanwhile, rule awp_then)
    show "awp F (transact (get_skill skill (he_now env)))
       (\<lambda>s d'' x''. was_recorded env skill d0 hash d'' \<and> reached env skill d0 d'' \<and> x'' = ?y)
       (\<lambda>_ d' x'. reached env skill d0 d' \<and> undisturbed env skill x x') any_end ?e ?y"
      using e y by (intro awp_transact) (auto dest: passing_steps(2) intro: was_recorded_passing reached_passing)
    fix s d'' x'' assume "was_recorded env skill d0 hash d'' \<and> reached env skill d0 d'' \<and> x'' = ?y"
    then show "awp F (app_result (ok_or s (SkillNotFound skill))) (\<lambda>_ d' x'. was_recorded env skill d0 hash d' \<and> undisturbed env skill x x')
       (\<lambda>_ d' x'. reached env skill d0 d' \<and> undisturbed env skill x x') any_end d'' x''"
      using y by (cases s) (auto simp: app_result_def ok_or_def intro!: awp_give awp_raise)
  qed simp_all
qed simp_all

lemma awp_refused:
  assumes o: "others_apart env skill" and r: "reached env skill d0 d" and f: "fresh_backups env n x"
  shows "awp F (refused env n skill hash e) (turn_done env skill n d0) any_error any_end d x"
proof -
  let ?d = "fst (he_others env n PromotionRefused (d, x))" and ?x = "snd (he_others env n PromotionRefused (d, x))"
  have d: "reached env skill d0 ?d" by (rule reached_passing [OF r passing_steps(1)])
  have x: "fresh_backups env n ?x" by (rule fresh_undisturbed [OF apart [OF o] f])
  have "awp F (app_then (app_err HydrateStore (transact (get_skill skill (he_now env)))) (\<lambda>latest.
         if head_changed hash latest then app_give None else app_raise (HydrateStore (InvalidInput message))))
      (turn_done env skill n d0) any_error any_end ?d ?x" for message
    by (rule awp_then [where R = "\<lambda>_ d' x'. reached env skill d0 d' \<and> x' = ?x" and ER = any_error and HR = any_end],
        rule awp_err, rule awp_transact)
      (use x in \<open>auto intro!: awp_give awp_raise dest: passing_steps(2) intro: reached_passing [OF d] simp: turn_done_def\<close>)
  then show ?thesis unfolding refused_def by (auto intro!: awp_meanwhile awp_raise split: store_error.split)
qed

lemma awp_promote:
  assumes o: "others_apart env skill" and r: "reached env skill d0 d" and f: "fresh_backups env n x"
    and p: "ho_workspace_path outcome = folder_of env skill"
    and h: "holds_snapshot (he_workspaces env) (ho_manifest_hash outcome) (locate (folder_of env skill)) x"
  shows "awp F (promote env n skill (ho_manifest_hash outcome) outcome) (turn_done env skill n d0) any_error any_end d x"
  unfolding promote_def
proof (rule awp_try [OF awp_mark [OF o r]])
  fix s d' x' assume "was_recorded env skill d0 (ho_manifest_hash outcome) d' \<and> undisturbed env skill x x'"
  then show "awp F (case Inr s of Inr _ \<Rightarrow> app_give (Some outcome) | Inl e \<Rightarrow> refused env n skill (ho_manifest_hash outcome) e)
     (turn_done env skill n d0) any_error any_end d' x'"
    using p holds_snapshot_undisturbed [OF _ h] by (auto intro!: awp_give simp: turn_done_def laid_out_def)
next
  fix e d' x' assume "reached env skill d0 d' \<and> undisturbed env skill x x'"
  then show "awp F (case Inl e of Inr _ \<Rightarrow> app_give (Some outcome) | Inl e \<Rightarrow> refused env n skill (ho_manifest_hash outcome) e)
     (turn_done env skill n d0) any_error any_end d' x'"
    using awp_refused [OF o, of d0 d' n x'] fresh_undisturbed [OF _ f, of skill x'] by simp
qed simp

lemma awp_lay_out:
  assumes ok: "hydrate_ok env" and o: "others_apart env skill" and r: "reached env skill d0 d" and f: "fresh_backups env (Suc n) x"
    and e: "\<forall>w. existing = Some w \<longrightarrow> wr_path w = folder_of env skill"
    and c: "current \<longrightarrow> existing \<noteq> None \<and> holds_snapshot (he_workspaces env) (ls_current_blob_hash s) (locate (folder_of env skill)) x"
  shows "awp F (lay_out env sv skill n s existing current) (turn_done env skill n d0) any_error any_end d x"
  unfolding lay_out_def Let_def
proof (rule awp_disk_then)
  let ?hash = "ls_current_blob_hash s"
  show "wlp F (ensure_closure_local env sv n ?hash) (\<lambda>_. blobs_kept env x) (\<lambda>_ _. True) (\<lambda>_. True) x"
    by (rule wlp_mono [OF keepsD [OF keeps_ensure_closure blobs_grow_refl]]) (use ok in \<open>simp_all add: hydrate_ok_def\<close>)
  fix downloaded x' assume g: "blobs_kept env x x'"
  let ?d1 = "fst (he_others env n ClosureLocal (d, x'))" and ?x1 = "snd (he_others env n ClosureLocal (d, x'))"
  have x1: "undisturbed env skill x x'" "undisturbed env skill x' ?x1" using blobs_kept_undisturbed [OF ok g] apart [OF o] by simp_all
  have r1: "reached env skill d0 ?d1" by (rule reached_passing [OF r passing_steps(1)])
  have f1: "fresh_backups env (Suc n) ?x1" by (rule fresh_undisturbed [OF x1(2) fresh_undisturbed [OF x1(1) f]])
  have c1: "current \<longrightarrow> existing \<noteq> None \<and> holds_snapshot (he_workspaces env) ?hash (locate (folder_of env skill)) ?x1"
    using c holds_snapshot_undisturbed [OF x1(2) holds_snapshot_undisturbed [OF x1(1)]] by blast
  let ?o = "\<lambda>w. \<lparr>ho_skill_id = ls_id s, ho_manifest_hash = ?hash, ho_blobs_downloaded = downloaded,
       ho_workspace_created = (existing = None), ho_workspace_path = wr_path w\<rparr>"
  show "awp F (app_then (meanwhile (he_others env n ClosureLocal)) (\<lambda>_.
     app_then (on_disk (place_workspace env n skill ?hash existing current)) (\<lambda>w.
     app_then (meanwhile (he_others env n FilesLaidOut)) (\<lambda>_. promote env n skill ?hash (?o w)))))
     (turn_done env skill n d0) any_error any_end d x'"
  proof (rule awp_meanwhile, rule awp_disk_then [OF wlp_place_workspace [OF ok f1 e c1]])
    fix w y assume w: "wr_path w = folder_of env skill \<and> holds_snapshot (he_workspaces env) ?hash (locate (folder_of env skill)) y \<and> fresh_backups env n y"
    let ?d2 = "fst (he_others env n FilesLaidOut (?d1, y))" and ?y2 = "snd (he_others env n FilesLaidOut (?d1, y))"
    have y2: "undisturbed env skill y ?y2" by (rule apart [OF o])
    have r2: "reached env skill d0 ?d2" by (rule reached_passing [OF r1 passing_steps(1)])
    have f2: "fresh_backups env n ?y2" "holds_snapshot (he_workspaces env) ?hash (locate (folder_of env skill)) ?y2"
      using w fresh_undisturbed [OF y2] holds_snapshot_undisturbed [OF y2] by blast+
    have "awp F (promote env n skill ?hash (?o w)) (turn_done env skill n d0) any_error any_end ?d2 ?y2"
      using awp_promote [OF o r2 f2(1), of "?o w" F] f2(2) w by simp
    then show "awp F (app_then (meanwhile (he_others env n FilesLaidOut)) (\<lambda>_. promote env n skill ?hash (?o w)))
       (turn_done env skill n d0) any_error any_end ?d1 y"
      by (rule awp_meanwhile)
  qed
qed

lemma awp_hydrate_row:
  assumes ok: "hydrate_ok env" and o: "others_apart env skill" and r: "reached env skill d0 d" and f: "fresh_backups env (Suc n) x"
    and row: "ls_sync_state s = Synced \<Longrightarrow> was_recorded env skill d0 (ls_current_blob_hash s) d"
  shows "awp F (hydrate_row env sv skill n s) (turn_done env skill n d0) any_error any_end d x"
proof (cases "ls_sync_state s \<notin> {RemoteOnly, Synced}")
  case False
  let ?Q = "turn_done env skill n d0"
  let ?ws = "he_workspaces env" and ?hash = "ls_current_blob_hash s"
  let ?found = "\<lambda>existing. \<lparr>ho_skill_id = ls_id s, ho_manifest_hash = ?hash, ho_blobs_downloaded = 0,
      ho_workspace_created = False, ho_workspace_path = wr_path (the existing)\<rparr>"
  let ?last = "\<lambda>existing current. if current \<and> ls_sync_state s = Synced then app_give (Some (?found existing)) else lay_out env sv skill n s existing current"
  let ?check = "\<lambda>existing. app_then (meanwhile (he_others env n WorkspaceFound)) (\<lambda>_.
       app_then (on_disk (workspace_is_current ?ws ?hash existing)) (\<lambda>current.
       app_then (meanwhile (he_others env n WorkspaceChecked)) (\<lambda>_. ?last existing current)))"
  have check: "awp F (?check existing) ?Q any_error any_end d x" if e: "\<forall>w. existing = Some w \<longrightarrow> wr_path w = folder_of env skill" for existing
  proof (rule awp_meanwhile, rule awp_disk_then [OF wlp_workspace_is_current [OF e]])
    let ?d1 = "fst (he_others env n WorkspaceFound (d, x))" and ?x1 = "snd (he_others env n WorkspaceFound (d, x))"
    fix current y assume y: "y = ?x1 \<and> (current \<longrightarrow> existing \<noteq> None \<and> holds_snapshot ?ws ?hash (locate (folder_of env skill)) ?x1)"
    let ?d2 = "fst (he_others env n WorkspaceChecked (?d1, y))" and ?x2 = "snd (he_others env n WorkspaceChecked (?d1, y))"
    have x2: "undisturbed env skill x ?x1" "undisturbed env skill y ?x2" by (rule apart [OF o])+
    have r2: "reached env skill d0 ?d2"
      by (rule reached_passing [OF reached_passing [OF r passing_steps(1)] passing_steps(1)])
    have row2: "ls_sync_state s = Synced \<Longrightarrow> was_recorded env skill d0 ?hash ?d2"
      by (rule was_recorded_passing [OF was_recorded_passing [OF row passing_steps(1)] passing_steps(1)])
    have f2: "fresh_backups env (Suc n) ?x2" using fresh_undisturbed [OF x2(2)] fresh_undisturbed [OF x2(1) f] y by simp
    have c2: "current \<longrightarrow> existing \<noteq> None \<and> holds_snapshot ?ws ?hash (locate (folder_of env skill)) ?x2"
      using y holds_snapshot_undisturbed [OF x2(2)] by blast
    have "awp F (?last existing current) ?Q any_error any_end ?d2 ?x2"
    proof (cases "current \<and> ls_sync_state s = Synced")
      case True
      then have "?Q (Some (?found existing)) ?d2 ?x2" using c2 e row2 by (auto simp: turn_done_def laid_out_def)
      then show ?thesis using True by (simp add: awp_give)
    next
      case False
      then show ?thesis using awp_lay_out [OF ok o r2 f2 e c2] by (simp only: if_False)
    qed
    then show "awp F (app_then (meanwhile (he_others env n WorkspaceChecked)) (\<lambda>_. ?last existing current)) ?Q any_error any_end ?d1 y"
      by (rule awp_meanwhile)
  qed
  have "awp F (app_then (on_disk (wrap HydrateWorkspace (get_workspace ?ws skill))) ?check) ?Q any_error any_end d x"
    by (rule awp_disk_then [OF wlp_wrap_any [OF wlp_get_workspace]]) (use check in blast)
  then show ?thesis using False by (simp only: hydrate_row_def Let_def if_False)
qed (simp add: hydrate_row_def Let_def awp_raise)

lemma awp_hydrate_turn:
  assumes ok: "hydrate_ok env" and o: "others_apart env skill" and r: "reached env skill d0 d" and f: "fresh_backups env (Suc n) x"
  shows "awp F (hydrate_turn env sv skill n) (turn_done env skill n d0) any_error any_end d x"
  unfolding hydrate_turn_def
proof (rule awp_meanwhile, rule awp_then)
  let ?d1 = "fst (he_others env n TurnStarts (d, x))" and ?x1 = "snd (he_others env n TurnStarts (d, x))"
  let ?R = "\<lambda>(found :: local_skill option) d' x'. x' = ?x1 \<and> reached env skill d0 d'
      \<and> (\<forall>s. found = Some s \<longrightarrow> ls_sync_state s = Synced \<longrightarrow> recorded skill (ls_current_blob_hash s) d')"
  have r1: "reached env skill d0 ?d1" by (rule reached_passing [OF r passing_steps(1)])
  have "awp F (transact (get_skill skill (he_now env))) ?R any_error any_end ?d1 ?x1"
    by (rule awp_transact) (auto dest: passing_steps(2) intro: reached_passing [OF r1] dest!: get_skill_row simp: recorded_def)
  then show "awp F (app_err HydrateStore (transact (get_skill skill (he_now env)))) ?R any_error any_end ?d1 ?x1" by (rule awp_err_any)
  fix found :: "local_skill option" and d' x' assume found: "?R found d' x'"
  let ?d2 = "fst (he_others env n RowRead (d', x'))" and ?x2 = "snd (he_others env n RowRead (d', x'))"
  have r2: "reached env skill d0 ?d2" using found reached_passing [OF _ passing_steps(1)] by blast
  have f2: "fresh_backups env (Suc n) ?x2"
    using found fresh_undisturbed [OF apart [OF o] fresh_undisturbed [OF apart [OF o] f]] by blast
  have "awp F (app_then (app_result (map_err HydrateStore (ok_or found (SkillNotFound skill)))) (\<lambda>s. hydrate_row env sv skill n s))
     (turn_done env skill n d0) any_error any_end ?d2 ?x2"
  proof (cases found)
    case None
    then show ?thesis by (simp add: awp_def app_then_def app_result_def app_raise_def ok_or_def map_err_def)
  next
    case (Some s)
    have row: "was_recorded env skill d0 (ls_current_blob_hash s) ?d2" if "ls_sync_state s = Synced"
      using found Some that was_recorded_passing [OF was_recorded_now passing_steps(1)] by blast
    have "awp F (hydrate_row env sv skill n s) (turn_done env skill n d0) any_error any_end ?d2 ?x2"
      by (rule awp_hydrate_row [OF ok o r2 f2 row])
    then show ?thesis using Some by (simp add: awp_def app_then_def app_result_def app_give_def ok_or_def map_err_def)
  qed
  then show "awp F (app_then (meanwhile (he_others env n RowRead)) (\<lambda>_.
     app_then (app_result (map_err HydrateStore (ok_or found (SkillNotFound skill)))) (\<lambda>s. hydrate_row env sv skill n s)))
     (turn_done env skill n d0) any_error any_end d' x'"
    by (rule awp_meanwhile)
qed simp_all

lemma awp_hydrate_loop:
  assumes ok: "hydrate_ok env" and o: "others_apart env skill"
  shows "reached env skill d0 d \<Longrightarrow> fresh_backups env n x \<Longrightarrow>
    awp F (hydrate_loop env sv skill n) (laid_out env skill d0) any_error any_end d x"
proof (induction n arbitrary: d x)
  case (Suc n)
  show ?case unfolding hydrate_loop.simps
    by (rule awp_then [OF awp_hydrate_turn [OF ok o Suc.prems]])
      (auto simp: turn_done_def intro: awp_give Suc.IH split: option.split)
qed (simp add: awp_raise)

lemma passing_recorded:
  assumes "(passing_step env skill)\<^sup>*\<^sup>* d1 d" and "recorded skill hash d1"
    and "\<And>n p d x. recorded skill hash d \<Longrightarrow> recorded skill hash (fst (he_others env n p (d, x)))"
  shows "recorded skill hash d"
  using assms(1,2) by (induction rule: rtranclp_induct) (auto simp: passing_step_def intro: assms(3) get_skill_recorded)

text \<open>C35: A hydration that returns has laid the skill out. Whatever the server answers, whichever calls failed on the way,
  and whatever other threads commit to the store between any two calls of \<open>hydrate_skill\<close> and however many blobs they add then: the
  folder it returns verifies, when it returns, as the snapshot it names, and the row of the skill was synced with
  exactly this snapshot as its content at some moment of the run, since when only other threads have changed the store
  and the row was read. So if no other thread takes the row out of this state, it still is in it; and a
  head that moved on is never paired with the files of the old one by the hydration itself.\<close>

theorem hydrated_skills_are_laid_out:
  assumes "hydrate_ok env" and "others_apart env skill" and "fresh_backups env 3 (disk w)"
    and run: "hydrate_skill env sv skill d w = Returned outcome d' w'"
  shows "ho_workspace_path outcome = path_join (ws_root (he_workspaces env)) (ws_sha (he_workspaces env) skill)
    \<and> (\<exists>r. verify_materialized_snapshot (ws_codec (he_workspaces env)) (ws_sha (he_workspaces env)) (ws_blobs (he_workspaces env))
          (ho_manifest_hash outcome) (locate (ho_workspace_path outcome)) (disk w') = Inr r)
    \<and> (\<exists>d1. (hydration_step env skill)\<^sup>*\<^sup>* d d1 \<and> recorded skill (ho_manifest_hash outcome) d1 \<and> (passing_step env skill)\<^sup>*\<^sup>* d1 d')
    \<and> ((\<forall>n p d x. recorded skill (ho_manifest_hash outcome) d \<longrightarrow> recorded skill (ho_manifest_hash outcome) (fst (he_others env n p (d, x))))
        \<longrightarrow> (\<exists>row \<in> set (skills d'). sk_id row = skill \<and> sk_current_blob_hash row = ho_manifest_hash outcome \<and> sk_sync_state row = Synced))"
proof -
  have laid: "laid_out env skill d outcome d' (disk w')"
    using awp_run [OF awp_hydrate_loop [OF assms(1,2) rtranclp.rtrancl_refl [of _ d] assms(3), where sv = sv] refl] run by (simp add: hydrate_skill_def)
  then obtain d1 where d1: "(hydration_step env skill)\<^sup>*\<^sup>* d d1" "recorded skill (ho_manifest_hash outcome) d1" "(passing_step env skill)\<^sup>*\<^sup>* d1 d'"
    by (auto simp: laid_out_def was_recorded_def)
  have "recorded skill (ho_manifest_hash outcome) d'"
    if "\<forall>n p d x. recorded skill (ho_manifest_hash outcome) d \<longrightarrow> recorded skill (ho_manifest_hash outcome) (fst (he_others env n p (d, x)))"
    by (rule passing_recorded [OF d1(3,2)]) (use that in blast)
  then show ?thesis using laid d1 by (auto simp: laid_out_def recorded_def [of _ _ d'] holds_snapshot_def folder_of_def)
qed

section \<open>What a hydration may change\<close>

text \<open>Where a skill is laid out, whether it is synced, and the times of the row.\<close>

definition same_content :: "store \<Rightarrow> store \<Rightarrow> bool" where
  "same_content d d' \<longleftrightarrow> d'\<lparr>skills := []\<rparr> = d\<lparr>skills := []\<rparr>
     \<and> map (\<lambda>r. r\<lparr>sk_workspace_path := [], sk_sync_state := Synced, sk_updated_at := 0, sk_last_accessed_at := None\<rparr>) (skills d')
       = map (\<lambda>r. r\<lparr>sk_workspace_path := [], sk_sync_state := Synced, sk_updated_at := 0, sk_last_accessed_at := None\<rparr>) (skills d)"

interpretation content_kept: store_moves same_content
  by unfold_locales (auto simp: same_content_def)

lemma content_kept_hydrate:
  assumes "\<And>n p d x. fst (he_others env n p (d, x)) = d"
  shows "content_kept.moves (hydrate_skill env sv skill)"
proof -
  have update: "same_content d (update_skills P f d)"
    if "\<And>r. \<exists>p s u a. f r = r\<lparr>sk_workspace_path := p, sk_sync_state := s, sk_updated_at := u, sk_last_accessed_at := a\<rparr>" for P f d
  proof -
    have "(f r)\<lparr>sk_workspace_path := [], sk_sync_state := Synced, sk_updated_at := 0, sk_last_accessed_at := None\<rparr>
        = r\<lparr>sk_workspace_path := [], sk_sync_state := Synced, sk_updated_at := 0, sk_last_accessed_at := None\<rparr>" for r
      using that [of r] by auto
    then show ?thesis by (auto simp: same_content_def update_skills_def sql_update_def)
  qed
  have accessed: "\<exists>p s u a. r\<lparr>sk_last_accessed_at := t\<rparr> = r\<lparr>sk_workspace_path := p, sk_sync_state := s, sk_updated_at := u, sk_last_accessed_at := a\<rparr>" for r :: skill_row and t
    by (intro exI [of _ "sk_workspace_path r"] exI [of _ "sk_sync_state r"] exI [of _ "sk_updated_at r"] exI [of _ t]) (cases r; simp)
  have promoted: "\<exists>p s u a. r\<lparr>sk_workspace_path := q, sk_sync_state := st, sk_updated_at := t\<rparr>
      = r\<lparr>sk_workspace_path := p, sk_sync_state := s, sk_updated_at := u, sk_last_accessed_at := a\<rparr>" for r :: skill_row and q st t
    by (intro exI [of _ q] exI [of _ st] exI [of _ t] exI [of _ "sk_last_accessed_at r"]) (cases r; simp)
  have get: "content_kept.moves (transact (get_skill skill now))" for now
    by (rule content_kept.moves_transact)
      (auto simp: get_skill_def and_then_Inr_iff exec_Inr_iff content_kept.R_refl intro!: update accessed split: option.split_asm)
  have row: "content_kept.moves (transact (mark_row_hydrated skill hash place now))" for hash place now
    by (rule content_kept.moves_transact)
      (auto simp: mark_row_hydrated_def and_then_Inr_iff exec_Inr_iff Let_def intro!: update promoted split: if_splits option.split_asm)
  have others: "content_kept.moves (meanwhile (he_others env n p))" for n p
    using assms by (auto simp: content_kept.moves_def meanwhile_def store_after_def content_kept.R_refl split: prod.split) (metis fst_conv content_kept.R_refl)
  have "content_kept.moves (promote env n skill hash outcome)" for n hash outcome
    by (auto simp: promote_def refused_def mark_skill_hydrated_def intro!: content_kept.moves_rules get row others split: sum.split store_error.split)
  then have "content_kept.moves (hydrate_turn env sv skill n)" for n
    by (auto simp: hydrate_turn_def hydrate_row_def lay_out_def Let_def intro!: content_kept.moves_rules get others)
  then have "content_kept.moves (hydrate_loop env sv skill n)" for n
    by (induction n) (auto intro!: content_kept.moves_rules split: option.split)
  then show ?thesis by (simp add: hydrate_skill_def)
qed

text \<open>When no other thread writes meanwhile, a hydration changes nothing of the store but where the skill is laid out, whether
  it is synced and the times of its row, whether it returns, fails or is cut short: no content hash, no revision, no
  mutation and no other table.\<close>

theorem hydration_keeps_the_content:
  assumes "\<And>n p d x. fst (he_others env n p (d, x)) = d" and "r = hydrate_skill env sv skill d w"
  shows "same_content d (store_after r)"
  unfolding assms(2) by (rule content_kept.movesD [OF content_kept_hydrate [OF assms(1)]])

end
