(* ===== verification/Cycle_Disk.thy ===== *)
theory Cycle_Disk
  imports Sync_Properties Hydration_Safety
begin

text \<open>
  What a cycle does to the disk: it adds blobs, whatever fails and however the process dies. So the worker's
  cycles are the kind of thread a hydration may run beside.
\<close>

section \<open>How programs move the disk\<close>

text \<open>A reflexive and transitive relation on disks that each program over files respects.\<close>

locale disk_moves =
  fixes D :: "node \<Rightarrow> node \<Rightarrow> bool"
  assumes D_refl: "D x x" and D_trans: "D a b \<Longrightarrow> D b c \<Longrightarrow> D a c"
begin

definition carries :: "('e, 'a) app \<Rightarrow> bool" where
  "carries m \<longleftrightarrow> (\<forall>d w. D (disk w) (disk (world_after (m d w))))"

lemma carriesD: "carries m \<Longrightarrow> D (disk w) (disk (world_after (m d w)))"
  by (simp add: carries_def)

lemma carries_give: "carries (app_give a)" and carries_raise: "carries (app_raise e)"
  by (simp_all add: carries_def app_give_def app_raise_def world_after_def D_refl)

lemma carries_result: "carries (app_result r)"
  by (cases r) (simp_all add: app_result_def carries_give carries_raise)

lemma carries_then:
  assumes "carries m" and "\<And>a. carries (f a)" shows "carries (app_then m f)"
  unfolding carries_def
proof (intro allI)
  fix d w
  show "D (disk w) (disk (world_after (app_then m f d w)))"
    using carriesD [OF assms(1), of w d] carriesD [OF assms(2)] D_trans
    by (cases "m d w") (auto simp: app_then_def world_after_def)
qed

lemma carries_try: "carries m \<Longrightarrow> carries (app_try m)" and carries_err: "carries m \<Longrightarrow> carries (app_err g m)"
proof -
  assume m: "carries m"
  show "carries (app_try m)" "carries (app_err g m)" unfolding carries_def
    using carriesD [OF m] by (auto simp: app_try_def app_err_def world_after_def split: ending.split_asm ending.split) (metis ending.case)+
qed

lemma carries_transact: "carries (transact f)"
  by (auto simp: carries_def transact_def world_after_def D_refl split: list.split fault.split sum.split)

lemma carries_store: "carries (store_read g)" "carries (store_write h)"
  by (simp_all add: store_read_def store_write_def carries_transact)

lemma carries_on_disk:
  assumes "\<And>x. keeps (D x) m" shows "carries (on_disk m)"
  unfolding carries_def
proof (intro allI)
  fix d and w :: world
  have "wlp UNIV m (\<lambda>_. D (disk w)) (\<lambda>_. D (disk w)) (D (disk w)) (disk w)" by (rule keepsD [OF assms D_refl])
  then show "D (disk w) (disk (world_after (on_disk m d w)))"
    by (cases w) (auto simp: wlp_def on_disk_def world_after_def split: run.split run.split_asm)
qed

lemmas carries_rules = carries_give carries_raise carries_result carries_then carries_try carries_err carries_transact carries_store

end

interpretation blob_growth: disk_moves "blobs_grow sha root" for sha root
  by unfold_locales (auto intro: blobs_grow_refl blobs_grow_trans)

section \<open>A cycle adds blobs\<close>

abbreviation grows :: "sync_env \<Rightarrow> ('e, 'a) app \<Rightarrow> bool" where
  "grows env \<equiv> blob_growth.carries (be_sha (se_blobs env)) (be_root (se_blobs env))"

abbreviation digests :: "sync_env \<Rightarrow> bool" where
  "digests env \<equiv> (\<forall>b. canonical_digest (be_sha (se_blobs env) b))"

lemma keeps_download:
  assumes "digests env"
  shows "keeps (blobs_grow (be_sha (se_blobs env)) (be_root (se_blobs env)) x) (download_page_blobs env sv page n chs)"
proof (induction chs arbitrary: n)
  case (Cons ch chs)
  have "keeps (blobs_grow (be_sha (se_blobs env)) (be_root (se_blobs env)) x) (download_blob env sv page hash)" for hash
    unfolding download_blob_def Let_def by (intro keeps_rules keeps_put) (use assms in simp)
  then show ?case using Cons by (auto intro: keeps_rules)
qed (simp add: keeps_give)

lemma keeps_upload: "keeps P (sync_snapshot_closure be sv manifest)"
proof -
  have "keeps P (upload_missing be sv manifest n bs)" for n bs
    by (induction bs arbitrary: n) (auto simp: read_bytes_def intro!: keeps_rules)
  then show ?thesis unfolding sync_snapshot_closure_def snapshot_closure_def read_bytes_def by (intro keeps_rules)
qed

lemma grows_pull_page: "digests env \<Longrightarrow> grows env (pull_page env sv s)"
  unfolding pull_page_def by (intro blob_growth.carries_rules blob_growth.carries_on_disk keeps_download)

lemma grows_pull: assumes "digests env" shows "grows env (pull_changes env sv)"
proof -
  let ?D = "blobs_grow (be_sha (se_blobs env)) (be_root (se_blobs env))"
  have "?D (disk w) (disk (world_after (pull_loop env sv s d w)))" for s d w
    using assms
  proof (induction env sv s d w rule: pull_loop.induct)
    case (1 env sv s d w)
    let ?D = "blobs_grow (be_sha (se_blobs env)) (be_root (se_blobs env))"
    have first: "?D (disk w) (disk (world_after (pull_page env sv s d w)))"
      by (rule blob_growth.carriesD [OF grows_pull_page [OF 1(2)]])
    show ?case
    proof (cases "pull_page env sv s d w")
      case (Returned p d' w')
      obtain again s' where p: "p = (again, s')" by (cases p)
      show ?thesis
      proof (cases "\<not> again \<or> max_pages_per_cycle \<le> ps_pages_applied s'")
        case True
        then show ?thesis using first Returned p by (simp add: pull_loop.simps [of env] app_then_def app_give_def world_after_def)
      next
        case False
        have "?D (disk w') (disk (world_after (pull_loop env sv s' d' w')))"
          by (rule 1(1)) (use Returned p False 1(2) in auto)
        then show ?thesis using first Returned p False blobs_grow_trans
          by (auto simp: pull_loop.simps [of env sv s] app_then_def world_after_def)
      qed
    qed (use first in \<open>simp_all add: pull_loop.simps [of env sv s] app_then_def world_after_def\<close>)
  qed
  then show ?thesis by (simp add: blob_growth.carries_def pull_changes_def)
qed

lemma grows_push: "grows env (push_each env sv n ms)"
proof (induction ms arbitrary: n)
  case (Cons m ms)
  have up: "grows env (upload_package env sv m)"
    by (auto simp: upload_package_def apply_outcome_def intro!: blob_growth.carries_rules blob_growth.carries_on_disk keeps_upload split: sum.split)
  have "grows env (dispatch_mutation env sv m)"
    by (auto simp: dispatch_mutation_def device_id_for_def submit_failed_def apply_outcome_def Let_def
        intro!: up blob_growth.carries_rules split: sum.split)
  then show ?case using Cons by (auto intro!: blob_growth.carries_rules split: sum.split)
qed (simp add: blob_growth.carries_give)

lemma grows_cycle: assumes "digests env" shows "grows env (run_cycle env sv)"
proof -
  have "grows env (ensure_session sv env)" "grows env (ensure_device sv env)" "grows env (push_changes env sv)" "grows env (pull_or_record env sv)"
    by (auto simp: ensure_session_def ensure_device_def push_changes_def pull_or_record_def
        intro!: blob_growth.carries_rules grows_push grows_pull [OF assms] split: sum.split option.split)
  then show ?thesis by (auto simp: run_cycle_def intro!: blob_growth.carries_rules)
qed

text \<open>C37: A cycle only adds blobs. Whatever the server answers, whatever fails and wherever the process dies, no file or folder
  outside the blob store changes, so no workspace and no agent's folder, and every blob that could be read before
  the cycle can be read after it, with the same content.\<close>

theorem cycles_only_add_blobs:
  assumes "\<And>b. canonical_digest (be_sha (se_blobs env) b)" and "x = disk (world_after (run_cycle env sv d w))"
  shows "(\<forall>q. unrelated (be_root (se_blobs env)) q \<longrightarrow> entry q x = entry q (disk w))
    \<and> (\<forall>hash content. read_blob (be_sha (se_blobs env)) (be_root (se_blobs env)) hash (disk w) = Inr content
        \<longrightarrow> read_blob (be_sha (se_blobs env)) (be_root (se_blobs env)) hash x = Inr content)"
proof -
  have "blobs_grow (be_sha (se_blobs env)) (be_root (se_blobs env)) (disk w) x"
    unfolding assms(2) by (rule blob_growth.carriesD [OF grows_cycle]) (use assms(1) in blast)
  then show ?thesis using tree.away_entry by (auto simp: blobs_grow_def)
qed

section \<open>A hydration beside the worker\<close>

text \<open>At each point of the hydration the worker may run a cycle, with its own failures, to its end.\<close>

type_synonym cycles = "nat \<Rightarrow> hydration_point \<Rightarrow> (sync_env \<times> server \<times> fault list) option"

definition beside_worker :: "cycles \<Rightarrow> hydrate_env \<Rightarrow> hydrate_env" where
  "beside_worker cycles env = env\<lparr>he_others := \<lambda>n p (d, x). case cycles n p of
     None \<Rightarrow> (d, x)
   | Some (se, sv, s) \<Rightarrow> (let r = run_cycle se sv d \<lparr>disk = x, schedule = s\<rparr> in (store_after r, disk (world_after r)))\<rparr>"

lemma beside_worker_simps [simp]:
  "he_workspaces (beside_worker cycles env) = he_workspaces env" "he_now (beside_worker cycles env) = he_now env"
  "hydrate_ok (beside_worker cycles env) = hydrate_ok env" "backup_of (beside_worker cycles env) = backup_of env"
  "fresh_backups (beside_worker cycles env) = fresh_backups env"
  by (simp_all add: beside_worker_def hydrate_ok_def backup_of_def fresh_backups_def fun_eq_iff)

lemma worker_stays_apart:
  assumes "hydrate_ok env" and "\<And>n p se sv s. cycles n p = Some (se, sv, s) \<Longrightarrow>
      be_sha (se_blobs se) = ws_sha (he_workspaces env) \<and> be_root (se_blobs se) = ws_blobs (he_workspaces env)"
  shows "others_apart (beside_worker cycles env) skill"
  unfolding others_apart_def
proof (intro allI)
  fix n p d x
  have refl: "undisturbed (beside_worker cycles env) skill x x" by (simp add: undisturbed_def)
  show "undisturbed (beside_worker cycles env) skill x (snd (he_others (beside_worker cycles env) n p (d, x)))"
  proof (cases "cycles n p")
    case None
    then show ?thesis using refl by (simp add: beside_worker_def [of cycles env])
  next
    case (Some c)
    obtain se sv s where c: "c = (se, sv, s)" by (cases c)
    note same = assms(2) [OF Some [unfolded c]]
    have "digests se" using same assms(1) by (simp add: hydrate_ok_def)
    from blob_growth.carriesD [OF grows_cycle [OF this], of "\<lparr>disk = x, schedule = s\<rparr>"]
    have "blobs_grow (ws_sha (he_workspaces env)) (ws_blobs (he_workspaces env)) x (disk (world_after (run_cycle se sv d \<lparr>disk = x, schedule = s\<rparr>)))"
      using same by simp
    then have "undisturbed (beside_worker cycles env) skill x (disk (world_after (run_cycle se sv d \<lparr>disk = x, schedule = s\<rparr>)))"
      using blobs_kept_undisturbed [of "beside_worker cycles env"] assms(1) by simp
    then show ?thesis using Some c by (simp add: beside_worker_def [of cycles env] Let_def)
  qed
qed

end
