(* ===== verification/Hydration_Samples.thy ===== *)
theory Hydration_Samples
  imports Cycle_Disk Sync_Samples
begin

text \<open>
  Hydrations evaluated by the simplifier: the blob store holds one snapshot; the skill is known by its
  metadata, or synced with a folder its user has edited.
\<close>

lemma sample_sha_canonical: "canonical_digest (sample_sha b)"
proof -
  have "\<forall>n < 10. canonical_digest (replicate 63 (CHR ''0'') @ dec (int n))" by code_simp
  then show ?thesis by (simp add: sample_sha_def)
qed

definition hydrate_sample :: hydrate_env where
  "hydrate_sample = \<lparr>he_workspaces = \<lparr>ws_root = ''/ws'', ws_codec = sample_codec, ws_sha = sample_sha, ws_blobs = [''blobs'']\<rparr>,
     he_now = 90, he_blob_uuid = (\<lambda>_ h. h), he_stage_uuid = (\<lambda>n. replicate n (CHR ''s'')),
     he_backup_uuid = (\<lambda>n. replicate n (CHR ''b'')), he_others = (\<lambda>_ _ here. here)\<rparr>"

definition one_skill :: "skill_sync_state \<Rightarrow> store" where
  "one_skill st = fresh_store\<lparr>skills := [(sample_skill ''s1'' (Some ''r1'') st (Some 4))\<lparr>sk_current_blob_hash := snapshot_hash\<rparr>]\<rparr>"

definition folders :: "(string \<times> node) list \<Rightarrow> world" where
  "folders es = \<lparr>disk = Folder [(''blobs'', Materialize.sample_store), (''ws'', Folder es)], schedule = []\<rparr>"

definition hydrated :: "skill_sync_state \<Rightarrow> (string \<times> node) list \<Rightarrow> (hydration_error, hydration_outcome) ending" where
  "hydrated st es = hydrate_skill hydrate_sample sample_server ''s1'' (one_skill st) (folders es)"

lemma hydrate_sample_ok: "hydrate_ok hydrate_sample"
proof -
  have "locate ''/ws'' = [''ws'']" by code_simp
  moreover have "inj (\<lambda>n. replicate n (CHR ''b''))" by (rule injI) (metis length_replicate)
  ultimately show ?thesis
    by (simp add: hydrate_ok_def hydrate_sample_def sample_sha_canonical sample_codec_utf8 is_absolute_def)
qed

text \<open>The worker runs a cycle between the layout of the files and the promotion.\<close>

definition one_cycle :: cycles where
  "one_cycle n p = (if n = 2 \<and> p = FilesLaidOut then Some (cycle_env, sample_server, []) else None)"

definition disturbed :: hydrate_env where
  "disturbed = beside_worker one_cycle hydrate_sample"

definition hydrated_beside :: "(hydration_error, hydration_outcome) ending" where
  "hydrated_beside = hydrate_skill disturbed sample_server ''s1'' (one_skill RemoteOnly) (folders [])"

lemma disturbed_ok: "hydrate_ok disturbed" "others_apart disturbed skill" "fresh_backups disturbed 3 (disk (folders []))"
proof -
  show "hydrate_ok disturbed" by (simp add: disturbed_def hydrate_sample_ok)
  have "be_sha (se_blobs cycle_env) = ws_sha (he_workspaces hydrate_sample) \<and> be_root (se_blobs cycle_env) = ws_blobs (he_workspaces hydrate_sample)"
    by (simp add: cycle_env_def sample_blob_env_def hydrate_sample_def)
  then show "others_apart disturbed skill" unfolding disturbed_def
    by (intro worker_stays_apart [OF hydrate_sample_ok]) (auto simp: one_cycle_def split: if_splits)
  have "list_all (\<lambda>m. entry (backup_of hydrate_sample m) (disk (folders [])) = None) [0, 1, 2]" by code_simp
  then show "fresh_backups disturbed 3 (disk (folders []))"
    by (auto simp: disturbed_def fresh_backups_def less_Suc_eq numeral_3_eq_3 numeral_2_eq_2)
qed

theorem hydrated_skills_are_laid_out_witness:
  "case hydrated_beside of
     Returned outcome d w \<Rightarrow> ho_workspace_created outcome \<and> ho_manifest_hash outcome = snapshot_hash
       \<and> (\<exists>r. verify_materialized_snapshot sample_codec sample_sha [''blobs''] snapshot_hash (locate (ho_workspace_path outcome)) (disk w) = Inr r)
   | _ \<Rightarrow> False"
proof -
  have "case hydrated_beside of Returned outcome d w \<Rightarrow> ho_workspace_created outcome \<and> ho_manifest_hash outcome = snapshot_hash | _ \<Rightarrow> False"
    by code_simp
  then obtain outcome d w where run: "hydrated_beside = Returned outcome d w"
    and o: "ho_workspace_created outcome" "ho_manifest_hash outcome = snapshot_hash"
    by (auto split: ending.splits)
  have env: "he_workspaces disturbed = \<lparr>ws_root = ''/ws'', ws_codec = sample_codec, ws_sha = sample_sha, ws_blobs = [''blobs'']\<rparr>"
    by (simp add: disturbed_def hydrate_sample_def)
  note laid = hydrated_skills_are_laid_out [OF disturbed_ok run [unfolded hydrated_beside_def]]
  have "\<exists>r. verify_materialized_snapshot sample_codec sample_sha [''blobs''] snapshot_hash (locate (ho_workspace_path outcome)) (disk w) = Inr r"
    using conjunct1 [OF conjunct2 [OF laid]] by (simp add: env o)
  then show ?thesis unfolding run using o by simp
qed

text \<open>A cycle of the sample server, from the store and the disk of the other samples.\<close>

theorem cycles_only_add_blobs_witness:
  "let x = disk (world_after (run_cycle cycle_env sample_server bound_store cycle_world)) in
   (\<exists>content. read_blob sample_sha [''blobs''] snapshot_hash (disk cycle_world) = Inr content \<and> read_blob sample_sha [''blobs''] snapshot_hash x = Inr content)
   \<and> entry [''ws''] x = entry [''ws''] (disk cycle_world)"
proof -
  have env: "be_sha (se_blobs cycle_env) = sample_sha" "be_root (se_blobs cycle_env) = [''blobs'']"
    by (simp_all add: cycle_env_def sample_blob_env_def)
  have "is_ok (read_blob sample_sha [''blobs''] snapshot_hash (disk cycle_world))" by code_simp
  then obtain content where "read_blob sample_sha [''blobs''] snapshot_hash (disk cycle_world) = Inr content"
    by (auto simp: is_ok_def split: sum.splits)
  moreover have "unrelated [''blobs''] [''ws'']" by code_simp
  ultimately show ?thesis
    using cycles_only_add_blobs [of cycle_env _ sample_server bound_store cycle_world] sample_sha_canonical by (simp add: env Let_def)
qed

text \<open>Counterexample: hydration is documented never to cost local work. A synced skill whose folder its user
  has edited, without committing the edit yet, is hydrated: the folder is replaced, and the edit is
  nowhere on the disk afterwards.\<close>

theorem hydration_discards_uncommitted_edits:
  "case hydrated Synced [(sample_sha ''s1'', Folder [(''SKILL.md'', Plain ''edited'')])] of
     Returned outcome d w \<Rightarrow> skills d = map (\<lambda>r. r\<lparr>sk_workspace_path := ho_workspace_path outcome, sk_updated_at := 90, sk_last_accessed_at := Some 90\<rparr>) (skills (one_skill Synced))
       \<and> disk w = disk (folders [(sample_sha ''s1'', Folder [(''SKILL.md'', Plain ''hi'')])])
   | _ \<Rightarrow> False"
  by code_simp

end
