(* ===== verification/Archives.thy ===== *)
theory Archives
  imports Workspaces Captures Deployments App "HOL-Library.Word"
begin

text \<open>
  The two ways a skill enters from outside, \<open>workspace/zip.rs\<close> and \<open>workspace/import.rs\<close>: a ZIP archive
  the user picked, unpacked into a staging folder, and a folder an agent already has. Both are captured as
  a snapshot and laid out as a workspace. The ZIP format is not in the repository: \<open>ze_open\<close> and \<open>ze_pack\<close>
  read and write archives, as lists of entries.
\<close>

unbundle bit_operations_syntax

section \<open>Archives\<close>

text \<open>\<open>ae_read\<close> gives the first so many bytes of the unpacked file.\<close>

record archive_entry =
  ae_name :: string
  ae_is_dir :: bool
  ae_mode :: "32 word option"
  ae_size :: nat
  ae_read :: "nat \<Rightarrow> io_error + string"

record zip_env =
  ze_workspaces :: workspace_store
  ze_temp_dir :: path
  ze_uuid :: string
  ze_blob_uuids :: "string list"
  ze_open :: "string \<Rightarrow> string + (string + archive_entry) list"
  ze_pack :: "(string \<times> string option) list \<Rightarrow> string + string"
  ze_io_text :: "io_error \<Rightarrow> string"

datatype zip_error =
  ArchiveTooLarge nat
| TooManyEntries nat
| UnsafeEntry string
| EntryTooLarge string nat
| TotalTooLarge
| EntrySizeMismatch string
| ZipMalformed string
| ZipIo io_error
| ZipSnapshot snapshot_error
| ZipWorkspace workspace_error

record zip_import_outcome =
  zo_workspace :: workspace_ref
  zo_manifest_hash :: string
  zo_source_file_name :: string
  zo_file_count :: nat

definition max_archive_bytes :: nat where "max_archive_bytes = 512 * 1024 * 1024"
definition max_entries :: nat where "max_entries = 10000"
definition max_entry_bytes :: nat where "max_entry_bytes = 64 * 1024 * 1024"
definition max_total_bytes :: nat where "max_total_bytes = 512 * 1024 * 1024"

definition plain_component :: "component \<Rightarrow> bool" where
  "plain_component c = (case c of Normal x \<Rightarrow> x \<notin> {[], ''.'', ''..''} | _ \<Rightarrow> False)"

definition validate_entry_name :: "string \<Rightarrow> zip_error + unit" where
  "validate_entry_name name =
     (if name = [] \<or> CHR 0x5C \<in> set name then Inl (UnsafeEntry name)
      else if is_absolute name then Inl (UnsafeEntry name)
      else if list_all plain_component (components name) then Inr () else Inl (UnsafeEntry name))"

text \<open>\<open>fs::write\<close>: the file is created or emptied, then written.\<close>

definition create_truncate :: "location \<Rightarrow> (io_error, unit) io" where
  "create_truncate p = atomic (\<lambda>d. case stat p d of
     Found (Plain _) \<Rightarrow> Inr (put_entry p (Some (Plain [])) d, ())
   | Found (Folder _) \<Rightarrow> Inl IsADirectory
   | Found _ \<Rightarrow> Inl OtherIo
   | stat_result.Missing \<Rightarrow> new_entry p (Plain []) d
   | Broken \<Rightarrow> Inl NotADirectory)"

definition fs_write :: "location \<Rightarrow> string \<Rightarrow> (io_error, unit) io" where
  "fs_write p content = do_then (create_truncate p) (\<lambda>_. write_all p content)"

text \<open>A regular file of an archive; the unpacked size of all files so far is returned.\<close>

definition extract_file :: "path \<Rightarrow> nat \<Rightarrow> archive_entry \<Rightarrow> (zip_error, nat) io" where
  "extract_file staging so_far e =
     (let name = ae_name e; declared = ae_size e; target = path_join staging name in
      if (case ae_mode e of Some mode \<Rightarrow> mode AND 0xF000 = 0xA000 | None \<Rightarrow> False) then raise (UnsafeEntry name)
      else if max_entry_bytes < declared then raise (EntryTooLarge name max_entry_bytes)
      else if max_total_bytes < so_far + declared then raise TotalTooLarge
      else if \<not> prefix (components staging) (components target) then raise (UnsafeEntry name)
      else
        do_then (wrap ZipIo (create_dir_all (butlast (locate target)))) (\<lambda>_.
        do_then (wrap ZipIo (from_result (ae_read e max_entry_bytes))) (\<lambda>content.
        if length content \<noteq> declared then raise (EntrySizeMismatch name)
        else do_then (wrap ZipIo (fs_write (locate target) content)) (\<lambda>_. give (so_far + declared)))))"

definition extract_entry :: "path \<Rightarrow> nat \<Rightarrow> string + archive_entry \<Rightarrow> (zip_error, nat) io" where
  "extract_entry staging so_far item =
     do_then (from_result (map_err ZipMalformed item)) (\<lambda>e.
     do_then (from_result (validate_entry_name (ae_name e))) (\<lambda>_.
     if ae_is_dir e then do_then (wrap ZipIo (create_dir_all (locate (path_join staging (ae_name e))))) (\<lambda>_. give so_far)
     else extract_file staging so_far e))"

fun extract_each :: "path \<Rightarrow> nat \<Rightarrow> (string + archive_entry) list \<Rightarrow> (zip_error, unit) io" where
  "extract_each staging so_far [] = give ()"
| "extract_each staging so_far (e # es) = do_then (extract_entry staging so_far e) (\<lambda>sum'. extract_each staging sum' es)"

definition extract_archive :: "(string + archive_entry) list \<Rightarrow> path \<Rightarrow> (zip_error, nat) io" where
  "extract_archive archive staging =
     (if max_entries < length archive then raise (TooManyEntries max_entries)
      else do_then (extract_each staging 0 archive) (\<lambda>_. give (length archive)))"

section \<open>Importing an archive\<close>

definition file_len :: "node \<Rightarrow> nat" where
  "file_len n = (case n of Plain c \<Rightarrow> length c | _ \<Rightarrow> 0)"

definition file_name :: "path \<Rightarrow> string" where
  "file_name p = (case components p of [] \<Rightarrow> [] | cs \<Rightarrow> (case last cs of Normal x \<Rightarrow> x | _ \<Rightarrow> []))"

definition open_archive :: "zip_env \<Rightarrow> path \<Rightarrow> (zip_error, (string + archive_entry) list) io" where
  "open_archive env zip_path = do_then (attempt (read_file (locate zip_path))) (\<lambda>r. case r of
     Inr content \<Rightarrow> from_result (map_err ZipMalformed (ze_open env content))
   | Inl IsADirectory \<Rightarrow> raise (ZipMalformed (ze_io_text env IsADirectory))
   | Inl e \<Rightarrow> raise (ZipIo e))"

definition unpack :: "zip_env \<Rightarrow> path \<Rightarrow> string \<Rightarrow> path \<Rightarrow> (string + archive_entry) list \<Rightarrow> (zip_error, zip_import_outcome) io" where
  "unpack env zip_path skill staging archive = (let ws = ze_workspaces env in
     do_then (extract_archive archive staging) (\<lambda>file_count.
     do_then (wrap ZipSnapshot (capture_workspace (ws_codec ws) (ws_sha ws) (ws_blobs ws) staging default_policy (ze_blob_uuids env))) (\<lambda>snapshot.
     do_then (wrap ZipWorkspace (import_snapshot ws skill (sr_manifest_hash snapshot))) (\<lambda>workspace.
     give \<lparr>zo_workspace = workspace, zo_manifest_hash = sr_manifest_hash snapshot,
       zo_source_file_name = file_name zip_path, zo_file_count = file_count\<rparr>))))"

definition import_skill_zip :: "zip_env \<Rightarrow> path \<Rightarrow> string \<Rightarrow> (zip_error, zip_import_outcome) io" where
  "import_skill_zip env zip_path skill =
     do_then (wrap ZipIo (metadata (locate zip_path))) (\<lambda>n.
     if (case n of Link _ \<Rightarrow> True | _ \<Rightarrow> False) then raise (UnsafeEntry zip_path)
     else if max_archive_bytes < file_len n then raise (ArchiveTooLarge max_total_bytes)
     else
       do_then (open_archive env zip_path) (\<lambda>archive.
       let staging = path_join (ze_temp_dir env) (''skillhive-import-'' @ ze_uuid env) in
       do_then (wrap ZipIo (create_dir_all (locate staging))) (\<lambda>_.
       do_then (attempt (unpack env zip_path skill staging archive)) (\<lambda>outcome.
       do_then (attempt (remove_any (locate staging))) (\<lambda>_. from_result outcome)))))"

section \<open>Exporting a snapshot\<close>

text \<open>\<open>collect_tree\<close>: every folder and file below the staging folder.\<close>

function (sequential) collect_tree :: "location \<Rightarrow> (string \<times> node) list \<Rightarrow> location list \<Rightarrow> zip_error + location list" where
  "collect_tree pre [] out = Inr out"
| "collect_tree pre ((x, n) # es) out =
     and_then (case n of
         Link _ \<Rightarrow> Inl (ZipIo OtherIo)
       | Folder cs \<Rightarrow> collect_tree (pre @ [x]) cs (out @ [pre @ [x]])
       | _ \<Rightarrow> Inr (out @ [pre @ [x]])) (collect_tree pre es)"
  by pat_completeness auto
termination by (relation "measure (\<lambda>(_, es, _). size_list (size_prod (\<lambda>_. 0) size) es)") auto

definition zip_entry_of :: "location \<Rightarrow> node \<Rightarrow> location \<Rightarrow> zip_error + (string \<times> string option)" where
  "zip_entry_of source d p =
     (let name = map (\<lambda>c. if c = CHR 0x5C then CHR ''/'' else c) (join_with (CHR ''/'') p) in
      case stat (source @ p) d of
        Found (Folder _) \<Rightarrow> Inr (name, None)
      | Found (Plain c) \<Rightarrow> Inr (name, Some c)
      | Found _ \<Rightarrow> Inl (ZipIo OtherIo)
      | stat_result.Missing \<Rightarrow> Inl (ZipIo io_error.NotFound)
      | Broken \<Rightarrow> Inl (ZipIo NotADirectory))"

definition tree_entries :: "location \<Rightarrow> node \<Rightarrow> zip_error + (string \<times> string option) list" where
  "tree_entries source d =
     (case stat source d of
        Found (Folder es) \<Rightarrow> and_then (collect_tree [] es []) (\<lambda>paths. try_map (zip_entry_of source d) (sort paths))
      | Found _ \<Rightarrow> Inl (ZipIo NotADirectory)
      | stat_result.Missing \<Rightarrow> Inl (ZipIo io_error.NotFound)
      | Broken \<Rightarrow> Inl (ZipIo NotADirectory))"

definition write_zip_tree :: "zip_env \<Rightarrow> location \<Rightarrow> location \<Rightarrow> (zip_error, unit) io" where
  "write_zip_tree env source destination =
     do_then (wrap ZipIo (create_truncate destination)) (\<lambda>_.
     do_then (query ZipIo (tree_entries source)) (\<lambda>entries.
     do_then (from_result (map_err ZipMalformed (ze_pack env entries))) (\<lambda>content.
     wrap ZipIo (write_all destination content))))"

definition export_skill_zip :: "zip_env \<Rightarrow> string \<Rightarrow> path \<Rightarrow> (zip_error, unit) io" where
  "export_skill_zip env snapshot_hash destination = (let ws = ze_workspaces env;
     staging = path_join (ze_temp_dir env) (''skillhive-export-'' @ ze_uuid env) in
     do_then (attempt (
       do_then (wrap ZipSnapshot (materialize_snapshot (ws_codec ws) (ws_sha ws) (ws_blobs ws) snapshot_hash staging)) (\<lambda>_.
       write_zip_tree env (locate staging) (locate destination)))) (\<lambda>r.
     do_then (attempt (remove_any (locate staging))) (\<lambda>_. from_result r)))"

section \<open>Importing a folder of an agent\<close>

record import_env =
  im_workspaces :: workspace_store
  im_home :: "path option"
  im_blob_uuids :: "string list"
  im_io_text :: "io_error \<Rightarrow> string"

record import_request =
  ir_skill_id :: string
  ir_agent_profile_id :: string
  ir_directory_name :: string

record import_result =
  io_workspace :: workspace_ref
  io_snapshot :: snapshot_ref
  io_source_profile_id :: string
  io_source_directory_name :: string

datatype import_error =
  ImportProfileNotFound string
| ImportProfileDisabled string
| InvalidDirectoryName string
| SourceNotFound path
| InvalidSource path
| ImportIo io_error
| ImportAgent agent_error
| ImportStore store_error
| ImportSnapshot snapshot_error
| ImportWorkspace workspace_error

definition import_directory_name :: "string \<Rightarrow> import_error + unit" where
  "import_directory_name v =
     (if v = [] \<or> starts_with v reserved_prefix then Inl (InvalidDirectoryName v)
      else case components v of
        [Normal c] \<Rightarrow> if c \<noteq> [] then Inr () else Inl (InvalidDirectoryName v)
      | _ \<Rightarrow> Inl (InvalidDirectoryName v))"

text \<open>What the checks of a profile see of the disk.\<close>

definition agents_on :: "import_env \<Rightarrow> node \<Rightarrow> agent_env" where
  "agents_on env d = \<lparr>ev_home = im_home env, ev_stat = (\<lambda>p. case stat (locate p) d of
     Found (Folder _) \<Rightarrow> Directory
   | Found (Link _) \<Rightarrow> Symlink
   | Found _ \<Rightarrow> OtherFile
   | stat_result.Missing \<Rightarrow> file_kind.NotFound
   | Broken \<Rightarrow> StatFailed (im_io_text env NotADirectory))\<rparr>"

definition agent_check :: "import_env \<Rightarrow> (agent_env \<Rightarrow> agent_error + unit) \<Rightarrow> (import_error, unit) io" where
  "agent_check env f = query (\<lambda>e. ImportAgent (Discovery (im_io_text env e))) (\<lambda>d. map_err ImportAgent (f (agents_on env d)))"

definition import_folder :: "import_env \<Rightarrow> import_request \<Rightarrow> profile_row \<Rightarrow> path \<Rightarrow> (import_error, import_result) io" where
  "import_folder env q profile source = (let ws = im_workspaces env in
     do_then (wrap (\<lambda>e. if e = io_error.NotFound then SourceNotFound source else ImportIo e) (metadata (locate source))) (\<lambda>n.
     if \<not> folder_node n then raise (InvalidSource source)
     else
       do_then (wrap ImportSnapshot (capture_workspace (ws_codec ws) (ws_sha ws) (ws_blobs ws) source default_policy (im_blob_uuids env))) (\<lambda>snapshot.
       do_then (wrap ImportWorkspace (import_snapshot ws (ir_skill_id q) (sr_manifest_hash snapshot))) (\<lambda>workspace.
       give \<lparr>io_workspace = workspace, io_snapshot = snapshot, io_source_profile_id = pr_id profile,
         io_source_directory_name = ir_directory_name q\<rparr>))))"

definition import_profile :: "import_env \<Rightarrow> import_request \<Rightarrow> profile_row \<Rightarrow> (import_error, import_result) io" where
  "import_profile env q profile =
     do_then (agent_check env (\<lambda>a. validate_persisted_profile a (pr_id profile) (pr_descriptor_id profile) (pr_skill_root profile) (pr_is_custom profile))) (\<lambda>_.
     do_then (agent_check env (\<lambda>a. validate_skill_root a (pr_skill_root profile))) (\<lambda>_.
     let source = path_join (pr_skill_root profile) (ir_directory_name q) in
     if parent source \<noteq> Some (components (pr_skill_root profile)) then raise (InvalidDirectoryName (ir_directory_name q))
     else import_folder env q profile source))"

definition import_agent_skill :: "import_env \<Rightarrow> import_request \<Rightarrow> (import_error, import_result) app" where
  "import_agent_skill env q =
     app_then (app_result (import_directory_name (ir_directory_name q))) (\<lambda>_.
     app_then (app_err ImportStore (store_read (\<lambda>d. Inr (get_agent_profile (ir_agent_profile_id q) d)))) (\<lambda>found.
     app_then (app_result (ok_or found (ImportProfileNotFound (ir_agent_profile_id q)))) (\<lambda>profile.
     if \<not> pr_enabled profile then app_raise (ImportProfileDisabled (pr_id profile))
     else on_disk (import_profile env q profile))))"

end
