(* ===== verification/Archive_Safety.thy ===== *)
theory Archive_Safety
  imports Archives Workspace_Safety
begin

text \<open>
  An archive cannot write outside the folder it is unpacked into, and what is imported is what was there:
  the workspace of an imported folder holds the same files.
\<close>

section \<open>Unpacking stays in its folder\<close>

lemma plain_components: "list_all plain_component cs \<Longrightarrow> \<exists>xs. cs = map Normal xs"
proof (induction cs)
  case (Cons c cs)
  then obtain x xs where "c = Normal x" "cs = map Normal xs" by (auto simp: plain_component_def split: component.splits)
  then show ?case by (intro exI [of _ "x # xs"]) simp
qed simp

lemma components_plain:
  assumes "validate_entry_name name = Inr u"
  obtains x xs where "components name = map Normal (x # xs)" and "\<not> is_absolute name"
    and "concat (map segment_component (split_on (CHR ''/'') name)) = map Normal (x # xs)"
proof -
  have name: "name \<noteq> []" "\<not> is_absolute name" "list_all plain_component (components name)"
    using assms by (auto simp: validate_entry_name_def split: if_splits)
  let ?segs = "split_on (CHR ''/'') name" let ?body = "concat (map segment_component ?segs)"
  have comps: "components name = (if hd ?segs = ''.'' then CurDir # ?body else ?body)"
    using name(2) by (simp add: components_def Let_def)
  have dot: "hd ?segs \<noteq> ''.''"
  proof
    assume "hd ?segs = ''.''"
    then have "CurDir \<in> set (components name)" using comps by simp
    then show False using name(3) by (auto simp: list_all_iff plain_component_def)
  qed
  then have body: "components name = ?body" using comps by simp
  have "\<exists>xs. ?body = map Normal xs" using plain_components name(3) unfolding body by blast
  then obtain xs where xs: "?body = map Normal xs" by blast
  have "xs \<noteq> []"
  proof
    assume "xs = []"
    then have none: "\<forall>s \<in> set ?segs. segment_component s = []" using xs by simp
    obtain c cs where c: "name = c # cs" "c \<noteq> CHR ''/''" using name(1,2) by (cases name) (auto simp: is_absolute_def)
    then obtain s ss where s: "?segs = (c # s) # ss" by (cases "split_on (CHR ''/'') cs") auto
    then have "segment_component (c # s) = []" using none by simp
    then have "c # s = ''.''" by (auto simp: segment_component_def split: if_splits)
    then show False using dot s by simp
  qed
  then show ?thesis using that xs name(2) body by (cases xs) auto
qed

lemma locate_normals: "components p = cs @ map Normal xs \<Longrightarrow> components r = cs \<Longrightarrow> locate p = locate r @ xs"
proof -
  have "foldl (\<lambda>l c. case c of Normal x \<Rightarrow> l @ [x] | ParentDir \<Rightarrow> butlast l | _ \<Rightarrow> l) l (map Normal xs) = l @ xs" for l :: location
    by (induction xs arbitrary: l) simp_all
  then show "components p = cs @ map Normal xs \<Longrightarrow> components r = cs \<Longrightarrow> locate p = locate r @ xs" by (simp add: locate_def)
qed

lemma entry_below:
  assumes "is_absolute staging" and "validate_entry_name name = Inr u"
  obtains x xs where "locate (path_join staging name) = locate staging @ x # xs"
proof -
  obtain x xs where c: "\<not> is_absolute name" "concat (map segment_component (split_on (CHR ''/'') name)) = map Normal (x # xs)"
    using components_plain [OF assms(2)] by metis
  have "components (path_join staging name) = components staging @ map Normal (x # xs)"
    using components_join_relative [OF assms(1) c(1)] c(2) by simp
  from locate_normals [OF this refl] show ?thesis by (rule that)
qed

lemma keeps_below_folders: "keeps (below r d0) (create_dir_all (r @ q))"
proof (rule keeps_create_dir_all)
  fix p d assume p: "prefix p (r @ q)" and i: "below r d0 d" and none: "entry p d = None"
  have "\<not> prefix p r" using is_folder_prefix [of r d p] none i by (auto simp: below_def is_folder_iff)
  then obtain us where us: "p = r @ us" "us \<noteq> []" using p by (auto simp: prefix_append)
  then obtain y s where "p = r @ y # s" by (cases us) auto
  then show "below r d0 (put_entry p (Some (Folder [])) d)" using below_put [OF i] by simp
qed

lemma keeps_below_write: "keeps (below r d0) (fs_write (r @ x # q) content)"
proof -
  have "keeps (below r d0) (create_truncate (r @ x # q))"
    unfolding create_truncate_def
    by (rule keeps_atomic) (auto split: stat_result.split_asm node.split_asm intro: below_put dest!: new_entry_Inr(4))
  then show ?thesis unfolding fs_write_def by (intro keeps_do_then keeps_below [OF confined_writes(4)])
qed

lemma keeps_extract_entry:
  assumes "is_absolute staging" shows "keeps (below (locate staging) d0) (extract_entry staging n item)"
proof (cases item)
  case (Inl m)
  then show ?thesis by (simp add: extract_entry_def from_result_def do_then_def raise_def keeps_def wlp_def)
next
  case (Inr e)
  show ?thesis
  proof (cases "validate_entry_name (ae_name e)")
    case (Inl m)
    then show ?thesis using Inr by (simp add: extract_entry_def from_result_def do_then_def raise_def give_def keeps_def wlp_def)
  next
    case v: (Inr u)
    obtain x xs where at: "locate (path_join staging (ae_name e)) = locate staging @ x # xs" using entry_below [OF assms v] by metis
    have up: "butlast (locate staging @ x # xs) = locate staging @ butlast (x # xs)" by (simp add: butlast_append)
    have "keeps (below (locate staging) d0) (extract_file staging n e)"
      unfolding extract_file_def Let_def at up by (intro keeps_rules keeps_below_folders keeps_below_write)
    moreover have "keeps (below (locate staging) d0) (create_dir_all (locate (path_join staging (ae_name e))))"
      unfolding at by (rule keeps_below_folders)
    moreover have "extract_entry staging n item = (if ae_is_dir e
        then do_then (wrap ZipIo (create_dir_all (locate (path_join staging (ae_name e))))) (\<lambda>_. give n) else extract_file staging n e)"
      by (simp add: extract_entry_def Inr v map_err_def from_result_def do_then_give)
    ultimately show ?thesis by (simp only:) (intro keeps_rules)
  qed
qed

lemma keeps_extract: "is_absolute staging \<Longrightarrow> keeps (below (locate staging) d0) (extract_archive archive staging)"
proof -
  assume s: "is_absolute staging"
  have "keeps (below (locate staging) d0) (extract_each staging n items)" for n items
    by (induction items arbitrary: n) (auto intro!: keeps_rules keeps_extract_entry [OF s])
  then show ?thesis unfolding extract_archive_def by (intro keeps_rules)
qed


section \<open>An import touches three places\<close>

definition elsewhere_same :: "location list \<Rightarrow> node \<Rightarrow> node \<Rightarrow> bool" where
  "elsewhere_same ps d0 d \<longleftrightarrow> (\<forall>q. list_all (\<lambda>p. unrelated p q) ps \<longrightarrow> entry q d = entry q d0)"

lemma elsewhere_same_refl: "elsewhere_same ps d d"
  by (simp add: elsewhere_same_def)

lemma elsewhere_same_step: "elsewhere_same ps d0 d \<Longrightarrow> tree.away p d d' \<Longrightarrow> p \<in> set ps \<Longrightarrow> elsewhere_same ps d0 d'"
  using tree.away_entry [of p d d'] by (auto simp: elsewhere_same_def list_all_iff)

lemma keeps_elsewhere: "confined p m \<Longrightarrow> p \<in> set ps \<Longrightarrow> keeps (elsewhere_same ps d0) m"
  by (rule keeps_confined) (auto intro: elsewhere_same_step)

lemma wlp_create_dir_all_rev: "xs \<noteq> [] \<Longrightarrow> wlp F (create_dir_all_rev xs) (\<lambda>_. is_folder (rev xs)) (\<lambda>_ _. True) (\<lambda>_. True) d"
proof (cases xs)
  case (Cons x ys)
  let ?p = "rev (x # ys)"
  let ?make = "do_then (attempt (create_dir ?p)) (\<lambda>r. case r of
        Inr _ \<Rightarrow> give (Inr ())
      | Inl e \<Rightarrow> if e = io_error.NotFound then give (Inl e)
                 else do_then (attempt (metadata ?p)) (\<lambda>m. case m of
                   Inr (Folder _) \<Rightarrow> give (Inr ()) | _ \<Rightarrow> raise e))"
  have create: "wlp F (create_dir ?p) (\<lambda>_. is_folder ?p) (\<lambda>_ _. True) (\<lambda>_. True) d" for d
    unfolding create_dir_def by (rule wlp_atomic) (auto dest: new_entry_Inr simp: is_folder_iff)
  have make: "wlp F ?make (\<lambda>r d'. r = Inr () \<longrightarrow> is_folder ?p d') (\<lambda>_ _. True) (\<lambda>_. True) d" for d
    by (rule wlp_try [OF create])
      (auto intro!: wlp_give wlp_raise wlp_do_then wlp_attempt wlp_metadata simp: is_folder_iff split: node.split)
  have deeper: "wlp F (create_dir_all_rev ys) (\<lambda>_ _. True) (\<lambda>_ _. True) (\<lambda>_. True) d" for d
    using keepsD [OF keeps_create_dir_all [of "rev ys" "\<lambda>_. True"]] by (simp add: create_dir_all_def)
  show ?thesis unfolding Cons create_dir_all_rev.simps Let_def
  proof (rule wlp_seq [OF make])
    fix r d' assume r: "r = Inr () \<longrightarrow> is_folder ?p d'"
    have again: "wlp F (do_then ?make (\<lambda>r. from_result r)) (\<lambda>_. is_folder ?p) (\<lambda>_ _. True) (\<lambda>_. True) d" for d
      by (rule wlp_seq [OF make]) (auto intro!: wlp_from_result)
    show "wlp F (case r of Inl _ \<Rightarrow> do_then (create_dir_all_rev ys) (\<lambda>_. do_then ?make (\<lambda>r. from_result r)) | Inr _ \<Rightarrow> give ())
       (\<lambda>_. is_folder ?p) (\<lambda>_ _. True) (\<lambda>_. True) d'"
    proof (cases r)
      case (Inl e)
      show ?thesis unfolding Inl sum.case by (rule wlp_seq [OF deeper again]) simp_all
    qed (use r in \<open>simp add: wlp_give\<close>)
  qed simp_all
qed simp

lemma wlp_new_staging:
  assumes "is_folder t d"
  shows "wlp F (create_dir_all (t @ [x])) (\<lambda>_ d'. is_folder (t @ [x]) d' \<and> tree.away (t @ [x]) d d')
     (\<lambda>_. tree.away (t @ [x]) d) (tree.away (t @ [x]) d) d"
proof -
  have "keeps (\<lambda>d'. is_folder t d' \<and> tree.away (t @ [x]) d d') (create_dir_all (t @ [x]))"
  proof (rule keeps_create_dir_all)
    fix p d' assume p: "prefix p (t @ [x])" and i: "is_folder t d' \<and> tree.away (t @ [x]) d d'" and none: "entry p d' = None"
    have "\<not> prefix p t" using is_folder_prefix [of t d' p] none i by (auto simp: is_folder_iff)
    then have q: "p = t @ [x]" using p by simp
    show "is_folder t (put_entry p (Some (Folder [])) d') \<and> tree.away (t @ [x]) d (put_entry p (Some (Folder [])) d')"
      using i put_entry_above [of t p d'] tree.away_trans tree.away_put by (auto simp: q strict_prefix_def)
  qed
  from wlp_keeps [OF this _ wlp_create_dir_all_rev [of "rev (t @ [x])" F d, folded create_dir_all_def]] assms show ?thesis
    by (auto simp: create_dir_all_def tree.away_refl elim!: wlp_mono)
qed


section \<open>Importing an archive\<close>

text \<open>What an import assumes of its surroundings: a temporary folder that is there, and three places that lie
  apart: the staging folder, the blob store and the workspaces.\<close>

definition staging_of :: "zip_env \<Rightarrow> path" where
  "staging_of env = path_join (ze_temp_dir env) (''skillhive-import-'' @ ze_uuid env)"

definition zip_ok :: "zip_env \<Rightarrow> node \<Rightarrow> bool" where
  "zip_ok env d \<longleftrightarrow> is_absolute (ze_temp_dir env) \<and> is_folder (locate (ze_temp_dir env)) d \<and> CHR ''/'' \<notin> set (ze_uuid env)
     \<and> (\<forall>b. canonical_digest (ws_sha (ze_workspaces env) b)) \<and> utf8_codec (ws_codec (ze_workspaces env))
     \<and> is_absolute (ws_root (ze_workspaces env)) \<and> unrelated (locate (ws_root (ze_workspaces env))) (ws_blobs (ze_workspaces env))
     \<and> unrelated (locate (staging_of env)) (ws_blobs (ze_workspaces env))
     \<and> unrelated (locate (staging_of env)) (locate (ws_root (ze_workspaces env)))"

definition workspace_at :: "workspace_store \<Rightarrow> string \<Rightarrow> location" where
  "workspace_at ws skill = locate (ws_root ws) @ [ws_sha ws skill]"

definition import_places :: "zip_env \<Rightarrow> string \<Rightarrow> location list" where
  "import_places env skill = [locate (staging_of env), ws_blobs (ze_workspaces env), workspace_at (ze_workspaces env) skill]"

lemma staging_at:
  assumes "zip_ok env d"
  shows "locate (staging_of env) = locate (ze_temp_dir env) @ [''skillhive-import-'' @ ze_uuid env]" and "is_absolute (staging_of env)"
proof -
  have t: "is_absolute (ze_temp_dir env)" "CHR ''/'' \<notin> set (''skillhive-import-'' @ ze_uuid env)" using assms by (simp_all add: zip_ok_def)
  show "locate (staging_of env) = locate (ze_temp_dir env) @ [''skillhive-import-'' @ ze_uuid env]"
    unfolding staging_of_def by (rule locate_plain_child [OF t]) simp_all
  show "is_absolute (staging_of env)" using t(1) by (cases "ze_temp_dir env") (auto simp: staging_of_def path_join_def is_absolute_def)
qed

definition imported :: "zip_env \<Rightarrow> string \<Rightarrow> node \<Rightarrow> zip_import_outcome \<Rightarrow> node \<Rightarrow> bool" where
  "imported env skill d0 out d \<longleftrightarrow> elsewhere_same (import_places env skill) d0 d
     \<and> zo_workspace out = \<lparr>wr_skill_id = skill, wr_path = path_join (ws_root (ze_workspaces env)) (ws_sha (ze_workspaces env) skill)\<rparr>
     \<and> holds_snapshot (ze_workspaces env) (zo_manifest_hash out) (workspace_at (ze_workspaces env) skill) d"

lemma wlp_unpack:
  assumes ok: "zip_ok env d" and e: "elsewhere_same (import_places env skill) d y" and folder: "is_folder (locate (staging_of env)) y"
  shows "wlp F (unpack env zip_path skill (staging_of env) archive) (imported env skill d)
     (\<lambda>_. elsewhere_same (import_places env skill) d) (elsewhere_same (import_places env skill) d) y"
  unfolding unpack_def Let_def
proof (rule wlp_seq [where R = "\<lambda>_. elsewhere_same (import_places env skill) d" and ER = "\<lambda>_. elsewhere_same (import_places env skill) d"
    and HR = "elsewhere_same (import_places env skill) d"])
  let ?E = "elsewhere_same (import_places env skill) d" and ?ws = "ze_workspaces env" and ?S = "staging_of env"
  have b: "below (locate ?S) y y" using folder by (simp add: below_def tree.away_refl)
  have kept: "?E x" if "below (locate ?S) y x" for x
    using that elsewhere_same_step [OF e, of "locate ?S" x] by (simp add: below_def import_places_def)
  show "wlp F (extract_archive archive ?S) (\<lambda>_. ?E) (\<lambda>_. ?E) ?E y"
    by (rule wlp_mono [OF keepsD [OF keeps_extract [OF staging_at(2) [OF ok]] b]]) (rule kept, assumption)+
  fix file_count x assume x: "?E x"
  have form: "canonical_digest (ws_sha ?ws b)" for b using ok by (simp add: zip_ok_def)
  have grown: "?E x'" if "blobs_grow (ws_sha ?ws) (ws_blobs ?ws) x x'" for x'
    using that elsewhere_same_step [OF x, of "ws_blobs ?ws" x'] by (simp add: blobs_grow_def import_places_def)
  let ?out = "\<lambda>snapshot workspace. \<lparr>zo_workspace = workspace, zo_manifest_hash = sr_manifest_hash snapshot,
       zo_source_file_name = file_name zip_path, zo_file_count = file_count\<rparr>"
  let ?place = "\<lambda>snapshot. do_then (wrap ZipWorkspace (import_snapshot ?ws skill (sr_manifest_hash snapshot))) (\<lambda>workspace. give (?out snapshot workspace))"
  have place: "wlp F (?place snapshot) (imported env skill d) (\<lambda>_. ?E) ?E x'" if x': "?E x'" for snapshot x'
  proof (rule wlp_do_then, rule wlp_wrap, rule wlp_mono [OF wlp_import_snapshot])
    show "is_absolute (ws_root ?ws)" "canonical_digest (ws_sha ?ws skill)" "unrelated (locate (ws_root ?ws)) (ws_blobs ?ws)" "utf8_codec (ws_codec ?ws)"
      using ok by (simp_all add: zip_ok_def)
    have moved: "?E z" if "tree.away (locate (ws_root ?ws) @ [ws_sha ?ws skill]) x' z" for z
      using elsewhere_same_step [OF x' that] by (simp add: import_places_def workspace_at_def)
    show "?E z" if "tree.away (locate (ws_root ?ws) @ [ws_sha ?ws skill]) x' z" for z by (rule moved [OF that])
    show "?E z" if "tree.away (locate (ws_root ?ws) @ [ws_sha ?ws skill]) x' z" for z by (rule moved [OF that])
    fix w z assume "w = \<lparr>wr_skill_id = skill, wr_path = path_join (ws_root ?ws) (ws_sha ?ws skill)\<rparr> \<and> locate (wr_path w) = locate (ws_root ?ws) @ [ws_sha ?ws skill]
        \<and> (\<exists>r. materialized (ws_codec ?ws) (ws_sha ?ws) (ws_blobs ?ws) (sr_manifest_hash snapshot) (locate (ws_root ?ws) @ [ws_sha ?ws skill]) r z)
        \<and> tree.away (locate (ws_root ?ws) @ [ws_sha ?ws skill]) x' z"
    then show "wlp F (give (?out snapshot w)) (imported env skill d) (\<lambda>_. ?E) ?E z"
      using moved by (intro wlp_give) (auto simp: imported_def holds_snapshot_def materialized_def workspace_at_def)
  qed
  show "wlp F (do_then (wrap ZipSnapshot (capture_workspace (ws_codec ?ws) (ws_sha ?ws) (ws_blobs ?ws) ?S default_policy (ze_blob_uuids env))) ?place)
     (imported env skill d) (\<lambda>_. ?E) ?E x"
    by (rule wlp_do_then, rule wlp_wrap, rule wlp_mono [OF keepsD [OF keeps_capture [OF form] blobs_grow_refl]]) (auto intro: grown place)
qed simp_all

lemma imported_cleaned:
  assumes ok: "zip_ok env d" and i: "imported env skill d out x" and away: "tree.away (locate (staging_of env)) x x'"
  shows "imported env skill d out x'"
proof -
  have S: "unrelated (locate (staging_of env)) (ws_blobs (ze_workspaces env))" "unrelated (locate (staging_of env)) (locate (ws_root (ze_workspaces env)))"
    using ok by (simp_all add: zip_ok_def)
  have "unrelated (locate (staging_of env)) (workspace_at (ze_workspaces env) skill)"
    using tree.unrelated_inside [of "locate (ws_root (ze_workspaces env))" "locate (staging_of env)"] S(2) unrelated_sym
    by (auto simp: workspace_at_def)
  then have "entry (workspace_at (ze_workspaces env) skill) x' = entry (workspace_at (ze_workspaces env) skill) x"
    by (rule tree.away_entry [OF away])
  then have "holds_snapshot (ze_workspaces env) (zo_manifest_hash out) (workspace_at (ze_workspaces env) skill) x'"
    using i unfolding imported_def by (blast intro: holds_snapshot_moved [OF _ away S(1)])
  moreover have "elsewhere_same (import_places env skill) d x'"
    using i elsewhere_same_step [OF _ away] by (simp add: imported_def import_places_def)
  ultimately show ?thesis using i by (simp add: imported_def)
qed

lemma wlp_import_skill_zip:
  assumes ok: "zip_ok env d"
  shows "wlp F (import_skill_zip env zip_path skill) (imported env skill d)
     (\<lambda>_. elsewhere_same (import_places env skill) d) (elsewhere_same (import_places env skill) d) d"
proof -
  let ?E = "elsewhere_same (import_places env skill) d" and ?S = "locate (staging_of env)"
  have clean: "wlp F (do_then (attempt (remove_any ?S)) (\<lambda>_. from_result r)) (imported env skill d) (\<lambda>_. ?E) ?E x"
    if "case r of Inr out \<Rightarrow> imported env skill d out x | Inl _ \<Rightarrow> ?E x" for r :: "zip_error + zip_import_outcome" and x
  proof -
    let ?K = "\<lambda>x. case r of Inr out \<Rightarrow> imported env skill d out x | Inl _ \<Rightarrow> ?E x"
    have "?K x' \<Longrightarrow> tree.away ?S x' x'' \<Longrightarrow> ?K x''" for x' x''
      using imported_cleaned [OF ok, of skill _ x' x''] elsewhere_same_step [of "import_places env skill" d x' ?S x'']
      by (auto simp: import_places_def split: sum.splits)
    then have keep: "keeps ?K (attempt (remove_any ?S))" by (intro keeps_attempt keeps_confined [OF confined_remove_any])
    have imp: "?K x' \<Longrightarrow> ?E x'" for x' by (auto simp: imported_def split: sum.splits)
    show ?thesis
      by (rule wlp_do_then, rule wlp_mono [OF keepsD [OF keep that]]) (auto intro: imp intro!: wlp_from_result)
  qed
  have stage: "wlp F (do_then (wrap ZipIo (create_dir_all ?S)) (\<lambda>_.
       do_then (attempt (unpack env zip_path skill (staging_of env) archive)) (\<lambda>outcome.
       do_then (attempt (remove_any ?S)) (\<lambda>_. from_result outcome)))) (imported env skill d) (\<lambda>_. ?E) ?E d" for archive
  proof (rule wlp_seq [where R = "\<lambda>_ x. is_folder ?S x \<and> ?E x" and ER = "\<lambda>_. ?E" and HR = ?E])
    have S: "?S = locate (ze_temp_dir env) @ [''skillhive-import-'' @ ze_uuid env]" by (rule staging_at(1) [OF ok])
    have step: "?E x" if "tree.away ?S d x" for x
      using elsewhere_same_step [OF elsewhere_same_refl that] by (simp add: import_places_def)
    have "is_folder (locate (ze_temp_dir env)) d" using ok by (simp add: zip_ok_def)
    from wlp_new_staging [OF this, of F "''skillhive-import-'' @ ze_uuid env", folded S]
    show "wlp F (wrap ZipIo (create_dir_all ?S)) (\<lambda>_ x. is_folder ?S x \<and> ?E x) (\<lambda>_. ?E) ?E d"
      by (intro wlp_wrap) (erule wlp_mono; auto intro: step)
    fix u x assume x: "is_folder ?S x \<and> ?E x"
    show "wlp F (do_then (attempt (unpack env zip_path skill (staging_of env) archive)) (\<lambda>outcome.
       do_then (attempt (remove_any ?S)) (\<lambda>_. from_result outcome))) (imported env skill d) (\<lambda>_. ?E) ?E x"
      by (rule wlp_try [OF wlp_unpack [OF ok]]) (use x clean in auto)
  qed simp_all
  have opened: "wlp F (open_archive env zip_path) (\<lambda>_ x. x = d) (\<lambda>_ x. x = d) (\<lambda>x. x = d) d"
    unfolding open_archive_def
    by (rule wlp_mono [OF keepsD [where P = "\<lambda>x. x = d"]]) (auto intro!: keeps_rules split: io_error.split)
  show ?thesis unfolding import_skill_zip_def Let_def staging_of_def [symmetric]
    by (rule wlp_do_then, rule wlp_wrap, rule wlp_metadata)
      (auto simp: elsewhere_same_refl stage intro!: wlp_raise wlp_seq [OF opened])
qed

text \<open>C34: An archive cannot escape: whatever the archive holds, whichever calls fail and wherever the process
  dies, importing it changes nothing outside the staging folder, the blob store and the workspace of
  the skill; and when the import returns, this workspace verifies as the snapshot it returned. The
  temporary folder exists, and the three places lie apart from each other.\<close>

theorem archives_cannot_escape:
  assumes "zip_ok env d" and "r = import_skill_zip env zip_path skill \<lparr>disk = d, schedule = s\<rparr>"
  defines "workspace \<equiv> locate (ws_root (ze_workspaces env)) @ [ws_sha (ze_workspaces env) skill]"
  shows "(unrelated (locate (ze_temp_dir env) @ [''skillhive-import-'' @ ze_uuid env]) q \<and> unrelated (ws_blobs (ze_workspaces env)) q
       \<and> unrelated workspace q \<longrightarrow> entry q (run_disk r) = entry q d)
    \<and> (\<forall>out w. r = Done out w \<longrightarrow> (\<exists>ref. verify_materialized_snapshot (ws_codec (ze_workspaces env)) (ws_sha (ze_workspaces env))
         (ws_blobs (ze_workspaces env)) (zo_manifest_hash out) workspace (disk w) = Inr ref))"
proof -
  note run = wlp_run [OF wlp_import_skill_zip [OF assms(1)] assms(2)]
  have "elsewhere_same (import_places env skill) d (run_disk r)"
    using run by (cases r) (auto simp: run_disk_def imported_def)
  moreover have "\<exists>ref. verify_materialized_snapshot (ws_codec (ze_workspaces env)) (ws_sha (ze_workspaces env))
         (ws_blobs (ze_workspaces env)) (zo_manifest_hash out) workspace (disk w) = Inr ref" if "r = Done out w" for out w
    using run that by (simp add: imported_def holds_snapshot_def workspace_at_def workspace_def)
  ultimately show ?thesis
    by (simp add: elsewhere_same_def import_places_def staging_at(1) [OF assms(1)] workspace_at_def workspace_def)
qed


section \<open>Importing a folder of an agent\<close>

definition import_ok :: "import_env \<Rightarrow> bool" where
  "import_ok env \<longleftrightarrow> (\<forall>b. canonical_digest (ws_sha (im_workspaces env) b)) \<and> utf8_codec (ws_codec (im_workspaces env))
     \<and> is_absolute (ws_root (im_workspaces env)) \<and> unrelated (locate (ws_root (im_workspaces env))) (ws_blobs (im_workspaces env))"

text \<open>The source lies apart from blob store and workspaces; it is a tree as a file system has them.\<close>

definition source_ok :: "import_env \<Rightarrow> location \<Rightarrow> node \<Rightarrow> bool" where
  "source_ok env p d \<longleftrightarrow> unrelated p (ws_blobs (im_workspaces env)) \<and> unrelated p (locate (ws_root (im_workspaces env)))
     \<and> (\<forall>n. entry p d = Some n \<longrightarrow> wf_node n \<and> reads_back (ws_codec (im_workspaces env)) (ws_sha (im_workspaces env)) n)"

definition copied :: "sha \<Rightarrow> location \<Rightarrow> node \<Rightarrow> location \<Rightarrow> node \<Rightarrow> bool" where
  "copied sha p d q d' \<longleftrightarrow> (\<exists>n m. entry p d = Some n \<and> entry p d' = Some n \<and> entry q d' = Some m \<and> plain_tree m
     \<and> file_record sha ` plain_files m = file_record sha ` plain_files n)"

text \<open>Two folders that verify as the same snapshot hold the same files.\<close>

lemma verified_copies:
  assumes "verify_materialized_snapshot codec sha root hash p d = Inr r" and n: "entry p d = Some n" and "wf_node n"
    and "verify_materialized_snapshot codec sha root hash q d = Inr r'" and m: "entry q d = Some m" and "wf_node m"
  shows "plain_tree m \<and> file_record sha ` plain_files m = file_record sha ` plain_files n"
proof -
  obtain es where es: "n = Folder es" using assms(1) n
    by (auto simp: verify_materialized_snapshot_def stat_Found [THEN iffD2, OF n] split: node.split_asm)
  obtain fs where fs: "m = Folder fs" using assms(4) m
    by (auto simp: verify_materialized_snapshot_def stat_Found [THEN iffD2, OF m] split: node.split_asm)
  obtain mf where mf: "read_manifest codec sha root hash default_policy d = Inr mf"
    using assms(1) n es by (auto simp: verify_materialized_snapshot_def stat_Found [THEN iffD2, OF n] and_then_Inr_iff map_err_Inr_iff)
  have "manifest_record ` set (sm_files mf) = file_record sha ` plain_files n"
    using verify_iff [OF n [unfolded es] assms(3) [unfolded es] mf] assms(1) es by blast
  moreover have "plain_tree m \<and> manifest_record ` set (sm_files mf) = file_record sha ` plain_files m"
    using verify_iff [OF m [unfolded fs] assms(6) [unfolded fs] mf] assms(4) fs by blast
  ultimately show ?thesis by simp
qed

lemma wlp_import_folder:
  fixes q :: import_request
  assumes ok: "import_ok env" and src: "source_ok env (locate source) d"
  defines "W \<equiv> workspace_at (im_workspaces env) (ir_skill_id q)"
  shows "wlp F (import_folder env q profile source)
     (\<lambda>_ d'. elsewhere_same [ws_blobs (im_workspaces env), W] d d' \<and> copied (ws_sha (im_workspaces env)) (locate source) d W d')
     (\<lambda>_. elsewhere_same [ws_blobs (im_workspaces env), W] d) (elsewhere_same [ws_blobs (im_workspaces env), W] d) d"
  unfolding import_folder_def Let_def
proof (rule wlp_do_then, rule wlp_wrap, rule wlp_metadata)
  let ?ws = "im_workspaces env" let ?E = "elsewhere_same [ws_blobs ?ws, W] d"
  let ?Q = "\<lambda>_ d'. ?E d' \<and> copied (ws_sha ?ws) (locate source) d W d'"
  let ?res = "\<lambda>snapshot workspace. \<lparr>io_workspace = workspace, io_snapshot = snapshot, io_source_profile_id = pr_id profile,
         io_source_directory_name = ir_directory_name q\<rparr>"
  let ?place = "\<lambda>snapshot. do_then (wrap ImportWorkspace (import_snapshot ?ws (ir_skill_id q) (sr_manifest_hash snapshot))) (\<lambda>workspace.
       give (?res snapshot workspace))"
  have form: "canonical_digest (ws_sha ?ws b)" for b using ok by (simp add: import_ok_def)
  have away: "unrelated (locate source) (ws_blobs ?ws)" "unrelated W (locate source)"
    using src tree.unrelated_inside [of "locate (ws_root ?ws)" "locate source"] unrelated_sym
    by (auto simp: source_ok_def W_def workspace_at_def)
  have grown: "?E x" if "blobs_grow (ws_sha ?ws) (ws_blobs ?ws) d x" for x
    using that elsewhere_same_step [OF elsewhere_same_refl, of "ws_blobs ?ws"] by (simp add: blobs_grow_def)
  fix n assume n: "entry (locate source) d = Some n"
  have wf: "wf_node n" using src n by (simp add: source_ok_def)
  have place: "wlp F (?place snapshot) ?Q (\<lambda>_. ?E) ?E x"
    if v: "verify_materialized_snapshot (ws_codec ?ws) (ws_sha ?ws) (ws_blobs ?ws) (sr_manifest_hash snapshot) (locate source) x = Inr snapshot"
      and g: "blobs_grow (ws_sha ?ws) (ws_blobs ?ws) d x" for snapshot x
  proof (rule wlp_do_then, rule wlp_wrap, rule wlp_mono [OF wlp_import_snapshot])
    show "is_absolute (ws_root ?ws)" "canonical_digest (ws_sha ?ws (ir_skill_id q))" "unrelated (locate (ws_root ?ws)) (ws_blobs ?ws)" "utf8_codec (ws_codec ?ws)"
      using ok by (simp_all add: import_ok_def)
    have moved: "?E z" if "tree.away (locate (ws_root ?ws) @ [ws_sha ?ws (ir_skill_id q)]) x z" for z
      using elsewhere_same_step [OF grown [OF g] that] by (simp add: W_def workspace_at_def)
    show "?E z" if "tree.away (locate (ws_root ?ws) @ [ws_sha ?ws (ir_skill_id q)]) x z" for z by (rule moved [OF that])
    show "?E z" if "tree.away (locate (ws_root ?ws) @ [ws_sha ?ws (ir_skill_id q)]) x z" for z by (rule moved [OF that])
    fix w z assume a: "w = \<lparr>wr_skill_id = ir_skill_id q, wr_path = path_join (ws_root ?ws) (ws_sha ?ws (ir_skill_id q))\<rparr>
        \<and> locate (wr_path w) = locate (ws_root ?ws) @ [ws_sha ?ws (ir_skill_id q)]
        \<and> (\<exists>r. materialized (ws_codec ?ws) (ws_sha ?ws) (ws_blobs ?ws) (sr_manifest_hash snapshot) (locate (ws_root ?ws) @ [ws_sha ?ws (ir_skill_id q)]) r z)
        \<and> tree.away (locate (ws_root ?ws) @ [ws_sha ?ws (ir_skill_id q)]) x z"
    then have aw: "tree.away W x z" by (simp add: W_def workspace_at_def)
    obtain r m where r: "verify_materialized_snapshot (ws_codec ?ws) (ws_sha ?ws) (ws_blobs ?ws) (sr_manifest_hash snapshot) W z = Inr r"
        and m: "entry W z = Some m" "wf_node m"
      using a by (auto simp: materialized_def W_def workspace_at_def)
    have nx: "entry (locate source) x = Some n" using grown_outside [OF g away(1), of "[]"] n by simp
    have nz: "entry (locate source) z = Some n" using tree.away_entry [OF aw away(2)] nx by simp
    have "unrelated W (ws_blobs ?ws)"
      using ok tree.unrelated_inside [of "locate (ws_root ?ws)" "ws_blobs ?ws"] by (simp add: import_ok_def W_def workspace_at_def)
    then have "holds_snapshot ?ws (sr_manifest_hash snapshot) (locate source) z"
      using v holds_snapshot_moved [OF _ aw, of ?ws "sr_manifest_hash snapshot" "locate source" "locate source"] nx nz by (auto simp: holds_snapshot_def)
    then obtain r' where "verify_materialized_snapshot (ws_codec ?ws) (ws_sha ?ws) (ws_blobs ?ws) (sr_manifest_hash snapshot) (locate source) z = Inr r'"
      by (auto simp: holds_snapshot_def)
    from verified_copies [OF this nz wf r m]
    have "copied (ws_sha ?ws) (locate source) d W z" using n nz m by (auto simp: copied_def)
    then show "wlp F (give (?res snapshot w)) ?Q (\<lambda>_. ?E) ?E z" using moved a by (intro wlp_give) auto
  qed
  have reads: "wf_node k \<and> reads_back (ws_codec ?ws) (ws_sha ?ws) k" if "entry (locate source) d = Some k" for k
    using src that by (simp add: source_ok_def)
  show "wlp F (if \<not> folder_node n then raise (InvalidSource source)
     else do_then (wrap ImportSnapshot (capture_workspace (ws_codec ?ws) (ws_sha ?ws) (ws_blobs ?ws) source default_policy (im_blob_uuids env))) ?place)
     ?Q (\<lambda>_. ?E) ?E d"
  proof (cases "folder_node n")
    case True
    have "wlp F (do_then (wrap ImportSnapshot (capture_workspace (ws_codec ?ws) (ws_sha ?ws) (ws_blobs ?ws) source default_policy (im_blob_uuids env))) ?place)
       ?Q (\<lambda>_. ?E) ?E d"
      by (rule wlp_do_then, rule wlp_wrap, rule wlp_mono [OF wlp_capture_workspace [OF form away(1) reads]]) (auto intro: place grown)
    then show ?thesis using True by simp
  qed (simp add: wlp_raise elsewhere_same_refl)
qed (simp_all add: elsewhere_same_refl)

lemma wlp_import_profile:
  assumes ok: "import_ok env" and src: "source_ok env (locate (path_join (pr_skill_root profile) (ir_directory_name q))) d"
  defines "W \<equiv> workspace_at (im_workspaces env) (ir_skill_id q)"
  shows "wlp F (import_profile env q profile)
     (\<lambda>_ d'. elsewhere_same [ws_blobs (im_workspaces env), W] d d'
        \<and> copied (ws_sha (im_workspaces env)) (locate (path_join (pr_skill_root profile) (ir_directory_name q))) d W d')
     (\<lambda>_. elsewhere_same [ws_blobs (im_workspaces env), W] d) (elsewhere_same [ws_blobs (im_workspaces env), W] d) d"
proof -
  have check: "wlp F (agent_check env f) (\<lambda>_ x. x = d) (\<lambda>_ x. x = d) (\<lambda>x. x = d) d" for f
    unfolding agent_check_def by (rule keepsD [OF keeps_query]) simp
  let ?source = "path_join (pr_skill_root profile) (ir_directory_name q)"
  let ?E = "elsewhere_same [ws_blobs (im_workspaces env), W] d"
  let ?Q = "\<lambda>_ d'. ?E d' \<and> copied (ws_sha (im_workspaces env)) (locate ?source) d W d'"
  let ?rest = "if parent ?source \<noteq> Some (components (pr_skill_root profile)) then raise (InvalidDirectoryName (ir_directory_name q))
     else import_folder env q profile ?source"
  have rest: "wlp F ?rest ?Q (\<lambda>_. ?E) ?E d"
    using wlp_import_folder [OF ok src, where q = q and profile = profile and F = F] by (simp add: wlp_raise elsewhere_same_refl W_def)
  have then_check: "wlp F (do_then (agent_check env f) (\<lambda>_. m)) ?Q (\<lambda>_. ?E) ?E d" if "wlp F m ?Q (\<lambda>_. ?E) ?E d" for f and m :: "(import_error, import_result) io"
    by (rule wlp_seq [OF check]) (use that in \<open>auto simp: elsewhere_same_refl\<close>)
  show ?thesis unfolding import_profile_def Let_def by (intro then_check rest)
qed

text \<open>C33: An imported folder is a copy: when \<open>import_agent_skill\<close> returns, the workspace of the skill holds, by path,
  size and digest, exactly the files of the folder it named below the root of an enabled profile of the
  catalog, and this folder is unchanged; and in every end, dying included, the catalog is unchanged and
  nothing outside the blob store and the workspace of the skill has changed.\<close>

theorem imported_folders_are_copies:
  assumes ok: "import_ok env"
    and src: "\<forall>profile \<in> set (profiles st). source_ok env (locate (path_join (pr_skill_root profile) (ir_directory_name q))) (disk w)"
    and run: "r = import_agent_skill env q st w"
  defines "workspace \<equiv> locate (ws_root (im_workspaces env)) @ [ws_sha (im_workspaces env) (ir_skill_id q)]"
  shows "store_after r = st
    \<and> (unrelated (ws_blobs (im_workspaces env)) p \<and> unrelated workspace p \<longrightarrow> entry p (disk (world_after r)) = entry p (disk w))
    \<and> (\<forall>res st' w'. r = Returned res st' w' \<longrightarrow> (\<exists>profile \<in> set (profiles st). pr_id profile = ir_agent_profile_id q \<and> pr_enabled profile
        \<and> (\<exists>n m. entry (locate (path_join (pr_skill_root profile) (ir_directory_name q))) (disk w) = Some n
             \<and> entry (locate (path_join (pr_skill_root profile) (ir_directory_name q))) (disk w') = Some n
             \<and> entry workspace (disk w') = Some m \<and> plain_tree m
             \<and> file_record (ws_sha (im_workspaces env)) ` plain_files m = file_record (ws_sha (im_workspaces env)) ` plain_files n)))"
proof -
  let ?E = "elsewhere_same [ws_blobs (im_workspaces env), workspace] (disk w)"
  let ?Q = "\<lambda>_ d x. d = st \<and> ?E x \<and> (\<exists>profile \<in> set (profiles st). pr_id profile = ir_agent_profile_id q \<and> pr_enabled profile
      \<and> copied (ws_sha (im_workspaces env)) (locate (path_join (pr_skill_root profile) (ir_directory_name q))) (disk w) workspace x)"
  let ?F = "\<lambda>_ d x. d = st \<and> ?E x" and ?H = "\<lambda>d x. d = st \<and> ?E x"
  let ?body = "\<lambda>profile. if \<not> pr_enabled profile then app_raise (ImportProfileDisabled (pr_id profile)) else on_disk (import_profile env q profile)"
  have body: "awp UNIV (?body profile) ?Q ?F ?H st (disk w)" if p: "get_agent_profile (ir_agent_profile_id q) st = Some profile" for profile
  proof (cases "pr_enabled profile")
    case True
    have in_set: "profile \<in> set (profiles st)" "pr_id profile = ir_agent_profile_id q"
      using p by (auto simp: get_agent_profile_def sql_find_def find_Some_iff)
    have W: "workspace = workspace_at (im_workspaces env) (ir_skill_id q)" by (simp add: workspace_def workspace_at_def)
    have "awp UNIV (on_disk (import_profile env q profile)) ?Q ?F ?H st (disk w)"
      by (rule awp_on_disk, rule wlp_mono [OF wlp_import_profile [OF ok]], rule bspec [OF src in_set(1)])
        (use in_set True in \<open>auto simp: W\<close>)
    then show ?thesis using True by simp
  qed (simp add: awp_raise elsewhere_same_refl)
  have found: "awp UNIV (app_then (app_result (ok_or found (ImportProfileNotFound (ir_agent_profile_id q)))) ?body) ?Q ?F ?H st (disk w)"
    if "found = get_agent_profile (ir_agent_profile_id q) st" for found
    by (rule awp_then [where R = "\<lambda>profile d x. d = st \<and> x = disk w \<and> found = Some profile" and ER = ?F and HR = ?H], rule awp_result)
      (use that body in \<open>auto simp: ok_or_def elsewhere_same_refl split: option.split_asm\<close>)
  have profile: "awp UNIV (app_err ImportStore (store_read (\<lambda>d. Inr (get_agent_profile (ir_agent_profile_id q) d))))
      (\<lambda>found d x. d = st \<and> x = disk w \<and> found = get_agent_profile (ir_agent_profile_id q) st) ?F ?H st (disk w)"
    by (rule awp_err, rule awp_read) (auto simp: elsewhere_same_refl)
  have all: "awp UNIV (import_agent_skill env q) ?Q ?F ?H st (disk w)"
    unfolding import_agent_skill_def
    by (rule awp_then [where R = "\<lambda>_ d x. d = st \<and> x = disk w" and ER = ?F and HR = ?H], rule awp_result)
      (auto simp: elsewhere_same_refl intro!: awp_then [OF profile] found)
  show ?thesis
    using awp_run [OF all run] by (cases r) (auto simp: store_after_def world_after_def elsewhere_same_def copied_def)
qed

end
