(* ===== verification/Archive_Samples.thy ===== *)
theory Archive_Samples
  imports Archive_Safety Samples "HOL-Library.Code_Target_Nat"
begin

text \<open>
  Imports evaluated by the simplifier: one folder with one file, one archive with the same file, and a
  codec that knows one manifest.
\<close>

definition const_codec :: manifest_codec where
  "const_codec = \<lparr>encode_manifest = (\<lambda>_. ''M''), decode_manifest = (\<lambda>_. Inr sample_manifest)\<rparr>"

definition one_file :: node where
  "one_file = Folder [(''SKILL.md'', Plain ''hi'')]"

lemma sample_digest: "canonical_digest (sample_sha b)"
proof -
  have "\<forall>n < 10. canonical_digest (replicate 63 (CHR ''0'') @ dec (int n))" by code_simp
  then show ?thesis by (simp add: sample_sha_def)
qed

lemma const_codec_utf8: "utf8_codec const_codec"
  using sample_codec_utf8 by (auto simp: utf8_codec_def const_codec_def sample_codec_def split: if_splits)

lemma one_file_plain: "plain_files one_file = {([''SKILL.md''], ''hi'')}"
proof -
  have "entry p one_file = Some (Plain c) \<longleftrightarrow> p = [''SKILL.md''] \<and> c = ''hi''" for p c
    unfolding one_file_def by (cases p rule: list.exhaust [case_names Nil Cons]; cases "tl p") (auto split: if_splits)
  then show ?thesis by (auto simp: plain_files_def)
qed

lemma one_file_reads_back: "reads_back const_codec sample_sha one_file"
proof -
  have "m = sample_manifest" if m: "describes sample_sha m one_file" for m
  proof -
    let ?r = "(''SKILL.md'', 2 :: nat, hash_bytes sample_sha ''hi'')"
    have set: "set (map manifest_record (sm_files m)) = {?r}"
      using m by (simp add: describes_def one_file_plain file_record_def)
    have "sorted_wrt (<) (map fst (map manifest_record (sm_files m)))"
      using m by (simp add: describes_def manifest_record_def comp_def)
    then have "map manifest_record (sm_files m) = [?r]"
      by (rule strictly_sorted_by_fst_eq) (simp_all only: set list.map sorted_wrt1 list.set)
    then obtain f where "sm_files m = [f]" "manifest_record f = ?r" by auto
    then have "sm_files m = sm_files sample_manifest" by (cases f) (simp add: sample_manifest_def manifest_record_def)
    moreover have "sm_format_version m = sm_format_version sample_manifest"
      using m by (simp add: describes_def sample_manifest_def snapshot_format_version_def)
    ultimately show ?thesis by simp
  qed
  then show ?thesis unfolding reads_back_def const_codec_def by force
qed

definition import_disk :: node where
  "import_disk = Folder [(''blobs'', Folder [(''sha256'', Folder [])]), (''ws'', Folder []), (''tmp'', Folder []),
     (''agent'', Folder [(''demo'', one_file)]), (''a.zip'', Plain ''ZIP'')]"

definition import_store_of :: workspace_store where
  "import_store_of = \<lparr>ws_root = ''/ws'', ws_codec = const_codec, ws_sha = sample_sha, ws_blobs = [''blobs'']\<rparr>"

definition captured_demo :: "(snapshot_error, snapshot_ref) run" where
  "captured_demo = capture_workspace const_codec sample_sha [''blobs''] ''/agent/demo'' default_policy [''a'', ''b''] \<lparr>disk = import_disk, schedule = []\<rparr>"

theorem captured_snapshots_verify_witness:
  "\<exists>ref w. captured_demo = Done ref w \<and> ref = \<lparr>sr_manifest_hash = hash_bytes sample_sha ''M'', sr_file_count = 1, sr_total_bytes = 2\<rparr>
     \<and> verify_materialized_snapshot const_codec sample_sha [''blobs''] (hash_bytes sample_sha ''M'') [''agent'', ''demo''] (disk w) = Inr ref
     \<and> entry [''agent''] (disk w) = entry [''agent''] import_disk"
proof -
  have "case captured_demo of Done ref w \<Rightarrow> ref = \<lparr>sr_manifest_hash = hash_bytes sample_sha ''M'', sr_file_count = 1, sr_total_bytes = 2\<rparr> | _ \<Rightarrow> False"
    by code_simp
  then obtain w where run: "captured_demo = Done \<lparr>sr_manifest_hash = hash_bytes sample_sha ''M'', sr_file_count = 1, sr_total_bytes = 2\<rparr> w"
    by (auto split: run.splits)
  have at: "locate ''/agent/demo'' = [''agent'', ''demo'']" by code_simp
  have e: "entry (locate ''/agent/demo'') import_disk = Some one_file" by code_simp
  have wf: "wf_node one_file" by code_simp
  have away: "unrelated (locate ''/agent/demo'') [''blobs'']" "unrelated [''blobs''] [''agent'']" by code_simp+
  have wf': "wf_node n \<and> reads_back const_codec sample_sha n" if "entry (locate ''/agent/demo'') import_disk = Some n" for n
    using e wf one_file_reads_back that by simp
  note main = captured_snapshots_verify [OF sample_digest away(1) wf' captured_demo_def, of "[''agent'']"]
  show ?thesis using main [unfolded run] away(2) run by (simp add: at run_disk_def) blast
qed

definition zip_sample :: "archive_entry list \<Rightarrow> zip_env" where
  "zip_sample es = \<lparr>ze_workspaces = import_store_of, ze_temp_dir = ''/tmp'', ze_uuid = ''u'', ze_blob_uuids = [''a'', ''b''],
     ze_open = (\<lambda>_. Inr (map Inr es)), ze_pack = (\<lambda>_. Inr ''ZIP''), ze_io_text = (\<lambda>_. ''io'')\<rparr>"

definition plain_entry :: "string \<Rightarrow> string \<Rightarrow> archive_entry" where
  "plain_entry name content = \<lparr>ae_name = name, ae_is_dir = False, ae_mode = Some 0x81A4, ae_size = length content,
     ae_read = (\<lambda>n. Inr (take n content))\<rparr>"

definition zip_run :: "archive_entry list \<Rightarrow> (zip_error, zip_import_outcome) run" where
  "zip_run es = import_skill_zip (zip_sample es) ''/a.zip'' ''s1'' \<lparr>disk = import_disk, schedule = []\<rparr>"

text \<open>Hostile archives: a path that climbs out, and a symbolic link.\<close>

lemma hostile_archives:
  "case zip_run [plain_entry ''../escape'' ''x''] of Raised e w \<Rightarrow> e = UnsafeEntry ''../escape'' \<and> disk w = import_disk | _ \<Rightarrow> False"
  "case zip_run [plain_entry ''SKILL.md'' ''hi'', (plain_entry ''link'' ''/etc'')\<lparr>ae_mode := Some 0xA1FF\<rparr>] of
     Raised e w \<Rightarrow> e = UnsafeEntry ''link'' \<and> disk w = import_disk | _ \<Rightarrow> False"
  by code_simp+

text \<open>A drive letter is an ordinary name on Unix: the entry passes the check the tests expect to refuse it.\<close>

theorem drive_paths_pass_the_check: "validate_entry_name ''C:/evil'' = Inr ()"
  by code_simp

theorem archives_cannot_escape_witness:
  "\<exists>out w. zip_run [plain_entry ''SKILL.md'' ''hi''] = Done out w \<and> zo_file_count out = 1
     \<and> (\<exists>ref. verify_materialized_snapshot const_codec sample_sha [''blobs''] (zo_manifest_hash out) [''ws'', sample_sha ''s1''] (disk w) = Inr ref)
     \<and> entry [''agent''] (disk w) = entry [''agent''] import_disk"
proof -
  let ?env = "zip_sample [plain_entry ''SKILL.md'' ''hi'']"
  have "case zip_run [plain_entry ''SKILL.md'' ''hi''] of Done out w \<Rightarrow> zo_file_count out = 1 | _ \<Rightarrow> False" by code_simp
  then obtain out w where run: "zip_run [plain_entry ''SKILL.md'' ''hi''] = Done out w" "zo_file_count out = 1" by (auto split: run.splits)
  have at: "locate ''/tmp'' = [''tmp'']" "locate ''/ws'' = [''ws'']" "locate (staging_of ?env) = [''tmp'', ''skillhive-import-u'']" by code_simp+
  have "is_folder [''tmp''] import_disk" by code_simp
  then have ok: "zip_ok ?env import_disk"
    using sample_digest const_codec_utf8 unfolding zip_ok_def at(3) by (simp add: zip_sample_def import_store_of_def is_absolute_def at)
  have env: "ze_workspaces ?env = import_store_of" "ze_temp_dir ?env = ''/tmp''" "ze_uuid ?env = ''u''" by (simp_all add: zip_sample_def)
  show ?thesis
    using archives_cannot_escape [OF ok zip_run_def, of "[''agent'']"] run
    by (auto simp: env import_store_of_def at run_disk_def)
qed

definition import_sample :: import_env where
  "import_sample = \<lparr>im_workspaces = import_store_of, im_home = Some ''/home'', im_blob_uuids = [''a'', ''b''], im_io_text = (\<lambda>_. ''io'')\<rparr>"

definition agent_profile :: profile_row where
  "agent_profile = \<lparr>pr_id = ''custom:k:configured'', pr_descriptor_id = ''custom:k'', pr_display_name = ''K'', pr_skill_root = ''/agent'',
     pr_enabled = True, pr_is_custom = True\<rparr>"

definition import_run :: "(import_error, import_result) ending" where
  "import_run = import_agent_skill import_sample \<lparr>ir_skill_id = ''s1'', ir_agent_profile_id = ''custom:k:configured'', ir_directory_name = ''demo''\<rparr>
     (fresh_store\<lparr>profiles := [agent_profile]\<rparr>) \<lparr>disk = import_disk, schedule = []\<rparr>"

theorem imported_folders_are_copies_witness:
  "\<exists>res st w m. import_run = Returned res st w \<and> entry [''ws'', sample_sha ''s1''] (disk w) = Some m
     \<and> file_record sample_sha ` plain_files m = file_record sample_sha ` plain_files one_file"
proof -
  let ?q = "\<lparr>ir_skill_id = ''s1'', ir_agent_profile_id = ''custom:k:configured'', ir_directory_name = ''demo''\<rparr>"
  let ?st = "fresh_store\<lparr>profiles := [agent_profile]\<rparr>" and ?w = "\<lparr>disk = import_disk, schedule = []\<rparr>"
  have "case import_run of Returned res st w \<Rightarrow> True | _ \<Rightarrow> False" by code_simp
  then obtain res st w where run: "import_run = Returned res st w" by (auto split: ending.splits)
  have at: "locate (path_join ''/agent'' ''demo'') = [''agent'', ''demo'']" "locate ''/ws'' = [''ws'']" by code_simp+
  have e: "entry [''agent'', ''demo''] import_disk = Some one_file" by code_simp
  have wf: "wf_node one_file" by code_simp
  have ok: "import_ok import_sample"
    using sample_digest const_codec_utf8 by (simp add: import_ok_def import_sample_def import_store_of_def is_absolute_def at)
  have src: "\<forall>profile \<in> set (profiles ?st). source_ok import_sample (locate (path_join (pr_skill_root profile) (ir_directory_name ?q))) (disk ?w)"
    using e wf one_file_reads_back by (simp add: source_ok_def agent_profile_def import_sample_def import_store_of_def at)
  have "\<forall>res st w. import_run = Returned res st w \<longrightarrow> (\<exists>m. entry [''ws'', sample_sha ''s1''] (disk w) = Some m
       \<and> file_record sample_sha ` plain_files m = file_record sample_sha ` plain_files one_file)"
    using conjunct2 [OF conjunct2 [OF imported_folders_are_copies [OF ok src import_run_def]]] e
    by (fastforce simp: import_sample_def import_store_of_def agent_profile_def at)
  with run show ?thesis by blast
qed

end
