(* ===== verification/Server_Config.thy ===== *)
theory Server_Config
  imports Archive_Safety
begin

text \<open>
  \<open>server_config.rs\<close>: the address of the server, as the user types it, as it is kept in \<open>server.json\<close> and
  as the next start finds it. The JSON form of the file and the environment variable are arguments. The
  namespace of an address in the keyring (\<open>credentials.rs\<close>) is here too; Unicode lower case is an argument.
\<close>

datatype server_config_error = InvalidUrl string | ConfigIo string

definition trim_slashes :: "string \<Rightarrow> string" where
  "trim_slashes s = rev (dropWhile (\<lambda>c. c = CHR ''/'') (rev s))"

text \<open>\<open>str::find\<close>\<close>

fun find_text :: "string \<Rightarrow> string \<Rightarrow> nat option" where
  "find_text needle [] = (if needle = [] then Some 0 else None)"
| "find_text needle (c # cs) = (if prefix needle (c # cs) then Some 0 else map_option Suc (find_text needle cs))"

definition normalize_server_url :: "string \<Rightarrow> server_config_error + string" where
  "normalize_server_url raw = (let trimmed = trim raw; without_trailing = trim_slashes trimmed in
     if \<not> prefix ''http://'' without_trailing \<and> \<not> prefix ''https://'' without_trailing then Inl (InvalidUrl trimmed)
     else
       let scheme_end = (case find_text ''://'' without_trailing of Some i \<Rightarrow> i + 3 | None \<Rightarrow> 0);
           rest = drop scheme_end without_trailing in
       if rest = [] \<or> CHR ''@'' \<in> set rest \<or> CHR ''?'' \<in> set rest \<or> CHR ''#'' \<in> set rest then Inl (InvalidUrl trimmed)
       else Inr without_trailing)"

definition default_server_url :: string where
  "default_server_url = ''http://127.0.0.1:8000''"

definition valid_address :: "string option \<Rightarrow> string option" where
  "valid_address v = (case v of None \<Rightarrow> None | Some u \<Rightarrow> (case normalize_server_url u of Inr n \<Rightarrow> Some n | Inl _ \<Rightarrow> None))"

definition resolve_server_url :: "string option \<Rightarrow> string option \<Rightarrow> string" where
  "resolve_server_url stored env_value = (case valid_address stored of
     Some u \<Rightarrow> u
   | None \<Rightarrow> (case valid_address env_value of Some u \<Rightarrow> u | None \<Rightarrow> default_server_url))"

record config_env =
  cf_data_dir :: path
  cf_env_value :: "string option"
  cf_encode :: "string \<Rightarrow> string + string"
  cf_decode :: "string \<Rightarrow> string option"
  cf_io_text :: "io_error \<Rightarrow> string"

definition config_path :: "config_env \<Rightarrow> path" where
  "config_path env = path_join (cf_data_dir env) ''server.json''"

text \<open>\<open>Path::with_extension(\"json.tmp\")\<close> of it\<close>

definition config_temporary :: "config_env \<Rightarrow> path" where
  "config_temporary env = path_join (cf_data_dir env) ''server.json.tmp''"

definition stored_url :: "config_env \<Rightarrow> (unit, string option) io" where
  "stored_url env = do_then (attempt (read_file (locate (config_path env)))) (\<lambda>r. give (case r of
     Inr content \<Rightarrow> if valid_utf8 content then cf_decode env content else None
   | Inl _ \<Rightarrow> None))"

definition load_server_url :: "config_env \<Rightarrow> (unit, string) io" where
  "load_server_url env = do_then (stored_url env) (\<lambda>stored.
     give (resolve_server_url stored (Some (or_else (cf_env_value env) []))))"

definition store_server_url :: "config_env \<Rightarrow> string \<Rightarrow> (server_config_error, string) io" where
  "store_server_url env base_url =
     do_then (from_result (normalize_server_url base_url)) (\<lambda>normalized.
     do_then (from_result (map_err ConfigIo (cf_encode env normalized))) (\<lambda>contents.
     do_then (wrap (\<lambda>e. ConfigIo (cf_io_text env e)) (fs_write (locate (config_temporary env)) contents)) (\<lambda>_.
     do_then (wrap (\<lambda>e. ConfigIo (cf_io_text env e)) (rename_entry (locate (config_temporary env)) (locate (config_path env)))) (\<lambda>_.
     give normalized))))"

definition service_for_server :: "(string \<Rightarrow> string) \<Rightarrow> (string \<Rightarrow> string) \<Rightarrow> string \<Rightarrow> string" where
  "service_for_server hexdigest lower base_url =
     ''app.skillhive.desktop:'' @ take 16 (hexdigest (lower (trim_slashes (trim base_url))))"

section \<open>Addresses\<close>

lemma trim_slashes_idem: "trim_slashes (trim_slashes s) = trim_slashes s"
  by (simp add: trim_slashes_def)

lemma normalize_again:
  assumes "normalize_server_url raw = Inr u" and "trim u = u" shows "normalize_server_url u = Inr u"
proof -
  have u: "u = trim_slashes (trim raw)" using assms(1) by (auto simp: normalize_server_url_def Let_def split: if_splits)
  then have "trim_slashes (trim u) = u" using assms(2) trim_slashes_idem by simp
  then show ?thesis using assms(1) u by (auto simp: normalize_server_url_def Let_def split: if_splits)
qed

section \<open>The file\<close>

text \<open>The JSON of an accepted address is text that parses back to it.\<close>

definition config_ok :: "config_env \<Rightarrow> string \<Rightarrow> bool" where
  "config_ok env raw \<longleftrightarrow> is_absolute (cf_data_dir env) \<and> (case normalize_server_url raw of
     Inr n \<Rightarrow> (case cf_encode env n of Inr t \<Rightarrow> cf_decode env t = Some n \<and> valid_utf8 t | Inl _ \<Rightarrow> False)
   | Inl _ \<Rightarrow> True)"

lemma config_places:
  assumes "config_ok env raw"
  shows "locate (config_path env) = locate (cf_data_dir env) @ [''server.json'']"
    and "locate (config_temporary env) = locate (cf_data_dir env) @ [''server.json.tmp'']"
  using assms locate_plain_child [of "cf_data_dir env"] by (simp_all add: config_ok_def config_path_def config_temporary_def)

lemma wlp_create_truncate:
  "wlp F (create_truncate (r @ [x])) (\<lambda>_ d'. entry (r @ [x]) d' = Some (Plain []) \<and> tree.away (r @ [x]) d d') (\<lambda>_ d'. d' = d) (\<lambda>d'. d' = d) d"
proof -
  have folder: "is_folder r d" if "stat (r @ [x]) d = Found n" for n
    using that entry_parent_folder [of r x d n] by (simp add: stat_Found)
  have new: "entry (r @ [x]) d' = Some (Plain []) \<and> tree.away (r @ [x]) d d'" if "new_entry (r @ [x]) (Plain []) d = Inr (d', u)" for d' u
    using that new_entry_Inr [of "r @ [x]" "Plain []" d d'] away_new_entry [OF that] put_entry_same [of r d x] by (auto simp: is_folder_iff)
  show ?thesis unfolding create_truncate_def
    by (rule wlp_atomic) (auto split: stat_result.split_asm node.split_asm dest: new folder
        simp: put_entry_same tree.away_put)
qed

lemma wlp_rename_over:
  assumes "entry (r @ [x]) d = Some (Plain t)" and "x \<noteq> y"
    and Q: "\<And>d'. entry (r @ [y]) d' = Some (Plain t) \<Longrightarrow> Q () d'" and "\<And>e. E e d" and "H d"
  shows "wlp F (rename_entry (r @ [x]) (r @ [y])) Q E H d"
proof -
  have folder: "is_folder r d" using entry_parent_folder [of r x d] assms(1) by simp
  have "entry (r @ [y]) (put_entry (r @ [x]) None (put_entry (r @ [y]) (Some (Plain t)) d)) = Some (Plain t)"
    using put_entry_other [of "r @ [x]" "r @ [y]"] put_entry_same [OF folder] assms(2) by simp
  then show ?thesis unfolding rename_entry_def using assms
    by (intro wlp_atomic) (auto simp: result_simps and_then_Inr_iff checked_stat_Inr split: if_splits intro!: Q)
qed

lemma stored_address:
  assumes "config_ok env raw"
  shows "wlp UNIV (store_server_url env raw)
    (\<lambda>n d'. normalize_server_url raw = Inr n \<and>
       (\<exists>t. cf_encode env n = Inr t \<and> entry (locate (config_path env)) d' = Some (Plain t)))
    (\<lambda>_ d'. entry (locate (config_path env)) d' = entry (locate (config_path env)) d)
    (\<lambda>d'. entry (locate (config_path env)) d' = entry (locate (config_path env)) d) d"
proof -
  let ?r = "locate (cf_data_dir env)"
  note places = config_places [OF assms]
  have same: "entry (?r @ [''server.json'']) d' = entry (?r @ [''server.json'']) d" if "tree.away (?r @ [''server.json.tmp'']) d d'" for d'
    using tree.away_entry [OF that, of "?r @ [''server.json'']"] by simp
  have written: "wlp UNIV (fs_write (?r @ [''server.json.tmp'']) t)
      (\<lambda>_ d'. entry (?r @ [''server.json.tmp'']) d' = Some (Plain t) \<and> tree.away (?r @ [''server.json.tmp'']) d d')
      (\<lambda>_. tree.away (?r @ [''server.json.tmp'']) d) (tree.away (?r @ [''server.json.tmp'']) d) d" for t
    unfolding fs_write_def
    by (rule wlp_seq [OF wlp_create_truncate], rule wlp_write_all [where c = "[]"])
      (auto intro: tree.away_refl tree.away_trans [OF _ tree.away_put] put_entry_same
        dest: entry_parent_folder)
  show ?thesis unfolding store_server_url_def places
    by (rule wlp_do_then, rule wlp_from_result, rule wlp_do_then, rule wlp_from_result,
        rule wlp_do_then, rule wlp_wrap, rule wlp_mono [OF written], rule wlp_do_then, rule wlp_wrap, rule wlp_rename_over)
      (auto intro!: wlp_give simp: same map_err_def split: sum.split_asm)
qed

lemma loaded_address:
  assumes "config_ok env raw" and "normalize_server_url raw = Inr n" and "cf_encode env n = Inr t" and "entry (locate (config_path env)) d = Some (Plain t)"
  shows "load_server_url env \<lparr>disk = d, schedule = []\<rparr>
    = Done (resolve_server_url (Some n) (Some (or_else (cf_env_value env) []))) \<lparr>disk = d, schedule = []\<rparr>"
proof -
  have t: "valid_utf8 t" "cf_decode env t = Some n" using assms(1-3) by (auto simp: config_ok_def)
  show ?thesis using assms(4) by (simp add: load_server_url_def stored_url_def read_file_def atomic_def syscall_def
        do_then_def attempt_def give_def checked_stat_def stat_Found [symmetric] result_simps t)
qed

text \<open>An address that is stored is validated first and replaces \<open>server.json\<close> in one step: if storing is refused,
  fails or is cut short at any system call, the file is as it was, and once it succeeds the next start uses exactly the
  address that was returned, provided it has no white space around it.\<close>

theorem the_next_start_uses_the_stored_address:
  assumes "config_ok env raw"
  shows "case store_server_url env raw \<lparr>disk = d, schedule = s\<rparr> of
      Done n w \<Rightarrow> normalize_server_url raw = Inr n \<and> (trim n = n \<longrightarrow>
        load_server_url env \<lparr>disk = disk w, schedule = []\<rparr> = Done n \<lparr>disk = disk w, schedule = []\<rparr>)
    | Raised e w \<Rightarrow> entry (locate (config_path env)) (disk w) = entry (locate (config_path env)) d
    | Halted w \<Rightarrow> entry (locate (config_path env)) (disk w) = entry (locate (config_path env)) d"
proof -
  have "load_server_url env \<lparr>disk = d', schedule = []\<rparr> = Done n \<lparr>disk = d', schedule = []\<rparr>"
    if "normalize_server_url raw = Inr n" "trim n = n" "cf_encode env n = Inr t" "entry (locate (config_path env)) d' = Some (Plain t)" for n t d'
    using loaded_address [OF assms that(1,3,4)] normalize_again [OF that(1,2)] by (simp add: resolve_server_url_def valid_address_def)
  then show ?thesis using wlp_run [OF stored_address [OF assms, of d] refl, of s] by (auto split: run.splits)
qed

lemma trailing_space_is_kept:
  "normalize_server_url ''http://h/x /'' = Inr ''http://h/x ''" "normalize_server_url ''http://h/x '' = Inr ''http://h/x''"
  by code_simp+

definition sample_config :: config_env where
  "sample_config = \<lparr>cf_data_dir = ''/d'', cf_env_value = None, cf_encode = (\<lambda>u. Inr (''q'' @ u)),
     cf_decode = (\<lambda>t. Some (tl t)), cf_io_text = (\<lambda>_. ''io'')\<rparr>"

lemma the_next_start_uses_the_stored_address_witness:
  "store_server_url sample_config '' http://h/ '' \<lparr>disk = Folder [(''d'', Folder [])], schedule = []\<rparr>
     = Done ''http://h'' \<lparr>disk = Folder [(''d'', Folder [(''server.json'', Plain ''qhttp://h'')])], schedule = []\<rparr>
   \<and> load_server_url sample_config \<lparr>disk = Folder [(''d'', Folder [(''server.json'', Plain ''qhttp://h'')])], schedule = []\<rparr>
     = Done ''http://h'' \<lparr>disk = Folder [(''d'', Folder [(''server.json'', Plain ''qhttp://h'')])], schedule = []\<rparr>"
proof -
  have ok: "config_ok sample_config '' http://h/ ''" by code_simp
  have run: "store_server_url sample_config '' http://h/ '' \<lparr>disk = Folder [(''d'', Folder [])], schedule = []\<rparr>
     = Done ''http://h'' \<lparr>disk = Folder [(''d'', Folder [(''server.json'', Plain ''qhttp://h'')])], schedule = []\<rparr>"
    by code_simp
  have "trim ''http://h'' = ''http://h''" by code_simp
  then show ?thesis
    using the_next_start_uses_the_stored_address [OF ok, of "Folder [(''d'', Folder [])]" "[]"] run by simp
qed

end
