(* ===== verification/Sign_In.thy ===== *)
theory Sign_In
  imports App Sync_Client Sync_Scope Server_Config
begin

text \<open>
  The sign-in commands of \<open>lib.rs\<close>: they bind three things that can fail apart, the durable scope of the
  store, the session of the client that the worker uses, and the address in \<open>server.json\<close>. A client is
  its address and the switch of its session; the keyring has one ring per server address. Registration
  request, password and the platform's name are part of what the server answers. The commands hold the
  coordinator's lock, except \<open>set_server_url\<close> and \<open>desktop_restore_session\<close>.
\<close>

section \<open>Clients\<close>

record client =
  cl_url :: string
  cl_enabled :: bool

text \<open>The handle of the worker's client, the client that a login prepares beside it, and the keyring.\<close>

record clients =
  cc_current :: client
  cc_replacement :: "client option"
  cc_rings :: "string \<Rightarrow> string \<Rightarrow> string option"
  cc_sent :: "string list"

record sign_in_env =
  se_service :: "string \<Rightarrow> string"
  se_new_client :: "string \<Rightarrow> client_error option"
  se_config :: "string + config_env"
  se_uuid :: string

datatype sign_in_error =
  ConfigFailed server_config_error
| ScopeFailed store_error
| ClientFailed client_error
| PathFailed string

type_synonym 'a desk = "clients \<Rightarrow> (sign_in_error, clients \<times> (sign_in_error + 'a)) app"

definition desk_give :: "'a \<Rightarrow> 'a desk" where
  "desk_give a c = app_give (c, Inr a)"

definition desk_raise :: "sign_in_error \<Rightarrow> 'a desk" where
  "desk_raise e c = app_give (c, Inl e)"

definition desk_then :: "'a desk \<Rightarrow> ('a \<Rightarrow> 'b desk) \<Rightarrow> 'b desk" where
  "desk_then m f c = app_then (m c) (\<lambda>(c', r). case r of Inl e \<Rightarrow> desk_raise e c' | Inr a \<Rightarrow> f a c')"

definition desk_result :: "sign_in_error + 'a \<Rightarrow> 'a desk" where
  "desk_result r = (case r of Inl e \<Rightarrow> desk_raise e | Inr a \<Rightarrow> desk_give a)"

definition desk_try :: "'a desk \<Rightarrow> (sign_in_error + 'a) desk" where
  "desk_try m c = app_then (m c) (\<lambda>(c', r). desk_give r c')"

definition desk_store :: "(store \<Rightarrow> store_error + (store \<times> 'a)) \<Rightarrow> 'a desk" where
  "desk_store f c = app_then (app_try (transact f)) (\<lambda>r. desk_result (map_err ScopeFailed r) c)"

definition desk_write :: "(store \<Rightarrow> store_error + store) \<Rightarrow> unit desk" where
  "desk_write f = desk_store (\<lambda>d. and_then (f d) (\<lambda>d'. Inr (d', ())))"

definition desk_disk :: "(server_config_error, 'a) io \<Rightarrow> 'a desk" where
  "desk_disk m c = app_then (app_try (on_disk m)) (\<lambda>r. desk_result (map_err ConfigFailed r) c)"

definition desk_set :: "(clients \<Rightarrow> clients) \<Rightarrow> unit desk" where
  "desk_set f c = desk_give () (f c)"

text \<open>\<open>SyncClient::new\<close>\<close>

definition new_client :: "sign_in_env \<Rightarrow> string \<Rightarrow> client_error + client" where
  "new_client env url = (case se_new_client env url of
     Some e \<Rightarrow> Inl e | None \<Rightarrow> Inr \<lparr>cl_url = trim_slashes url, cl_enabled = True\<rparr>)"

text \<open>\<open>replacement.as_ref().unwrap_or(&current_client)\<close>, and one operation of it.\<close>

definition login_client :: "clients \<Rightarrow> client" where
  "login_client c = or_else (cc_replacement c) (cc_current c)"

definition session_of :: "sign_in_env \<Rightarrow> clients \<Rightarrow> session" where
  "session_of env c = \<lparr>keyring = cc_rings c (se_service env (cl_url (login_client c))),
     session_enabled = cl_enabled (login_client c), sent = cc_sent c\<rparr>"

definition with_session :: "sign_in_env \<Rightarrow> clients \<Rightarrow> session \<Rightarrow> clients" where
  "with_session env c s =
     (let l = (login_client c)\<lparr>cl_enabled := session_enabled s\<rparr>;
          c' = c\<lparr>cc_rings := (cc_rings c)(se_service env (cl_url l) := keyring s), cc_sent := sent s\<rparr> in
      case cc_replacement c of None \<Rightarrow> c'\<lparr>cc_current := l\<rparr> | Some _ \<Rightarrow> c'\<lparr>cc_replacement := Some l\<rparr>)"

definition call_client :: "sign_in_env \<Rightarrow> 'a client_op \<Rightarrow> 'a desk" where
  "call_client env m c = (case m (session_of env c) of (s, r) \<Rightarrow> desk_result (map_err ClientFailed r) (with_session env c s))"

section \<open>Commands\<close>

record login_outcome =
  lo_device_id :: string
  lo_client_instance_id :: string
  lo_expires_in :: nat

text \<open>\<open>let _ = login_client.logout(); return Err(error)\<close>\<close>

definition or_sign_out :: "sign_in_env \<Rightarrow> boundary \<Rightarrow> 'a desk \<Rightarrow> 'a desk" where
  "or_sign_out env b m = desk_then (desk_try m) (\<lambda>r. case r of
     Inr a \<Rightarrow> desk_give a
   | Inl e \<Rightarrow> desk_then (desk_try (call_client env (logout b))) (\<lambda>_. desk_raise e))"

definition prepare_client :: "sign_in_env \<Rightarrow> string \<Rightarrow> unit desk" where
  "prepare_client env url c =
     (if cl_url (cc_current c) \<noteq> url then
        desk_then (desk_result (map_err ClientFailed (new_client env url))) (\<lambda>n. desk_set (\<lambda>c. c\<lparr>cc_replacement := Some n\<rparr>)) c
      else desk_set (\<lambda>c. c\<lparr>cc_replacement := None\<rparr>) c)"

definition suspend_current :: "clients \<Rightarrow> clients" where
  "suspend_current c = c\<lparr>cc_current := (cc_current c)\<lparr>cl_enabled := False\<rparr>\<rparr>"

definition take_replacement :: "clients \<Rightarrow> clients" where
  "take_replacement c = (case cc_replacement c of None \<Rightarrow> c | Some n \<Rightarrow> c\<lparr>cc_current := n, cc_replacement := None\<rparr>)"



definition login_outcome_of :: "device_registration \<Rightarrow> nat \<Rightarrow> login_outcome" where
  "login_outcome_of device expires = \<lparr>lo_device_id = dv_device_id device, lo_client_instance_id = dv_client_instance_id device,
     lo_expires_in = expires\<rparr>"

text \<open>What binds a session the server has granted; \<open>b'\<close> answers the logout of one that cannot be kept.\<close>

definition keep_sign_in ::
  "sign_in_env \<Rightarrow> boundary \<Rightarrow> string \<Rightarrow> string \<Rightarrow> device_registration \<Rightarrow> nat \<Rightarrow> login_outcome desk" where
  "keep_sign_in env b' server_url username device expires =
     desk_then (or_sign_out env b' (desk_write (record_authenticated_device server_url username
       (dv_client_instance_id device) (dv_device_id device) (dv_user_id device)))) (\<lambda>_.
     desk_then (or_sign_out env b' (desk_result (map_err PathFailed (se_config env)))) (\<lambda>config.
     desk_then (or_sign_out env b' (desk_disk (store_server_url config server_url))) (\<lambda>_.
     desk_then (desk_set take_replacement) (\<lambda>_. desk_give (login_outcome_of device expires)))))"

text \<open>What follows once the durable scope is pending.\<close>

definition sign_in :: "sign_in_env \<Rightarrow> boundary \<Rightarrow> boundary \<Rightarrow> string \<Rightarrow> string \<Rightarrow> login_outcome desk" where
  "sign_in env b b' server_url username =
     desk_then (desk_set suspend_current) (\<lambda>_.
     desk_then (prepare_client env server_url) (\<lambda>_.
     desk_then (desk_store (ensure_client_instance_id (se_uuid env))) (\<lambda>_.
     desk_then (call_client env (login b)) (\<lambda>(device, expires).
     keep_sign_in env b' server_url username device expires))))"

definition desktop_login :: "sign_in_env \<Rightarrow> boundary \<Rightarrow> boundary \<Rightarrow> string \<Rightarrow> string \<Rightarrow> login_outcome desk" where
  "desktop_login env b b' base_url username =
     desk_then (desk_result (map_err ConfigFailed (normalize_server_url base_url))) (\<lambda>server_url.
     desk_then (desk_write (prepare_login_scope server_url username)) (\<lambda>_.
     sign_in env b b' server_url username))"

text \<open>The client of a command outside a login is the current one.\<close>

definition call_current :: "sign_in_env \<Rightarrow> 'a client_op \<Rightarrow> 'a desk" where
  "call_current env m c = call_client env m (c\<lparr>cc_replacement := None\<rparr>)"

definition desktop_logout :: "sign_in_env \<Rightarrow> boundary \<Rightarrow> unit desk" where
  "desktop_logout env b =
     desk_then (desk_try (desk_write invalidate_authenticated_scope)) (\<lambda>scope.
     desk_then (desk_try (call_current env (logout b))) (\<lambda>session.
     desk_result (case (scope, session) of (Inl e, _) \<Rightarrow> Inl e | (_, Inl e) \<Rightarrow> Inl e | (Inr _, Inr _) \<Rightarrow> Inr ())))"

definition desktop_restore_session :: "sign_in_env \<Rightarrow> boundary \<Rightarrow> login_response desk" where
  "desktop_restore_session env b = call_current env (restore_web_session b)"

definition get_server_url :: "clients \<Rightarrow> string" where
  "get_server_url c = cl_url (cc_current c)"

definition set_server_url :: "sign_in_env \<Rightarrow> string \<Rightarrow> string desk" where
  "set_server_url env base_url =
     desk_then (desk_result (map_err PathFailed (se_config env))) (\<lambda>config.
     desk_then (desk_result (map_err ConfigFailed (normalize_server_url base_url))) (\<lambda>normalized.
     desk_then (desk_write (prepare_server_switch normalized)) (\<lambda>_.
     desk_then (desk_disk (store_server_url config normalized)) (\<lambda>_.
     desk_then (desk_result (map_err ClientFailed (new_client env normalized))) (\<lambda>n.
     desk_then (desk_set (\<lambda>c. c\<lparr>cc_current := n\<rparr>)) (\<lambda>_.
     desk_give normalized))))))"

end
