(* ===== verification/Sign_In_Safety.thy ===== *)
theory Sign_In_Safety
  imports Sign_In
begin

text \<open>
  What holds when a sign-in or a sign-out ends: rules in the style of \<open>awp\<close> for the commands of
  \<open>Sign_In\<close>, whose states are the clients, the store and the disk.
\<close>

section \<open>Rules\<close>

definition dwp :: "'a desk \<Rightarrow> ('a \<Rightarrow> clients \<Rightarrow> store \<Rightarrow> node \<Rightarrow> bool) \<Rightarrow> (sign_in_error \<Rightarrow> clients \<Rightarrow> store \<Rightarrow> node \<Rightarrow> bool)
    \<Rightarrow> clients \<Rightarrow> store \<Rightarrow> node \<Rightarrow> bool" where
  "dwp m Q E c d x \<longleftrightarrow> awp UNIV (m c) (\<lambda>(c', r) d' x'. case r of Inr a \<Rightarrow> Q a c' d' x' | Inl e \<Rightarrow> E e c' d' x')
     (\<lambda>_ _ _. False) (\<lambda>_ _. True) d x"

lemma dwp_give: "Q a c d x \<Longrightarrow> dwp (desk_give a) Q E c d x"
  by (simp add: dwp_def desk_give_def awp_give)

lemma dwp_raise: "E e c d x \<Longrightarrow> dwp (desk_raise e) Q E c d x"
  by (simp add: dwp_def desk_raise_def awp_give)

lemma dwp_set: "Q () (f c) d x \<Longrightarrow> dwp (desk_set f) Q E c d x"
  by (simp add: dwp_def desk_set_def desk_give_def awp_give)

lemma dwp_result: "(\<And>a. r = Inr a \<Longrightarrow> Q a c d x) \<Longrightarrow> (\<And>e. r = Inl e \<Longrightarrow> E e c d x) \<Longrightarrow> dwp (desk_result r) Q E c d x"
  by (cases r) (simp_all add: desk_result_def dwp_give dwp_raise)

lemma dwp_then: "dwp m (\<lambda>a. dwp (f a) Q E) E c d x \<Longrightarrow> dwp (desk_then m f) Q E c d x"
  unfolding dwp_def desk_then_def desk_raise_def by (erule awp_then) (auto split: prod.split_asm sum.split_asm intro!: awp_give)

lemma dwp_try: "dwp m (\<lambda>a. Q (Inr a)) (\<lambda>e. Q (Inl e)) c d x \<Longrightarrow> dwp (desk_try m) Q E c d x"
  unfolding dwp_def desk_try_def desk_give_def by (erule awp_then) (auto split: prod.split_asm sum.split_asm intro!: awp_give)

lemma dwp_store:
  assumes "\<And>d' a. f d = Inr (d', a) \<Longrightarrow> Q a c d' x" and "\<And>e. E (ScopeFailed e) c d x"
  shows "dwp (desk_store f) Q E c d x"
  unfolding dwp_def desk_store_def
  by (rule awp_try, rule awp_transact [where Q = "\<lambda>a d' x'. x' = x \<and> f d = Inr (d', a)" and E = "\<lambda>_ d' x'. d' = d \<and> x' = x" and H = "\<lambda>_ _. True"])
    (use assms in \<open>auto simp: desk_result_def desk_give_def desk_raise_def map_err_def intro!: awp_give\<close>)

lemma dwp_write:
  assumes "\<And>d'. f d = Inr d' \<Longrightarrow> Q () c d' x" and "\<And>e. E (ScopeFailed e) c d x" shows "dwp (desk_write f) Q E c d x"
  unfolding desk_write_def by (rule dwp_store) (use assms in \<open>auto simp: result_simps\<close>)

lemma dwp_disk:
  assumes "wlp UNIV m (\<lambda>a. Q a c d) (\<lambda>e. E (ConfigFailed e) c d) (\<lambda>_. True) x" shows "dwp (desk_disk m) Q E c d x"
  unfolding dwp_def desk_disk_def
  by (rule awp_try [OF awp_on_disk [where Q = "\<lambda>a d' x'. d' = d \<and> Q a c d x'" and E = "\<lambda>e d' x'. d' = d \<and> E (ConfigFailed e) c d x'" and H = "\<lambda>_ _. True"]])
    (use assms in \<open>auto simp: desk_result_def desk_give_def desk_raise_def map_err_def wlp_def intro!: awp_give split: run.splits\<close>)

lemma dwp_call:
  assumes "\<And>s r. m (session_of env c) = (s, r) \<Longrightarrow> (case r of Inr a \<Rightarrow> Q a (with_session env c s) d x | Inl e \<Rightarrow> E (ClientFailed e) (with_session env c s) d x)"
  shows "dwp (call_client env m) Q E c d x"
  using assms by (cases "m (session_of env c)"; cases "snd (m (session_of env c))")
    (auto simp: dwp_def call_client_def desk_result_def desk_give_def desk_raise_def map_err_def intro!: awp_give)

lemma dwp_mono:
  assumes "dwp m Q E c d x" and "\<And>a c' d' x'. Q a c' d' x' \<Longrightarrow> Q' a c' d' x'" and "\<And>e c' d' x'. E e c' d' x' \<Longrightarrow> E' e c' d' x'"
  shows "dwp m Q' E' c d x"
  using assms(1) unfolding dwp_def by (rule awp_mono) (use assms(2,3) in \<open>auto split: sum.split_asm sum.split\<close>)

lemma dwp_run:
  assumes "dwp m Q E c d (disk w)"
  shows "case m c d w of Returned (c', r) d' w' \<Rightarrow> (case r of Inr a \<Rightarrow> Q a c' d' (disk w') | Inl e \<Rightarrow> E e c' d' (disk w'))
    | Refused e d' w' \<Rightarrow> False | Died d' w' \<Rightarrow> True"
  using awp_run [OF assms [unfolded dwp_def] refl] by (auto split: ending.splits)

section \<open>The two sessions of a login\<close>

lemma login_client_with [simp]: "login_client (with_session env c s) = (login_client c)\<lparr>cl_enabled := session_enabled s\<rparr>"
  by (simp add: login_client_def with_session_def Let_def split: option.split)

lemma with_session_simps [simp]:
  "cc_replacement (with_session env c s) = map_option (\<lambda>l. l\<lparr>cl_enabled := session_enabled s\<rparr>) (cc_replacement c)"
  "cc_rings (with_session env c s) = (cc_rings c)(se_service env (cl_url (login_client c)) := keyring s)"
  by (simp_all add: login_client_def with_session_def Let_def split: option.split)

text \<open>The worker's client is off; with a replacement prepared, its own switch is not the one that counts.\<close>

definition worker_off :: "clients \<Rightarrow> bool" where
  "worker_off c \<longleftrightarrow> \<not> cl_enabled (cc_current c)"

lemma worker_off_with:
  "cc_replacement c \<noteq> None \<Longrightarrow> worker_off (with_session env c s) \<longleftrightarrow> worker_off c"
  "cc_replacement c = None \<Longrightarrow> worker_off (with_session env c s) \<longleftrightarrow> \<not> session_enabled s"
  by (auto simp: worker_off_def with_session_def login_client_def Let_def)

text \<open>During a login: signed out, or the login client alone is on.\<close>

definition login_pending :: "string \<Rightarrow> clients \<Rightarrow> bool" where
  "login_pending url c \<longleftrightarrow> cl_url (login_client c) = url \<and> (cc_replacement c \<noteq> None \<longrightarrow> worker_off c)"

lemma login_pending_with: "login_pending url c \<Longrightarrow> login_pending url (with_session env c s)"
  by (auto simp: login_pending_def worker_off_with)

lemma worker_off_failed: "login_pending url c \<Longrightarrow> \<not> session_enabled s \<Longrightarrow> worker_off (with_session env c s)"
  by (cases "cc_replacement c") (auto simp: login_pending_def worker_off_with)

lemma dwp_or_sign_out:
  assumes "dwp m Q (\<lambda>_ c' _ _. login_pending url c') c d x"
  shows "dwp (or_sign_out env b m) Q (\<lambda>_ c' _ _. worker_off c') c d x"
  unfolding or_sign_out_def
  by (rule dwp_then, rule dwp_try, rule dwp_mono [OF assms])
    (auto intro!: dwp_give dwp_raise dwp_then dwp_try dwp_call dest: logout_disables worker_off_failed split: sum.split)

section \<open>Signing in\<close>

definition signed_in_at :: "sign_in_env \<Rightarrow> string \<Rightarrow> clients \<Rightarrow> bool" where
  "signed_in_at env url c \<longleftrightarrow> cl_url (login_client c) = url \<and> cl_enabled (login_client c)
     \<and> cc_rings c (se_service env url) account_refresh_token \<noteq> None"

definition bound_to :: "string \<Rightarrow> string \<Rightarrow> login_outcome \<Rightarrow> sync_row \<Rightarrow> bool" where
  "bound_to url username lo s \<longleftrightarrow> sy_server_url s = Some url \<and> sy_login_identity s = Some (trim username)
     \<and> sy_device_id s = Some (lo_device_id lo) \<and> sy_client_instance_id s = Some (lo_client_instance_id lo)
     \<and> sy_server_user_id s \<noteq> None"

definition address_saved :: "sign_in_env \<Rightarrow> string \<Rightarrow> node \<Rightarrow> bool" where
  "address_saved env url x \<longleftrightarrow> (\<forall>config. se_config env = Inr config \<longrightarrow> config_ok config url \<longrightarrow>
     (\<exists>n t. normalize_server_url url = Inr n \<and> cf_encode config n = Inr t \<and> entry (locate (config_path config)) x = Some (Plain t)))"

lemma recorded_device:
  "record_authenticated_device url username (dv_client_instance_id device) (dv_device_id device) (dv_user_id device) d = Inr d' \<Longrightarrow>
   bound_to url username (login_outcome_of device expires) (sync d')"
  by (auto simp: record_authenticated_device_def bound_to_def login_outcome_of_def result_simps Let_def exec_def update_sync_def split: if_splits)

lemma dwp_prepare_client:
  assumes "trim_slashes url = url"
  shows "dwp (prepare_client env url) (\<lambda>_ c' _ _. login_pending url c' \<and> worker_off c') (\<lambda>_ c' _ _. worker_off c') (suspend_current c) d x"
proof -
  have "dwp (prepare_client env url) Q E c d x \<longleftrightarrow> (if cl_url (cc_current c) \<noteq> url
      then dwp (desk_then (desk_result (map_err ClientFailed (new_client env url))) (\<lambda>n. desk_set (\<lambda>c. c\<lparr>cc_replacement := Some n\<rparr>))) Q E c d x
      else dwp (desk_set (\<lambda>c. c\<lparr>cc_replacement := None\<rparr>)) Q E c d x)" for Q E c
    by (simp add: dwp_def prepare_client_def)
  then show ?thesis using assms
    by (auto intro!: dwp_then dwp_result dwp_set simp: new_client_def login_pending_def login_client_def worker_off_def suspend_current_def
        map_err_def split: option.split_asm)
qed

lemma dwp_sign_in:
  assumes url: "trim_slashes url = url"
  shows "dwp (sign_in env b b' url username)
    (\<lambda>lo c' d' x'. signed_in_at env url c' \<and> cc_replacement c' = None \<and> bound_to url username lo (sync d') \<and> address_saved env url x')
    (\<lambda>_ c' _ _. worker_off c') c d x"
    (is "dwp _ ?Q _ _ _ _")
proof -
  have off: "worker_off (with_session env c' s)" if "login b (session_of env c') = (s, Inl e)" "login_pending url c'" for c' s e
    using fails_off_login [OF that(1)] worker_off_failed [OF that(2)] by simp
  have on: "signed_in_at env url (with_session env c' s)" if "login b (session_of env c') = (s, Inr p)" "login_pending url c'" for c' s p
    using login_keeps_token [OF that(1)] that(2) by (auto simp: signed_in_at_def login_pending_def)
  have taken: "signed_in_at env url (take_replacement c')" "cc_replacement (take_replacement c') = None"
    if "signed_in_at env url c'" for c'
    using that by (cases "cc_replacement c'"; simp add: signed_in_at_def take_replacement_def login_client_def)+
  have saved: "dwp (or_sign_out env b' (desk_disk (store_server_url config url)))
      (\<lambda>_ c' d'' x'. c' = c0 \<and> d'' = d' \<and> address_saved env url x') (\<lambda>_ c' _ _. worker_off c') c0 d' x'"
    if "login_pending url c0" "se_config env = Inr config" for config c0 d' x'
  proof (rule dwp_or_sign_out [OF dwp_disk], cases "config_ok config url")
    case True
    show "wlp UNIV (store_server_url config url) (\<lambda>a x'. c0 = c0 \<and> d' = d' \<and> address_saved env url x') (\<lambda>_ _. login_pending url c0) (\<lambda>_. True) x'"
      by (rule wlp_mono [OF stored_address [OF True]]) (use that in \<open>auto simp: address_saved_def\<close>)
  next
    case False
    then show "wlp UNIV (store_server_url config url) (\<lambda>a x'. c0 = c0 \<and> d' = d' \<and> address_saved env url x') (\<lambda>_ _. login_pending url c0) (\<lambda>_. True) x'"
      using that by (auto simp: wlp_def address_saved_def split: run.split)
  qed
  have recorded: "dwp (or_sign_out env b' (desk_write (record_authenticated_device url username
         (dv_client_instance_id device) (dv_device_id device) (dv_user_id device))))
      (\<lambda>_ c' d'' _. c' = c0 \<and> bound_to url username (login_outcome_of device expires) (sync d'')) (\<lambda>_ c' _ _. worker_off c') c0 d' x'"
    if "login_pending url c0" for device expires c0 d' x'
    by (rule dwp_or_sign_out [OF dwp_write]) (use that in \<open>auto intro: recorded_device\<close>)
  have path: "dwp (or_sign_out env b' (desk_result (map_err PathFailed (se_config env))))
      (\<lambda>config c' d'' _. c' = c0 \<and> d'' = d' \<and> se_config env = Inr config) (\<lambda>_ c' _ _. worker_off c') c0 d' x'"
    if "login_pending url c0" for c0 d' x'
    by (rule dwp_or_sign_out [OF dwp_result]) (use that in \<open>auto simp: map_err_def split: sum.split_asm\<close>)
  have rest: "dwp (keep_sign_in env b' url username device expires) ?Q (\<lambda>_ c' _ _. worker_off c') c0 d' x'"
    if c0: "login_pending url c0" "signed_in_at env url c0" for device expires c0 d' x'
    unfolding keep_sign_in_def
    by (rule dwp_then, rule dwp_mono [OF recorded [OF c0(1), of device expires]], rule dwp_then, elim conjE, hypsubst,
        rule dwp_mono [OF path [OF c0(1)]], rule dwp_then, elim conjE, hypsubst, rule dwp_mono [OF saved [OF c0(1)]])
      (use c0 in \<open>auto intro!: dwp_then dwp_set dwp_give taken\<close>)
  have login: "dwp (call_client env (login b)) (\<lambda>_ c' _ _. login_pending url c' \<and> signed_in_at env url c') (\<lambda>_ c' _ _. worker_off c') c0 d' x'"
    if "login_pending url c0" for c0 d' x'
    by (rule dwp_call) (use that off on login_pending_with in \<open>auto split: sum.split\<close>)
  show ?thesis unfolding sign_in_def
    by (rule dwp_then, rule dwp_set, rule dwp_then, rule dwp_mono [OF dwp_prepare_client [OF url]], rule dwp_then, rule dwp_store,
        rule dwp_then, elim conjE, rule dwp_mono [OF login]) (auto intro: rest)
qed

lemma normalized_slashes: "normalize_server_url raw = Inr url \<Longrightarrow> trim_slashes url = url \<and> url \<noteq> []"
  by (auto simp: normalize_server_url_def Let_def trim_slashes_idem split: if_splits)

lemma dwp_desktop_login:
  "dwp (desktop_login env b b' base_url username)
    (\<lambda>lo c' d' x'. \<exists>url. normalize_server_url base_url = Inr url \<and> signed_in_at env url c' \<and> cc_replacement c' = None
       \<and> bound_to url username lo (sync d') \<and> address_saved env url x')
    (\<lambda>_ c' d' _. c' = c \<and> d' = d \<or> worker_off c') c d x"
  unfolding desktop_login_def
  by (rule dwp_then, rule dwp_result, rule dwp_then, rule dwp_write, rule dwp_mono [OF dwp_sign_in])
    (auto simp: map_err_def dest: normalized_slashes split: sum.split_asm)

text \<open>C10: a sign-in succeeds completely or leaves nobody signed in. When it returns, the client the worker uses is
  the one for the address the user gave, its session is enabled with a refresh token in that address's own ring
  of the keyring, and the store is bound to that address, that user name and the device that was registered.
  When it fails, at the password, the store, the data directory or the configuration file, either nothing was
  touched yet or the worker's client is disabled, also if another account was signed in before.\<close>

theorem failed_sign_ins_leave_nobody_signed_in:
  "case desktop_login env b b' base_url username c d w of
      Returned (c', Inr lo) d' w' \<Rightarrow> \<exists>url. normalize_server_url base_url = Inr url
        \<and> cc_current c' = \<lparr>cl_url = url, cl_enabled = True\<rparr> \<and> cc_rings c' (se_service env url) account_refresh_token \<noteq> None
        \<and> bound_to url username lo (sync d')
    | Returned (c', Inl e) d' w' \<Rightarrow> c' = c \<and> d' = d \<or> \<not> cl_enabled (cc_current c')
    | Refused e d' w' \<Rightarrow> False
    | Died d' w' \<Rightarrow> True"
  using dwp_run [OF dwp_desktop_login [of env b b' base_url username c d "disk w"]]
  by (auto simp: signed_in_at_def login_client_def worker_off_def intro!: client.equality split: ending.splits sum.splits)

lemma trim_shorter: "trim s \<noteq> s \<Longrightarrow> length (trim s) < length s"
proof -
  assume t: "trim s \<noteq> s"
  have first: "suffix (trim_start s) s" by (simp add: trim_start_def strip_while_suffix)
  have final: "prefix (trim s) (trim_start s)"
    using strip_while_suffix [of "map rev white_space" "length (trim_start s)" "rev (trim_start s)"]
    by (simp add: trim_def trim_end_def suffix_to_prefix)
  show ?thesis
  proof (rule ccontr)
    assume "\<not> length (trim s) < length s"
    then have len: "length (trim s) = length (trim_start s)" "length (trim_start s) = length s"
      using suffix_length_le [OF first] prefix_length_le [OF final] by simp_all
    obtain zs where z: "s = zs @ trim_start s" using first by (auto simp: suffix_def)
    have "zs = []" using len(2) arg_cong [OF z, of length] by simp
    with z have "trim_start s = s" by simp
    moreover have "trim s = trim_start s" using final len(1) by (auto simp: prefix_def)
    ultimately show False using t by simp
  qed
qed

lemma normalized_shorter:
  assumes "normalize_server_url raw = Inr url" shows "length url \<le> length (trim raw)"
proof -
  have "suffix (rev (trim_slashes (trim raw))) (rev (trim raw))" by (simp add: trim_slashes_def suffix_dropWhile)
  then have "length (trim_slashes (trim raw)) \<le> length (trim raw)" using suffix_length_le by fastforce
  then show ?thesis using assms by (auto simp: normalize_server_url_def Let_def split: if_splits)
qed

text \<open>The scope a sign-in binds lets exactly its own address pass.\<close>

lemma bound_scope:
  assumes "bound_to url username lo (sync d)" and "normalize_server_url raw = Inr url"
  shows "assert_server_scope u d = Inr () \<longleftrightarrow> u = url"
proof -
  have "prefix ''http'' url" using assms(2) by (auto simp: normalize_server_url_def Let_def prefix_def split: if_splits)
  then have "CHR ''h'' \<in> set url" by (auto simp: prefix_def)
  moreover have "visible (CHR ''h'')" by code_simp
  ultimately have "\<not> is_blank url" using not_blank_visible by blast
  then show ?thesis using assms(1)
    by (auto simp: bound_to_def assert_server_scope_def sync_state_def Let_def result_simps validate_non_empty_def split: if_splits)
qed

text \<open>C11: What the next start makes of a sign-in. It finds some address; the first cycle of its client passes the scope
  guard exactly if this is the address the store was bound to. It is, whenever the accepted address has no white space
  at its ends. An address with white space left at its end (a slash after the space hides it from the first
  normalization) is not found again: the next start's client is for another address and its cycles are refused,
  unless the environment variable happens to be normalized to the very same text.\<close>

theorem sign_ins_survive_a_restart:
  assumes "desktop_login env b b' base_url username c d w = Returned (c', Inr lo) d' w'"
    and "se_config env = Inr config" and "normalize_server_url base_url = Inr url" and "config_ok config url"
  shows "\<exists>found. load_server_url config \<lparr>disk = disk w', schedule = []\<rparr> = Done found \<lparr>disk = disk w', schedule = []\<rparr>
    \<and> (assert_server_scope found d' = Inr () \<longleftrightarrow> found = url)
    \<and> (trim url = url \<longrightarrow> found = url)
    \<and> (trim url \<noteq> url \<longrightarrow> found = url \<longrightarrow> (\<exists>e. cf_env_value config = Some e \<and> normalize_server_url e = Inr url))"
proof -
  have d: "bound_to url username lo (sync d')" "address_saved env url (disk w')"
    using dwp_run [OF dwp_desktop_login [of env b b' base_url username c d "disk w"]] assms(1,3) by auto
  then obtain n t where n: "normalize_server_url url = Inr n" and t: "cf_encode config n = Inr t"
      "entry (locate (config_path config)) (disk w') = Some (Plain t)"
    using assms(2,4) by (auto simp: address_saved_def)
  let ?found = "resolve_server_url (Some n) (Some (or_else (cf_env_value config) []))"
  have kept: "?found = url" if "trim url = url"
    using normalize_again [OF assms(3) that] n by (simp add: resolve_server_url_def valid_address_def)
  have lost: "\<exists>e. cf_env_value config = Some e \<and> normalize_server_url e = Inr url" if b: "trim url \<noteq> url" and f: "?found = url"
  proof (cases "normalize_server_url n")
    case (Inr m)
    then have "length m < length url" using normalized_shorter [OF Inr] normalized_shorter [OF n] trim_shorter [OF b] trim_shorter [of n] by fastforce
    then show ?thesis using Inr f by (auto simp: resolve_server_url_def valid_address_def)
  next
    case (Inl e)
    have default: "trim default_server_url = default_server_url" "normalize_server_url [] = Inl (InvalidUrl [])" by code_simp+
    show ?thesis using Inl f b default
      by (cases "cf_env_value config")
        (auto simp: resolve_server_url_def valid_address_def or_else_def split: sum.splits option.splits)
  qed
  show ?thesis using loaded_address [OF assms(4) n t] bound_scope [OF d(1) assms(3)] kept lost by blast
qed

section \<open>Signing out\<close>

definition scope_down :: "store \<Rightarrow> bool" where
  "scope_down d \<longleftrightarrow> sy_login_identity (sync d) = None \<and> sy_server_user_id (sync d) = None \<and> sy_device_id (sync d) = None
     \<and> sy_server_cursor (sync d) = None"

lemma invalidated: "invalidate_authenticated_scope d = Inr d' \<Longrightarrow> scope_down d'"
  by (auto simp: invalidate_authenticated_scope_def exec_def update_sync_def scope_down_def Let_def split: if_splits)

definition ring_cleared :: "sign_in_env \<Rightarrow> boundary \<Rightarrow> string \<Rightarrow> clients \<Rightarrow> bool" where
  "ring_cleared env b url c \<longleftrightarrow>
     (\<forall>a \<in> {account_refresh_token, account_access_token}. bd_delete b a = None \<longrightarrow> cc_rings c (se_service env url) a = None)"

lemma dwp_log_out:
  "dwp (call_current env (logout b))
    (\<lambda>_ c' d' _. d' = d \<and> worker_off c' \<and> ring_cleared env b (cl_url (cc_current c)) c'
       \<and> bd_delete b account_refresh_token = None \<and> bd_delete b account_access_token = None)
    (\<lambda>_ c' d' _. d' = d \<and> worker_off c' \<and> ring_cleared env b (cl_url (cc_current c)) c') c d x"
proof -
  let ?c = "c\<lparr>cc_replacement := None\<rparr>"
  have "\<not> session_enabled s \<and> (\<forall>a \<in> {account_refresh_token, account_access_token}. bd_delete b a = None \<longrightarrow> keyring s a = None)
      \<and> (r = Inr () \<longrightarrow> bd_delete b account_refresh_token = None \<and> bd_delete b account_access_token = None)"
    if l: "logout b (session_of env ?c) = (s, r)" for s r
  proof -
    obtain t where "s = fst (clear_credentials b t)" "r = Inr () \<longrightarrow> snd (clear_credentials b t) = Inr ()"
      using logout_clears [of b "session_of env ?c"] l by (auto simp: clears_def)
    then show ?thesis using clear_credentials_cases [of b t "fst (clear_credentials b t)" "snd (clear_credentials b t)"] by auto
  qed
  then have "dwp (call_client env (logout b))
    (\<lambda>_ c' d' _. d' = d \<and> worker_off c' \<and> ring_cleared env b (cl_url (cc_current c)) c'
       \<and> bd_delete b account_refresh_token = None \<and> bd_delete b account_access_token = None)
    (\<lambda>_ c' d' _. d' = d \<and> worker_off c' \<and> ring_cleared env b (cl_url (cc_current c)) c') ?c d x"
    by (intro dwp_call) (auto simp: worker_off_with ring_cleared_def login_client_def split: sum.split)
  then show ?thesis by (simp add: dwp_def call_current_def)
qed

text \<open>C12: a sign-out disables the worker's client and deletes both secrets of its server from the keyring, unless the
  keyring refuses, whether or not the store could be written and the server reached; the durable scope is taken
  down unless the store refuses. It reports success only when all of this was done.\<close>

theorem sign_outs_are_complete:
  "case desktop_logout env b c d w of
      Returned (c', r) d' w' \<Rightarrow> \<not> cl_enabled (cc_current c')
        \<and> (\<forall>a \<in> {account_refresh_token, account_access_token}.
             bd_delete b a = None \<or> r = Inr () \<longrightarrow> cc_rings c' (se_service env (cl_url (cc_current c))) a = None)
        \<and> (scope_down d' \<or> (\<exists>e. r = Inl (ScopeFailed e)))
    | Refused e d' w' \<Rightarrow> False
    | Died d' w' \<Rightarrow> True"
proof -
  have out: "dwp (desktop_logout env b)
     (\<lambda>_ c' d' _. worker_off c' \<and> ring_cleared env b (cl_url (cc_current c)) c' \<and> scope_down d'
        \<and> bd_delete b account_refresh_token = None \<and> bd_delete b account_access_token = None)
     (\<lambda>e c' d' _. worker_off c' \<and> ring_cleared env b (cl_url (cc_current c)) c' \<and> (scope_down d' \<or> (\<exists>s. e = ScopeFailed s))) c d (disk w)"
    unfolding desktop_logout_def
    by (rule dwp_then, rule dwp_try, rule dwp_write; rule dwp_then, rule dwp_try, rule dwp_mono [OF dwp_log_out])
      (auto intro!: dwp_result dest: invalidated)
  show ?thesis
  proof (cases "desktop_logout env b c d w")
    case (Returned p d' w')
    obtain c' r where p: "p = (c', r)" by (cases p)
    show ?thesis using dwp_run [OF out] by (cases r) (auto simp: Returned p worker_off_def ring_cleared_def)
  qed (use dwp_run [OF out] in auto)
qed

end
