(* ===== verification/Sign_In_Samples.thy ===== *)
theory Sign_In_Samples
  imports Sign_In_Safety
begin

text \<open>
  Runs of the sign-in commands: a login that is kept, and one with a wrong password after which setting
  the same server address enables the suspended session again.
\<close>

definition sample_sign_in :: sign_in_env where
  "sample_sign_in = \<lparr>se_service = (\<lambda>url. ''app:'' @ url), se_new_client = (\<lambda>_. None), se_config = Inr sample_config, se_uuid = ''c1''\<rparr>"

definition alice :: clients where
  "alice = \<lparr>cc_current = \<lparr>cl_url = ''http://h'', cl_enabled = True\<rparr>, cc_replacement = None,
     cc_rings = (\<lambda>service. if service = ''app:http://h'' then [account_refresh_token \<mapsto> ''t1''] else Map.empty), cc_sent = []\<rparr>"

definition config_dir :: world where
  "config_dir = \<lparr>disk = Folder [(''d'', Folder [])], schedule = []\<rparr>"

definition good_login :: boundary where
  "good_login = sample_boundary\<lparr>bd_register := Answer (ok_response sample_device)\<rparr>"

definition wrong_password :: boundary where
  "wrong_password = sample_boundary\<lparr>bd_login := SendFailed (Some 401) ''unauthorized''\<rparr>"

definition empty_scope :: store where
  "empty_scope = (sample_store Pending)\<lparr>skills := [], mutations := [], sync := empty_sync\<rparr>"

definition signed_in_run :: "(sign_in_error, clients \<times> (sign_in_error + login_outcome)) ending" where
  "signed_in_run = desktop_login sample_sign_in good_login good_login ''http://k/ '' ''bob'' alice empty_scope config_dir"

lemma sign_ins_survive_a_restart_witness:
  "case signed_in_run of
      Returned (c, Inr lo) d w \<Rightarrow> lo_device_id lo = ''d1''
        \<and> load_server_url sample_config \<lparr>disk = disk w, schedule = []\<rparr> = Done ''http://k'' \<lparr>disk = disk w, schedule = []\<rparr>
        \<and> assert_server_scope ''http://k'' d = Inr ()
    | _ \<Rightarrow> False"
proof -
  have run: "case signed_in_run of Returned (c, Inr lo) d w \<Rightarrow> lo_device_id lo = ''d1'' | _ \<Rightarrow> False" by code_simp
  have config: "se_config sample_sign_in = Inr sample_config" by (simp add: sample_sign_in_def)
  have env: "normalize_server_url ''http://k/ '' = Inr ''http://k''" "config_ok sample_config ''http://k''" by code_simp+
  have trimmed: "trim ''http://k'' = ''http://k''" by code_simp
  show ?thesis using run sign_ins_survive_a_restart [OF _ config env, of good_login good_login "''bob''" alice empty_scope config_dir] trimmed
    by (auto simp: signed_in_run_def split: ending.splits prod.splits sum.splits)
qed

definition signed_out_run :: "(sign_in_error, clients \<times> (sign_in_error + unit)) ending" where
  "signed_out_run = desktop_logout sample_sign_in sample_boundary alice bound_store config_dir"

theorem sign_outs_are_complete_witness:
  "case signed_out_run of
      Returned (c, r) d w \<Rightarrow> r = Inl (ClientFailed (Network ''offline'')) \<and> \<not> cl_enabled (cc_current c)
        \<and> cc_rings c ''app:http://h'' account_refresh_token = None \<and> scope_down d
    | _ \<Rightarrow> False"
proof -
  have "case signed_out_run of Returned (_, r) _ _ \<Rightarrow> r = Inl (ClientFailed (Network ''offline'')) | _ \<Rightarrow> False" by code_simp
  then obtain c d w where run: "signed_out_run = Returned (c, Inl (ClientFailed (Network ''offline''))) d w"
    by (auto split: ending.splits)
  have ring: "bd_delete sample_boundary a = None" "se_service sample_sign_in (cl_url (cc_current alice)) = ''app:http://h''" for a
    by (simp_all add: sample_boundary_def sample_sign_in_def alice_def)
  show ?thesis using sign_outs_are_complete [where env = sample_sign_in and b = sample_boundary and c = alice and d = bound_store and w = config_dir]
    by (simp add: run signed_out_run_def [symmetric] ring)
qed

section \<open>A suspended session comes back\<close>

definition refused_run :: "(sign_in_error, clients \<times> (sign_in_error + login_outcome)) ending" where
  "refused_run = desktop_login sample_sign_in wrong_password wrong_password ''http://h'' ''bob'' alice empty_scope config_dir"

theorem failed_sign_ins_leave_nobody_signed_in_witness:
  "case refused_run of
      Returned (c, Inl e) d w \<Rightarrow> e = ClientFailed (Authentication ''UNKNOWN'' 401) \<and> \<not> cl_enabled (cc_current c) | _ \<Rightarrow> False"
proof -
  have "case refused_run of
      Returned (c, r) d w \<Rightarrow> r = Inl (ClientFailed (Authentication ''UNKNOWN'' 401)) \<and> cc_sent c \<noteq> cc_sent alice | _ \<Rightarrow> False" by code_simp
  then obtain c d w where run: "refused_run = Returned (c, Inl (ClientFailed (Authentication ''UNKNOWN'' 401))) d w" and sent: "c \<noteq> alice"
    by (auto split: ending.splits sum.splits)
  show ?thesis using failed_sign_ins_leave_nobody_signed_in [where env = sample_sign_in and b = wrong_password and b' = wrong_password
      and base_url = "''http://h''" and username = "''bob''" and c = alice and d = empty_scope and w = config_dir] sent by (simp add: run refused_run_def [symmetric])
qed

definition readdressed_run :: "(sign_in_error, clients \<times> (sign_in_error + string)) ending" where
  "readdressed_run = (case refused_run of Returned (c, _) d w \<Rightarrow> set_server_url sample_sign_in ''http://h'' c d w
     | Refused e d w \<Rightarrow> Refused e d w | Died d w \<Rightarrow> Died d w)"

text \<open>
  After a wrong password the session of the account signed in before is suspended, to stay stopped until
  someone logs in. Confirming the server's address is enough to revive it: the new client starts enabled
  and finds the old refresh token in the ring.
\<close>

theorem confirming_the_address_revives_a_suspended_session:
  "(case refused_run of Returned (c, Inl e) d w \<Rightarrow> e = ClientFailed (Authentication ''UNKNOWN'' 401) \<and> \<not> cl_enabled (cc_current c) | _ \<Rightarrow> False)
   \<and> (case readdressed_run of Returned (c, Inr url) d w \<Rightarrow> cl_enabled (cc_current c)
       \<and> (case desktop_restore_session sample_sign_in good_login c d w of
            Returned (_, Inr session) _ _ \<Rightarrow> lr_access_token session = ''a'' | _ \<Rightarrow> False)
      | _ \<Rightarrow> False)"
  by code_simp

end
