(* ===== verification/Commands.thy ===== *)
theory Commands
  imports Hydration Deploy_Engine Archives Cache_Manager Conflicts Prefs
begin

text \<open>
  The commands of \<open>lib.rs\<close> that the window calls, as programs over store and disk. They hold the
  coordinator's lock from first to last, so no two of them interleave. A command's error is a text in
  the code; here it is the error the text displays. Waking the worker (\<open>request_sync\<close>) changes neither
  store nor disk. What the file dialog returns is an argument.
\<close>

datatype command_error =
  StoreFailed store_error
| WorkspaceFailed workspace_error
| SnapshotFailed snapshot_error
| HydrationFailed hydration_error
| DeployFailed deploy_error
| VerificationFailed verify_error
| ZipFailed zip_error
| CacheFailed cache_error
| CycleFailed cycle_error
| CommitRejectsDelete
| WorkspaceNotFound string
| SkillDisappeared string
| NoSuchSkill string
| NoLocalSkill string
| NotReleasable string
| WorkspaceMismatch
| UncommittedChanges
| NotDeployable string skill_sync_state
| NoSuchProfile string
| DisabledProfile string
| UnknownResolution string

record desktop =
  dk_hydrate :: hydrate_env
  dk_cache :: cache_env
  dk_engine :: engine
  dk_zip :: zip_env
  dk_import :: import_env
  dk_encode :: encode_list
  dk_decode :: decode_list

abbreviation dk_workspaces :: "desktop \<Rightarrow> workspace_store" where
  "dk_workspaces k \<equiv> he_workspaces (dk_hydrate k)"

abbreviation dk_now :: "desktop \<Rightarrow> int" where
  "dk_now k \<equiv> he_now (dk_hydrate k)"

section \<open>Calls\<close>

definition see_disk :: "(node \<Rightarrow> ('e, 'a) app) \<Rightarrow> ('e, 'a) app" where
  "see_disk f d w = f (disk w) d w"

definition ask_store :: "(store \<Rightarrow> store_error + (store \<times> 'a)) \<Rightarrow> (command_error, 'a) app" where
  "ask_store f = app_err StoreFailed (transact f)"

definition look_up :: "(store \<Rightarrow> store_error + 'a) \<Rightarrow> (command_error, 'a) app" where
  "look_up f = app_err StoreFailed (store_read f)"

definition read_skill :: "desktop \<Rightarrow> (string \<Rightarrow> command_error) \<Rightarrow> string \<Rightarrow> (command_error, local_skill) app" where
  "read_skill k missing skill =
     app_then (ask_store (get_skill skill (dk_now k))) (\<lambda>found. app_result (ok_or found (missing skill)))"

definition managed_workspace :: "desktop \<Rightarrow> string \<Rightarrow> (command_error, workspace_ref option) app" where
  "managed_workspace k skill = on_disk (wrap WorkspaceFailed (get_workspace (dk_workspaces k) skill))"

definition capture :: "desktop \<Rightarrow> string list \<Rightarrow> path \<Rightarrow> (command_error, snapshot_ref) app" where
  "capture k uuids w = (let ws = dk_workspaces k in
     on_disk (wrap SnapshotFailed (capture_workspace (ws_codec ws) (ws_sha ws) (ws_blobs ws) w default_policy uuids)))"

text \<open>\<open>cache_attempt\<close>: the cache may fail without failing the command.\<close>

definition cache_attempt :: "desktop \<Rightarrow> (command_error, cache_error + cache_report) app" where
  "cache_attempt k = app_try (enforce_cache_budget (dk_cache k))"

section \<open>Workspaces\<close>

definition create_skill_workspace :: "desktop \<Rightarrow> string \<Rightarrow> string \<Rightarrow> string \<Rightarrow> (command_error, workspace_ref) app" where
  "create_skill_workspace k uuid skill initial = on_disk (wrap WorkspaceFailed (create_workspace (dk_workspaces k) uuid skill initial))"

record commit_request =
  cq_skill_id :: string
  cq_remote_id :: "string option"
  cq_name :: string
  cq_slug :: string
  cq_base_revision :: "int option"
  cq_operation :: mutation_operation

record commit_result =
  co_skill :: local_skill
  co_snapshot :: snapshot_ref
  co_mutation :: local_mutation
  co_cache :: "cache_error + cache_report"

definition edit_of :: "commit_request \<Rightarrow> workspace_ref \<Rightarrow> snapshot_ref \<Rightarrow> skill_edit" where
  "edit_of q w snapshot = \<lparr>ed_skill_id = cq_skill_id q, ed_remote_id = cq_remote_id q, ed_name = cq_name q, ed_slug = cq_slug q,
     ed_workspace_path = wr_path w, ed_blob_hash = sr_manifest_hash snapshot, ed_base_revision = cq_base_revision q,
     ed_operation = cq_operation q\<rparr>"

definition commit_local_skill_workspace :: "desktop \<Rightarrow> string \<Rightarrow> string list \<Rightarrow> commit_request \<Rightarrow> (command_error, commit_result) app" where
  "commit_local_skill_workspace k m uuids q =
     (if cq_operation q = Delete then app_raise CommitRejectsDelete
      else
        app_then (managed_workspace k (cq_skill_id q)) (\<lambda>found.
        app_then (app_result (ok_or found (WorkspaceNotFound (cq_skill_id q)))) (\<lambda>w.
        app_then (capture k uuids (wr_path w)) (\<lambda>snapshot.
        app_then (ask_store (commit_skill_edit (edit_of q w snapshot) m (dk_now k))) (\<lambda>mutation.
        app_then (read_skill k SkillDisappeared (cq_skill_id q)) (\<lambda>skill.
        app_then (cache_attempt k) (\<lambda>cache.
        app_give \<lparr>co_skill = skill, co_snapshot = snapshot, co_mutation = mutation, co_cache = cache\<rparr>)))))))"

record release_result =
  rl_released :: bool
  rl_cache :: "cache_error + cache_report"

definition releasable :: "local_skill \<Rightarrow> bool" where
  "releasable s \<longleftrightarrow> ls_sync_state s = Synced \<and> ls_remote_id s \<noteq> None"

definition release_found :: "desktop \<Rightarrow> string list \<Rightarrow> string \<Rightarrow> local_skill \<Rightarrow> workspace_ref \<Rightarrow> (command_error, bool) app" where
  "release_found k uuids skill s w =
     (if \<not> path_eq (wr_path w) (ls_workspace_path s) then app_raise WorkspaceMismatch
      else
        app_then (capture k uuids (wr_path w)) (\<lambda>current.
        if sr_manifest_hash current \<noteq> ls_current_blob_hash s then app_raise UncommittedChanges
        else on_disk (wrap WorkspaceFailed (remove_workspace (dk_workspaces k) skill))))"

definition release_skill_workspace :: "desktop \<Rightarrow> string list \<Rightarrow> string \<Rightarrow> (command_error, release_result) app" where
  "release_skill_workspace k uuids skill =
     app_then (read_skill k NoSuchSkill skill) (\<lambda>s.
     if \<not> releasable s then app_raise (NotReleasable skill)
     else
       app_then (managed_workspace k skill) (\<lambda>found.
       app_then (case found of None \<Rightarrow> app_give False | Some w \<Rightarrow> release_found k uuids skill s w) (\<lambda>released.
       app_then (cache_attempt k) (\<lambda>cache.
       app_give \<lparr>rl_released = released, rl_cache = cache\<rparr>))))"

section \<open>Archives\<close>

text \<open>\<open>picked\<close> is the file the user chose, if any; \<open>skill\<close> the fresh UUID of the new skill.\<close>

definition edit_of_archive :: "string \<Rightarrow> string \<Rightarrow> string \<Rightarrow> zip_import_outcome \<Rightarrow> snapshot_ref \<Rightarrow> skill_edit" where
  "edit_of_archive skill name slug outcome snapshot = \<lparr>ed_skill_id = skill, ed_remote_id = None, ed_name = name, ed_slug = slug,
     ed_workspace_path = wr_path (zo_workspace outcome), ed_blob_hash = sr_manifest_hash snapshot, ed_base_revision = None,
     ed_operation = Create\<rparr>"

definition import_skill_zip_from_dialog :: "desktop \<Rightarrow> path option \<Rightarrow> string \<Rightarrow> string \<Rightarrow> string list \<Rightarrow> string \<Rightarrow> string
    \<Rightarrow> (command_error, zip_import_outcome option) app" where
  "import_skill_zip_from_dialog k picked skill m uuids name slug = (case picked of
     None \<Rightarrow> app_give None
   | Some zip_path \<Rightarrow>
       app_then (on_disk (wrap ZipFailed (import_skill_zip (dk_zip k) zip_path skill))) (\<lambda>outcome.
       app_then (capture k uuids (wr_path (zo_workspace outcome))) (\<lambda>snapshot.
       app_then (ask_store (commit_skill_edit (edit_of_archive skill name slug outcome snapshot) m (dk_now k))) (\<lambda>_.
       app_give (Some outcome)))))"

definition find_local_skill :: "desktop \<Rightarrow> string \<Rightarrow> (command_error, local_skill) app" where
  "find_local_skill k skill =
     app_then (ask_store (get_skill skill (dk_now k))) (\<lambda>found.
     app_then (case found of Some s \<Rightarrow> app_give (Some s)
               | None \<Rightarrow> app_then (app_try (look_up (\<lambda>d. Inr (get_skill_by_remote_id skill d)))) (\<lambda>r.
                   app_give (case r of Inr s \<Rightarrow> s | Inl _ \<Rightarrow> None))) (\<lambda>found.
     app_result (ok_or found (NoLocalSkill skill))))"

definition export_skill_zip_to_dialog :: "desktop \<Rightarrow> path option \<Rightarrow> string \<Rightarrow> (command_error, path option) app" where
  "export_skill_zip_to_dialog k picked skill =
     app_then (find_local_skill k skill) (\<lambda>s. case picked of
       None \<Rightarrow> app_give None
     | Some destination \<Rightarrow>
         app_then (on_disk (wrap ZipFailed (export_skill_zip (dk_zip k) (ls_current_blob_hash s) destination))) (\<lambda>_.
         app_give (Some destination)))"

section \<open>Deploying\<close>

record deploy_command_result =
  dp_deployment :: deployment_record
  dp_recovery_pending :: bool

record batch_item =
  bi_profile_id :: string
  bi_result :: "command_error + deploy_command_result"

definition hydrate_if_needed :: "desktop \<Rightarrow> server \<Rightarrow> string \<Rightarrow> (command_error, unit) app" where
  "hydrate_if_needed k sv skill =
     app_then (read_skill k NoSuchSkill skill) (\<lambda>s.
     app_then (managed_workspace k skill) (\<lambda>w.
     if ls_sync_state s \<noteq> RemoteOnly \<and> w \<noteq> None then app_give ()
     else app_then (app_err HydrationFailed (hydrate_skill (dk_hydrate k) sv skill)) (\<lambda>_. app_give ())))"

definition deploy_request_for :: "local_skill \<Rightarrow> profile_row \<Rightarrow> deploy_request" where
  "deploy_request_for s p = \<lparr>rq_skill_id = ls_id s, rq_profile_id = pr_id p, rq_snapshot_hash = ls_current_blob_hash s,
     rq_skill_root = pr_skill_root p, rq_directory_name = ls_slug s\<rparr>"

definition installed :: "deploy_result \<Rightarrow> deployment_request" where
  "installed r = \<lparr>dq_skill_id = dr_skill_id r, dq_profile_id = dr_profile_id r, dq_blob_hash = dr_snapshot_hash r,
     dq_target_path = dr_target_path r, dq_state = Installed, dq_last_error = None\<rparr>"

text \<open>The end of a deployment: verified once more, entered in the catalog, acknowledged.\<close>

definition enter_in_catalog :: "desktop \<Rightarrow> deploy_result \<Rightarrow> (command_error, deploy_command_result) app" where
  "enter_in_catalog k r =
     app_then (on_disk (wrap VerificationFailed (verify_path (dk_engine k) (dr_snapshot_hash r) (dr_target_path r)))) (\<lambda>_.
     app_then (ask_store (record_deployment (installed r))) (\<lambda>catalog.
     app_then (app_try (on_disk (acknowledge_catalog_commit (dk_engine k) (dr_transaction_id r)))) (\<lambda>acknowledged.
     app_give \<lparr>dp_deployment = catalog, dp_recovery_pending = \<not> is_ok acknowledged\<rparr>)))"

definition deploy_single :: "desktop \<Rightarrow> string \<Rightarrow> string \<Rightarrow> string \<Rightarrow> (command_error, deploy_command_result) app" where
  "deploy_single k tx skill profile =
     app_then (read_skill k NoSuchSkill skill) (\<lambda>s.
     if ls_sync_state s \<in> {RemoteOnly, AccessRevoked, Corrupted} then app_raise (NotDeployable (ls_id s) (ls_sync_state s))
     else
       app_then (look_up (\<lambda>d. Inr (get_agent_profile profile d))) (\<lambda>found.
       app_then (app_result (ok_or found (NoSuchProfile profile))) (\<lambda>p.
       if \<not> pr_enabled p then app_raise (DisabledProfile (pr_id p))
       else
         app_then (on_disk (wrap DeployFailed (deploy (dk_engine k) (deploy_request_for s p) tx))) (enter_in_catalog k))))"

definition deploy_skill_to_agent :: "desktop \<Rightarrow> server \<Rightarrow> string \<Rightarrow> string \<Rightarrow> string \<Rightarrow> (command_error, deploy_command_result) app" where
  "deploy_skill_to_agent k sv tx skill profile =
     app_then (hydrate_if_needed k sv skill) (\<lambda>_. deploy_single k tx skill profile)"

fun deploy_each :: "desktop \<Rightarrow> string list \<Rightarrow> string \<Rightarrow> string list \<Rightarrow> (command_error, batch_item list) app" where
  "deploy_each k txs skill [] = app_give []"
| "deploy_each k txs skill (p # ps) =
     app_then (app_try (deploy_single k (hd txs) skill p)) (\<lambda>r.
     app_then (deploy_each k (tl txs) skill ps) (\<lambda>items.
     app_give (\<lparr>bi_profile_id = p, bi_result = r\<rparr> # items)))"

definition deploy_skill_batch :: "desktop \<Rightarrow> server \<Rightarrow> string list \<Rightarrow> string \<Rightarrow> string list \<Rightarrow> (command_error, batch_item list) app" where
  "deploy_skill_batch k sv txs skill ids =
     app_then (hydrate_if_needed k sv skill) (\<lambda>_. deploy_each k txs skill ids)"

section \<open>The other commands\<close>

definition hydrate_skill_workspace :: "desktop \<Rightarrow> server \<Rightarrow> string \<Rightarrow> (command_error, hydration_outcome) app" where
  "hydrate_skill_workspace k sv skill = app_err HydrationFailed (hydrate_skill (dk_hydrate k) sv skill)"

definition save_agent_profile :: "desktop \<Rightarrow> upsert_profile \<Rightarrow> (command_error, profile_row) app" where
  "save_agent_profile k p = see_disk (\<lambda>x. ask_store (upsert_agent_profile (agents_on (dk_import k) x) p))"

record deployment_prefs =
  dt_default_targets :: "string list"
  dt_skill_targets :: "string list option"

definition get_deployment_prefs :: "desktop \<Rightarrow> string option \<Rightarrow> (command_error, deployment_prefs) app" where
  "get_deployment_prefs k skill =
     app_then (look_up (default_deployment_targets (dk_decode k))) (\<lambda>defaults.
     app_then (case skill of None \<Rightarrow> app_give None | Some s \<Rightarrow> look_up (skill_deployment_targets (dk_decode k) s)) (\<lambda>targets.
     app_give \<lparr>dt_default_targets = defaults, dt_skill_targets = targets\<rparr>))"

definition set_deployment_prefs :: "desktop \<Rightarrow> string option \<Rightarrow> string list \<Rightarrow> (command_error, deployment_prefs) app" where
  "set_deployment_prefs k skill ids =
     app_then (case skill of
         None \<Rightarrow> ask_store (set_default_deployment_targets (dk_encode k) ids)
       | Some s \<Rightarrow> ask_store (set_skill_deployment_targets (dk_encode k) s ids)) (\<lambda>_.
     get_deployment_prefs k skill)"

definition enforce_local_cache :: "desktop \<Rightarrow> (command_error, cache_report) app" where
  "enforce_local_cache k = app_err CacheFailed (enforce_cache_budget (dk_cache k))"

definition set_local_cache_policy :: "desktop \<Rightarrow> nat \<Rightarrow> (command_error, cache_report) app" where
  "set_local_cache_policy k budget =
     app_then (ask_store (set_cache_policy budget)) (\<lambda>_. enforce_local_cache k)"

definition sync_now :: "sync_env \<Rightarrow> server \<Rightarrow> (command_error, cycle_report) app" where
  "sync_now env sv = app_err CycleFailed (run_cycle env sv)"

definition resolve_conflict :: "desktop \<Rightarrow> string \<Rightarrow> string \<Rightarrow> string \<Rightarrow> bool \<Rightarrow> (command_error, resolution_applied) app" where
  "resolve_conflict k m skill mode confirmed =
     (if mode = ''keep_local'' then ask_store (resolve_keep_local skill confirmed m (dk_now k))
      else if mode = ''keep_remote'' then ask_store (resolve_keep_remote skill confirmed (dk_now k))
      else app_raise (UnknownResolution mode))"

end
