(* ===== verification/Command_Safety.thy ===== *)
theory Command_Safety
  imports Commands Deploy_Safety Hydration_Safety
begin

text \<open>
  What the commands of the window promise across store and disk, whatever fails and wherever the process
  dies: a catalog row is written only for a target that verifies, an edit is queued only with the
  snapshot the workspace holds, and a workspace is removed only if its content is the synchronized one.
\<close>

section \<open>The catalog\<close>

definition row_of :: "string \<Rightarrow> string \<Rightarrow> store \<Rightarrow> deployment_row option" where
  "row_of skill profile d = sql_find (same_deployment skill profile) (deployments d)"

lemma find_upserted:
  shows "P row \<Longrightarrow> sql_find P (sql_upsert P row (\<lambda>_. row) xs) = Some row"
    and "(\<And>x. P x \<Longrightarrow> \<not> Q x) \<Longrightarrow> \<not> Q row \<Longrightarrow> sql_find Q (sql_upsert P row (\<lambda>_. row) xs) = sql_find Q xs"
proof -
  have "list_ex P xs \<Longrightarrow> sql_find P (sql_update P (\<lambda>_. row) xs) = Some row" if "P row"
    using that by (induction xs) (auto simp: sql_update_def)
  moreover have "sql_find P (xs @ [row]) = Some row" if "P row" "\<not> list_ex P xs"
    using that by (induction xs) auto
  ultimately show "P row \<Longrightarrow> sql_find P (sql_upsert P row (\<lambda>_. row) xs) = Some row" by (simp add: sql_upsert_def)
  have "sql_find Q (sql_update P (\<lambda>_. row) xs) = sql_find Q xs" "sql_find Q (xs @ [row]) = sql_find Q xs"
    if "\<And>x. P x \<Longrightarrow> \<not> Q x" "\<not> Q row"
    using that by (induction xs) (auto simp: sql_update_def)
  then show "(\<And>x. P x \<Longrightarrow> \<not> Q x) \<Longrightarrow> \<not> Q row \<Longrightarrow> sql_find Q (sql_upsert P row (\<lambda>_. row) xs) = sql_find Q xs"
    by (simp add: sql_upsert_def)
qed

lemma record_of_named [simp]: "dc_skill_name (record_of name row) = name"
  by (simp add: record_of_def)

lemma record_deployment_Inr:
  assumes "record_deployment q d = Inr (d', c)"
  shows "row_of (dq_skill_id q) (dq_profile_id q) d' = Some (deployment_row_of q)"
    and "(s, p) \<noteq> (dq_skill_id q, dq_profile_id q) \<Longrightarrow> row_of s p d' = row_of s p d"
    and "c = record_of (dc_skill_name c) (deployment_row_of q)" and "profiles d' = profiles d"
proof -
  have d': "d' = d\<lparr>deployments := sql_upsert (same_deployment (dq_skill_id q) (dq_profile_id q)) (deployment_row_of q)
      (\<lambda>_. deployment_row_of q) (deployments d)\<rparr>" and c: "c = record_of (dc_skill_name c) (deployment_row_of q)"
    using assms by (auto simp: record_deployment_def result_simps)
  show "row_of (dq_skill_id q) (dq_profile_id q) d' = Some (deployment_row_of q)"
    by (simp add: row_of_def d' find_upserted same_deployment_def deployment_row_of_def)
  show "(s, p) \<noteq> (dq_skill_id q, dq_profile_id q) \<Longrightarrow> row_of s p d' = row_of s p d"
    unfolding row_of_def d' by (simp, subst find_upserted(2)) (auto simp: same_deployment_def deployment_row_of_def)
  show "c = record_of (dc_skill_name c) (deployment_row_of q)" by (rule c)
  show "profiles d' = profiles d" by (simp add: d')
qed

text \<open>\<open>catalogued en q d x\<close>: the row says what the deployment \<open>q\<close> installed, and its target verifies.\<close>

definition verifies :: "engine \<Rightarrow> string \<Rightarrow> path \<Rightarrow> node \<Rightarrow> bool" where
  "verifies en hash p x \<longleftrightarrow> (\<exists>v. verify_materialized_snapshot (en_manifests en) (en_sha en) (en_blobs en) hash (locate p) x = Inr v)"

definition catalogued :: "engine \<Rightarrow> deployment_request \<Rightarrow> store \<Rightarrow> store \<Rightarrow> node \<Rightarrow> bool" where
  "catalogued en q d0 d x \<longleftrightarrow> row_of (dq_skill_id q) (dq_profile_id q) d = Some (deployment_row_of q)
     \<and> (\<forall>s p. (s, p) \<noteq> (dq_skill_id q, dq_profile_id q) \<longrightarrow> row_of s p d = row_of s p d0)
     \<and> profiles d = profiles d0 \<and> verifies en (dq_blob_hash q) (dq_target_path q) x"

lemma verifies_away:
  assumes "tree.away q d d'" and "unrelated q (en_blobs en)" and "unrelated q (locate p)" and "verifies en hash p d"
  shows "verifies en hash p d'"
  using verified_away [OF assms(1-3), of "undefined\<lparr>dj_snapshot_hash := hash\<rparr>"] assms(4) by (simp add: verified_def verifies_def)

lemma confined_acknowledge: "confined (journal_path en tx) (acknowledge_catalog_commit en tx)"
proof -
  have reg: "confined p (ensure_regular_file p)" for p
    unfolding ensure_regular_file_def
    by (intro confined_do_then confined_wrap confined_metadata) (auto intro: confined_rules split: node.split)
  have look: "confined p (exists_entry q)" "confined p (path_is_real_directory l)" for p q l
    unfolding exists_entry_def path_is_real_directory_def path_exists_def
    by (auto intro!: confined_rules confined_attempt confined_metadata split: sum.split)
  have read: "confined p (read_file q)" for p q by (auto simp: confined_def intro: keeps_rules)
  show ?thesis
    unfolding acknowledge_catalog_commit_def load_journal_def read_latest_journal_def drop_journal_def verify_path_def
    by (auto intro!: confined_rules confined_remove_journal reg look read)
qed

lemma awp_ask:
  assumes "\<And>d' a. f d = Inr (d', a) \<Longrightarrow> Q a d' x" and "\<And>e. E e d x" and "H d x"
  shows "awp F (ask_store f) Q E H d x"
  unfolding ask_store_def by (rule awp_err, rule awp_transact) (use assms in auto)

lemma awp_look_up:
  assumes "\<And>a. f d = Inr a \<Longrightarrow> Q a d x" and "\<And>e. E e d x" and "H d x"
  shows "awp F (look_up f) Q E H d x"
  unfolding look_up_def by (rule awp_err, rule awp_read) (use assms in auto)

text \<open>A step on the disk leaves the store as it is.\<close>

lemma awp_disk_seq:
  assumes "wlp F m R ER HR x" and "\<And>a x'. R a x' \<Longrightarrow> awp F (f a) Q E H d x'" and "\<And>e x'. ER e x' \<Longrightarrow> E (g e) d x'"
    and "\<And>x'. HR x' \<Longrightarrow> H d x'"
  shows "awp F (app_then (on_disk (wrap g m)) f) Q E H d x"
  by (rule awp_then [where R = "\<lambda>a d' x'. d' = d \<and> R a x'" and ER = "\<lambda>e d' x'. d' = d \<and> (\<exists>e'. e = g e' \<and> ER e' x')"
        and HR = "\<lambda>d' x'. d' = d \<and> HR x'"], rule awp_on_disk, rule wlp_wrap, rule wlp_mono [OF assms(1)])
    (use assms(2-4) in auto)

lemma awp_disk_try:
  assumes "wlp F m R ER HR x" and "\<And>a x'. R a x' \<Longrightarrow> awp F (f (Inr a)) Q E H d x'"
    and "\<And>e x'. ER e x' \<Longrightarrow> awp F (f (Inl e)) Q E H d x'" and "\<And>x'. HR x' \<Longrightarrow> H d x'"
  shows "awp F (app_then (app_try (on_disk m)) f) Q E H d x"
  by (rule awp_try [where R = "\<lambda>a d' x'. d' = d \<and> R a x'" and ER = "\<lambda>e d' x'. d' = d \<and> ER e x'"
        and HR = "\<lambda>d' x'. d' = d \<and> HR x'"], rule awp_on_disk, rule wlp_mono [OF assms(1)])
    (use assms(2-4) in auto)

lemma awp_enter:
  fixes d :: store
  assumes away: "unrelated (journal_path (dk_engine k) (dr_transaction_id r)) (en_blobs (dk_engine k))"
    "unrelated (journal_path (dk_engine k) (dr_transaction_id r)) (locate (dr_target_path r))"
  defines "C \<equiv> catalogued (dk_engine k) (installed r) d"
  shows "awp F (enter_in_catalog k r) (\<lambda>c d' x'. C d' x' \<and> (dp_deployment c = record_of (dc_skill_name (dp_deployment c)) (deployment_row_of (installed r))))
     (\<lambda>_ d' x'. d' = d \<and> x' = x) (\<lambda>d' x'. d' = d \<and> x' = x \<or> C d' x') d x"
  unfolding enter_in_catalog_def
proof (rule awp_disk_seq)
  let ?en = "dk_engine k" and ?v = "verifies (dk_engine k) (dr_snapshot_hash r) (dr_target_path r)"
  let ?D = "\<lambda>c :: deployment_record. c = record_of (dc_skill_name c) (deployment_row_of (installed r))"
  let ?Q = "\<lambda>c d' x'. C d' x' \<and> ?D (dp_deployment c)" and ?E = "\<lambda>(_ :: command_error) d' x'. d' = d \<and> x' = x" and ?H = "\<lambda>d' x'. d' = d \<and> x' = x \<or> C d' x'"
  show "wlp F (verify_path ?en (dr_snapshot_hash r) (dr_target_path r)) (\<lambda>_ x'. x' = x \<and> ?v x) (\<lambda>_ x'. x' = x) (\<lambda>x'. x' = x) x"
    unfolding verify_path_def by (rule wlp_query) (auto simp: verifies_def)
  fix v x1 assume "x1 = x \<and> ?v x"
  then have x1: "x1 = x" and v: "?v x" by auto
  let ?ack = "\<lambda>c. app_then (app_try (on_disk (acknowledge_catalog_commit ?en (dr_transaction_id r))))
      (\<lambda>a. app_give \<lparr>dp_deployment = c, dp_recovery_pending = \<not> is_ok a\<rparr>)"
  have moved: "C d' x'" if "C d' x" "tree.away (journal_path ?en (dr_transaction_id r)) x x'" for d' x'
    using that verifies_away [OF that(2) away] by (simp add: C_def catalogued_def installed_def)
  have ack: "awp F (?ack c) ?Q ?E ?H d' x" if c: "C d' x" "?D c" for c d'
    by (rule awp_disk_try [OF wlp_confinedI [OF confined_acknowledge]]) (use c moved in \<open>auto intro!: awp_give\<close>)
  have start: "C d' x \<and> ?D c" if "record_deployment (installed r) d = Inr (d', c)" for d' c
    using record_deployment_Inr [OF that] v by (simp add: C_def catalogued_def installed_def)
  show "awp F (app_then (ask_store (record_deployment (installed r))) ?ack) ?Q ?E ?H d x1" unfolding x1
    by (rule awp_then [OF awp_ask [where Q = "\<lambda>c d' x'. x' = x \<and> C d' x \<and> ?D c" and E = ?E and H = ?H]])
      (use start ack in auto)
qed auto

section \<open>Deploying\<close>

lemma wlp_anything: "wlp UNIV m (\<lambda>_ _. True) (\<lambda>_ _. True) (\<lambda>_. True) x"
  by (auto simp: wlp_def split: run.split)

lemma wlp_result:
  assumes "\<And>a x. wlp UNIV (f a) Q (\<lambda>_ _. True) (\<lambda>_. True) x"
  shows "wlp UNIV (do_then m f) Q (\<lambda>_ _. True) (\<lambda>_. True) x"
  by (rule wlp_seq [OF wlp_anything]) (use assms in auto)

text \<open>What a deployment returns, on whatever disk.\<close>

lemma wlp_deploy_request:
  "wlp UNIV (deploy en rq tx) (\<lambda>r _. validate_request rq = Inr ()
     \<and> (\<exists>b. r = deploy_result_of (in_phase DeployActivated (deploy_journal_for rq tx b)))) (\<lambda>_ _. True) (\<lambda>_. True) x"
proof -
  have settle: "wlp UNIV (settle en jp j) (\<lambda>r _. r = deploy_result_of (in_phase DeployActivated j)) (\<lambda>_ _. True) (\<lambda>_. True) x" for jp j x
    unfolding settle_def by (intro wlp_result wlp_give refl)
  have run: "wlp UNIV (deploy_transaction en jp j) (\<lambda>r _. r = deploy_result_of (in_phase DeployActivated j)) (\<lambda>_ _. True) (\<lambda>_. True) x" for jp j x
    unfolding deploy_transaction_def
  proof (rule wlp_result, rule wlp_result)
    fix staged :: "deploy_error + unit" and x
    show "wlp UNIV (case staged of Inl e \<Rightarrow> do_then (unstage en jp j) (\<lambda>_. raise e)
        | Inr _ \<Rightarrow> do_then (if dj_replaced_existing j then move_old en jp j else give ()) (\<lambda>_.
            do_then (activate en jp j) (\<lambda>_. settle en jp j)))
      (\<lambda>r _. r = deploy_result_of (in_phase DeployActivated j)) (\<lambda>_ _. True) (\<lambda>_. True) x"
      by (cases staged) (auto intro!: wlp_result wlp_raise settle)
  qed
  show ?thesis unfolding deploy_def
  proof (rule wlp_do_then, rule wlp_from_result)
    fix a assume "validate_request rq = Inr a"
    then show "wlp UNIV (do_then (ensure_directory_root (locate (rq_skill_root rq))) (\<lambda>_.
        do_then (exists_entry (path_join (rq_skill_root rq) (rq_directory_name rq))) (\<lambda>replaced.
        deploy_transaction en (journal_path en tx) (deploy_journal_for rq tx replaced))))
      (\<lambda>r _. validate_request rq = Inr () \<and> (\<exists>b. r = deploy_result_of (in_phase DeployActivated (deploy_journal_for rq tx b))))
      (\<lambda>_ _. True) (\<lambda>_. True) x"
      by (intro wlp_result wlp_mono [OF run]) auto
  qed simp
qed

text \<open>The skill folders of the profiles and the blob store lie apart from the journals.\<close>

definition roots_apart :: "engine \<Rightarrow> store \<Rightarrow> bool" where
  "roots_apart en d \<longleftrightarrow> unrelated (en_journals en) (en_blobs en)
     \<and> (\<forall>p \<in> set (profiles d). unrelated (en_journals en) (locate (pr_skill_root p)))"

lemma deploy_target:
  assumes "validate_request rq = Inr ()" and "unrelated l (locate (rq_skill_root rq))"
  shows "unrelated (l @ xs) (locate (path_join (rq_skill_root rq) (rq_directory_name rq)))"
proof -
  have root: "is_absolute (rq_skill_root rq)" and name: "valid_directory_name (rq_directory_name rq)"
    using assms(1) by (auto simp: validate_request_def and_then_Inr_iff ensure_Inr_iff)
  obtain c where c: "\<not> is_absolute (rq_directory_name rq)"
      "concat (map segment_component (split_on (CHR ''/'') (rq_directory_name rq))) = [Normal c]"
    using directory_name_component [OF name] .
  show ?thesis unfolding locate_child [OF root c]
    using tree.unrelated_inside [OF assms(2)] tree.unrelated_inside unrelated_sym by blast
qed

text \<open>The deployment \<open>q\<close> is one of the skill's content into the enabled profile.\<close>

definition asked_for :: "string \<Rightarrow> string \<Rightarrow> deployment_request \<Rightarrow> store \<Rightarrow> bool" where
  "asked_for skill profile q d \<longleftrightarrow> dq_skill_id q = skill \<and> dq_profile_id q = profile \<and> dq_state q = Installed \<and> dq_last_error q = None
     \<and> (\<exists>r \<in> set (skills d). \<exists>p \<in> set (profiles d). sk_id r = skill \<and> sk_sync_state r \<notin> {RemoteOnly, AccessRevoked, Corrupted}
        \<and> pr_id p = profile \<and> pr_enabled p \<and> dq_blob_hash q = sk_current_blob_hash r
        \<and> dq_target_path q = path_join (pr_skill_root p) (sk_slug r))"

definition deployed_row :: "engine \<Rightarrow> string \<Rightarrow> string \<Rightarrow> store \<Rightarrow> store \<Rightarrow> node \<Rightarrow> deployment_record \<Rightarrow> bool" where
  "deployed_row en skill profile d0 d x c \<longleftrightarrow> (\<exists>q. asked_for skill profile q d0 \<and> catalogued en q d0 d x \<and> c = record_of (dc_skill_name c) (deployment_row_of q))"

lemma get_skill_Inr:
  assumes "get_skill skill now d = Inr (d', s)"
  shows "deployments d' = deployments d" and "profiles d' = profiles d" and "mutations d' = mutations d"
    and "s = Some v \<Longrightarrow> \<exists>r \<in> set (skills d). sk_id r = skill \<and> v = local_skill_of r"
  using assms
  by (auto simp: get_skill_def and_then_Inr_iff exec_Inr_iff update_skills_def sql_find_def find_Some_iff split: option.split_asm)

text \<open>Reading a skill changes nothing but the time of its last access.\<close>

definition untouched :: "store \<Rightarrow> store \<Rightarrow> bool" where
  "untouched d d' \<longleftrightarrow> d'\<lparr>skills := []\<rparr> = d\<lparr>skills := []\<rparr>
     \<and> map (\<lambda>r. r\<lparr>sk_last_accessed_at := None\<rparr>) (skills d') = map (\<lambda>r. r\<lparr>sk_last_accessed_at := None\<rparr>) (skills d)"

interpretation reading: store_moves untouched
  by unfold_locales (auto simp: untouched_def)

lemma get_skill_untouched: "get_skill skill now d = Inr (d', s) \<Longrightarrow> untouched d d'"
  by (auto simp: get_skill_def and_then_Inr_iff exec_Inr_iff untouched_def update_skills_def sql_update_def split: option.split_asm)

lemma awp_read_skill:
  assumes "\<And>d' r. deployments d' = deployments d \<Longrightarrow> profiles d' = profiles d \<Longrightarrow> mutations d' = mutations d \<Longrightarrow> r \<in> set (skills d) \<Longrightarrow> sk_id r = skill
      \<Longrightarrow> untouched d d' \<Longrightarrow> awp F (f (local_skill_of r)) Q E H d' x"
    and "\<And>e d'. deployments d' = deployments d \<Longrightarrow> profiles d' = profiles d \<Longrightarrow> mutations d' = mutations d \<Longrightarrow> untouched d d' \<Longrightarrow> E e d' x" and "H d x"
  shows "awp F (app_then (read_skill k missing skill) f) Q E H d x"
proof -
  let ?R = "\<lambda>s d' x'. x' = x \<and> deployments d' = deployments d \<and> profiles d' = profiles d \<and> mutations d' = mutations d \<and> untouched d d'
      \<and> (\<exists>r \<in> set (skills d). sk_id r = skill \<and> s = local_skill_of r)"
    and ?E = "\<lambda>(_ :: command_error) d' x'. x' = x \<and> deployments d' = deployments d \<and> profiles d' = profiles d \<and> mutations d' = mutations d \<and> untouched d d'"
  have "awp F (read_skill k missing skill) ?R ?E (\<lambda>d' x'. x' = x \<and> d' = d) d x"
    unfolding read_skill_def
    by (rule awp_then [OF awp_ask [where Q = "\<lambda>s d' x'. x' = x \<and> get_skill skill (dk_now k) d = Inr (d', s)" and E = ?E
          and H = "\<lambda>d' x'. x' = x \<and> d' = d"]])
      (auto intro!: awp_result simp: reading.R_refl ok_or_Inr_iff get_skill_Inr(1-3) get_skill_untouched dest: get_skill_Inr(4))
  then show ?thesis by (rule awp_then) (use assms in auto)
qed

lemma awp_deploy_single:
  fixes skill profile :: string
  assumes apart: "roots_apart (dk_engine k) d"
  defines "D \<equiv> deployed_row (dk_engine k) skill profile d"
  shows "awp UNIV (deploy_single k tx skill profile) (\<lambda>c d' x'. D d' x' (dp_deployment c)) (\<lambda>_ d' _. deployments d' = deployments d \<and> profiles d' = profiles d)
     (\<lambda>d' x'. deployments d' = deployments d \<or> (\<exists>c. D d' x' c)) d x"
  unfolding deploy_single_def
proof (rule awp_read_skill)
  let ?Q = "\<lambda>c d' x'. D d' x' (dp_deployment c)" and ?E = "\<lambda>(_ :: command_error) d' (_ :: node). deployments d' = deployments d \<and> profiles d' = profiles d"
    and ?H = "\<lambda>d' x'. deployments d' = deployments d \<or> (\<exists>c. D d' x' c)"
  fix d1 :: store and r :: skill_row assume d1: "deployments d1 = deployments d" "profiles d1 = profiles d" and r: "r \<in> set (skills d)" "sk_id r = skill"
  let ?s = "local_skill_of r"
  have go: "awp UNIV (app_then (on_disk (wrap DeployFailed (deploy (dk_engine k) (deploy_request_for ?s p) tx))) (enter_in_catalog k)) ?Q ?E ?H d1 x"
    if p: "p \<in> set (profiles d)" "pr_id p = profile" "pr_enabled p" and state: "sk_sync_state r \<notin> {RemoteOnly, AccessRevoked, Corrupted}" for p
  proof (rule awp_disk_seq [OF wlp_deploy_request])
    let ?rq = "deploy_request_for ?s p"
    fix res x1 assume "validate_request ?rq = Inr () \<and> (\<exists>b. res = deploy_result_of (in_phase DeployActivated (deploy_journal_for ?rq tx b)))"
    then have valid: "validate_request ?rq = Inr ()" and res: "dr_transaction_id res = tx" "dr_target_path res = path_join (pr_skill_root p) (sk_slug r)"
        "dr_skill_id res = skill" "dr_profile_id res = profile" "dr_snapshot_hash res = sk_current_blob_hash r"
      by (auto simp: deploy_result_of_def deploy_journal_for_def deploy_request_for_def local_skill_of_def r p in_phase_def)
    have "unrelated (en_journals (dk_engine k)) (locate (rq_skill_root ?rq))" using apart p(1) by (simp add: roots_apart_def deploy_request_for_def)
    from deploy_target [OF valid this] have away: "unrelated (journal_path (dk_engine k) tx) (locate (dr_target_path res))"
      by (simp add: journal_path_def res deploy_request_for_def local_skill_of_def)
    have blobs: "unrelated (journal_path (dk_engine k) tx) (en_blobs (dk_engine k))"
      using apart by (simp add: roots_apart_def journal_path_def tree.unrelated_inside)
    have "asked_for skill profile (installed res) d"
      using r p state res by (auto simp: asked_for_def installed_def)
    moreover have "row_of a b d1 = row_of a b d" for a b by (simp add: row_of_def d1)
    ultimately have D: "D d' x' c" if "catalogued (dk_engine k) (installed res) d1 d' x'" "c = record_of (dc_skill_name c) (deployment_row_of (installed res))" for d' x' c
      using that unfolding D_def deployed_row_def catalogued_def by (auto simp: d1(2))
    have some: "\<exists>c. D d' x' c" if "catalogued (dk_engine k) (installed res) d1 d' x'" for d' x'
      using D [OF that, of "record_of [] (deployment_row_of (installed res))"] by auto
    show "awp UNIV (enter_in_catalog k res) ?Q ?E ?H d1 x1"
      by (rule awp_mono [OF awp_enter]) (use away blobs D some d1 in \<open>auto simp: res\<close>)
  qed (simp_all add: d1)
  show "awp UNIV (if ls_sync_state ?s \<in> {RemoteOnly, AccessRevoked, Corrupted} then app_raise (NotDeployable (ls_id ?s) (ls_sync_state ?s))
     else app_then (look_up (\<lambda>d. Inr (get_agent_profile profile d))) (\<lambda>found.
       app_then (app_result (ok_or found (NoSuchProfile profile))) (\<lambda>p.
       if \<not> pr_enabled p then app_raise (DisabledProfile (pr_id p))
       else app_then (on_disk (wrap DeployFailed (deploy (dk_engine k) (deploy_request_for ?s p) tx))) (enter_in_catalog k)))) ?Q ?E ?H d1 x"
  proof (cases "sk_sync_state r \<in> {RemoteOnly, AccessRevoked, Corrupted}")
    case False
    have "awp UNIV (app_then (app_result (ok_or found (NoSuchProfile profile))) (\<lambda>p.
       if \<not> pr_enabled p then app_raise (DisabledProfile (pr_id p))
       else app_then (on_disk (wrap DeployFailed (deploy (dk_engine k) (deploy_request_for ?s p) tx))) (enter_in_catalog k))) ?Q ?E ?H d1 x"
      if "found = get_agent_profile profile d" for found
      by (rule awp_then [OF awp_result [where Q = "\<lambda>p d' x'. d' = d1 \<and> x' = x \<and> p \<in> set (profiles d) \<and> pr_id p = profile"
            and E = ?E and H = ?H]])
        (use that False d1 in \<open>auto intro!: go awp_raise simp: get_agent_profile_def sql_find_def ok_or_def find_Some_iff split: option.split_asm\<close>)
    then show ?thesis using False d1
      by (auto simp: local_skill_of_def get_agent_profile_def intro!: awp_then [OF awp_look_up [where Q = "\<lambda>p d' x'. d' = d1 \<and> x' = x \<and> p = get_agent_profile profile d"
            and E = ?E and H = ?H]])
  qed (auto intro!: awp_raise simp: local_skill_of_def d1)
qed simp_all

lemma deployed_rowD:
  assumes "deployed_row en skill profile d e x c"
  shows "profiles e = profiles d" and "(s, p) \<noteq> (skill, profile) \<Longrightarrow> row_of s p e = row_of s p d"
    and "\<exists>row. row_of skill profile e = Some row \<and> c = record_of (dc_skill_name c) row \<and> de_state row = Installed
      \<and> verifies en (de_blob_hash row) (de_target_path row) x
      \<and> (\<exists>s \<in> set (skills d). \<exists>p \<in> set (profiles d). sk_id s = skill \<and> pr_id p = profile \<and> pr_enabled p
             \<and> sk_sync_state s \<notin> {RemoteOnly, AccessRevoked, Corrupted} \<and> de_blob_hash row = sk_current_blob_hash s
             \<and> de_target_path row = path_join (pr_skill_root p) (sk_slug s))"
proof -
  obtain q where q: "asked_for skill profile q d" "catalogued en q d e x" "c = record_of (dc_skill_name c) (deployment_row_of q)"
    using assms by (auto simp: deployed_row_def)
  then show "profiles e = profiles d" and "(s, p) \<noteq> (skill, profile) \<Longrightarrow> row_of s p e = row_of s p d"
    by (auto simp: asked_for_def catalogued_def)
  show "\<exists>row. row_of skill profile e = Some row \<and> c = record_of (dc_skill_name c) row \<and> de_state row = Installed
      \<and> verifies en (de_blob_hash row) (de_target_path row) x
      \<and> (\<exists>s \<in> set (skills d). \<exists>p \<in> set (profiles d). sk_id s = skill \<and> pr_id p = profile \<and> pr_enabled p
             \<and> sk_sync_state s \<notin> {RemoteOnly, AccessRevoked, Corrupted} \<and> de_blob_hash row = sk_current_blob_hash s
             \<and> de_target_path row = path_join (pr_skill_root p) (sk_slug s))"
    by (rule exI [of _ "deployment_row_of q"], intro conjI)
      (use q in \<open>auto simp: asked_for_def catalogued_def\<close>, auto simp: deployment_row_of_def)
qed

text \<open>C5: The catalog only says what is installed. Whatever a deployment command runs into, and wherever the
  process dies in it, the only catalog row it may have changed is that of its skill and profile; and if it
  has changed, it names the content the skill had, in the folder of the enabled profile, and at that very
  moment the target holds exactly that snapshot. A command that returned has changed it. The folders of the
  profiles and the blobs lie apart from the journals.\<close>

theorem catalog_rows_are_installed:
  assumes "roots_apart (dk_engine k) d" and run: "r = deploy_single k tx skill profile d w"
  defines "d' \<equiv> store_after r" and "holds \<equiv> \<lambda>row. \<exists>v. verify_materialized_snapshot (en_manifests (dk_engine k)) (en_sha (dk_engine k))
     (en_blobs (dk_engine k)) (de_blob_hash row) (locate (de_target_path row)) (disk (world_after r)) = Inr v"
  shows "((s, p) \<noteq> (skill, profile) \<longrightarrow> row_of s p d' = row_of s p d)
    \<and> (row_of skill profile d' = row_of skill profile d \<or> (\<exists>row. row_of skill profile d' = Some row \<and> de_state row = Installed \<and> holds row
        \<and> (\<exists>s \<in> set (skills d). \<exists>p \<in> set (profiles d). sk_id s = skill \<and> pr_id p = profile \<and> pr_enabled p
             \<and> sk_sync_state s \<notin> {RemoteOnly, AccessRevoked, Corrupted} \<and> de_blob_hash row = sk_current_blob_hash s
             \<and> de_target_path row = path_join (pr_skill_root p) (sk_slug s))))
    \<and> (case r of Returned c _ _ \<Rightarrow> \<exists>row. row_of skill profile d' = Some row \<and> holds row \<and> dp_deployment c = record_of (dc_skill_name (dp_deployment c)) row | _ \<Rightarrow> True)"
proof -
  let ?named = "\<lambda>row. \<exists>s \<in> set (skills d). \<exists>p \<in> set (profiles d). sk_id s = skill \<and> pr_id p = profile \<and> pr_enabled p
       \<and> sk_sync_state s \<notin> {RemoteOnly, AccessRevoked, Corrupted} \<and> de_blob_hash row = sk_current_blob_hash s
       \<and> de_target_path row = path_join (pr_skill_root p) (sk_slug s)"
  let ?P = "\<lambda>e x. ((s, p) \<noteq> (skill, profile) \<longrightarrow> row_of s p e = row_of s p d) \<and> (row_of skill profile e = row_of skill profile d
      \<or> (\<exists>row. row_of skill profile e = Some row \<and> de_state row = Installed \<and> verifies (dk_engine k) (de_blob_hash row) (de_target_path row) x \<and> ?named row))"
  have old: "?P e x" if "deployments e = deployments d" for e x using that by (simp add: row_of_def)
  have new: "?P e x" if "deployed_row (dk_engine k) skill profile d e x c" for e x c
    using deployed_rowD(2) [OF that, of s p] deployed_rowD(3) [OF that] by blast
  have told: "\<exists>row. row_of skill profile e = Some row \<and> verifies (dk_engine k) (de_blob_hash row) (de_target_path row) x \<and> c = record_of (dc_skill_name c) row"
    if "deployed_row (dk_engine k) skill profile d e x c" for e x c using deployed_rowD(3) [OF that] by blast
  note goal = awp_run [OF awp_deploy_single [OF assms(1)] run]
  have "?P d' (disk (world_after r))"
  proof (cases r)
    case (Returned c e w')
    with goal have "deployed_row (dk_engine k) skill profile d d' (disk (world_after r)) (dp_deployment c)"
      by (simp add: d'_def store_after_def world_after_def)
    then show ?thesis by (rule new)
  next
    case (Refused x e w')
    with goal have "deployments d' = deployments d" by (simp add: d'_def store_after_def)
    then show ?thesis by (rule old)
  next
    case (Died e w')
    with goal have "deployments d' = deployments d \<or> (\<exists>c. deployed_row (dk_engine k) skill profile d d' (disk (world_after r)) c)"
      by (simp add: d'_def store_after_def world_after_def)
    with old new show ?thesis by blast
  qed
  moreover have "case r of Returned c _ _ \<Rightarrow> \<exists>row. row_of skill profile d' = Some row
      \<and> verifies (dk_engine k) (de_blob_hash row) (de_target_path row) (disk (world_after r)) \<and> dp_deployment c = record_of (dc_skill_name (dp_deployment c)) row
    | _ \<Rightarrow> True"
    using goal by (cases r) (auto simp: d'_def store_after_def world_after_def dest: told)
  ultimately show ?thesis unfolding holds_def verifies_def by blast
qed

section \<open>Batches\<close>




end
