(* ===== verification/Workspace_Commands.thy ===== *)
theory Workspace_Commands
  imports Command_Safety Cache_Safety Captures
begin

text \<open>
  The commands on workspaces: what a commit queues is what the folder held, and a folder is removed only
  if it held what is synchronized. Both hold in every way the commands can end.
\<close>

section \<open>What a program never changes on the disk\<close>

definition stays :: "(node \<Rightarrow> bool) \<Rightarrow> ('e, 'a) app \<Rightarrow> bool" where
  "stays P m \<longleftrightarrow> (\<forall>F d x. P x \<longrightarrow> awp F m (\<lambda>_ _. P) (\<lambda>_ _. P) (\<lambda>_. P) d x)"

lemma staysD: "stays P m \<Longrightarrow> P x \<Longrightarrow> awp F m (\<lambda>_ _. P) (\<lambda>_ _. P) (\<lambda>_. P) d x"
  by (simp add: stays_def)

lemma stays_give: "stays P (app_give a)" and stays_raise: "stays P (app_raise e)" and stays_result: "stays P (app_result r)"
  by (auto simp: stays_def intro: awp_give awp_raise awp_result)

lemma stays_then: assumes "stays P m" and "\<And>a. stays P (f a)" shows "stays P (app_then m f)"
  unfolding stays_def by (intro allI impI, rule awp_then [OF staysD [OF assms(1)]]) (auto intro: staysD [OF assms(2)])

lemma stays_try: assumes "stays P m" shows "stays P (app_try m)"
  unfolding stays_def
proof (intro allI impI)
  fix F d x assume "P x"
  then show "awp F (app_try m) (\<lambda>_ _. P) (\<lambda>_ _. P) (\<lambda>_. P) d x"
    using staysD [OF assms, of x F d] unfolding awp_def app_try_def by (auto split: ending.splits)
qed

lemma stays_err: assumes "stays P m" shows "stays P (app_err g m)"
  unfolding stays_def by (intro allI impI, rule awp_err, rule staysD [OF assms])

lemma stays_on_disk: assumes "keeps P m" shows "stays P (on_disk m)"
  unfolding stays_def by (intro allI impI, rule awp_on_disk, rule keepsD [OF assms])

lemma stays_transact: "stays P (transact f)" and stays_read: "stays P (store_read g)"
  unfolding store_read_def by (auto simp: stays_def intro!: awp_transact)

lemmas stays_rules = stays_give stays_raise stays_result stays_then stays_try stays_err stays_on_disk stays_transact stays_read

section \<open>The cache stays in the blob store\<close>

lemma stays_cache:
  fixes env :: cache_env and x0 :: node
  defines "P \<equiv> kept_blobs env {} x0"
  shows "stays P (enforce_cache_budget env)"
proof -
  have delete: "keeps P (delete_blob env f e report)" for f e report unfolding P_def by (rule keeps_delete_blob) simp
  have "keeps P (release_closure env inventory skill hs (counts, report))" for inventory skill hs counts report
    by (induction hs arbitrary: counts report) (auto intro!: keeps_rules delete split: option.split simp: Let_def)
  then have release: "keeps P (release_closure env inventory skill hs st)" for inventory skill hs st by (cases st) simp
  have orphans: "keeps P (delete_orphans env budget counts es report)" for budget counts es report
    by (induction es arbitrary: report) (auto intro!: keeps_rules delete)
  have resolve: "keeps P (resolve_closures env hs rv)" for hs rv
    by (induction hs arbitrary: rv) (auto intro!: keeps_rules simp: closure_of_def split: sum.split)
  have evictable: "keeps P (evictable_closure deployed rv s)" for deployed rv s
    unfolding keeps_def by (intro allI impI, rule wlp_mono [OF wlp_evictable_closure [where P = P]]) auto
  have one: "stays P (evict_skill env deployed rv inventory s st)" for deployed rv inventory s st
    unfolding evict_skill_def by (cases st) (auto intro!: stays_rules evictable release split: option.split)
  have all: "stays P (evict_skills env budget deployed rv inventory cs st)" for budget deployed rv inventory cs st
    by (induction cs arbitrary: st) (auto intro!: stays_rules one)
  have "stays P (over_budget env budget ss ds payloads inventory report)" for budget ss ds payloads inventory report
    unfolding over_budget_def Let_def by (auto intro!: stays_rules all resolve orphans)
  then show ?thesis unfolding enforce_cache_budget_def Let_def
    by (auto intro!: stays_rules keeps_rules)
qed

text \<open>So it leaves everything outside.\<close>

lemma awp_cache_attempt:
  assumes "ce_root (dk_cache k) = root" and "unrelated root p"
  shows "awp F (cache_attempt k) (\<lambda>_ d' x'. by_commands eviction_claim d d' \<and> entry p x' = entry p x) (\<lambda>_ _ _. False)
     (\<lambda>d' x'. by_commands eviction_claim d d' \<and> entry p x' = entry p x) d x"
proof -
  let ?P = "kept_blobs (dk_cache k) {} x"
  have out: "entry p x' = entry p x" if "?P x'" for x'
  proof -
    have "unrelated (root @ [''sha256'']) p" using assms(2) tree.unrelated_inside by blast
    moreover have "tree.away (root @ [''sha256'']) x x'" using that assms(1) by (simp add: kept_blobs_def)
    ultimately show ?thesis by (rule tree.away_entry [rotated])
  qed
  have w: "awp F (cache_attempt k) (\<lambda>_ _. ?P) (\<lambda>_ _. ?P) (\<lambda>_. ?P) d x" unfolding cache_attempt_def
    by (rule staysD [OF stays_try [OF stays_cache]]) (simp add: kept_blobs_refl)
  have m: "command_moves.moves eviction_claim (cache_attempt k)" unfolding cache_attempt_def
    by (rule command_moves.moves_try [OF enforce_moves])
  have never: "\<forall>e d' w'. cache_attempt k d w \<noteq> Refused e d' w'" for w
    by (auto simp: cache_attempt_def app_try_def split: ending.split)
  show ?thesis unfolding awp_def
  proof (intro allI impI)
    fix s assume "set s \<subseteq> F"
    then show "case cache_attempt k d \<lparr>disk = x, schedule = s\<rparr> of
        Returned a d' w \<Rightarrow> set (schedule w) \<subseteq> F \<and> by_commands eviction_claim d d' \<and> entry p (disk w) = entry p x
      | Refused e d' w \<Rightarrow> set (schedule w) \<subseteq> F \<and> False
      | Died d' w \<Rightarrow> by_commands eviction_claim d d' \<and> entry p (disk w) = entry p x"
      using w [unfolded awp_def, rule_format, of s] never command_moves.movesD [OF m, of d "\<lparr>disk = x, schedule = s\<rparr>"] out
      by (cases "cache_attempt k d \<lparr>disk = x, schedule = s\<rparr>") (auto simp: store_after_def)
  qed
qed

section \<open>Capturing\<close>

abbreviation workspace_place :: "desktop \<Rightarrow> string \<Rightarrow> location" where
  "workspace_place k skill \<equiv> locate (folder_of (dk_hydrate k) skill)"

text \<open>The workspaces lie apart from the blobs, of which there is one store; and the workspace of the skill is a
  tree a file system can hold, whose manifest reads back from what has its digest.\<close>

definition workspace_ok :: "desktop \<Rightarrow> string \<Rightarrow> node \<Rightarrow> bool" where
  "workspace_ok k skill x \<longleftrightarrow> (\<forall>b. canonical_digest (ws_sha (dk_workspaces k) b)) \<and> ce_root (dk_cache k) = ws_blobs (dk_workspaces k)
     \<and> unrelated (workspace_place k skill) (ws_blobs (dk_workspaces k))
     \<and> (\<forall>n. entry (workspace_place k skill) x = Some n \<longrightarrow> wf_node n \<and> reads_back (ws_codec (dk_workspaces k)) (ws_sha (dk_workspaces k)) n)"

text \<open>\<open>held k skill x0 ref\<close>: the workspace is the snapshot \<open>ref\<close>, which the blob store could name once its blobs were added.\<close>

definition held :: "desktop \<Rightarrow> string \<Rightarrow> node \<Rightarrow> snapshot_ref \<Rightarrow> bool" where
  "held k skill x0 ref \<longleftrightarrow> (\<exists>x. blobs_grow (ws_sha (dk_workspaces k)) (ws_blobs (dk_workspaces k)) x0 x
     \<and> entry (workspace_place k skill) x = entry (workspace_place k skill) x0
     \<and> verify_materialized_snapshot (ws_codec (dk_workspaces k)) (ws_sha (dk_workspaces k)) (ws_blobs (dk_workspaces k))
          (sr_manifest_hash ref) (workspace_place k skill) x = Inr ref)"

lemma wlp_managed:
  "wlp F (get_workspace (dk_workspaces k) skill) (\<lambda>r x'. x' = x \<and> (\<forall>w. r = Some w \<longrightarrow> wr_path w = folder_of (dk_hydrate k) skill))
     (\<lambda>_ x'. x' = x) (\<lambda>x'. x' = x) x"
  unfolding get_workspace_def
  by (auto intro!: wlp_do_then wlp_from_result wlp_attempt wlp_metadata wlp_give wlp_raise simp: path_for_skill_def and_then_Inr_iff folder_of_def)

lemma awp_managed:
  assumes "\<And>r. (\<forall>w. r = Some w \<longrightarrow> wr_path w = folder_of (dk_hydrate k) skill) \<Longrightarrow> awp F (f r) Q E H d x"
    and "\<And>e. E e d x" and "H d x"
  shows "awp F (app_then (managed_workspace k skill) f) Q E H d x"
  unfolding managed_workspace_def by (rule awp_disk_seq [OF wlp_managed]) (use assms in auto)

lemma awp_capture:
  assumes ok: "workspace_ok k skill x" and w: "w = folder_of (dk_hydrate k) skill"
    and go: "\<And>ref x'. held k skill x ref \<Longrightarrow> entry (workspace_place k skill) x' = entry (workspace_place k skill) x \<Longrightarrow> awp F (f ref) Q E H d x'"
    and "\<And>e x'. entry (workspace_place k skill) x' = entry (workspace_place k skill) x \<Longrightarrow> E e d x'"
    and "\<And>x'. entry (workspace_place k skill) x' = entry (workspace_place k skill) x \<Longrightarrow> H d x'"
  shows "awp F (app_then (capture k uuids w) f) Q E H d x"
proof -
  let ?ws = "dk_workspaces k" and ?W = "workspace_place k skill"
  have same: "entry ?W x' = entry ?W x" if "blobs_grow (ws_sha ?ws) (ws_blobs ?ws) x x'" for x'
    using grown_outside [OF that, of ?W "[]"] ok by (simp add: workspace_ok_def)
  have c: "wlp F (capture_workspace (ws_codec ?ws) (ws_sha ?ws) (ws_blobs ?ws) w default_policy uuids)
     (\<lambda>ref x'. held k skill x ref \<and> entry ?W x' = entry ?W x) (\<lambda>_ x'. entry ?W x' = entry ?W x) (\<lambda>x'. entry ?W x' = entry ?W x) x"
    unfolding w
    by (rule wlp_mono [OF wlp_capture_workspace]) (use ok same in \<open>auto simp: workspace_ok_def held_def\<close>)
  show ?thesis unfolding capture_def Let_def by (rule awp_disk_seq [OF c]) (use assms(3-5) in auto)
qed

section \<open>Releasing\<close>

lemma wlp_remove_workspace:
  assumes "locate (folder_of env skill) \<noteq> []"
  shows "wlp F (remove_workspace (he_workspaces env) skill) (\<lambda>b x'. b \<longrightarrow> entry (locate (folder_of env skill)) x' = None) (\<lambda>_ _. True) (\<lambda>_. True) x"
proof -
  let ?p = "folder_of env skill"
  have "wlp F (remove_managed ?p) (\<lambda>_ x'. entry (locate ?p) x' = None) (\<lambda>_ _. True) (\<lambda>_. True) y" for y
    unfolding remove_managed_def by (rule wlp_wrap, rule wlp_mono [OF wlp_remove_any [OF assms]]) auto
  then have rest: "wlp F (do_then (remove_managed ?p) (\<lambda>_. do_then (sync_folder q) (\<lambda>_. give True)))
      (\<lambda>b x'. b \<longrightarrow> entry (locate ?p) x' = None) (\<lambda>_ _. True) (\<lambda>_. True) y" for q y
    by (rule wlp_seq) (auto intro!: wlp_give wlp_keeps_seq [OF keeps_sync_folder, where P = "\<lambda>x'. entry (locate ?p) x' = None"])
  show ?thesis unfolding remove_workspace_def
    by (auto intro!: wlp_do_then wlp_from_result wlp_attempt wlp_metadata wlp_give wlp_raise rest [unfolded folder_of_def]
        simp: path_for_skill_def and_then_Inr_iff folder_of_def)
qed

text \<open>The skill is synchronized, its workspace is this one, and the workspace held its synchronized content.\<close>

definition synchronized_copy :: "desktop \<Rightarrow> string \<Rightarrow> store \<Rightarrow> node \<Rightarrow> bool" where
  "synchronized_copy k skill d x \<longleftrightarrow> (\<exists>s \<in> set (skills d). \<exists>ref. sk_id s = skill \<and> sk_sync_state s = Synced \<and> sk_remote_id s \<noteq> None
     \<and> path_eq (folder_of (dk_hydrate k) skill) (sk_workspace_path s) \<and> held k skill x ref \<and> sr_manifest_hash ref = sk_current_blob_hash s)"

lemma awp_release_found:
  fixes d0 :: store
  assumes ok: "workspace_ok k skill x" and s: "s \<in> set (skills d0)" "sk_id s = skill" "releasable (local_skill_of s)"
    and w: "wr_path w = folder_of (dk_hydrate k) skill"
  defines "K \<equiv> \<lambda>x'. entry (workspace_place k skill) x' = entry (workspace_place k skill) x \<or> synchronized_copy k skill d0 x"
  shows "awp F (release_found k uuids skill (local_skill_of s) w)
     (\<lambda>b _ x'. K x' \<and> (b \<longrightarrow> entry (workspace_place k skill) x' = None \<and> synchronized_copy k skill d0 x)) (\<lambda>_ _. K) (\<lambda>_. K) d x"
proof (cases "path_eq (wr_path w) (ls_workspace_path (local_skill_of s))")
  case True
  let ?Q = "\<lambda>b (_ :: store) x'. K x' \<and> (b \<longrightarrow> entry (workspace_place k skill) x' = None \<and> synchronized_copy k skill d0 x)"
  have place: "workspace_place k skill \<noteq> []" using ok by (auto simp: workspace_ok_def unrelated_def)
  have remove: "awp F (on_disk (wrap WorkspaceFailed (remove_workspace (dk_workspaces k) skill))) ?Q (\<lambda>_ _. K) (\<lambda>_. K) d x'"
    if "held k skill x ref" and "sr_manifest_hash ref = ls_current_blob_hash (local_skill_of s)" for ref x'
  proof (rule awp_on_disk, rule wlp_wrap, rule wlp_mono [OF wlp_remove_workspace [OF place]])
    have "synchronized_copy k skill d0 x"
      using that s True w by (auto simp: synchronized_copy_def releasable_def local_skill_of_def)
    then show "b \<longrightarrow> entry (workspace_place k skill) y = None \<Longrightarrow> K y \<and> (b \<longrightarrow> entry (workspace_place k skill) y = None \<and> synchronized_copy k skill d0 x)"
      and "K y" and "K y" for b y by (auto simp: K_def)
  qed
  show ?thesis unfolding release_found_def using True
    by (auto intro!: awp_capture [OF ok w] awp_raise remove [unfolded K_def] simp: K_def)
next
  case False
  then show ?thesis by (auto simp: release_found_def K_def intro: awp_raise)
qed

lemma awp_release:
  fixes d :: store
  assumes ok: "workspace_ok k skill x"
  defines "K \<equiv> \<lambda>x'. entry (workspace_place k skill) x' = entry (workspace_place k skill) x \<or> synchronized_copy k skill d x"
  shows "awp F (release_skill_workspace k uuids skill)
     (\<lambda>r _ x'. K x' \<and> (rl_released r \<longrightarrow> entry (workspace_place k skill) x' = None \<and> synchronized_copy k skill d x)) (\<lambda>_ _. K) (\<lambda>_. K) d x"
  unfolding release_skill_workspace_def
proof (rule awp_read_skill)
  let ?W = "workspace_place k skill"
  let ?G = "\<lambda>b x'. K x' \<and> (b \<longrightarrow> entry ?W x' = None \<and> synchronized_copy k skill d x)"
  have K: "K x" by (simp add: K_def)
  have W: "ce_root (dk_cache k) = ws_blobs (dk_workspaces k)" "unrelated (ws_blobs (dk_workspaces k)) ?W"
    using ok unrelated_sym by (auto simp: workspace_ok_def)
  have cache: "awp F (app_then (cache_attempt k) (\<lambda>cache. app_give \<lparr>rl_released = b, rl_cache = cache\<rparr>))
      (\<lambda>r _. ?G (rl_released r)) (\<lambda>_ _. K) (\<lambda>_. K) d' x'" if "?G b x'" for b d' x'
    by (rule awp_then [OF awp_cache_attempt [OF W]]) (use that in \<open>auto simp: K_def intro!: awp_give\<close>)
  fix d1 :: store and s assume s: "s \<in> set (skills d)" "sk_id s = skill"
  let ?found = "\<lambda>found. case found of None \<Rightarrow> app_give False | Some w \<Rightarrow> release_found k uuids skill (local_skill_of s) w"
  have found: "awp F (?found r) (\<lambda>b _. ?G b) (\<lambda>_ _. K) (\<lambda>_. K) d1 x"
    if "releasable (local_skill_of s)" "\<forall>w. r = Some w \<longrightarrow> wr_path w = folder_of (dk_hydrate k) skill" for r
    using that awp_release_found [OF ok s that(1), folded K_def]
    by (cases r) (auto simp: K_def intro: awp_give)
  show "awp F (if \<not> releasable (local_skill_of s) then app_raise (NotReleasable skill)
     else app_then (managed_workspace k skill) (\<lambda>r. app_then (?found r) (\<lambda>released.
       app_then (cache_attempt k) (\<lambda>cache. app_give \<lparr>rl_released = released, rl_cache = cache\<rparr>))))
      (\<lambda>r _. ?G (rl_released r)) (\<lambda>_ _. K) (\<lambda>_. K) d1 x"
  proof (cases "releasable (local_skill_of s)")
    case True
    have "awp F (app_then (?found r) (\<lambda>released. app_then (cache_attempt k) (\<lambda>cache. app_give \<lparr>rl_released = released, rl_cache = cache\<rparr>)))
      (\<lambda>r _. ?G (rl_released r)) (\<lambda>_ _. K) (\<lambda>_. K) d1 x" if "\<forall>w. r = Some w \<longrightarrow> wr_path w = folder_of (dk_hydrate k) skill" for r
      by (rule awp_then [OF found [OF True that]]) (auto intro: cache)
    then show ?thesis using True K by (auto intro!: awp_managed)
  qed (simp add: awp_raise K)
qed (simp_all add: K_def)

text \<open>C8: Nothing is released that is not synchronized. Whatever fails and wherever the process dies in it, a
  release leaves the workspace folder of the skill exactly as it was, unless the store had the skill as
  synchronized, with an id on the server and with this folder as its workspace, and what the folder held was
  exactly the snapshot the store names as its content; and a release that says so has removed the folder.\<close>

theorem released_workspaces_are_synchronized:
  assumes "workspace_ok k skill (disk w)" and run: "r = release_skill_workspace k uuids skill d w"
  defines "W \<equiv> locate (folder_of (dk_hydrate k) skill)"
  defines "synchronized \<equiv> \<exists>s \<in> set (skills d). \<exists>ref. sk_id s = skill \<and> sk_sync_state s = Synced \<and> sk_remote_id s \<noteq> None
     \<and> path_eq (folder_of (dk_hydrate k) skill) (sk_workspace_path s) \<and> held k skill (disk w) ref \<and> sr_manifest_hash ref = sk_current_blob_hash s"
  shows "(entry W (disk (world_after r)) = entry W (disk w) \<or> synchronized)
    \<and> (case r of Returned a _ _ \<Rightarrow> rl_released a \<longrightarrow> entry W (disk (world_after r)) = None \<and> synchronized | _ \<Rightarrow> True)"
proof -
  have "synchronized = synchronized_copy k skill d (disk w)" by (simp add: synchronized_def synchronized_copy_def)
  then show ?thesis using awp_run [OF awp_release [OF assms(1)] run]
    by (cases r) (auto simp: W_def world_after_def)
qed

section \<open>Committing\<close>

lemma eviction_kept: "by_commands eviction_claim d d' \<Longrightarrow> mutations d' = mutations d"
proof -
  have "list_all eviction_claim cmds \<Longrightarrow> mutations (run_steps store_step cmds d) = mutations d" for cmds
  proof (induction cmds arbitrary: d)
    case (Cons c cmds)
    then obtain skill expected now where c: "c = ClaimEviction skill expected now" by (cases c) auto
    have "mutations e = mutations d" if "store_step c d = Inr e" for e
      using that by (auto simp: c claim_skill_for_eviction_def result_simps Let_def update_skills_def dest!: without_answer_Inr)
    with Cons show ?case by (auto split: sum.split)
  qed simp
  then show "by_commands eviction_claim d d' \<Longrightarrow> mutations d' = mutations d" by (auto simp: by_commands_def)
qed

text \<open>The edit of the request, with \<open>ref\<close> as its content, is the newest mutation of the queue.\<close>

definition queued_edit :: "desktop \<Rightarrow> string \<Rightarrow> commit_request \<Rightarrow> store \<Rightarrow> snapshot_ref \<Rightarrow> store \<Rightarrow> bool" where
  "queued_edit k m q d ref d' \<longleftrightarrow> (\<exists>seq. mutations d' = mutations d @ [queued_row m (cq_skill_id q) seq (cq_operation q)
     (cq_base_revision q) (sr_manifest_hash ref) (dk_now k)])"

lemma commit_queues:
  assumes "commit_skill_edit (edit_of q w ref) m (dk_now k) d = Inr (d', a)"
  shows "queued_edit k m q d ref d'"
  using assms by (auto simp: commit_skill_edit_def result_simps Let_def queued_edit_def edit_of_def insert_mutation_def upsert_edited_skill_def)

lemma queued_edit_same: "queued_edit k m q d ref d' \<Longrightarrow> mutations e = mutations d' \<Longrightarrow> queued_edit k m q d ref e"
  by (simp add: queued_edit_def)

lemma awp_commit:
  fixes d :: store and m :: string
  assumes ok: "workspace_ok k (cq_skill_id q) x"
  defines "W \<equiv> workspace_place k (cq_skill_id q)"
  defines "I \<equiv> \<lambda>d' x'. entry W x' = entry W x \<and> (mutations d' = mutations d \<or> (\<exists>ref. held k (cq_skill_id q) x ref \<and> queued_edit k m q d ref d'))"
  shows "awp F (commit_local_skill_workspace k m uuids q)
     (\<lambda>c d' x'. I d' x' \<and> held k (cq_skill_id q) x (co_snapshot c) \<and> queued_edit k m q d (co_snapshot c) d') (\<lambda>_. I) I d x"
proof (cases "cq_operation q = Delete")
  case False
  let ?Q = "\<lambda>c d' x'. I d' x' \<and> held k (cq_skill_id q) x (co_snapshot c) \<and> queued_edit k m q d (co_snapshot c) d'"
  have place: "ce_root (dk_cache k) = ws_blobs (dk_workspaces k)" "unrelated (ws_blobs (dk_workspaces k)) W"
    using ok unrelated_sym by (auto simp: workspace_ok_def W_def)
  have cache: "awp F (app_then (cache_attempt k) (\<lambda>cache. app_give \<lparr>co_skill = s, co_snapshot = ref, co_mutation = mu, co_cache = cache\<rparr>)) ?Q (\<lambda>_. I) I d' x'"
    if "held k (cq_skill_id q) x ref" "queued_edit k m q d ref d'" "entry W x' = entry W x" for s ref mu d' x'
    by (rule awp_then [OF awp_cache_attempt [OF place]])
      (use that in \<open>auto simp: I_def intro!: awp_give dest!: eviction_kept intro: queued_edit_same\<close>)
  have reread: "awp F (app_then (read_skill k SkillDisappeared (cq_skill_id q)) (\<lambda>s. app_then (cache_attempt k) (\<lambda>cache.
      app_give \<lparr>co_skill = s, co_snapshot = ref, co_mutation = mu, co_cache = cache\<rparr>))) ?Q (\<lambda>_. I) I d' x'"
    if "held k (cq_skill_id q) x ref" "queued_edit k m q d ref d'" "entry W x' = entry W x" for ref mu d' x'
  proof (rule awp_read_skill)
    fix d1 :: store and r assume "mutations d1 = mutations d'"
    then show "awp F (app_then (cache_attempt k) (\<lambda>cache. app_give \<lparr>co_skill = local_skill_of r, co_snapshot = ref, co_mutation = mu, co_cache = cache\<rparr>)) ?Q (\<lambda>_. I) I d1 x'"
      by (intro cache that(1,3) queued_edit_same [OF that(2)])
  next
    fix e and d1 :: store assume "mutations d1 = mutations d'"
    then show "I d1 x'" using that queued_edit_same [OF that(2)] by (auto simp: I_def)
  qed (use that in \<open>auto simp: I_def\<close>)
  have commit: "awp F (app_then (ask_store (commit_skill_edit (edit_of q w ref) m (dk_now k))) (\<lambda>mu.
      app_then (read_skill k SkillDisappeared (cq_skill_id q)) (\<lambda>s. app_then (cache_attempt k) (\<lambda>cache.
      app_give \<lparr>co_skill = s, co_snapshot = ref, co_mutation = mu, co_cache = cache\<rparr>)))) ?Q (\<lambda>_. I) I d x'"
    if "held k (cq_skill_id q) x ref" "entry W x' = entry W x" for w ref x'
  proof (rule awp_then [OF awp_ask [where Q = "\<lambda>_ d' y. y = x' \<and> queued_edit k m q d ref d'" and E = "\<lambda>_ d' y. y = x' \<and> d' = d" and H = "\<lambda>d' y. y = x' \<and> d' = d"]])
    fix mu d1 y assume "y = x' \<and> queued_edit k m q d ref d1"
    then show "awp F (app_then (read_skill k SkillDisappeared (cq_skill_id q)) (\<lambda>s. app_then (cache_attempt k) (\<lambda>cache.
        app_give \<lparr>co_skill = s, co_snapshot = ref, co_mutation = mu, co_cache = cache\<rparr>))) ?Q (\<lambda>_. I) I d1 y"
      using reread [OF that(1) _ that(2)] by simp
  qed (use that in \<open>auto dest: commit_queues simp: I_def\<close>)
  have "awp F (app_then (app_result (ok_or found (WorkspaceNotFound (cq_skill_id q)))) (\<lambda>w.
        app_then (capture k uuids (wr_path w)) (\<lambda>ref.
        app_then (ask_store (commit_skill_edit (edit_of q w ref) m (dk_now k))) (\<lambda>mu.
        app_then (read_skill k SkillDisappeared (cq_skill_id q)) (\<lambda>s. app_then (cache_attempt k) (\<lambda>cache.
        app_give \<lparr>co_skill = s, co_snapshot = ref, co_mutation = mu, co_cache = cache\<rparr>)))))) ?Q (\<lambda>_. I) I d x"
    if "\<forall>w. found = Some w \<longrightarrow> wr_path w = folder_of (dk_hydrate k) (cq_skill_id q)" for found
    by (rule awp_then [OF awp_result [where Q = "\<lambda>w d' y. d' = d \<and> y = x \<and> wr_path w = folder_of (dk_hydrate k) (cq_skill_id q)"
          and E = "\<lambda>_ d' y. d' = d \<and> y = x" and H = "\<lambda>d' y. d' = d \<and> y = x"]])
      (use that in \<open>auto intro!: awp_capture [OF ok] commit [unfolded W_def] simp: ok_or_Inr_iff\<close>, auto simp: I_def W_def)
  then show ?thesis unfolding commit_local_skill_workspace_def using False
    by (auto intro!: awp_managed) (simp_all add: I_def)
qed (auto simp: commit_local_skill_workspace_def I_def intro: awp_raise)

text \<open>C9: What is queued is what was on the disk. Whatever fails and wherever the process dies in it, a commit
  leaves the workspace folder as it was, and the queue either as it was or with exactly one mutation more at
  its end: the edit asked for, whose payload is a snapshot the folder held, to the last byte. A commit that
  returned has queued it, and its result names that snapshot.\<close>

theorem committed_edits_are_what_was_on_disk:
  assumes "workspace_ok k (cq_skill_id q) (disk w)" and run: "r = commit_local_skill_workspace k m uuids q d w"
  defines "W \<equiv> locate (folder_of (dk_hydrate k) (cq_skill_id q))"
    and "queued \<equiv> \<lambda>ref d'. held k (cq_skill_id q) (disk w) ref \<and> (\<exists>seq. mutations d' = mutations d @
      [queued_row m (cq_skill_id q) seq (cq_operation q) (cq_base_revision q) (sr_manifest_hash ref) (dk_now k)])"
  shows "entry W (disk (world_after r)) = entry W (disk w)
    \<and> (mutations (store_after r) = mutations d \<or> (\<exists>ref. queued ref (store_after r)))
    \<and> (case r of Returned c d' _ \<Rightarrow> queued (co_snapshot c) d' | _ \<Rightarrow> True)"
proof -
  have "queued ref d' \<longleftrightarrow> held k (cq_skill_id q) (disk w) ref \<and> queued_edit k m q d ref d'" for ref d'
    by (simp add: queued_def queued_edit_def)
  then show ?thesis using awp_run [OF awp_commit [OF assms(1)] run]
    by (cases r) (auto simp: W_def world_after_def store_after_def)
qed

end
