(* ===== verification/Startup.thy ===== *)
theory Startup
  imports Commands Uninstall_Command
begin

text \<open>
  What \<open>lib.rs\<close> does when the program starts: what an earlier run left in flight is queued again, leases
  that ran out are revoked, the engines finish or undo their transactions, the catalog is replayed from
  the deployment journals, the uninstalls are reconciled with the catalog, the agents are looked for and
  the cache is brought under its budget. The database is open; \<open>sp_reconcile\<close> says which of its calls
  fail while the uninstalls are reconciled. The worker's own handles, the window and the log are left out.
\<close>

record startup_env =
  sp_desktop :: desktop
  sp_uninstaller :: uninstaller
  sp_registry :: "adapter list"
  sp_reconcile :: sqlite_faults
  sp_display :: display_instant
  sp_instant :: int
  sp_store_text :: "store_error \<Rightarrow> string"

section \<open>Replaying the catalog\<close>

datatype replay_failure =
  RecoveredMismatch string string verify_error
| ReplayFailed string store_error
| AckFailed string deploy_error

definition replay_verified :: "desktop \<Rightarrow> deploy_result \<Rightarrow> ('e, replay_failure list) app" where
  "replay_verified k c =
     app_then (app_try (transact (record_deployment (installed c)))) (\<lambda>recorded. case recorded of
       Inl e \<Rightarrow> app_give [ReplayFailed (dr_transaction_id c) e]
     | Inr _ \<Rightarrow>
         app_then (app_try (on_disk (acknowledge_catalog_commit (dk_engine k) (dr_transaction_id c)))) (\<lambda>acknowledged. case acknowledged of
           Inl e \<Rightarrow> app_give [AckFailed (dr_transaction_id c) e]
         | Inr _ \<Rightarrow> app_give []))"

definition replay_commit :: "desktop \<Rightarrow> deploy_result \<Rightarrow> ('e, replay_failure list) app" where
  "replay_commit k c =
     app_then (app_try (on_disk (verify_path (dk_engine k) (dr_snapshot_hash c) (dr_target_path c)))) (\<lambda>verified. case verified of
       Inl e \<Rightarrow> app_give [RecoveredMismatch (dr_transaction_id c) (dr_snapshot_hash c) e]
     | Inr _ \<Rightarrow> replay_verified k c)"

fun replay_commits :: "desktop \<Rightarrow> deploy_result list \<Rightarrow> ('e, replay_failure list) app" where
  "replay_commits k [] = app_give []"
| "replay_commits k (c # cs) =
     app_then (replay_commit k c) (\<lambda>failed. app_then (replay_commits k cs) (\<lambda>more_failed. app_give (failed @ more_failed)))"

section \<open>Looking for agents\<close>

definition append_discovery_error :: "string \<Rightarrow> discovery_result \<Rightarrow> discovery_result" where
  "append_discovery_error e r = r\<lparr>dr_error := Some (case dr_error r of Some existing \<Rightarrow> existing @ ''; '' @ e | None \<Rightarrow> e)\<rparr>"

definition detected_profile :: "agent_instance \<Rightarrow> bool \<Rightarrow> upsert_profile" where
  "detected_profile i enabled = \<lparr>up_id = ai_id i, up_descriptor_id = ai_descriptor_id i, up_display_name = ai_display_name i,
     up_skill_root = ai_skill_root i, up_enabled = enabled, up_is_custom = False\<rparr>"

definition reconcile_instance :: "startup_env \<Rightarrow> agent_instance \<Rightarrow> discovery_result \<Rightarrow> (store_error, discovery_result) app" where
  "reconcile_instance env i r = (let k = sp_desktop env in
     app_then (store_read (\<lambda>d. Inr (get_agent_profile (ai_id i) d))) (\<lambda>existing.
     if (case existing of Some p \<Rightarrow> pr_is_custom p | None \<Rightarrow> False) then
       app_give (append_discovery_error
         (''detected built-in profile '' @ ai_id i @ '' collides with a persisted custom profile'') r)
     else
       let enabled = (case existing of Some p \<Rightarrow> pr_enabled p | None \<Rightarrow> True) in
       app_then (app_try (see_disk (\<lambda>x. transact (upsert_agent_profile (agents_on (dk_import k) x) (detected_profile i enabled))))) (\<lambda>saved.
       app_give (case saved of
         Inl e \<Rightarrow> append_discovery_error (''failed to reconcile profile '' @ ai_id i @ '': '' @ sp_store_text env e) r
       | Inr _ \<Rightarrow> r))))"

fun reconcile_instances :: "startup_env \<Rightarrow> agent_instance list \<Rightarrow> discovery_result \<Rightarrow> (store_error, discovery_result) app" where
  "reconcile_instances env [] r = app_give r"
| "reconcile_instances env (i # is) r = app_then (reconcile_instance env i r) (reconcile_instances env is)"

fun reconcile_results :: "startup_env \<Rightarrow> discovery_result list \<Rightarrow> (store_error, discovery_result list) app" where
  "reconcile_results env [] = app_give []"
| "reconcile_results env (r # rs) =
     app_then (reconcile_instances env (dr_instances r) r) (\<lambda>r.
     app_then (reconcile_results env rs) (\<lambda>rs. app_give (r # rs)))"

text \<open>A custom profile is reported as it is stored, if its folder may still be used.\<close>

definition custom_result :: "agent_env \<Rightarrow> profile_row \<Rightarrow> discovery_result" where
  "custom_result env p = (let valid = validate_skill_root env (pr_skill_root p) in
     \<lparr>dr_descriptor = \<lparr>ad_id = pr_descriptor_id p, ad_display_name = pr_display_name p, ad_kind = Custom\<rparr>,
      dr_instances = (case valid of
          Inr _ \<Rightarrow> [\<lparr>ai_id = pr_id p, ai_descriptor_id = pr_descriptor_id p, ai_display_name = pr_display_name p,
            ai_skill_root = pr_skill_root p, ai_enabled = pr_enabled p, ai_detected = True,
            ai_skill_root_exists = (ev_stat env (pr_skill_root p) = Directory)\<rparr>]
        | Inl _ \<Rightarrow> []),
      dr_error = (case valid of Inl e \<Rightarrow> Some (agent_error_text e) | Inr _ \<Rightarrow> None)\<rparr>)"

definition discover_and_reconcile_agents :: "startup_env \<Rightarrow> (store_error, discovery_result list) app" where
  "discover_and_reconcile_agents env = see_disk (\<lambda>x. let agents = agents_on (dk_import (sp_desktop env)) x in
     app_then (reconcile_results env (discover_all agents (sp_registry env))) (\<lambda>detected.
     app_then (store_read (\<lambda>d. Inr (list_agent_profiles d))) (\<lambda>stored.
     app_give (detected @ map (custom_result agents) (filter pr_is_custom stored)))))"

section \<open>Starting\<close>

datatype startup_error =
  StartStore store_error
| StartBlobs blob_error
| StartWorkspaces workspace_error
| StartDeployments deploy_error
| StartUninstalls uninstall_error

record startup_status =
  ss_local_store :: health_report
  ss_recovered_in_flight :: nat
  ss_deployment_recovery :: recovery_report
  ss_replay_failed :: "replay_failure list"
  ss_uninstall_recovery :: "uninstall_error + startup_report"
  ss_agent_errors :: "string list"
  ss_expired_entitlements :: "string list"
  ss_cache :: "cache_error + cache_report"

definition at_store :: "(store \<Rightarrow> ('e, 'a) app) \<Rightarrow> ('e, 'a) app" where
  "at_store f d w = f d d w"

definition open_stores :: "startup_env \<Rightarrow> (startup_error, unit) app" where
  "open_stores env = (let k = sp_desktop env in
     app_then (on_disk (wrap StartBlobs (open_blob_store (ws_blobs (dk_workspaces k))))) (\<lambda>_.
     app_then (on_disk (wrap StartWorkspaces (open_workspaces (dk_workspaces k)))) (\<lambda>_.
     app_then (on_disk (wrap StartDeployments (open_engine (dk_engine k)))) (\<lambda>_.
     on_disk (wrap StartUninstalls (open_uninstaller (sp_uninstaller env)))))))"

definition reconcile_uninstalls :: "startup_env \<Rightarrow> ('e, uninstall_error + startup_report) app" where
  "reconcile_uninstalls env =
     app_try (at_store (\<lambda>d. on_disk (reconcile_uninstall_recovery (sp_uninstaller env) (sp_reconcile env) d)))"

definition agent_errors :: "discovery_result list \<Rightarrow> string list" where
  "agent_errors rs = List.map_filter (\<lambda>r. map_option (\<lambda>e. ad_id (dr_descriptor r) @ '': '' @ e) (dr_error r)) rs"

text \<open>Everything after \<open>requeued\<close> mutations in flight were found.\<close>

definition after_requeue :: "startup_env \<Rightarrow> nat \<Rightarrow> (startup_error, startup_status) app" where
  "after_requeue env requeued = (let k = sp_desktop env in
     app_then (app_err StartStore (transact (expire_due_entitlements (sp_display env) (sp_instant env) (dk_now k)))) (\<lambda>expired.
     app_then (open_stores env) (\<lambda>_.
     app_then (on_disk (wrap StartDeployments (recover_incomplete (dk_engine k)))) (\<lambda>recovery.
     app_then (replay_commits k (rr_catalog_commits recovery)) (\<lambda>replay_failed.
     app_then (reconcile_uninstalls env) (\<lambda>uninstalls.
     app_then (app_err StartStore (discover_and_reconcile_agents env)) (\<lambda>agents.
     app_then (app_try (enforce_cache_budget (dk_cache k))) (\<lambda>cache.
     app_then (app_err StartStore (store_read (\<lambda>d. Inr (health d)))) (\<lambda>local_store.
     app_give \<lparr>ss_local_store = local_store, ss_recovered_in_flight = requeued, ss_deployment_recovery = recovery,
       ss_replay_failed = replay_failed, ss_uninstall_recovery = uninstalls, ss_agent_errors = agent_errors agents,
       ss_expired_entitlements = expired, ss_cache = cache\<rparr>)))))))))"

definition startup :: "startup_env \<Rightarrow> (startup_error, startup_status) app" where
  "startup env =
     app_then (app_err StartStore (transact (recover_in_flight_mutations (dk_now (sp_desktop env))))) (after_requeue env)"

text \<open>The command \<open>discover_agents\<close>\<close>

definition discover_agents :: "startup_env \<Rightarrow> (command_error, discovery_result list) app" where
  "discover_agents env = app_err StoreFailed (discover_and_reconcile_agents env)"

end
