(* ===== verification/Startup_Safety.thy ===== *)
theory Startup_Safety
  imports Startup Workspace_Commands
begin

text \<open>
  What a start leaves behind: no mutation is in flight any more and the queue is otherwise as it was, and
  a deployment journal is given up only for a row in the catalog whose target verifies.
\<close>

section \<open>The queue\<close>

interpretation queue_kept: store_moves "\<lambda>d d'. mutations d' = mutations d"
  by unfold_locales simp_all

lemma queue_kept_see: "(\<And>x. queue_kept.moves (f x)) \<Longrightarrow> queue_kept.moves (see_disk f)"
  and queue_kept_at: "(\<And>d. queue_kept.moves (g d)) \<Longrightarrow> queue_kept.moves (at_store g)"
  by (simp_all add: queue_kept.moves_def see_disk_def at_store_def)

lemma queue_kept_record: "queue_kept.moves (transact (record_deployment q))"
  by (rule queue_kept.moves_transact) (auto simp: record_deployment_def result_simps)

lemma queue_kept_upsert: "queue_kept.moves (transact (upsert_agent_profile a p))"
  by (rule queue_kept.moves_transact) (auto simp: upsert_agent_profile_def result_simps split: option.split_asm if_splits)

lemma expire_loop_queue: "expire_loop now is d = Inr d' \<Longrightarrow> mutations d' = mutations d"
  by (induction now "is" d rule: expire_loop.induct) (auto simp: result_simps update_skills_def update_deployments_def)

lemma queue_kept_expire: "queue_kept.moves (transact (expire_due_entitlements display instant now))"
  by (rule queue_kept.moves_transact) (auto simp: expire_due_entitlements_def result_simps Let_def dest: expire_loop_queue)

lemma queue_kept_cache: "queue_kept.moves (enforce_cache_budget env)"
  using enforce_moves [of env] eviction_kept by (simp add: queue_kept.moves_def command_moves.moves_def)

lemma queue_kept_replay: "queue_kept.moves (replay_commits k cs)"
proof (induction cs)
  case (Cons c cs)
  have "queue_kept.moves (replay_verified k c)" unfolding replay_verified_def
    by (intro queue_kept.moves_then queue_kept.moves_try queue_kept_record) (auto split: sum.split intro!: queue_kept.moves_rules)
  then have "queue_kept.moves (replay_commit k c)" unfolding replay_commit_def
    by (intro queue_kept.moves_then queue_kept.moves_try queue_kept.moves_on_disk) (auto split: sum.split intro: queue_kept.moves_give)
  with Cons.IH show ?case by (auto intro!: queue_kept.moves_rules)
qed (simp add: queue_kept.moves_give)

lemma queue_kept_agents: "queue_kept.moves (discover_and_reconcile_agents env)"
proof -
  have one: "queue_kept.moves (reconcile_instance env i r)" for i r
    unfolding reconcile_instance_def Let_def
    by (intro queue_kept.moves_then queue_kept.moves_read queue_kept.moves_if queue_kept.moves_give queue_kept.moves_try
        queue_kept_see queue_kept_upsert)
  have "queue_kept.moves (reconcile_instances env is r)" for "is" r
    by (induction "is" arbitrary: r) (auto intro!: queue_kept.moves_rules one)
  then have "queue_kept.moves (reconcile_results env rs)" for rs
    by (induction rs) (auto intro!: queue_kept.moves_rules)
  then show ?thesis unfolding discover_and_reconcile_agents_def Let_def
    by (intro queue_kept_see queue_kept.moves_then queue_kept.moves_read queue_kept.moves_give)
qed

lemma queue_kept_after: "queue_kept.moves (after_requeue env n)"
  unfolding after_requeue_def open_stores_def reconcile_uninstalls_def Let_def
  by (intro queue_kept.moves_then queue_kept.moves_err queue_kept.moves_on_disk queue_kept.moves_try queue_kept.moves_read
      queue_kept.moves_give queue_kept_at queue_kept_expire queue_kept_replay queue_kept_agents queue_kept_cache)

text \<open>C7: A start leaves nothing in flight. Whatever fails and wherever the process dies, the queue after a
  start is either the one it found, or the one in which exactly the mutations found in flight are queued for
  a retry, none lost, none added, in the same order; if the start got through, it is the latter, and the
  status counts them.\<close>

theorem startup_requeues_in_flight_work:
  assumes "r = startup env d w"
  defines "requeued \<equiv> map (\<lambda>m. if mu_state m = InFlight then recovered_row (dk_now (sp_desktop env)) m else m) (mutations d)"
  shows "(mutations (store_after r) = mutations d \<or> mutations (store_after r) = requeued)
    \<and> (case r of Returned status d' _ \<Rightarrow> mutations d' = requeued \<and> (\<forall>m \<in> set (mutations d'). mu_state m \<noteq> InFlight)
          \<and> ss_recovered_in_flight status = length (filter (\<lambda>m. mu_state m = InFlight) (mutations d))
        | _ \<Rightarrow> True)"
proof -
  let ?m = "app_err StartStore (transact (recover_in_flight_mutations (dk_now (sp_desktop env))))"
  have new: "mutations e = requeued \<and> n = length (filter (\<lambda>m. mu_state m = InFlight) (mutations d))"
    if "recover_in_flight_mutations (dk_now (sp_desktop env)) d = Inr (e, n)" for e n
    using that by (auto simp: recover_in_flight_mutations_def result_simps requeued_def update_mutations_def sql_update_def sql_count_def)
  have none: "\<forall>m \<in> set requeued. mu_state m \<noteq> InFlight" by (auto simp: requeued_def recovered_row_def)
  have first: "case ?m d w of Returned n e _ \<Rightarrow> mutations e = requeued \<and> n = length (filter (\<lambda>m. mu_state m = InFlight) (mutations d))
     | Refused _ e _ \<Rightarrow> mutations e = mutations d | Died e _ \<Rightarrow> mutations e = mutations d"
    by (auto simp: app_err_def transact_def new split: list.split fault.split sum.split)
  show ?thesis
  proof (cases "?m d w")
    case (Returned n e w1)
    then have r: "r = after_requeue env n e w1" by (simp add: assms(1) startup_def app_then_def)
    have q: "mutations (store_after r) = requeued" using queue_kept.movesD [OF queue_kept_after [of env n], of e w1] first Returned by (simp add: r)
    have "ss_recovered_in_flight status = n" if "r = Returned status d' w'" for status d' w'
      using that unfolding r after_requeue_def Let_def
      by (auto simp: app_then_def app_give_def split: ending.split_asm)
    with q none first Returned show ?thesis by (cases r) (auto simp: store_after_def)
  next
    case (Refused e1 e w1)
    then have r: "r = Refused e1 e w1" by (simp add: assms(1) startup_def app_then_def)
    then show ?thesis using first Refused by (simp add: store_after_def)
  next
    case (Died e w1)
    then have r: "r = Died e w1" by (simp add: assms(1) startup_def app_then_def)
    then show ?thesis using first Died by (simp add: store_after_def)
  qed
qed

section \<open>The replay\<close>

text \<open>The journal of \<open>c\<close> is still what it was, or its row stands for a replayed deployment whose target verifies.\<close>

definition settled_commit :: "engine \<Rightarrow> deploy_result set \<Rightarrow> node \<Rightarrow> deploy_result \<Rightarrow> store \<Rightarrow> node \<Rightarrow> bool" where
  "settled_commit en cs x0 c d x \<longleftrightarrow> entry (journal_path en (dr_transaction_id c)) x = entry (journal_path en (dr_transaction_id c)) x0
     \<or> (\<exists>c' \<in> cs. row_of (dr_skill_id c) (dr_profile_id c) d = Some (deployment_row_of (installed c'))
          \<and> verifies en (dr_snapshot_hash c') (dr_target_path c') x)"

definition replay_inv :: "engine \<Rightarrow> deploy_result set \<Rightarrow> node \<Rightarrow> store \<Rightarrow> node \<Rightarrow> bool" where
  "replay_inv en cs x0 d x \<longleftrightarrow> (\<forall>c \<in> cs. settled_commit en cs x0 c d x)"

definition commits_apart :: "engine \<Rightarrow> deploy_result set \<Rightarrow> bool" where
  "commits_apart en cs \<longleftrightarrow> unrelated (en_journals en) (en_blobs en) \<and> (\<forall>c \<in> cs. unrelated (en_journals en) (locate (dr_target_path c)))
     \<and> inj_on dr_transaction_id cs"

lemma replay_inv_record:
  assumes i: "replay_inv en cs x0 d x" and c: "c \<in> cs" and v: "verifies en (dr_snapshot_hash c) (dr_target_path c) x"
    and r: "record_deployment (installed c) d = Inr (d', a)"
  shows "replay_inv en cs x0 d' x" and "row_of (dr_skill_id c) (dr_profile_id c) d' = Some (deployment_row_of (installed c))"
proof -
  have row: "row_of s p d' = (if (s, p) = (dr_skill_id c, dr_profile_id c) then Some (deployment_row_of (installed c)) else row_of s p d)" for s p
    using record_deployment_Inr(1,2) [OF r] by (auto simp: installed_def)
  then show "row_of (dr_skill_id c) (dr_profile_id c) d' = Some (deployment_row_of (installed c))" by simp
  have "settled_commit en cs x0 b d' x" if "b \<in> cs" for b
    using i that c v unfolding replay_inv_def settled_commit_def row by auto
  then show "replay_inv en cs x0 d' x" by (simp add: replay_inv_def)
qed

lemma replay_inv_acknowledged:
  assumes apart: "commits_apart en cs" and i: "replay_inv en cs x0 d x" and c: "c \<in> cs"
    and row: "row_of (dr_skill_id c) (dr_profile_id c) d = Some (deployment_row_of (installed c))"
    and v: "verifies en (dr_snapshot_hash c) (dr_target_path c) x"
    and moved: "tree.away (journal_path en (dr_transaction_id c)) x x'"
  shows "replay_inv en cs x0 d x'"
proof -
  let ?jp = "journal_path en (dr_transaction_id c)"
  have jp: "unrelated ?jp (en_blobs en)" "\<And>b. b \<in> cs \<Longrightarrow> unrelated ?jp (locate (dr_target_path b))"
    using apart tree.unrelated_inside by (auto simp: commits_apart_def journal_path_def)
  have still: "verifies en (dr_snapshot_hash b) (dr_target_path b) x'" if "b \<in> cs" "verifies en (dr_snapshot_hash b) (dr_target_path b) x" for b
    using verifies_away [OF moved jp] that by blast
  have "settled_commit en cs x0 b d x'" if b: "b \<in> cs" for b
  proof (cases "dr_transaction_id b = dr_transaction_id c")
    case True
    then have "b = c" using apart b c by (simp add: commits_apart_def inj_on_def)
    then show ?thesis using still [OF c v] c row by (auto simp: settled_commit_def)
  next
    case False
    then have "entry (journal_path en (dr_transaction_id b)) x' = entry (journal_path en (dr_transaction_id b)) x"
      by (intro tree.away_entry [OF moved]) (auto simp: journal_path_def)
    then show ?thesis using i b still by (auto simp: replay_inv_def settled_commit_def)
  qed
  then show ?thesis by (simp add: replay_inv_def)
qed

lemma awp_replay_commit:
  assumes apart: "commits_apart (dk_engine k) cs" and c: "c \<in> cs" and i: "replay_inv (dk_engine k) cs x0 d x"
  defines "I \<equiv> replay_inv (dk_engine k) cs x0"
  shows "awp F (replay_commit k c) (\<lambda>_. I) (\<lambda>_ _ _. False) I d x"
  unfolding replay_commit_def
proof (rule awp_disk_try)
  let ?en = "dk_engine k" and ?v = "verifies (dk_engine k) (dr_snapshot_hash c) (dr_target_path c)"
  show "wlp F (verify_path ?en (dr_snapshot_hash c) (dr_target_path c)) (\<lambda>_ x'. x' = x \<and> ?v x) (\<lambda>_ x'. x' = x) (\<lambda>x'. x' = x) x"
    unfolding verify_path_def by (rule wlp_query) (auto simp: verifies_def)
  fix ref x1 assume "x1 = x \<and> ?v x"
  then have x1: "x1 = x" and v: "?v x" by auto
  let ?ack = "app_then (app_try (on_disk (acknowledge_catalog_commit ?en (dr_transaction_id c)))) (\<lambda>acknowledged. case acknowledged of
      Inl e \<Rightarrow> app_give [AckFailed (dr_transaction_id c) e] | Inr _ \<Rightarrow> app_give [])"
  have ack: "awp F ?ack (\<lambda>_. I) (\<lambda>_ _ _. False) I d' x" if r: "record_deployment (installed c) d = Inr (d', a)" for d' a
    by (rule awp_disk_try [OF wlp_confinedI [OF confined_acknowledge]])
      (auto intro!: awp_give replay_inv_acknowledged [OF apart replay_inv_record(1) [OF i c v r] c replay_inv_record(2) [OF i c v r] v] simp: I_def)
  have "awp F (replay_verified k c) (\<lambda>_. I) (\<lambda>_ _ _. False) I d x" unfolding replay_verified_def
    by (rule awp_try [where R = "\<lambda>a d' x'. x' = x \<and> record_deployment (installed c) d = Inr (d', a)"
          and ER = "\<lambda>_ d' x'. d' = d \<and> x' = x" and HR = "\<lambda>d' x'. d' = d \<and> x' = x"], rule awp_transact)
      (use i ack in \<open>auto intro!: awp_give simp: I_def\<close>)
  then show "awp F (case Inr ref of Inl e \<Rightarrow> app_give [RecoveredMismatch (dr_transaction_id c) (dr_snapshot_hash c) e] | Inr _ \<Rightarrow> replay_verified k c)
      (\<lambda>_. I) (\<lambda>_ _ _. False) I d x1" by (simp add: x1)
qed (use i in \<open>auto intro!: awp_give simp: I_def\<close>)

lemma awp_replay_commits:
  fixes x0 :: node
  assumes apart: "commits_apart (dk_engine k) cs"
  defines "I \<equiv> replay_inv (dk_engine k) cs x0"
  shows "set bs \<subseteq> cs \<Longrightarrow> I d x \<Longrightarrow> awp F (replay_commits k bs :: ('e, replay_failure list) app) (\<lambda>_. I) (\<lambda>_ _ _. False) I d x"
proof (induction bs arbitrary: d x)
  case (Cons b bs)
  then have one: "awp F (replay_commit k b :: ('e, replay_failure list) app) (\<lambda>_. I) (\<lambda>_ _ _. False) I d x" unfolding I_def
    by (intro awp_replay_commit [OF apart]) auto
  have "awp F (app_then (replay_commits k bs) (\<lambda>later. app_give (failed @ later)) :: ('e, replay_failure list) app) (\<lambda>_. I) (\<lambda>_ _ _. False) I d1 x1" if "I d1 x1" for failed d1 x1
    by (rule awp_then [OF Cons.IH]) (use Cons.prems that in \<open>auto intro: awp_give\<close>)
  then show ?case unfolding replay_commits.simps by (intro awp_then [OF one]) auto
qed (simp add: awp_give)

text \<open>C6: No journal is given up before its row is there. The replay of the catalog at the start never fails as
  a whole, and wherever the process dies in it, for each deployment the engine reported: its journal is
  still there as it was, so that the next start replays it, or the catalog row of its skill and profile is
  the row of a replayed deployment and the target that row names holds exactly the snapshot it names. The
  targets and the blobs lie apart from the journals, and each deployment has its own id.\<close>

theorem replay_acknowledges_only_what_is_recorded:
  assumes "commits_apart (dk_engine k) (set cs)" and run: "r = replay_commits k cs d w" and c: "c \<in> set cs"
  shows "(\<forall>e d' w'. r \<noteq> Refused e d' w')
    \<and> (entry (journal_path (dk_engine k) (dr_transaction_id c)) (disk (world_after r)) = entry (journal_path (dk_engine k) (dr_transaction_id c)) (disk w)
      \<or> (\<exists>c' \<in> set cs. row_of (dr_skill_id c) (dr_profile_id c) (store_after r) = Some (deployment_row_of (installed c'))
          \<and> (\<exists>v. verify_materialized_snapshot (en_manifests (dk_engine k)) (en_sha (dk_engine k)) (en_blobs (dk_engine k))
                (dr_snapshot_hash c') (locate (dr_target_path c')) (disk (world_after r)) = Inr v)))"
proof -
  have start: "replay_inv (dk_engine k) (set cs) (disk w) d (disk w)" by (simp add: replay_inv_def settled_commit_def)
  have "replay_inv (dk_engine k) (set cs) (disk w) (store_after r) (disk (world_after r)) \<and> (\<forall>e d' w'. r \<noteq> Refused e d' w')"
    using awp_run [OF awp_replay_commits [OF assms(1) subset_refl start] run]
    by (cases r) (auto simp: store_after_def world_after_def)
  with c show ?thesis by (auto simp: replay_inv_def settled_commit_def verifies_def)
qed

end
