(* ===== verification/Command_Samples.thy ===== *)
theory Command_Samples
  imports Command_Safety Workspace_Commands Startup_Safety Archive_Samples Hydration_Samples Deploy_Samples Cache_Samples Uninstall_Samples
begin

text \<open>
  Commands and starts evaluated by the simplifier: one skill and one agent, with the engine, the blob store and
  the codecs of the other examples.
\<close>

definition sample_desktop :: desktop where
  "sample_desktop = \<lparr>dk_hydrate = hydrate_sample\<lparr>he_workspaces := import_store_of\<rparr>, dk_cache = cache_sample_env\<lparr>ce_codec := const_codec\<rparr>,
     dk_engine = sample_engine [], dk_zip = zip_sample [], dk_import = import_sample, dk_encode = (\<lambda>_. Inr ''[]''), dk_decode = (\<lambda>_. Inr [])\<rparr>"

section \<open>Deployments\<close>

definition target_profile :: "string \<Rightarrow> profile_row" where
  "target_profile i = \<lparr>pr_id = i, pr_descriptor_id = ''custom'', pr_display_name = ''P'', pr_skill_root = ''/agent'', pr_enabled = True, pr_is_custom = True\<rparr>"

definition deploy_store :: store where
  "deploy_store = fresh_store\<lparr>skills := [(sample_skill ''s'' (Some ''r1'') Synced (Some 4))\<lparr>sk_slug := ''skill'', sk_current_blob_hash := hash_bytes sample_sha ''M''\<rparr>],
     profiles := [target_profile ''p'']\<rparr>"

definition deploy_command :: "(command_error, deploy_command_result) ending" where
  "deploy_command = deploy_single sample_desktop ''t1'' ''s'' ''p'' deploy_store \<lparr>disk = agent_disk, schedule = []\<rparr>"


lemma sample_roots_apart: "roots_apart (dk_engine sample_desktop) deploy_store"
  by code_simp

theorem catalog_rows_are_installed_witness:
  "case deploy_command of
      Returned c d w \<Rightarrow> \<exists>row v. row_of ''s'' ''p'' d = Some row \<and> dp_deployment c = record_of ''Name'' row
        \<and> verify_materialized_snapshot sample_codec sample_sha [''blobs''] (de_blob_hash row) (locate (de_target_path row)) (disk w) = Inr v
    | _ \<Rightarrow> False"
proof -
  have "case deploy_command of Returned c _ _ \<Rightarrow> dc_skill_name (dp_deployment c) = ''Name'' | _ \<Rightarrow> False" by code_simp
  then obtain c d w where run: "deploy_command = Returned c d w" and name: "dc_skill_name (dp_deployment c) = ''Name''"
    by (auto split: ending.splits)
  have en: "dk_engine sample_desktop = sample_engine []" by (simp add: sample_desktop_def)
  show ?thesis using catalog_rows_are_installed [OF sample_roots_apart deploy_command_def, of "''s''" "''p''"]
    by (auto simp: run name store_after_def world_after_def en sample_engine_def)
qed


section \<open>Workspaces\<close>

definition workspace_store_of :: "skill_sync_state \<Rightarrow> store" where
  "workspace_store_of st = fresh_store\<lparr>skills := [(sample_skill ''s1'' (Some ''r1'') st (Some 4))\<lparr>sk_workspace_path := ''/ws/'' @ sample_sha ''s1'',
     sk_current_blob_hash := hash_bytes sample_sha ''M''\<rparr>]\<rparr>"

definition workspace_world :: world where
  "workspace_world = \<lparr>disk = Folder [(''blobs'', Folder [(''sha256'', Folder [])]), (''ws'', Folder [(sample_sha ''s1'', one_file)])], schedule = []\<rparr>"

definition release_run :: "(command_error, release_result) ending" where
  "release_run = release_skill_workspace sample_desktop [''a'', ''b''] ''s1'' (workspace_store_of Synced) workspace_world"

definition sample_commit :: commit_request where
  "sample_commit = \<lparr>cq_skill_id = ''s1'', cq_remote_id = Some ''r1'', cq_name = ''Name'', cq_slug = ''slug'', cq_base_revision = Some 4, cq_operation = Update\<rparr>"

definition commit_run :: "(command_error, commit_result) ending" where
  "commit_run = commit_local_skill_workspace sample_desktop ''m1'' [''a'', ''b''] sample_commit (workspace_store_of Synced) workspace_world"

lemma sample_place: "workspace_place sample_desktop ''s1'' = [''ws'', sample_sha ''s1'']"
  by code_simp

lemma sample_workspace: "entry [''ws'', sample_sha ''s1''] (disk workspace_world) = Some one_file"
  by code_simp

lemma sample_workspaces: "dk_workspaces sample_desktop = import_store_of"
  by (simp add: sample_desktop_def)

lemma sample_workspace_ok: "workspace_ok sample_desktop ''s1'' (disk workspace_world)"
proof -
  have "ce_root (dk_cache sample_desktop) = [''blobs'']" "wf_node one_file" by code_simp+
  then show ?thesis using one_file_reads_back
    by (simp add: workspace_ok_def sample_workspaces import_store_of_def sample_digest sample_place sample_workspace unrelated_def)
qed

theorem released_workspaces_are_synchronized_witness:
  "case release_run of
      Returned c d w \<Rightarrow> rl_released c \<and> entry (locate (folder_of (dk_hydrate sample_desktop) ''s1'')) (disk w) = None
        \<and> (\<exists>ref. held sample_desktop ''s1'' (disk workspace_world) ref \<and> sr_manifest_hash ref = hash_bytes sample_sha ''M'')
    | _ \<Rightarrow> False"
proof -
  have "case release_run of Returned c _ _ \<Rightarrow> rl_released c | _ \<Rightarrow> False" by code_simp
  then obtain c d w where run: "release_run = Returned c d w" and c: "rl_released c" by (auto split: ending.splits)
  show ?thesis using released_workspaces_are_synchronized [OF sample_workspace_ok release_run_def]
    by (auto simp: run c world_after_def workspace_store_of_def)
qed

theorem committed_edits_are_what_was_on_disk_witness:
  "case commit_run of
      Returned c d w \<Rightarrow> held sample_desktop ''s1'' (disk workspace_world) (co_snapshot c)
        \<and> map mu_payload_hash (mutations d) = [sr_manifest_hash (co_snapshot c)]
    | _ \<Rightarrow> False"
proof -
  have "case commit_run of Returned c _ _ \<Rightarrow> True | _ \<Rightarrow> False" by code_simp
  then obtain c d w where run: "commit_run = Returned c d w" by (auto split: ending.splits)
  have ok: "workspace_ok sample_desktop (cq_skill_id sample_commit) (disk workspace_world)"
    using sample_workspace_ok by (simp add: sample_commit_def)
  have none: "mutations (workspace_store_of Synced) = []" by (simp add: workspace_store_of_def fresh_store_def)
  show ?thesis using committed_edits_are_what_was_on_disk [OF ok commit_run_def]
    by (auto simp: run none sample_commit_def queued_row_def)
qed

section \<open>Starts\<close>

definition sample_startup :: startup_env where
  "sample_startup = \<lparr>sp_desktop = sample_desktop, sp_uninstaller = sample_uninstaller, sp_registry = [], sp_reconcile = [],
     sp_display = (\<lambda>_. ''now''), sp_instant = 0, sp_store_text = (\<lambda>_. ''store'')\<rparr>"

definition startup_disk :: node where
  "startup_disk = Folder [(''blobs'', Materialize.sample_store), (''agent'', Folder []), (''j'', Folder []), (''u'', Folder []), (''ws'', Folder [])]"

definition busy_store :: store where
  "busy_store = (workspace_store_of Dirty)\<lparr>mutations := [sample_mutation ''m1'' ''s1'' 1 InFlight, sample_mutation ''m2'' ''s1'' 2 Pending]\<rparr>"

definition startup_run :: "(startup_error, startup_status) ending" where
  "startup_run = startup sample_startup busy_store \<lparr>disk = startup_disk, schedule = []\<rparr>"

theorem startup_requeues_in_flight_work_witness:
  "case startup_run of
      Returned status d w \<Rightarrow> map mu_state (mutations d) = [RetryableError, Pending] \<and> ss_recovered_in_flight status = 1
    | _ \<Rightarrow> False"
proof -
  have "case startup_run of Returned _ _ _ \<Rightarrow> True | _ \<Rightarrow> False" by code_simp
  then obtain status d w where run: "startup_run = Returned status d w" by (auto split: ending.splits)
  show ?thesis using startup_requeues_in_flight_work [OF startup_run_def]
    by (auto simp: run busy_store_def sample_mutation_def recovered_row_def)
qed

text \<open>The deployment of the other examples, whose process died before the catalog was written.\<close>

definition replay_result :: deploy_result where
  "replay_result = the (report_of (deployed []))"

definition replay_run :: "(store_error, replay_failure list) ending" where
  "replay_run = replay_commits sample_desktop [replay_result] deploy_store \<lparr>disk = run_disk (deployed []), schedule = []\<rparr>"

theorem replay_acknowledges_only_what_is_recorded_witness:
  "(case replay_run of Returned failed _ _ \<Rightarrow> failed = [] | _ \<Rightarrow> False)
   \<and> entry (journal_path (dk_engine sample_desktop) ''t1'') (disk (world_after replay_run)) = None
   \<and> row_of ''s'' ''p'' (store_after replay_run) = Some (deployment_row_of (installed replay_result))"
proof -
  have en: "dk_engine sample_desktop = sample_engine []" by (simp add: sample_desktop_def)
  have c: "dr_transaction_id replay_result = ''t1''" "dr_skill_id replay_result = ''s''" "dr_profile_id replay_result = ''p''"
    "unrelated (en_journals (dk_engine sample_desktop)) (en_blobs (dk_engine sample_desktop))"
    "unrelated (en_journals (dk_engine sample_desktop)) (locate (dr_target_path replay_result))"
    by code_simp+
  then have apart: "commits_apart (dk_engine sample_desktop) (set [replay_result])" by (simp add: commits_apart_def)
  have run: "case replay_run of Returned failed _ _ \<Rightarrow> failed = [] | _ \<Rightarrow> False"
    "entry (journal_path (dk_engine sample_desktop) ''t1'') (disk (world_after replay_run)) = None"
    "entry (journal_path (dk_engine sample_desktop) ''t1'') (run_disk (deployed [])) \<noteq> None"
    by code_simp+
  show ?thesis using run replay_acknowledges_only_what_is_recorded [OF apart replay_run_def, of replay_result] c by auto
qed

end
