(* ===== verification/Migrations.thy ===== *)
theory Migrations
  imports Files Local_Store "HOL-Library.Char_ord" "HOL-Library.List_Lexorder"
begin

text \<open>
  \<open>local_store/migrations.rs\<close> and the opening of the store: the steps from one schema version to the next,
  what each does to the rows, the copy of the file before an upgrade, and the runner. A database of any
  version is a \<open>store\<close> in which the columns and tables that its version does not have yet carry no meaning;
  the step that adds them sets them. SQLite answers each call by the schedule of faults of \<open>Files\<close>.
\<close>

section \<open>Rows\<close>

definition latest_schema_version :: int where
  "latest_schema_version = 6"

text \<open>\<open>ORDER BY created_at ASC, id ASC\<close> and \<open>ROW_NUMBER() OVER (PARTITION BY skill_id ...)\<close>: text is compared by bytes.\<close>

definition row_before :: "mutation_row \<Rightarrow> mutation_row \<Rightarrow> bool" where
  "row_before m n \<longleftrightarrow> mu_created_at m < mu_created_at n \<or> mu_created_at m = mu_created_at n \<and> mu_id m < mu_id n"

definition row_number :: "mutation_row list \<Rightarrow> mutation_row \<Rightarrow> int" where
  "row_number ms m = int (length (filter (\<lambda>n. mu_skill_id n = mu_skill_id m \<and> row_before n m) ms)) + 1"

text \<open>The row of \<open>local_mutations_v3\<close> for an old row: the columns the \<open>INSERT\<close> does not name are \<open>NULL\<close>.\<close>

definition numbered_row :: "mutation_row list \<Rightarrow> mutation_row \<Rightarrow> mutation_row" where
  "numbered_row ms m = m\<lparr>mu_local_sequence := row_number ms m, mu_next_attempt_at := None, mu_last_attempt_at := None,
     mu_server_error_code := None, mu_server_error_details := None, mu_ack_remote_revision := None, mu_ack_remote_id := None\<rparr>"

section \<open>Steps\<close>

definition migration_1 :: "store \<Rightarrow> store" where
  "migration_1 d = d\<lparr>skills := [], mutations := [], profiles := [], deployments := []\<rparr>"

text \<open>\<open>updated_at\<close> is never \<open>NULL\<close>, so it is the value of the \<open>COALESCE\<close>.\<close>

definition migration_2 :: "store \<Rightarrow> store" where
  "migration_2 d = d\<lparr>skills := map (\<lambda>r. r\<lparr>sk_last_accessed_at := Some (sk_updated_at r)\<rparr>) (skills d), cache_max_bytes := 2147483648\<rparr>"

definition migration_3 :: "store \<Rightarrow> store" where
  "migration_3 d = d\<lparr>mutations := map (numbered_row (mutations d)) (mutations d), sync := empty_sync\<rparr>"

definition migration_4 :: "store \<Rightarrow> store" where
  "migration_4 d = d\<lparr>entitlements := []\<rparr>"

definition migration_5 :: "store \<Rightarrow> store" where
  "migration_5 d = d\<lparr>prefs := []\<rparr>"

definition migration_6 :: "store \<Rightarrow> store" where
  "migration_6 d = d\<lparr>sync := (sync d)\<lparr>sy_server_url := None, sy_login_identity := None\<rparr>,
     skills := map (\<lambda>r. r\<lparr>sk_remote_blob_hash := None\<rparr>) (skills d)\<rparr>"

definition migrations :: "(int \<times> (store \<Rightarrow> store)) list" where
  "migrations = [(1, migration_1), (2, migration_2), (3, migration_3), (4, migration_4), (5, migration_5), (6, migration_6)]"

text \<open>The constraints of each version.\<close>

definition old_mutation_check :: "mutation_row \<Rightarrow> bool" where
  "old_mutation_check m \<longleftrightarrow> non_negative (mu_base_revision m) \<and> 0 \<le> mu_retry_count m"

definition old_mutations_ok :: "store \<Rightarrow> bool" where
  "old_mutations_ok d \<longleftrightarrow> distinct (map mu_id (mutations d)) \<and> list_all old_mutation_check (mutations d)
     \<and> list_all (\<lambda>m. mu_skill_id m \<in> set (map sk_id (skills d))) (mutations d)"

definition schema_at :: "int \<Rightarrow> store \<Rightarrow> bool" where
  "schema_at v d \<longleftrightarrow> (1 \<le> v \<longrightarrow> skills_ok d \<and> deployments_ok d \<and> (if v < 3 then old_mutations_ok d else mutations_ok d))
     \<and> (2 \<le> v \<longrightarrow> 0 < cache_max_bytes d) \<and> (3 \<le> v \<longrightarrow> 1 \<le> sy_protocol_version (sync d))
     \<and> (4 \<le> v \<longrightarrow> entitlements_ok d) \<and> (5 \<le> v \<longrightarrow> prefs_ok d)"

section \<open>Opening\<close>

datatype backup_file = NoBackup | Backup store | TornBackup

record install =
  in_live :: store
  in_backup :: backup_file

datatype 'a opened = Opened 'a install "fault list" | NotOpened store_error install "fault list" | OpenCut install

type_synonym 'a opener = "install \<Rightarrow> fault list \<Rightarrow> 'a opened"

definition open_give :: "'a \<Rightarrow> 'a opener" where
  "open_give a i s = Opened a i s"

definition open_then :: "'a opener \<Rightarrow> ('a \<Rightarrow> 'b opener) \<Rightarrow> 'b opener" where
  "open_then m f i s = (case m i s of Opened a i' s' \<Rightarrow> f a i' s' | NotOpened e i' s' \<Rightarrow> NotOpened e i' s' | OpenCut i' \<Rightarrow> OpenCut i')"

text \<open>One call of SQLite; \<open>partial\<close> is what a call that fails or is cut short leaves.\<close>

definition sqlite :: "(install \<Rightarrow> store_error + (install \<times> 'a)) \<Rightarrow> (nat \<Rightarrow> install \<Rightarrow> install) \<Rightarrow> 'a opener" where
  "sqlite f partial i s = (case s of
     Fail n # s' \<Rightarrow> NotOpened (Database SqliteFailure) (partial n i) s'
   | Crash n # s' \<Rightarrow> OpenCut (partial n i)
   | _ \<Rightarrow> (case f i of Inl e \<Rightarrow> NotOpened e i (tl s) | Inr (i', a) \<Rightarrow> Opened a i' (tl s)))"

definition atomically :: "(install \<Rightarrow> store_error + (install \<times> 'a)) \<Rightarrow> 'a opener" where
  "atomically f = sqlite f (\<lambda>_ i. i)"

definition current_version :: "store \<Rightarrow> int" where
  "current_version d = foldr max (schema_versions d) 0"

text \<open>\<open>is_fresh_database\<close>: a count that cannot be read counts as none.\<close>

definition is_fresh_database :: "bool opener" where
  "is_fresh_database i s = (case atomically (\<lambda>i. Inr (i, current_version (in_live i) = 0)) i s of
     NotOpened e i' s' \<Rightarrow> Opened True i' s' | r \<Rightarrow> r)"

text \<open>\<open>VACUUM INTO\<close> refuses a file that exists and is not empty. One that fails or is cut short may leave such a file.\<close>

definition vacuum_into :: "unit opener" where
  "vacuum_into = sqlite
     (\<lambda>i. if in_backup i = NoBackup then Inr (i\<lparr>in_backup := Backup (in_live i)\<rparr>, ()) else Inl (Database SqliteFailure))
     (\<lambda>n i. if in_backup i = NoBackup \<and> n \<noteq> 0 then i\<lparr>in_backup := TornBackup\<rparr> else i)"

text \<open>\<open>Path::with_extension\<close> of a path that names a file: what follows the last dot of the name is replaced.\<close>

definition backup_path :: "path \<Rightarrow> path" where
  "backup_path p = (let name = last (split_on (CHR ''/'') p); parts = split_on (CHR ''.'') name in
     (if length parts < 2 \<or> butlast parts = [[]] then p else take (length p - length (last parts) - 1) p) @ ''.sqlite3.pre-migration'')"

definition backup_database :: "path \<Rightarrow> unit opener" where
  "backup_database db_path i s =
     (if valid_utf8 (backup_path db_path) then vacuum_into i s else NotOpened (NonUtf8Path (backup_path db_path)) i s)"

definition migration_transaction :: "int \<Rightarrow> (store \<Rightarrow> store) \<Rightarrow> unit opener" where
  "migration_transaction v step = atomically (\<lambda>i.
     let d = step (in_live i) in
     if schema_at v d then Inr (i\<lparr>in_live := d\<lparr>schema_versions := schema_versions d @ [v]\<rparr>\<rparr>, ())
     else Inl (Database ConstraintViolation))"

fun run_migrations :: "(int \<times> (store \<Rightarrow> store)) list \<Rightarrow> unit opener" where
  "run_migrations [] = open_give ()"
| "run_migrations ((v, step) # rest) = open_then (migration_transaction v step) (\<lambda>_. run_migrations rest)"

definition pending_migrations :: "int \<Rightarrow> (int \<times> (store \<Rightarrow> store)) list" where
  "pending_migrations current = filter (\<lambda>(v, _). current < v) migrations"

definition migrate :: "path \<Rightarrow> unit opener" where
  "migrate db_path =
     open_then (atomically (\<lambda>i. Inr (i, ()))) (\<lambda>_.
     open_then (atomically (\<lambda>i. Inr (i, current_version (in_live i)))) (\<lambda>current.
     if latest_schema_version < current
     then (\<lambda>i s. NotOpened (UnsupportedSchema current latest_schema_version) i s)
     else
       let pending = pending_migrations current in
       open_then (if pending = [] then open_give True else is_fresh_database) (\<lambda>fresh.
       open_then (if fresh then open_give () else backup_database db_path) (\<lambda>_.
       run_migrations pending))))"

text \<open>\<open>LocalStore::open\<close>: the parent directory, the connection, its configuration, then the migrations.\<close>

definition open_store :: "path \<Rightarrow> unit opener" where
  "open_store db_path =
     open_then (atomically (\<lambda>i. Inr (i, ()))) (\<lambda>_.
     open_then (atomically (\<lambda>i. Inr (i, ()))) (\<lambda>_.
     open_then (atomically (\<lambda>i. Inr (i, ()))) (\<lambda>_. migrate db_path)))"

section \<open>Numbering\<close>

lemma row_before_order:
  "row_before m n \<Longrightarrow> row_before n k \<Longrightarrow> row_before m k" "\<not> row_before m m"
  "mu_id m \<noteq> mu_id n \<Longrightarrow> row_before m n \<or> row_before n m"
  by (auto simp: row_before_def)

lemma row_number_strict:
  assumes "m \<in> set ms" and "row_before m n" and "mu_skill_id m = mu_skill_id n" shows "row_number ms m < row_number ms n"
proof -
  let ?P = "\<lambda>m k. mu_skill_id k = mu_skill_id m \<and> row_before k m"
  have "filter (?P m) ms = filter (?P m) (filter (?P n) ms)"
    using assms(2,3) row_before_order(1) by (auto intro!: filter_cong)
  moreover have "length (filter (?P m) (filter (?P n) ms)) < length (filter (?P n) ms)"
    using assms row_before_order(2) by (intro length_filter_less [of m]) auto
  ultimately show ?thesis by (simp add: row_number_def)
qed

lemma row_number_inj:
  assumes "distinct (map mu_id ms)" and "m \<in> set ms" and "n \<in> set ms" and "mu_skill_id m = mu_skill_id n" and "row_number ms m = row_number ms n"
  shows "m = n"
proof (rule ccontr)
  assume "m \<noteq> n"
  then have "mu_id m \<noteq> mu_id n" using assms(1-3) by (auto simp: distinct_map inj_on_def)
  then show False using row_before_order(3) row_number_strict [of m ms n] row_number_strict [of n ms m] assms(2-5) by fastforce
qed

lemma numbered_row_simps [simp]:
  "mu_id (numbered_row ms m) = mu_id m" "mu_skill_id (numbered_row ms m) = mu_skill_id m"
  "mu_local_sequence (numbered_row ms m) = row_number ms m" "mu_state (numbered_row ms m) = mu_state m"
  "mu_payload_hash (numbered_row ms m) = mu_payload_hash m" "mu_operation (numbered_row ms m) = mu_operation m"
  "mu_base_revision (numbered_row ms m) = mu_base_revision m" "mu_retry_count (numbered_row ms m) = mu_retry_count m"
  "mu_ack_remote_revision (numbered_row ms m) = None"
  by (simp_all add: numbered_row_def)

lemma numbered_ok: "old_mutations_ok d \<Longrightarrow> mutations_ok (migration_3 d)"
  by (auto simp: old_mutations_ok_def mutations_ok_def migration_3_def o_def distinct_map list_all_iff old_mutation_check_def mutation_check_def
      row_number_def [of "mutations d"] non_negative_def [of None] inj_on_def intro: row_number_inj)

section \<open>Steps keep the constraints\<close>

lemma schema_steps:
  "schema_at 1 (migration_1 d)"
  "schema_at 1 d \<Longrightarrow> schema_at 2 (migration_2 d)"
  "schema_at 2 d \<Longrightarrow> schema_at 3 (migration_3 d)"
  "schema_at 3 d \<Longrightarrow> schema_at 4 (migration_4 d)"
  "schema_at 4 d \<Longrightarrow> schema_at 5 (migration_5 d)"
  "schema_at 5 d \<Longrightarrow> schema_at 6 (migration_6 d)"
proof -
  show "schema_at 1 (migration_1 d)"
    by (simp add: schema_at_def migration_1_def skills_ok_def deployments_ok_def old_mutations_ok_def)
  show "schema_at 2 (migration_2 d)" if "schema_at 1 d"
    using that by (simp add: schema_at_def migration_2_def skills_ok_def deployments_ok_def old_mutations_ok_def o_def skill_check_def list_all_iff)
  show "schema_at 3 (migration_3 d)" if "schema_at 2 d"
    using that numbered_ok [of d] by (simp add: schema_at_def migration_3_def skills_ok_def deployments_ok_def empty_sync_def)
  show "schema_at 4 (migration_4 d)" if "schema_at 3 d"
    using that by (simp add: schema_at_def migration_4_def skills_ok_def deployments_ok_def mutations_ok_def entitlements_ok_def)
  show "schema_at 5 (migration_5 d)" if "schema_at 4 d"
    using that by (simp add: schema_at_def migration_5_def skills_ok_def deployments_ok_def mutations_ok_def entitlements_ok_def prefs_ok_def)
  show "schema_at 6 (migration_6 d)" if "schema_at 5 d"
    using that by (simp add: schema_at_def migration_6_def skills_ok_def deployments_ok_def mutations_ok_def entitlements_ok_def prefs_ok_def o_def
        skill_check_def list_all_iff)
qed

lemma latest_schema: "schema_at 6 d \<longleftrightarrow> schema_ok d"
  by (auto simp: schema_at_def schema_ok_def)

section \<open>What an upgrade leaves\<close>

definition stamped :: "int \<times> (store \<Rightarrow> store) \<Rightarrow> store \<Rightarrow> store" where
  "stamped p d = (case p of (v, step) \<Rightarrow> (step d)\<lparr>schema_versions := schema_versions (step d) @ [v]\<rparr>)"

definition upgraded :: "(int \<times> (store \<Rightarrow> store)) list \<Rightarrow> store \<Rightarrow> store" where
  "upgraded ps d = fold stamped ps d"

definition at_version :: "int \<Rightarrow> store \<Rightarrow> bool" where
  "at_version v d \<longleftrightarrow> 0 \<le> v \<and> v \<le> 6 \<and> schema_at v d \<and> schema_versions d = [1..v]"

lemma schema_at_versions [simp]: "schema_at v (d\<lparr>schema_versions := vs\<rparr>) = schema_at v d"
  by (simp add: schema_at_def skills_ok_def deployments_ok_def mutations_ok_def old_mutations_ok_def entitlements_ok_def prefs_ok_def)

lemma schema_at_0: "schema_at 0 d"
  by (simp add: schema_at_def)

lemma step_versions: "(v, step) \<in> set migrations \<Longrightarrow> schema_versions (step d) = schema_versions d"
  by (auto simp: migrations_def migration_1_def migration_2_def migration_3_def migration_4_def migration_5_def migration_6_def)

lemma step_ok: "(v, step) \<in> set migrations \<Longrightarrow> schema_at (v - 1) d \<Longrightarrow> schema_at v (step d)"
  by (auto simp: migrations_def schema_steps)

fun chain :: "int \<Rightarrow> (int \<times> (store \<Rightarrow> store)) list \<Rightarrow> bool" where
  "chain v [] \<longleftrightarrow> True"
| "chain v ((u, step) # ps) \<longleftrightarrow> u = v + 1 \<and> (u, step) \<in> set migrations \<and> chain u ps"

lemma stamped_ok:
  assumes "(v + 1, step) \<in> set migrations" and "at_version v d" shows "at_version (v + 1) (stamped (v + 1, step) d)"
proof -
  have "v + 1 \<le> 6" using assms(1) by (auto simp: migrations_def)
  moreover have "[1..v + 1] = [1..v] @ [v + 1]" using assms(2) upto_rec2 [of 1 "v + 1"] by (simp add: at_version_def)
  ultimately show ?thesis using assms step_ok [OF assms(1), of d] step_versions [OF assms(1), of d] by (simp add: at_version_def stamped_def)
qed

lemma chain_upgraded: "chain v ps \<Longrightarrow> at_version v d \<Longrightarrow> at_version (v + int (length ps)) (upgraded ps d)"
proof (induction ps arbitrary: v d)
  case (Cons p ps)
  obtain u step where p: "p = (u, step)" by (cases p)
  have "at_version u (stamped (u, step) d)" and c: "chain u ps" "u = v + 1" using Cons.prems p stamped_ok by auto
  then have "at_version (u + int (length ps)) (upgraded ps (stamped p d))" using Cons.IH p by blast
  then show ?case using c(2) by (simp add: upgraded_def algebra_simps)
qed (simp add: upgraded_def)

lemma version_cases: "0 \<le> v \<Longrightarrow> v \<le> (6::int) \<Longrightarrow> v \<in> {0, 1, 2, 3, 4, 5, 6}"
  by auto

lemma pending_chain: "0 \<le> v \<Longrightarrow> v \<le> 6 \<Longrightarrow> chain v (pending_migrations v) \<and> v + int (length (pending_migrations v)) = 6"
  using version_cases [of v] by (auto simp: pending_migrations_def migrations_def)

lemma pending_none: "0 \<le> v \<Longrightarrow> v \<le> 6 \<Longrightarrow> pending_migrations v = [] \<longleftrightarrow> v = 6"
  using version_cases [of v] by (auto simp: pending_migrations_def migrations_def)

lemma at_version_current: "at_version v d \<Longrightarrow> current_version d = v"
  using version_cases [of v] by (auto simp: at_version_def current_version_def upto.simps [of 1] upto.simps [of 2] upto.simps [of 3]
      upto.simps [of 4] upto.simps [of 5] upto.simps [of 6])

section \<open>Rules\<close>

definition owp :: "'a opener \<Rightarrow> ('a \<Rightarrow> install \<Rightarrow> bool) \<Rightarrow> (install \<Rightarrow> bool) \<Rightarrow> install \<Rightarrow> bool" where
  "owp m Q I i \<longleftrightarrow> (\<forall>s. case m i s of Opened a i' _ \<Rightarrow> Q a i' | NotOpened _ i' _ \<Rightarrow> I i' | OpenCut i' \<Rightarrow> I i')"

lemma owp_give: "Q a i \<Longrightarrow> owp (open_give a) Q I i"
  by (simp add: owp_def open_give_def)

lemma owp_then: "owp m (\<lambda>a. owp (f a) Q I) I i \<Longrightarrow> owp (open_then m f) Q I i"
  unfolding owp_def
proof (intro allI)
  fix s
  assume m: "\<forall>s. case m i s of Opened a i' x \<Rightarrow> \<forall>s. case f a i' s of Opened a i' x \<Rightarrow> Q a i' | NotOpened x i' xa \<Rightarrow> I i' | OpenCut i' \<Rightarrow> I i'
    | NotOpened x i' xa \<Rightarrow> I i' | OpenCut i' \<Rightarrow> I i'"
  show "case open_then m f i s of Opened a i' _ \<Rightarrow> Q a i' | NotOpened _ i' _ \<Rightarrow> I i' | OpenCut i' \<Rightarrow> I i'"
    using spec [OF m, of s] by (cases "m i s") (simp_all add: open_then_def)
qed

lemma owp_mono: "owp m Q I i \<Longrightarrow> (\<And>a i'. Q a i' \<Longrightarrow> Q' a i') \<Longrightarrow> owp m Q' I i"
  unfolding owp_def
proof (intro allI)
  fix s
  assume m: "\<forall>s. case m i s of Opened a i' x \<Rightarrow> Q a i' | NotOpened x i' xa \<Rightarrow> I i' | OpenCut i' \<Rightarrow> I i'" and Q: "\<And>a i'. Q a i' \<Longrightarrow> Q' a i'"
  show "case m i s of Opened a i' x \<Rightarrow> Q' a i' | NotOpened x i' xa \<Rightarrow> I i' | OpenCut i' \<Rightarrow> I i'"
    using spec [OF m, of s] Q by (cases "m i s") simp_all
qed

lemma owp_sqlite:
  assumes "\<And>i' a. f i = Inr (i', a) \<Longrightarrow> Q a i'" and "I i" and "\<And>n. I (partial n i)" shows "owp (sqlite f partial) Q I i"
  using assms unfolding owp_def sqlite_def by (auto split: list.split fault.split sum.split)

lemma owp_atomically: "(\<And>i' a. f i = Inr (i', a) \<Longrightarrow> Q a i') \<Longrightarrow> I i \<Longrightarrow> owp (atomically f) Q I i"
  unfolding atomically_def by (rule owp_sqlite)

lemma owp_fresh:
  assumes "\<And>fresh. (\<not> fresh \<Longrightarrow> current_version (in_live i) \<noteq> 0) \<Longrightarrow> Q fresh i" and "I i" shows "owp is_fresh_database Q I i"
  unfolding owp_def
proof (intro allI)
  fix s
  have Q: "Q True i" "Q (current_version (in_live i) = 0) i" by (rule assms(1), simp)+
  show "case is_fresh_database i s of Opened a i' _ \<Rightarrow> Q a i' | NotOpened _ i' _ \<Rightarrow> I i' | OpenCut i' \<Rightarrow> I i'"
  proof (cases s)
    case (Cons f t)
    then show ?thesis using Q assms(2) by (cases f) (simp_all add: is_fresh_database_def atomically_def sqlite_def)
  qed (use Q in \<open>simp add: is_fresh_database_def atomically_def sqlite_def\<close>)
qed

lemma owp_run_migrations:
  assumes "chain v ps" and "at_version v (in_live i)"
    and "\<And>qs. prefix qs ps \<Longrightarrow> I (i\<lparr>in_live := upgraded qs (in_live i)\<rparr>)" and "Q () (i\<lparr>in_live := upgraded ps (in_live i)\<rparr>)"
  shows "owp (run_migrations ps) Q I i"
  using assms
proof (induction ps arbitrary: v i)
  case Nil
  then show ?case by (simp add: upgraded_def owp_give)
next
  case (Cons p ps)
  obtain u step where p: "p = (u, step)" by (cases p)
  let ?i = "i\<lparr>in_live := stamped p (in_live i)\<rparr>"
  have rest: "owp (run_migrations ps) Q I ?i"
  proof (rule Cons.IH)
    show "chain u ps" "at_version u (in_live ?i)" using Cons.prems(1,2) p stamped_ok by auto
    show "Q () (?i\<lparr>in_live := upgraded ps (in_live ?i)\<rparr>)" using Cons.prems(4) by (simp add: upgraded_def)
    show "I (?i\<lparr>in_live := upgraded qs (in_live ?i)\<rparr>)" if "prefix qs ps" for qs
      using Cons.prems(3) [of "p # qs"] that by (simp add: upgraded_def)
  qed
  have "I i" using Cons.prems(3) [of "[]"] by (simp add: upgraded_def)
  then show ?case using rest unfolding p run_migrations.simps
    by (intro owp_then, unfold migration_transaction_def, intro owp_atomically) (auto simp: Let_def stamped_def split: if_splits)
qed

lemma owp_backup:
  assumes "I i" and "in_backup i = NoBackup \<Longrightarrow> I (i\<lparr>in_backup := TornBackup\<rparr>)" and "in_backup i = NoBackup \<Longrightarrow> Q () (i\<lparr>in_backup := Backup (in_live i)\<rparr>)"
  shows "owp (backup_database path) Q I i"
proof -
  have "owp vacuum_into Q I i" unfolding vacuum_into_def by (rule owp_sqlite) (use assms in \<open>auto split: if_splits\<close>)
  then show ?thesis using assms(1) unfolding owp_def backup_database_def by auto
qed

section \<open>Upgrades\<close>

definition backup_after :: "backup_file \<Rightarrow> store \<Rightarrow> install \<Rightarrow> bool" where
  "backup_after b d i \<longleftrightarrow> in_backup i = b
     \<or> b = NoBackup \<and> (in_backup i = Backup d \<or> in_backup i = TornBackup \<and> in_live i = d)"

definition some_steps :: "int \<Rightarrow> store \<Rightarrow> install \<Rightarrow> bool" where
  "some_steps v d i \<longleftrightarrow> (\<exists>ps. prefix ps (pending_migrations v) \<and> in_live i = upgraded ps d \<and> at_version (v + int (length ps)) (in_live i))"

lemma chain_prefix: "chain v ps \<Longrightarrow> prefix qs ps \<Longrightarrow> chain v qs"
proof (induction ps arbitrary: v qs)
  case (Cons p ps)
  then show ?case by (cases qs; cases p) auto
qed simp

lemma owp_open_store:
  assumes "at_version v d"
  shows "owp (open_store path) (\<lambda>_ i. in_live i = upgraded (pending_migrations v) d \<and> at_version 6 (in_live i) \<and> backup_after b d i)
    (\<lambda>i. some_steps v d i \<and> backup_after b d i) \<lparr>in_live = d, in_backup = b\<rparr>"
proof -
  let ?i = "\<lparr>in_live = d, in_backup = b\<rparr>"
  let ?I = "\<lambda>i. some_steps v d i \<and> backup_after b d i"
  let ?Q = "\<lambda>(_::unit) i. in_live i = upgraded (pending_migrations v) d \<and> at_version 6 (in_live i) \<and> backup_after b d i"
  have v: "0 \<le> v" "v \<le> 6" using assms by (simp_all add: at_version_def)
  note pend = pending_chain [OF v]
  have steps: "some_steps v d (i\<lparr>in_live := upgraded qs d\<rparr>)" if "prefix qs (pending_migrations v)" for qs i
    using that chain_upgraded [OF chain_prefix assms, of "pending_migrations v" qs] pend by (auto simp: some_steps_def)
  have here: "some_steps v d i" if "in_live i = d" for i
    using that steps [of "[]" i] by (cases i) (simp add: upgraded_def)
  have run: "owp (run_migrations (pending_migrations v)) ?Q ?I i" if "in_live i = d" "in_backup i = b \<or> b = NoBackup \<and> in_backup i = Backup d" for i
    by (rule owp_run_migrations [where v = v])
      (use that assms pend steps chain_upgraded [OF conjunct1 [OF pend] assms] in \<open>auto simp: backup_after_def\<close>)
  have I: "?I ?i" by (simp add: here backup_after_def)
  have backed: "owp (open_then (if fresh then open_give () else backup_database path) (\<lambda>_. run_migrations (pending_migrations v))) ?Q ?I ?i" for fresh
  proof (rule owp_then, cases fresh)
    case True
    then show "owp (if fresh then open_give () else backup_database path) (\<lambda>_. owp (run_migrations (pending_migrations v)) ?Q ?I) ?I ?i"
      using run [of ?i] by (simp add: owp_give)
  next
    case False
    have "owp (run_migrations (pending_migrations v)) ?Q ?I \<lparr>in_live = d, in_backup = Backup d\<rparr>" if "b = NoBackup" using that by (intro run) simp_all
    then show "owp (if fresh then open_give () else backup_database path) (\<lambda>_. owp (run_migrations (pending_migrations v)) ?Q ?I) ?I ?i"
      using False I by (simp, intro owp_backup) (simp_all add: here backup_after_def)
  qed
  have finished: "d = upgraded [] d" "pending_migrations v = [] \<Longrightarrow> at_version 6 d" using assms pending_none [OF v] by (simp_all add: upgraded_def)
  have "owp (migrate path) ?Q ?I ?i" unfolding migrate_def Let_def
    by (rule owp_then, rule owp_atomically, rule owp_then, rule owp_atomically)
      (use v I finished in \<open>auto intro!: owp_then owp_fresh owp_give backed [simplified] simp: at_version_current [OF assms] latest_schema_version_def\<close>)
  then show ?thesis unfolding open_store_def using I by (auto intro!: owp_then owp_atomically)
qed

text \<open>C14: an upgrade moves in whole steps. Whatever fails and wherever the process dies while the store is opened, the
  database is the one found, taken through some of the pending steps in their order, and it satisfies every
  constraint of the version it then has; the copy beside it is the one found or, when there was none, the
  database as it was before the first step (a torn copy only if no step was taken). A store that opened has
  taken all steps and satisfies the constraints that every operation of the store relies on.\<close>

theorem upgrades_move_in_whole_steps:
  assumes "at_version v d" and "r = open_store path \<lparr>in_live = d, in_backup = b\<rparr> s"
  defines "reached \<equiv> \<lambda>ps i. in_live i = upgraded ps d \<and> schema_at (v + int (length ps)) (in_live i)
     \<and> current_version (in_live i) = v + int (length ps)
     \<and> (in_backup i = b \<or> b = NoBackup \<and> (in_backup i = Backup d \<or> in_backup i = TornBackup \<and> in_live i = d))"
  shows "case r of
      Opened a i _ \<Rightarrow> reached (pending_migrations v) i \<and> schema_ok (in_live i)
    | NotOpened e i _ \<Rightarrow> \<exists>ps. prefix ps (pending_migrations v) \<and> reached ps i
    | OpenCut i \<Rightarrow> \<exists>ps. prefix ps (pending_migrations v) \<and> reached ps i"
proof -
  have "0 \<le> v" "v \<le> 6" using assms(1) by (simp_all add: at_version_def)
  note six = conjunct2 [OF pending_chain [OF this]]
  have ok: "at_version u x \<Longrightarrow> schema_at u x \<and> current_version x = u" for u x
    by (simp add: at_version_current) (simp add: at_version_def)
  have some: "\<exists>ps. prefix ps (pending_migrations v) \<and> reached ps i" if "some_steps v d i" "backup_after b d i" for i
    using that ok by (auto simp: some_steps_def reached_def backup_after_def)
  have all: "reached (pending_migrations v) i \<and> schema_ok (in_live i)"
    if "in_live i = upgraded (pending_migrations v) d" "at_version 6 (in_live i)" "backup_after b d i" for i
    using that ok [of 6 "in_live i"] six by (auto simp: reached_def backup_after_def latest_schema)
  have "owp (open_store path) (\<lambda>_ i. in_live i = upgraded (pending_migrations v) d \<and> at_version 6 (in_live i) \<and> backup_after b d i)
    (\<lambda>i. some_steps v d i \<and> backup_after b d i) \<lparr>in_live = d, in_backup = b\<rparr>"
    by (rule owp_open_store [OF assms(1)])
  then show ?thesis using some all unfolding owp_def assms(2)
    by (cases "open_store path \<lparr>in_live = d, in_backup = b\<rparr> s") (force dest: spec [of _ s])+
qed

section \<open>What an upgrade keeps\<close>

lemma upgraded_simps:
  "upgraded [] d = d" "upgraded (p # ps) d = upgraded ps (stamped p d)"
  by (simp_all add: upgraded_def)

lemmas step_defs = migration_1_def migration_2_def migration_3_def migration_4_def migration_5_def migration_6_def

lemma stamped_simps:
  "skills (stamped (v, step) d) = skills (step d)" "mutations (stamped (v, step) d) = mutations (step d)"
  "profiles (stamped (v, step) d) = profiles (step d)" "deployments (stamped (v, step) d) = deployments (step d)"
  "entitlements (stamped (v, step) d) = entitlements (step d)" "prefs (stamped (v, step) d) = prefs (step d)"
  "sync (stamped (v, step) d) = sync (step d)" "cache_max_bytes (stamped (v, step) d) = cache_max_bytes (step d)"
  "schema_versions (stamped (v, step) d) = schema_versions (step d) @ [v]"
  by (simp_all add: stamped_def)

lemma run_migrations_smooth:
  "chain v ps \<Longrightarrow> at_version v (in_live i) \<Longrightarrow> run_migrations ps i [] = Opened () (i\<lparr>in_live := upgraded ps (in_live i)\<rparr>) []"
proof (induction ps arbitrary: v i)
  case (Cons p ps)
  obtain u step where p: "p = (u, step)" by (cases p)
  have u: "u = v + 1" "(u, step) \<in> set migrations" "chain u ps" using Cons.prems(1) p by auto
  then have next_version: "at_version u (stamped p (in_live i))" using stamped_ok Cons.prems(2) p by simp
  then have "schema_at u (step (in_live i))" by (simp add: at_version_def stamped_def p)
  moreover have "run_migrations ps (i\<lparr>in_live := stamped p (in_live i)\<rparr>) [] = Opened () (i\<lparr>in_live := upgraded ps (stamped p (in_live i))\<rparr>) []"
    using Cons.IH [OF u(3), of "i\<lparr>in_live := stamped p (in_live i)\<rparr>"] next_version by simp
  ultimately show ?case
    by (simp add: p open_then_def migration_transaction_def atomically_def sqlite_def Let_def stamped_def upgraded_def)
qed (simp add: open_give_def upgraded_def)

text \<open>What version 6 makes of the rows of version \<open>v\<close>.\<close>

lemma kept_rows:
  assumes "v \<in> {1, 2, 3, 4, 5}" and "d' = upgraded (pending_migrations v) d"
  shows "skills d' = map (\<lambda>r. r\<lparr>sk_remote_blob_hash := None,
            sk_last_accessed_at := (if v < 2 then Some (sk_updated_at r) else sk_last_accessed_at r)\<rparr>) (skills d)"
    and "mutations d' = (if v < 3 then map (\<lambda>m. m\<lparr>mu_local_sequence := row_number (mutations d) m, mu_next_attempt_at := None,
            mu_last_attempt_at := None, mu_server_error_code := None, mu_server_error_details := None,
            mu_ack_remote_revision := None, mu_ack_remote_id := None\<rparr>) (mutations d) else mutations d)"
    and "profiles d' = profiles d \<and> deployments d' = deployments d"
    and "cache_max_bytes d' = (if v < 2 then 2147483648 else cache_max_bytes d)"
    and "sync d' = (if v < 3 then empty_sync else sync d)\<lparr>sy_server_url := None, sy_login_identity := None\<rparr>"
    and "entitlements d' = (if v < 4 then [] else entitlements d) \<and> prefs d' = (if v < 5 then [] else prefs d)"
    and "schema_versions d' = schema_versions d @ [v + 1..6]"
proof -
  have up: "[2..6] = [2, 3, 4, 5, 6::int]" "[3..6] = [3, 4, 5, 6::int]" "[4..6] = [4, 5, 6::int]" "[5..6] = [5, 6::int]" "[6..6] = [6::int]"
    by code_simp+
  note defs = pending_migrations_def migrations_def upgraded_simps stamped_simps step_defs numbered_row_def
  show "skills d' = map (\<lambda>r. r\<lparr>sk_remote_blob_hash := None,
            sk_last_accessed_at := (if v < 2 then Some (sk_updated_at r) else sk_last_accessed_at r)\<rparr>) (skills d)"
    using assms by (auto simp: defs)
  show "mutations d' = (if v < 3 then map (\<lambda>m. m\<lparr>mu_local_sequence := row_number (mutations d) m, mu_next_attempt_at := None,
            mu_last_attempt_at := None, mu_server_error_code := None, mu_server_error_details := None,
            mu_ack_remote_revision := None, mu_ack_remote_id := None\<rparr>) (mutations d) else mutations d)"
    using assms by (auto simp: defs)
  show "profiles d' = profiles d \<and> deployments d' = deployments d" "cache_max_bytes d' = (if v < 2 then 2147483648 else cache_max_bytes d)"
    "sync d' = (if v < 3 then empty_sync else sync d)\<lparr>sy_server_url := None, sy_login_identity := None\<rparr>"
    "entitlements d' = (if v < 4 then [] else entitlements d) \<and> prefs d' = (if v < 5 then [] else prefs d)"
    using assms by (auto simp: defs)
  show "schema_versions d' = schema_versions d @ [v + 1..6]"
    using assms by (auto simp: defs up)
qed

text \<open>A mutation's number says where it stands among the mutations of its skill, by age and then by id.\<close>

lemma row_number_by_age:
  assumes "distinct (map mu_id ms)" and "m \<in> set ms" and "n \<in> set ms" and "mu_skill_id m = mu_skill_id n"
  shows "row_number ms m < row_number ms n
    \<longleftrightarrow> mu_created_at m < mu_created_at n \<or> mu_created_at m = mu_created_at n \<and> mu_id m < mu_id n"
proof (cases "m = n")
  case False
  then have "mu_id m \<noteq> mu_id n" using assms(1-3) by (auto simp: distinct_map inj_on_def)
  then show ?thesis
    using row_before_order(3) row_number_strict [of m ms n] row_number_strict [of n ms m] assms by (fastforce simp: row_before_def)
qed simp

lemma row_number_bounds:
  assumes "m \<in> set ms"
  shows "1 \<le> row_number ms m" and "row_number ms m \<le> int (length (filter (\<lambda>n. mu_skill_id n = mu_skill_id m) ms))"
proof -
  have "length (filter (\<lambda>n. mu_skill_id n = mu_skill_id m \<and> row_before n m) ms)
      = length (filter (\<lambda>n. row_before n m) (filter (\<lambda>n. mu_skill_id n = mu_skill_id m) ms))"
    by (simp add: conj_commute)
  also have "\<dots> < length (filter (\<lambda>n. mu_skill_id n = mu_skill_id m) ms)"
    using assms row_before_order(2) by (intro length_filter_less [of m]) auto
  finally show "row_number ms m \<le> int (length (filter (\<lambda>n. mu_skill_id n = mu_skill_id m) ms))" by (simp add: row_number_def)
qed (simp add: row_number_def)

text \<open>C15: An upgrade from any earlier version, with no copy of an earlier upgrade in the way, opens a store that satisfies
  the whole schema, copies the old database first, and keeps every row of every table: skills lose nothing but get
  their access time (before version 2) and an empty remote hash; profiles, deployments, leases, preferences, the cache
  budget and the sync state are as they were, where their table or column existed, and the defaults where not; a
  mutation keeps every column it had, and where the queue was not numbered yet the mutations of a skill are
  numbered from 1 by age, ties by id.\<close>

theorem upgrades_keep_every_row:
  assumes "at_version v d" and "1 \<le> v" and "v < 6" and "valid_utf8 (backup_path path)"
  shows "\<exists>d' number. open_store path \<lparr>in_live = d, in_backup = NoBackup\<rparr> [] = Opened () \<lparr>in_live = d', in_backup = Backup d\<rparr> []
    \<and> schema_ok d'
    \<and> skills d' = map (\<lambda>r. r\<lparr>sk_remote_blob_hash := None,
          sk_last_accessed_at := (if v < 2 then Some (sk_updated_at r) else sk_last_accessed_at r)\<rparr>) (skills d)
    \<and> mutations d' = (if v < 3 then map (\<lambda>m. m\<lparr>mu_local_sequence := number m, mu_next_attempt_at := None,
          mu_last_attempt_at := None, mu_server_error_code := None, mu_server_error_details := None,
          mu_ack_remote_revision := None, mu_ack_remote_id := None\<rparr>) (mutations d) else mutations d)
    \<and> (v < 3 \<longrightarrow> (\<forall>m \<in> set (mutations d). 1 \<le> number m \<and> number m \<le> int (length (filter (\<lambda>n. mu_skill_id n = mu_skill_id m) (mutations d)))
          \<and> (\<forall>n \<in> set (mutations d). mu_skill_id m = mu_skill_id n \<longrightarrow>
               (number m < number n \<longleftrightarrow> mu_created_at m < mu_created_at n \<or> mu_created_at m = mu_created_at n \<and> mu_id m < mu_id n))))
    \<and> profiles d' = profiles d \<and> deployments d' = deployments d
    \<and> cache_max_bytes d' = (if v < 2 then 2147483648 else cache_max_bytes d)
    \<and> sync d' = (if v < 3 then \<lparr>sy_protocol_version = 1, sy_client_instance_id = None, sy_device_id = None, sy_server_user_id = None,
          sy_server_url = None, sy_login_identity = None, sy_server_cursor = None, sy_last_push_at = None, sy_last_pull_at = None,
          sy_last_server_error = None\<rparr> else (sync d)\<lparr>sy_server_url := None, sy_login_identity := None\<rparr>)
    \<and> entitlements d' = (if v < 4 then [] else entitlements d) \<and> prefs d' = (if v < 5 then [] else prefs d)
    \<and> schema_versions d' = schema_versions d @ [v + 1..6]"
proof -
  have v: "0 \<le> v" "v \<le> 6" "v \<in> {1, 2, 3, 4, 5}" using assms(2,3) version_cases [of v] by auto
  note pend = pending_chain [OF v(1,2)]
  let ?d = "upgraded (pending_migrations v) d"
  have "at_version 6 ?d" using chain_upgraded [OF _ assms(1)] pend by metis
  then have "schema_ok ?d" by (simp add: at_version_def latest_schema)
  moreover have "open_store path \<lparr>in_live = d, in_backup = NoBackup\<rparr> [] = Opened () \<lparr>in_live = ?d, in_backup = Backup d\<rparr> []"
    using run_migrations_smooth [OF conjunct1 [OF pend], of "\<lparr>in_live = d, in_backup = Backup d\<rparr>"] assms pending_none [OF v(1,2)]
    by (simp add: open_store_def open_then_def migrate_def atomically_def sqlite_def at_version_current latest_schema_version_def
        is_fresh_database_def backup_database_def vacuum_into_def)
  moreover have "distinct (map mu_id (mutations d))" if "v < 3"
    using assms(1,2) that by (simp add: at_version_def schema_at_def old_mutations_ok_def)
  moreover have "sync ?d = (if v < 3 then \<lparr>sy_protocol_version = 1, sy_client_instance_id = None, sy_device_id = None, sy_server_user_id = None,
          sy_server_url = None, sy_login_identity = None, sy_server_cursor = None, sy_last_push_at = None, sy_last_pull_at = None,
          sy_last_server_error = None\<rparr> else (sync d)\<lparr>sy_server_url := None, sy_login_identity := None\<rparr>)"
    using kept_rows(5) [OF v(3) refl, of d] by (simp add: empty_sync_def)
  ultimately show ?thesis
    using kept_rows(1-4,6,7) [OF v(3) refl, of d] row_number_bounds row_number_by_age
    by (intro exI [of _ ?d] exI [of _ "row_number (mutations d)"]) (simp only: simp_thms; blast)
qed

section \<open>A copy that is in the way\<close>

text \<open>
  \<open>VACUUM INTO\<close> never overwrites, and nothing deletes or renames the copy of an earlier upgrade: with any copy in
  place, complete or torn, an upgrade is refused, although the comment on \<open>backup_database\<close> says that its failure never
  blocks one.
\<close>

lemma leftover_copies_block_upgrades:
  assumes "at_version v d" and "1 \<le> v" and "v < 6" and "valid_utf8 (backup_path path)" and "b \<noteq> NoBackup"
  shows "open_store path \<lparr>in_live = d, in_backup = b\<rparr> [] = NotOpened (Database SqliteFailure) \<lparr>in_live = d, in_backup = b\<rparr> []"
  using assms pending_none [of v]
  by (simp add: open_store_def open_then_def migrate_def atomically_def sqlite_def at_version_current latest_schema_version_def
      is_fresh_database_def backup_database_def vacuum_into_def)

text \<open>So an upgrade that is interrupted after the copy is never finished by a later start.\<close>

theorem interrupted_upgrades_are_stuck:
  assumes "at_version v d" and "1 \<le> v" and "v < 6" and "valid_utf8 (backup_path path)"
  shows "\<exists>s i. open_store path \<lparr>in_live = d, in_backup = NoBackup\<rparr> s = OpenCut i \<and> in_live i = d
    \<and> open_store path i [] = NotOpened (Database SqliteFailure) i []"
proof (intro exI conjI)
  let ?i = "\<lparr>in_live = d, in_backup = TornBackup\<rparr>"
  show "open_store path \<lparr>in_live = d, in_backup = NoBackup\<rparr> [Go, Go, Go, Go, Go, Go, Crash 1] = OpenCut ?i"
    using assms pending_none [of v]
    by (simp add: open_store_def open_then_def migrate_def atomically_def sqlite_def at_version_current latest_schema_version_def
        is_fresh_database_def backup_database_def vacuum_into_def)
  show "in_live ?i = d" by simp
  show "open_store path ?i [] = NotOpened (Database SqliteFailure) ?i []"
    by (rule leftover_copies_block_upgrades [OF assms]) simp
qed

section \<open>Example\<close>

definition legacy_skill :: skill_row where
  "legacy_skill = \<lparr>sk_id = ''s1'', sk_remote_id = None, sk_name = ''Legacy'', sk_slug = ''legacy'', sk_workspace_path = ''/w'',
     sk_current_blob_hash = ''sha256:legacy'', sk_remote_blob_hash = None, sk_remote_revision = None, sk_sync_state = Dirty,
     sk_pinned = False, sk_created_at = 1, sk_updated_at = 5, sk_last_accessed_at = Some 5\<rparr>"

definition legacy_mutation :: "string \<Rightarrow> int \<Rightarrow> mutation_row" where
  "legacy_mutation i created = \<lparr>mu_id = i, mu_skill_id = ''s1'', mu_local_sequence = 0, mu_operation = Update, mu_base_revision = None,
     mu_payload_hash = ''sha256:x'', mu_state = Pending, mu_retry_count = 0, mu_next_attempt_at = None, mu_last_attempt_at = None,
     mu_server_error_code = None, mu_server_error_details = None, mu_ack_remote_revision = None, mu_ack_remote_id = None,
     mu_last_error = None, mu_created_at = created, mu_updated_at = created\<rparr>"

definition legacy_store :: store where
  "legacy_store = fresh_store\<lparr>skills := [legacy_skill], mutations := [legacy_mutation ''b'' 7, legacy_mutation ''a'' 7, legacy_mutation ''c'' 3],
     schema_versions := [1, 2]\<rparr>"

lemma legacy_version: "at_version 2 legacy_store" "valid_utf8 (backup_path ''/d/skillhive.sqlite3'')"
  by code_simp+

theorem upgrades_keep_every_row_witness:
  "\<exists>d'. open_store ''/d/skillhive.sqlite3'' \<lparr>in_live = legacy_store, in_backup = NoBackup\<rparr> []
      = Opened () \<lparr>in_live = d', in_backup = Backup legacy_store\<rparr> []
    \<and> schema_ok d' \<and> skills d' = [legacy_skill] \<and> map mu_local_sequence (mutations d') = [3, 2, 1]"
proof -
  let ?a = "legacy_mutation ''a'' 7" and ?b = "legacy_mutation ''b'' 7" and ?c = "legacy_mutation ''c'' 3"
  have s: "skills legacy_store = [legacy_skill]" "mutations legacy_store = [?b, ?a, ?c]" by (simp_all add: legacy_store_def)
  have l: "legacy_skill\<lparr>sk_remote_blob_hash := None\<rparr> = legacy_skill" by (simp add: legacy_skill_def)
  have a: "mu_id (legacy_mutation i t) = i" "mu_created_at (legacy_mutation i t) = t" "mu_skill_id (legacy_mutation i t) = ''s1''" for i t
    by (simp_all add: legacy_mutation_def)
  have lt: "''a'' < (''b'' :: string)" by code_simp
  obtain d' number
    where r: "open_store ''/d/skillhive.sqlite3'' \<lparr>in_live = legacy_store, in_backup = NoBackup\<rparr> []
        = Opened () \<lparr>in_live = d', in_backup = Backup legacy_store\<rparr> []" and ok: "schema_ok d'"
      and k: "skills d' = [legacy_skill]"
      and m: "mutations d' = map (\<lambda>m. m\<lparr>mu_local_sequence := number m, mu_next_attempt_at := None,
          mu_last_attempt_at := None, mu_server_error_code := None, mu_server_error_details := None,
          mu_ack_remote_revision := None, mu_ack_remote_id := None\<rparr>) (mutations legacy_store)"
      and n: "\<forall>m\<in>set (mutations legacy_store). 1 \<le> number m \<and> number m \<le> int (length (filter (\<lambda>n. mu_skill_id n = mu_skill_id m) (mutations legacy_store)))
          \<and> (\<forall>n \<in> set (mutations legacy_store). mu_skill_id m = mu_skill_id n \<longrightarrow>
               (number m < number n \<longleftrightarrow> mu_created_at m < mu_created_at n \<or> mu_created_at m = mu_created_at n \<and> mu_id m < mu_id n))"
    using upgrades_keep_every_row [OF legacy_version(1) _ _ legacy_version(2)] l by (auto simp: s(1))
  have "number ?c < number ?a" "number ?a < number ?b" "1 \<le> number ?c" "number ?b \<le> 3"
    using n by (simp_all add: s(2) a lt)
  then have "number ?b = 3 \<and> number ?a = 2 \<and> number ?c = 1" by linarith
  with r ok k show ?thesis by (intro exI [of _ d']) (simp add: m s)
qed

text \<open>The process dies in the third transaction of an upgrade.\<close>

theorem upgrades_move_in_whole_steps_witness:
  "case open_store ''/d/skillhive.sqlite3'' \<lparr>in_live = legacy_store, in_backup = NoBackup\<rparr> [Go, Go, Go, Go, Go, Go, Go, Go, Go, Crash 0] of
      OpenCut i \<Rightarrow> current_version (in_live i) = 4
        \<and> (\<exists>ps. prefix ps (pending_migrations 2) \<and> in_live i = upgraded ps legacy_store \<and> schema_at (2 + int (length ps)) (in_live i))
    | _ \<Rightarrow> False"
proof -
  let ?r = "open_store ''/d/skillhive.sqlite3'' \<lparr>in_live = legacy_store, in_backup = NoBackup\<rparr> [Go, Go, Go, Go, Go, Go, Go, Go, Go, Crash 0]"
  have r: "case ?r of OpenCut i \<Rightarrow> current_version (in_live i) = 4 | _ \<Rightarrow> False" by code_simp
  show ?thesis using r upgrades_move_in_whole_steps [OF legacy_version(1) refl, where path = "''/d/skillhive.sqlite3''" and b = NoBackup and s =
      "[Go, Go, Go, Go, Go, Go, Go, Go, Go, Crash 0]"] by (auto split: opened.splits)
qed

theorem interrupted_upgrades_are_stuck_witness:
  "\<exists>s i. open_store ''/d/skillhive.sqlite3'' \<lparr>in_live = legacy_store, in_backup = NoBackup\<rparr> s = OpenCut i \<and> in_live i = legacy_store
    \<and> open_store ''/d/skillhive.sqlite3'' i [] = NotOpened (Database SqliteFailure) i []"
  using interrupted_upgrades_are_stuck [OF legacy_version(1) _ _ legacy_version(2)] by simp

end
