(* ===== verification/Program.thy ===== *)
theory Program
  imports Command_Safety Startup_Safety Sign_In Sync_Properties
begin

text \<open>
  The program as its user sees it: starts, the commands the window may call (\<open>generate_handler!\<close> in
  \<open>lib.rs\<close>) and the cycles of the worker, in any order, each with its own failures and each possibly the
  last thing the process does. Store and disk outlive the process. Every one of them moves the store by a
  history of the store's own commands, so that the contract of the outbox is one of the whole program.
\<close>

section \<open>Actions\<close>

text \<open>The commands that only read are left out. The clients a sign-in starts with are an argument.\<close>

datatype program_action =
  Start startup_env
| Cycle sync_env server
| DiscoverAgents startup_env
| SaveAgentProfile desktop upsert_profile
| CreateSkillWorkspace desktop string string string
| ImportSkillZip desktop "path option" string string "string list" string string
| ExportSkillZip desktop "path option" string
| CommitWorkspace desktop string "string list" commit_request
| ReleaseWorkspace desktop "string list" string
| DeploySkill desktop server string string string
| DeployBatch desktop server "string list" string "string list"
| SetDeploymentPrefs desktop "string option" "string list"
| HydrateWorkspace desktop server string
| UninstallSkill uninstaller string sqlite_faults string string
| EnforceCache desktop
| SetCacheBudget desktop nat
| DesktopLogin sign_in_env boundary boundary string string clients
| DesktopLogout sign_in_env boundary clients
| RestoreSession sign_in_env boundary clients
| SetServerUrl sign_in_env string clients
| ResolveConflict desktop string string string bool

definition left_by :: "('e, 'a) ending \<Rightarrow> store \<times> node" where
  "left_by r = (store_after r, disk (world_after r))"

fun perform :: "program_action \<Rightarrow> store \<Rightarrow> world \<Rightarrow> store \<times> node" where
  "perform (Start env) d w = left_by (startup env d w)"
| "perform (Cycle env sv) d w = left_by (sync_now env sv d w)"
| "perform (DiscoverAgents env) d w = left_by (discover_agents env d w)"
| "perform (SaveAgentProfile k p) d w = left_by (save_agent_profile k p d w)"
| "perform (CreateSkillWorkspace k uuid skill initial) d w = left_by (create_skill_workspace k uuid skill initial d w)"
| "perform (ImportSkillZip k picked skill m uuids name slug) d w =
     left_by (import_skill_zip_from_dialog k picked skill m uuids name slug d w)"
| "perform (ExportSkillZip k picked skill) d w = left_by (export_skill_zip_to_dialog k picked skill d w)"
| "perform (CommitWorkspace k m uuids q) d w = left_by (commit_local_skill_workspace k m uuids q d w)"
| "perform (ReleaseWorkspace k uuids skill) d w = left_by (release_skill_workspace k uuids skill d w)"
| "perform (DeploySkill k sv tx skill profile) d w = left_by (deploy_skill_to_agent k sv tx skill profile d w)"
| "perform (DeployBatch k sv txs skill ids) d w = left_by (deploy_skill_batch k sv txs skill ids d w)"
| "perform (SetDeploymentPrefs k skill ids) d w = left_by (set_deployment_prefs k skill ids d w)"
| "perform (HydrateWorkspace k sv skill) d w = left_by (hydrate_skill_workspace k sv skill d w)"
| "perform (UninstallSkill u tx fs skill profile) d w =
     map_prod id run_disk (uninstall_skill_from_agent u tx fs skill profile d w)"
| "perform (EnforceCache k) d w = left_by (enforce_local_cache k d w)"
| "perform (SetCacheBudget k budget) d w = left_by (set_local_cache_policy k budget d w)"
| "perform (DesktopLogin env b b' url username c) d w = left_by (desktop_login env b b' url username c d w)"
| "perform (DesktopLogout env b c) d w = left_by (desktop_logout env b c d w)"
| "perform (RestoreSession env b c) d w = left_by (desktop_restore_session env b c d w)"
| "perform (SetServerUrl env url c) d w = left_by (set_server_url env url c d w)"
| "perform (ResolveConflict k m skill mode confirmed) d w = left_by (resolve_conflict k m skill mode confirmed d w)"

fun run_program :: "(program_action \<times> fault list) list \<Rightarrow> store \<Rightarrow> node \<Rightarrow> store \<times> node" where
  "run_program [] d x = (d, x)"
| "run_program ((a, s) # as) d x = (case perform a d \<lparr>disk = x, schedule = s\<rparr> of (d', x') \<Rightarrow> run_program as d' x')"

section \<open>Actions as histories of the store\<close>

abbreviation spares :: "mutation_row \<Rightarrow> store_cmd \<Rightarrow> bool" where
  "spares m c \<equiv> \<not> settles c m"

abbreviation sparing :: "mutation_row \<Rightarrow> ('e, 'a) app \<Rightarrow> bool" where
  "sparing m \<equiv> command_moves.moves (spares m)"

text \<open>What an action must not do to the mutation: acknowledge it, or resolve a conflict of its skill.\<close>

definition never_acks :: "server \<Rightarrow> mutation_row \<Rightarrow> bool" where
  "never_acks sv m \<longleftrightarrow> (\<forall>request response. sv_submit sv request = Inr response \<longrightarrow> mr_status response = ''acked''
     \<longrightarrow> mr_mutation_id response \<noteq> mu_id m)"

definition others_spare :: "mutation_row \<Rightarrow> desktop \<Rightarrow> bool" where
  "others_spare m k \<longleftrightarrow> (\<forall>n p d x. by_commands (spares m) d (fst (he_others (dk_hydrate k) n p (d, x))))"

fun leaves_queued :: "mutation_row \<Rightarrow> program_action \<Rightarrow> bool" where
  "leaves_queued m (Cycle env sv) \<longleftrightarrow> never_acks sv m"
| "leaves_queued m (ResolveConflict k mid skill mode confirmed) \<longleftrightarrow> \<not> (confirmed \<and> skill = mu_skill_id m)"
| "leaves_queued m (DeploySkill k sv tx skill profile) \<longleftrightarrow> others_spare m k"
| "leaves_queued m (DeployBatch k sv txs skill ids) \<longleftrightarrow> others_spare m k"
| "leaves_queued m (HydrateWorkspace k sv skill) \<longleftrightarrow> others_spare m k"
| "leaves_queued m _ \<longleftrightarrow> True"

lemma by_commands_mono: "by_commands P d d' \<Longrightarrow> (\<And>c. P c \<Longrightarrow> Q c) \<Longrightarrow> by_commands Q d d'"
  unfolding by_commands_def list_all_iff by blast

lemma moves_mono: "command_moves.moves P n \<Longrightarrow> (\<And>c. P c \<Longrightarrow> Q c) \<Longrightarrow> command_moves.moves Q n"
  unfolding command_moves.moves_def using by_commands_mono by blast

text \<open>The transactions of the commands, one store command each.\<close>

lemma sparing_transactions:
  "sparing m (transact (get_skill skill now))"
  "sparing m (transact (commit_skill_edit ed mid now))"
  "sparing m (transact (recover_in_flight_mutations now))"
  "sparing m (transact (expire_due_entitlements display instant now))"
  "sparing m (transact (record_deployment q))"
  "sparing m (transact (upsert_agent_profile ag p))"
  "sparing m (transact (set_default_deployment_targets encode ids))"
  "sparing m (transact (set_skill_deployment_targets encode skill ids))"
  "sparing m (transact (set_cache_policy budget))"
  "sparing m (transact (mark_row_hydrated skill expected place now))"
  "sparing m (transact (ensure_client_instance_id uuid))"
  subgoal by (rule moves_by_command, rule exI [of _ "ReadSkill skill now"]) simp
  subgoal by (rule moves_by_command, rule exI [of _ "CommitEdit ed mid now"]) simp
  subgoal by (rule moves_by_command, rule exI [of _ "Recover now"]) simp
  subgoal by (rule moves_by_command, rule exI [of _ "ExpireLeases display instant now"]) simp
  subgoal by (rule moves_by_command, rule exI [of _ "Catalog (SaveDeployment q)"]) simp
  subgoal by (rule moves_by_command, rule exI [of _ "Catalog (SaveProfile ag p)"]) simp
  subgoal by (rule moves_by_command, rule exI [of _ "SaveDefaultTargets encode ids"]) simp
  subgoal by (rule moves_by_command, rule exI [of _ "SaveSkillTargets encode skill ids"]) simp
  subgoal by (rule moves_by_command, rule exI [of _ "SetCachePolicy budget"]) simp
  subgoal by (rule moves_by_command, rule exI [of _ "Hydrate skill expected place now"]) simp
  subgoal by (rule moves_by_command, rule exI [of _ "EnsureClientInstance uuid"]) simp
  done

lemma sparing_resolutions:
  assumes "\<not> (confirmed \<and> skill = mu_skill_id m)"
  shows "sparing m (transact (resolve_keep_local skill confirmed mid now))"
    and "sparing m (transact (resolve_keep_remote skill confirmed now))"
  subgoal by (rule moves_by_command, rule exI [of _ "KeepLocal skill confirmed mid now"]) (use assms in simp)
  subgoal by (rule moves_by_command, rule exI [of _ "KeepRemote skill confirmed now"]) (use assms in simp)
  done

lemma sparing_desk_store: "sparing m (transact f) \<Longrightarrow> sparing m (desk_store f c)"
  by (auto simp: desk_store_def desk_result_def desk_raise_def desk_give_def intro!: command_moves.moves_rules split: sum.split)

lemma sparing_scope:
  assumes "\<And>d. f d = scope_step op d" shows "sparing m (desk_write f c)"
proof -
  have "sparing m (store_write f)" by (rule moves_by_write, rule exI [of _ "Scope op"]) (simp add: assms)
  then show ?thesis unfolding desk_write_def store_write_def by (rule sparing_desk_store)
qed

lemma sparing_scopes:
  "sparing m (desk_write (prepare_login_scope url username) c)"
  "sparing m (desk_write (record_authenticated_device url username client device user) c)"
  "sparing m (desk_write (prepare_server_switch url) c)"
  "sparing m (desk_write invalidate_authenticated_scope c)"
  by (rule sparing_scope [where op = "PrepareLogin url username"], simp)
    (rule sparing_scope [where op = "RecordDevice url username client device user"], simp,
     rule sparing_scope [where op = "Switch url"], simp, rule sparing_scope [where op = Logout], simp)

lemma sparing_cache: "sparing m (enforce_cache_budget env)"
  by (rule moves_mono [OF enforce_moves]) (auto elim!: eviction_claim.elims)

lemma sparing_see: "(\<And>x. sparing m (f x)) \<Longrightarrow> sparing m (see_disk f)"
  and sparing_at: "(\<And>d. sparing m (g d)) \<Longrightarrow> sparing m (at_store g)"
  by (simp_all add: command_moves.moves_def see_disk_def at_store_def)

lemmas sparing_rules = command_moves.moves_rules sparing_transactions sparing_cache sparing_see sparing_at

subsection \<open>Commands\<close>

lemma sparing_reads:
  "sparing m (ask_store f) = sparing m (app_err StoreFailed (transact f))"
  "sparing m (look_up g)" "sparing m (managed_workspace k skill)" "sparing m (capture k uuids place)"
  "sparing m (cache_attempt k)" "sparing m (read_skill k missing skill)"
  by (auto simp: ask_store_def look_up_def managed_workspace_def capture_def cache_attempt_def read_skill_def Let_def
      intro!: sparing_rules)

lemmas sparing_steps = sparing_rules sparing_reads(2-) sparing_reads(1) [THEN iffD2]

lemma sparing_workspaces:
  "sparing m (create_skill_workspace k uuid skill initial)"
  "sparing m (commit_local_skill_workspace k mid uuids q)"
  "sparing m (release_skill_workspace k uuids skill)"
  by (auto simp: create_skill_workspace_def commit_local_skill_workspace_def release_skill_workspace_def release_found_def
      intro!: sparing_steps split: option.split)

lemma sparing_archives:
  "sparing m (import_skill_zip_from_dialog k picked skill mid uuids name slug)"
  "sparing m (export_skill_zip_to_dialog k picked skill)"
  by (auto simp: import_skill_zip_from_dialog_def export_skill_zip_to_dialog_def find_local_skill_def
      intro!: sparing_steps split: option.split)

lemma sparing_meanwhile: "others_spare m k \<Longrightarrow> sparing m (meanwhile (he_others (dk_hydrate k) n p))"
proof -
  assume o: "others_spare m k"
  have "by_commands (spares m) d (fst (he_others (dk_hydrate k) n p (d, disk w)))" for d and w :: world
    using o by (simp add: others_spare_def)
  then show ?thesis
    by (auto simp: command_moves.moves_def meanwhile_def store_after_def split: prod.split) (metis fst_conv)
qed

lemma sparing_hydrate:
  assumes "others_spare m k" shows "sparing m (hydrate_skill (dk_hydrate k) sv skill)"
proof -
  have promote: "sparing m (promote (dk_hydrate k) n skill hash outcome)" for n hash outcome
    by (auto simp: promote_def refused_def mark_skill_hydrated_def intro!: sparing_steps sparing_meanwhile [OF assms] split: sum.split store_error.split)
  have "sparing m (hydrate_turn (dk_hydrate k) sv skill n)" for n
    by (auto simp: hydrate_turn_def hydrate_row_def lay_out_def Let_def intro!: sparing_steps sparing_meanwhile [OF assms] promote)
  then have "sparing m (hydrate_loop (dk_hydrate k) sv skill n)" for n
    by (induction n) (auto intro!: sparing_steps split: option.split)
  then show ?thesis by (simp add: hydrate_skill_def)
qed

lemma sparing_deploy:
  assumes "others_spare m k"
  shows "sparing m (deploy_skill_to_agent k sv tx skill profile)" and "sparing m (deploy_skill_batch k sv txs skill ids)"
proof -
  have one: "sparing m (deploy_single k tx skill profile)" for tx profile
    by (auto simp: deploy_single_def enter_in_catalog_def intro!: sparing_steps)
  have needed: "sparing m (hydrate_if_needed k sv skill)"
    by (auto simp: hydrate_if_needed_def intro!: sparing_steps sparing_hydrate [OF assms])
  have "sparing m (deploy_each k txs skill ids)" for txs
    by (induction ids arbitrary: txs) (auto intro!: sparing_steps one)
  then show "sparing m (deploy_skill_to_agent k sv tx skill profile)" "sparing m (deploy_skill_batch k sv txs skill ids)"
    using one needed by (auto simp: deploy_skill_to_agent_def deploy_skill_batch_def intro!: command_moves.moves_then)
qed

lemma sparing_settings:
  "sparing m (save_agent_profile k p)" "sparing m (set_deployment_prefs k chosen ids)"
  "sparing m (enforce_local_cache k)" "sparing m (set_local_cache_policy k budget)"
  by (auto simp: save_agent_profile_def set_deployment_prefs_def get_deployment_prefs_def enforce_local_cache_def
      set_local_cache_policy_def intro!: sparing_steps split: option.split)

subsection \<open>Starts\<close>

lemma sparing_replay: "sparing m (replay_commits k cs)"
  by (induction cs) (auto simp: replay_commit_def replay_verified_def intro!: sparing_steps split: sum.split)

lemma sparing_agents: "sparing m (discover_and_reconcile_agents env)"
proof -
  have one: "sparing m (reconcile_instance env i r)" for i r
    by (auto simp: reconcile_instance_def Let_def intro!: sparing_steps)
  have "sparing m (reconcile_instances env is r)" for "is" r
    by (induction "is" arbitrary: r) (auto intro!: sparing_steps one)
  then have "sparing m (reconcile_results env rs)" for rs
    by (induction rs) (auto intro!: sparing_steps)
  then show ?thesis by (auto simp: discover_and_reconcile_agents_def Let_def intro!: sparing_steps)
qed

lemma sparing_startup: "sparing m (startup env)"
  by (auto simp: startup_def after_requeue_def open_stores_def reconcile_uninstalls_def Let_def
      intro!: sparing_steps sparing_replay sparing_agents)

subsection \<open>Sign-in\<close>

lemma sparing_desk:
  "sparing m (desk_give a c)" "sparing m (desk_raise e c)" "sparing m (desk_result r c)" "sparing m (desk_set g c)"
  "sparing m (desk_disk n c)" "sparing m (call_client env op c)"
  by (auto simp: desk_give_def desk_raise_def desk_result_def desk_set_def desk_disk_def call_client_def
      intro!: command_moves.moves_rules split: sum.split prod.split)

lemma sparing_desk_then: "sparing m (n c) \<Longrightarrow> (\<And>a c. sparing m (f a c)) \<Longrightarrow> sparing m (desk_then n f c)"
  and sparing_desk_try: "sparing m (n c) \<Longrightarrow> sparing m (desk_try n c)"
  by (auto simp: desk_then_def desk_try_def intro!: command_moves.moves_rules sparing_desk split: sum.split)

lemma sparing_or_sign_out: "sparing m (n c) \<Longrightarrow> sparing m (or_sign_out env b n c)"
  by (auto simp: or_sign_out_def intro!: sparing_desk_then sparing_desk_try sparing_desk split: sum.split)

lemmas sparing_desk_rules = sparing_desk sparing_desk_then sparing_desk_try sparing_or_sign_out sparing_scopes
  sparing_desk_store [OF sparing_transactions(11)]

lemma sparing_keep_sign_in: "sparing m (keep_sign_in env b' url username device expires c)"
  by (auto simp: keep_sign_in_def intro!: sparing_desk_rules)

lemma sparing_login: "sparing m (desktop_login env b b' url username c)"
proof -
  have "sparing m (prepare_client env u c)" for u c by (auto simp: prepare_client_def intro!: sparing_desk_rules)
  then have "sparing m (sign_in env b b' u username c)" for u c
    by (auto simp: sign_in_def intro!: sparing_desk_rules sparing_keep_sign_in)
  then show ?thesis by (auto simp: desktop_login_def intro!: sparing_desk_rules)
qed

lemma sparing_session:
  "sparing m (desktop_logout env b c)" "sparing m (desktop_restore_session env b c)" "sparing m (set_server_url env url c)"
  by (auto simp: desktop_logout_def desktop_restore_session_def set_server_url_def call_current_def
      intro!: sparing_desk_rules)

section \<open>The whole program\<close>

lemma sparing_cycle: assumes "never_acks sv m" shows "sparing m (sync_now env sv)"
proof -
  have "\<not> settles cmd m" if "cycle_cmd env sv cmd" for cmd
    using that assms by (cases cmd) (auto simp: into_outcome_def never_acks_def)
  then show ?thesis unfolding sync_now_def by (intro command_moves.moves_err moves_mono [OF cycle_is_history])
qed

lemma sparing_resolve: "\<not> (confirmed \<and> skill = mu_skill_id m) \<Longrightarrow> sparing m (resolve_conflict k mid skill mode confirmed)"
  using sparing_resolutions by (auto simp: resolve_conflict_def intro!: sparing_steps)

lemma uninstall_by_catalog: "by_commands (spares m) d (fst (uninstall_skill_from_agent u tx fs skill profile d w))"
proof -
  have "by_commands (spares m) d d'" if "db_answer gs (remove_deployment_catalog s p h t d) = Inr (d', r)" for gs s p h t d' r
    by (rule by_command [where c = "Catalog (RemoveDeployment s p h t)"]) (use db_answer_Inr [OF that] in simp_all)
  then show ?thesis
    by (auto simp: uninstall_skill_from_agent_def by_commands_refl split: sum.split run.split prod.split)
qed

lemma action_spares: "leaves_queued m a \<Longrightarrow> by_commands (spares m) d (fst (perform a d w))"
  by (cases a) (auto simp: left_by_def discover_agents_def hydrate_skill_workspace_def
      intro!: command_moves.movesD sparing_startup sparing_cycle sparing_workspaces sparing_archives sparing_deploy sparing_settings
        sparing_hydrate sparing_login sparing_session sparing_resolve uninstall_by_catalog sparing_agents command_moves.moves_err)

lemma program_spares:
  "\<forall>(a, s) \<in> set as. leaves_queued m a \<Longrightarrow> by_commands (spares m) d (fst (run_program as d x))"
proof (induction as d x rule: run_program.induct)
  case (2 a s as d x)
  obtain d' x' where a: "perform a d \<lparr>disk = x, schedule = s\<rparr> = (d', x')" by force
  then have "by_commands (spares m) d d'" using 2(2) action_spares [of m a d "\<lparr>disk = x, schedule = s\<rparr>"] by simp
  then show ?case using 2(1) [OF a [symmetric]] 2(2) by_commands_trans by (fastforce simp: a)
qed (simp add: by_commands_refl)

text \<open>C3: The program never loses an edit. Over any history of starts, commands and cycles, whatever fails in
  each of them and wherever the process dies, a queued mutation is still in the outbox, with its content and its
  place among the edits of its skill, unless the server acknowledged it by its id or the user confirmed a
  resolution of a conflict of its skill; and in every state reached the work in flight is causal. (What other
  threads commit while a skill is hydrated may not settle it either.)\<close>

theorem the_program_never_loses_work:
  assumes "outbox_inv d" and "m \<in> set (mutations d)" and "mu_state m \<noteq> Acked"
    and "\<forall>(a, s) \<in> set history. leaves_queued m a"
  shows "still_queued m (fst (run_program history d x)) \<and> outbox_inv (fst (run_program history d x))"
  using by_commands_queued [OF program_spares [OF assms(4)] assms(1-3)] by blast

end
