(* ===== verification/Program_Samples.thy ===== *)
theory Program_Samples
  imports Program Command_Samples Sync_Samples Sign_In_Samples
begin

text \<open>
  A history of the whole program: a start, a commit whose transaction fails, a cycle in which the process dies,
  another start, a logout and a cycle against a server that refuses the session.
\<close>

definition sample_program :: "(program_action \<times> fault list) list" where
  "sample_program =
     [(Start sample_startup, []), (CommitWorkspace sample_desktop ''m9'' [''a'', ''b''] sample_commit, [Go, Fail 0]),
      (Cycle cycle_env expired_server, [Go, Go, Crash 0]), (Start sample_startup, []),
      (DesktopLogout sample_sign_in sample_boundary alice, []), (Cycle cycle_env expired_server, []),
      (DeploySkill sample_desktop expired_server ''t1'' ''s1'' ''p'', [])]"

theorem the_program_never_loses_work_witness:
  "still_queued (queued_row ''m1'' ''s1'' Update) (fst (run_program sample_program bound_store startup_disk))
   \<and> outbox_inv (fst (run_program sample_program bound_store startup_disk))"
proof -
  have m: "queued_row ''m1'' ''s1'' Update \<in> set (mutations bound_store)" "mu_state (queued_row ''m1'' ''s1'' Update) \<noteq> Acked"
    by code_simp+
  have "he_others hydrate_sample = (\<lambda>_ _ here. here)" by (simp add: hydrate_sample_def)
  then have "\<forall>(a, s) \<in> set sample_program. leaves_queued (queued_row ''m1'' ''s1'' Update) a"
    by (simp add: sample_program_def never_acks_def others_spare_def expired_server_def sample_desktop_def by_commands_refl)
  then show ?thesis by (rule the_program_never_loses_work [OF bound_store_inv m])
qed

end
