(* ===== verification/Spec2Isabelle.thy ===== *)
theory Spec2Isabelle
  imports Store_Machine Deploy_Samples Uninstall_Samples Sync_Samples Cache_Samples Hydration_Samples Archive_Samples Sign_In_Samples Command_Samples Sync_Worker Migrations Program_Samples
begin

text \<open>
  SkillHive's desktop agent, the Rust program under \<open>src/frontend/src-tauri/src\<close>. It keeps agent skills in a
  local SQLite store with a durable outbox of edits, synchronizes them with a server, keeps their packages in a
  content-addressed blob store, lays them out as folders the user edits, and copies them into the directories
  of coding agents. The file names below are relative to that directory.

  \<^bold>\<open>Reading the model.\<close> Each Rust function is a definition of the same name, with its guards and early
  returns in the order of the code. A Rust \<open>Result\<close> is a sum with the error on the left. A database operation
  is a function from \<open>store\<close>, the tables as lists of rows in insertion order, to the new store or the error; a
  transaction that fails leaves the store as it was, and every write is checked against the schema's primary
  keys, foreign keys and CHECK constraints (\<open>schema_ok\<close>). A program over files is a function of a \<open>world\<close>: the
  disk, a tree of named nodes, and a schedule with one entry for each system call, which lets the call through,
  fails it, or ends the process there, with a write cut short. Programs over both are of type \<open>app\<close>; a
  transaction consults the schedule as a system call does. Theorems that say ``whatever fails and wherever the
  process dies'' quantify over all schedules. Strings are lists of bytes. Machine integers are unbounded where
  the code checks for overflow, the check being in the model, and wrap where the code wraps.

  \<^bold>\<open>Parameters.\<close> Code that is not in the repository is an argument: the SHA-256 function (only the form of a
  digest is assumed), the JSON reader and writer of manifests (assumed to return UTF-8 strings; journals assume
  in addition that a record reads back and no proper prefix of it does), RFC 3339 times, the operating system's
  keyring, fresh UUIDs, the order in which hash maps are iterated, and the server, which answers anything at all.

  \<^bold>\<open>Foundations.\<close>
  \<^item> \<open>Prelude\<close>: results, SQL on lists of rows, decimal numbers, traces of steps.
  \<^item> \<open>Paths\<close>, \<open>Portable_Paths\<close>: \<open>std::path\<close> on Unix, and the portable relative paths of manifests.
  \<^item> \<open>Files\<close>, \<open>File_Rules\<close>: the file system, programs over it, \<open>wlp\<close> (weakest precondition under faults),
    \<open>keeps\<close> (an invariant of every intermediate state), \<open>confined\<close> (writes below one path only).
  \<^item> \<open>App\<close>: programs over store and files, \<open>awp\<close>, and the locale \<open>store_moves\<close> for relations every
    transaction of a program respects.

  \<^bold>\<open>The local store\<close> (\<open>local_store.rs\<close>, \<open>local_store/\<close>).
  \<^item> \<open>Local_Store\<close>: enums with their database spelling, rows, constraints.
  \<^item> \<open>Mutations\<close>, \<open>Outbox\<close>, \<open>Outbox_Properties\<close>: the durable outbox. \<open>Outbox\<close> holds the contract, the locale
    \<open>outbox_operation\<close>: an operation keeps the causal order of the mutations of a skill and never drops one.
    Every operation of the store interprets it.
  \<^item> \<open>Outcomes\<close>: the effect of the server's answers; \<open>Conflicts\<close>: keep-local and keep-remote; \<open>Pull_Apply\<close>,
    \<open>Pull_Properties\<close>: a page of the change feed; \<open>Sync_Scope\<close>: the server and account the data belongs to;
    \<open>Entitlements\<close>: leases and their expiry; \<open>Skill_Records\<close>: reads, hydration and eviction of a skill;
    \<open>Deployments\<close>, \<open>Prefs\<close>: the catalog of deployments and the preferred targets.
  \<^item> \<open>Migrations\<close> (\<open>local_store/migrations.rs\<close>): the steps between schema versions as what they do to the rows, the
    copy before an upgrade, and the opening of the store; it has its own faults, one for each call of SQLite.
  \<^item> \<open>Store_Machine\<close>: the commands of the store as one step relation, and what holds in every history.

  \<^bold>\<open>Content\<close>.
  \<^item> \<open>Blob_Store\<close> (\<open>blob_store.rs\<close>): a write adds one whole blob or nothing.
  \<^item> \<open>Snapshots\<close>, \<open>Snapshot_Properties\<close>, \<open>Materialize\<close> (\<open>skill_snapshot.rs\<close>, \<open>snapshot_verifier.rs\<close>): manifests,
    capture of a folder, layout of a snapshot, verification and its equivalence with the set of files.
  \<^item> \<open>Workspaces\<close>, \<open>Workspace_Safety\<close> (\<open>workspace.rs\<close>): the folders the user edits; a replacement never loses one.
  \<^item> \<open>Captures\<close>: what a capture returns verifies, and the blob store only grows.
  \<^item> \<open>Archives\<close>, \<open>Archive_Safety\<close> (\<open>workspace/zip.rs\<close>, \<open>workspace/import.rs\<close>): skills from outside.
  \<^item> \<open>Cache_Manager\<close>, \<open>Cache_Safety\<close> (\<open>cache_manager.rs\<close>): the budget of the blob store.

  \<^bold>\<open>Synchronization\<close>.
  \<^item> \<open>Sync_Client\<close> (\<open>sync_client.rs\<close>, \<open>credentials.rs\<close>): sessions, tokens, login and logout.
  \<^item> \<open>Sync_Transport\<close> (\<open>sync_transport.rs\<close>, \<open>sync_push.rs\<close>), \<open>Sync_Cycle\<close> (\<open>sync.rs\<close>, \<open>sync_pull.rs\<close>):
    negotiation and upload of a package, one cycle of push and pull.
  \<^item> \<open>Sync_Properties\<close>: a cycle refines histories of store commands; its pull is bounded by a hundred pages.
  \<^item> \<open>Hydration\<close>, \<open>Hydration_Safety\<close> (\<open>hydrate.rs\<close>): the files of a skill known by its metadata only. Between any two calls of
    \<open>hydrate_skill\<close> other threads may change the store in any way and the disk as far as the relation \<open>others_apart\<close> allows.
  \<^item> \<open>Cycle_Disk\<close>: a cycle adds blobs and changes no other file, so the worker is such a thread beside a hydration;
    the locale \<open>disk_moves\<close> for relations every file call of a program respects.

  \<^bold>\<open>Deployment\<close>.
  \<^item> \<open>Agents\<close> (\<open>agent.rs\<close>): which directories belong to which agent.
  \<^item> \<open>Journals\<close>: the append-only journals of \<open>deployment.rs\<close> and \<open>uninstall.rs\<close>, torn records included.
  \<^item> \<open>Deploy_Engine\<close>, \<open>Deploy_Safety\<close> (\<open>deployment.rs\<close>): the transaction, its recovery, its crash safety
    through any number of interrupted recoveries.
  \<^item> \<open>Uninstall_Engine\<close>, \<open>Uninstall_Safety\<close> (\<open>uninstall.rs\<close>), \<open>Uninstall_Command\<close> (\<open>lib.rs\<close>): removal, and its
    agreement with the catalog through restarts.

  \<^bold>\<open>The program\<close> (\<open>lib.rs\<close>).
  \<^item> \<open>Commands\<close>: the commands the window calls, composed of the components above in the order of the code, and
    \<open>Command_Safety\<close>, \<open>Workspace_Commands\<close>: the catalog names what is installed and verified, also in a batch; a
    workspace is released only when it is synchronized; a commit queues what is on the disk.
  \<^item> \<open>Startup\<close>, \<open>Startup_Safety\<close>: setup; nothing stays in flight, no journal is given up before its row is there.
  \<^item> \<open>Server_Config\<close> (\<open>server_config.rs\<close>): the server's address as typed, stored and loaded.
  \<^item> \<open>Sign_In\<close>, \<open>Sign_In_Safety\<close>: login, logout and the change of the server over the worker's client, the
    keyring, the store and the configuration file, with rules in the style of \<open>awp\<close>.
  \<^item> \<open>Sync_Worker\<close> (\<open>sync_worker.rs\<close>): the thread that runs the cycles, second by second; what other
    threads do in between is an event of its own.
  \<^item> \<open>Program\<close>: all of them as actions of one program; any history of starts, commands and cycles is a history of
    store commands, so the contract of the outbox holds for the whole program.

  The theories ending in \<open>Samples\<close> hold concrete states, the witnesses of the properties and the
  counterexamples, evaluated by the simplifier.

  \<^bold>\<open>Recursion and bounds.\<close> No definition has fuel of its own. The loops of the code are bounded by what the code
  bounds them with: a pull by a hundred pages, a hydration by three turns, a push by the claimed batch, a
  recovery by the list of journals. Walks of directories and trees are structural or have a termination proof.

  \<^bold>\<open>Not modelled.\<close> Pragmas, indexes and the lock of the database connection, which do not change rows; HTTP and
  JSON on the wire; the window, the file dialogs and the tray; the log file, which nothing reads and whose
  failures are swallowed. The commands hold one lock from first to last, so they are programs that no other
  command interrupts. The worker's cycles do run beside them: their effects are those of \<open>run_cycle\<close>, which refines
  a history of store commands, and the safety of the store is stated over all histories. The command during whose
  run they matter is the hydration, which reads the row before it lays out the files: there they may act between any two calls
  (a release or a second hydration may not, they wait for the same lock). The other commands and the cycle are modelled
  without such points between their calls. Hash collisions are not excluded; statements speak of digests. The Windows and macOS variants of paths are left aside. The backend, in
  Python, and the web interface, in TypeScript, are other programs; the agent sees the backend through its
  answers only.
\<close>

end
